(* ===== verification/Prelude.thy ===== *)
theory Prelude
  imports Main "HOL-Library.Sublist" "HOL-Library.List_Lexorder" "HOL-Library.Char_ord"
begin

text \<open>
  Shared ground of the development: the fact collections the component theories add to, the
  character and string predicates behind the regular expressions of the sources, decimal strings
  read as big integers, the bounds of JavaScript's safe integers and of the ABI's unsigned
  integers, and the laws of strictly sorted lists that the record validators rely on.

  JavaScript strings are modelled as \<^typ>\<open>string\<close>, one character for one code unit. A code unit
  above 255 has no counterpart; every string the validators accept by regular expression is ASCII,
  and the length and trim tests are exact on the code units that are represented.
\<close>

named_theorems js_simps \<open>evaluation rules of captured records\<close>
named_theorems shape_simps \<open>well-formedness predicates of record fields\<close>

section \<open>Numbers\<close>

definition MAX_SAFE_INTEGER :: int where
  "MAX_SAFE_INTEGER = 2 ^ 53 - 1"

definition MAX_UINT256 :: int where
  "MAX_UINT256 = 2 ^ 256 - 1"

definition MAX_UINT48 :: int where
  "MAX_UINT48 = 2 ^ 48 - 1"

lemma MAX_UINT48_safe: "MAX_UINT48 \<le> MAX_SAFE_INTEGER"
  by (simp add: MAX_UINT48_def MAX_SAFE_INTEGER_def)

lemma MAX_SAFE_INTEGER_pos: "1 \<le> MAX_SAFE_INTEGER"
  by (simp add: MAX_SAFE_INTEGER_def)

section \<open>Character classes and the regular expressions of the sources\<close>

definition dec_digit :: "char \<Rightarrow> bool" where
  "dec_digit c \<longleftrightarrow> c \<in> set ''0123456789''"

definition hex_lower :: "char \<Rightarrow> bool" where
  "hex_lower c \<longleftrightarrow> c \<in> set ''0123456789abcdef''"

definition hex_any :: "char \<Rightarrow> bool" where
  "hex_any c \<longleftrightarrow> c \<in> set ''0123456789abcdefABCDEF''"

definition lower_alnum :: "char \<Rightarrow> bool" where
  "lower_alnum c \<longleftrightarrow> c \<in> set ''abcdefghijklmnopqrstuvwxyz0123456789''"

text \<open>\<open>/^0x[0-9a-f]{n}$/u\<close>: the lowercase fixed-width hex strings (selectors, words, hashes).\<close>

definition lower_hex :: "nat \<Rightarrow> string \<Rightarrow> bool" where
  "lower_hex n s \<longleftrightarrow> length s = n + 2 \<and> take 2 s = ''0x'' \<and> list_all hex_lower (drop 2 s)"

text \<open>\<open>/^0x(?:[0-9a-f]{2})*$/u\<close>: canonical byte strings of any length.\<close>

definition lower_bytes :: "string \<Rightarrow> bool" where
  "lower_bytes s \<longleftrightarrow> even (length s) \<and> take 2 s = ''0x'' \<and> list_all hex_lower (drop 2 s)"

text \<open>\<open>/^(?:0|[1-9][0-9]{0,77})$/u\<close>: canonical decimal integers of at most 78 digits.\<close>

definition decimal_uint :: "string \<Rightarrow> bool" where
  "decimal_uint s \<longleftrightarrow>
     s = ''0'' \<or>
     (s \<noteq> [] \<and> length s \<le> 78 \<and> hd s \<noteq> CHR ''0'' \<and> list_all dec_digit s)"

text \<open>\<open>/^[a-z0-9][a-z0-9._-]{0,63}$/u\<close>: bounded canonical identifiers.\<close>

definition identifier_re :: "string \<Rightarrow> bool" where
  "identifier_re s \<longleftrightarrow>
     s \<noteq> [] \<and> length s \<le> 64 \<and> lower_alnum (hd s) \<and>
     list_all (\<lambda>c. lower_alnum c \<or> c \<in> set ''._-'') (tl s)"

section \<open>Decimal strings as integers\<close>

text \<open>\<open>BigInt(s)\<close> on the decimal strings the validators have accepted.\<close>

definition digit_val :: "char \<Rightarrow> int" where
  "digit_val c = int (of_char c) - 48"

definition BigInt :: "string \<Rightarrow> int" where
  "BigInt s = foldl (\<lambda>acc c. 10 * acc + digit_val c) 0 s"

definition uint256_string :: "string \<Rightarrow> bool" where
  "uint256_string s \<longleftrightarrow> decimal_uint s \<and> BigInt s \<le> MAX_UINT256"

lemma digit_val_nonneg: "dec_digit c \<Longrightarrow> 0 \<le> digit_val c"
  by (auto simp: dec_digit_def digit_val_def)

lemma foldl_digits_nonneg:
  "list_all dec_digit s \<Longrightarrow> 0 \<le> acc \<Longrightarrow> 0 \<le> foldl (\<lambda>a c. 10 * a + digit_val c) acc s"
  by (induction s arbitrary: acc) (auto simp: digit_val_nonneg)

lemma BigInt_nonneg: "decimal_uint s \<Longrightarrow> 0 \<le> BigInt s"
  using foldl_digits_nonneg [of s 0] by (auto simp: decimal_uint_def BigInt_def digit_val_def)

text \<open>A canonical uint256 string denotes a value of the ABI type it is encoded as.\<close>

lemma uint256_string_bounds: "uint256_string s \<Longrightarrow> 0 \<le> BigInt s \<and> BigInt s < 2 ^ 256"
  using BigInt_nonneg by (auto simp: uint256_string_def MAX_UINT256_def)

section \<open>Strings of JavaScript\<close>

definition js_space :: "char \<Rightarrow> bool" where
  "js_space c \<longleftrightarrow> (of_char c :: nat) \<in> {9, 10, 11, 12, 13, 32, 160}"

definition trim :: "string \<Rightarrow> string" where
  "trim s = rev (dropWhile js_space (rev (dropWhile js_space s)))"

definition to_lower :: "char \<Rightarrow> char" where
  "to_lower c =
     (case map_of (zip ''ABCDEFGHIJKLMNOPQRSTUVWXYZ'' ''abcdefghijklmnopqrstuvwxyz'') c of
        None \<Rightarrow> c | Some d \<Rightarrow> d)"

definition to_upper :: "char \<Rightarrow> char" where
  "to_upper c =
     (case map_of (zip ''abcdefghijklmnopqrstuvwxyz'' ''ABCDEFGHIJKLMNOPQRSTUVWXYZ'') c of
        None \<Rightarrow> c | Some d \<Rightarrow> d)"

definition toLowerCase :: "string \<Rightarrow> string" where
  "toLowerCase = map to_lower"

definition toUpperCase :: "string \<Rightarrow> string" where
  "toUpperCase = map to_upper"

text \<open>\<open>value.slice(from, to)\<close> for non-negative bounds.\<close>

definition slice :: "nat \<Rightarrow> nat \<Rightarrow> string \<Rightarrow> string" where
  "slice i j s = take (j - i) (drop i s)"

lemma to_lower_hex: "hex_any c \<Longrightarrow> hex_lower (to_lower c)"
proof -
  have "list_all (\<lambda>c. hex_lower (to_lower c)) ''0123456789abcdefABCDEF''" by code_simp
  then show "hex_any c \<Longrightarrow> hex_lower (to_lower c)" unfolding hex_any_def list_all_iff by blast
qed

lemma to_lower_idem: "hex_lower c \<Longrightarrow> to_lower c = c"
proof -
  have "list_all (\<lambda>c. to_lower c = c) ''0123456789abcdef''" by code_simp
  then show "hex_lower c \<Longrightarrow> to_lower c = c" unfolding hex_lower_def list_all_iff by blast
qed

lemma hex_lower_any: "hex_lower c \<Longrightarrow> hex_any c"
  by (auto simp: hex_any_def hex_lower_def)

lemma length_toLowerCase [simp]: "length (toLowerCase s) = length s"
  by (simp add: toLowerCase_def)

lemma toLowerCase_idem: "list_all hex_lower s \<Longrightarrow> toLowerCase s = s"
  by (induction s) (auto simp: toLowerCase_def to_lower_idem)

section \<open>Strictly sorted lists\<close>

text \<open>
  The validators walk a list once and compare neighbours. For a strict order that is the same as
  being sorted pairwise, hence distinct.
\<close>

fun neighbours :: "('a \<Rightarrow> 'a \<Rightarrow> bool) \<Rightarrow> 'a list \<Rightarrow> bool" where
  "neighbours r (x # y # zs) \<longleftrightarrow> r x y \<and> neighbours r (y # zs)"
| "neighbours r _ \<longleftrightarrow> True"

lemma neighbours_sorted_wrt: "transp r \<Longrightarrow> neighbours r xs \<longleftrightarrow> sorted_wrt r xs"
proof (induction r xs rule: neighbours.induct)
  case (1 r x y zs)
  then show ?case by (auto dest: transpD)
qed auto

lemma transp_less_on: "transp (\<lambda>x y. (f x :: 'k :: preorder) < f y)"
  by (rule transpI) (rule less_trans)

lemma neighbours_less:
  "neighbours (\<lambda>x y. (f x :: 'k :: preorder) < f y) xs \<longleftrightarrow> sorted_wrt (<) (map f xs)"
  by (simp add: neighbours_sorted_wrt [OF transp_less_on] sorted_wrt_map)

lemma sorted_less_distinct: "sorted_wrt (<) (map f xs) \<Longrightarrow> distinct (map f xs :: 'k :: preorder list)"
  by (induction xs) auto

text \<open>A \<open>Map\<close> built from entries with distinct keys answers with the entry of the key.\<close>

lemma map_of_rev_distinct: "distinct (map fst xs) \<Longrightarrow> map_of (rev xs) = map_of xs"
  by (subst map_of_inject_set) (auto simp: rev_map [symmetric])

lemma map_of_key_in:
  "map_of (map (\<lambda>x. (f x, x)) xs) k = Some y \<Longrightarrow> y \<in> set xs \<and> f y = k"
  by (induction xs) (auto split: if_splits)

lemma map_of_key_distinct:
  "distinct (map f xs) \<Longrightarrow> y \<in> set xs \<Longrightarrow> map_of (map (\<lambda>x. (f x, x)) xs) (f y) = Some y"
  by (induction xs) (auto simp: rev_image_eqI)

text \<open>\<open>sort((l, r) => l.key - r.key)\<close> on entries with distinct keys.\<close>

lemma sort_key_strict:
  fixes f :: "'a \<Rightarrow> 'k :: linorder"
  shows "distinct (map f xs) \<Longrightarrow> sorted_wrt (<) (map f (sort_key f xs))"
  by (simp add: strict_sorted_iff distinct_map inj_on_def)

end
