(* ===== verification/Exact_Record.thy ===== *)
theory Exact_Record
  imports Prelude
begin

text \<open>
  Model of \<open>packages/protocol/src/internal/exact-record.ts\<close>: untrusted JavaScript values, the
  reflection the capture functions perform on them, and the alias context (a \<open>WeakSet\<close>) they
  thread through a capture.

  \<^item> A JavaScript value is a \<open>jsval\<close>. An object carries its identity (\<open>ref\<close>), whether
    \<open>Array.isArray\<close> holds, its prototype and its own property descriptors in \<open>Reflect.ownKeys\<close>
    order. Canonical array indices are keys of their own constructor, so \<open>String(index)\<close> is
    \<open>PIndex index\<close>. \<open>JHostile\<close> is an object whose reflection throws (a revoked proxy).
    \<open>JBytes shared extra bytes\<close> is an object whose prototype is \<open>Uint8Array.prototype\<close>: whether its
    buffer is shared memory, whether it has own properties beside its elements, and its elements.
  \<^item> A capture is a function of the context that either throws (\<open>Inl\<close>) or returns its result with
    the grown context (\<open>Inr\<close>); \<open>bindC\<close> is sequencing, \<open>guardC\<close> an early failing return.
  \<^item> \<open>mk_obj\<close> and \<open>mk_arr\<close> build the plain objects and arrays the program itself creates from
    literals; identities are access paths, so no two of them alias.

  The second half is the library the parsers' round trips rest on: the relation \<open>reads\<close>, its
  composition rules, and the locale \<open>codec\<close> stating what a parser and its record literal promise
  each other.
\<close>

section \<open>JavaScript values\<close>

datatype pkey = PName string | PIndex nat | PSymbol nat

type_synonym ref = "pkey list"

datatype jsnum = JInt int | JNegZero | JNonInt

datatype proto = ObjectPrototype | ArrayPrototype | NullPrototype | OtherPrototype

datatype jsval =
    JUndefined
  | JNull
  | JBool bool
  | JNumber jsnum
  | JString string
  | JObject ref bool proto "(pkey \<times> pdesc) list"
  | JHostile ref
  | JFunction
  | JBytes bool bool "char list"
  | JOther
and pdesc = DData jsval bool | DAccessor bool

type_synonym fields = "(pkey \<times> jsval) list"

text \<open>\<open>Number.isSafeInteger\<close>, \<open>Object.is(value, -0)\<close> and the numeric value.\<close>

fun isSafeInteger :: "jsval \<Rightarrow> bool" where
  "isSafeInteger (JNumber (JInt n)) = (\<bar>n\<bar> \<le> MAX_SAFE_INTEGER)"
| "isSafeInteger (JNumber JNegZero) = True"
| "isSafeInteger _ = False"

fun isNegZero :: "jsval \<Rightarrow> bool" where
  "isNegZero (JNumber JNegZero) = True"
| "isNegZero _ = False"

fun num_val :: "jsval \<Rightarrow> int" where
  "num_val (JNumber (JInt n)) = n"
| "num_val _ = 0"

text \<open>\<open>record.key\<close> on a captured record: \<open>undefined\<close> where there is no such field.\<close>

definition fld :: "fields \<Rightarrow> string \<Rightarrow> jsval" where
  "fld fs k = (case map_of fs (PName k) of None \<Rightarrow> JUndefined | Some v \<Rightarrow> v)"

section \<open>Captures\<close>

type_synonym ('e, 'a) capture = "ref set \<Rightarrow> 'e + ('a \<times> ref set)"

definition returnC :: "'a \<Rightarrow> ('e, 'a) capture" where
  "returnC x c = Inr (x, c)"

definition failC :: "'e \<Rightarrow> ('e, 'a) capture" where
  "failC e c = Inl e"

definition bindC :: "('e, 'a) capture \<Rightarrow> ('a \<Rightarrow> ('e, 'b) capture) \<Rightarrow> ('e, 'b) capture" where
  "bindC m f c = (case m c of Inl e \<Rightarrow> Inl e | Inr (x, c') \<Rightarrow> f x c')"

definition guardC :: "bool \<Rightarrow> 'e \<Rightarrow> ('e, unit) capture" where
  "guardC b e c = (if b then Inr ((), c) else Inl e)"

definition liftC :: "'e + 'a \<Rightarrow> ('e, 'a) capture" where
  "liftC r c = (case r of Inl e \<Rightarrow> Inl e | Inr x \<Rightarrow> Inr (x, c))"

primrec mapC :: "('a \<Rightarrow> ('e, 'b) capture) \<Rightarrow> 'a list \<Rightarrow> ('e, 'b list) capture" where
  "mapC f [] = returnC []"
| "mapC f (x # xs) = bindC (f x) (\<lambda>y. bindC (mapC f xs) (\<lambda>ys. returnC (y # ys)))"

text \<open>\<open>value === null ? null : parse(value)\<close>\<close>

definition nullableC :: "(jsval \<Rightarrow> ('e, 'a) capture) \<Rightarrow> jsval \<Rightarrow> ('e, 'a option) capture" where
  "nullableC f v = (if v = JNull then returnC None else bindC (f v) (\<lambda>x. returnC (Some x)))"

text \<open>Running a capture with a fresh context (\<open>new WeakSet()\<close>).\<close>

definition runC :: "('e, 'a) capture \<Rightarrow> 'e + 'a" where
  "runC m = (case m {} of Inl e \<Rightarrow> Inl e | Inr (x, _) \<Rightarrow> Inr x)"

section \<open>The exact-record capture functions\<close>

fun collectFields :: "(pkey \<times> pdesc) list \<Rightarrow> fields option" where
  "collectFields [] = Some []"
| "collectFields ((PSymbol _, _) # _) = None"
| "collectFields ((k, DData v True) # ps) =
     (case collectFields ps of None \<Rightarrow> None | Some fs \<Rightarrow> Some ((k, v) # fs))"
| "collectFields ((k, _) # _) = None"

fun captureRecord :: "jsval \<Rightarrow> 'e \<Rightarrow> ('e, fields) capture" where
  "captureRecord (JObject r isArray prototype descriptors) e c =
     (if isArray then Inl e
      else if r \<in> c then Inl e
      else if prototype \<noteq> ObjectPrototype \<and> prototype \<noteq> NullPrototype then Inl e
      else case collectFields descriptors of
             None \<Rightarrow> Inl e
           | Some captured \<Rightarrow> Inr (captured, insert r c))"
| "captureRecord _ e c = Inl e"

definition exactCapturedRecord :: "fields \<Rightarrow> string list \<Rightarrow> 'e \<Rightarrow> ('e, fields) capture" where
  "exactCapturedRecord captured keys e =
     (if length captured \<noteq> length keys \<or>
         list_ex (\<lambda>k. k \<notin> PName ` set keys) (map fst captured)
      then failC e else returnC captured)"

definition exactRecord :: "jsval \<Rightarrow> string list \<Rightarrow> 'e \<Rightarrow> ('e, fields) capture" where
  "exactRecord v keys e =
     bindC (captureRecord v e) (\<lambda>captured. exactCapturedRecord captured keys e)"

definition is_symbol :: "pkey \<Rightarrow> bool" where
  "is_symbol k = (case k of PSymbol _ \<Rightarrow> True | _ \<Rightarrow> False)"

definition elementAt :: "(pkey \<times> pdesc) list \<Rightarrow> nat \<Rightarrow> jsval option" where
  "elementAt descriptors i =
     (case map_of descriptors (PIndex i) of Some (DData v True) \<Rightarrow> Some v | _ \<Rightarrow> None)"

fun captureDenseArray :: "jsval \<Rightarrow> 'e \<Rightarrow> ('e, jsval list) capture" where
  "captureDenseArray (JObject r isArray prototype descriptors) e c =
     (if \<not> isArray then Inl e
      else if r \<in> c then Inl e
      else if prototype \<noteq> ArrayPrototype then Inl e
      else case map_of descriptors (PName ''length'') of
             Some (DData len _) \<Rightarrow>
               (if \<not> isSafeInteger len \<or> num_val len < 0 then Inl e
                else if int (length descriptors) \<noteq> num_val len + 1 \<or>
                        list_ex is_symbol (map fst descriptors) then Inl e
                else case those (map (elementAt descriptors) [0..<nat (num_val len)]) of
                       None \<Rightarrow> Inl e
                     | Some captured \<Rightarrow> Inr (captured, insert r c))
           | _ \<Rightarrow> Inl e)"
| "captureDenseArray _ e c = Inl e"

section \<open>Objects and arrays the program builds\<close>

definition mk_obj :: "ref \<Rightarrow> (string \<times> jsval) list \<Rightarrow> jsval" where
  "mk_obj p kvs = JObject p False ObjectPrototype (map (\<lambda>(k, v). (PName k, DData v True)) kvs)"

definition mk_arr :: "ref \<Rightarrow> jsval list \<Rightarrow> jsval" where
  "mk_arr p vs = JObject p True ArrayPrototype
     (map (\<lambda>i. (PIndex i, DData (vs ! i) True)) [0..<length vs] @
      [(PName ''length'', DData (JNumber (JInt (int (length vs)))) False)])"

text \<open>The record captured from an object literal, and a captured array parsed element by element.\<close>

definition names :: "(string \<times> jsval) list \<Rightarrow> fields" where
  "names kvs = map (\<lambda>(k, v). (PName k, v)) kvs"

definition arrayC :: "(jsval \<Rightarrow> ('e, 'a) capture) \<Rightarrow> jsval \<Rightarrow> 'e \<Rightarrow> ('e, 'a list) capture" where
  "arrayC f v e = bindC (captureDenseArray v e) (mapC f)"

abbreviation jint :: "int \<Rightarrow> jsval" where
  "jint n \<equiv> JNumber (JInt n)"

definition nullable :: "('a \<Rightarrow> jsval) \<Rightarrow> 'a option \<Rightarrow> jsval" where
  "nullable f x = (case x of None \<Rightarrow> JNull | Some y \<Rightarrow> f y)"

text \<open>Below: the access path of field \<open>k\<close>, and of element \<open>i\<close>.\<close>

abbreviation at :: "ref \<Rightarrow> string \<Rightarrow> ref" where
  "at p k \<equiv> p @ [PName k]"

abbreviation nth_at :: "ref \<Rightarrow> nat \<Rightarrow> ref" where
  "nth_at p i \<equiv> p @ [PIndex i]"

definition show_list :: "(ref \<Rightarrow> 'a \<Rightarrow> jsval) \<Rightarrow> ref \<Rightarrow> 'a list \<Rightarrow> jsval" where
  "show_list f p xs = mk_arr p (map (\<lambda>i. f (nth_at p i) (xs ! i)) [0..<length xs])"

section \<open>Elimination: what a successful capture implies\<close>

lemma bindC_InrE:
  assumes "bindC m f c = Inr (y, c'')"
  obtains x c' where "m c = Inr (x, c')" and "f x c' = Inr (y, c'')"
  using assms by (auto simp: bindC_def split: sum.splits prod.splits)

lemma guardC_Inr [simp]: "guardC b e c = Inr (y, c') \<longleftrightarrow> b \<and> c' = c"
  by (auto simp: guardC_def)

lemma returnC_Inr [simp]: "returnC x c = Inr (y, c') \<longleftrightarrow> y = x \<and> c' = c"
  by (auto simp: returnC_def)

lemma failC_Inr [simp]: "failC e c \<noteq> Inr z"
  by (simp add: failC_def)

lemma liftC_Inr [simp]: "liftC r c = Inr (y, c') \<longleftrightarrow> r = Inr y \<and> c' = c"
  by (auto simp: liftC_def split: sum.splits)

lemma nullableC_InrE:
  assumes "nullableC f v c = Inr (y, c')"
  obtains "v = JNull" "y = None" "c' = c"
  | x where "v \<noteq> JNull" "y = Some x" "f v c = Inr (x, c')"
  using assms by (auto simp: nullableC_def elim!: bindC_InrE split: if_splits)

lemma runC_Inr: "runC m = Inr x \<longleftrightarrow> (\<exists>c'. m {} = Inr (x, c'))"
  by (auto simp: runC_def split: sum.splits prod.splits)

lemma mapC_Inr_list_all2:
  "mapC f xs c = Inr (ys, c') \<Longrightarrow> list_all2 (\<lambda>x y. \<exists>c1 c2. f x c1 = Inr (y, c2)) xs ys"
  by (induction xs arbitrary: c c' ys) (auto elim!: bindC_InrE, blast)

lemma isSafeInteger_bound: "isSafeInteger v \<Longrightarrow> \<bar>num_val v\<bar> \<le> MAX_SAFE_INTEGER"
  by (induction v rule: isSafeInteger.induct) (auto simp: MAX_SAFE_INTEGER_def)

lemma those_length: "those xs = Some ys \<Longrightarrow> length ys = length xs"
  by (induction xs arbitrary: ys) (auto split: option.splits)

lemma those_map_Some: "(\<And>x. x \<in> set xs \<Longrightarrow> f x = Some (g x)) \<Longrightarrow> those (map f xs) = Some (map g xs)"
  by (induction xs) auto

lemma captureDenseArray_length:
  "captureDenseArray v e c = Inr (vs, c') \<Longrightarrow> int (length vs) \<le> MAX_SAFE_INTEGER"
proof (induction v e c rule: captureDenseArray.induct)
  case (1 r isArray prototype descriptors e c)
  then obtain len where len: "those (map (elementAt descriptors) [0..<nat (num_val len)]) = Some vs"
      "isSafeInteger len" "0 \<le> num_val len"
    by (auto split: if_splits option.splits pdesc.splits)
  with those_length [OF len(1)] isSafeInteger_bound [OF len(2)] show ?case by simp
qed auto

section \<open>Reading back what the program built\<close>

text \<open>
  \<open>below p\<close> are the identities of the objects inside the value at path \<open>p\<close>. A context is \<open>fresh\<close>
  for \<open>p\<close> when it holds none of them, and \<open>within p S\<close> when the only ones it holds are \<open>p\<close> itself
  and those inside the children in \<open>S\<close>. \<open>reads m c p x\<close> says that the capture \<open>m\<close> succeeds in
  context \<open>c\<close> with \<open>x\<close> and marks only objects of \<open>p\<close>.
\<close>

definition below :: "ref \<Rightarrow> ref set" where
  "below p = {r. prefix p r}"

definition fresh :: "ref \<Rightarrow> ref set \<Rightarrow> bool" where
  "fresh p c \<longleftrightarrow> c \<inter> below p = {}"

definition within :: "ref \<Rightarrow> pkey set \<Rightarrow> ref set \<Rightarrow> bool" where
  "within p S c \<longleftrightarrow> c \<inter> below p \<subseteq> insert p (\<Union>k\<in>S. below (p @ [k]))"

definition reads :: "('e, 'a) capture \<Rightarrow> ref set \<Rightarrow> ref \<Rightarrow> 'a \<Rightarrow> bool" where
  "reads m c p x \<longleftrightarrow> (\<exists>c'. m c = Inr (x, c') \<and> c' \<subseteq> c \<union> below p)"

lemma fresh_empty [simp, intro]: "fresh p {}"
  by (simp add: fresh_def)

lemma fresh_notin: "fresh p c \<Longrightarrow> p \<notin> c"
  by (auto simp: fresh_def below_def)

lemma below_snoc: "below (p @ [k]) \<subseteq> below p"
  by (auto simp: below_def dest: append_prefixD)

lemma below_snoc_disjoint: "k \<noteq> k' \<Longrightarrow> below (p @ [k]) \<inter> below (p @ [k']) = {}"
  by (auto simp: below_def prefix_def)

lemma not_below_snoc: "p \<notin> below (p @ [k])"
  by (auto simp: below_def prefix_def)

lemma within_insert: "fresh p c \<Longrightarrow> within p {} (insert p c)"
  by (auto simp: fresh_def within_def)

lemma within_fresh: "within p S c \<Longrightarrow> k \<notin> S \<Longrightarrow> fresh (p @ [k]) c"
  unfolding fresh_def disjoint_iff
proof (intro allI impI notI)
  fix r assume w: "within p S c" and k: "k \<notin> S" and r: "r \<in> c" "r \<in> below (p @ [k])"
  from r below_snoc have "r \<in> c \<inter> below p" by blast
  with w consider "r = p" | k' where "k' \<in> S" "r \<in> below (p @ [k'])" unfolding within_def by blast
  then show False
  proof cases
    case 1
    with r(2) not_below_snoc show False by blast
  next
    case 2
    with k have "k' \<noteq> k" by blast
    with 2(2) r(2) below_snoc_disjoint show False by blast
  qed
qed

lemma within_child: "within p S c \<Longrightarrow> c' \<subseteq> c \<union> below (p @ [k]) \<Longrightarrow> within p (insert k S) c'"
  by (auto simp: within_def)

lemma reads_return: "reads (returnC x) c p x"
  by (simp add: reads_def returnC_def)

lemma reads_return_iff [js_simps]: "reads (returnC x) c p y \<longleftrightarrow> x = y"
  by (auto simp: reads_def returnC_def)

lemma reads_mono: "reads m c p' x \<Longrightarrow> below p' \<subseteq> below p \<Longrightarrow> reads m c p x"
  by (auto simp: reads_def)

text \<open>Sequencing: a pure step, a step at the same path, and a step at a child's path.\<close>

lemma reads_bind_pure:
  "m c = Inr (x, c) \<Longrightarrow> reads (f x) c p y \<Longrightarrow> reads (bindC m f) c p y"
  by (simp add: reads_def bindC_def)

lemma reads_bind_lift: "r = Inr x \<Longrightarrow> reads (f x) c p y \<Longrightarrow> reads (bindC (liftC r) f) c p y"
  by (rule reads_bind_pure) (simp_all add: liftC_def)

lemma reads_bind_guard: "b \<Longrightarrow> reads (f ()) c p y \<Longrightarrow> reads (bindC (guardC b e) f) c p y"
  by (rule reads_bind_pure) (simp_all add: guardC_def)

lemma reads_bind_same:
  assumes "m c = Inr (x, insert p c)" and "reads (f x) (insert p c) p y"
  shows "reads (bindC m f) c p y"
  using assms by (auto simp: reads_def bindC_def below_def)

lemma reads_bind_child:
  assumes "within p S c" and "k \<notin> S"
    and "\<And>c. fresh (p @ [k]) c \<Longrightarrow> reads m c (p @ [k]) x"
    and "\<And>c'. within p (insert k S) c' \<Longrightarrow> reads (f x) c' p y"
  shows "reads (bindC m f) c p y"
proof -
  from assms(3) [OF within_fresh [OF assms(1,2)]] obtain c' where c':
    "m c = Inr (x, c')" "c' \<subseteq> c \<union> below (p @ [k])" by (auto simp: reads_def)
  from assms(4) [OF within_child [OF assms(1) c'(2)]] obtain c'' where
    "f x c' = Inr (y, c'')" "c'' \<subseteq> c' \<union> below p" by (auto simp: reads_def)
  with c' below_snoc [of p k] show ?thesis by (auto simp: reads_def bindC_def)
qed

text \<open>Plain objects and arrays built by the program are captured as they were written.\<close>

lemma collectFields_names:
  "collectFields (map (\<lambda>(k, v). (PName k, DData v True)) kvs) = Some (names kvs)"
  by (induction kvs) (auto simp: names_def)

lemma captureRecord_mk_obj:
  "fresh p c \<Longrightarrow> captureRecord (mk_obj p kvs) e c = Inr (names kvs, insert p c)"
  by (simp add: mk_obj_def collectFields_names fresh_notin)

lemma exactRecord_mk_obj:
  assumes "fresh p c" and "map fst kvs = keys"
  shows "exactRecord (mk_obj p kvs) keys e c = Inr (names kvs, insert p c)"
  using assms by (force simp: exactRecord_def bindC_def captureRecord_mk_obj exactCapturedRecord_def
      returnC_def list_ex_iff names_def)

lemma mk_arr_elements:
  "map_of (map (\<lambda>i. (PIndex i, DData (vs ! i) True)) [0..<length vs] @ [(PName l, d)]) (PIndex i) =
     (if i < length vs then Some (DData (vs ! i) True) else None)"
proof -
  have "map_of (map (\<lambda>i. (PIndex i, DData (vs ! i) True)) ns) (PIndex i) =
     (if i \<in> set ns then Some (DData (vs ! i) True) else None)" for ns
    by (induction ns) auto
  then show ?thesis by (simp add: map_add_def)
qed

lemma mk_arr_length:
  "map_of (map (\<lambda>i. (PIndex i, f i)) ns @ [(PName l, d)]) (PName l) = Some d"
  by (induction ns) auto

lemma captureDenseArray_mk_arr:
  assumes "fresh p c" and "int (length vs) \<le> MAX_SAFE_INTEGER"
  shows "captureDenseArray (mk_arr p vs) e c = Inr (vs, insert p c)"
proof -
  let ?ds = "map (\<lambda>i. (PIndex i, DData (vs ! i) True)) [0..<length vs] @
      [(PName ''length'', DData (JNumber (JInt (int (length vs)))) False)]"
  have "those (map (elementAt ?ds) [0..<length vs]) = Some (map ((!) vs) [0..<length vs])"
    by (rule those_map_Some) (auto simp: elementAt_def mk_arr_elements simp del: map_of_append)
  moreover have "\<not> list_ex is_symbol (map fst ?ds)"
    by (auto simp: list_ex_iff is_symbol_def)
  ultimately show ?thesis
    using assms fresh_notin [OF assms(1)]
    by (simp add: mk_arr_def mk_arr_length map_nth del: map_of_append map_append)
qed

lemma reads_mapC:
  assumes "within p S c" and "\<And>i. i < length xs \<Longrightarrow> PIndex (k + i) \<notin> S"
    and "\<And>i c. i < length xs \<Longrightarrow> fresh (nth_at p (k + i)) c \<Longrightarrow>
           reads (f (g (nth_at p (k + i)) (xs ! i))) c (nth_at p (k + i)) (xs ! i)"
  shows "reads (mapC f (map (\<lambda>i. g (nth_at p (k + i)) (xs ! i)) [0..<length xs])) c p xs"
  using assms
proof (induction xs arbitrary: S c k)
  case Nil
  then show ?case by (simp add: reads_return)
next
  case (Cons x xs)
  have tail: "map (\<lambda>i. g (nth_at p (k + i)) ((x # xs) ! i)) [0..<length (x # xs)] =
      g (nth_at p k) x # map (\<lambda>i. g (nth_at p (Suc k + i)) (xs ! i)) [0..<length xs]"
    by (simp add: map_upt_Suc del: upt_Suc)
  show ?case unfolding tail mapC.simps
  proof (rule reads_bind_child [OF Cons.prems(1), where k = "PIndex k"])
    show "PIndex k \<notin> S" using Cons.prems(2) [of 0] by simp
    show "reads (f (g (nth_at p k) x)) c (nth_at p k) x" if "fresh (nth_at p k) c" for c
      using Cons.prems(3) [of 0 c] that by simp
    fix c' assume w: "within p (insert (PIndex k) S) c'"
    have "reads (mapC f (map (\<lambda>i. g (nth_at p (Suc k + i)) (xs ! i)) [0..<length xs])) c' p xs"
    proof (rule Cons.IH [OF w])
      show "PIndex (Suc k + i) \<notin> insert (PIndex k) S" if "i < length xs" for i
        using Cons.prems(2) [of "Suc i"] that by simp
      show "reads (f (g (nth_at p (Suc k + i)) (xs ! i))) c (nth_at p (Suc k + i)) (xs ! i)"
        if "i < length xs" "fresh (nth_at p (Suc k + i)) c" for i c
        using Cons.prems(3) [of "Suc i" c] that by simp
    qed
    then show "reads (bindC (mapC f (map (\<lambda>i. g (nth_at p (Suc k + i)) (xs ! i)) [0..<length xs]))
        (\<lambda>ys. returnC (x # ys))) c' p (x # xs)"
      by (auto simp: reads_def bindC_def returnC_def)
  qed
qed

lemma reads_array:
  assumes "fresh p c" and "int (length xs) \<le> MAX_SAFE_INTEGER"
    and "\<And>q x c. x \<in> set xs \<Longrightarrow> fresh q c \<Longrightarrow> reads (f (g q x)) c q x"
  shows "reads (arrayC f (show_list g p xs) e) c p xs"
  unfolding arrayC_def
proof (rule reads_bind_same)
  show "captureDenseArray (show_list g p xs) e c =
      Inr (map (\<lambda>i. g (nth_at p i) (xs ! i)) [0..<length xs], insert p c)"
    unfolding show_list_def using assms(1,2) by (simp add: captureDenseArray_mk_arr)
  show "reads (mapC f (map (\<lambda>i. g (nth_at p i) (xs ! i)) [0..<length xs])) (insert p c) p xs"
    using reads_mapC [OF within_insert [OF assms(1)], of xs 0 f g] assms(3) by simp
qed

lemma reads_nullable:
  assumes "\<And>y. x = Some y \<Longrightarrow> g y \<noteq> JNull \<and> reads (f (g y)) c p y"
  shows "reads (nullableC f (nullable g x)) c p x"
proof (cases x)
  case None
  then show ?thesis by (simp add: nullable_def nullableC_def reads_return)
next
  case (Some y)
  with assms show ?thesis
    by (auto simp: nullable_def nullableC_def reads_def bindC_def returnC_def)
qed

lemma nullable_is_null: "(\<And>y. g y \<noteq> JNull) \<Longrightarrow> nullable g x = JNull \<longleftrightarrow> x = None"
  by (auto simp: nullable_def split: option.splits)

text \<open>
  Evaluation rules for captures of literals: a scalar step that succeeds disappears, and the first
  step on an object literal turns into the record of its fields.
\<close>

lemma bindC_lift_Inr [js_simps]: "bindC (liftC (Inr x)) f = f x"
  by (rule ext) (simp add: bindC_def liftC_def)

lemma bindC_guard_True [js_simps]: "bindC (guardC True e) f = f ()"
  by (rule ext) (simp add: bindC_def guardC_def)

lemma bindC_returnC [js_simps]: "bindC (returnC x) f = f x"
  by (rule ext) (simp add: bindC_def returnC_def)

lemma bindC_assoc: "bindC (bindC m f) g = bindC m (\<lambda>x. bindC (f x) g)"
  by (rule ext) (auto simp: bindC_def split: sum.splits)

lemma fld_names [js_simps]:
  "fld (names kvs) k = (case map_of kvs k of None \<Rightarrow> JUndefined | Some v \<Rightarrow> v)"
  unfolding fld_def names_def by (induction kvs) auto

lemma exactCapturedRecord_names [js_simps]:
  "length kvs = length keys \<Longrightarrow> set (map fst kvs) \<subseteq> set keys \<Longrightarrow>
   exactCapturedRecord (names kvs) keys e = returnC (names kvs)"
  by (force simp: exactCapturedRecord_def list_ex_iff names_def)

lemma reads_exact:
  assumes "fresh p c" and "map fst kvs = keys"
    and "\<And>c. within p {} c \<Longrightarrow> reads (f (names kvs)) c p y"
  shows "reads (bindC (exactRecord (mk_obj p kvs) keys e) f) c p y"
proof (rule reads_bind_same)
  show "exactRecord (mk_obj p kvs) keys e c = Inr (names kvs, insert p c)"
    by (rule exactRecord_mk_obj [OF assms(1,2)])
  show "reads (f (names kvs)) (insert p c) p y"
    by (rule assms(3) [OF within_insert [OF assms(1)]])
qed

lemma reads_captured:
  assumes "fresh p c"
    and "\<And>c. within p {} c \<Longrightarrow> reads (f (names kvs)) c p y"
  shows "reads (bindC (captureRecord (mk_obj p kvs) e) f) c p y"
proof (rule reads_bind_same)
  show "captureRecord (mk_obj p kvs) e c = Inr (names kvs, insert p c)"
    by (rule captureRecord_mk_obj [OF assms(1)])
  show "reads (f (names kvs)) (insert p c) p y"
    by (rule assms(2) [OF within_insert [OF assms(1)]])
qed

text \<open>A record inside a record, read by the parser of the outer one.\<close>

lemma reads_bind_exact:
  assumes "within p S c" "k \<notin> S" "map fst kvs = keys"
    and "\<And>c'. within p (insert k S) c' \<Longrightarrow> reads (f (names kvs)) c' p y"
  shows "reads (bindC (exactRecord (mk_obj (p @ [k]) kvs) keys e) f) c p y"
proof (rule reads_bind_child [OF assms(1,2)])
  show "reads (exactRecord (mk_obj (p @ [k]) kvs) keys e) c (p @ [k]) (names kvs)" if "fresh (p @ [k]) c" for c
    by (auto simp: exactRecord_mk_obj [OF that assms(3)] reads_def below_def)
qed (rule assms(4))

text \<open>The same steps where the capture of a literal fails.\<close>

lemma bindC_lift_Inl [js_simps]: "bindC (liftC (Inl e)) f = failC e"
  by (rule ext) (simp add: bindC_def liftC_def failC_def)

lemma failC_apply [simp]: "failC e c = Inl e"
  by (simp add: failC_def)

lemma refuses_bind: "m c = Inl e \<Longrightarrow> bindC m f c = Inl e"
  by (simp add: bindC_def)

lemma refuses_exact:
  assumes "fresh p c" and "map fst kvs = keys" and "\<And>c. within p {} c \<Longrightarrow> f (names kvs) c = Inl e"
  shows "bindC (exactRecord (mk_obj p kvs) keys e') f c = Inl e"
  using assms(3) [OF within_insert [OF assms(1)]] by (simp add: bindC_def exactRecord_mk_obj [OF assms(1,2)])

lemma reads_run: "reads m {} p x \<Longrightarrow> runC m = Inr x"
  by (auto simp: reads_def runC_def)

lemma mk_obj_not_null [simp]: "mk_obj p kvs \<noteq> JNull" "mk_arr p vs \<noteq> JNull"
  by (simp_all add: mk_obj_def mk_arr_def)

lemma exactCapturedRecord_Inr: "exactCapturedRecord captured keys e c = Inr (record, c') \<Longrightarrow> record = captured"
  by (auto simp: exactCapturedRecord_def split: if_splits)

section \<open>The interface between a parser and its record literal\<close>

text \<open>
  A parser takes an environment (the external functions it calls), an error code and a value.
  Its record literal builds, at a path, the object whose fields are the record's. The law of
  \<open>literal_codec\<close>: every record that satisfies \<open>wf\<close> is read back from its literal, in any context
  that does not already hold the literal's objects. The law \<open>codec\<close> adds: what the parser returns
  satisfies \<open>wf\<close>. A parser that can return a record it would refuse when offered again has the first
  only.
\<close>

locale literal_codec =
  fixes parse :: "'env \<Rightarrow> 'code \<Rightarrow> jsval \<Rightarrow> ('e, 'a) capture"
    and literal :: "ref \<Rightarrow> 'a \<Rightarrow> jsval"
    and wf :: "'env \<Rightarrow> 'a \<Rightarrow> bool"
    and ok :: "'env \<Rightarrow> bool"
  assumes complete: "ok E \<Longrightarrow> wf E x \<Longrightarrow> fresh p c \<Longrightarrow> reads (parse E code (literal p x)) c p x"
    and literal_not_null: "literal p x \<noteq> JNull"
begin

lemma parse_literal: "ok E \<Longrightarrow> wf E x \<Longrightarrow> runC (parse E code (literal p x)) = Inr x"
  by (rule reads_run [OF complete]) auto

lemma literal_inj:
  assumes "ok E" "wf E x" "wf E y" "literal [] x = literal [] y"
  shows "x = y"
  using parse_literal [OF assms(1,2)] parse_literal [OF assms(1,3)] assms(4) by (metis Inr_inject)

lemma list_complete:
  assumes "ok E" and "list_all (wf E) xs" and "int (length xs) \<le> MAX_SAFE_INTEGER" and "fresh p c"
  shows "reads (arrayC (parse E code) (show_list literal p xs) e) c p xs"
  using assms by (intro reads_array complete) (auto simp: list_all_iff)

text \<open>
  The three ways a record holds another: as a field, as a nullable field, and as an array field.
  Each reads the child at its own path and leaves the rest of the record to be read.
\<close>

lemma bind_field:
  assumes "within p S c" "k \<notin> S" "ok E" "wf E x"
    and "\<And>c'. within p (insert k S) c' \<Longrightarrow> reads (f x) c' p y"
  shows "reads (bindC (parse E code (literal (p @ [k]) x)) f) c p y"
  using complete [OF assms(3,4)] assms(5)
  by (intro reads_bind_child [where S = S and k = k and x = x, OF assms(1,2)])

lemma last_field:
  assumes "within p S c" "k \<notin> S" "ok E" "wf E x"
  shows "reads (parse E code (literal (p @ [k]) x)) c p x"
  by (rule reads_mono [OF complete [OF assms(3,4) within_fresh [OF assms(1,2)]] below_snoc])

lemma bind_nullable:
  assumes "within p S c" "k \<notin> S" "ok E" "\<And>y. x = Some y \<Longrightarrow> wf E y"
    and "\<And>c'. within p (insert k S) c' \<Longrightarrow> reads (f x) c' p z"
  shows "reads (bindC (nullableC (parse E code) (nullable (literal (p @ [k])) x)) f) c p z"
proof (rule reads_bind_child [where S = S and k = k and x = x, OF assms(1,2)])
  show "reads (nullableC (parse E code) (nullable (literal (p @ [k])) x)) c (p @ [k]) x"
    if "fresh (p @ [k]) c" for c
    using that literal_not_null by (intro reads_nullable) (simp add: complete assms(3,4))
qed (rule assms(5))

lemma bind_list:
  assumes "within p S c" "k \<notin> S" "ok E" "list_all (wf E) xs" "int (length xs) \<le> MAX_SAFE_INTEGER"
    and "\<And>c'. within p (insert k S) c' \<Longrightarrow> reads (f xs) c' p y"
  shows "reads (bindC (arrayC (parse E code) (show_list literal (p @ [k]) xs) e) f) c p y"
  using list_complete [OF assms(3-5)] assms(6)
  by (intro reads_bind_child [where S = S and k = k and x = xs, OF assms(1,2)])

end

locale codec = literal_codec +
  assumes sound: "ok E \<Longrightarrow> parse E code v c = Inr (x, c') \<Longrightarrow> wf E x"
begin

text \<open>Parsing is idempotent: a parsed record, offered again, parses to itself.\<close>

lemma reparse:
  assumes "ok E" and "runC (parse E code v) = Inr x"
  shows "runC (parse E code' (literal [] x)) = Inr x"
proof -
  from assms(2) obtain c' where "parse E code v {} = Inr (x, c')" by (auto simp: runC_Inr)
  with assms(1) have "wf E x" by (rule sound)
  with assms(1) have "reads (parse E code' (literal [] x)) {} [] x" by (rule complete) simp
  then show ?thesis by (rule reads_run)
qed

lemma list_sound:
  assumes "ok E" and "arrayC (parse E code) v e c = Inr (xs, c')"
  shows "list_all (wf E) xs \<and> int (length xs) \<le> MAX_SAFE_INTEGER"
proof -
  from assms(2) obtain vs c1 where vs: "captureDenseArray v e c = Inr (vs, c1)"
    and xs: "mapC (parse E code) vs c1 = Inr (xs, c')"
    unfolding arrayC_def by (rule bindC_InrE)
  show ?thesis
    using mapC_Inr_list_all2 [OF xs] captureDenseArray_length [OF vs] sound [OF assms(1)]
    by (auto simp: list_all_length list_all2_conv_all_nth)
qed

lemma nullable_sound: "ok E \<Longrightarrow> nullableC (parse E code) v c = Inr (x, c') \<Longrightarrow> pred_option (wf E) x"
  by (erule nullableC_InrE) (auto intro: sound)

end

end
