(* ===== verification/Validators.thy ===== *)
theory Validators
  imports Exact_Record
begin

text \<open>
  Model of \<open>packages/protocol/src/errors.ts\<close>, \<open>address.ts\<close>, \<open>ids.ts\<close> and of the scalar
  validators that every contract file of \<open>packages/protocol/src\<close> repeats with its own error class
  (\<open>safeInteger\<close>, \<open>uint256\<close>, \<open>hash\<close>, \<open>canonicalGrantId\<close>, \<open>identifier\<close>).

  An error is its class and code; the message text is not modelled. What the package takes from
  elsewhere is the record \<open>ext\<close>: address recognition, Keccak and the ABI encoder of the \<open>cetane\<close>
  package, the point decoder of \<open>@noble/curves\<close> and the host's \<open>URL\<close> constructor.
  \<open>ext_ok\<close> states the documented behaviour the properties use of them.
\<close>

section \<open>Errors\<close>

datatype grant_policy_code =
    Grant_policy_invalid
  | Grant_policy_attenuation_input_invalid
  | Grant_policy_coverage_input_invalid

datatype identity_profile_code =
    Owner_credential_profile_invalid
  | Operator_credential_profile_invalid
  | Kernel_account_profile_invalid
  | Kernel_account_action_input_invalid

datatype grant_code =
    Grant_input_invalid
  | Grant_record_invalid
  | Grant_transition_invalid
  | Grant_identity_mismatch
  | Grant_transition_forbidden
  | Grant_revision_exhausted

datatype operation_code =
    Operation_input_invalid
  | Operation_address_checksum_invalid
  | Operation_record_invalid
  | Operation_transition_invalid
  | Operation_identity_mismatch
  | Operation_transition_forbidden
  | Operation_revision_exhausted

datatype permission_code =
    Permission_request_invalid
  | Permission_decision_invalid
  | Permission_protocol_input_invalid
  | Permission_request_binding_mismatch
  | Permission_decision_binding_mismatch
  | Permission_decision_conflict
  | Permission_decision_stale
  | Permission_policy_widening

datatype protocol_code =
    Protocol_id_invalid
  | Client_binding_invalid
  | Issuer_invalid
  | Subject_binding_invalid
  | Authorization_code_verifier_mismatch
  | Grant_reference_invalid
  | Workspace_account_context_invalid
  | Signing_request_invalid

datatype routing_code =
    Routing_input_invalid
  | Routing_capability_invalid
  | Routing_operation_invalid
  | Routing_sponsorship_invalid
  | Routing_paymaster_unsupported
  | Routing_prefund_out_of_bounds

datatype store_code =
    Store_input_invalid
  | Store_closed
  | Store_unavailable
  | Store_record_invalid
  | Store_key_mismatch
  | Store_identity_mismatch
  | Store_lane_occupied
  | Store_revision_exhausted
  | Store_commit_indeterminate
  | Store_commit_unverified

datatype persistence_code =
    Persistence_unavailable
  | Persistence_input_invalid
  | Persistence_record_invalid
  | Persistence_key_invalid
  | Persistence_schema_unusable
  | Persistence_transaction_failed

datatype prepared_user_operation_code =
    Prepared_user_operation_input_invalid
  | Prepared_user_operation_record_invalid

datatype operation_runner_code =
    Operation_runner_input_invalid
  | Operation_runner_capability_invalid
  | Operation_runner_preparation_failed
  | Operation_runner_identity_mismatch
  | Operation_runner_state_conflict
  | Operation_runner_store_unavailable
  | Operation_runner_store_uncertain
  | Operation_runner_submission_rejected
  | Operation_runner_closed
  | Operation_runner_close_failed

datatype operation_observer_code =
    Operation_observer_input_invalid
  | Operation_observer_address_checksum_invalid
  | Operation_observer_capability_invalid
  | Operation_observer_closed
  | Operation_observer_close_failed

text \<open>\<open>HostTypeError\<close> is an exception of the JavaScript engine itself that no module has converted.\<close>

datatype err =
    OaathGrantPolicyError grant_policy_code
  | OaathIdentityProfileError identity_profile_code
  | OaathGrantError grant_code
  | OaathOperationError operation_code
  | OaathPermissionProtocolError permission_code
  | OaathProtocolError protocol_code
  | OaathRoutingError routing_code
  | OaathStoreError store_code
  | OaathPersistenceError persistence_code
  | OaathPreparedUserOperationError prepared_user_operation_code
  | OaathOperationRunnerError operation_runner_code
  | OaathOperationObserverError operation_observer_code
  | HostTypeError

text \<open>
  \<open>isOwnedProtocolError\<close> and \<open>capturedByProtocol\<close>: an error raised by an owning module passes,
  any other becomes the contract's own.
\<close>

fun isOwnedProtocolError :: "err \<Rightarrow> bool" where
  "isOwnedProtocolError (OaathRoutingError _) = False"
| "isOwnedProtocolError (OaathStoreError _) = False"
| "isOwnedProtocolError (OaathPersistenceError _) = False"
| "isOwnedProtocolError (OaathPreparedUserOperationError _) = False"
| "isOwnedProtocolError (OaathOperationRunnerError _) = False"
| "isOwnedProtocolError (OaathOperationObserverError _) = False"
| "isOwnedProtocolError HostTypeError = False"
| "isOwnedProtocolError _ = True"

definition capturedByProtocol :: "protocol_code \<Rightarrow> err + 'a \<Rightarrow> err + 'a" where
  "capturedByProtocol code action =
     (case action of
        Inr x \<Rightarrow> Inr x
      | Inl e \<Rightarrow> (if isOwnedProtocolError e then Inl e else Inl (OaathProtocolError code)))"

lemma capturedByProtocol_Inr [simp]: "capturedByProtocol code r = Inr x \<longleftrightarrow> r = Inr x"
  by (auto simp: capturedByProtocol_def split: sum.splits if_splits)

text \<open>Sequencing of steps that may throw, outside a capture.\<close>

definition bindE :: "'e + 'a \<Rightarrow> ('a \<Rightarrow> 'e + 'b) \<Rightarrow> 'e + 'b" where
  "bindE m f = (case m of Inl e \<Rightarrow> Inl e | Inr x \<Rightarrow> f x)"

definition guardE :: "bool \<Rightarrow> 'e \<Rightarrow> 'e + unit" where
  "guardE b e = (if b then Inr () else Inl e)"

lemma bindE_Inr: "bindE m f = Inr y \<longleftrightarrow> (\<exists>x. m = Inr x \<and> f x = Inr y)"
  by (auto simp: bindE_def split: sum.splits)

lemma bindE_InrE:
  assumes "bindE m f = Inr y"
  obtains x where "m = Inr x" "f x = Inr y"
  using assms by (auto simp: bindE_Inr)

lemma bindE_InlE:
  assumes "bindE m f = Inl e"
  obtains "m = Inl e" | x where "m = Inr x" "f x = Inl e"
  using assms by (auto simp: bindE_def split: sum.splits)

lemma guardE_Inr [simp]: "guardE b e = Inr u \<longleftrightarrow> b"
  by (simp add: guardE_def)

lemma guardE_Inl [simp]: "guardE b e = Inl e' \<longleftrightarrow> \<not> b \<and> e' = e"
  by (auto simp: guardE_def)

lemma bindE_simps [simp]: "bindE (Inr x) f = f x" "bindE (Inl e) f = Inl e"
  by (simp_all add: bindE_def)

section \<open>What the package takes from elsewhere\<close>

record url =
  protocol :: string
  origin :: string
  username :: string
  password :: string
  pathname :: string
  search :: string
  url_hash :: string

text \<open>A typed argument of \<open>encodeAbiParameters\<close>: the declared ABI type with the value.\<close>

datatype abi =
    AbiString string
  | AbiAddress string
  | AbiBytes string
  | AbiFixedBytes nat string
  | AbiUint nat int
  | AbiBool bool
  | AbiTuple "abi list"
  | AbiArray "abi list"

record ext =
  isAddress :: "bool \<Rightarrow> jsval \<Rightarrow> bool"
  keccak256 :: "string \<Rightarrow> string"
  encodeAbiParameters :: "abi list \<Rightarrow> string"
  p256_fromHex :: "string \<Rightarrow> bool"
  newURL :: "string \<Rightarrow> url option"

definition hex_address :: "string \<Rightarrow> bool" where
  "hex_address s \<longleftrightarrow> length s = 42 \<and> take 2 s = ''0x'' \<and> list_all hex_any (drop 2 s)"

definition is_http_origin :: "url \<Rightarrow> bool" where
  "is_http_origin u \<longleftrightarrow>
     (protocol u = ''https:'' \<or> protocol u = ''http:'') \<and> origin u \<noteq> ''null'' \<and>
     username u = '''' \<and> password u = '''' \<and> pathname u = ''/'' \<and> search u = '''' \<and>
     url_hash u = ''''"

text \<open>
  Documented behaviour: \<open>isAddress(value, { strict: false })\<close> accepts exactly the strings of
  \<open>0x\<close> and 40 hex digits; a Keccak digest is a lowercase 32-byte hash; and the serialised origin
  of an HTTP URL is itself the URL of that origin (the URL standard). Nothing is assumed of its
  length: the host parser rewrites a host to ASCII, which can make it longer.
\<close>

definition ext_ok :: "ext \<Rightarrow> bool" where
  "ext_ok E \<longleftrightarrow>
     (\<forall>v. isAddress E False v = (case v of JString s \<Rightarrow> hex_address s | _ \<Rightarrow> False)) \<and>
     (\<forall>s. lower_hex 64 (keccak256 E s)) \<and>
     (\<forall>s u. newURL E s = Some u \<longrightarrow> is_http_origin u \<longrightarrow>
        (\<exists>u'. newURL E (origin u) = Some u' \<and> is_http_origin u' \<and> origin u' = origin u))"

section \<open>Address capture\<close>

datatype address_failure = Format | Checksum | Zero

definition zero_address :: string where
  "zero_address = ''0x'' @ replicate 40 (CHR ''0'')"

definition captureAddress :: "ext \<Rightarrow> jsval \<Rightarrow> (address_failure \<Rightarrow> err) \<Rightarrow> bool \<Rightarrow> err + string" where
  "captureAddress E v fail allowZero =
     (if \<not> isAddress E False v then Inl (fail Format)
      else case v of
        JString s \<Rightarrow>
          (let digits = drop 2 s; canonical = toLowerCase s in
           if digits \<noteq> toLowerCase digits \<and> digits \<noteq> toUpperCase digits \<and> \<not> isAddress E True v
           then Inl (fail Checksum)
           else if \<not> allowZero \<and> canonical = zero_address then Inl (fail Zero)
           else Inr canonical)
      | _ \<Rightarrow> Inl (fail Format))"

definition address_ok :: "string \<Rightarrow> bool" where
  "address_ok s \<longleftrightarrow> lower_hex 40 s \<and> s \<noteq> zero_address"

lemma toLowerCase_hex: "list_all hex_any s \<Longrightarrow> list_all hex_lower (toLowerCase s)"
  by (induction s) (auto simp: toLowerCase_def to_lower_hex)

lemma to_lower_0x: "to_lower (CHR ''0'') = CHR ''0''" "to_lower (CHR ''x'') = CHR ''x''"
  by (code_simp, code_simp)

lemma toLowerCase_0x: "take 2 s = ''0x'' \<Longrightarrow> toLowerCase s = ''0x'' @ toLowerCase (drop 2 s)"
proof -
  assume a: "take 2 s = ''0x''"
  have "toLowerCase s = toLowerCase (take 2 s) @ toLowerCase (drop 2 s)"
    by (metis append_take_drop_id map_append toLowerCase_def)
  also have "toLowerCase (take 2 s) = ''0x''"
    unfolding a by (simp add: toLowerCase_def to_lower_0x)
  finally show ?thesis .
qed

lemma hex_address_lower: "hex_address s \<Longrightarrow> lower_hex 40 (toLowerCase s)"
  by (auto simp: hex_address_def lower_hex_def toLowerCase_0x toLowerCase_hex)

lemma lower_hex_address: "lower_hex 40 s \<Longrightarrow> hex_address s"
  by (auto simp: hex_address_def lower_hex_def list_all_iff hex_lower_any)

lemma lower_hex_toLowerCase: "lower_hex n s \<Longrightarrow> toLowerCase s = s"
  using toLowerCase_0x [of s] toLowerCase_idem [of "drop 2 s"] append_take_drop_id [of 2 s]
  by (auto simp: lower_hex_def)

lemma captureAddress_sound:
  assumes "ext_ok E" and "captureAddress E v fail False = Inr a"
  shows "address_ok a"
  using assms hex_address_lower
  by (auto simp: captureAddress_def ext_ok_def address_ok_def Let_def split: if_splits jsval.splits)

lemma captureAddress_complete:
  assumes "ext_ok E" and "address_ok a"
  shows "captureAddress E (JString a) fail False = Inr a"
proof -
  have h: "lower_hex 40 a" "a \<noteq> zero_address" using assms(2) by (auto simp: address_ok_def)
  moreover have "toLowerCase (drop 2 a) = drop 2 a"
    using h(1) by (intro toLowerCase_idem) (simp add: lower_hex_def)
  ultimately show ?thesis
    using assms(1) lower_hex_address [of a] lower_hex_toLowerCase [of 40 a]
    by (simp add: captureAddress_def ext_ok_def Let_def)
qed

text \<open>Where the zero address is allowed.\<close>

lemma captureAddress_zero: "ext_ok E \<Longrightarrow> captureAddress E v fail z = Inr a \<Longrightarrow> lower_hex 40 a"
  using hex_address_lower
  by (auto simp: captureAddress_def ext_ok_def Let_def split: if_splits jsval.splits)

lemma captureAddress_again: "ext_ok E \<Longrightarrow> lower_hex 40 a \<Longrightarrow> captureAddress E (JString a) fail True = Inr a"
  using lower_hex_address [of a] lower_hex_toLowerCase [of 40 a] toLowerCase_idem [of "drop 2 a"]
  by (simp add: captureAddress_def ext_ok_def Let_def lower_hex_def)

section \<open>Scalar validators\<close>

definition safe_integer :: "int \<Rightarrow> int \<Rightarrow> jsval \<Rightarrow> 'e \<Rightarrow> 'e + int" where
  "safe_integer lo hi v e =
     (if \<not> isSafeInteger v \<or> isNegZero v \<or> num_val v < lo \<or> hi < num_val v
      then Inl e else Inr (num_val v))"

fun decimal_uint256 :: "jsval \<Rightarrow> 'e \<Rightarrow> 'e + string" where
  "decimal_uint256 (JString s) e = (if \<not> decimal_uint s \<or> BigInt s > MAX_UINT256 then Inl e else Inr s)"
| "decimal_uint256 _ e = Inl e"

fun fixed_hex :: "nat \<Rightarrow> jsval \<Rightarrow> 'e \<Rightarrow> 'e + string" where
  "fixed_hex n (JString s) e = (if \<not> lower_hex n s then Inl e else Inr s)"
| "fixed_hex n _ e = Inl e"

definition MAX_GRANT_ID_LENGTH :: nat where
  "MAX_GRANT_ID_LENGTH = 256"

fun canonical_id :: "jsval \<Rightarrow> 'e \<Rightarrow> 'e + string" where
  "canonical_id (JString s) e =
     (if length s < 1 \<or> length s > MAX_GRANT_ID_LENGTH \<or> s \<noteq> trim s then Inl e else Inr s)"
| "canonical_id _ e = Inl e"

fun bounded_identifier :: "jsval \<Rightarrow> 'e \<Rightarrow> 'e + string" where
  "bounded_identifier (JString s) e = (if \<not> identifier_re s then Inl e else Inr s)"
| "bounded_identifier _ e = Inl e"

text \<open>\<open>value === null ? null : safeInteger(value)\<close>\<close>

definition nullable_scalar :: "(jsval \<Rightarrow> 'e \<Rightarrow> 'e + 'a) \<Rightarrow> jsval \<Rightarrow> 'e \<Rightarrow> 'e + 'a option" where
  "nullable_scalar f v e =
     (if v = JNull then Inr None else case f v e of Inl e \<Rightarrow> Inl e | Inr x \<Rightarrow> Inr (Some x))"

text \<open>A field that must be one of the literals of a string union.\<close>

definition literal_of :: "(string \<times> 'a) list \<Rightarrow> jsval \<Rightarrow> 'e \<Rightarrow> 'e + 'a" where
  "literal_of table v e =
     (case v of JString s \<Rightarrow> (case map_of table s of None \<Rightarrow> Inl e | Some x \<Rightarrow> Inr x) | _ \<Rightarrow> Inl e)"

section \<open>The fields the validators accept\<close>

definition int_ok :: "int \<Rightarrow> int \<Rightarrow> bool" where
  "int_ok lo n \<longleftrightarrow> lo \<le> n \<and> n \<le> MAX_SAFE_INTEGER"

definition id_ok :: "string \<Rightarrow> bool" where
  "id_ok s \<longleftrightarrow> 1 \<le> length s \<and> length s \<le> MAX_GRANT_ID_LENGTH \<and> trim s = s"

lemma safe_integer_Inr:
  "safe_integer lo hi v e = Inr n \<longleftrightarrow>
     v = jint n \<and> lo \<le> n \<and> n \<le> hi \<and> \<bar>n\<bar> \<le> MAX_SAFE_INTEGER"
  by (induction v rule: isSafeInteger.induct) (auto simp: safe_integer_def)

lemma safe_integer_nonneg_Inr [simp]:
  "0 \<le> lo \<Longrightarrow> safe_integer lo MAX_SAFE_INTEGER v e = Inr n \<longleftrightarrow> v = jint n \<and> int_ok lo n"
  by (auto simp: safe_integer_Inr int_ok_def)

lemma decimal_uint256_Inr [simp]:
  "decimal_uint256 v e = Inr s \<longleftrightarrow> v = JString s \<and> uint256_string s"
  by (cases v) (auto simp: uint256_string_def)

lemma fixed_hex_Inr [simp]: "fixed_hex n v e = Inr s \<longleftrightarrow> v = JString s \<and> lower_hex n s"
  by (cases v) auto

lemma canonical_id_Inr [simp]: "canonical_id v e = Inr s \<longleftrightarrow> v = JString s \<and> id_ok s"
  by (cases v) (auto simp: id_ok_def Suc_le_eq)

lemma bounded_identifier_Inr [simp]:
  "bounded_identifier v e = Inr s \<longleftrightarrow> v = JString s \<and> identifier_re s"
  by (cases v) auto

lemma nullable_scalar_Inr:
  "nullable_scalar f v e = Inr x \<longleftrightarrow>
     (v = JNull \<and> x = None) \<or> (v \<noteq> JNull \<and> (\<exists>y. f v e = Inr y \<and> x = Some y))"
  by (auto simp: nullable_scalar_def split: sum.splits)

lemma nullable_int_sound:
  "nullable_scalar (safe_integer lo MAX_SAFE_INTEGER) v e = Inr x \<Longrightarrow> 0 \<le> lo \<Longrightarrow> pred_option (int_ok lo) x"
  by (auto simp: nullable_scalar_Inr)

declare decimal_uint256.simps [simp del] fixed_hex.simps [simp del] canonical_id.simps [simp del]
  bounded_identifier.simps [simp del]

lemma safe_integer_jint [js_simps]:
  "0 \<le> lo \<Longrightarrow> lo \<le> n \<Longrightarrow> n \<le> hi \<Longrightarrow> hi \<le> MAX_SAFE_INTEGER \<Longrightarrow> safe_integer lo hi (jint n) e = Inr n"
  by (simp add: safe_integer_def)

lemma safe_integer_int_ok [js_simps]:
  "int_ok lo n \<Longrightarrow> 0 \<le> lo \<Longrightarrow> safe_integer lo MAX_SAFE_INTEGER (jint n) e = Inr n"
  by (simp add: safe_integer_def int_ok_def)

lemma decimal_uint256_string [js_simps]: "uint256_string s \<Longrightarrow> decimal_uint256 (JString s) e = Inr s"
  by (simp only: decimal_uint256_Inr simp_thms)

lemma fixed_hex_string [js_simps]: "lower_hex n s \<Longrightarrow> fixed_hex n (JString s) e = Inr s"
  by simp

lemma canonical_id_string [js_simps]: "id_ok s \<Longrightarrow> canonical_id (JString s) e = Inr s"
  by (simp only: canonical_id_Inr simp_thms)

lemma bounded_identifier_string [js_simps]:
  "identifier_re s \<Longrightarrow> bounded_identifier (JString s) e = Inr s"
  by simp

lemma captureAddress_string [js_simps]:
  "ext_ok E \<Longrightarrow> address_ok a \<Longrightarrow> captureAddress E (JString a) fail False = Inr a"
  by (rule captureAddress_complete)

lemma nullable_scalar_jint [js_simps]:
  "(\<And>n. x = Some n \<Longrightarrow> f (jint n) e = Inr n) \<Longrightarrow> nullable_scalar f (nullable jint x) e = Inr x"
  by (cases x) (auto simp: nullable_scalar_def nullable_def)

lemma nullable_scalar_string [js_simps]:
  "(\<And>s. x = Some s \<Longrightarrow> f (JString s) e = Inr s) \<Longrightarrow>
   nullable_scalar f (nullable JString x) e = Inr x"
  by (cases x) (auto simp: nullable_scalar_def nullable_def)

lemma nullable_cases [js_simps]: "nullable f None = JNull" "nullable f (Some y) = f y"
  by (simp_all add: nullable_def)

lemma nullable_scalar_cases [js_simps]:
  "nullable_scalar f JNull e = Inr None"
  "nullable_scalar f (jint n) e = (case f (jint n) e of Inl e \<Rightarrow> Inl e | Inr x \<Rightarrow> Inr (Some x))"
  "nullable_scalar f (JString s) e = (case f (JString s) e of Inl e \<Rightarrow> Inl e | Inr x \<Rightarrow> Inr (Some x))"
  by (simp_all add: nullable_scalar_def)

lemma literal_of_string [js_simps]:
  "literal_of table (JString s) e = (case map_of table s of None \<Rightarrow> Inl e | Some x \<Rightarrow> Inr x)"
  by (simp add: literal_of_def)

lemma literal_of_Inr: "literal_of table v e = Inr x \<longleftrightarrow> (\<exists>s. v = JString s \<and> map_of table s = Some x)"
  by (auto simp: literal_of_def split: jsval.splits option.splits)

lemma nullable_scalar_int_ok [js_simps]:
  "pred_option (int_ok lo) x \<Longrightarrow> 0 \<le> lo \<Longrightarrow>
   nullable_scalar (safe_integer lo MAX_SAFE_INTEGER) (nullable jint x) e = Inr x"
  by (cases x) (auto simp: js_simps)

section \<open>Identifiers (\<open>ids.ts\<close>)\<close>

definition parseClientId :: "jsval \<Rightarrow> err \<Rightarrow> err + string" where
  "parseClientId v fail = bounded_identifier v fail"

definition parseDeviceId :: "jsval \<Rightarrow> err \<Rightarrow> err + string" where
  "parseDeviceId v fail = bounded_identifier v fail"

definition parseAccountId :: "jsval \<Rightarrow> err \<Rightarrow> err + string" where
  "parseAccountId v fail = bounded_identifier v fail"

definition parseSubjectId :: "jsval \<Rightarrow> err \<Rightarrow> err + string" where
  "parseSubjectId v fail = fixed_hex 64 v fail"

section \<open>A concrete instance of the external functions\<close>

text \<open>
  Used by the witnesses only: an address recogniser that accepts no mixed-case checksum, a constant
  digest, and a \<open>URL\<close> that knows one origin.
\<close>

definition sample_url :: url where
  "sample_url = \<lparr>protocol = ''https:'', origin = ''https://app.example'', username = '''',
     password = '''', pathname = ''/'', search = '''', url_hash = ''''\<rparr>"

definition sample_ext :: ext where
  "sample_ext = \<lparr>
     isAddress = (\<lambda>strict v. case v of JString s \<Rightarrow> hex_address s \<and> \<not> strict | _ \<Rightarrow> False),
     keccak256 = (\<lambda>_. ''0x'' @ replicate 64 (CHR ''a'')),
     encodeAbiParameters = (\<lambda>_. ''0x''),
     p256_fromHex = (\<lambda>_. True),
     newURL = (\<lambda>s. if s = ''https://app.example'' then Some sample_url else None)\<rparr>"

lemma sample_ext_ok: "ext_ok sample_ext"
proof -
  have "lower_hex 64 (''0x'' @ replicate 64 (CHR ''a''))" by code_simp
  moreover have "is_http_origin sample_url" "origin sample_url = ''https://app.example''"
    by (simp_all add: sample_url_def is_http_origin_def)
  ultimately show ?thesis
    by (auto simp: ext_ok_def sample_ext_def split: jsval.splits if_splits)
qed

end
