(* ===== verification/Grant_Policy.thy ===== *)
theory Grant_Policy
  imports Validators
begin

text \<open>
  Model of \<open>packages/protocol/src/grant-policy.ts\<close>: the Grant policy record and its capture, its
  canonical encoding and hashes, the attenuation test an approval must pass, and the coverage
  evaluation that decides whether a batch of calls is inside the policy. The constant \<open>version\<close>
  fields are checked by the parsers and written by the literals; the records omit them.
\<close>

section \<open>Constants and data\<close>

definition OAATH_GRANT_POLICY_VERSION :: string where
  "OAATH_GRANT_POLICY_VERSION = ''oaath.grant-policy/v1''"

definition OAATH_GRANT_POLICY_USAGE_VERSION :: string where
  "OAATH_GRANT_POLICY_USAGE_VERSION = ''oaath.grant-policy-usage/v1''"

definition OAATH_GRANT_POLICY_HASH_DOMAIN :: string where
  "OAATH_GRANT_POLICY_HASH_DOMAIN = ''@oaath/protocol:grant-policy''"

definition OAATH_GRANT_POLICY_CALLS_HASH_DOMAIN :: string where
  "OAATH_GRANT_POLICY_CALLS_HASH_DOMAIN = ''@oaath/protocol:grant-policy-calls''"

definition MAX_ARGUMENT_INDEX :: int where
  "MAX_ARGUMENT_INDEX = MAX_SAFE_INTEGER div 32"

definition OAATH_SUDO_GRANT_MAX_SECONDS :: int where
  "OAATH_SUDO_GRANT_MAX_SECONDS = 600"

record argument_equality =
  arg_index :: int
  arg_value :: string

record policy_call =
  pc_target :: string
  pc_selector :: string
  pc_valueLimit :: string
  pc_argumentEquals :: "argument_equality list"

record operation_limit =
  lim_count :: int
  lim_intervalSeconds :: "int option"

record grant_policy =
  gp_calls :: "policy_call list"
  gp_validAfter :: int
  gp_validUntil :: "int option"
  gp_perChainOperationLimit :: "operation_limit option"

definition isSudoGrantPolicy :: "grant_policy \<Rightarrow> bool" where
  "isSudoGrantPolicy policy \<longleftrightarrow> length (gp_calls policy) = 0"

section \<open>Capture\<close>

abbreviation gp_err :: "grant_policy_code \<Rightarrow> err" where
  "gp_err \<equiv> OaathGrantPolicyError"

definition gp_safeInteger :: "jsval \<Rightarrow> grant_policy_code \<Rightarrow> int \<Rightarrow> int \<Rightarrow> err + int" where
  "gp_safeInteger v code minimum maximum = safe_integer minimum maximum v (gp_err code)"

definition gp_uint256 :: "jsval \<Rightarrow> grant_policy_code \<Rightarrow> err + string" where
  "gp_uint256 v code = decimal_uint256 v (gp_err code)"

definition gp_address :: "ext \<Rightarrow> jsval \<Rightarrow> grant_policy_code \<Rightarrow> err + string" where
  "gp_address E v code = captureAddress E v (\<lambda>_. gp_err code) False"

definition gp_selector :: "jsval \<Rightarrow> grant_policy_code \<Rightarrow> err + string" where
  "gp_selector v code = fixed_hex 8 v (gp_err code)"

definition gp_word :: "jsval \<Rightarrow> grant_policy_code \<Rightarrow> err + string" where
  "gp_word v code = fixed_hex 64 v (gp_err code)"

definition gp_hash :: "jsval \<Rightarrow> grant_policy_code \<Rightarrow> err + string" where
  "gp_hash v code = fixed_hex 64 v (gp_err code)"

definition gp_canonicalGrantId :: "jsval \<Rightarrow> grant_policy_code \<Rightarrow> err + string" where
  "gp_canonicalGrantId v code = canonical_id v (gp_err code)"

definition parseArgumentEquality :: "grant_policy_code \<Rightarrow> jsval \<Rightarrow> (err, argument_equality) capture" where
  "parseArgumentEquality code v =
     bindC (exactRecord v [''index'', ''value''] (gp_err code)) (\<lambda>record.
     bindC (liftC (gp_safeInteger (fld record ''index'') code 0 MAX_ARGUMENT_INDEX)) (\<lambda>index.
     bindC (liftC (gp_word (fld record ''value'') code)) (\<lambda>value.
     returnC \<lparr>arg_index = index, arg_value = value\<rparr>)))"

definition parseCall :: "ext \<Rightarrow> grant_policy_code \<Rightarrow> jsval \<Rightarrow> (err, policy_call) capture" where
  "parseCall E code v =
     bindC (exactRecord v [''target'', ''selector'', ''valueLimit'', ''argumentEquals''] (gp_err code)) (\<lambda>record.
     bindC (arrayC (parseArgumentEquality code) (fld record ''argumentEquals'') (gp_err code)) (\<lambda>argumentEquals.
     bindC (guardC (neighbours (\<lambda>previous current. arg_index previous < arg_index current) argumentEquals)
              (gp_err code)) (\<lambda>_.
     bindC (liftC (gp_address E (fld record ''target'') code)) (\<lambda>target.
     bindC (liftC (gp_selector (fld record ''selector'') code)) (\<lambda>selector.
     bindC (liftC (gp_uint256 (fld record ''valueLimit'') code)) (\<lambda>valueLimit.
     returnC \<lparr>pc_target = target, pc_selector = selector, pc_valueLimit = valueLimit,
              pc_argumentEquals = argumentEquals\<rparr>))))))"

definition callKey :: "policy_call \<Rightarrow> string" where
  "callKey call = pc_target call @ '':'' @ pc_selector call"

definition captureOperationLimit :: "grant_policy_code \<Rightarrow> jsval \<Rightarrow> (err, operation_limit) capture" where
  "captureOperationLimit code v =
     bindC (exactRecord v [''count'', ''intervalSeconds''] (gp_err code)) (\<lambda>record.
     bindC (liftC (gp_safeInteger (fld record ''count'') code 1 MAX_UINT48)) (\<lambda>count.
     bindC (liftC (nullable_scalar (safe_integer 1 MAX_UINT48) (fld record ''intervalSeconds'')
              (gp_err code))) (\<lambda>interval.
     returnC \<lparr>lim_count = count, lim_intervalSeconds = interval\<rparr>)))"

definition callsSorted :: "policy_call list \<Rightarrow> bool" where
  "callsSorted = neighbours (\<lambda>previous current. callKey previous < callKey current)"

definition capturePolicy :: "ext \<Rightarrow> grant_policy_code \<Rightarrow> jsval \<Rightarrow> (err, grant_policy) capture" where
  "capturePolicy E code v =
     bindC (exactRecord v
              [''version'', ''calls'', ''validAfter'', ''validUntil'', ''perChainOperationLimit'']
              (gp_err code)) (\<lambda>record.
     bindC (guardC (fld record ''version'' = JString OAATH_GRANT_POLICY_VERSION) (gp_err code)) (\<lambda>_.
     bindC (arrayC (parseCall E code) (fld record ''calls'') (gp_err code)) (\<lambda>calls.
     bindC (guardC (callsSorted calls) (gp_err code)) (\<lambda>_.
     bindC (liftC (gp_safeInteger (fld record ''validAfter'') code 0 MAX_UINT48)) (\<lambda>validAfter.
     bindC (liftC (nullable_scalar (safe_integer 1 MAX_UINT48) (fld record ''validUntil'')
              (gp_err code))) (\<lambda>validUntil.
     bindC (guardC (case validUntil of None \<Rightarrow> True | Some u \<Rightarrow> \<not> validAfter > u) (gp_err code)) (\<lambda>_.
     bindC (guardC (\<not> (length calls = 0 \<and>
                       (case validUntil of None \<Rightarrow> True
                        | Some u \<Rightarrow> u - validAfter \<ge> OAATH_SUDO_GRANT_MAX_SECONDS \<or>
                                    fld record ''perChainOperationLimit'' \<noteq> JNull)))
              (gp_err code)) (\<lambda>_.
     bindC (nullableC (captureOperationLimit code) (fld record ''perChainOperationLimit'')) (\<lambda>limit.
     returnC \<lparr>gp_calls = calls, gp_validAfter = validAfter, gp_validUntil = validUntil,
              gp_perChainOperationLimit = limit\<rparr>)))))))))"

definition parseGrantPolicy :: "ext \<Rightarrow> jsval \<Rightarrow> err + grant_policy" where
  "parseGrantPolicy E v = runC (capturePolicy E Grant_policy_invalid v)"

section \<open>Well-formed policies and their literals\<close>

definition wf_argument :: "argument_equality \<Rightarrow> bool" where
  "wf_argument a \<longleftrightarrow> 0 \<le> arg_index a \<and> arg_index a \<le> MAX_ARGUMENT_INDEX \<and> lower_hex 64 (arg_value a)"

definition wf_call :: "policy_call \<Rightarrow> bool" where
  "wf_call call \<longleftrightarrow>
     list_all wf_argument (pc_argumentEquals call) \<and>
     int (length (pc_argumentEquals call)) \<le> MAX_SAFE_INTEGER \<and>
     sorted_wrt (<) (map arg_index (pc_argumentEquals call)) \<and>
     address_ok (pc_target call) \<and> lower_hex 8 (pc_selector call) \<and>
     uint256_string (pc_valueLimit call)"

definition wf_limit :: "operation_limit \<Rightarrow> bool" where
  "wf_limit l \<longleftrightarrow> 1 \<le> lim_count l \<and> lim_count l \<le> MAX_UINT48 \<and>
     (\<forall>i. lim_intervalSeconds l = Some i \<longrightarrow> 1 \<le> i \<and> i \<le> MAX_UINT48)"

definition wf_policy :: "grant_policy \<Rightarrow> bool" where
  "wf_policy p \<longleftrightarrow>
     list_all wf_call (gp_calls p) \<and> int (length (gp_calls p)) \<le> MAX_SAFE_INTEGER \<and>
     sorted_wrt (<) (map callKey (gp_calls p)) \<and>
     0 \<le> gp_validAfter p \<and> gp_validAfter p \<le> MAX_UINT48 \<and>
     (\<forall>u. gp_validUntil p = Some u \<longrightarrow> 1 \<le> u \<and> u \<le> MAX_UINT48 \<and> gp_validAfter p \<le> u) \<and>
     (gp_calls p = [] \<longrightarrow>
        (\<exists>u. gp_validUntil p = Some u \<and> u - gp_validAfter p < OAATH_SUDO_GRANT_MAX_SECONDS) \<and>
        gp_perChainOperationLimit p = None) \<and>
     (\<forall>l. gp_perChainOperationLimit p = Some l \<longrightarrow> wf_limit l)"

definition argument_literal :: "ref \<Rightarrow> argument_equality \<Rightarrow> jsval" where
  "argument_literal p a = mk_obj p [(''index'', jint (arg_index a)), (''value'', JString (arg_value a))]"

definition call_literal :: "ref \<Rightarrow> policy_call \<Rightarrow> jsval" where
  "call_literal p call = mk_obj p
     [(''target'', JString (pc_target call)), (''selector'', JString (pc_selector call)),
      (''valueLimit'', JString (pc_valueLimit call)),
      (''argumentEquals'',
         show_list argument_literal (at p ''argumentEquals'') (pc_argumentEquals call))]"

definition limit_literal :: "ref \<Rightarrow> operation_limit \<Rightarrow> jsval" where
  "limit_literal p l = mk_obj p
     [(''count'', jint (lim_count l)), (''intervalSeconds'', nullable jint (lim_intervalSeconds l))]"

definition policy_literal :: "ref \<Rightarrow> grant_policy \<Rightarrow> jsval" where
  "policy_literal p policy = mk_obj p
     [(''version'', JString OAATH_GRANT_POLICY_VERSION),
      (''calls'', show_list call_literal (at p ''calls'') (gp_calls policy)),
      (''validAfter'', jint (gp_validAfter policy)),
      (''validUntil'', nullable jint (gp_validUntil policy)),
      (''perChainOperationLimit'',
         nullable (limit_literal (at p ''perChainOperationLimit'')) (gp_perChainOperationLimit policy))]"

section \<open>The parsers and the literals keep the interface\<close>

lemmas gp_field_defs = gp_safeInteger_def gp_uint256_def gp_address_def gp_selector_def gp_word_def
  gp_hash_def gp_canonicalGrantId_def

lemma gp_record_eta [js_simps]:
  "\<lparr>arg_index = arg_index a, arg_value = arg_value a\<rparr> = a"
  "\<lparr>pc_target = pc_target x, pc_selector = pc_selector x, pc_valueLimit = pc_valueLimit x,
    pc_argumentEquals = pc_argumentEquals x\<rparr> = x"
  "\<lparr>lim_count = lim_count l, lim_intervalSeconds = lim_intervalSeconds l\<rparr> = l"
  "\<lparr>gp_calls = gp_calls q, gp_validAfter = gp_validAfter q, gp_validUntil = gp_validUntil q,
    gp_perChainOperationLimit = gp_perChainOperationLimit q\<rparr> = q"
  by simp_all

lemma gp_literal_not_null [simp]:
  "argument_literal p a \<noteq> JNull" "call_literal p x \<noteq> JNull" "limit_literal p l \<noteq> JNull"
  "policy_literal p q \<noteq> JNull"
  by (simp_all add: argument_literal_def call_literal_def limit_literal_def policy_literal_def)

lemma MAX_ARGUMENT_INDEX_safe: "MAX_ARGUMENT_INDEX \<le> MAX_SAFE_INTEGER"
  by (simp add: MAX_ARGUMENT_INDEX_def MAX_SAFE_INTEGER_def)

lemma parseArgumentEquality_sound: "parseArgumentEquality code v c = Inr (a, c') \<Longrightarrow> wf_argument a"
  unfolding parseArgumentEquality_def
  by (elim bindC_InrE) (auto simp: gp_field_defs safe_integer_Inr wf_argument_def)

lemma parseArgumentEquality_complete:
  "wf_argument a \<Longrightarrow> fresh p c \<Longrightarrow> reads (parseArgumentEquality code (argument_literal p a)) c p a"
  unfolding parseArgumentEquality_def argument_literal_def
  using MAX_ARGUMENT_INDEX_safe
  by (intro reads_exact) (simp_all add: js_simps gp_field_defs wf_argument_def)

interpretation argument_codec: codec "\<lambda>(_ :: ext). parseArgumentEquality" argument_literal "\<lambda>_. wf_argument" ext_ok
  by unfold_locales (auto intro: parseArgumentEquality_sound parseArgumentEquality_complete)

lemma parseCall_sound: "ext_ok E \<Longrightarrow> parseCall E code v c = Inr (x, c') \<Longrightarrow> wf_call x"
  unfolding parseCall_def
  by (elim bindC_InrE)
    (auto simp: gp_field_defs wf_call_def neighbours_less
      dest: captureAddress_sound argument_codec.list_sound)

lemma parseCall_complete:
  assumes "ext_ok E" "wf_call x" "fresh p c"
  shows "reads (parseCall E code (call_literal p x)) c p x"
  unfolding parseCall_def call_literal_def
  apply (rule reads_exact [OF assms(3)], simp)
  apply (simp add: js_simps)
  apply (rule argument_codec.bind_list, assumption, simp, rule assms(1))
  using assms by (simp_all add: js_simps gp_field_defs wf_call_def neighbours_less)

interpretation call_codec: codec parseCall call_literal "\<lambda>_. wf_call" ext_ok
  by unfold_locales (auto intro: parseCall_sound parseCall_complete)

lemma captureOperationLimit_sound: "captureOperationLimit code v c = Inr (l, c') \<Longrightarrow> wf_limit l"
  unfolding captureOperationLimit_def
  by (elim bindC_InrE) (auto simp: gp_field_defs safe_integer_Inr nullable_scalar_Inr wf_limit_def)

lemma captureOperationLimit_complete:
  "wf_limit l \<Longrightarrow> fresh p c \<Longrightarrow> reads (captureOperationLimit code (limit_literal p l)) c p l"
  unfolding captureOperationLimit_def limit_literal_def
  using MAX_UINT48_safe
  by (intro reads_exact) (simp_all add: js_simps gp_field_defs wf_limit_def)

interpretation limit_codec: codec "\<lambda>(_ :: ext). captureOperationLimit" limit_literal "\<lambda>_. wf_limit" ext_ok
  by unfold_locales (auto intro: captureOperationLimit_sound captureOperationLimit_complete)

lemma capturePolicy_sound: "ext_ok E \<Longrightarrow> capturePolicy E code v c = Inr (q, c') \<Longrightarrow> wf_policy q"
  unfolding capturePolicy_def
  by (elim bindC_InrE nullableC_InrE)
    (auto simp: gp_field_defs safe_integer_Inr nullable_scalar_Inr wf_policy_def callsSorted_def
      neighbours_less split: option.splits
      dest: call_codec.list_sound captureOperationLimit_sound)

lemma capturePolicy_complete:
  assumes "ext_ok E" "wf_policy q" "fresh p c"
  shows "reads (capturePolicy E code (policy_literal p q)) c p q"
  unfolding capturePolicy_def policy_literal_def
  apply (rule reads_exact [OF assms(3)], simp)
  apply (simp add: js_simps)
  apply (rule call_codec.bind_list, assumption, simp, rule assms(1))
    apply (use assms(2) in \<open>simp_all add: wf_policy_def\<close>)[2]
  apply (insert assms(2) MAX_UINT48_safe)
  apply (cases "gp_validUntil q")
   apply (simp_all add: js_simps gp_field_defs wf_policy_def callsSorted_def neighbours_less nullable_is_null)
   apply (rule limit_codec.bind_nullable, assumption, simp, rule assms(1), simp, simp add: js_simps)
  apply (rule reads_bind_guard, linarith)
  apply (rule limit_codec.bind_nullable, assumption, simp, rule assms(1), simp, simp add: js_simps)
  done

interpretation policy_codec: codec capturePolicy policy_literal "\<lambda>_. wf_policy" ext_ok
  by unfold_locales (auto intro: capturePolicy_sound capturePolicy_complete)

end
