(* ===== verification/Abi.thy ===== *)
theory Abi
  imports Validators "HOL-Library.Countable"
begin

text \<open>
  What the canonical encodings of \<open>packages/protocol/src\<close> rely on: the ABI encoder of the
  \<open>cetane\<close> package separates argument lists of the same types once every argument is in canonical
  form (integers in the range of their type, lowercase hex of the declared width). The encodings
  translate decimal strings with \<open>BigInt\<close>, which loses nothing on canonical decimals.
\<close>

section \<open>Canonical arguments\<close>

primrec same_type :: "abi \<Rightarrow> abi \<Rightarrow> bool" where
  "same_type (AbiString s) = (\<lambda>y. case y of AbiString _ \<Rightarrow> True | _ \<Rightarrow> False)"
| "same_type (AbiAddress s) = (\<lambda>y. case y of AbiAddress _ \<Rightarrow> True | _ \<Rightarrow> False)"
| "same_type (AbiBytes s) = (\<lambda>y. case y of AbiBytes _ \<Rightarrow> True | _ \<Rightarrow> False)"
| "same_type (AbiFixedBytes n s) = (\<lambda>y. case y of AbiFixedBytes m _ \<Rightarrow> n = m | _ \<Rightarrow> False)"
| "same_type (AbiUint n v) = (\<lambda>y. case y of AbiUint m _ \<Rightarrow> n = m | _ \<Rightarrow> False)"
| "same_type (AbiBool b) = (\<lambda>y. case y of AbiBool _ \<Rightarrow> True | _ \<Rightarrow> False)"
| "same_type (AbiTuple xs) =
     (\<lambda>y. case y of AbiTuple ys \<Rightarrow> list_all2 (\<lambda>f. f) (map same_type xs) ys | _ \<Rightarrow> False)"
| "same_type (AbiArray xs) =
     (\<lambda>y. case y of AbiArray ys \<Rightarrow> list_all (\<lambda>f. list_all f ys) (map same_type xs) | _ \<Rightarrow> False)"

fun abi_canonical :: "abi \<Rightarrow> bool" where
  "abi_canonical (AbiString _) = True"
| "abi_canonical (AbiAddress s) = lower_hex 40 s"
| "abi_canonical (AbiBytes s) = lower_bytes s"
| "abi_canonical (AbiFixedBytes n s) = lower_hex (2 * n) s"
| "abi_canonical (AbiUint n v) = (0 \<le> v \<and> v < 2 ^ n)"
| "abi_canonical (AbiBool _) = True"
| "abi_canonical (AbiTuple xs) = list_all abi_canonical xs"
| "abi_canonical (AbiArray xs) = list_all abi_canonical xs"

definition abi_injective :: "ext \<Rightarrow> bool" where
  "abi_injective E \<longleftrightarrow>
     (\<forall>xs ys. list_all abi_canonical xs \<longrightarrow> list_all abi_canonical ys \<longrightarrow> list_all2 same_type xs ys \<longrightarrow>
        encodeAbiParameters E xs = encodeAbiParameters E ys \<longrightarrow> xs = ys)"

lemma abi_injectiveD:
  "abi_injective E \<Longrightarrow> encodeAbiParameters E xs = encodeAbiParameters E ys \<Longrightarrow>
   list_all abi_canonical xs \<Longrightarrow> list_all abi_canonical ys \<Longrightarrow> list_all2 same_type xs ys \<Longrightarrow> xs = ys"
  by (simp add: abi_injective_def)

text \<open>An injective encoder exists; the witnesses use it.\<close>

instance abi :: countable
  by countable_datatype

definition injective_ext :: ext where
  "injective_ext = sample_ext\<lparr>encodeAbiParameters := \<lambda>xs. replicate (to_nat xs) (CHR ''0'')\<rparr>"

lemma injective_ext_ok: "ext_ok injective_ext" "abi_injective injective_ext"
proof -
  show "ext_ok injective_ext"
    using sample_ext_ok by (simp add: ext_ok_def injective_ext_def)
  show "abi_injective injective_ext"
    unfolding abi_injective_def injective_ext_def
    by (auto dest!: arg_cong [of _ _ length])
qed

section \<open>\<open>BigInt\<close> is injective on canonical decimals\<close>

lemma digit_val_bounds: "dec_digit c \<Longrightarrow> 0 \<le> digit_val c \<and> digit_val c \<le> 9"
  by (auto simp: dec_digit_def digit_val_def)

lemma digit_val_pos: "dec_digit c \<Longrightarrow> c \<noteq> CHR ''0'' \<Longrightarrow> 1 \<le> digit_val c"
  by (auto simp: dec_digit_def digit_val_def)

lemma digit_val_inj: "digit_val c = digit_val d \<Longrightarrow> c = d"
  by (simp add: digit_val_def)

lemma BigInt_snoc: "BigInt (s @ [c]) = 10 * BigInt s + digit_val c"
  by (simp add: BigInt_def)

lemma digits_nonneg: "list_all dec_digit s \<Longrightarrow> 0 \<le> BigInt s"
  using foldl_digits_nonneg [of s 0] by (simp add: BigInt_def)

lemma digits_upper: "list_all dec_digit s \<Longrightarrow> BigInt s < 10 ^ length s"
proof (induction s rule: rev_induct)
  case (snoc c s)
  then have "BigInt s + 1 \<le> 10 ^ length s" and "digit_val c \<le> 9"
    using digit_val_bounds [of c] by auto
  then show ?case by (simp add: BigInt_snoc)
qed (simp add: BigInt_def)

lemma digits_lower:
  "list_all dec_digit s \<Longrightarrow> s \<noteq> [] \<Longrightarrow> hd s \<noteq> CHR ''0'' \<Longrightarrow> 10 ^ (length s - 1) \<le> BigInt s"
proof (induction s rule: rev_induct)
  case (snoc c s)
  show ?case
  proof (cases s)
    case Nil
    with snoc digit_val_pos [of c] show ?thesis by (simp add: BigInt_def)
  next
    case (Cons d t)
    with snoc have "10 ^ (length s - 1) \<le> BigInt s" and "0 \<le> digit_val c"
      using digit_val_bounds [of c] by auto
    moreover from Cons have "length (s @ [c]) - 1 = Suc (length s - 1)" by simp
    ultimately show ?thesis by (simp only: BigInt_snoc power_Suc)
  qed
qed simp

lemma digits_inj:
  "length s = length t \<Longrightarrow> list_all dec_digit s \<Longrightarrow> list_all dec_digit t \<Longrightarrow> BigInt s = BigInt t \<Longrightarrow> s = t"
proof (induction s arbitrary: t rule: rev_induct)
  case (snoc c s)
  then obtain d u where t: "t = u @ [d]" by (metis append_Nil length_0_conv neq_Nil_conv rev_exhaust)
  with snoc have "10 * BigInt s + digit_val c = 10 * BigInt u + digit_val d" by (simp add: BigInt_snoc)
  moreover from snoc t digit_val_bounds [of c] digit_val_bounds [of d]
  have "0 \<le> digit_val c" "digit_val c \<le> 9" "0 \<le> digit_val d" "digit_val d \<le> 9" by auto
  ultimately have "BigInt s = BigInt u" and "digit_val c = digit_val d" by presburger+
  with snoc t show ?case by (auto dest: digit_val_inj)
qed simp

lemma length_from_value:
  assumes "list_all dec_digit s" "s \<noteq> []" "hd s \<noteq> CHR ''0''" "list_all dec_digit t" "BigInt s \<le> BigInt t"
  shows "length s \<le> length t"
proof (rule ccontr)
  assume "\<not> length s \<le> length t"
  then have "(10 :: int) ^ length t \<le> 10 ^ (length s - 1)" by (intro power_increasing) auto
  with digits_lower [OF assms(1-3)] digits_upper [OF assms(4)] assms(5) show False by linarith
qed

lemma BigInt_inj:
  assumes "decimal_uint s" "decimal_uint t" "BigInt s = BigInt t"
  shows "s = t"
proof -
  have zero: "BigInt u = 0 \<longleftrightarrow> u = ''0''" if "decimal_uint u" for u
  proof -
    have "(10 :: int) ^ n > 0" for n by simp
    with that digits_lower [of u] show ?thesis
      by (fastforce simp: decimal_uint_def BigInt_def digit_val_def dest: less_le_trans)
  qed
  show ?thesis
  proof (cases "s = ''0'' \<or> t = ''0''")
    case True
    with assms zero show ?thesis by metis
  next
    case False
    with assms have s: "list_all dec_digit s" "s \<noteq> []" "hd s \<noteq> CHR ''0''"
      and t: "list_all dec_digit t" "t \<noteq> []" "hd t \<noteq> CHR ''0''"
      by (auto simp: decimal_uint_def)
    with assms(3) have "length s = length t" by (intro antisym length_from_value) auto
    with s t assms(3) show ?thesis by (intro digits_inj)
  qed
qed

end
