(* ===== verification/Policy_Coverage.thy ===== *)
theory Policy_Coverage
  imports Grant_Policy Abi
begin

text \<open>
  Second half of \<open>packages/protocol/src/grant-policy.ts\<close>: the canonical encoding and hashes of a
  policy, the attenuation test between a requested and an approved policy, and the evaluation of a
  batch of calls against a policy. A JavaScript \<open>Map\<close> built from entries is \<open>map_of\<close> of the
  reversed entries: the last entry of a key wins.
\<close>

section \<open>Encoding and hashing\<close>

definition argument_abi :: "argument_equality \<Rightarrow> abi" where
  "argument_abi argument = AbiTuple [AbiUint 64 (arg_index argument), AbiFixedBytes 32 (arg_value argument)]"

definition call_abi :: "policy_call \<Rightarrow> abi" where
  "call_abi call = AbiTuple
     [AbiAddress (pc_target call), AbiFixedBytes 4 (pc_selector call),
      AbiUint 256 (BigInt (pc_valueLimit call)),
      AbiArray (map argument_abi (pc_argumentEquals call))]"

definition policy_abi :: "grant_policy \<Rightarrow> abi list" where
  "policy_abi policy =
     [AbiString OAATH_GRANT_POLICY_HASH_DOMAIN,
      AbiString OAATH_GRANT_POLICY_VERSION,
      AbiArray (map call_abi (gp_calls policy)),
      AbiUint 48 (gp_validAfter policy),
      AbiBool (gp_validUntil policy \<noteq> None),
      AbiUint 48 (case gp_validUntil policy of None \<Rightarrow> 0 | Some u \<Rightarrow> u),
      AbiUint 48 (case gp_perChainOperationLimit policy of None \<Rightarrow> 0 | Some l \<Rightarrow> lim_count l),
      AbiUint 48 (case gp_perChainOperationLimit policy of None \<Rightarrow> 0
                  | Some l \<Rightarrow> (case lim_intervalSeconds l of None \<Rightarrow> 0 | Some i \<Rightarrow> i))]"

definition encodeCapturedGrantPolicy :: "ext \<Rightarrow> grant_policy \<Rightarrow> string" where
  "encodeCapturedGrantPolicy E policy = encodeAbiParameters E (policy_abi policy)"

definition encodeGrantPolicy :: "ext \<Rightarrow> jsval \<Rightarrow> err + string" where
  "encodeGrantPolicy E v =
     (case parseGrantPolicy E v of Inl e \<Rightarrow> Inl e
      | Inr policy \<Rightarrow> Inr (encodeCapturedGrantPolicy E policy))"

definition hashGrantPolicy :: "ext \<Rightarrow> jsval \<Rightarrow> err + string" where
  "hashGrantPolicy E v =
     (case encodeGrantPolicy E v of Inl e \<Rightarrow> Inl e | Inr s \<Rightarrow> Inr (keccak256 E s))"

definition hashGrantPolicyCalls :: "ext \<Rightarrow> jsval \<Rightarrow> err + string" where
  "hashGrantPolicyCalls E v = runC (
     bindC (captureDenseArray v (gp_err Grant_policy_invalid)) (\<lambda>callInputs.
     bindC (guardC (length callInputs \<noteq> 0) (gp_err Grant_policy_invalid)) (\<lambda>_.
     bindC (mapC (parseCall E Grant_policy_invalid) callInputs) (\<lambda>calls.
     bindC (guardC (callsSorted calls) (gp_err Grant_policy_invalid)) (\<lambda>_.
     returnC (keccak256 E (encodeAbiParameters E
       [AbiString OAATH_GRANT_POLICY_CALLS_HASH_DOMAIN, AbiString OAATH_GRANT_POLICY_VERSION,
        AbiArray (map call_abi calls)])))))))"

section \<open>Attenuation\<close>

definition argumentMap :: "policy_call \<Rightarrow> int \<rightharpoonup> string" where
  "argumentMap call =
     map_of (rev (map (\<lambda>argument. (arg_index argument, arg_value argument)) (pc_argumentEquals call)))"

definition callAttenuates :: "policy_call \<Rightarrow> policy_call \<Rightarrow> bool" where
  "callAttenuates requested approved =
     (if pc_target requested \<noteq> pc_target approved \<or>
         pc_selector requested \<noteq> pc_selector approved \<or>
         BigInt (pc_valueLimit approved) > BigInt (pc_valueLimit requested)
      then False
      else (let approvedArguments = argumentMap approved in
        list_all (\<lambda>argument. approvedArguments (arg_index argument) = Some (arg_value argument))
          (pc_argumentEquals requested)))"

definition isLimitAttenuation :: "operation_limit option \<Rightarrow> operation_limit option \<Rightarrow> bool" where
  "isLimitAttenuation requested approved =
     (case requested of None \<Rightarrow> True
      | Some r \<Rightarrow> (case approved of None \<Rightarrow> False
         | Some a \<Rightarrow> lim_count a \<le> lim_count r \<and> lim_intervalSeconds a = lim_intervalSeconds r))"

definition callMap :: "policy_call list \<Rightarrow> string \<rightharpoonup> policy_call" where
  "callMap calls = map_of (rev (map (\<lambda>call. (callKey call, call)) calls))"

definition policyAttenuates :: "grant_policy \<Rightarrow> grant_policy \<Rightarrow> bool" where
  "policyAttenuates requestedPolicy approvedPolicy =
     (if gp_validAfter approvedPolicy < gp_validAfter requestedPolicy \<or>
         (case gp_validUntil requestedPolicy of None \<Rightarrow> False
          | Some r \<Rightarrow> (case gp_validUntil approvedPolicy of None \<Rightarrow> True | Some a \<Rightarrow> a > r)) \<or>
         \<not> isLimitAttenuation (gp_perChainOperationLimit requestedPolicy)
              (gp_perChainOperationLimit approvedPolicy)
      then False
      else if isSudoGrantPolicy approvedPolicy then isSudoGrantPolicy requestedPolicy
      else if isSudoGrantPolicy requestedPolicy then True
      else (let requestedCalls = callMap (gp_calls requestedPolicy) in
        list_all (\<lambda>call. case requestedCalls (callKey call) of None \<Rightarrow> False
                         | Some requestedCall \<Rightarrow> callAttenuates requestedCall call)
          (gp_calls approvedPolicy)))"

definition isGrantPolicyAttenuation :: "ext \<Rightarrow> jsval \<Rightarrow> jsval \<Rightarrow> err + bool" where
  "isGrantPolicyAttenuation E requested approved =
     (case runC (capturePolicy E Grant_policy_attenuation_input_invalid requested) of Inl e \<Rightarrow> Inl e
      | Inr requestedPolicy \<Rightarrow>
     (case runC (capturePolicy E Grant_policy_attenuation_input_invalid approved) of Inl e \<Rightarrow> Inl e
      | Inr approvedPolicy \<Rightarrow> Inr (policyAttenuates requestedPolicy approvedPolicy)))"

section \<open>Coverage\<close>

record usage_checkpoint =
  ck_blockNumber :: string
  ck_blockHash :: string
  ck_observedAt :: int

datatype usage_reason = Unreadable | Non_finalized | Canonicality_unproven

datatype usage_evidence =
    UsageComplete (ue_grantId: string) (ue_chainId: int) (ue_finalizedOperationCount: string)
      (ue_through: usage_checkpoint)
  | UsageUnavailable usage_reason

record coverage_call =
  cc_target :: string
  cc_data :: string
  cc_value :: string

record coverage_input =
  ci_policy :: grant_policy
  ci_grantId :: string
  ci_chainId :: int
  ci_evaluatedAt :: int
  ci_calls :: "coverage_call list"
  ci_usage :: "usage_evidence option"

datatype denied_reason =
    Empty_calls | Outside_time_window | Call_not_permitted | Argument_not_permitted
  | Value_limit_exceeded | Operation_limit_exhausted

datatype inconclusive_reason =
    Usage_missing | Usage_unavailable usage_reason | Usage_identity_mismatch

datatype coverage_result =
    Covered string int "string option"
  | Denied string int denied_reason "nat option"
  | Inconclusive string int inconclusive_reason

fun coverage_data :: "jsval \<Rightarrow> grant_policy_code \<Rightarrow> err + string" where
  "coverage_data (JString s) code =
     (if \<not> lower_bytes s \<or> length s < 10 then Inl (gp_err code) else Inr s)"
| "coverage_data _ code = Inl (gp_err code)"

definition parseCoverageCall :: "ext \<Rightarrow> grant_policy_code \<Rightarrow> jsval \<Rightarrow> (err, coverage_call) capture" where
  "parseCoverageCall E code v =
     bindC (exactRecord v [''target'', ''data'', ''value''] (gp_err code)) (\<lambda>record.
     bindC (liftC (coverage_data (fld record ''data'') code)) (\<lambda>data.
     bindC (liftC (gp_address E (fld record ''target'') code)) (\<lambda>target.
     bindC (liftC (gp_uint256 (fld record ''value'') code)) (\<lambda>value.
     returnC \<lparr>cc_target = target, cc_data = data, cc_value = value\<rparr>))))"

definition parseCheckpoint :: "grant_policy_code \<Rightarrow> jsval \<Rightarrow> (err, usage_checkpoint) capture" where
  "parseCheckpoint code v =
     bindC (exactRecord v [''blockNumber'', ''blockHash'', ''observedAt''] (gp_err code)) (\<lambda>record.
     bindC (liftC (gp_uint256 (fld record ''blockNumber'') code)) (\<lambda>blockNumber.
     bindC (liftC (gp_hash (fld record ''blockHash'') code)) (\<lambda>blockHash.
     bindC (liftC (gp_safeInteger (fld record ''observedAt'') code 0 MAX_SAFE_INTEGER)) (\<lambda>observedAt.
     returnC \<lparr>ck_blockNumber = blockNumber, ck_blockHash = blockHash, ck_observedAt = observedAt\<rparr>))))"

fun usage_reason_of :: "jsval \<Rightarrow> grant_policy_code \<Rightarrow> err + usage_reason" where
  "usage_reason_of (JString s) code =
     (if s = ''unreadable'' then Inr Unreadable
      else if s = ''non_finalized'' then Inr Non_finalized
      else if s = ''canonicality_unproven'' then Inr Canonicality_unproven
      else Inl (gp_err code))"
| "usage_reason_of _ code = Inl (gp_err code)"

definition parseUsage :: "grant_policy_code \<Rightarrow> jsval \<Rightarrow> (err, usage_evidence) capture" where
  "parseUsage code v =
     bindC (captureRecord v (gp_err code)) (\<lambda>captured.
     if fld captured ''status'' = JString ''complete'' then
       bindC (exactCapturedRecord captured
                [''version'', ''status'', ''grantId'', ''chainId'', ''finalizedOperationCount'', ''through'']
                (gp_err code)) (\<lambda>record.
       bindC (guardC (fld record ''version'' = JString OAATH_GRANT_POLICY_USAGE_VERSION) (gp_err code)) (\<lambda>_.
       bindC (liftC (gp_canonicalGrantId (fld record ''grantId'') code)) (\<lambda>grantId.
       bindC (liftC (gp_safeInteger (fld record ''chainId'') code 1 MAX_SAFE_INTEGER)) (\<lambda>chainId.
       bindC (liftC (gp_uint256 (fld record ''finalizedOperationCount'') code)) (\<lambda>finalizedOperationCount.
       bindC (parseCheckpoint code (fld record ''through'')) (\<lambda>through.
       returnC (UsageComplete grantId chainId finalizedOperationCount through)))))))
     else
       bindC (exactCapturedRecord captured [''version'', ''status'', ''reason''] (gp_err code)) (\<lambda>record.
       bindC (guardC (fld record ''version'' = JString OAATH_GRANT_POLICY_USAGE_VERSION \<and>
                      fld record ''status'' = JString ''unavailable'') (gp_err code)) (\<lambda>_.
       bindC (liftC (usage_reason_of (fld record ''reason'') code)) (\<lambda>reason.
       returnC (UsageUnavailable reason)))))"

definition parseUsageEvidence :: "grant_policy_code \<Rightarrow> jsval \<Rightarrow> (err, usage_evidence option) capture" where
  "parseUsageEvidence code = nullableC (parseUsage code)"

definition captureCoverageInput :: "ext \<Rightarrow> jsval \<Rightarrow> (err, coverage_input) capture" where
  "captureCoverageInput E v =
     (let code = Grant_policy_coverage_input_invalid in
     bindC (exactRecord v [''policy'', ''grantId'', ''chainId'', ''evaluatedAt'', ''calls'', ''usage'']
              (gp_err code)) (\<lambda>record.
     bindC (captureDenseArray (fld record ''calls'') (gp_err code)) (\<lambda>callInputs.
     bindC (capturePolicy E code (fld record ''policy'')) (\<lambda>policy.
     bindC (liftC (gp_canonicalGrantId (fld record ''grantId'') code)) (\<lambda>grantId.
     bindC (liftC (gp_safeInteger (fld record ''chainId'') code 1 MAX_SAFE_INTEGER)) (\<lambda>chainId.
     bindC (liftC (gp_safeInteger (fld record ''evaluatedAt'') code 0 MAX_UINT48)) (\<lambda>evaluatedAt.
     bindC (mapC (parseCoverageCall E code) callInputs) (\<lambda>calls.
     bindC (parseUsageEvidence code (fld record ''usage'')) (\<lambda>usage.
     returnC \<lparr>ci_policy = policy, ci_grantId = grantId, ci_chainId = chainId,
              ci_evaluatedAt = evaluatedAt, ci_calls = calls, ci_usage = usage\<rparr>)))))))))"

text \<open>The calldata bytes of argument word \<open>i\<close>, as the code slices them.\<close>

definition argument_word :: "string \<Rightarrow> int \<Rightarrow> string" where
  "argument_word data i = (let start = nat (10 + i * 64) in ''0x'' @ slice start (start + 64) data)"

fun argumentDenial :: "argument_equality list \<Rightarrow> string \<Rightarrow> denied_reason option" where
  "argumentDenial [] data = None"
| "argumentDenial (equality # rest) data =
     (let byteEnd = (arg_index equality + 1) * 32;
          argumentByteLength = int ((length data - 10) div 2) in
      if byteEnd > argumentByteLength then Some Argument_not_permitted
      else if argument_word data (arg_index equality) \<noteq> arg_value equality then Some Argument_not_permitted
      else argumentDenial rest data)"

definition callDenialReason :: "policy_call \<Rightarrow> coverage_call \<Rightarrow> denied_reason option" where
  "callDenialReason permitted candidate =
     (if BigInt (cc_value candidate) > BigInt (pc_valueLimit permitted) then Some Value_limit_exceeded
      else argumentDenial (pc_argumentEquals permitted) (cc_data candidate))"

fun callsDenial :: "(string \<rightharpoonup> policy_call) \<Rightarrow> nat \<Rightarrow> coverage_call list \<Rightarrow> (denied_reason \<times> nat) option" where
  "callsDenial permittedCalls index [] = None"
| "callsDenial permittedCalls index (candidate # rest) =
     (let candidateSelector = slice 0 10 (cc_data candidate) in
      case permittedCalls (cc_target candidate @ '':'' @ candidateSelector) of
        None \<Rightarrow> Some (Call_not_permitted, index)
      | Some permitted \<Rightarrow>
          (case callDenialReason permitted candidate of
             Some reason \<Rightarrow> Some (reason, index)
           | None \<Rightarrow> callsDenial permittedCalls (Suc index) rest))"

definition evaluateCoverage :: "ext \<Rightarrow> coverage_input \<Rightarrow> coverage_result" where
  "evaluateCoverage E input =
     (let policy = ci_policy input;
          policyHash = keccak256 E (encodeCapturedGrantPolicy E policy);
          chainId = ci_chainId input in
      if length (ci_calls input) = 0 then Denied policyHash chainId Empty_calls None
      else if ci_evaluatedAt input < gp_validAfter policy \<or>
              (case gp_validUntil policy of None \<Rightarrow> False | Some u \<Rightarrow> ci_evaluatedAt input > u)
      then Denied policyHash chainId Outside_time_window None
      else
       (let permittedCalls = callMap (gp_calls policy);
            matched = (if isSudoGrantPolicy policy then [] else ci_calls input) in
        case callsDenial permittedCalls 0 matched of
          Some (reason, index) \<Rightarrow> Denied policyHash chainId reason (Some index)
        | None \<Rightarrow>
         (case gp_perChainOperationLimit policy of
            None \<Rightarrow> Covered policyHash chainId None
          | Some limit \<Rightarrow>
           (case ci_usage input of
              None \<Rightarrow> Inconclusive policyHash chainId Usage_missing
            | Some (UsageUnavailable reason) \<Rightarrow> Inconclusive policyHash chainId (Usage_unavailable reason)
            | Some (UsageComplete grantId usageChainId finalizedOperationCount through) \<Rightarrow>
               (if grantId \<noteq> ci_grantId input \<or> usageChainId \<noteq> chainId
                then Inconclusive policyHash chainId Usage_identity_mismatch
                else if BigInt finalizedOperationCount \<ge> lim_count limit
                then Denied policyHash chainId Operation_limit_exhausted None
                else Covered policyHash chainId (Some finalizedOperationCount))))))"

definition evaluateGrantPolicyCoverage :: "ext \<Rightarrow> jsval \<Rightarrow> err + coverage_result" where
  "evaluateGrantPolicyCoverage E v =
     (case runC (captureCoverageInput E v) of Inl e \<Rightarrow> Inl e
      | Inr input \<Rightarrow> Inr (evaluateCoverage E input))"

section \<open>What the coverage input capture guarantees\<close>

definition wf_coverage_call :: "coverage_call \<Rightarrow> bool" where
  "wf_coverage_call x \<longleftrightarrow>
     address_ok (cc_target x) \<and> lower_bytes (cc_data x) \<and> 10 \<le> length (cc_data x) \<and>
     uint256_string (cc_value x)"

definition wf_usage :: "usage_evidence \<Rightarrow> bool" where
  "wf_usage u \<longleftrightarrow> (case u of UsageUnavailable _ \<Rightarrow> True
     | UsageComplete grantId chainId count through \<Rightarrow>
         id_ok grantId \<and> int_ok 1 chainId \<and> uint256_string count \<and>
         uint256_string (ck_blockNumber through) \<and> lower_hex 64 (ck_blockHash through) \<and>
         int_ok 0 (ck_observedAt through))"

definition wf_coverage_input :: "coverage_input \<Rightarrow> bool" where
  "wf_coverage_input i \<longleftrightarrow>
     wf_policy (ci_policy i) \<and> id_ok (ci_grantId i) \<and> int_ok 1 (ci_chainId i) \<and>
     0 \<le> ci_evaluatedAt i \<and> ci_evaluatedAt i \<le> MAX_UINT48 \<and>
     list_all wf_coverage_call (ci_calls i) \<and> (\<forall>u. ci_usage i = Some u \<longrightarrow> wf_usage u)"

lemma coverage_data_Inr [simp]:
  "coverage_data v code = Inr s \<longleftrightarrow> v = JString s \<and> lower_bytes s \<and> 10 \<le> length s"
  by (cases v) auto

lemma parseCoverageCall_sound:
  "ext_ok E \<Longrightarrow> parseCoverageCall E code v c = Inr (x, c') \<Longrightarrow> wf_coverage_call x"
  unfolding parseCoverageCall_def
  by (elim bindC_InrE) (auto simp: gp_field_defs wf_coverage_call_def dest: captureAddress_sound)

lemma parseCheckpoint_sound:
  "parseCheckpoint code v c = Inr (x, c') \<Longrightarrow>
     uint256_string (ck_blockNumber x) \<and> lower_hex 64 (ck_blockHash x) \<and> int_ok 0 (ck_observedAt x)"
  unfolding parseCheckpoint_def by (elim bindC_InrE) (auto simp: gp_field_defs)

lemma parseUsage_sound: "parseUsage code v c = Inr (u, c') \<Longrightarrow> wf_usage u"
  unfolding parseUsage_def
  by (elim bindC_InrE)
    (auto simp: gp_field_defs wf_usage_def dest!: parseCheckpoint_sound elim!: bindC_InrE split: if_splits)

lemma captureCoverageInput_sound:
  assumes "ext_ok E" and "captureCoverageInput E v c = Inr (i, c')"
  shows "wf_coverage_input i"
proof -
  have calls: "list_all wf_coverage_call calls"
    if "mapC (parseCoverageCall E code) vs c1 = Inr (calls, c2)" for code vs calls c1 c2
    using mapC_Inr_list_all2 [OF that] parseCoverageCall_sound [OF assms(1)]
    by (auto simp: list_all_length list_all2_conv_all_nth)
  show ?thesis
    using assms(2) unfolding captureCoverageInput_def parseUsageEvidence_def Let_def
    by (elim bindC_InrE nullableC_InrE)
      (auto simp: gp_field_defs safe_integer_Inr wf_coverage_input_def int_ok_def
        dest!: capturePolicy_sound [OF assms(1)] calls parseUsage_sound)
qed

section \<open>The specification of coverage\<close>

text \<open>
  A call is permitted when the policy lists no calls, or lists one with the call's target and
  selector whose value limit and argument equalities the call meets.
\<close>

definition argument_met :: "coverage_call \<Rightarrow> argument_equality \<Rightarrow> bool" where
  "argument_met x a \<longleftrightarrow>
     (arg_index a + 1) * 32 \<le> int ((length (cc_data x) - 10) div 2) \<and>
     argument_word (cc_data x) (arg_index a) = arg_value a"

definition call_admits :: "policy_call \<Rightarrow> coverage_call \<Rightarrow> bool" where
  "call_admits pc x \<longleftrightarrow>
     pc_target pc = cc_target x \<and> pc_selector pc = take 10 (cc_data x) \<and>
     BigInt (cc_value x) \<le> BigInt (pc_valueLimit pc) \<and>
     list_all (argument_met x) (pc_argumentEquals pc)"

definition call_permitted :: "grant_policy \<Rightarrow> coverage_call \<Rightarrow> bool" where
  "call_permitted policy x \<longleftrightarrow> gp_calls policy = [] \<or> list_ex (\<lambda>pc. call_admits pc x) (gp_calls policy)"

definition in_window :: "grant_policy \<Rightarrow> int \<Rightarrow> bool" where
  "in_window policy t \<longleftrightarrow> gp_validAfter policy \<le> t \<and> (\<forall>u. gp_validUntil policy = Some u \<longrightarrow> t \<le> u)"

definition usage_allows :: "coverage_input \<Rightarrow> bool" where
  "usage_allows i \<longleftrightarrow>
     (case gp_perChainOperationLimit (ci_policy i) of None \<Rightarrow> True
      | Some l \<Rightarrow> (case ci_usage i of
           Some (UsageComplete grantId chainId count _) \<Rightarrow>
             grantId = ci_grantId i \<and> chainId = ci_chainId i \<and> BigInt count < lim_count l
         | _ \<Rightarrow> False))"

definition covers :: "coverage_input \<Rightarrow> bool" where
  "covers i \<longleftrightarrow> ci_calls i \<noteq> [] \<and> in_window (ci_policy i) (ci_evaluatedAt i) \<and>
     list_all (call_permitted (ci_policy i)) (ci_calls i) \<and> usage_allows i"

lemma argumentDenial_None: "argumentDenial as (cc_data x) = None \<longleftrightarrow> list_all (argument_met x) as"
  by (induction as "cc_data x" rule: argumentDenial.induct) (auto simp: argument_met_def Let_def)

lemma callKey_eq:
  assumes "address_ok (pc_target pc)" and "address_ok t"
  shows "callKey pc = t @ '':'' @ s \<longleftrightarrow> pc_target pc = t \<and> pc_selector pc = s"
  using assms by (auto simp: callKey_def address_ok_def lower_hex_def)

lemma callMap_unique:
  assumes "sorted_wrt (<) (map callKey calls)"
  shows "callMap calls k = Some pc \<longleftrightarrow> pc \<in> set calls \<and> callKey pc = k"
proof -
  have d: "distinct (map callKey calls)" by (rule sorted_less_distinct [OF assms])
  have "callMap calls = map_of (map (\<lambda>pc. (callKey pc, pc)) calls)"
    unfolding callMap_def by (rule map_of_rev_distinct) (simp add: comp_def d)
  then show ?thesis
    using map_of_key_in [of callKey calls k pc] map_of_key_distinct [OF d, of pc] by auto
qed

lemma wf_policy_calls:
  "wf_policy p \<Longrightarrow> pc \<in> set (gp_calls p) \<Longrightarrow> wf_call pc"
  "wf_policy p \<Longrightarrow> pc \<in> set (gp_calls p) \<Longrightarrow> address_ok (pc_target pc)"
  by (auto simp: wf_policy_def wf_call_def list_all_iff)

text \<open>Looking one call up and testing it decides the specification of that call.\<close>

lemma callDenial_one:
  assumes "wf_policy p" and "wf_coverage_call x"
  shows "(case callMap (gp_calls p) (cc_target x @ '':'' @ take 10 (cc_data x)) of None \<Rightarrow> True
          | Some pc \<Rightarrow> callDenialReason pc x \<noteq> None) \<longleftrightarrow> \<not> list_ex (\<lambda>pc. call_admits pc x) (gp_calls p)"
proof -
  let ?k = "cc_target x @ '':'' @ take 10 (cc_data x)"
  have sorted: "sorted_wrt (<) (map callKey (gp_calls p))" using assms(1) by (simp add: wf_policy_def)
  have admits: "call_admits pc x \<longleftrightarrow> callKey pc = ?k \<and> callDenialReason pc x = None"
    if "pc \<in> set (gp_calls p)" for pc
    using that assms callKey_eq [OF wf_policy_calls(2)]
    by (auto simp: call_admits_def callDenialReason_def argumentDenial_None wf_coverage_call_def)
  show ?thesis
  proof (cases "callMap (gp_calls p) ?k")
    case None
    then have "callKey pc \<noteq> ?k" if "pc \<in> set (gp_calls p)" for pc
      using that callMap_unique [OF sorted, of ?k pc] by simp
    with None admits show ?thesis by (auto simp: list_ex_iff)
  next
    case (Some pc)
    with callMap_unique [OF sorted] have pc: "pc \<in> set (gp_calls p)" "callKey pc = ?k" by auto
    moreover have "qc = pc" if "qc \<in> set (gp_calls p)" "callKey qc = ?k" for qc
      using that Some callMap_unique [OF sorted, of ?k qc] by auto
    ultimately have "list_ex (\<lambda>pc. call_admits pc x) (gp_calls p) \<longleftrightarrow> call_admits pc x"
      using admits unfolding list_ex_iff by blast
    with Some admits [OF pc(1)] pc(2) show ?thesis by simp
  qed
qed

lemma callsDenial_None:
  assumes "wf_policy p" and "gp_calls p \<noteq> []" and "list_all wf_coverage_call xs"
  shows "callsDenial (callMap (gp_calls p)) n xs = None \<longleftrightarrow> list_all (call_permitted p) xs"
  using assms(3)
proof (induction xs arbitrary: n)
  case (Cons x xs)
  then show ?case
    using callDenial_one [OF assms(1), of x] assms(2)
    by (auto simp: call_permitted_def slice_def split: option.splits)
qed simp

text \<open>The index a denial reports is that of the first call that is not permitted.\<close>

lemma callsDenial_Some:
  assumes "wf_policy p" and "gp_calls p \<noteq> []" and "list_all wf_coverage_call xs"
    and "callsDenial (callMap (gp_calls p)) n xs = Some (reason, i)"
  shows "n \<le> i \<and> i - n < length xs \<and> list_all (call_permitted p) (take (i - n) xs) \<and>
         \<not> call_permitted p (xs ! (i - n))"
  using assms(3,4)
proof (induction xs arbitrary: n)
  case (Cons x xs)
  note one = callDenial_one [OF assms(1), of x]
  show ?case
  proof (cases "call_permitted p x")
    case True
    with Cons.prems one assms(2) have "callsDenial (callMap (gp_calls p)) (Suc n) xs = Some (reason, i)"
      by (auto simp: call_permitted_def slice_def split: option.splits)
    with Cons have "Suc n \<le> i" "i - Suc n < length xs" "list_all (call_permitted p) (take (i - Suc n) xs)"
      "\<not> call_permitted p (xs ! (i - Suc n))" by auto
    moreover from this(1) have "i - n = Suc (i - Suc n)" by simp
    ultimately show ?thesis using True by simp
  next
    case False
    with Cons.prems one assms(2) have "i = n"
      by (auto simp: call_permitted_def slice_def split: option.splits)
    with False show ?thesis by simp
  qed
qed simp

lemma evaluateCoverage_covers:
  assumes "wf_coverage_input i"
  shows "(\<exists>n. evaluateCoverage E i = Covered h chain n) \<longleftrightarrow>
         covers i \<and> h = keccak256 E (encodeCapturedGrantPolicy E (ci_policy i)) \<and> chain = ci_chainId i"
proof -
  have wf: "wf_policy (ci_policy i)" "list_all wf_coverage_call (ci_calls i)"
    using assms by (auto simp: wf_coverage_input_def)
  have denial: "callsDenial (callMap (gp_calls (ci_policy i))) 0
        (if isSudoGrantPolicy (ci_policy i) then [] else ci_calls i) = None \<longleftrightarrow>
      list_all (call_permitted (ci_policy i)) (ci_calls i)"
    using callsDenial_None [OF wf(1) _ wf(2)]
    by (auto simp: isSudoGrantPolicy_def call_permitted_def list_all_iff)
  have window: "(ci_evaluatedAt i < gp_validAfter (ci_policy i) \<or>
      (case gp_validUntil (ci_policy i) of None \<Rightarrow> False | Some u \<Rightarrow> ci_evaluatedAt i > u)) \<longleftrightarrow>
      \<not> in_window (ci_policy i) (ci_evaluatedAt i)"
    by (auto simp: in_window_def split: option.splits)
  show ?thesis
    unfolding evaluateCoverage_def covers_def Let_def window denial [symmetric]
    by (auto simp: usage_allows_def split: option.splits usage_evidence.splits if_splits)
qed

section \<open>The order of attenuation\<close>

lemma argumentMap_Some:
  assumes "wf_call pc"
  shows "argumentMap pc i = Some w \<longleftrightarrow> \<lparr>arg_index = i, arg_value = w\<rparr> \<in> set (pc_argumentEquals pc)"
proof -
  have d: "distinct (map arg_index (pc_argumentEquals pc))"
    using assms by (intro sorted_less_distinct) (simp add: wf_call_def)
  have "argumentMap pc = map_of (map (\<lambda>a. (arg_index a, arg_value a)) (pc_argumentEquals pc))"
    unfolding argumentMap_def by (rule map_of_rev_distinct) (simp add: comp_def d)
  moreover have "(i, w) \<in> (\<lambda>a. (arg_index a, arg_value a)) ` S \<longleftrightarrow>
      \<lparr>arg_index = i, arg_value = w\<rparr> \<in> S" for S
    by (force simp: js_simps)
  ultimately show ?thesis using d by (simp add: map_of_eq_Some_iff comp_def)
qed

lemma callAttenuates_iff:
  assumes "wf_call a"
  shows "callAttenuates r a \<longleftrightarrow>
     pc_target r = pc_target a \<and> pc_selector r = pc_selector a \<and>
     BigInt (pc_valueLimit a) \<le> BigInt (pc_valueLimit r) \<and>
     set (pc_argumentEquals r) \<subseteq> set (pc_argumentEquals a)"
  by (auto simp: callAttenuates_def argumentMap_Some [OF assms] list_all_iff js_simps)

definition attenuates_spec :: "grant_policy \<Rightarrow> grant_policy \<Rightarrow> bool" where
  "attenuates_spec r a \<longleftrightarrow>
     gp_validAfter r \<le> gp_validAfter a \<and>
     (\<forall>u. gp_validUntil r = Some u \<longrightarrow> (\<exists>w. gp_validUntil a = Some w \<and> w \<le> u)) \<and>
     isLimitAttenuation (gp_perChainOperationLimit r) (gp_perChainOperationLimit a) \<and>
     (gp_calls r = [] \<or> (gp_calls a \<noteq> [] \<and>
        (\<forall>ac\<in>set (gp_calls a). \<exists>rc\<in>set (gp_calls r). callAttenuates rc ac)))"

lemma policyAttenuates_spec:
  assumes "wf_policy r" and "wf_policy a"
  shows "policyAttenuates r a \<longleftrightarrow> attenuates_spec r a"
proof -
  have sorted: "sorted_wrt (<) (map callKey (gp_calls r))" using assms(1) by (simp add: wf_policy_def)
  have key: "callKey rc = callKey ac" if "callAttenuates rc ac" for rc ac
    using that by (simp add: callAttenuates_def callKey_def split: if_splits)
  have one: "(case callMap (gp_calls r) (callKey ac) of None \<Rightarrow> False | Some rc \<Rightarrow> callAttenuates rc ac) \<longleftrightarrow>
      (\<exists>rc\<in>set (gp_calls r). callAttenuates rc ac)" for ac
  proof (cases "callMap (gp_calls r) (callKey ac)")
    case None
    then show ?thesis using callMap_unique [OF sorted, of "callKey ac"] key by auto
  next
    case (Some rc)
    then show ?thesis using callMap_unique [OF sorted, of "callKey ac"] key by (metis option.inject option.simps(5))
  qed
  show ?thesis
    unfolding policyAttenuates_def attenuates_spec_def Let_def isSudoGrantPolicy_def one list_all_iff
    by (auto simp: not_less split: option.splits)
qed

lemma isLimitAttenuation_refl: "isLimitAttenuation l l"
  by (simp add: isLimitAttenuation_def split: option.splits)

lemma isLimitAttenuation_trans:
  "isLimitAttenuation l m \<Longrightarrow> isLimitAttenuation m n \<Longrightarrow> isLimitAttenuation l n"
  by (auto simp: isLimitAttenuation_def split: option.splits)

lemma attenuates_refl: "wf_policy p \<Longrightarrow> attenuates_spec p p"
  using wf_policy_calls(1) [of p]
  by (force simp: attenuates_spec_def isLimitAttenuation_refl callAttenuates_iff)

lemma attenuates_trans:
  assumes "wf_policy p" "wf_policy q" "wf_policy r" "attenuates_spec p q" "attenuates_spec q r"
  shows "attenuates_spec p r"
proof -
  have call: "callAttenuates x z" if "callAttenuates x y" "callAttenuates y z" "wf_call y" "wf_call z" for x y z
    using that by (auto simp: callAttenuates_iff)
  have "\<exists>rc\<in>set (gp_calls p). callAttenuates rc ac"
    if "gp_calls p \<noteq> []" "ac \<in> set (gp_calls r)" for ac
  proof -
    from that assms(4,5) obtain qc where qc: "qc \<in> set (gp_calls q)" "callAttenuates qc ac"
      by (fastforce simp: attenuates_spec_def)
    with that assms(4) obtain pc where "pc \<in> set (gp_calls p)" "callAttenuates pc qc"
      by (fastforce simp: attenuates_spec_def)
    with qc that assms call show ?thesis by (meson wf_policy_calls(1))
  qed
  moreover have "gp_validAfter p \<le> gp_validAfter r" "isLimitAttenuation (gp_perChainOperationLimit p) (gp_perChainOperationLimit r)"
    "gp_calls p \<noteq> [] \<Longrightarrow> gp_calls r \<noteq> []"
    using assms(4,5) isLimitAttenuation_trans by (auto simp: attenuates_spec_def)
  moreover have "\<exists>w. gp_validUntil r = Some w \<and> w \<le> u" if "gp_validUntil p = Some u" for u
    using that assms(4,5) unfolding attenuates_spec_def by (meson order_trans)
  ultimately show ?thesis unfolding attenuates_spec_def by blast
qed

lemma admits_attenuated:
  assumes "wf_call a" "callAttenuates r a" "call_admits a x"
  shows "call_admits r x"
  using assms by (auto simp: callAttenuates_iff call_admits_def list_all_iff)

lemma covers_attenuated:
  assumes "wf_policy r" "wf_policy a" "attenuates_spec r a" "covers (i\<lparr>ci_policy := a\<rparr>)"
  shows "covers (i\<lparr>ci_policy := r\<rparr>)"
proof -
  have "call_permitted r x" if "call_permitted a x" for x
    using that assms(3) admits_attenuated wf_policy_calls(1) [OF assms(2)]
    unfolding call_permitted_def attenuates_spec_def list_ex_iff by metis
  moreover have "in_window r t" if "in_window a t" for t
    using that assms(3) by (force simp: in_window_def attenuates_spec_def)
  moreover have "usage_allows (i\<lparr>ci_policy := r\<rparr>)" if "usage_allows (i\<lparr>ci_policy := a\<rparr>)"
    using that assms(3)
    by (auto simp: usage_allows_def attenuates_spec_def isLimitAttenuation_def
        split: option.splits usage_evidence.splits)
  ultimately show ?thesis using assms(4) by (auto simp: covers_def list_all_iff)
qed

lemma isGrantPolicyAttenuation_literal:
  assumes "ext_ok E" "wf_policy r" "wf_policy a"
  shows "isGrantPolicyAttenuation E (policy_literal [] r) (policy_literal [] a) = Inr (attenuates_spec r a)"
  using assms by (simp add: isGrantPolicyAttenuation_def policy_codec.parse_literal policyAttenuates_spec)

lemma isGrantPolicyAttenuation_Inr:
  assumes "ext_ok E" "isGrantPolicyAttenuation E rv av = Inr b"
  shows "\<exists>r a. wf_policy r \<and> wf_policy a \<and> b = attenuates_spec r a"
proof -
  from assms(2) obtain r a where
    r: "runC (capturePolicy E Grant_policy_attenuation_input_invalid rv) = Inr r" and
    a: "runC (capturePolicy E Grant_policy_attenuation_input_invalid av) = Inr a" and
    b: "b = policyAttenuates r a"
    by (auto simp: isGrantPolicyAttenuation_def split: sum.splits)
  from r a have "wf_policy r" "wf_policy a"
    by (auto simp: runC_Inr dest: capturePolicy_sound [OF assms(1)])
  with b show ?thesis by (auto simp: policyAttenuates_spec)
qed

section \<open>The canonical encoding separates policies\<close>

lemma policy_abi_canonical:
  assumes "wf_policy p"
  shows "list_all abi_canonical (policy_abi p)"
proof -
  have "abi_canonical (argument_abi a)" if "wf_argument a" for a
    using that by (auto simp: argument_abi_def wf_argument_def MAX_ARGUMENT_INDEX_def MAX_SAFE_INTEGER_def)
  then have "abi_canonical (call_abi x)" if "wf_call x" for x
    using that uint256_string_bounds
    by (auto simp: call_abi_def wf_call_def address_ok_def list_all_iff)
  with assms show ?thesis
    by (auto simp: policy_abi_def wf_policy_def wf_limit_def MAX_UINT48_def list_all_iff
        split: option.splits)
qed

lemma policy_abi_same_type: "list_all2 same_type (policy_abi p) (policy_abi q)"
  by (simp add: policy_abi_def call_abi_def argument_abi_def list_all_iff)

lemma argument_abi_inj: "argument_abi a = argument_abi b \<Longrightarrow> a = b"
  by (simp add: argument_abi_def)

lemma call_abi_inj: "call_abi x = call_abi y \<Longrightarrow> wf_call x \<Longrightarrow> wf_call y \<Longrightarrow> x = y"
  using argument_abi_inj
  by (auto simp: call_abi_def wf_call_def uint256_string_def inj_on_def
      intro!: policy_call.equality BigInt_inj dest!: map_inj_on)

lemma map_eq_inj_on:
  "map f xs = map f ys \<Longrightarrow> (\<And>x y. x \<in> set xs \<Longrightarrow> y \<in> set ys \<Longrightarrow> f x = f y \<Longrightarrow> x = y) \<Longrightarrow> xs = ys"
  by (rule list.inj_map_strong [of xs ys f f]) auto

lemma policy_abi_inj:
  assumes "wf_policy p" "wf_policy q" "policy_abi p = policy_abi q"
  shows "p = q"
proof -
  have calls: "gp_calls p = gp_calls q"
    using assms by (intro map_eq_inj_on [of call_abi]) (auto simp: policy_abi_def wf_policy_calls call_abi_inj)
  have "gp_validAfter p = gp_validAfter q" "gp_validUntil p = gp_validUntil q"
    using assms(3) by (auto simp: policy_abi_def split: option.splits)
  moreover have "gp_perChainOperationLimit p = gp_perChainOperationLimit q"
    using assms
    by (auto simp: policy_abi_def wf_policy_def wf_limit_def split: option.splits
        intro!: operation_limit.equality)
  ultimately show ?thesis using calls by (simp add: grant_policy.equality)
qed

section \<open>Concrete policies for the witnesses\<close>

definition hex_of :: "nat \<Rightarrow> char \<Rightarrow> string" where
  "hex_of n c = ''0x'' @ replicate n c"

lemma hex_of_lower: "hex_lower c \<Longrightarrow> lower_hex n (hex_of n c)"
  by (simp add: hex_of_def lower_hex_def list_all_iff)

lemma hex_of_address: "hex_lower c \<Longrightarrow> c \<noteq> CHR ''0'' \<Longrightarrow> address_ok (hex_of 40 c)"
  by (simp add: address_ok_def hex_of_lower) (simp add: hex_of_def zero_address_def numeral_eq_Suc)

lemma hex_samples: "hex_lower (CHR ''1'')" "hex_lower (CHR ''2'')" "hex_lower (CHR ''a'')" "hex_lower (CHR ''b'')"
  by (simp_all add: hex_lower_def)

definition sample_call :: policy_call where
  "sample_call = \<lparr>pc_target = hex_of 40 (CHR ''1''), pc_selector = hex_of 8 (CHR ''a''),
     pc_valueLimit = ''5'', pc_argumentEquals = [\<lparr>arg_index = 0, arg_value = hex_of 64 (CHR ''b'')\<rparr>]\<rparr>"

definition sample_policy :: grant_policy where
  "sample_policy = \<lparr>gp_calls = [sample_call], gp_validAfter = 10, gp_validUntil = Some 1000,
     gp_perChainOperationLimit = Some \<lparr>lim_count = 3, lim_intervalSeconds = None\<rparr>\<rparr>"

text \<open>A request for the same call with no argument equality, no end and twice the operations.\<close>

definition sample_request_policy :: grant_policy where
  "sample_request_policy = \<lparr>gp_calls = [sample_call\<lparr>pc_argumentEquals := []\<rparr>], gp_validAfter = 0,
     gp_validUntil = None, gp_perChainOperationLimit = Some \<lparr>lim_count = 6, lim_intervalSeconds = None\<rparr>\<rparr>"

definition sample_sudo_policy :: grant_policy where
  "sample_sudo_policy = \<lparr>gp_calls = [], gp_validAfter = 100, gp_validUntil = Some 400,
     gp_perChainOperationLimit = None\<rparr>"

lemma uint256_samples: "uint256_string ''0''" "uint256_string ''5''" "uint256_string ''2''"
  by code_simp+

lemma sample_call_wf: "wf_call sample_call" "wf_call (sample_call\<lparr>pc_argumentEquals := []\<rparr>)"
  by (simp_all add: wf_call_def sample_call_def wf_argument_def hex_of_lower hex_of_address hex_samples
      uint256_samples MAX_ARGUMENT_INDEX_def MAX_SAFE_INTEGER_def)

lemma sample_policies_wf:
  "wf_policy sample_policy" "wf_policy sample_request_policy" "wf_policy sample_sudo_policy"
  using sample_call_wf
  by (simp_all add: wf_policy_def sample_policy_def sample_request_policy_def sample_sudo_policy_def
      wf_limit_def MAX_UINT48_def MAX_SAFE_INTEGER_def OAATH_SUDO_GRANT_MAX_SECONDS_def)

lemma sample_attenuates: "attenuates_spec sample_request_policy sample_policy"
  using sample_call_wf
  by (simp add: attenuates_spec_def sample_policy_def sample_request_policy_def isLimitAttenuation_def
      callAttenuates_iff)

definition sample_coverage :: coverage_input where
  "sample_coverage = \<lparr>ci_policy = sample_policy, ci_grantId = ''grant-1'', ci_chainId = 1,
     ci_evaluatedAt = 500,
     ci_calls = [\<lparr>cc_target = hex_of 40 (CHR ''1''), cc_data = hex_of 8 (CHR ''a'') @ replicate 64 (CHR ''b''),
                  cc_value = ''2''\<rparr>],
     ci_usage = Some (UsageComplete ''grant-1'' 1 ''2''
                  \<lparr>ck_blockNumber = ''5'', ck_blockHash = hex_of 64 (CHR ''a''), ck_observedAt = 400\<rparr>)\<rparr>"

lemma sample_coverage_covered:
  "evaluateCoverage E sample_coverage =
     Covered (keccak256 E (encodeCapturedGrantPolicy E sample_policy)) 1 (Some ''2'')"
proof -
  let ?x = "hd (ci_calls sample_coverage)"
  have admits: "callsDenial (callMap (gp_calls sample_policy)) 0 (ci_calls sample_coverage) = None"
    by code_simp
  show ?thesis
    using admits
    by (simp add: evaluateCoverage_def Let_def isSudoGrantPolicy_def)
      (simp add: sample_coverage_def sample_policy_def BigInt_def digit_val_def)
qed

definition coverage_literal :: "ref \<Rightarrow> coverage_input \<Rightarrow> jsval" where
  "coverage_literal p i = mk_obj p
     [(''policy'', policy_literal (at p ''policy'') (ci_policy i)),
      (''grantId'', JString (ci_grantId i)), (''chainId'', jint (ci_chainId i)),
      (''evaluatedAt'', jint (ci_evaluatedAt i)),
      (''calls'', show_list (\<lambda>q x. mk_obj q [(''target'', JString (cc_target x)),
          (''data'', JString (cc_data x)), (''value'', JString (cc_value x))]) (at p ''calls'') (ci_calls i)),
      (''usage'', nullable (\<lambda>u. case u of
           UsageUnavailable r \<Rightarrow> mk_obj (at p ''usage'') [(''version'', JString OAATH_GRANT_POLICY_USAGE_VERSION),
             (''status'', JString ''unavailable''), (''reason'', JString (case r of Unreadable \<Rightarrow> ''unreadable''
               | Non_finalized \<Rightarrow> ''non_finalized'' | Canonicality_unproven \<Rightarrow> ''canonicality_unproven''))]
         | UsageComplete g ch n t \<Rightarrow> mk_obj (at p ''usage'') [(''version'', JString OAATH_GRANT_POLICY_USAGE_VERSION),
             (''status'', JString ''complete''), (''grantId'', JString g), (''chainId'', jint ch),
             (''finalizedOperationCount'', JString n),
             (''through'', mk_obj (at (at p ''usage'') ''through'') [(''blockNumber'', JString (ck_blockNumber t)),
               (''blockHash'', JString (ck_blockHash t)), (''observedAt'', jint (ck_observedAt t))])]) (ci_usage i))]"

lemma sample_coverage_captured:
  "runC (captureCoverageInput sample_ext (coverage_literal [] sample_coverage)) = Inr sample_coverage"
  by code_simp

lemma sample_coverage_covers: "covers sample_coverage"
proof -
  have "wf_coverage_input sample_coverage"
    using sample_coverage_captured captureCoverageInput_sound [OF sample_ext_ok] by (auto simp: runC_Inr)
  with sample_coverage_covered evaluateCoverage_covers show ?thesis by blast
qed

section \<open>Properties\<close>

text \<open>Parsing a Grant policy returns only well-formed policies, and a parsed policy offered
  back as a plain object is accepted again and parses to itself.\<close>

theorem parseGrantPolicy_round_trip:
  assumes "ext_ok E" and "parseGrantPolicy E v = Inr policy"
  shows "wf_policy policy \<and> parseGrantPolicy E (policy_literal [] policy) = Inr policy"
  using assms policy_codec.reparse [OF assms(1)]
  by (auto simp: parseGrantPolicy_def runC_Inr dest: capturePolicy_sound)

theorem parseGrantPolicy_round_trip_witness:
  "wf_policy sample_policy \<and> parseGrantPolicy sample_ext (policy_literal [] sample_policy) = Inr sample_policy"
  by (rule parseGrantPolicy_round_trip [OF sample_ext_ok, of "policy_literal [] sample_policy"])
    (simp add: parseGrantPolicy_def policy_codec.parse_literal sample_ext_ok sample_policies_wf)

text \<open>C10: the coverage evaluation answers "covered" exactly when the input is captured, lists a call,
  is inside the policy's time window, every call is permitted by the policy (target, selector, value
  limit and every argument equality), and, where the policy has an operation limit, complete usage
  evidence of this Grant and chain counts fewer operations than the limit.\<close>

theorem coverage_decides_spec:
  assumes "ext_ok E"
  shows "(\<exists>n. evaluateGrantPolicyCoverage E v = Inr (Covered h chain n)) \<longleftrightarrow>
     (\<exists>i. runC (captureCoverageInput E v) = Inr i \<and> covers i \<and>
          h = keccak256 E (encodeCapturedGrantPolicy E (ci_policy i)) \<and> chain = ci_chainId i)"
proof (cases "runC (captureCoverageInput E v)")
  case (Inr i)
  then have "wf_coverage_input i"
    using captureCoverageInput_sound [OF assms] by (auto simp: runC_Inr)
  with Inr evaluateCoverage_covers [of i E h chain] show ?thesis
    by (simp add: evaluateGrantPolicyCoverage_def)
qed (simp add: evaluateGrantPolicyCoverage_def)

theorem coverage_decides_spec_witness:
  "\<exists>n. evaluateGrantPolicyCoverage sample_ext (coverage_literal [] sample_coverage) =
     Inr (Covered (keccak256 sample_ext (encodeCapturedGrantPolicy sample_ext sample_policy)) 1 n)"
  using sample_coverage_captured sample_coverage_covers
  by (subst coverage_decides_spec [OF sample_ext_ok]) (auto simp: sample_coverage_def)

text \<open>C11: a denial that names a call names the first call of the batch the policy does not permit:
  the index is in range, every call before it is permitted and the call at it is not.\<close>

theorem denial_names_first_call:
  assumes "ext_ok E" and "runC (captureCoverageInput E v) = Inr i"
    and "evaluateGrantPolicyCoverage E v = Inr (Denied h chain reason (Some k))"
  shows "k < length (ci_calls i) \<and> list_all (call_permitted (ci_policy i)) (take k (ci_calls i)) \<and>
         \<not> call_permitted (ci_policy i) (ci_calls i ! k)"
proof -
  have wf: "wf_policy (ci_policy i)" "list_all wf_coverage_call (ci_calls i)"
    using captureCoverageInput_sound [OF assms(1)] assms(2) by (auto simp: runC_Inr wf_coverage_input_def)
  have "callsDenial (callMap (gp_calls (ci_policy i))) 0
      (if isSudoGrantPolicy (ci_policy i) then [] else ci_calls i) = Some (reason, k)"
    using assms(2,3)
    by (auto simp: evaluateGrantPolicyCoverage_def evaluateCoverage_def Let_def
        split: if_splits option.splits usage_evidence.splits)
  with callsDenial_Some [OF wf(1) _ wf(2), of 0 reason k] show ?thesis
    by (auto simp: isSudoGrantPolicy_def split: if_splits)
qed

text \<open>The sample batch followed by a call to another target.\<close>

definition sample_foreign_call :: coverage_call where
  "sample_foreign_call = \<lparr>cc_target = hex_of 40 (CHR ''2''), cc_data = hex_of 8 (CHR ''a''), cc_value = ''0''\<rparr>"

definition sample_denied :: coverage_input where
  "sample_denied = sample_coverage\<lparr>ci_calls := ci_calls sample_coverage @ [sample_foreign_call]\<rparr>"

theorem denial_names_first_call_witness:
  "1 < length (ci_calls sample_denied) \<and>
   list_all (call_permitted (ci_policy sample_denied)) (take 1 (ci_calls sample_denied)) \<and>
   \<not> call_permitted (ci_policy sample_denied) (ci_calls sample_denied ! 1)"
  by (rule denial_names_first_call [OF sample_ext_ok, of "coverage_literal [] sample_denied" _
        "hex_of 64 (CHR ''a'')" 1 Call_not_permitted]) (code_simp, code_simp)

text \<open>C2: an approved policy that passes the attenuation test widens nothing: whatever batch the
  approved policy covers, at any time and with any usage evidence, the requested policy covers too.\<close>

theorem attenuation_never_widens:
  assumes "ext_ok E" and "wf_policy requested" and "wf_policy approved"
    and "isGrantPolicyAttenuation E (policy_literal [] requested) (policy_literal [] approved) = Inr True"
    and "wf_coverage_input i"
    and "evaluateCoverage E (i\<lparr>ci_policy := approved\<rparr>) = Covered h chain n"
  shows "\<exists>h' n'. evaluateCoverage E (i\<lparr>ci_policy := requested\<rparr>) = Covered h' chain n'"
proof -
  have att: "attenuates_spec requested approved"
    using isGrantPolicyAttenuation_literal [OF assms(1-3)] assms(4) by simp
  have wf: "wf_coverage_input (i\<lparr>ci_policy := approved\<rparr>)" "wf_coverage_input (i\<lparr>ci_policy := requested\<rparr>)"
    using assms(2,3,5) by (simp_all add: wf_coverage_input_def)
  with assms(6) evaluateCoverage_covers [OF wf(1), of E h chain]
  have "covers (i\<lparr>ci_policy := approved\<rparr>)" and "chain = ci_chainId i" by auto
  with covers_attenuated [OF assms(2,3) att] evaluateCoverage_covers [OF wf(2)] show ?thesis by auto
qed

theorem attenuation_never_widens_witness:
  "\<exists>h' n'. evaluateCoverage sample_ext (sample_coverage\<lparr>ci_policy := sample_request_policy\<rparr>) = Covered h' 1 n'"
proof (rule attenuation_never_widens [OF sample_ext_ok])
  show "wf_policy sample_request_policy" "wf_policy sample_policy" by (fact sample_policies_wf)+
  show "isGrantPolicyAttenuation sample_ext (policy_literal [] sample_request_policy)
      (policy_literal [] sample_policy) = Inr True"
    by (simp add: isGrantPolicyAttenuation_literal sample_ext_ok sample_policies_wf sample_attenuates)
  show "wf_coverage_input sample_coverage"
    using sample_coverage_captured captureCoverageInput_sound [OF sample_ext_ok] by (auto simp: runC_Inr)
  show "evaluateCoverage sample_ext (sample_coverage\<lparr>ci_policy := sample_policy\<rparr>) =
      Covered (keccak256 sample_ext (encodeCapturedGrantPolicy sample_ext sample_policy)) 1 (Some ''2'')"
    using sample_coverage_covered [of sample_ext] by (simp add: sample_coverage_def)
qed

text \<open>Attenuation is a preorder on parsed policies: every policy attenuates itself, and an
  attenuation of an attenuation attenuates the original request.\<close>

theorem attenuation_preorder:
  assumes "ext_ok E" and "wf_policy p" and "wf_policy q" and "wf_policy r"
  shows "isGrantPolicyAttenuation E (policy_literal [] p) (policy_literal [] p) = Inr True \<and>
     (isGrantPolicyAttenuation E (policy_literal [] p) (policy_literal [] q) = Inr True \<longrightarrow>
      isGrantPolicyAttenuation E (policy_literal [] q) (policy_literal [] r) = Inr True \<longrightarrow>
      isGrantPolicyAttenuation E (policy_literal [] p) (policy_literal [] r) = Inr True)"
  using attenuates_refl [OF assms(2)] attenuates_trans [OF assms(2-4)] assms
  by (simp add: isGrantPolicyAttenuation_literal)

theorem attenuation_preorder_witness:
  "isGrantPolicyAttenuation sample_ext (policy_literal [] sample_request_policy)
     (policy_literal [] sample_request_policy) = Inr True \<and>
   isGrantPolicyAttenuation sample_ext (policy_literal [] sample_request_policy)
     (policy_literal [] sample_policy) = Inr True"
  using attenuation_preorder [OF sample_ext_ok sample_policies_wf(2,2,1)]
  by (simp add: isGrantPolicyAttenuation_literal sample_ext_ok sample_policies_wf sample_attenuates)

text \<open>C12: the canonical encoding identifies the policy: two inputs that encode to the same bytes
  parse to the same policy, so a policy hash commits to every field (for an ABI encoder that
  separates canonical argument lists of the same types).\<close>

theorem encodeGrantPolicy_injective:
  assumes "ext_ok E" and "abi_injective E"
    and "encodeGrantPolicy E v = Inr s" and "encodeGrantPolicy E w = Inr s"
  shows "parseGrantPolicy E v = parseGrantPolicy E w"
proof -
  from assms(3,4) obtain p q where p: "parseGrantPolicy E v = Inr p" and q: "parseGrantPolicy E w = Inr q"
    and eq: "encodeAbiParameters E (policy_abi p) = encodeAbiParameters E (policy_abi q)"
    by (auto simp: encodeGrantPolicy_def encodeCapturedGrantPolicy_def split: sum.splits)
  from p q have wf: "wf_policy p" "wf_policy q"
    by (auto simp: parseGrantPolicy_def runC_Inr dest: capturePolicy_sound [OF assms(1)])
  with eq have "policy_abi p = policy_abi q"
    by (intro abi_injectiveD [OF assms(2)] policy_abi_canonical policy_abi_same_type)
  with wf p q policy_abi_inj show ?thesis by simp
qed

theorem encodeGrantPolicy_injective_witness:
  "parseGrantPolicy injective_ext (policy_literal [] sample_policy) =
   parseGrantPolicy injective_ext (policy_literal [PName ''copy''] sample_policy)"
proof (rule encodeGrantPolicy_injective [OF injective_ext_ok])
  have "runC (capturePolicy injective_ext Grant_policy_invalid (policy_literal r sample_policy)) = Inr sample_policy" for r
    by (rule reads_run [OF capturePolicy_complete]) (simp_all add: injective_ext_ok sample_policies_wf)
  then show "encodeGrantPolicy injective_ext (policy_literal [] sample_policy) =
      Inr (encodeCapturedGrantPolicy injective_ext sample_policy)"
    "encodeGrantPolicy injective_ext (policy_literal [PName ''copy''] sample_policy) =
      Inr (encodeCapturedGrantPolicy injective_ext sample_policy)"
    by (simp_all add: encodeGrantPolicy_def parseGrantPolicy_def)
qed

text \<open>A sudo policy (one with an empty call list) that parses is bounded: it ends within the
  sudo bound of its start and carries no operation limit, and every capture refuses any other.\<close>

theorem sudo_policy_bounded:
  assumes "ext_ok E" and "parseGrantPolicy E v = Inr policy" and "isSudoGrantPolicy policy"
  shows "\<exists>u. gp_validUntil policy = Some u \<and> gp_validAfter policy \<le> u \<and>
     u < gp_validAfter policy + OAATH_SUDO_GRANT_MAX_SECONDS \<and> gp_perChainOperationLimit policy = None"
  using assms
  by (auto simp: parseGrantPolicy_def runC_Inr isSudoGrantPolicy_def wf_policy_def dest!: capturePolicy_sound)

theorem sudo_policy_bounded_witness:
  "\<exists>u. gp_validUntil sample_sudo_policy = Some u \<and> gp_validAfter sample_sudo_policy \<le> u \<and>
     u < gp_validAfter sample_sudo_policy + OAATH_SUDO_GRANT_MAX_SECONDS \<and>
     gp_perChainOperationLimit sample_sudo_policy = None"
proof (rule sudo_policy_bounded [OF sample_ext_ok])
  show "parseGrantPolicy sample_ext (policy_literal [] sample_sudo_policy) = Inr sample_sudo_policy"
    by (simp add: parseGrantPolicy_def policy_codec.parse_literal sample_ext_ok sample_policies_wf)
  show "isSudoGrantPolicy sample_sudo_policy" by (simp add: isSudoGrantPolicy_def sample_sudo_policy_def)
qed

end
