(* ===== verification/Identity_Profile.thy ===== *)
theory Identity_Profile
  imports Policy_Coverage
begin

text \<open>
  Model of \<open>packages/protocol/src/identity-profile.ts\<close>: owner and operator credential profiles and
  Kernel account profiles, their capture, encoding and comparison. The captures take the failure of
  their caller, as the code does; the point decoder of \<open>@noble/curves\<close> is the parameter
  \<open>p256_fromHex\<close>. A profile's constant \<open>version\<close> and \<open>kind\<close> are its constructor.
\<close>

section \<open>Profiles\<close>

definition OAATH_OWNER_CREDENTIAL_PROFILE_VERSION :: string where
  "OAATH_OWNER_CREDENTIAL_PROFILE_VERSION = ''oaath.owner-credential-profile/v1''"

definition OAATH_OPERATOR_CREDENTIAL_PROFILE_VERSION :: string where
  "OAATH_OPERATOR_CREDENTIAL_PROFILE_VERSION = ''oaath.operator-credential-profile/v1''"

definition OAATH_KERNEL_ACCOUNT_PROFILE_VERSION :: string where
  "OAATH_KERNEL_ACCOUNT_PROFILE_VERSION = ''oaath.kernel-account-profile/v1''"

definition OAATH_KERNEL_EXISTING_ACCOUNT_PROFILE_VERSION :: string where
  "OAATH_KERNEL_EXISTING_ACCOUNT_PROFILE_VERSION = ''oaath.kernel-existing-account-profile/v1''"

definition OAATH_OWNER_CREDENTIAL_PROFILE_HASH_DOMAIN :: string where
  "OAATH_OWNER_CREDENTIAL_PROFILE_HASH_DOMAIN = ''@oaath/protocol:owner-credential-profile''"

datatype owner_credential =
    OwnerEcdsa string
  | OwnerP256 string
  | OwnerWebAuthn string string

datatype operator_credential =
    OperatorEcdsa string
  | OperatorWebAuthn string string

datatype kernel_version = V0_3_3 | V0_4_0

datatype factory_route = Kernel_factory | Meta_factory

datatype entry_point_version = EP_0_7 | EP_0_9

datatype kernel_account_profile =
    KernelDerived (kd_accountIndex: string) (kd_factoryRoute: factory_route)
      (kp_ownerCredential: owner_credential)
  | KernelExisting (ke_kernelVersion: kernel_version) (ke_address: string)
      (ke_entryPoint: entry_point_version) (kp_ownerCredential: owner_credential)

definition isKernelExistingAccountProfile :: "kernel_account_profile \<Rightarrow> bool" where
  "isKernelExistingAccountProfile profile =
     (case profile of KernelExisting _ _ _ _ \<Rightarrow> True | KernelDerived _ _ _ \<Rightarrow> False)"

datatype kernel_account_action_input =
    DerivedAction int string kernel_version factory_route entry_point_version owner_credential
  | ExistingAction int kernel_version string entry_point_version owner_credential

section \<open>Capture\<close>

abbreviation ip_err :: "identity_profile_code \<Rightarrow> err" where
  "ip_err \<equiv> OaathIdentityProfileError"

definition ip_address :: "ext \<Rightarrow> jsval \<Rightarrow> err \<Rightarrow> err + string" where
  "ip_address E v fail = captureAddress E v (\<lambda>_. fail) False"

definition ip_hash :: "jsval \<Rightarrow> err \<Rightarrow> err + string" where
  "ip_hash v fail = fixed_hex 64 v fail"

text \<open>\<open>/^0x04[0-9a-f]{128}$/u\<close>\<close>

definition p256_key_re :: "string \<Rightarrow> bool" where
  "p256_key_re s \<longleftrightarrow> lower_hex 130 s \<and> take 4 s = ''0x04''"

definition p256PublicKey :: "ext \<Rightarrow> jsval \<Rightarrow> err \<Rightarrow> err + string" where
  "p256PublicKey E v fail =
     (case v of
        JString s \<Rightarrow>
          (if \<not> p256_key_re s then Inl fail
           else if \<not> p256_fromHex E (drop 2 s) then Inl fail
           else Inr s)
      | _ \<Rightarrow> Inl fail)"

definition accountIndex :: "jsval \<Rightarrow> err \<Rightarrow> err + string" where
  "accountIndex v fail = decimal_uint256 v fail"

definition captureOwnerCredential :: "ext \<Rightarrow> err \<Rightarrow> jsval \<Rightarrow> (err, owner_credential) capture" where
  "captureOwnerCredential E fail v =
     bindC (captureRecord v fail) (\<lambda>captured.
     let kind = fld captured ''kind'';
         keys = (if kind = JString ''ecdsa'' then [''version'', ''kind'', ''address'']
                 else if kind = JString ''p256'' then [''version'', ''kind'', ''publicKey'']
                 else if kind = JString ''webauthn''
                 then [''version'', ''kind'', ''publicKey'', ''authenticatorIdHash'']
                 else [''version'', ''kind'']) in
     bindC (exactCapturedRecord captured keys fail) (\<lambda>record.
     bindC (guardC (fld record ''version'' = JString OAATH_OWNER_CREDENTIAL_PROFILE_VERSION) fail) (\<lambda>_.
     if kind = JString ''ecdsa'' then
       bindC (liftC (ip_address E (fld record ''address'') fail)) (\<lambda>address. returnC (OwnerEcdsa address))
     else if kind = JString ''p256'' then
       bindC (liftC (p256PublicKey E (fld record ''publicKey'') fail)) (\<lambda>publicKey. returnC (OwnerP256 publicKey))
     else if kind = JString ''webauthn'' then
       bindC (liftC (p256PublicKey E (fld record ''publicKey'') fail)) (\<lambda>publicKey.
       bindC (liftC (ip_hash (fld record ''authenticatorIdHash'') fail)) (\<lambda>authenticatorIdHash.
       returnC (OwnerWebAuthn publicKey authenticatorIdHash)))
     else failC fail)))"

definition captureOperatorCredential :: "ext \<Rightarrow> err \<Rightarrow> jsval \<Rightarrow> (err, operator_credential) capture" where
  "captureOperatorCredential E fail v =
     bindC (captureRecord v fail) (\<lambda>captured.
     let kind = fld captured ''kind'';
         keys = (if kind = JString ''ecdsa'' then [''version'', ''kind'', ''address'']
                 else if kind = JString ''webauthn''
                 then [''version'', ''kind'', ''publicKey'', ''authenticatorIdHash'']
                 else [''version'', ''kind'']) in
     bindC (exactCapturedRecord captured keys fail) (\<lambda>record.
     bindC (guardC (fld record ''version'' = JString OAATH_OPERATOR_CREDENTIAL_PROFILE_VERSION) fail) (\<lambda>_.
     if kind = JString ''ecdsa'' then
       bindC (liftC (ip_address E (fld record ''address'') fail)) (\<lambda>address. returnC (OperatorEcdsa address))
     else if kind = JString ''webauthn'' then
       bindC (liftC (p256PublicKey E (fld record ''publicKey'') fail)) (\<lambda>publicKey.
       bindC (liftC (ip_hash (fld record ''authenticatorIdHash'') fail)) (\<lambda>authenticatorIdHash.
       returnC (OperatorWebAuthn publicKey authenticatorIdHash)))
     else failC fail)))"

definition captureOwnerCredentialProfile :: "ext \<Rightarrow> err \<Rightarrow> jsval \<Rightarrow> (err, owner_credential) capture" where
  "captureOwnerCredentialProfile E fail v = captureOwnerCredential E fail v"

definition captureOperatorCredentialProfile :: "ext \<Rightarrow> err \<Rightarrow> jsval \<Rightarrow> (err, operator_credential) capture" where
  "captureOperatorCredentialProfile E fail v = captureOperatorCredential E fail v"

definition is_ecdsa :: "owner_credential \<Rightarrow> bool" where
  "is_ecdsa c = (case c of OwnerEcdsa _ \<Rightarrow> True | _ \<Rightarrow> False)"

definition captureKernelAccountProfile :: "ext \<Rightarrow> err \<Rightarrow> jsval \<Rightarrow> (err, kernel_account_profile) capture" where
  "captureKernelAccountProfile E fail v =
     bindC (captureRecord v fail) (\<lambda>captured.
     let existing = (fld captured ''version'' = JString OAATH_KERNEL_EXISTING_ACCOUNT_PROFILE_VERSION) in
     bindC (exactCapturedRecord captured
              ([''version'', ''kind'', ''kernelVersion''] @
               (if existing then [''address''] else [''accountIndex'', ''factoryRoute'']) @
               [''entryPoint'', ''ownerCredential'']) fail) (\<lambda>record.
     bindC (guardC (fld record ''version'' = JString
                      (if existing then OAATH_KERNEL_EXISTING_ACCOUNT_PROFILE_VERSION
                       else OAATH_KERNEL_ACCOUNT_PROFILE_VERSION) \<and>
                    fld record ''kind'' = JString ''kernel'') fail) (\<lambda>_.
     bindC (guardC (fld record ''kernelVersion'' = JString ''0.4.0'' \<or>
                    (existing \<and> fld record ''kernelVersion'' = JString ''0.3.3'')) fail) (\<lambda>_.
     bindC (guardC (existing \<or> fld record ''factoryRoute'' = JString ''kernel_factory'' \<or>
                    fld record ''factoryRoute'' = JString ''meta_factory'') fail) (\<lambda>_.
     bindC (exactRecord (fld record ''entryPoint'') [''version''] fail) (\<lambda>entryPoint.
     let entryPointVersion =
           (if fld record ''kernelVersion'' = JString ''0.4.0'' then EP_0_9 else EP_0_7) in
     bindC (guardC (fld entryPoint ''version'' =
                    JString (case entryPointVersion of EP_0_9 \<Rightarrow> ''0.9'' | EP_0_7 \<Rightarrow> ''0.7'')) fail) (\<lambda>_.
     bindC (captureOwnerCredentialProfile E fail (fld record ''ownerCredential'')) (\<lambda>ownerCredential.
     if existing then
       bindC (guardC (is_ecdsa ownerCredential \<or> fld record ''kernelVersion'' = JString ''0.4.0'') fail) (\<lambda>_.
       bindC (liftC (ip_address E (fld record ''address'') fail)) (\<lambda>address.
       returnC (KernelExisting
         (if fld record ''kernelVersion'' = JString ''0.4.0'' then V0_4_0 else V0_3_3)
         address entryPointVersion ownerCredential)))
     else
       bindC (liftC (accountIndex (fld record ''accountIndex'') fail)) (\<lambda>index.
       returnC (KernelDerived index
         (if fld record ''factoryRoute'' = JString ''kernel_factory'' then Kernel_factory else Meta_factory)
         ownerCredential))))))))))"

definition parseOwnerCredentialProfile :: "ext \<Rightarrow> jsval \<Rightarrow> err + owner_credential" where
  "parseOwnerCredentialProfile E v =
     runC (captureOwnerCredentialProfile E (ip_err Owner_credential_profile_invalid) v)"

definition owner_abi :: "owner_credential \<Rightarrow> abi list" where
  "owner_abi profile =
     [AbiString OAATH_OWNER_CREDENTIAL_PROFILE_HASH_DOMAIN,
      AbiString OAATH_OWNER_CREDENTIAL_PROFILE_VERSION] @
     (case profile of
        OwnerEcdsa address \<Rightarrow> [AbiString ''ecdsa'', AbiAddress address]
      | OwnerP256 publicKey \<Rightarrow> [AbiString ''p256'', AbiBytes publicKey]
      | OwnerWebAuthn publicKey authenticatorIdHash \<Rightarrow>
          [AbiString ''webauthn'', AbiBytes publicKey, AbiFixedBytes 32 authenticatorIdHash])"

definition encodeCapturedOwnerCredentialProfile :: "ext \<Rightarrow> owner_credential \<Rightarrow> string" where
  "encodeCapturedOwnerCredentialProfile E profile = encodeAbiParameters E (owner_abi profile)"

definition encodeOwnerCredentialProfile :: "ext \<Rightarrow> jsval \<Rightarrow> err + string" where
  "encodeOwnerCredentialProfile E v =
     (case parseOwnerCredentialProfile E v of Inl e \<Rightarrow> Inl e
      | Inr profile \<Rightarrow> Inr (encodeCapturedOwnerCredentialProfile E profile))"

definition hashOwnerCredentialProfile :: "ext \<Rightarrow> jsval \<Rightarrow> err + string" where
  "hashOwnerCredentialProfile E v =
     (case encodeOwnerCredentialProfile E v of Inl e \<Rightarrow> Inl e | Inr s \<Rightarrow> Inr (keccak256 E s))"

definition parseOperatorCredentialProfile :: "ext \<Rightarrow> jsval \<Rightarrow> err + operator_credential" where
  "parseOperatorCredentialProfile E v =
     runC (captureOperatorCredentialProfile E (ip_err Operator_credential_profile_invalid) v)"

definition parseKernelAccountProfile :: "ext \<Rightarrow> jsval \<Rightarrow> err + kernel_account_profile" where
  "parseKernelAccountProfile E v =
     runC (captureKernelAccountProfile E (ip_err Kernel_account_profile_invalid) v)"

definition createKernelAccountActionInput ::
    "ext \<Rightarrow> jsval \<Rightarrow> jsval \<Rightarrow> err + kernel_account_action_input" where
  "createKernelAccountActionInput E profileValue chainIdValue =
     (case parseKernelAccountProfile E profileValue of Inl e \<Rightarrow> Inl e
      | Inr profile \<Rightarrow>
     (if \<not> isSafeInteger chainIdValue \<or> num_val chainIdValue < 1
      then Inl (ip_err Kernel_account_action_input_invalid)
      else case profile of
        KernelExisting kernelVersion address entryPoint ownerCredential \<Rightarrow>
          Inr (ExistingAction (num_val chainIdValue) kernelVersion address entryPoint ownerCredential)
      | KernelDerived index factoryRoute ownerCredential \<Rightarrow>
          Inr (DerivedAction (num_val chainIdValue) index V0_4_0 factoryRoute EP_0_9 ownerCredential)))"

section \<open>Comparison\<close>

fun sameOwnerCredentialProfile :: "owner_credential \<Rightarrow> owner_credential \<Rightarrow> bool" where
  "sameOwnerCredentialProfile (OwnerEcdsa a) (OwnerEcdsa b) = (a = b)"
| "sameOwnerCredentialProfile (OwnerP256 k) (OwnerP256 l) = (k = l)"
| "sameOwnerCredentialProfile (OwnerWebAuthn k h) (OwnerWebAuthn l i) = (k = l \<and> h = i)"
| "sameOwnerCredentialProfile _ _ = False"

fun sameOperatorCredentialProfile :: "operator_credential \<Rightarrow> operator_credential \<Rightarrow> bool" where
  "sameOperatorCredentialProfile (OperatorEcdsa a) (OperatorEcdsa b) = (a = b)"
| "sameOperatorCredentialProfile (OperatorWebAuthn k h) (OperatorWebAuthn l i) = (k = l \<and> h = i)"
| "sameOperatorCredentialProfile _ _ = False"

definition kp_kernelVersion :: "kernel_account_profile \<Rightarrow> kernel_version" where
  "kp_kernelVersion profile =
     (case profile of KernelDerived _ _ _ \<Rightarrow> V0_4_0 | KernelExisting version _ _ _ \<Rightarrow> version)"

definition kp_entryPoint :: "kernel_account_profile \<Rightarrow> entry_point_version" where
  "kp_entryPoint profile =
     (case profile of KernelDerived _ _ _ \<Rightarrow> EP_0_9 | KernelExisting _ _ entryPoint _ \<Rightarrow> entryPoint)"

definition sameKernelAccountProfile :: "kernel_account_profile \<Rightarrow> kernel_account_profile \<Rightarrow> bool" where
  "sameKernelAccountProfile left right =
     (if isKernelExistingAccountProfile left \<noteq> isKernelExistingAccountProfile right \<or>
         kp_entryPoint left \<noteq> kp_entryPoint right \<or>
         \<not> sameOwnerCredentialProfile (kp_ownerCredential left) (kp_ownerCredential right)
      then False
      else if kp_kernelVersion left \<noteq> kp_kernelVersion right then False
      else if isKernelExistingAccountProfile left \<and> isKernelExistingAccountProfile right
      then ke_address left = ke_address right
      else \<not> isKernelExistingAccountProfile left \<and> \<not> isKernelExistingAccountProfile right \<and>
           kd_accountIndex left = kd_accountIndex right \<and> kd_factoryRoute left = kd_factoryRoute right)"

section \<open>Well-formed profiles and their literals\<close>

definition key_ok :: "ext \<Rightarrow> string \<Rightarrow> bool" where
  "key_ok E s \<longleftrightarrow> p256_key_re s \<and> p256_fromHex E (drop 2 s)"

fun wf_owner :: "ext \<Rightarrow> owner_credential \<Rightarrow> bool" where
  "wf_owner E (OwnerEcdsa a) = address_ok a"
| "wf_owner E (OwnerP256 k) = key_ok E k"
| "wf_owner E (OwnerWebAuthn k h) = (key_ok E k \<and> lower_hex 64 h)"

fun wf_operator :: "ext \<Rightarrow> operator_credential \<Rightarrow> bool" where
  "wf_operator E (OperatorEcdsa a) = address_ok a"
| "wf_operator E (OperatorWebAuthn k h) = (key_ok E k \<and> lower_hex 64 h)"

fun wf_kernel :: "ext \<Rightarrow> kernel_account_profile \<Rightarrow> bool" where
  "wf_kernel E (KernelDerived i r c) = (uint256_string i \<and> wf_owner E c)"
| "wf_kernel E (KernelExisting v a ep c) =
     (address_ok a \<and> ep = (if v = V0_4_0 then EP_0_9 else EP_0_7) \<and> wf_owner E c \<and>
      (is_ecdsa c \<or> v = V0_4_0))"

fun owner_literal :: "ref \<Rightarrow> owner_credential \<Rightarrow> jsval" where
  "owner_literal p (OwnerEcdsa a) = mk_obj p
     [(''version'', JString OAATH_OWNER_CREDENTIAL_PROFILE_VERSION), (''kind'', JString ''ecdsa''),
      (''address'', JString a)]"
| "owner_literal p (OwnerP256 k) = mk_obj p
     [(''version'', JString OAATH_OWNER_CREDENTIAL_PROFILE_VERSION), (''kind'', JString ''p256''),
      (''publicKey'', JString k)]"
| "owner_literal p (OwnerWebAuthn k h) = mk_obj p
     [(''version'', JString OAATH_OWNER_CREDENTIAL_PROFILE_VERSION), (''kind'', JString ''webauthn''),
      (''publicKey'', JString k), (''authenticatorIdHash'', JString h)]"

fun operator_literal :: "ref \<Rightarrow> operator_credential \<Rightarrow> jsval" where
  "operator_literal p (OperatorEcdsa a) = mk_obj p
     [(''version'', JString OAATH_OPERATOR_CREDENTIAL_PROFILE_VERSION), (''kind'', JString ''ecdsa''),
      (''address'', JString a)]"
| "operator_literal p (OperatorWebAuthn k h) = mk_obj p
     [(''version'', JString OAATH_OPERATOR_CREDENTIAL_PROFILE_VERSION), (''kind'', JString ''webauthn''),
      (''publicKey'', JString k), (''authenticatorIdHash'', JString h)]"

definition entry_point_literal :: "ref \<Rightarrow> entry_point_version \<Rightarrow> jsval" where
  "entry_point_literal p ep =
     mk_obj p [(''version'', JString (case ep of EP_0_9 \<Rightarrow> ''0.9'' | EP_0_7 \<Rightarrow> ''0.7''))]"

fun kernel_literal :: "ref \<Rightarrow> kernel_account_profile \<Rightarrow> jsval" where
  "kernel_literal p (KernelDerived i r c) = mk_obj p
     [(''version'', JString OAATH_KERNEL_ACCOUNT_PROFILE_VERSION), (''kind'', JString ''kernel''),
      (''accountIndex'', JString i), (''kernelVersion'', JString ''0.4.0''),
      (''factoryRoute'', JString (case r of Kernel_factory \<Rightarrow> ''kernel_factory'' | Meta_factory \<Rightarrow> ''meta_factory'')),
      (''entryPoint'', entry_point_literal (at p ''entryPoint'') EP_0_9),
      (''ownerCredential'', owner_literal (at p ''ownerCredential'') c)]"
| "kernel_literal p (KernelExisting v a ep c) = mk_obj p
     [(''version'', JString OAATH_KERNEL_EXISTING_ACCOUNT_PROFILE_VERSION), (''kind'', JString ''kernel''),
      (''kernelVersion'', JString (case v of V0_4_0 \<Rightarrow> ''0.4.0'' | V0_3_3 \<Rightarrow> ''0.3.3'')),
      (''address'', JString a),
      (''entryPoint'', entry_point_literal (at p ''entryPoint'') ep),
      (''ownerCredential'', owner_literal (at p ''ownerCredential'') c)]"

section \<open>The captures and the literals keep the interface\<close>

lemma p256PublicKey_Inr [simp]: "p256PublicKey E v fail = Inr s \<longleftrightarrow> v = JString s \<and> key_ok E s"
  by (auto simp: p256PublicKey_def key_ok_def split: jsval.splits)

lemma p256PublicKey_string [js_simps]: "key_ok E s \<Longrightarrow> p256PublicKey E (JString s) fail = Inr s"
  by simp

lemmas ip_field_defs = ip_address_def ip_hash_def accountIndex_def

lemma ip_literal_not_null [simp]:
  "owner_literal p c \<noteq> JNull" "operator_literal p d \<noteq> JNull" "kernel_literal p k \<noteq> JNull"
  by (cases c, simp_all) (cases d, simp_all, cases k, simp_all)

lemma captureOwnerCredential_sound:
  "ext_ok E \<Longrightarrow> captureOwnerCredential E fail v c = Inr (x, c') \<Longrightarrow> wf_owner E x"
  unfolding captureOwnerCredential_def
  by (elim bindC_InrE)
    (auto simp: ip_field_defs Let_def dest: captureAddress_sound elim!: bindC_InrE split: if_splits)

lemma captureOwnerCredential_complete:
  assumes "ext_ok E" "wf_owner E x" "fresh p c"
  shows "reads (captureOwnerCredential E fail (owner_literal p x)) c p x"
  using assms unfolding captureOwnerCredential_def
  by (cases x; simp; intro reads_captured; simp add: js_simps ip_field_defs)

interpretation owner_codec: codec captureOwnerCredential owner_literal wf_owner ext_ok
  by unfold_locales (auto intro: captureOwnerCredential_sound captureOwnerCredential_complete)

lemma captureOperatorCredential_sound:
  "ext_ok E \<Longrightarrow> captureOperatorCredential E fail v c = Inr (x, c') \<Longrightarrow> wf_operator E x"
  unfolding captureOperatorCredential_def
  by (elim bindC_InrE)
    (auto simp: ip_field_defs Let_def dest: captureAddress_sound elim!: bindC_InrE split: if_splits)

lemma captureOperatorCredential_complete:
  assumes "ext_ok E" "wf_operator E x" "fresh p c"
  shows "reads (captureOperatorCredential E fail (operator_literal p x)) c p x"
  using assms unfolding captureOperatorCredential_def
  by (cases x; simp; intro reads_captured; simp add: js_simps ip_field_defs)

interpretation operator_codec: codec captureOperatorCredential operator_literal wf_operator ext_ok
  by unfold_locales (auto intro: captureOperatorCredential_sound captureOperatorCredential_complete)

lemma captureKernelAccountProfile_sound:
  assumes "ext_ok E" and "captureKernelAccountProfile E fail v c = Inr (x, c')"
  shows "wf_kernel E x"
  using assms(2)
  unfolding captureKernelAccountProfile_def captureOwnerCredentialProfile_def Let_def
  by (elim bindC_InrE)
    (auto simp: ip_field_defs dest!: captureAddress_sound [OF assms(1)] captureOwnerCredential_sound [OF assms(1)]
      elim!: bindC_InrE split: if_splits)

lemma version_strings_differ [simp]:
  "OAATH_KERNEL_ACCOUNT_PROFILE_VERSION \<noteq> OAATH_KERNEL_EXISTING_ACCOUNT_PROFILE_VERSION"
  by (simp add: OAATH_KERNEL_ACCOUNT_PROFILE_VERSION_def OAATH_KERNEL_EXISTING_ACCOUNT_PROFILE_VERSION_def)

lemma captureKernelAccountProfile_complete:
  assumes "ext_ok E" "wf_kernel E x" "fresh p c"
  shows "reads (captureKernelAccountProfile E fail (kernel_literal p x)) c p x"
proof (cases x)
  case (KernelDerived i r o)
  with assms(2) show ?thesis
    unfolding captureKernelAccountProfile_def captureOwnerCredentialProfile_def entry_point_literal_def
      KernelDerived kernel_literal.simps
    apply (intro reads_captured [OF assms(3)])
    apply (cases r)
     apply (simp_all add: js_simps)
     apply (rule reads_bind_exact, assumption, simp, simp, simp add: js_simps,
        rule owner_codec.bind_field, assumption, simp, rule assms(1), simp, simp add: js_simps ip_field_defs)+
    done
next
  case (KernelExisting v a ep o)
  with assms(2) show ?thesis
    unfolding captureKernelAccountProfile_def captureOwnerCredentialProfile_def entry_point_literal_def
      KernelExisting kernel_literal.simps
    apply (intro reads_captured [OF assms(3)])
    apply (cases v)
     apply (simp_all add: js_simps)
     apply (rule reads_bind_exact, assumption, simp, simp, simp add: js_simps,
        rule owner_codec.bind_field, assumption, simp, rule assms(1), simp,
        simp add: js_simps ip_field_defs assms(1))+
    done
qed

interpretation kernel_codec: codec captureKernelAccountProfile kernel_literal wf_kernel ext_ok
  by unfold_locales (auto intro: captureKernelAccountProfile_sound captureKernelAccountProfile_complete)

section \<open>Comparison is equality\<close>

lemma sameOwnerCredentialProfile_iff [simp]: "sameOwnerCredentialProfile a b \<longleftrightarrow> a = b"
  by (cases a; cases b) auto

lemma sameOperatorCredentialProfile_iff [simp]: "sameOperatorCredentialProfile a b \<longleftrightarrow> a = b"
  by (cases a; cases b) auto

lemma sameKernelAccountProfile_iff [simp]: "sameKernelAccountProfile a b \<longleftrightarrow> a = b"
  by (cases a; cases b)
    (auto simp: sameKernelAccountProfile_def isKernelExistingAccountProfile_def kp_entryPoint_def kp_kernelVersion_def)

section \<open>Properties\<close>

definition sample_key :: string where
  "sample_key = ''0x04'' @ replicate 128 (CHR ''a'')"

definition sample_owner :: owner_credential where
  "sample_owner = OwnerWebAuthn sample_key (hex_of 64 (CHR ''b''))"

definition sample_kernel :: kernel_account_profile where
  "sample_kernel = KernelExisting V0_4_0 (hex_of 40 (CHR ''1'')) EP_0_9 sample_owner"

lemma sample_key_ok: "key_ok sample_ext sample_key"
proof -
  have "p256_key_re sample_key" by code_simp
  then show ?thesis by (simp add: key_ok_def sample_ext_def)
qed

lemma sample_kernel_wf: "wf_kernel sample_ext sample_kernel"
  by (simp add: sample_kernel_def sample_owner_def sample_key_ok hex_of_address hex_of_lower hex_samples)

text \<open>Parsing a Kernel account profile returns only supported combinations (an existing account's
  EntryPoint follows its Kernel version, and a Kernel 0.3.3 account has an ECDSA owner), and the parsed
  profile offered back parses to itself.\<close>

theorem kernel_profile_round_trip:
  assumes "ext_ok E" and "parseKernelAccountProfile E v = Inr profile"
  shows "wf_kernel E profile \<and> parseKernelAccountProfile E (kernel_literal [] profile) = Inr profile"
  using assms kernel_codec.reparse [OF assms(1)]
  by (auto simp: parseKernelAccountProfile_def runC_Inr dest: captureKernelAccountProfile_sound)

theorem kernel_profile_round_trip_witness:
  "wf_kernel sample_ext sample_kernel \<and>
   parseKernelAccountProfile sample_ext (kernel_literal [] sample_kernel) = Inr sample_kernel"
  by (rule kernel_profile_round_trip [OF sample_ext_ok, of "kernel_literal [] sample_kernel"])
    (simp add: parseKernelAccountProfile_def kernel_codec.parse_literal sample_ext_ok sample_kernel_wf)

end
