(* ===== verification/Grant_Record.thy ===== *)
theory Grant_Record
  imports Identity_Profile
begin

text \<open>
  Model of the record half of \<open>packages/protocol/src/grant.ts\<close>: the Grant record with its chain
  materializations, approval, revocation and terminal evidence, and \<open>parseGrant\<close>, which accepts
  exactly the records that the transitions can reach. \<open>Grant_Machine\<close> has the transitions.

  A chain materialization is a datatype with the constructors of the code's \<open>state\<close> union; the
  fields of its \<open>ChainBinding\<close> are one record. Every check of \<open>parseGrantUnsafe\<close> after the fields
  are captured fails with the same code, so they are the two predicates \<open>evidenceConsistent\<close> and
  \<open>stateConsistent\<close>, in the order of the source.
\<close>

section \<open>Data\<close>

definition OAATH_GRANT_RECORD_VERSION :: string where
  "OAATH_GRANT_RECORD_VERSION = ''oaath.grant/v1''"

record application_binding =
  ab_applicationId :: string
  ab_clientId :: string
  ab_origin :: string
  ab_deviceId :: string

record grant_identity =
  gi_grantId :: string
  gi_application :: application_binding
  gi_logicalAccount :: kernel_account_profile
  gi_operatorCredential :: operator_credential
  gi_policyHash :: string

record chain_binding =
  cb_chainId :: int
  cb_account :: string
  cb_permissionId :: string

datatype evidence_kind = Permission_present | Permission_absent

record permission_evidence =
  pe_kind :: evidence_kind
  pe_binding :: chain_binding
  pe_blockNumber :: string
  pe_blockHash :: string
  pe_observedAt :: int

datatype unsupported_reason = Runtime_unsupported | Account_profile_unsupported | Policy_unsupported

datatype unreadable_reason = Provider_unavailable | State_invalid | Canonicality_not_proven

datatype prior_state = PriorInstalling | PriorInstalled | PriorRevoking

datatype materialization =
    Unsupported (mu_chainId: int) (m_updatedAt: int) unsupported_reason
  | Unmaterialized (m_binding: chain_binding) (m_updatedAt: int)
  | Installing (m_binding: chain_binding) (m_updatedAt: int) (m_operationId: string) (m_startedAt: int)
  | Installed (m_binding: chain_binding) (m_updatedAt: int) (m_operationId: string) permission_evidence
  | Revoking (m_binding: chain_binding) (m_updatedAt: int) (m_operationId: string)
      "permission_evidence option" (m_startedAt: int)
  | Revoked (m_binding: chain_binding) (m_updatedAt: int) (m_operationId: string) permission_evidence
      permission_evidence
  | Unreadable (m_binding: chain_binding) (m_updatedAt: int) (m_operationId: string) prior_state
      "permission_evidence option" unreadable_reason

definition m_chainId :: "materialization \<Rightarrow> int" where
  "m_chainId m = (case m of Unsupported chainId _ _ \<Rightarrow> chainId | _ \<Rightarrow> cb_chainId (m_binding m))"

text \<open>The \<open>installation\<close> of a materialization that has the field and does not hold \<open>null\<close>.\<close>

definition m_installation :: "materialization \<Rightarrow> permission_evidence option" where
  "m_installation m =
     (case m of Installed _ _ _ i \<Rightarrow> Some i | Revoking _ _ _ i _ \<Rightarrow> i | Revoked _ _ _ i _ \<Rightarrow> Some i
      | Unreadable _ _ _ _ i _ \<Rightarrow> i | _ \<Rightarrow> None)"

record revocation_evidence =
  re_permission :: permission_evidence
  re_installNonce :: string

record grant_revocation =
  gr_targets :: "chain_binding list"
  gr_installNonce :: string
  gr_evidence :: "revocation_evidence list"

record grant_approval =
  ap_approvalHash :: string
  ap_capabilityHash :: string
  ap_approvedAt :: int

record capability_invalidation =
  inv_capabilityHash :: string
  inv_evidenceHash :: string
  inv_invalidatedAt :: int

datatype grant_state =
  GRequested | GRejected | GApproved | GActive | GRevoking | GRevoked | GExpired

datatype grant_terminal =
    TRejected (t_recordedAt: int)
  | TRevoked (t_recordedAt: int)
  | TExpired grant_state (t_recordedAt: int)

record grant =
  g_identity :: grant_identity
  g_revision :: int
  g_state :: grant_state
  g_requestedAt :: int
  g_expiresAt :: int
  g_updatedAt :: int
  g_approval :: "grant_approval option"
  g_activatedAt :: "int option"
  g_revocationStartedAt :: "int option"
  g_revocation :: "grant_revocation option"
  g_capabilityInvalidation :: "capability_invalidation option"
  g_terminal :: "grant_terminal option"
  g_materializations :: "materialization list"

section \<open>Field capture\<close>

abbreviation g_err :: "grant_code \<Rightarrow> err" where
  "g_err \<equiv> OaathGrantError"

definition g_safeInteger :: "jsval \<Rightarrow> grant_code \<Rightarrow> int \<Rightarrow> err + int" where
  "g_safeInteger v code minimum = safe_integer minimum MAX_SAFE_INTEGER v (g_err code)"

definition g_canonicalGrantId :: "jsval \<Rightarrow> grant_code \<Rightarrow> err + string" where
  "g_canonicalGrantId v code = canonical_id v (g_err code)"

definition g_address :: "ext \<Rightarrow> jsval \<Rightarrow> grant_code \<Rightarrow> err + string" where
  "g_address E v code = captureAddress E v (\<lambda>_. g_err code) False"

definition g_hash :: "jsval \<Rightarrow> grant_code \<Rightarrow> err + string" where
  "g_hash v code = fixed_hex 64 v (g_err code)"

definition g_permissionId :: "jsval \<Rightarrow> grant_code \<Rightarrow> err + string" where
  "g_permissionId v code = fixed_hex 8 v (g_err code)"

definition g_uint256 :: "jsval \<Rightarrow> grant_code \<Rightarrow> err + string" where
  "g_uint256 v code = decimal_uint256 v (g_err code)"

definition g_identifier :: "jsval \<Rightarrow> grant_code \<Rightarrow> err + string" where
  "g_identifier v code = bounded_identifier v (g_err code)"

definition g_origin :: "ext \<Rightarrow> jsval \<Rightarrow> grant_code \<Rightarrow> err + string" where
  "g_origin E v code =
     (case v of
        JString s \<Rightarrow>
          (if length s > 2048 then Inl (g_err code)
           else case newURL E s of
             None \<Rightarrow> Inl (g_err code)
           | Some parsed \<Rightarrow>
               (if (protocol parsed \<noteq> ''https:'' \<and> protocol parsed \<noteq> ''http:'') \<or>
                   origin parsed = ''null'' \<or> username parsed \<noteq> '''' \<or> password parsed \<noteq> '''' \<or>
                   pathname parsed \<noteq> ''/'' \<or> search parsed \<noteq> '''' \<or> url_hash parsed \<noteq> ''''
                then Inl (g_err code) else Inr (origin parsed)))
      | _ \<Rightarrow> Inl (g_err code))"

definition parseApplicationBinding :: "ext \<Rightarrow> grant_code \<Rightarrow> jsval \<Rightarrow> (err, application_binding) capture" where
  "parseApplicationBinding E code v =
     bindC (exactRecord v [''applicationId'', ''clientId'', ''origin'', ''deviceId''] (g_err code)) (\<lambda>record.
     bindC (liftC (g_identifier (fld record ''applicationId'') code)) (\<lambda>applicationId.
     bindC (liftC (g_identifier (fld record ''clientId'') code)) (\<lambda>clientId.
     bindC (liftC (g_origin E (fld record ''origin'') code)) (\<lambda>origin.
     bindC (liftC (g_identifier (fld record ''deviceId'') code)) (\<lambda>deviceId.
     returnC \<lparr>ab_applicationId = applicationId, ab_clientId = clientId, ab_origin = origin,
              ab_deviceId = deviceId\<rparr>)))))"

definition parseIdentityRecord :: "ext \<Rightarrow> grant_code \<Rightarrow> fields \<Rightarrow> (err, grant_identity) capture" where
  "parseIdentityRecord E code record =
     bindC (guardC (fld record ''chainScope'' = JString ''all'') (g_err code)) (\<lambda>_.
     bindC (liftC (g_canonicalGrantId (fld record ''grantId'') code)) (\<lambda>grantId.
     bindC (parseApplicationBinding E code (fld record ''application'')) (\<lambda>application.
     bindC (captureKernelAccountProfile E (g_err code) (fld record ''logicalAccount'')) (\<lambda>logicalAccount.
     bindC (captureOperatorCredentialProfile E (g_err code) (fld record ''operatorCredential'')) (\<lambda>operatorCredential.
     bindC (liftC (g_hash (fld record ''policyHash'') code)) (\<lambda>policyHash.
     returnC \<lparr>gi_grantId = grantId, gi_application = application, gi_logicalAccount = logicalAccount,
              gi_operatorCredential = operatorCredential, gi_policyHash = policyHash\<rparr>))))))"

definition parseIdentity :: "ext \<Rightarrow> grant_code \<Rightarrow> jsval \<Rightarrow> (err, grant_identity) capture" where
  "parseIdentity E code v =
     bindC (exactRecord v [''grantId'', ''chainScope'', ''application'', ''logicalAccount'',
              ''operatorCredential'', ''policyHash''] (g_err code)) (parseIdentityRecord E code)"

definition parseBinding :: "ext \<Rightarrow> grant_code \<Rightarrow> jsval \<Rightarrow> (err, chain_binding) capture" where
  "parseBinding E code v =
     bindC (exactRecord v [''chainId'', ''account'', ''permissionId''] (g_err code)) (\<lambda>record.
     bindC (liftC (g_safeInteger (fld record ''chainId'') code 1)) (\<lambda>chainId.
     bindC (liftC (g_address E (fld record ''account'') code)) (\<lambda>account.
     bindC (liftC (g_permissionId (fld record ''permissionId'') code)) (\<lambda>permissionId.
     returnC \<lparr>cb_chainId = chainId, cb_account = account, cb_permissionId = permissionId\<rparr>))))"

definition evidence_kind_name :: "evidence_kind \<Rightarrow> string" where
  "evidence_kind_name k =
     (case k of Permission_present \<Rightarrow> ''permission_present'' | Permission_absent \<Rightarrow> ''permission_absent'')"

definition parsePermissionEvidence ::
    "evidence_kind \<Rightarrow> ext \<Rightarrow> grant_code \<Rightarrow> jsval \<Rightarrow> (err, permission_evidence) capture" where
  "parsePermissionEvidence expectedKind E code v =
     bindC (exactRecord v [''kind'', ''chainId'', ''account'', ''permissionId'', ''blockNumber'',
              ''blockHash'', ''observedAt''] (g_err code)) (\<lambda>record.
     bindC (guardC (fld record ''kind'' = JString (evidence_kind_name expectedKind)) (g_err code)) (\<lambda>_.
     bindC (liftC (g_safeInteger (fld record ''chainId'') code 1)) (\<lambda>chainId.
     bindC (liftC (g_address E (fld record ''account'') code)) (\<lambda>account.
     bindC (liftC (g_permissionId (fld record ''permissionId'') code)) (\<lambda>permissionId.
     bindC (liftC (g_uint256 (fld record ''blockNumber'') code)) (\<lambda>blockNumber.
     bindC (liftC (g_hash (fld record ''blockHash'') code)) (\<lambda>blockHash.
     bindC (liftC (g_safeInteger (fld record ''observedAt'') code 0)) (\<lambda>observedAt.
     returnC \<lparr>pe_kind = expectedKind,
              pe_binding = \<lparr>cb_chainId = chainId, cb_account = account, cb_permissionId = permissionId\<rparr>,
              pe_blockNumber = blockNumber, pe_blockHash = blockHash, pe_observedAt = observedAt\<rparr>))))))))"

definition evidenceMatchesBinding :: "chain_binding \<Rightarrow> chain_binding \<Rightarrow> bool" where
  "evidenceMatchesBinding evidence binding \<longleftrightarrow>
     cb_chainId evidence = cb_chainId binding \<and> cb_account evidence = cb_account binding \<and>
     cb_permissionId evidence = cb_permissionId binding"

text \<open>\<open>entry.chainId <= (previous?.chainId ?? 0)\<close> for no entry of the list.\<close>

definition strictlySorted :: "int list \<Rightarrow> bool" where
  "strictlySorted ids \<longleftrightarrow> neighbours (<) (0 # ids)"

definition parseRevocationTargets :: "ext \<Rightarrow> grant_code \<Rightarrow> jsval \<Rightarrow> (err, chain_binding list) capture" where
  "parseRevocationTargets E code v =
     bindC (arrayC (parseBinding E code) v (g_err code)) (\<lambda>targets.
     bindC (guardC (length targets \<noteq> 0 \<and> strictlySorted (map cb_chainId targets)) (g_err code)) (\<lambda>_.
     returnC targets))"

definition parseRevocationEvidence :: "ext \<Rightarrow> grant_code \<Rightarrow> jsval \<Rightarrow> (err, revocation_evidence) capture" where
  "parseRevocationEvidence E code v =
     bindC (exactRecord v [''permission'', ''installNonce''] (g_err code)) (\<lambda>record.
     bindC (parsePermissionEvidence Permission_absent E code (fld record ''permission'')) (\<lambda>permission.
     bindC (liftC (g_uint256 (fld record ''installNonce'') code)) (\<lambda>installNonce.
     returnC \<lparr>re_permission = permission, re_installNonce = installNonce\<rparr>)))"

definition nonceConsumed :: "string \<Rightarrow> string \<Rightarrow> bool" where
  "nonceConsumed expected observed \<longleftrightarrow>
     BigInt expected div 2 ^ 64 = BigInt observed div 2 ^ 64 \<and> BigInt observed > BigInt expected"

abbreviation re_binding :: "revocation_evidence \<Rightarrow> chain_binding" where
  "re_binding e \<equiv> pe_binding (re_permission e)"

definition evidenceInScope :: "chain_binding list \<Rightarrow> string \<Rightarrow> revocation_evidence \<Rightarrow> bool" where
  "evidenceInScope targets installNonce entry =
     (case find (\<lambda>candidate. cb_chainId candidate = cb_chainId (re_binding entry)) targets of
        None \<Rightarrow> False
      | Some target \<Rightarrow> evidenceMatchesBinding (re_binding entry) target \<and>
          nonceConsumed installNonce (re_installNonce entry))"

definition captureRevocation :: "ext \<Rightarrow> grant_code \<Rightarrow> jsval \<Rightarrow> (err, grant_revocation) capture" where
  "captureRevocation E code v =
     bindC (exactRecord v [''targets'', ''installNonce'', ''evidence''] (g_err code)) (\<lambda>record.
     bindC (parseRevocationTargets E code (fld record ''targets'')) (\<lambda>targets.
     bindC (liftC (g_uint256 (fld record ''installNonce'') code)) (\<lambda>installNonce.
     bindC (arrayC (parseRevocationEvidence E code) (fld record ''evidence'') (g_err code)) (\<lambda>evidence.
     bindC (guardC (list_all (evidenceInScope targets installNonce) evidence \<and>
                    strictlySorted (map (\<lambda>e. cb_chainId (re_binding e)) evidence)) (g_err code)) (\<lambda>_.
     returnC \<lparr>gr_targets = targets, gr_installNonce = installNonce, gr_evidence = evidence\<rparr>)))))"

definition parseRevocation :: "ext \<Rightarrow> grant_code \<Rightarrow> jsval \<Rightarrow> (err, grant_revocation option) capture" where
  "parseRevocation E code = nullableC (captureRevocation E code)"

definition revocationComplete :: "grant_revocation option \<Rightarrow> bool" where
  "revocationComplete revocation =
     (case revocation of None \<Rightarrow> False | Some r \<Rightarrow> length (gr_evidence r) = length (gr_targets r))"

definition captureApproval :: "grant_code \<Rightarrow> jsval \<Rightarrow> (err, grant_approval) capture" where
  "captureApproval code v =
     bindC (exactRecord v [''approvalHash'', ''capabilityHash'', ''approvedAt''] (g_err code)) (\<lambda>record.
     bindC (liftC (g_hash (fld record ''approvalHash'') code)) (\<lambda>approvalHash.
     bindC (liftC (g_hash (fld record ''capabilityHash'') code)) (\<lambda>capabilityHash.
     bindC (liftC (g_safeInteger (fld record ''approvedAt'') code 0)) (\<lambda>approvedAt.
     returnC \<lparr>ap_approvalHash = approvalHash, ap_capabilityHash = capabilityHash,
              ap_approvedAt = approvedAt\<rparr>))))"

definition parseApproval :: "grant_code \<Rightarrow> jsval \<Rightarrow> (err, grant_approval option) capture" where
  "parseApproval code = nullableC (captureApproval code)"

definition captureInvalidation :: "grant_code \<Rightarrow> jsval \<Rightarrow> (err, capability_invalidation) capture" where
  "captureInvalidation code v =
     bindC (exactRecord v [''kind'', ''capabilityHash'', ''evidenceHash'', ''invalidatedAt''] (g_err code)) (\<lambda>record.
     bindC (guardC (fld record ''kind'' = JString ''approval_capability_invalidated'') (g_err code)) (\<lambda>_.
     bindC (liftC (g_hash (fld record ''capabilityHash'') code)) (\<lambda>capabilityHash.
     bindC (liftC (g_hash (fld record ''evidenceHash'') code)) (\<lambda>evidenceHash.
     bindC (liftC (g_safeInteger (fld record ''invalidatedAt'') code 0)) (\<lambda>invalidatedAt.
     returnC \<lparr>inv_capabilityHash = capabilityHash, inv_evidenceHash = evidenceHash,
              inv_invalidatedAt = invalidatedAt\<rparr>)))))"

definition parseInvalidation :: "grant_code \<Rightarrow> jsval \<Rightarrow> (err, capability_invalidation option) capture" where
  "parseInvalidation code = nullableC (captureInvalidation code)"

definition expired_from :: "(string \<times> grant_state) list" where
  "expired_from = [(''requested'', GRequested), (''approved'', GApproved), (''active'', GActive),
     (''revoking'', GRevoking)]"

definition captureTerminal :: "grant_code \<Rightarrow> jsval \<Rightarrow> (err, grant_terminal) capture" where
  "captureTerminal code v =
     bindC (captureRecord v (g_err code)) (\<lambda>captured.
     if fld captured ''kind'' = JString ''rejected'' \<or> fld captured ''kind'' = JString ''revoked'' then
       bindC (exactCapturedRecord captured [''kind'', ''recordedAt''] (g_err code)) (\<lambda>record.
       bindC (liftC (g_safeInteger (fld record ''recordedAt'') code 0)) (\<lambda>recordedAt.
       returnC (if fld captured ''kind'' = JString ''rejected'' then TRejected recordedAt
                else TRevoked recordedAt)))
     else if fld captured ''kind'' = JString ''expired'' then
       bindC (exactCapturedRecord captured [''kind'', ''from'', ''recordedAt''] (g_err code)) (\<lambda>record.
       bindC (liftC (literal_of expired_from (fld record ''from'') (g_err code))) (\<lambda>from.
       bindC (liftC (g_safeInteger (fld record ''recordedAt'') code 0)) (\<lambda>recordedAt.
       returnC (TExpired from recordedAt))))
     else failC (g_err code))"

definition parseTerminal :: "grant_code \<Rightarrow> jsval \<Rightarrow> (err, grant_terminal option) capture" where
  "parseTerminal code = nullableC (captureTerminal code)"

section \<open>Materializations\<close>

definition bindingFields :: "ext \<Rightarrow> fields \<Rightarrow> grant_code \<Rightarrow> (err, chain_binding) capture" where
  "bindingFields E record code =
     bindC (liftC (g_safeInteger (fld record ''chainId'') code 1)) (\<lambda>chainId.
     bindC (liftC (g_address E (fld record ''account'') code)) (\<lambda>account.
     bindC (liftC (g_permissionId (fld record ''permissionId'') code)) (\<lambda>permissionId.
     returnC \<lparr>cb_chainId = chainId, cb_account = account, cb_permissionId = permissionId\<rparr>)))"

definition parseNullableInstallation ::
    "ext \<Rightarrow> grant_code \<Rightarrow> jsval \<Rightarrow> (err, permission_evidence option) capture" where
  "parseNullableInstallation E code = nullableC (parsePermissionEvidence Permission_present E code)"

definition unsupported_reasons :: "(string \<times> unsupported_reason) list" where
  "unsupported_reasons = [(''runtime_unsupported'', Runtime_unsupported),
     (''account_profile_unsupported'', Account_profile_unsupported), (''policy_unsupported'', Policy_unsupported)]"

definition unreadable_reasons :: "(string \<times> unreadable_reason) list" where
  "unreadable_reasons = [(''provider_unavailable'', Provider_unavailable), (''state_invalid'', State_invalid),
     (''canonicality_unproven'', Canonicality_not_proven)]"

definition prior_states :: "(string \<times> prior_state) list" where
  "prior_states = [(''installing'', PriorInstalling), (''installed'', PriorInstalled), (''revoking'', PriorRevoking)]"

definition materialization_common :: "string list" where
  "materialization_common = [''state'', ''chainId'', ''account'', ''permissionId'', ''updatedAt'']"

definition installationBound :: "permission_evidence option \<Rightarrow> chain_binding \<Rightarrow> int \<Rightarrow> bool" where
  "installationBound installation binding updatedAt =
     (case installation of None \<Rightarrow> True
      | Some i \<Rightarrow> evidenceMatchesBinding (pe_binding i) binding \<and> \<not> pe_observedAt i > updatedAt)"

definition captureUnsupported :: "ext \<Rightarrow> grant_code \<Rightarrow> fields \<Rightarrow> (err, materialization) capture" where
  "captureUnsupported E code captured =
     bindC (exactCapturedRecord captured [''state'', ''chainId'', ''updatedAt'', ''reason''] (g_err code)) (\<lambda>record.
     bindC (liftC (literal_of unsupported_reasons (fld record ''reason'') (g_err code))) (\<lambda>reason.
     bindC (liftC (g_safeInteger (fld record ''chainId'') code 1)) (\<lambda>chainId.
     bindC (liftC (g_safeInteger (fld record ''updatedAt'') code 0)) (\<lambda>updatedAt.
     returnC (Unsupported chainId updatedAt reason)))))"

definition captureUnmaterialized :: "ext \<Rightarrow> grant_code \<Rightarrow> fields \<Rightarrow> (err, materialization) capture" where
  "captureUnmaterialized E code captured =
     bindC (exactCapturedRecord captured materialization_common (g_err code)) (\<lambda>record.
     bindC (bindingFields E record code) (\<lambda>binding.
     bindC (liftC (g_safeInteger (fld record ''updatedAt'') code 0)) (\<lambda>updatedAt.
     returnC (Unmaterialized binding updatedAt))))"

definition captureInstalling :: "ext \<Rightarrow> grant_code \<Rightarrow> fields \<Rightarrow> (err, materialization) capture" where
  "captureInstalling E code captured =
     bindC (exactCapturedRecord captured (materialization_common @ [''operationId'', ''startedAt'']) (g_err code)) (\<lambda>record.
     bindC (bindingFields E record code) (\<lambda>binding.
     bindC (liftC (g_safeInteger (fld record ''updatedAt'') code 0)) (\<lambda>updatedAt.
     bindC (liftC (g_safeInteger (fld record ''startedAt'') code 0)) (\<lambda>startedAt.
     bindC (guardC (startedAt = updatedAt) (g_err code)) (\<lambda>_.
     bindC (liftC (g_hash (fld record ''operationId'') code)) (\<lambda>operationId.
     returnC (Installing binding updatedAt operationId startedAt)))))))"

definition captureInstalled :: "ext \<Rightarrow> grant_code \<Rightarrow> fields \<Rightarrow> (err, materialization) capture" where
  "captureInstalled E code captured =
     bindC (exactCapturedRecord captured (materialization_common @ [''operationId'', ''installation'']) (g_err code)) (\<lambda>record.
     bindC (bindingFields E record code) (\<lambda>binding.
     bindC (parsePermissionEvidence Permission_present E code (fld record ''installation'')) (\<lambda>installation.
     bindC (liftC (g_safeInteger (fld record ''updatedAt'') code 0)) (\<lambda>updatedAt.
     bindC (guardC (evidenceMatchesBinding (pe_binding installation) binding \<and>
                    pe_observedAt installation = updatedAt) (g_err code)) (\<lambda>_.
     bindC (liftC (g_hash (fld record ''operationId'') code)) (\<lambda>operationId.
     returnC (Installed binding updatedAt operationId installation)))))))"

definition captureRevoking :: "ext \<Rightarrow> grant_code \<Rightarrow> fields \<Rightarrow> (err, materialization) capture" where
  "captureRevoking E code captured =
     bindC (exactCapturedRecord captured
              (materialization_common @ [''operationId'', ''installation'', ''startedAt'']) (g_err code)) (\<lambda>record.
     bindC (bindingFields E record code) (\<lambda>binding.
     bindC (parseNullableInstallation E code (fld record ''installation'')) (\<lambda>installation.
     bindC (liftC (g_safeInteger (fld record ''updatedAt'') code 0)) (\<lambda>updatedAt.
     bindC (liftC (g_safeInteger (fld record ''startedAt'') code 0)) (\<lambda>startedAt.
     bindC (guardC (installationBound installation binding updatedAt \<and> \<not> startedAt > updatedAt) (g_err code)) (\<lambda>_.
     bindC (liftC (g_hash (fld record ''operationId'') code)) (\<lambda>operationId.
     returnC (Revoking binding updatedAt operationId installation startedAt))))))))"

definition captureRevoked :: "ext \<Rightarrow> grant_code \<Rightarrow> fields \<Rightarrow> (err, materialization) capture" where
  "captureRevoked E code captured =
     bindC (exactCapturedRecord captured
              (materialization_common @ [''operationId'', ''installation'', ''removal'']) (g_err code)) (\<lambda>record.
     bindC (bindingFields E record code) (\<lambda>binding.
     bindC (parsePermissionEvidence Permission_present E code (fld record ''installation'')) (\<lambda>installation.
     bindC (parsePermissionEvidence Permission_absent E code (fld record ''removal'')) (\<lambda>removal.
     bindC (liftC (g_safeInteger (fld record ''updatedAt'') code 0)) (\<lambda>updatedAt.
     bindC (guardC (\<not> (\<not> evidenceMatchesBinding (pe_binding removal) binding \<or>
                       pe_observedAt removal \<noteq> updatedAt \<or>
                       \<not> evidenceMatchesBinding (pe_binding installation) binding \<or>
                       pe_observedAt installation > pe_observedAt removal \<or>
                       BigInt (pe_blockNumber installation) \<ge> BigInt (pe_blockNumber removal))) (g_err code)) (\<lambda>_.
     bindC (liftC (g_hash (fld record ''operationId'') code)) (\<lambda>operationId.
     returnC (Revoked binding updatedAt operationId installation removal))))))))"

definition captureUnreadable :: "ext \<Rightarrow> grant_code \<Rightarrow> fields \<Rightarrow> (err, materialization) capture" where
  "captureUnreadable E code captured =
     bindC (exactCapturedRecord captured
              (materialization_common @ [''operationId'', ''priorState'', ''installation'', ''reason'']) (g_err code)) (\<lambda>record.
     bindC (liftC (literal_of prior_states (fld record ''priorState'') (g_err code))) (\<lambda>priorState.
     bindC (liftC (literal_of unreadable_reasons (fld record ''reason'') (g_err code))) (\<lambda>reason.
     bindC (bindingFields E record code) (\<lambda>binding.
     bindC (parseNullableInstallation E code (fld record ''installation'')) (\<lambda>installation.
     bindC (liftC (g_safeInteger (fld record ''updatedAt'') code 0)) (\<lambda>updatedAt.
     bindC (guardC (\<not> ((priorState = PriorInstalled \<and> installation = None) \<or>
                       (priorState = PriorInstalling \<and> installation \<noteq> None)) \<and>
                    installationBound installation binding updatedAt) (g_err code)) (\<lambda>_.
     bindC (liftC (g_hash (fld record ''operationId'') code)) (\<lambda>operationId.
     returnC (Unreadable binding updatedAt operationId priorState installation reason)))))))))"

definition parseMaterialization :: "ext \<Rightarrow> grant_code \<Rightarrow> jsval \<Rightarrow> (err, materialization) capture" where
  "parseMaterialization E code v =
     bindC (captureRecord v (g_err code)) (\<lambda>captured.
     let state = fld captured ''state'' in
     if state = JString ''unsupported'' then captureUnsupported E code captured
     else if state = JString ''unmaterialized'' then captureUnmaterialized E code captured
     else if state = JString ''installing'' then captureInstalling E code captured
     else if state = JString ''installed'' then captureInstalled E code captured
     else if state = JString ''revoking'' then captureRevoking E code captured
     else if state = JString ''revoked'' then captureRevoked E code captured
     else if state = JString ''unreadable'' then captureUnreadable E code captured
     else failC (g_err code))"

definition parseMaterializations :: "ext \<Rightarrow> grant_code \<Rightarrow> jsval \<Rightarrow> (err, materialization list) capture" where
  "parseMaterializations E code v =
     bindC (arrayC (parseMaterialization E code) v (g_err code)) (\<lambda>materializations.
     bindC (guardC (strictlySorted (map m_chainId materializations)) (g_err code)) (\<lambda>_.
     returnC materializations))"

section \<open>Consistency of a record\<close>

text \<open>
  The least number of transitions a materialization costs; \<open>None\<close> where the code throws.
\<close>

definition activeChildCost :: "materialization \<Rightarrow> int option" where
  "activeChildCost m =
     (case m of
        Unsupported _ _ _ \<Rightarrow> Some 1
      | Unmaterialized _ _ \<Rightarrow> Some 1
      | Installing _ _ _ _ \<Rightarrow> Some 2
      | Installed _ _ _ _ \<Rightarrow> Some 3
      | Unreadable _ _ _ prior installation _ \<Rightarrow>
          (if prior = PriorRevoking then None else if installation = None then Some 3 else Some 4)
      | _ \<Rightarrow> None)"

definition revokingChildCost :: "materialization \<Rightarrow> int option" where
  "revokingChildCost m =
     (case m of
        Unsupported _ _ _ \<Rightarrow> Some 1
      | Unmaterialized _ _ \<Rightarrow> Some 1
      | Installing _ _ _ _ \<Rightarrow> Some 2
      | Installed _ _ _ _ \<Rightarrow> Some 3
      | Revoking _ _ _ installation _ \<Rightarrow> (if installation = None then Some 3 else Some 4)
      | Revoked _ _ _ _ _ \<Rightarrow> Some 5
      | Unreadable _ _ _ prior installation _ \<Rightarrow>
          (if installation = None then (if prior = PriorRevoking then Some 4 else Some 3)
           else (if prior = PriorRevoking then Some 5 else Some 4)))"

primrec sumChildCosts :: "(materialization \<Rightarrow> int option) \<Rightarrow> materialization list \<Rightarrow> int option" where
  "sumChildCosts cost [] = Some 0"
| "sumChildCosts cost (m # ms) =
     (case cost m of None \<Rightarrow> None
      | Some k \<Rightarrow> (case sumChildCosts cost ms of None \<Rightarrow> None | Some rest \<Rightarrow> Some (k + rest)))"

definition some_or :: "int \<Rightarrow> int option \<Rightarrow> int" where
  "some_or d x = (case x of None \<Rightarrow> d | Some n \<Rightarrow> n)"

definition revocation_entries :: "grant \<Rightarrow> revocation_evidence list" where
  "revocation_entries g = (case g_revocation g of None \<Rightarrow> [] | Some r \<Rightarrow> gr_evidence r)"

definition latestGrantTime :: "grant \<Rightarrow> int" where
  "latestGrantTime g =
     (let latest = foldl max (g_requestedAt g)
            [some_or 0 (map_option ap_approvedAt (g_approval g)),
             some_or 0 (g_activatedAt g),
             some_or 0 (g_revocationStartedAt g),
             some_or 0 (map_option inv_invalidatedAt (g_capabilityInvalidation g)),
             some_or 0 (map_option t_recordedAt (g_terminal g))];
          latest = foldl (\<lambda>l m. max l (m_updatedAt m)) latest (g_materializations g) in
      foldl (\<lambda>l e. max l (pe_observedAt (re_permission e))) latest (revocation_entries g))"

definition materializationTimesValid ::
    "int option \<Rightarrow> int option \<Rightarrow> grant_terminal option \<Rightarrow> materialization \<Rightarrow> bool" where
  "materializationTimesValid activatedAt revocationStartedAt terminal m \<longleftrightarrow>
     \<not> ((case activatedAt of None \<Rightarrow> False | Some a \<Rightarrow> m_updatedAt m < a) \<or>
        (case terminal of None \<Rightarrow> False | Some t \<Rightarrow> m_updatedAt m > t_recordedAt t)) \<and>
     \<not> (case activatedAt of None \<Rightarrow> False
        | Some a \<Rightarrow> (case m_installation m of None \<Rightarrow> False | Some i \<Rightarrow> pe_observedAt i < a)) \<and>
     (case m of
        Revoking _ _ _ _ startedAt \<Rightarrow>
          \<not> (case revocationStartedAt of None \<Rightarrow> True | Some r \<Rightarrow> startedAt < r)
      | _ \<Rightarrow> True) \<and>
     \<not> ((case m of Revoked _ _ _ _ _ \<Rightarrow> True | Unreadable _ _ _ prior _ _ \<Rightarrow> prior = PriorRevoking | _ \<Rightarrow> False) \<and>
        (case revocationStartedAt of None \<Rightarrow> True | Some r \<Rightarrow> m_updatedAt m < r))"

definition materializationChronologyValid ::
    "materialization list \<Rightarrow> int option \<Rightarrow> int option \<Rightarrow> grant_terminal option \<Rightarrow> bool" where
  "materializationChronologyValid ms activatedAt revocationStartedAt terminal =
     (if length ms > 0 \<and> activatedAt = None then False
      else list_all (materializationTimesValid activatedAt revocationStartedAt terminal) ms)"

definition chronologyValid :: "grant \<Rightarrow> bool" where
  "chronologyValid g \<longleftrightarrow>
     (let approvedAt = map_option ap_approvedAt (g_approval g) in
     g_expiresAt g > g_requestedAt g \<and>
     (g_revocation g = None) = (g_revocationStartedAt g = None) \<and>
     list_all (\<lambda>entry.
        pe_observedAt (re_permission entry) \<ge> some_or 0 (g_revocationStartedAt g) \<and>
        (case g_terminal g of None \<Rightarrow> True | Some t \<Rightarrow> pe_observedAt (re_permission entry) \<le> t_recordedAt t))
       (revocation_entries g) \<and>
     (case approvedAt of None \<Rightarrow> True | Some a \<Rightarrow> a \<ge> g_requestedAt g \<and> a < g_expiresAt g) \<and>
     (case g_activatedAt g of None \<Rightarrow> True
      | Some a \<Rightarrow> (case approvedAt of None \<Rightarrow> False | Some p \<Rightarrow> a \<ge> p) \<and> a < g_expiresAt g) \<and>
     (case g_revocationStartedAt g of None \<Rightarrow> True
      | Some r \<Rightarrow> (case g_activatedAt g of None \<Rightarrow> False | Some a \<Rightarrow> r \<ge> a) \<and> r < g_expiresAt g) \<and>
     (case g_capabilityInvalidation g of None \<Rightarrow> True
      | Some i \<Rightarrow> (case g_revocationStartedAt g of None \<Rightarrow> False | Some r \<Rightarrow> inv_invalidatedAt i \<ge> r)) \<and>
     (case g_terminal g of None \<Rightarrow> True | Some t \<Rightarrow> t_recordedAt t \<ge> g_requestedAt g) \<and>
     (case g_terminal g of
        Some (TRejected t) \<Rightarrow> t < g_expiresAt g
      | Some (TRevoked t) \<Rightarrow> (case g_revocationStartedAt g of None \<Rightarrow> False | Some r \<Rightarrow> t \<ge> r)
      | Some (TExpired _ t) \<Rightarrow> t \<ge> g_expiresAt g
      | None \<Rightarrow> True) \<and>
     (case g_terminal g of None \<Rightarrow> True
      | Some t \<Rightarrow> (case g_capabilityInvalidation g of None \<Rightarrow> True
          | Some i \<Rightarrow> t_recordedAt t \<ge> inv_invalidatedAt i)) \<and>
     materializationChronologyValid (g_materializations g) (g_activatedAt g) (g_revocationStartedAt g)
       (g_terminal g))"

definition is_unsupported :: "materialization \<Rightarrow> bool" where
  "is_unsupported m = (case m of Unsupported _ _ _ \<Rightarrow> True | _ \<Rightarrow> False)"

definition boundByTargets :: "grant_revocation \<Rightarrow> materialization \<Rightarrow> bool" where
  "boundByTargets revocation m \<longleftrightarrow>
     is_unsupported m \<or> list_ex (evidenceMatchesBinding (m_binding m)) (gr_targets revocation)"

definition evidenceConsistent :: "grant \<Rightarrow> bool" where
  "evidenceConsistent g \<longleftrightarrow>
     (case g_revocation g of None \<Rightarrow> True | Some r \<Rightarrow> list_all (boundByTargets r) (g_materializations g)) \<and>
     chronologyValid g \<and>
     latestGrantTime g = g_updatedAt g \<and>
     (case g_capabilityInvalidation g of None \<Rightarrow> True
      | Some i \<Rightarrow> map_option ap_capabilityHash (g_approval g) = Some (inv_capabilityHash i))"

definition settled :: "materialization \<Rightarrow> bool" where
  "settled m =
     (case m of Unsupported _ _ _ \<Rightarrow> True | Unmaterialized _ _ \<Rightarrow> True | Revoked _ _ _ _ _ \<Rightarrow> True | _ \<Rightarrow> False)"

definition revokingMinimum :: "grant \<Rightarrow> int option" where
  "revokingMinimum g =
     (case sumChildCosts revokingChildCost (g_materializations g) of None \<Rightarrow> None
      | Some childCost \<Rightarrow>
          Some (3 + childCost + (if g_capabilityInvalidation g = None then 0 else 1) +
                int (length (revocation_entries g))))"

definition reaches :: "int \<Rightarrow> int option \<Rightarrow> bool" where
  "reaches revision minimum = (case minimum of None \<Rightarrow> False | Some n \<Rightarrow> \<not> revision < n)"

text \<open>
  The conditions several states share: a record that was never activated, and one that is active.
\<close>

definition not_activated :: "grant \<Rightarrow> bool" where
  "not_activated g \<longleftrightarrow> g_activatedAt g = None \<and> g_revocationStartedAt g = None \<and>
     g_capabilityInvalidation g = None \<and> length (g_materializations g) = 0"

definition activeRecord :: "grant \<Rightarrow> bool" where
  "activeRecord g \<longleftrightarrow>
     g_approval g \<noteq> None \<and> g_activatedAt g \<noteq> None \<and> g_revocationStartedAt g = None \<and>
     g_capabilityInvalidation g = None \<and>
     list_all (\<lambda>m. \<not> m_updatedAt m \<ge> g_expiresAt g) (g_materializations g)"

definition expiredConsistent :: "grant \<Rightarrow> grant_state \<Rightarrow> bool" where
  "expiredConsistent g from =
     (case from of
        GRequested \<Rightarrow> g_approval g = None \<and> not_activated g \<and> reaches (g_revision g) (Some 1)
      | GApproved \<Rightarrow> g_approval g \<noteq> None \<and> not_activated g \<and> reaches (g_revision g) (Some 2)
      | GActive \<Rightarrow> activeRecord g \<and>
          reaches (g_revision g) (map_option ((+) 3) (sumChildCosts activeChildCost (g_materializations g)))
      | _ \<Rightarrow> g_approval g \<noteq> None \<and> g_activatedAt g \<noteq> None \<and> g_revocationStartedAt g \<noteq> None \<and>
          reaches (g_revision g) (map_option ((+) 1) (revokingMinimum g)))"

definition stateConsistent :: "grant \<Rightarrow> bool" where
  "stateConsistent g =
     (case g_state g of
        GRequested \<Rightarrow>
          g_revision g = 0 \<and> g_approval g = None \<and> not_activated g \<and> g_terminal g = None
      | GRejected \<Rightarrow>
          g_revision g = 1 \<and> g_approval g = None \<and> not_activated g \<and>
          (case g_terminal g of Some (TRejected _) \<Rightarrow> True | _ \<Rightarrow> False)
      | GApproved \<Rightarrow>
          g_revision g = 1 \<and>
          (case g_approval g of None \<Rightarrow> False | Some a \<Rightarrow> \<not> ap_approvedAt a \<ge> g_expiresAt g) \<and>
          not_activated g \<and> g_terminal g = None
      | GActive \<Rightarrow>
          activeRecord g \<and> (case g_activatedAt g of None \<Rightarrow> False | Some a \<Rightarrow> \<not> a \<ge> g_expiresAt g) \<and>
          g_terminal g = None \<and>
          reaches (g_revision g) (map_option ((+) 2) (sumChildCosts activeChildCost (g_materializations g)))
      | GRevoking \<Rightarrow>
          g_approval g \<noteq> None \<and> g_activatedAt g \<noteq> None \<and> g_revocationStartedAt g \<noteq> None \<and>
          g_terminal g = None \<and> reaches (g_revision g) (revokingMinimum g)
      | GRevoked \<Rightarrow>
          g_approval g \<noteq> None \<and> g_activatedAt g \<noteq> None \<and> g_revocationStartedAt g \<noteq> None \<and>
          (case g_terminal g of Some (TRevoked _) \<Rightarrow> True | _ \<Rightarrow> False) \<and>
          g_capabilityInvalidation g \<noteq> None \<and> revocationComplete (g_revocation g) \<and>
          reaches (g_revision g) (map_option ((+) 1) (revokingMinimum g)) \<and>
          list_all settled (g_materializations g)
      | GExpired \<Rightarrow>
          (case g_terminal g of
             Some (TExpired from _) \<Rightarrow>
               \<not> (g_capabilityInvalidation g \<noteq> None \<and> g_approval g = None) \<and> expiredConsistent g from
           | _ \<Rightarrow> False))"

section \<open>\<open>parseGrant\<close> and \<open>createGrant\<close>\<close>

definition grant_states :: "(string \<times> grant_state) list" where
  "grant_states = [(''requested'', GRequested), (''rejected'', GRejected), (''approved'', GApproved),
     (''active'', GActive), (''revoking'', GRevoking), (''revoked'', GRevoked), (''expired'', GExpired)]"

text \<open>
  The captured fields before any check between them; the state is judged last, so its raw value is
  kept beside the record.
\<close>

definition captureGrantFields :: "ext \<Rightarrow> grant_code \<Rightarrow> jsval \<Rightarrow> (err, grant \<times> jsval) capture" where
  "captureGrantFields E code v =
     bindC (exactRecord v [''version'', ''identity'', ''revision'', ''state'', ''requestedAt'', ''expiresAt'',
              ''updatedAt'', ''approval'', ''activatedAt'', ''revocationStartedAt'', ''revocation'',
              ''capabilityInvalidation'', ''terminal'', ''materializations''] (g_err code)) (\<lambda>record.
     bindC (guardC (fld record ''version'' = JString OAATH_GRANT_RECORD_VERSION) (g_err code)) (\<lambda>_.
     bindC (parseIdentity E code (fld record ''identity'')) (\<lambda>identity.
     bindC (liftC (g_safeInteger (fld record ''revision'') code 0)) (\<lambda>revision.
     bindC (liftC (g_safeInteger (fld record ''requestedAt'') code 0)) (\<lambda>requestedAt.
     bindC (liftC (g_safeInteger (fld record ''expiresAt'') code 0)) (\<lambda>expiresAt.
     bindC (liftC (g_safeInteger (fld record ''updatedAt'') code 0)) (\<lambda>updatedAt.
     bindC (parseApproval code (fld record ''approval'')) (\<lambda>approval.
     bindC (liftC (nullable_scalar (safe_integer 0 MAX_SAFE_INTEGER) (fld record ''activatedAt'') (g_err code))) (\<lambda>activatedAt.
     bindC (liftC (nullable_scalar (safe_integer 0 MAX_SAFE_INTEGER) (fld record ''revocationStartedAt'') (g_err code)))
       (\<lambda>revocationStartedAt.
     bindC (parseRevocation E code (fld record ''revocation'')) (\<lambda>revocation.
     bindC (parseInvalidation code (fld record ''capabilityInvalidation'')) (\<lambda>capabilityInvalidation.
     bindC (parseTerminal code (fld record ''terminal'')) (\<lambda>terminal.
     bindC (parseMaterializations E code (fld record ''materializations'')) (\<lambda>materializations.
     returnC (\<lparr>g_identity = identity, g_revision = revision, g_state = GRequested,
       g_requestedAt = requestedAt, g_expiresAt = expiresAt, g_updatedAt = updatedAt,
       g_approval = approval, g_activatedAt = activatedAt, g_revocationStartedAt = revocationStartedAt,
       g_revocation = revocation, g_capabilityInvalidation = capabilityInvalidation,
       g_terminal = terminal, g_materializations = materializations\<rparr>, fld record ''state'')))))))))))))))"

definition parseGrantUnsafe :: "ext \<Rightarrow> grant_code \<Rightarrow> jsval \<Rightarrow> (err, grant) capture" where
  "parseGrantUnsafe E code v =
     bindC (captureGrantFields E code v) (\<lambda>(base, stateValue).
     bindC (guardC (evidenceConsistent base) (g_err code)) (\<lambda>_.
     bindC (liftC (literal_of grant_states stateValue (g_err code))) (\<lambda>state.
     bindC (guardC (stateConsistent (base\<lparr>g_state := state\<rparr>)) (g_err code)) (\<lambda>_.
     returnC (base\<lparr>g_state := state\<rparr>)))))"

definition parseGrant :: "ext \<Rightarrow> jsval \<Rightarrow> err + grant" where
  "parseGrant E v = runC (parseGrantUnsafe E Grant_record_invalid v)"

definition createGrantRecord ::
    "(err, grant_identity) capture \<Rightarrow> jsval \<Rightarrow> jsval \<Rightarrow> (err, grant) capture" where
  "createGrantRecord captureIdentity requestedAtValue expiresAtValue =
     bindC captureIdentity (\<lambda>identity.
     bindC (liftC (g_safeInteger requestedAtValue Grant_input_invalid 0)) (\<lambda>requestedAt.
     bindC (liftC (g_safeInteger expiresAtValue Grant_input_invalid 0)) (\<lambda>expiresAt.
     bindC (guardC (\<not> expiresAt \<le> requestedAt) (g_err Grant_input_invalid)) (\<lambda>_.
     returnC \<lparr>g_identity = identity, g_revision = 0, g_state = GRequested, g_requestedAt = requestedAt,
       g_expiresAt = expiresAt, g_updatedAt = requestedAt, g_approval = None, g_activatedAt = None,
       g_revocationStartedAt = None, g_revocation = None, g_capabilityInvalidation = None,
       g_terminal = None, g_materializations = []\<rparr>))))"

definition createGrant :: "ext \<Rightarrow> jsval \<Rightarrow> err + grant" where
  "createGrant E v = runC (
     bindC (exactRecord v [''identity'', ''requestedAt'', ''expiresAt''] (g_err Grant_input_invalid)) (\<lambda>record.
     createGrantRecord (parseIdentity E Grant_input_invalid (fld record ''identity''))
       (fld record ''requestedAt'') (fld record ''expiresAt'')))"

end
