(* ===== verification/Grant_Codec.thy ===== *)
theory Grant_Codec
  imports Grant_Record
begin

text \<open>
  What \<open>parseGrant\<close> guarantees: the well-formedness of every part of a Grant record, the literals
  the program builds from the records, and, for each parser, the interface \<open>codec\<close>: what is parsed
  is well-formed, and what is well-formed parses back from its literal. The transitions of
  \<open>Grant_Machine\<close> end in a re-parse of the changed record, and use this interface only.
\<close>

section \<open>Well-formed parts\<close>

definition origin_ok :: "ext \<Rightarrow> string \<Rightarrow> bool" where
  "origin_ok E s \<longleftrightarrow> (case newURL E s of None \<Rightarrow> False | Some u \<Rightarrow> is_http_origin u \<and> origin u = s)"

definition wf_application :: "ext \<Rightarrow> application_binding \<Rightarrow> bool" where
  "wf_application E a \<longleftrightarrow> identifier_re (ab_applicationId a) \<and> identifier_re (ab_clientId a) \<and>
     origin_ok E (ab_origin a) \<and> identifier_re (ab_deviceId a)"

text \<open>
  The origin validator bounds the text it is given, not the origin it returns: the bound is a property of
  its own, which a well-formed binding may lack and which its next capture requires.
\<close>

definition origin_fits :: "application_binding \<Rightarrow> bool" where
  "origin_fits a \<longleftrightarrow> length (ab_origin a) \<le> 2048"

definition wf_identity :: "ext \<Rightarrow> grant_identity \<Rightarrow> bool" where
  "wf_identity E i \<longleftrightarrow> id_ok (gi_grantId i) \<and> wf_application E (gi_application i) \<and>
     wf_kernel E (gi_logicalAccount i) \<and> wf_operator E (gi_operatorCredential i) \<and>
     lower_hex 64 (gi_policyHash i)"

definition wf_binding :: "chain_binding \<Rightarrow> bool" where
  "wf_binding b \<longleftrightarrow> int_ok 1 (cb_chainId b) \<and> address_ok (cb_account b) \<and> lower_hex 8 (cb_permissionId b)"

definition wf_evidence :: "permission_evidence \<Rightarrow> bool" where
  "wf_evidence e \<longleftrightarrow> wf_binding (pe_binding e) \<and> uint256_string (pe_blockNumber e) \<and>
     lower_hex 64 (pe_blockHash e) \<and> int_ok 0 (pe_observedAt e)"

definition evidence_of :: "evidence_kind \<Rightarrow> permission_evidence \<Rightarrow> bool" where
  "evidence_of k e \<longleftrightarrow> wf_evidence e \<and> pe_kind e = k"

definition wf_targets :: "chain_binding list \<Rightarrow> bool" where
  "wf_targets ts \<longleftrightarrow> list_all wf_binding ts \<and> int (length ts) \<le> MAX_SAFE_INTEGER \<and> ts \<noteq> [] \<and>
     sorted_wrt (<) (map cb_chainId ts)"

definition wf_revocation_evidence :: "revocation_evidence \<Rightarrow> bool" where
  "wf_revocation_evidence e \<longleftrightarrow> evidence_of Permission_absent (re_permission e) \<and> uint256_string (re_installNonce e)"

definition wf_revocation :: "grant_revocation \<Rightarrow> bool" where
  "wf_revocation r \<longleftrightarrow> wf_targets (gr_targets r) \<and> uint256_string (gr_installNonce r) \<and>
     list_all wf_revocation_evidence (gr_evidence r) \<and> int (length (gr_evidence r)) \<le> MAX_SAFE_INTEGER \<and>
     list_all (evidenceInScope (gr_targets r) (gr_installNonce r)) (gr_evidence r) \<and>
     sorted_wrt (<) (map (\<lambda>e. cb_chainId (re_binding e)) (gr_evidence r))"

definition wf_approval :: "grant_approval \<Rightarrow> bool" where
  "wf_approval a \<longleftrightarrow> lower_hex 64 (ap_approvalHash a) \<and> lower_hex 64 (ap_capabilityHash a) \<and>
     int_ok 0 (ap_approvedAt a)"

definition wf_invalidation :: "capability_invalidation \<Rightarrow> bool" where
  "wf_invalidation i \<longleftrightarrow> lower_hex 64 (inv_capabilityHash i) \<and> lower_hex 64 (inv_evidenceHash i) \<and>
     int_ok 0 (inv_invalidatedAt i)"

definition wf_terminal :: "grant_terminal \<Rightarrow> bool" where
  "wf_terminal t \<longleftrightarrow> int_ok 0 (t_recordedAt t) \<and>
     (case t of TExpired from _ \<Rightarrow> from = GRequested \<or> from = GApproved \<or> from = GActive \<or> from = GRevoking
      | _ \<Rightarrow> True)"

fun wf_materialization :: "materialization \<Rightarrow> bool" where
  "wf_materialization (Unsupported c u r) = (int_ok 1 c \<and> int_ok 0 u)"
| "wf_materialization (Unmaterialized b u) = (wf_binding b \<and> int_ok 0 u)"
| "wf_materialization (Installing b u oid s) = (wf_binding b \<and> int_ok 0 u \<and> lower_hex 64 oid \<and> s = u)"
| "wf_materialization (Installed b u oid i) =
     (wf_binding b \<and> int_ok 0 u \<and> lower_hex 64 oid \<and> evidence_of Permission_present i \<and>
      pe_binding i = b \<and> pe_observedAt i = u)"
| "wf_materialization (Revoking b u oid i s) =
     (wf_binding b \<and> int_ok 0 u \<and> lower_hex 64 oid \<and> int_ok 0 s \<and> s \<le> u \<and>
      pred_option (\<lambda>i. evidence_of Permission_present i \<and> pe_binding i = b \<and> pe_observedAt i \<le> u) i)"
| "wf_materialization (Revoked b u oid i r) =
     (wf_binding b \<and> int_ok 0 u \<and> lower_hex 64 oid \<and> evidence_of Permission_present i \<and>
      evidence_of Permission_absent r \<and> pe_binding i = b \<and> pe_binding r = b \<and> pe_observedAt r = u \<and>
      pe_observedAt i \<le> u \<and> BigInt (pe_blockNumber i) < BigInt (pe_blockNumber r))"
| "wf_materialization (Unreadable b u oid prior i r) =
     (wf_binding b \<and> int_ok 0 u \<and> lower_hex 64 oid \<and>
      pred_option (\<lambda>i. evidence_of Permission_present i \<and> pe_binding i = b \<and> pe_observedAt i \<le> u) i \<and>
      (prior = PriorInstalled \<longrightarrow> i \<noteq> None) \<and> (prior = PriorInstalling \<longrightarrow> i = None))"

definition wf_materializations :: "materialization list \<Rightarrow> bool" where
  "wf_materializations ms \<longleftrightarrow> list_all wf_materialization ms \<and> int (length ms) \<le> MAX_SAFE_INTEGER \<and>
     sorted_wrt (<) (map m_chainId ms)"

definition wf_grant_fields :: "ext \<Rightarrow> grant \<Rightarrow> bool" where
  "wf_grant_fields E g \<longleftrightarrow>
     wf_identity E (g_identity g) \<and> int_ok 0 (g_revision g) \<and> int_ok 0 (g_requestedAt g) \<and>
     int_ok 0 (g_expiresAt g) \<and> int_ok 0 (g_updatedAt g) \<and> pred_option wf_approval (g_approval g) \<and>
     pred_option (int_ok 0) (g_activatedAt g) \<and> pred_option (int_ok 0) (g_revocationStartedAt g) \<and>
     pred_option wf_revocation (g_revocation g) \<and> pred_option wf_invalidation (g_capabilityInvalidation g) \<and>
     pred_option wf_terminal (g_terminal g) \<and> wf_materializations (g_materializations g)"

definition wf_grant :: "ext \<Rightarrow> grant \<Rightarrow> bool" where
  "wf_grant E g \<longleftrightarrow> wf_grant_fields E g \<and> evidenceConsistent g \<and> stateConsistent g"

section \<open>Literals\<close>

definition application_literal :: "ref \<Rightarrow> application_binding \<Rightarrow> jsval" where
  "application_literal p a = mk_obj p
     [(''applicationId'', JString (ab_applicationId a)), (''clientId'', JString (ab_clientId a)),
      (''origin'', JString (ab_origin a)), (''deviceId'', JString (ab_deviceId a))]"

definition identity_literal :: "ref \<Rightarrow> grant_identity \<Rightarrow> jsval" where
  "identity_literal p i = mk_obj p
     [(''grantId'', JString (gi_grantId i)), (''chainScope'', JString ''all''),
      (''application'', application_literal (at p ''application'') (gi_application i)),
      (''logicalAccount'', kernel_literal (at p ''logicalAccount'') (gi_logicalAccount i)),
      (''operatorCredential'', operator_literal (at p ''operatorCredential'') (gi_operatorCredential i)),
      (''policyHash'', JString (gi_policyHash i))]"

definition binding_fields :: "chain_binding \<Rightarrow> (string \<times> jsval) list" where
  "binding_fields b =
     [(''chainId'', jint (cb_chainId b)), (''account'', JString (cb_account b)),
      (''permissionId'', JString (cb_permissionId b))]"

definition binding_literal :: "ref \<Rightarrow> chain_binding \<Rightarrow> jsval" where
  "binding_literal p b = mk_obj p (binding_fields b)"

definition evidence_literal :: "ref \<Rightarrow> permission_evidence \<Rightarrow> jsval" where
  "evidence_literal p e = mk_obj p
     ([(''kind'', JString (evidence_kind_name (pe_kind e)))] @ binding_fields (pe_binding e) @
      [(''blockNumber'', JString (pe_blockNumber e)), (''blockHash'', JString (pe_blockHash e)),
       (''observedAt'', jint (pe_observedAt e))])"

definition revocation_evidence_literal :: "ref \<Rightarrow> revocation_evidence \<Rightarrow> jsval" where
  "revocation_evidence_literal p e = mk_obj p
     [(''permission'', evidence_literal (at p ''permission'') (re_permission e)),
      (''installNonce'', JString (re_installNonce e))]"

definition revocation_literal :: "ref \<Rightarrow> grant_revocation \<Rightarrow> jsval" where
  "revocation_literal p r = mk_obj p
     [(''targets'', show_list binding_literal (at p ''targets'') (gr_targets r)),
      (''installNonce'', JString (gr_installNonce r)),
      (''evidence'', show_list revocation_evidence_literal (at p ''evidence'') (gr_evidence r))]"

definition approval_literal :: "ref \<Rightarrow> grant_approval \<Rightarrow> jsval" where
  "approval_literal p a = mk_obj p
     [(''approvalHash'', JString (ap_approvalHash a)), (''capabilityHash'', JString (ap_capabilityHash a)),
      (''approvedAt'', jint (ap_approvedAt a))]"

definition invalidation_literal :: "ref \<Rightarrow> capability_invalidation \<Rightarrow> jsval" where
  "invalidation_literal p i = mk_obj p
     [(''kind'', JString ''approval_capability_invalidated''),
      (''capabilityHash'', JString (inv_capabilityHash i)), (''evidenceHash'', JString (inv_evidenceHash i)),
      (''invalidatedAt'', jint (inv_invalidatedAt i))]"

definition grant_state_name :: "grant_state \<Rightarrow> string" where
  "grant_state_name s =
     (case s of GRequested \<Rightarrow> ''requested'' | GRejected \<Rightarrow> ''rejected'' | GApproved \<Rightarrow> ''approved''
      | GActive \<Rightarrow> ''active'' | GRevoking \<Rightarrow> ''revoking'' | GRevoked \<Rightarrow> ''revoked'' | GExpired \<Rightarrow> ''expired'')"

fun terminal_literal :: "ref \<Rightarrow> grant_terminal \<Rightarrow> jsval" where
  "terminal_literal p (TRejected t) = mk_obj p [(''kind'', JString ''rejected''), (''recordedAt'', jint t)]"
| "terminal_literal p (TRevoked t) = mk_obj p [(''kind'', JString ''revoked''), (''recordedAt'', jint t)]"
| "terminal_literal p (TExpired from t) = mk_obj p
     [(''kind'', JString ''expired''), (''from'', JString (grant_state_name from)), (''recordedAt'', jint t)]"

definition unsupported_reason_name :: "unsupported_reason \<Rightarrow> string" where
  "unsupported_reason_name r =
     (case r of Runtime_unsupported \<Rightarrow> ''runtime_unsupported''
      | Account_profile_unsupported \<Rightarrow> ''account_profile_unsupported'' | Policy_unsupported \<Rightarrow> ''policy_unsupported'')"

definition unreadable_reason_name :: "unreadable_reason \<Rightarrow> string" where
  "unreadable_reason_name r =
     (case r of Provider_unavailable \<Rightarrow> ''provider_unavailable'' | State_invalid \<Rightarrow> ''state_invalid''
      | Canonicality_not_proven \<Rightarrow> ''canonicality_unproven'')"

definition prior_state_name :: "prior_state \<Rightarrow> string" where
  "prior_state_name s =
     (case s of PriorInstalling \<Rightarrow> ''installing'' | PriorInstalled \<Rightarrow> ''installed'' | PriorRevoking \<Rightarrow> ''revoking'')"

definition bound_fields :: "string \<Rightarrow> chain_binding \<Rightarrow> int \<Rightarrow> (string \<times> jsval) list" where
  "bound_fields state b u = [(''state'', JString state)] @ binding_fields b @ [(''updatedAt'', jint u)]"

fun materialization_literal :: "ref \<Rightarrow> materialization \<Rightarrow> jsval" where
  "materialization_literal p (Unsupported c u r) = mk_obj p
     [(''state'', JString ''unsupported''), (''chainId'', jint c), (''updatedAt'', jint u),
      (''reason'', JString (unsupported_reason_name r))]"
| "materialization_literal p (Unmaterialized b u) = mk_obj p (bound_fields ''unmaterialized'' b u)"
| "materialization_literal p (Installing b u oid s) = mk_obj p
     (bound_fields ''installing'' b u @ [(''operationId'', JString oid), (''startedAt'', jint s)])"
| "materialization_literal p (Installed b u oid i) = mk_obj p
     (bound_fields ''installed'' b u @ [(''operationId'', JString oid),
      (''installation'', evidence_literal (at p ''installation'') i)])"
| "materialization_literal p (Revoking b u oid i s) = mk_obj p
     (bound_fields ''revoking'' b u @ [(''operationId'', JString oid),
      (''installation'', nullable (evidence_literal (at p ''installation'')) i), (''startedAt'', jint s)])"
| "materialization_literal p (Revoked b u oid i r) = mk_obj p
     (bound_fields ''revoked'' b u @ [(''operationId'', JString oid),
      (''installation'', evidence_literal (at p ''installation'') i),
      (''removal'', evidence_literal (at p ''removal'') r)])"
| "materialization_literal p (Unreadable b u oid prior i r) = mk_obj p
     (bound_fields ''unreadable'' b u @ [(''operationId'', JString oid),
      (''priorState'', JString (prior_state_name prior)),
      (''installation'', nullable (evidence_literal (at p ''installation'')) i),
      (''reason'', JString (unreadable_reason_name r))])"

definition grant_literal :: "ref \<Rightarrow> grant \<Rightarrow> jsval" where
  "grant_literal p g = mk_obj p
     [(''version'', JString OAATH_GRANT_RECORD_VERSION),
      (''identity'', identity_literal (at p ''identity'') (g_identity g)),
      (''revision'', jint (g_revision g)),
      (''state'', JString (grant_state_name (g_state g))),
      (''requestedAt'', jint (g_requestedAt g)), (''expiresAt'', jint (g_expiresAt g)),
      (''updatedAt'', jint (g_updatedAt g)),
      (''approval'', nullable (approval_literal (at p ''approval'')) (g_approval g)),
      (''activatedAt'', nullable jint (g_activatedAt g)),
      (''revocationStartedAt'', nullable jint (g_revocationStartedAt g)),
      (''revocation'', nullable (revocation_literal (at p ''revocation'')) (g_revocation g)),
      (''capabilityInvalidation'',
         nullable (invalidation_literal (at p ''capabilityInvalidation'')) (g_capabilityInvalidation g)),
      (''terminal'', nullable (terminal_literal (at p ''terminal'')) (g_terminal g)),
      (''materializations'', show_list materialization_literal (at p ''materializations'') (g_materializations g))]"

section \<open>The parsers and the literals keep the interface\<close>

lemmas g_field_defs = g_safeInteger_def g_canonicalGrantId_def g_address_def g_hash_def g_permissionId_def
  g_uint256_def g_identifier_def

lemma g_record_eta [js_simps]:
  "\<lparr>ab_applicationId = ab_applicationId a, ab_clientId = ab_clientId a, ab_origin = ab_origin a,
    ab_deviceId = ab_deviceId a\<rparr> = a"
  "\<lparr>gi_grantId = gi_grantId i, gi_application = gi_application i, gi_logicalAccount = gi_logicalAccount i,
    gi_operatorCredential = gi_operatorCredential i, gi_policyHash = gi_policyHash i\<rparr> = i"
  "\<lparr>cb_chainId = cb_chainId b, cb_account = cb_account b, cb_permissionId = cb_permissionId b\<rparr> = b"
  "\<lparr>pe_kind = pe_kind e, pe_binding = pe_binding e, pe_blockNumber = pe_blockNumber e,
    pe_blockHash = pe_blockHash e, pe_observedAt = pe_observedAt e\<rparr> = e"
  "\<lparr>re_permission = re_permission f, re_installNonce = re_installNonce f\<rparr> = f"
  "\<lparr>gr_targets = gr_targets r, gr_installNonce = gr_installNonce r, gr_evidence = gr_evidence r\<rparr> = r"
  "\<lparr>ap_approvalHash = ap_approvalHash q, ap_capabilityHash = ap_capabilityHash q,
    ap_approvedAt = ap_approvedAt q\<rparr> = q"
  "\<lparr>inv_capabilityHash = inv_capabilityHash x, inv_evidenceHash = inv_evidenceHash x,
    inv_invalidatedAt = inv_invalidatedAt x\<rparr> = x"
  by simp_all

lemma g_literal_not_null [simp]:
  "application_literal p a \<noteq> JNull" "identity_literal p i \<noteq> JNull" "binding_literal p b \<noteq> JNull"
  "evidence_literal p e \<noteq> JNull" "revocation_evidence_literal p f \<noteq> JNull" "revocation_literal p r \<noteq> JNull"
  "approval_literal p q \<noteq> JNull" "invalidation_literal p x \<noteq> JNull" "grant_literal p g \<noteq> JNull"
  by (simp_all add: application_literal_def identity_literal_def binding_literal_def evidence_literal_def
      revocation_evidence_literal_def revocation_literal_def approval_literal_def invalidation_literal_def
      grant_literal_def)

lemma g_literal_not_null_cases [simp]: "terminal_literal p t \<noteq> JNull" "materialization_literal p m \<noteq> JNull"
  by (cases t, simp_all) (cases m, simp_all)

lemma evidenceMatchesBinding_iff [simp]: "evidenceMatchesBinding a b \<longleftrightarrow> a = b"
  by (auto simp: evidenceMatchesBinding_def intro: chain_binding.equality)

lemma strictlySorted_iff: "strictlySorted ids \<longleftrightarrow> sorted_wrt (<) ids \<and> (\<forall>i\<in>set ids. 0 < i)"
  by (auto simp: strictlySorted_def neighbours_sorted_wrt [OF transp_on_less])

lemma g_origin_Inr:
  assumes "g_origin E v code = Inr s"
  obtains t u where "length t \<le> 2048" "newURL E t = Some u" "is_http_origin u" "origin u = s"
proof -
  from assms obtain t where t: "v = JString t" by (auto simp: g_origin_def split: jsval.splits)
  with assms obtain u where "newURL E t = Some u" "length t \<le> 2048"
    by (auto simp: g_origin_def split: option.splits if_splits)
  with assms t that show ?thesis by (auto simp: g_origin_def is_http_origin_def split: if_splits)
qed

lemma g_origin_sound:
  assumes "ext_ok E" and "g_origin E v code = Inr s"
  shows "origin_ok E s"
proof -
  from assms(2) obtain t u where u: "newURL E t = Some u" "is_http_origin u" "origin u = s"
    by (rule g_origin_Inr)
  from assms(1) have "\<forall>s u. newURL E s = Some u \<longrightarrow> is_http_origin u \<longrightarrow>
      (\<exists>u'. newURL E (origin u) = Some u' \<and> is_http_origin u' \<and> origin u' = origin u)"
    unfolding ext_ok_def by (elim conjE)
  from this [rule_format, OF u(1,2)] u(3) show ?thesis by (auto simp: origin_ok_def)
qed

lemma g_origin_string [js_simps]:
  "origin_ok E s \<Longrightarrow> g_origin E (JString s) code = (if length s \<le> 2048 then Inr s else Inl (g_err code))"
  by (auto simp: g_origin_def origin_ok_def is_http_origin_def split: option.splits)

lemma parseApplicationBinding_sound:
  "ext_ok E \<Longrightarrow> parseApplicationBinding E code v c = Inr (a, c') \<Longrightarrow> wf_application E a"
  unfolding parseApplicationBinding_def
  by (elim bindC_InrE) (auto simp: g_field_defs wf_application_def dest: g_origin_sound)

lemma parseApplicationBinding_complete:
  "ext_ok E \<Longrightarrow> wf_application E a \<and> origin_fits a \<Longrightarrow> fresh p c \<Longrightarrow>
   reads (parseApplicationBinding E code (application_literal p a)) c p a"
  unfolding parseApplicationBinding_def application_literal_def
  by (intro reads_exact) (simp_all add: js_simps g_field_defs wf_application_def origin_fits_def)

lemma parseApplicationBinding_refuses:
  "wf_application E a \<Longrightarrow> \<not> origin_fits a \<Longrightarrow> fresh p c \<Longrightarrow>
   parseApplicationBinding E code (application_literal p a) c = Inl (g_err code)"
  unfolding parseApplicationBinding_def application_literal_def
  by (intro refuses_exact) (simp_all add: js_simps g_field_defs wf_application_def origin_fits_def)

interpretation application_codec: literal_codec parseApplicationBinding application_literal
  "\<lambda>E a. wf_application E a \<and> origin_fits a" ext_ok
  by unfold_locales (auto intro: parseApplicationBinding_complete)

lemma parseIdentity_sound:
  assumes "ext_ok E" and "parseIdentity E code v c = Inr (i, c')"
  shows "wf_identity E i"
  using assms(2) unfolding parseIdentity_def parseIdentityRecord_def captureOperatorCredentialProfile_def
  by (elim bindC_InrE)
    (auto simp: g_field_defs wf_identity_def dest!: parseApplicationBinding_sound [OF assms(1)]
      captureKernelAccountProfile_sound [OF assms(1)] captureOperatorCredential_sound [OF assms(1)])

lemma parseIdentity_complete:
  assumes "ext_ok E" "wf_identity E i \<and> origin_fits (gi_application i)" "fresh p c"
  shows "reads (parseIdentity E code (identity_literal p i)) c p i"
  unfolding parseIdentity_def parseIdentityRecord_def identity_literal_def captureOperatorCredentialProfile_def
  apply (rule reads_exact [OF assms(3)], simp)
  apply (insert assms(2), simp add: js_simps g_field_defs wf_identity_def)
  apply (rule application_codec.bind_field, assumption, simp, rule assms(1), simp)
  apply (rule kernel_codec.bind_field, assumption, simp, rule assms(1), simp)
  apply (rule operator_codec.bind_field, assumption, simp, rule assms(1), simp)
  apply (simp add: js_simps)
  done

lemma parseIdentity_refuses:
  assumes "wf_identity E i" "\<not> origin_fits (gi_application i)" "fresh p c"
  shows "parseIdentity E code (identity_literal p i) c = Inl (g_err code)"
  unfolding parseIdentity_def parseIdentityRecord_def identity_literal_def
proof (rule refuses_exact [OF assms(3)], simp, goal_cases)
  case (1 c)
  from within_fresh [OF this] have "fresh (at p ''application'') c" by simp
  with assms(1,2) show ?case
    by (simp add: js_simps g_field_defs wf_identity_def) (rule refuses_bind, simp add: parseApplicationBinding_refuses)
qed

interpretation identity_codec: literal_codec parseIdentity identity_literal
  "\<lambda>E i. wf_identity E i \<and> origin_fits (gi_application i)" ext_ok
  by unfold_locales (auto intro: parseIdentity_complete)

lemma parseBinding_sound: "ext_ok E \<Longrightarrow> parseBinding E code v c = Inr (b, c') \<Longrightarrow> wf_binding b"
  unfolding parseBinding_def
  by (elim bindC_InrE) (auto simp: g_field_defs wf_binding_def dest: captureAddress_sound)

lemma parseBinding_complete:
  "ext_ok E \<Longrightarrow> wf_binding b \<Longrightarrow> fresh p c \<Longrightarrow> reads (parseBinding E code (binding_literal p b)) c p b"
  unfolding parseBinding_def binding_literal_def binding_fields_def
  by (intro reads_exact) (simp_all add: js_simps g_field_defs wf_binding_def)

interpretation binding_codec: codec parseBinding binding_literal "\<lambda>_. wf_binding" ext_ok
  by unfold_locales (auto intro: parseBinding_sound parseBinding_complete)

lemma parsePermissionEvidence_sound:
  "ext_ok E \<Longrightarrow> parsePermissionEvidence k E code v c = Inr (e, c') \<Longrightarrow> evidence_of k e"
  unfolding parsePermissionEvidence_def
  by (elim bindC_InrE)
    (auto simp: g_field_defs evidence_of_def wf_evidence_def wf_binding_def dest: captureAddress_sound)

lemma parsePermissionEvidence_complete:
  "ext_ok E \<Longrightarrow> evidence_of k e \<Longrightarrow> fresh p c \<Longrightarrow>
   reads (parsePermissionEvidence k E code (evidence_literal p e)) c p e"
  unfolding parsePermissionEvidence_def evidence_literal_def binding_fields_def
  by (intro reads_exact) (simp_all add: js_simps g_field_defs evidence_of_def wf_evidence_def wf_binding_def)

interpretation present_codec: codec "parsePermissionEvidence Permission_present" evidence_literal
    "\<lambda>_. evidence_of Permission_present" ext_ok
  by unfold_locales (auto intro: parsePermissionEvidence_sound parsePermissionEvidence_complete)

interpretation absent_codec: codec "parsePermissionEvidence Permission_absent" evidence_literal
    "\<lambda>_. evidence_of Permission_absent" ext_ok
  by unfold_locales (auto intro: parsePermissionEvidence_sound parsePermissionEvidence_complete)

lemma sorted_pos:
  "list_all wf_binding ts \<Longrightarrow> sorted_wrt (<) (map cb_chainId ts) \<Longrightarrow> strictlySorted (map cb_chainId ts)"
  by (auto simp: strictlySorted_iff list_all_iff wf_binding_def int_ok_def)

lemma parseRevocationTargets_sound:
  "ext_ok E \<Longrightarrow> parseRevocationTargets E code v c = Inr (ts, c') \<Longrightarrow> wf_targets ts"
  unfolding parseRevocationTargets_def
  by (elim bindC_InrE) (auto simp: wf_targets_def strictlySorted_iff dest: binding_codec.list_sound)

lemma parseRevocationTargets_complete:
  assumes "ext_ok E" "wf_targets ts" "fresh p c"
  shows "reads (parseRevocationTargets E code (show_list binding_literal p ts)) c p ts"
proof -
  have "reads (arrayC (parseBinding E code) (show_list binding_literal p ts) (g_err code)) c p ts"
    using assms by (intro binding_codec.list_complete) (auto simp: wf_targets_def)
  then show ?thesis
    using assms(2) sorted_pos [of ts]
    by (auto simp: parseRevocationTargets_def reads_def bindC_def guardC_def returnC_def wf_targets_def)
qed

lemma show_list_not_null [simp]: "show_list f p xs \<noteq> JNull"
  by (simp add: show_list_def)

interpretation targets_codec: codec parseRevocationTargets "show_list binding_literal" "\<lambda>_. wf_targets" ext_ok
  by unfold_locales (auto intro: parseRevocationTargets_sound parseRevocationTargets_complete)

lemma parseRevocationEvidence_sound:
  "ext_ok E \<Longrightarrow> parseRevocationEvidence E code v c = Inr (e, c') \<Longrightarrow> wf_revocation_evidence e"
  unfolding parseRevocationEvidence_def
  by (elim bindC_InrE)
    (auto simp: g_field_defs wf_revocation_evidence_def dest: parsePermissionEvidence_sound)

lemma parseRevocationEvidence_complete:
  assumes "ext_ok E" "wf_revocation_evidence e" "fresh p c"
  shows "reads (parseRevocationEvidence E code (revocation_evidence_literal p e)) c p e"
  unfolding parseRevocationEvidence_def revocation_evidence_literal_def
  apply (rule reads_exact [OF assms(3)], simp)
  apply (insert assms(2), simp add: js_simps wf_revocation_evidence_def)
  apply (rule absent_codec.bind_field, assumption, simp, rule assms(1), simp)
  apply (simp add: js_simps g_field_defs)
  done

interpretation revocation_evidence_codec: codec parseRevocationEvidence revocation_evidence_literal
    "\<lambda>_. wf_revocation_evidence" ext_ok
  by unfold_locales (auto intro: parseRevocationEvidence_sound parseRevocationEvidence_complete)

lemma captureRevocation_sound:
  assumes "ext_ok E" and "captureRevocation E code v c = Inr (r, c')"
  shows "wf_revocation r"
  using assms(2) unfolding captureRevocation_def
  by (elim bindC_InrE)
    (auto simp: g_field_defs wf_revocation_def strictlySorted_iff
      dest!: parseRevocationTargets_sound [OF assms(1)] revocation_evidence_codec.list_sound [OF assms(1)])

lemma evidence_sorted_pos:
  "list_all wf_revocation_evidence es \<Longrightarrow> sorted_wrt (<) (map (\<lambda>e. cb_chainId (re_binding e)) es) \<Longrightarrow>
   strictlySorted (map (\<lambda>e. cb_chainId (re_binding e)) es)"
  by (auto simp: strictlySorted_iff list_all_iff wf_revocation_evidence_def evidence_of_def wf_evidence_def
      wf_binding_def int_ok_def)

lemma captureRevocation_complete:
  assumes "ext_ok E" "wf_revocation r" "fresh p c"
  shows "reads (captureRevocation E code (revocation_literal p r)) c p r"
  unfolding captureRevocation_def revocation_literal_def
  apply (rule reads_exact [OF assms(3)], simp)
  apply (insert assms(2), simp add: js_simps wf_revocation_def)
  apply (rule targets_codec.bind_field, assumption, simp, rule assms(1), simp)
  apply (simp add: js_simps g_field_defs)
  apply (rule revocation_evidence_codec.bind_list, assumption, simp, rule assms(1), simp, simp)
  apply (simp add: js_simps evidence_sorted_pos)
  done

interpretation revocation_codec: codec captureRevocation revocation_literal "\<lambda>_. wf_revocation" ext_ok
  by unfold_locales (auto intro: captureRevocation_sound captureRevocation_complete)

lemma captureApproval_sound: "captureApproval code v c = Inr (a, c') \<Longrightarrow> wf_approval a"
  unfolding captureApproval_def by (elim bindC_InrE) (auto simp: g_field_defs wf_approval_def)

lemma captureApproval_complete:
  "wf_approval a \<Longrightarrow> fresh p c \<Longrightarrow> reads (captureApproval code (approval_literal p a)) c p a"
  unfolding captureApproval_def approval_literal_def
  by (intro reads_exact) (simp_all add: js_simps g_field_defs wf_approval_def)

interpretation approval_codec: codec "\<lambda>(_ :: ext). captureApproval" approval_literal "\<lambda>_. wf_approval" ext_ok
  by unfold_locales (auto intro: captureApproval_sound captureApproval_complete)

lemma captureInvalidation_sound: "captureInvalidation code v c = Inr (a, c') \<Longrightarrow> wf_invalidation a"
  unfolding captureInvalidation_def by (elim bindC_InrE) (auto simp: g_field_defs wf_invalidation_def)

lemma captureInvalidation_complete:
  "wf_invalidation a \<Longrightarrow> fresh p c \<Longrightarrow> reads (captureInvalidation code (invalidation_literal p a)) c p a"
  unfolding captureInvalidation_def invalidation_literal_def
  by (intro reads_exact) (simp_all add: js_simps g_field_defs wf_invalidation_def)

interpretation invalidation_codec: codec "\<lambda>(_ :: ext). captureInvalidation" invalidation_literal
    "\<lambda>_. wf_invalidation" ext_ok
  by unfold_locales (auto intro: captureInvalidation_sound captureInvalidation_complete)

lemma captureTerminal_sound: "captureTerminal code v c = Inr (t, c') \<Longrightarrow> wf_terminal t"
  unfolding captureTerminal_def
  by (elim bindC_InrE)
    (auto simp: g_field_defs wf_terminal_def literal_of_Inr expired_from_def elim!: bindC_InrE split: if_splits)

lemma captureTerminal_complete:
  assumes "wf_terminal t" "fresh p c"
  shows "reads (captureTerminal code (terminal_literal p t)) c p t"
  unfolding captureTerminal_def
  by (cases t; simp; intro reads_captured [OF assms(2)]; use assms(1) in \<open>auto simp: js_simps g_field_defs
      wf_terminal_def expired_from_def grant_state_name_def\<close>)

interpretation terminal_codec: codec "\<lambda>(_ :: ext). captureTerminal" terminal_literal "\<lambda>_. wf_terminal" ext_ok
  by unfold_locales (auto intro: captureTerminal_sound captureTerminal_complete)

section \<open>Materializations\<close>

lemma bindingFields_sound: "ext_ok E \<Longrightarrow> bindingFields E record code c = Inr (b, c') \<Longrightarrow> wf_binding b"
  unfolding bindingFields_def
  by (elim bindC_InrE) (auto simp: g_field_defs wf_binding_def dest: captureAddress_sound)

lemmas capture_state_defs = captureUnsupported_def captureUnmaterialized_def captureInstalling_def
  captureInstalled_def captureRevoking_def captureRevoked_def captureUnreadable_def

lemma capture_states_sound:
  assumes "ext_ok E"
  shows "captureUnsupported E code captured c = Inr (m, c') \<Longrightarrow> wf_materialization m"
    and "captureUnmaterialized E code captured c = Inr (m, c') \<Longrightarrow> wf_materialization m"
    and "captureInstalling E code captured c = Inr (m, c') \<Longrightarrow> wf_materialization m"
    and "captureInstalled E code captured c = Inr (m, c') \<Longrightarrow> wf_materialization m"
    and "captureRevoking E code captured c = Inr (m, c') \<Longrightarrow> wf_materialization m"
    and "captureRevoked E code captured c = Inr (m, c') \<Longrightarrow> wf_materialization m"
    and "captureUnreadable E code captured c = Inr (m, c') \<Longrightarrow> wf_materialization m"
  unfolding capture_state_defs parseNullableInstallation_def
  by (elim bindC_InrE nullableC_InrE; auto simp: g_field_defs installationBound_def
      dest!: bindingFields_sound [OF assms] parsePermissionEvidence_sound [OF assms] split: option.splits)+

lemma parseMaterialization_sound:
  assumes "ext_ok E" and "parseMaterialization E code v c = Inr (m, c')"
  shows "wf_materialization m"
  using assms(2) unfolding parseMaterialization_def Let_def
  by (elim bindC_InrE) (auto split: if_splits dest: capture_states_sound [OF assms(1)])

lemma reason_names [js_simps]:
  "map_of unsupported_reasons (unsupported_reason_name r) = Some r"
  "map_of unreadable_reasons (unreadable_reason_name u) = Some u"
  "map_of prior_states (prior_state_name s) = Some s"
  by (cases r, simp_all add: unsupported_reasons_def unsupported_reason_name_def)
    (cases u, simp_all add: unreadable_reasons_def unreadable_reason_name_def, cases s,
      simp_all add: prior_states_def prior_state_name_def)

lemmas materialization_literal_defs = bound_fields_def binding_fields_def materialization_common_def
  bindingFields_def parseNullableInstallation_def

lemma parseMaterialization_complete:
  assumes "ext_ok E" "wf_materialization m" "fresh p c"
  shows "reads (parseMaterialization E code (materialization_literal p m)) c p m"
proof (cases m)
  case (Unsupported ch u r)
  with assms show ?thesis unfolding parseMaterialization_def
    by (simp, intro reads_captured) (simp_all add: js_simps captureUnsupported_def g_field_defs)
next
  case (Unmaterialized b u)
  with assms show ?thesis unfolding parseMaterialization_def
    by (simp, intro reads_captured)
      (simp_all add: js_simps captureUnmaterialized_def g_field_defs materialization_literal_defs wf_binding_def)
next
  case (Installing b u oid s)
  with assms show ?thesis unfolding parseMaterialization_def
    by (simp, intro reads_captured)
      (simp_all add: js_simps captureInstalling_def g_field_defs materialization_literal_defs wf_binding_def)
next
  case (Installed b u oid i)
  then show ?thesis unfolding parseMaterialization_def
    apply simp
    apply (rule reads_captured [OF assms(3)])
    apply (insert assms(1,2))
    apply (simp add: js_simps captureInstalled_def g_field_defs materialization_literal_defs wf_binding_def)
    apply (rule present_codec.bind_field, assumption, simp, rule assms(1), simp)
    apply (simp add: js_simps)
    done
next
  case (Revoking b u oid i s)
  then show ?thesis unfolding parseMaterialization_def
    apply simp
    apply (rule reads_captured [OF assms(3)])
    apply (insert assms(1,2))
    apply (simp add: js_simps captureRevoking_def g_field_defs materialization_literal_defs wf_binding_def)
    apply (rule present_codec.bind_nullable, assumption, simp, rule assms(1), simp)
    apply (auto simp: js_simps installationBound_def not_less split: option.splits)
    done
next
  case (Revoked b u oid i r)
  then show ?thesis unfolding parseMaterialization_def
    apply simp
    apply (rule reads_captured [OF assms(3)])
    apply (insert assms(1,2))
    apply (simp add: js_simps captureRevoked_def g_field_defs materialization_literal_defs wf_binding_def)
    apply (rule present_codec.bind_field, assumption, simp, rule assms(1), simp)
    apply (rule absent_codec.bind_field, assumption, simp, rule assms(1), simp)
    apply (simp add: js_simps)
    done
next
  case (Unreadable b u oid prior i r)
  then show ?thesis unfolding parseMaterialization_def
    apply simp
    apply (rule reads_captured [OF assms(3)])
    apply (insert assms(1,2))
    apply (simp add: js_simps captureUnreadable_def g_field_defs materialization_literal_defs wf_binding_def)
    apply (rule present_codec.bind_nullable, assumption, simp, rule assms(1), simp)
    apply (auto simp: js_simps installationBound_def split: option.splits)
    done
qed

interpretation materialization_codec: codec parseMaterialization materialization_literal
    "\<lambda>_. wf_materialization" ext_ok
  by unfold_locales (auto intro: parseMaterialization_sound parseMaterialization_complete)

lemma wf_materialization_chain: "wf_materialization m \<Longrightarrow> int_ok 1 (m_chainId m)"
  by (cases m) (auto simp: m_chainId_def wf_binding_def)

lemma parseMaterializations_sound:
  "ext_ok E \<Longrightarrow> parseMaterializations E code v c = Inr (ms, c') \<Longrightarrow> wf_materializations ms"
  unfolding parseMaterializations_def
  by (elim bindC_InrE) (auto simp: wf_materializations_def strictlySorted_iff dest: materialization_codec.list_sound)

lemma parseMaterializations_complete:
  assumes "ext_ok E" "wf_materializations ms" "fresh p c"
  shows "reads (parseMaterializations E code (show_list materialization_literal p ms)) c p ms"
proof -
  have "reads (arrayC (parseMaterialization E code) (show_list materialization_literal p ms) (g_err code)) c p ms"
    using assms by (intro materialization_codec.list_complete) (auto simp: wf_materializations_def)
  moreover have "strictlySorted (map m_chainId ms)"
    using assms(2)
    by (auto simp: wf_materializations_def strictlySorted_iff list_all_iff int_ok_def
        dest!: bspec wf_materialization_chain)
  ultimately show ?thesis
    by (auto simp: parseMaterializations_def reads_def bindC_def guardC_def returnC_def)
qed

interpretation materializations_codec: codec parseMaterializations "show_list materialization_literal"
    "\<lambda>_. wf_materializations" ext_ok
  by unfold_locales (auto intro: parseMaterializations_sound parseMaterializations_complete)

section \<open>The Grant record\<close>

lemma evidenceConsistent_state [simp]: "evidenceConsistent (g\<lparr>g_state := s\<rparr>) = evidenceConsistent g"
  by (simp add: evidenceConsistent_def chronologyValid_def latestGrantTime_def revocation_entries_def
      cong: option.case_cong grant_terminal.case_cong)

lemmas parse_nullable_defs = parseApproval_def parseRevocation_def parseInvalidation_def parseTerminal_def

lemma captureGrantFields_sound:
  assumes "ext_ok E" and "captureGrantFields E code v c = Inr ((g, state), c')"
  shows "wf_grant_fields E g"
  using assms(2) unfolding captureGrantFields_def parse_nullable_defs
  apply (elim bindC_InrE)
  apply (drule parseIdentity_sound [OF assms(1)] approval_codec.nullable_sound [OF assms(1)]
      revocation_codec.nullable_sound [OF assms(1)] invalidation_codec.nullable_sound [OF assms(1)]
      terminal_codec.nullable_sound [OF assms(1)] parseMaterializations_sound [OF assms(1)])+
  apply (simp add: g_field_defs)
  apply (elim conjE)
  apply (drule nullable_int_sound, simp)+
  apply (simp add: wf_grant_fields_def)
  done

lemma wf_grant_fields_state [simp]: "wf_grant_fields E (g\<lparr>g_state := s\<rparr>) = wf_grant_fields E g"
  by (simp add: wf_grant_fields_def)

lemma parseGrantUnsafe_sound:
  assumes "ext_ok E" and "parseGrantUnsafe E code v c = Inr (g, c')"
  shows "wf_grant E g"
  using assms(2) unfolding parseGrantUnsafe_def
  by (elim bindC_InrE) (auto simp: wf_grant_def dest: captureGrantFields_sound [OF assms(1)] elim!: bindC_InrE)

lemma grant_state_names [js_simps]: "map_of grant_states (grant_state_name s) = Some s"
  by (cases s) (simp_all add: grant_states_def grant_state_name_def)

abbreviation grant_fits :: "grant \<Rightarrow> bool" where
  "grant_fits g \<equiv> origin_fits (gi_application (g_identity g))"

lemma captureGrantFields_complete:
  assumes "ext_ok E" "wf_grant_fields E g" "grant_fits g" "fresh p c"
  shows "reads (captureGrantFields E code (grant_literal p g)) c p
     (g\<lparr>g_state := GRequested\<rparr>, JString (grant_state_name (g_state g)))"
  unfolding captureGrantFields_def grant_literal_def parse_nullable_defs
  apply (rule reads_exact [OF assms(4)], simp)
  apply (insert assms(2,3), simp add: js_simps wf_grant_fields_def)
  apply (rule identity_codec.bind_field, assumption, simp, rule assms(1), simp)
  apply (simp add: js_simps g_field_defs)
  apply (rule approval_codec.bind_nullable, assumption, simp, rule assms(1), simp)
  apply (rule revocation_codec.bind_nullable, assumption, simp, rule assms(1), simp)
  apply (rule invalidation_codec.bind_nullable, assumption, simp, rule assms(1), simp)
  apply (rule terminal_codec.bind_nullable, assumption, simp, rule assms(1), simp)
  apply (rule materializations_codec.bind_field, assumption, simp, rule assms(1), simp)
  apply (simp add: js_simps)
  done

lemma captureGrantFields_refuses:
  assumes "wf_grant_fields E g" "\<not> grant_fits g" "fresh p c"
  shows "captureGrantFields E code (grant_literal p g) c = Inl (g_err code)"
  unfolding captureGrantFields_def grant_literal_def
proof (rule refuses_exact [OF assms(3)], simp, goal_cases)
  case (1 c)
  from within_fresh [OF this] have "fresh (at p ''identity'') c" by simp
  with assms(1,2) show ?case
    by (simp add: js_simps wf_grant_fields_def) (rule refuses_bind, simp add: parseIdentity_refuses)
qed

text \<open>
  On the literal of a record whose fields are well-formed, the parser decides the length of the origin and
  consistency, and nothing else.
\<close>

lemma parseGrantUnsafe_fields:
  assumes "ext_ok E" "wf_grant_fields E g" "fresh p c"
  shows "\<exists>c'. c' \<subseteq> c \<union> below p \<and> parseGrantUnsafe E code (grant_literal p g) c =
     (if grant_fits g \<and> evidenceConsistent g \<and> stateConsistent g then Inr (g, c') else Inl (g_err code))"
proof (cases "grant_fits g")
  case True
  from captureGrantFields_complete [OF assms(1,2) True assms(3), of code] obtain c' where c':
    "captureGrantFields E code (grant_literal p g) c =
       Inr ((g\<lparr>g_state := GRequested\<rparr>, JString (grant_state_name (g_state g))), c')" "c' \<subseteq> c \<union> below p"
    by (auto simp: reads_def)
  moreover have "g\<lparr>g_state := GRequested\<rparr>\<lparr>g_state := g_state g\<rparr> = g" by simp
  ultimately show ?thesis using True
    by (auto simp: parseGrantUnsafe_def bindC_def guardC_def liftC_def returnC_def js_simps)
next
  case False
  with captureGrantFields_refuses [OF assms(2) _ assms(3), of code] show ?thesis
    by (auto simp: parseGrantUnsafe_def intro!: refuses_bind)
qed

lemma parseGrantUnsafe_complete:
  assumes "ext_ok E" "wf_grant E g \<and> grant_fits g" "fresh p c"
  shows "reads (parseGrantUnsafe E code (grant_literal p g)) c p g"
  using parseGrantUnsafe_fields [of E g p c code] assms by (auto simp: reads_def wf_grant_def)

interpretation grant_codec: literal_codec parseGrantUnsafe grant_literal "\<lambda>E g. wf_grant E g \<and> grant_fits g" ext_ok
  by unfold_locales (auto intro: parseGrantUnsafe_complete)

lemma parseGrant_sound: "ext_ok E \<Longrightarrow> parseGrant E v = Inr g \<Longrightarrow> wf_grant E g"
  by (auto simp: parseGrant_def runC_Inr dest: parseGrantUnsafe_sound)

lemma parseGrant_fields:
  assumes "ext_ok E" and "wf_grant_fields E g"
  shows "parseGrant E (grant_literal p g) =
    (if grant_fits g \<and> evidenceConsistent g \<and> stateConsistent g then Inr g else Inl (g_err Grant_record_invalid))"
  using parseGrantUnsafe_fields [OF assms, of p "{}" Grant_record_invalid]
  by (auto simp: parseGrant_def runC_def)

lemma parseGrant_literal:
  "ext_ok E \<Longrightarrow> wf_grant E g \<Longrightarrow>
   parseGrant E (grant_literal p g) = (if grant_fits g then Inr g else Inl (g_err Grant_record_invalid))"
  by (simp add: parseGrant_fields wf_grant_def)

lemma createGrant_sound:
  assumes "ext_ok E" and "createGrant E v = Inr g"
  shows "wf_grant E g \<and> g_state g = GRequested \<and> g_revision g = 0"
proof -
  from assms(2) obtain i q x where g: "g = \<lparr>g_identity = i, g_revision = 0, g_state = GRequested, g_requestedAt = q,
       g_expiresAt = x, g_updatedAt = q, g_approval = None, g_activatedAt = None,
       g_revocationStartedAt = None, g_revocation = None, g_capabilityInvalidation = None,
       g_terminal = None, g_materializations = []\<rparr>"
    and i: "wf_identity E i" and q: "int_ok 0 q" and x: "int_ok 0 x" "q < x"
    unfolding createGrant_def createGrantRecord_def runC_Inr
    by (auto elim!: bindC_InrE simp: g_field_defs dest!: parseIdentity_sound [OF assms(1)])
  show ?thesis
    using i q x unfolding g
    by (simp add: wf_grant_def wf_grant_fields_def wf_materializations_def evidenceConsistent_def
        chronologyValid_def latestGrantTime_def revocation_entries_def stateConsistent_def not_activated_def
        materializationChronologyValid_def some_or_def int_ok_def MAX_SAFE_INTEGER_def)
qed

end
