(* ===== verification/Grant_Machine.thy ===== *)
theory Grant_Machine
  imports Grant_Codec
begin

text \<open>
  Model of the transitions of \<open>packages/protocol/src/grant.ts\<close>: \<open>parseGrantTransition\<close> and
  \<open>advanceGrant\<close>. A transition is checked against the Grant's identity, state and times; the changed
  record, with the next revision, is parsed again before it is returned. The changed record is the
  object \<open>{...grant, ...changes}\<close>, whose parts are the frozen objects earlier parses built, each used
  once; so it is the literal of the changed Grant.
\<close>

section \<open>Transitions\<close>

datatype grant_transition =
    Reject (tr_identity: grant_identity) int
  | Approve (tr_identity: grant_identity) grant_approval
  | Activate (tr_identity: grant_identity) int
  | Expire (tr_identity: grant_identity) int
  | Record_unsupported (tr_identity: grant_identity) int int unsupported_reason
  | Record_unmaterialized (tr_identity: grant_identity) chain_binding int
  | Begin_materialization (tr_identity: grant_identity) chain_binding string int
  | Abandon_materialization (tr_identity: grant_identity) chain_binding string int
  | Record_installed (tr_identity: grant_identity) chain_binding string permission_evidence
  | Record_unreadable (tr_identity: grant_identity) chain_binding int unreadable_reason
  | Begin_revocation (tr_identity: grant_identity) "chain_binding list" string int
  | Begin_chain_revocation (tr_identity: grant_identity) chain_binding int
  | Record_chain_revoked (tr_identity: grant_identity) chain_binding permission_evidence
  | Record_capability_invalidated (tr_identity: grant_identity) capability_invalidation
  | Record_revocation_evidence (tr_identity: grant_identity) revocation_evidence
  | Complete_revocation (tr_identity: grant_identity) int

abbreviation tr_code :: grant_code where
  "tr_code \<equiv> Grant_transition_invalid"

abbreviation tr_err :: err where
  "tr_err \<equiv> OaathGrantError Grant_transition_invalid"

definition tr_id :: "ext \<Rightarrow> fields \<Rightarrow> (err, grant_identity) capture" where
  "tr_id E record = parseIdentity E tr_code (fld record ''identity'')"

definition tr_time :: "fields \<Rightarrow> string \<Rightarrow> (err, int) capture" where
  "tr_time record k = liftC (g_safeInteger (fld record k) tr_code 0)"

text \<open>The transitions that carry one time: \<open>reject\<close>, \<open>activate\<close>, \<open>expire\<close>, \<open>complete_revocation\<close>.\<close>

definition captureTimed ::
    "ext \<Rightarrow> (grant_identity \<Rightarrow> int \<Rightarrow> grant_transition) \<Rightarrow> string \<Rightarrow> fields \<Rightarrow> (err, grant_transition) capture" where
  "captureTimed E build key captured =
     bindC (exactCapturedRecord captured [''type'', ''identity'', key] tr_err) (\<lambda>record.
     bindC (tr_id E record) (\<lambda>identity.
     bindC (tr_time record key) (\<lambda>time. returnC (build identity time))))"

definition captureApprove :: "ext \<Rightarrow> fields \<Rightarrow> (err, grant_transition) capture" where
  "captureApprove E captured =
     bindC (exactCapturedRecord captured [''type'', ''identity'', ''approval''] tr_err) (\<lambda>record.
     bindC (parseApproval tr_code (fld record ''approval'')) (\<lambda>approval.
     case approval of None \<Rightarrow> failC tr_err
     | Some approval \<Rightarrow> bindC (tr_id E record) (\<lambda>identity. returnC (Approve identity approval))))"

definition captureRecordUnsupported :: "ext \<Rightarrow> fields \<Rightarrow> (err, grant_transition) capture" where
  "captureRecordUnsupported E captured =
     bindC (exactCapturedRecord captured [''type'', ''identity'', ''chainId'', ''recordedAt'', ''reason''] tr_err) (\<lambda>record.
     bindC (liftC (literal_of unsupported_reasons (fld record ''reason'') tr_err)) (\<lambda>reason.
     bindC (tr_id E record) (\<lambda>identity.
     bindC (liftC (g_safeInteger (fld record ''chainId'') tr_code 1)) (\<lambda>chainId.
     bindC (tr_time record ''recordedAt'') (\<lambda>recordedAt.
     returnC (Record_unsupported identity chainId recordedAt reason))))))"

text \<open>The transitions of one bound chain: with a time, with an operation and a time.\<close>

definition captureBound ::
    "ext \<Rightarrow> (grant_identity \<Rightarrow> chain_binding \<Rightarrow> int \<Rightarrow> grant_transition) \<Rightarrow> string \<Rightarrow> fields \<Rightarrow>
     (err, grant_transition) capture" where
  "captureBound E build key captured =
     bindC (exactCapturedRecord captured [''type'', ''identity'', ''binding'', key] tr_err) (\<lambda>record.
     bindC (tr_id E record) (\<lambda>identity.
     bindC (parseBinding E tr_code (fld record ''binding'')) (\<lambda>binding.
     bindC (tr_time record key) (\<lambda>time. returnC (build identity binding time)))))"

definition captureBoundOperation ::
    "ext \<Rightarrow> (grant_identity \<Rightarrow> chain_binding \<Rightarrow> string \<Rightarrow> int \<Rightarrow> grant_transition) \<Rightarrow> string \<Rightarrow> fields \<Rightarrow>
     (err, grant_transition) capture" where
  "captureBoundOperation E build key captured =
     bindC (exactCapturedRecord captured [''type'', ''identity'', ''binding'', ''operationId'', key] tr_err) (\<lambda>record.
     bindC (tr_id E record) (\<lambda>identity.
     bindC (parseBinding E tr_code (fld record ''binding'')) (\<lambda>binding.
     bindC (liftC (g_hash (fld record ''operationId'') tr_code)) (\<lambda>operationId.
     bindC (tr_time record key) (\<lambda>time. returnC (build identity binding operationId time))))))"

definition captureRecordInstalled :: "ext \<Rightarrow> fields \<Rightarrow> (err, grant_transition) capture" where
  "captureRecordInstalled E captured =
     bindC (exactCapturedRecord captured [''type'', ''identity'', ''binding'', ''operationId'', ''installation''] tr_err) (\<lambda>record.
     bindC (tr_id E record) (\<lambda>identity.
     bindC (parseBinding E tr_code (fld record ''binding'')) (\<lambda>binding.
     bindC (liftC (g_hash (fld record ''operationId'') tr_code)) (\<lambda>operationId.
     bindC (parsePermissionEvidence Permission_present E tr_code (fld record ''installation'')) (\<lambda>installation.
     returnC (Record_installed identity binding operationId installation))))))"

definition captureRecordUnreadable :: "ext \<Rightarrow> fields \<Rightarrow> (err, grant_transition) capture" where
  "captureRecordUnreadable E captured =
     bindC (exactCapturedRecord captured [''type'', ''identity'', ''binding'', ''observedAt'', ''reason''] tr_err) (\<lambda>record.
     bindC (liftC (literal_of unreadable_reasons (fld record ''reason'') tr_err)) (\<lambda>reason.
     bindC (tr_id E record) (\<lambda>identity.
     bindC (parseBinding E tr_code (fld record ''binding'')) (\<lambda>binding.
     bindC (tr_time record ''observedAt'') (\<lambda>observedAt.
     returnC (Record_unreadable identity binding observedAt reason))))))"

definition captureBeginRevocation :: "ext \<Rightarrow> fields \<Rightarrow> (err, grant_transition) capture" where
  "captureBeginRevocation E captured =
     bindC (exactCapturedRecord captured
              [''type'', ''identity'', ''revocationStartedAt'', ''targets'', ''installNonce''] tr_err) (\<lambda>record.
     bindC (tr_id E record) (\<lambda>identity.
     bindC (parseRevocationTargets E tr_code (fld record ''targets'')) (\<lambda>targets.
     bindC (liftC (g_uint256 (fld record ''installNonce'') tr_code)) (\<lambda>installNonce.
     bindC (tr_time record ''revocationStartedAt'') (\<lambda>revocationStartedAt.
     returnC (Begin_revocation identity targets installNonce revocationStartedAt))))))"

definition captureRecordChainRevoked :: "ext \<Rightarrow> fields \<Rightarrow> (err, grant_transition) capture" where
  "captureRecordChainRevoked E captured =
     bindC (exactCapturedRecord captured [''type'', ''identity'', ''binding'', ''removal''] tr_err) (\<lambda>record.
     bindC (tr_id E record) (\<lambda>identity.
     bindC (parseBinding E tr_code (fld record ''binding'')) (\<lambda>binding.
     bindC (parsePermissionEvidence Permission_absent E tr_code (fld record ''removal'')) (\<lambda>removal.
     returnC (Record_chain_revoked identity binding removal)))))"

definition captureRecordInvalidated :: "ext \<Rightarrow> fields \<Rightarrow> (err, grant_transition) capture" where
  "captureRecordInvalidated E captured =
     bindC (exactCapturedRecord captured [''type'', ''identity'', ''invalidation''] tr_err) (\<lambda>record.
     bindC (parseInvalidation tr_code (fld record ''invalidation'')) (\<lambda>invalidation.
     case invalidation of None \<Rightarrow> failC tr_err
     | Some invalidation \<Rightarrow>
         bindC (tr_id E record) (\<lambda>identity. returnC (Record_capability_invalidated identity invalidation))))"

definition captureRecordRevocationEvidence :: "ext \<Rightarrow> fields \<Rightarrow> (err, grant_transition) capture" where
  "captureRecordRevocationEvidence E captured =
     bindC (exactCapturedRecord captured [''type'', ''identity'', ''evidence''] tr_err) (\<lambda>record.
     bindC (tr_id E record) (\<lambda>identity.
     bindC (parseRevocationEvidence E tr_code (fld record ''evidence'')) (\<lambda>evidence.
     returnC (Record_revocation_evidence identity evidence))))"

definition parseGrantTransition :: "ext \<Rightarrow> jsval \<Rightarrow> (err, grant_transition) capture" where
  "parseGrantTransition E v =
     bindC (captureRecord v tr_err) (\<lambda>captured.
     let type = fld captured ''type'' in
     if type = JString ''reject'' then captureTimed E Reject ''rejectedAt'' captured
     else if type = JString ''approve'' then captureApprove E captured
     else if type = JString ''activate'' then captureTimed E Activate ''activatedAt'' captured
     else if type = JString ''expire'' then captureTimed E Expire ''expiredAt'' captured
     else if type = JString ''record_unsupported'' then captureRecordUnsupported E captured
     else if type = JString ''record_unmaterialized'' then captureBound E Record_unmaterialized ''recordedAt'' captured
     else if type = JString ''begin_materialization'' then
       captureBoundOperation E Begin_materialization ''startedAt'' captured
     else if type = JString ''abandon_materialization'' then
       captureBoundOperation E Abandon_materialization ''abandonedAt'' captured
     else if type = JString ''begin_chain_revocation'' then captureBound E Begin_chain_revocation ''startedAt'' captured
     else if type = JString ''record_installed'' then captureRecordInstalled E captured
     else if type = JString ''record_unreadable'' then captureRecordUnreadable E captured
     else if type = JString ''begin_revocation'' then captureBeginRevocation E captured
     else if type = JString ''record_chain_revoked'' then captureRecordChainRevoked E captured
     else if type = JString ''record_capability_invalidated'' then captureRecordInvalidated E captured
     else if type = JString ''record_revocation_evidence'' then captureRecordRevocationEvidence E captured
     else if type = JString ''complete_revocation'' then captureTimed E Complete_revocation ''revokedAt'' captured
     else failC tr_err)"

section \<open>Guards\<close>

definition sameApplication :: "application_binding \<Rightarrow> application_binding \<Rightarrow> bool" where
  "sameApplication left right \<longleftrightarrow>
     ab_applicationId left = ab_applicationId right \<and> ab_clientId left = ab_clientId right \<and>
     ab_origin left = ab_origin right \<and> ab_deviceId left = ab_deviceId right"

definition sameGrantIdentity :: "grant_identity \<Rightarrow> grant_identity \<Rightarrow> bool" where
  "sameGrantIdentity left right \<longleftrightarrow>
     gi_grantId left = gi_grantId right \<and>
     sameApplication (gi_application left) (gi_application right) \<and>
     sameKernelAccountProfile (gi_logicalAccount left) (gi_logicalAccount right) \<and>
     sameOperatorCredentialProfile (gi_operatorCredential left) (gi_operatorCredential right) \<and>
     gi_policyHash left = gi_policyHash right"

definition sameBinding :: "chain_binding \<Rightarrow> chain_binding \<Rightarrow> bool" where
  "sameBinding left right \<longleftrightarrow>
     cb_chainId left = cb_chainId right \<and> cb_account left = cb_account right \<and>
     cb_permissionId left = cb_permissionId right"

definition nextGrantRevision :: "grant \<Rightarrow> err + int" where
  "nextGrantRevision g =
     (if g_revision g = MAX_SAFE_INTEGER then Inl (g_err Grant_revision_exhausted) else Inr (g_revision g + 1))"

definition requireGrantIdentity :: "grant \<Rightarrow> grant_identity \<Rightarrow> err + unit" where
  "requireGrantIdentity g identity =
     guardE (sameGrantIdentity (g_identity g) identity) (g_err Grant_identity_mismatch)"

definition requireGrantTime :: "grant \<Rightarrow> int \<Rightarrow> err + unit" where
  "requireGrantTime g time = guardE (\<not> time < g_updatedAt g) tr_err"

definition requireBeforeExpiry :: "grant \<Rightarrow> int \<Rightarrow> err + unit" where
  "requireBeforeExpiry g time =
     bindE (requireGrantTime g time) (\<lambda>_. guardE (\<not> time \<ge> g_expiresAt g) tr_err)"

definition requireMaterializationTime :: "materialization \<Rightarrow> int \<Rightarrow> err + unit" where
  "requireMaterializationTime m time = guardE (\<not> time < m_updatedAt m) tr_err"

abbreviation forbidden :: err where
  "forbidden \<equiv> OaathGrantError Grant_transition_forbidden"

abbreviation mismatch :: err where
  "mismatch \<equiv> OaathGrantError Grant_identity_mismatch"

definition advanceGrantRecord :: "ext \<Rightarrow> grant \<Rightarrow> grant \<Rightarrow> err + grant" where
  "advanceGrantRecord E g changed =
     bindE (nextGrantRevision g) (\<lambda>revision.
     parseGrant E (grant_literal [] (changed\<lparr>g_revision := revision\<rparr>)))"

definition materializationForChain :: "grant \<Rightarrow> int \<Rightarrow> materialization option" where
  "materializationForChain g chainId = find (\<lambda>entry. m_chainId entry = chainId) (g_materializations g)"

definition requireBoundMaterialization :: "grant \<Rightarrow> chain_binding \<Rightarrow> err + materialization" where
  "requireBoundMaterialization g binding =
     (case materializationForChain g (cb_chainId binding) of
        None \<Rightarrow> Inl forbidden
      | Some m \<Rightarrow> (if is_unsupported m then Inl forbidden
                   else if \<not> sameBinding (m_binding m) binding then Inl mismatch
                   else Inr m))"

definition withMaterialization :: "grant \<Rightarrow> materialization \<Rightarrow> materialization list" where
  "withMaterialization g m =
     (let next = g_materializations g;
          index = length (takeWhile (\<lambda>entry. m_chainId entry \<noteq> m_chainId m) next);
          next = (if index = length next then next @ [m] else next[index := m]) in
      sort_key m_chainId next)"

definition retainedInstallation :: "materialization \<Rightarrow> permission_evidence option" where
  "retainedInstallation m =
     (case m of Installed _ _ _ i \<Rightarrow> Some i | Revoking _ _ _ i _ \<Rightarrow> i | Revoked _ _ _ i _ \<Rightarrow> Some i
      | Unreadable _ _ _ _ i _ \<Rightarrow> i | _ \<Rightarrow> None)"

definition requireEvidenceBinding :: "chain_binding \<Rightarrow> chain_binding \<Rightarrow> err + unit" where
  "requireEvidenceBinding evidence binding = guardE (sameBinding evidence binding) mismatch"

definition requireNonRegressingPresence :: "permission_evidence option \<Rightarrow> permission_evidence \<Rightarrow> err + unit" where
  "requireNonRegressingPresence prior next =
     guardE (\<not> (case prior of None \<Rightarrow> False
                 | Some p \<Rightarrow> BigInt (pe_blockNumber next) < BigInt (pe_blockNumber p) \<or>
                     (pe_blockNumber next = pe_blockNumber p \<and> pe_blockHash next \<noteq> pe_blockHash p))) tr_err"

section \<open>The transition of a captured Grant\<close>

text \<open>
  \<open>installingOrPresent\<close>: the states a chain may be found installed from, or may start its removal
  from. \<open>grantChanges\<close> gives the Grant with the changes of the transition, before the revision.
\<close>

definition installingOrPresent :: "materialization \<Rightarrow> bool" where
  "installingOrPresent m =
     (case m of Installing _ _ _ _ \<Rightarrow> True | Installed _ _ _ _ \<Rightarrow> True
      | Unreadable _ _ _ prior _ _ \<Rightarrow> prior \<noteq> PriorRevoking | _ \<Rightarrow> False)"

definition recordUnmaterialized :: "grant \<Rightarrow> chain_binding \<Rightarrow> int \<Rightarrow> err + grant" where
  "recordUnmaterialized g binding recordedAt =
     bindE (guardE (g_state g = GActive) forbidden) (\<lambda>_.
     bindE (requireBeforeExpiry g recordedAt) (\<lambda>_.
     bindE (case materializationForChain g (cb_chainId binding) of
              None \<Rightarrow> Inr ()
            | Some (Unsupported _ _ _) \<Rightarrow> Inr ()
            | Some (Unmaterialized b _) \<Rightarrow> guardE (sameBinding b binding) mismatch
            | Some _ \<Rightarrow> Inl forbidden) (\<lambda>_.
     Inr (g\<lparr>g_updatedAt := recordedAt,
            g_materializations := withMaterialization g (Unmaterialized binding recordedAt)\<rparr>))))"

definition recordInstalled :: "grant \<Rightarrow> chain_binding \<Rightarrow> string \<Rightarrow> permission_evidence \<Rightarrow> err + grant" where
  "recordInstalled g binding operationId installation =
     bindE (guardE (g_state g = GActive \<or> g_state g = GRevoking) forbidden) (\<lambda>_.
     bindE (requireBoundMaterialization g binding) (\<lambda>current.
     bindE (guardE (installingOrPresent current) forbidden) (\<lambda>_.
     bindE (guardE (m_operationId current = operationId) mismatch) (\<lambda>_.
     bindE (requireEvidenceBinding (pe_binding installation) binding) (\<lambda>_.
     bindE (requireMaterializationTime current (pe_observedAt installation)) (\<lambda>_.
     bindE (guardE (\<not> (g_state g = GActive \<and> pe_observedAt installation \<ge> g_expiresAt g)) tr_err) (\<lambda>_.
     bindE (requireNonRegressingPresence (retainedInstallation current) installation) (\<lambda>_.
     Inr (g\<lparr>g_updatedAt := max (g_updatedAt g) (pe_observedAt installation),
            g_materializations := withMaterialization g
              (Installed binding (pe_observedAt installation) operationId installation)\<rparr>)))))))))"

definition unreadablePrior :: "materialization \<Rightarrow> err + prior_state" where
  "unreadablePrior current =
     (case current of
        Installing _ _ _ _ \<Rightarrow> Inr PriorInstalling
      | Installed _ _ _ _ \<Rightarrow> Inr PriorInstalled
      | Revoking _ _ _ _ _ \<Rightarrow> Inr PriorRevoking
      | Unreadable _ _ _ prior _ _ \<Rightarrow> Inr prior
      | _ \<Rightarrow> Inl forbidden)"

definition recordUnreadable :: "grant \<Rightarrow> chain_binding \<Rightarrow> int \<Rightarrow> unreadable_reason \<Rightarrow> err + grant" where
  "recordUnreadable g binding observedAt reason =
     bindE (guardE (g_state g = GActive \<or> g_state g = GRevoking) forbidden) (\<lambda>_.
     bindE (requireBoundMaterialization g binding) (\<lambda>current.
     bindE (unreadablePrior current) (\<lambda>priorState.
     bindE (requireMaterializationTime current observedAt) (\<lambda>_.
     bindE (guardE (\<not> (g_state g = GActive \<and> observedAt \<ge> g_expiresAt g)) tr_err) (\<lambda>_.
     Inr (g\<lparr>g_updatedAt := max (g_updatedAt g) observedAt,
            g_materializations := withMaterialization g
              (Unreadable binding observedAt (m_operationId current) priorState (retainedInstallation current)
                 reason)\<rparr>))))))"

definition recordChainRevoked :: "grant \<Rightarrow> chain_binding \<Rightarrow> permission_evidence \<Rightarrow> err + grant" where
  "recordChainRevoked g binding removal =
     bindE (guardE (g_state g = GRevoking) forbidden) (\<lambda>_.
     bindE (requireEvidenceBinding (pe_binding removal) binding) (\<lambda>_.
     bindE (requireBoundMaterialization g binding) (\<lambda>current.
     bindE (guardE (case current of Revoking _ _ _ _ _ \<Rightarrow> True
                    | Unreadable _ _ _ prior _ _ \<Rightarrow> prior = PriorRevoking | _ \<Rightarrow> False) forbidden) (\<lambda>_.
     bindE (requireMaterializationTime current (pe_observedAt removal)) (\<lambda>_.
     case retainedInstallation current of
       None \<Rightarrow> Inl forbidden
     | Some installation \<Rightarrow>
         bindE (guardE (\<not> BigInt (pe_blockNumber removal) \<le> BigInt (pe_blockNumber installation)) tr_err) (\<lambda>_.
         Inr (g\<lparr>g_updatedAt := max (g_updatedAt g) (pe_observedAt removal),
                g_materializations := withMaterialization g
                  (Revoked binding (pe_observedAt removal) (m_operationId current) installation removal)\<rparr>)))))))"

definition recordRevocationEvidence :: "grant \<Rightarrow> revocation_evidence \<Rightarrow> err + grant" where
  "recordRevocationEvidence g proof =
     bindE (guardE (g_state g = GRevoking) forbidden) (\<lambda>_.
     case g_revocation g of
       None \<Rightarrow> Inl forbidden
     | Some revocation \<Rightarrow>
    (case find (\<lambda>entry. cb_chainId entry = cb_chainId (re_binding proof)) (gr_targets revocation) of
       None \<Rightarrow> Inl mismatch
     | Some target \<Rightarrow>
     bindE (guardE (evidenceMatchesBinding (re_binding proof) target) mismatch) (\<lambda>_.
     bindE (guardE (\<not> list_ex (\<lambda>entry. cb_chainId (re_binding entry) = cb_chainId target)
                        (gr_evidence revocation)) forbidden) (\<lambda>_.
     bindE (guardE (nonceConsumed (gr_installNonce revocation) (re_installNonce proof)) tr_err) (\<lambda>_.
     bindE (guardE (\<not> pe_observedAt (re_permission proof) < some_or 0 (g_revocationStartedAt g)) tr_err) (\<lambda>_.
     Inr (g\<lparr>g_updatedAt := max (g_updatedAt g) (pe_observedAt (re_permission proof)),
            g_revocation := Some (revocation\<lparr>gr_evidence :=
              sort_key (\<lambda>e. cb_chainId (re_binding e)) (gr_evidence revocation @ [proof])\<rparr>)\<rparr>)))))))"

definition grantChanges :: "grant \<Rightarrow> grant_transition \<Rightarrow> err + grant" where
  "grantChanges g transition =
     (case transition of
        Reject _ rejectedAt \<Rightarrow>
          bindE (guardE (g_state g = GRequested) forbidden) (\<lambda>_.
          bindE (requireBeforeExpiry g rejectedAt) (\<lambda>_.
          Inr (g\<lparr>g_state := GRejected, g_updatedAt := rejectedAt, g_terminal := Some (TRejected rejectedAt)\<rparr>)))
      | Approve _ approval \<Rightarrow>
          bindE (guardE (g_state g = GRequested) forbidden) (\<lambda>_.
          bindE (requireBeforeExpiry g (ap_approvedAt approval)) (\<lambda>_.
          Inr (g\<lparr>g_state := GApproved, g_updatedAt := ap_approvedAt approval, g_approval := Some approval\<rparr>)))
      | Activate _ activatedAt \<Rightarrow>
          bindE (guardE (g_state g = GApproved) forbidden) (\<lambda>_.
          bindE (requireBeforeExpiry g activatedAt) (\<lambda>_.
          Inr (g\<lparr>g_state := GActive, g_updatedAt := activatedAt, g_activatedAt := Some activatedAt\<rparr>)))
      | Expire _ expiredAt \<Rightarrow>
          bindE (guardE (\<not> (g_state g = GRejected \<or> g_state g = GRevoked \<or> g_state g = GExpired)) forbidden) (\<lambda>_.
          bindE (requireGrantTime g expiredAt) (\<lambda>_.
          bindE (guardE (\<not> expiredAt < g_expiresAt g) tr_err) (\<lambda>_.
          Inr (g\<lparr>g_state := GExpired, g_updatedAt := expiredAt,
                 g_terminal := Some (TExpired (g_state g) expiredAt)\<rparr>))))
      | Record_unsupported _ chainId recordedAt reason \<Rightarrow>
          bindE (guardE (g_state g = GActive) forbidden) (\<lambda>_.
          bindE (requireBeforeExpiry g recordedAt) (\<lambda>_.
          bindE (case materializationForChain g chainId of None \<Rightarrow> Inr ()
                 | Some m \<Rightarrow> guardE (is_unsupported m) forbidden) (\<lambda>_.
          Inr (g\<lparr>g_updatedAt := recordedAt,
                 g_materializations := withMaterialization g (Unsupported chainId recordedAt reason)\<rparr>))))
      | Record_unmaterialized _ binding recordedAt \<Rightarrow> recordUnmaterialized g binding recordedAt
      | Begin_materialization _ binding operationId startedAt \<Rightarrow>
          bindE (guardE (g_state g = GActive) forbidden) (\<lambda>_.
          bindE (requireBeforeExpiry g startedAt) (\<lambda>_.
          bindE (requireBoundMaterialization g binding) (\<lambda>current.
          bindE (guardE (case current of Unmaterialized _ _ \<Rightarrow> True | _ \<Rightarrow> False) forbidden) (\<lambda>_.
          Inr (g\<lparr>g_updatedAt := startedAt,
                 g_materializations := withMaterialization g (Installing binding startedAt operationId startedAt)\<rparr>)))))
      | Abandon_materialization _ binding operationId abandonedAt \<Rightarrow>
          bindE (guardE (g_state g = GActive \<or> g_state g = GRevoking) forbidden) (\<lambda>_.
          bindE (requireGrantTime g abandonedAt) (\<lambda>_.
          bindE (requireBoundMaterialization g binding) (\<lambda>current.
          bindE (guardE (case current of Installing _ _ _ _ \<Rightarrow> True | _ \<Rightarrow> False) forbidden) (\<lambda>_.
          bindE (guardE (m_operationId current = operationId) mismatch) (\<lambda>_.
          Inr (g\<lparr>g_updatedAt := abandonedAt,
                 g_materializations := withMaterialization g (Unmaterialized binding abandonedAt)\<rparr>))))))
      | Record_installed _ binding operationId installation \<Rightarrow> recordInstalled g binding operationId installation
      | Record_unreadable _ binding observedAt reason \<Rightarrow> recordUnreadable g binding observedAt reason
      | Begin_revocation _ targets installNonce revocationStartedAt \<Rightarrow>
          bindE (guardE (g_state g = GActive) forbidden) (\<lambda>_.
          bindE (requireBeforeExpiry g revocationStartedAt) (\<lambda>_.
          Inr (g\<lparr>g_state := GRevoking, g_updatedAt := revocationStartedAt,
                 g_revocationStartedAt := Some revocationStartedAt,
                 g_revocation := Some \<lparr>gr_targets = targets, gr_installNonce = installNonce, gr_evidence = []\<rparr>\<rparr>)))
      | Begin_chain_revocation _ binding startedAt \<Rightarrow>
          bindE (guardE (g_state g = GRevoking) forbidden) (\<lambda>_.
          bindE (requireGrantTime g startedAt) (\<lambda>_.
          bindE (requireBoundMaterialization g binding) (\<lambda>current.
          bindE (guardE (installingOrPresent current) forbidden) (\<lambda>_.
          Inr (g\<lparr>g_updatedAt := startedAt,
                 g_materializations := withMaterialization g
                   (Revoking binding startedAt (m_operationId current) (retainedInstallation current) startedAt)\<rparr>)))))
      | Record_chain_revoked _ binding removal \<Rightarrow> recordChainRevoked g binding removal
      | Record_capability_invalidated _ invalidation \<Rightarrow>
          bindE (guardE (g_state g = GRevoking \<and> g_capabilityInvalidation g = None) forbidden) (\<lambda>_.
          bindE (requireGrantTime g (inv_invalidatedAt invalidation)) (\<lambda>_.
          bindE (guardE (Some (inv_capabilityHash invalidation) = map_option ap_capabilityHash (g_approval g)) mismatch) (\<lambda>_.
          Inr (g\<lparr>g_updatedAt := inv_invalidatedAt invalidation, g_capabilityInvalidation := Some invalidation\<rparr>))))
      | Record_revocation_evidence _ proof \<Rightarrow> recordRevocationEvidence g proof
      | Complete_revocation _ revokedAt \<Rightarrow>
          bindE (guardE (g_state g = GRevoking) forbidden) (\<lambda>_.
          bindE (requireGrantTime g revokedAt) (\<lambda>_.
          bindE (guardE (g_capabilityInvalidation g \<noteq> None \<and> revocationComplete (g_revocation g) \<and>
                         list_all settled (g_materializations g)) forbidden) (\<lambda>_.
          Inr (g\<lparr>g_state := GRevoked, g_updatedAt := revokedAt, g_terminal := Some (TRevoked revokedAt)\<rparr>)))))"

definition advanceParsedGrant :: "ext \<Rightarrow> grant \<Rightarrow> grant_transition \<Rightarrow> err + grant" where
  "advanceParsedGrant E g transition =
     bindE (requireGrantIdentity g (tr_identity transition)) (\<lambda>_.
     bindE (grantChanges g transition) (\<lambda>changed. advanceGrantRecord E g changed))"

definition advanceGrant :: "ext \<Rightarrow> jsval \<Rightarrow> jsval \<Rightarrow> err + grant" where
  "advanceGrant E v transitionValue =
     bindE (parseGrant E v) (\<lambda>g.
     bindE (runC (parseGrantTransition E transitionValue)) (\<lambda>transition.
     advanceParsedGrant E g transition))"

end
