(* ===== verification/Grant_Invariant.thy ===== *)
theory Grant_Invariant
  imports Grant_Machine "HOL-Library.Multiset"
begin

text \<open>
  The Grant record's invariant under its transitions. \<open>putMaterialization\<close> is the shape every
  transition of one chain has; its lemmas (order, members, times, least revision) are proved once and
  the transitions differ only in the materialization they put.
\<close>

section \<open>Transitions are parsed well-formed\<close>

fun wf_transition :: "ext \<Rightarrow> grant_transition \<Rightarrow> bool" where
  "wf_transition E (Reject i t) = (wf_identity E i \<and> int_ok 0 t)"
| "wf_transition E (Approve i a) = (wf_identity E i \<and> wf_approval a)"
| "wf_transition E (Activate i t) = (wf_identity E i \<and> int_ok 0 t)"
| "wf_transition E (Expire i t) = (wf_identity E i \<and> int_ok 0 t)"
| "wf_transition E (Record_unsupported i c t r) = (wf_identity E i \<and> int_ok 1 c \<and> int_ok 0 t)"
| "wf_transition E (Record_unmaterialized i b t) = (wf_identity E i \<and> wf_binding b \<and> int_ok 0 t)"
| "wf_transition E (Begin_materialization i b oid t) = (wf_identity E i \<and> wf_binding b \<and> lower_hex 64 oid \<and> int_ok 0 t)"
| "wf_transition E (Abandon_materialization i b oid t) = (wf_identity E i \<and> wf_binding b \<and> lower_hex 64 oid \<and> int_ok 0 t)"
| "wf_transition E (Record_installed i b oid e) =
     (wf_identity E i \<and> wf_binding b \<and> lower_hex 64 oid \<and> evidence_of Permission_present e)"
| "wf_transition E (Record_unreadable i b t r) = (wf_identity E i \<and> wf_binding b \<and> int_ok 0 t)"
| "wf_transition E (Begin_revocation i ts n t) = (wf_identity E i \<and> wf_targets ts \<and> uint256_string n \<and> int_ok 0 t)"
| "wf_transition E (Begin_chain_revocation i b t) = (wf_identity E i \<and> wf_binding b \<and> int_ok 0 t)"
| "wf_transition E (Record_chain_revoked i b e) = (wf_identity E i \<and> wf_binding b \<and> evidence_of Permission_absent e)"
| "wf_transition E (Record_capability_invalidated i v) = (wf_identity E i \<and> wf_invalidation v)"
| "wf_transition E (Record_revocation_evidence i e) = (wf_identity E i \<and> wf_revocation_evidence e)"
| "wf_transition E (Complete_revocation i t) = (wf_identity E i \<and> int_ok 0 t)"

lemma tr_id_sound: "ext_ok E \<Longrightarrow> tr_id E record c = Inr (i, c') \<Longrightarrow> wf_identity E i"
  unfolding tr_id_def by (rule parseIdentity_sound)

lemma tr_time_sound: "tr_time record k c = Inr (t, c') \<Longrightarrow> int_ok 0 t"
  by (simp add: tr_time_def g_field_defs)

lemma captureTimed_sound:
  assumes "ext_ok E" "captureTimed E build k captured c = Inr (t, c')"
  obtains i n where "t = build i n" "wf_identity E i" "int_ok 0 n"
  using assms(2) unfolding captureTimed_def
  by (elim bindC_InrE) (auto dest: tr_id_sound [OF assms(1)] tr_time_sound intro: that)

lemma captureBound_sound:
  assumes "ext_ok E" "captureBound E build k captured c = Inr (t, c')"
  obtains i b n where "t = build i b n" "wf_identity E i" "wf_binding b" "int_ok 0 n"
  using assms(2) unfolding captureBound_def
  by (elim bindC_InrE)
    (auto dest: tr_id_sound [OF assms(1)] tr_time_sound parseBinding_sound [OF assms(1)] intro: that)

lemma captureBoundOperation_sound:
  assumes "ext_ok E" "captureBoundOperation E build k captured c = Inr (t, c')"
  obtains i b oid n where "t = build i b oid n" "wf_identity E i" "wf_binding b" "lower_hex 64 oid" "int_ok 0 n"
  using assms(2) unfolding captureBoundOperation_def
  by (elim bindC_InrE)
    (auto simp: g_field_defs dest: tr_id_sound [OF assms(1)] tr_time_sound parseBinding_sound [OF assms(1)] intro: that)

lemma capture_transitions_sound:
  assumes "ext_ok E"
  shows "captureApprove E captured c = Inr (t, c') \<Longrightarrow> wf_transition E t"
    and "captureRecordUnsupported E captured c = Inr (t, c') \<Longrightarrow> wf_transition E t"
    and "captureRecordInstalled E captured c = Inr (t, c') \<Longrightarrow> wf_transition E t"
    and "captureRecordUnreadable E captured c = Inr (t, c') \<Longrightarrow> wf_transition E t"
    and "captureBeginRevocation E captured c = Inr (t, c') \<Longrightarrow> wf_transition E t"
    and "captureRecordChainRevoked E captured c = Inr (t, c') \<Longrightarrow> wf_transition E t"
    and "captureRecordInvalidated E captured c = Inr (t, c') \<Longrightarrow> wf_transition E t"
    and "captureRecordRevocationEvidence E captured c = Inr (t, c') \<Longrightarrow> wf_transition E t"
  unfolding captureApprove_def captureRecordUnsupported_def captureRecordInstalled_def captureRecordUnreadable_def
    captureBeginRevocation_def captureRecordChainRevoked_def captureRecordInvalidated_def
    captureRecordRevocationEvidence_def parseApproval_def parseInvalidation_def
  by (elim bindC_InrE nullableC_InrE; auto simp: g_field_defs elim!: bindC_InrE
      dest!: tr_id_sound [OF assms] tr_time_sound parseBinding_sound [OF assms] captureApproval_sound
        captureInvalidation_sound parsePermissionEvidence_sound [OF assms] parseRevocationTargets_sound [OF assms]
        parseRevocationEvidence_sound [OF assms])+

lemma parseGrantTransition_sound:
  assumes "ext_ok E" and "parseGrantTransition E v c = Inr (t, c')"
  shows "wf_transition E t"
  using assms(2) unfolding parseGrantTransition_def Let_def
  by (elim bindC_InrE)
    (auto split: if_splits dest: capture_transitions_sound [OF assms(1)]
      elim!: captureTimed_sound [OF assms(1)] captureBound_sound [OF assms(1)] captureBoundOperation_sound [OF assms(1)])

section \<open>Comparisons\<close>

lemma sameBinding_iff [simp]: "sameBinding a b \<longleftrightarrow> a = b"
  by (auto simp: sameBinding_def intro: chain_binding.equality)

lemma sameApplication_iff [simp]: "sameApplication a b \<longleftrightarrow> a = b"
  by (auto simp: sameApplication_def intro: application_binding.equality)

lemma sameGrantIdentity_iff [simp]: "sameGrantIdentity a b \<longleftrightarrow> a = b"
  by (auto simp: sameGrantIdentity_def intro: grant_identity.equality)

lemma retainedInstallation_eq [simp]: "retainedInstallation m = m_installation m"
  by (simp add: retainedInstallation_def m_installation_def split: materialization.splits)

section \<open>Putting a materialization\<close>

definition others :: "grant \<Rightarrow> materialization \<Rightarrow> materialization list" where
  "others g m = filter (\<lambda>x. m_chainId x \<noteq> m_chainId m) (g_materializations g)"

lemma find_key_split:
  assumes "find (\<lambda>x. f x = k) xs = Some y" and "distinct (map f xs)"
  obtains us vs where "xs = us @ y # vs" "f y = k" "\<forall>x\<in>set us \<union> set vs. f x \<noteq> k"
    "takeWhile (\<lambda>x. f x \<noteq> k) xs = us"
proof -
  from assms(1) obtain i where i: "i < length xs" "f (xs ! i) = k" "y = xs ! i" "\<forall>j<i. f (xs ! j) \<noteq> k"
    by (auto simp: find_Some_iff)
  define us vs where "us = take i xs" and "vs = drop (Suc i) xs"
  have xs: "xs = us @ y # vs" using i(1,3) by (simp add: us_def vs_def id_take_nth_drop)
  have us: "\<forall>x\<in>set us. f x \<noteq> k" using i(1,4) by (fastforce simp: us_def in_set_conv_nth)
  moreover have "\<forall>x\<in>set vs. f x \<noteq> k" using assms(2) i(2,3) unfolding xs by (auto simp: rev_image_eqI)
  moreover have "takeWhile (\<lambda>x. f x \<noteq> k) xs = us"
    using us i(2,3) unfolding xs by (simp add: takeWhile_append2)
  ultimately show ?thesis using that xs i(2,3) by blast
qed

lemma withMaterialization_mset:
  assumes "distinct (map m_chainId (g_materializations g))"
  shows "mset (withMaterialization g m) = add_mset m (mset (others g m))"
proof (cases "materializationForChain g (m_chainId m)")
  case None
  then have no: "\<forall>x\<in>set (g_materializations g). m_chainId x \<noteq> m_chainId m"
    by (auto simp: materializationForChain_def find_None_iff)
  then have "length (takeWhile (\<lambda>x. m_chainId x \<noteq> m_chainId m) (g_materializations g)) = length (g_materializations g)"
    and "others g m = g_materializations g"
    by (auto simp: others_def takeWhile_eq_all_conv [THEN iffD2])
  then show ?thesis by (simp only: withMaterialization_def Let_def mset_sort if_True refl) simp
next
  case (Some y)
  then obtain us vs where "g_materializations g = us @ y # vs" "m_chainId y = m_chainId m"
    "\<forall>x\<in>set us \<union> set vs. m_chainId x \<noteq> m_chainId m"
    "takeWhile (\<lambda>x. m_chainId x \<noteq> m_chainId m) (g_materializations g) = us"
    using find_key_split [of m_chainId "m_chainId m" "g_materializations g" y] assms
    by (auto simp: materializationForChain_def)
  then show ?thesis by (simp add: withMaterialization_def others_def Let_def)
qed

lemma withMaterialization_set:
  "distinct (map m_chainId (g_materializations g)) \<Longrightarrow> set (withMaterialization g m) = insert m (set (others g m))"
  using withMaterialization_mset [of g m] by (metis set_mset_add_mset_insert set_mset_mset)

lemma withMaterialization_sorted:
  assumes "sorted_wrt (<) (map m_chainId (g_materializations g))"
  shows "sorted_wrt (<) (map m_chainId (withMaterialization g m))"
proof -
  have d: "distinct (map m_chainId (g_materializations g))" by (rule sorted_less_distinct [OF assms])
  have "mset (map m_chainId (withMaterialization g m)) = mset (map m_chainId (m # others g m))"
    by (simp only: mset_map withMaterialization_mset [OF d]) simp
  moreover have "distinct (map m_chainId (m # others g m))"
    using d by (auto simp: others_def distinct_map inj_on_def)
  ultimately have "distinct (map m_chainId (withMaterialization g m))"
    using mset_eq_imp_distinct_iff by blast
  moreover have "sorted (map m_chainId (withMaterialization g m))"
    by (simp add: withMaterialization_def Let_def)
  ultimately show ?thesis by (simp add: strict_sorted_iff)
qed

lemma sumChildCosts_eq:
  "sumChildCosts f ms = (if \<forall>m\<in>set ms. f m \<noteq> None then Some (\<Sum>m\<in>#mset ms. the (f m)) else None)"
  by (induction ms) (auto split: option.splits)

lemma sumChildCosts_Some:
  "sumChildCosts f ms = Some s \<longleftrightarrow> (\<forall>m\<in>set ms. f m \<noteq> None) \<and> s = (\<Sum>m\<in>#mset ms. the (f m))"
  by (auto simp: sumChildCosts_eq)

text \<open>The least revision grows by at most one: the cost of the new entry exceeds the old one's by at most one.\<close>

lemma withMaterialization_cost:
  assumes "distinct (map m_chainId (g_materializations g))"
    and "sumChildCosts f (g_materializations g) = Some s" and "f m = Some k"
    and "k \<le> (case materializationForChain g (m_chainId m) of None \<Rightarrow> 1 | Some old \<Rightarrow> the (f old) + 1)"
  shows "\<exists>s'. sumChildCosts f (withMaterialization g m) = Some s' \<and> s' \<le> s + 1"
proof -
  let ?o = "others g m"
  have s: "\<forall>x\<in>set (g_materializations g). f x \<noteq> None" "s = (\<Sum>x\<in>#mset (g_materializations g). the (f x))"
    using assms(2) by (auto simp: sumChildCosts_Some)
  have "k + (\<Sum>x\<in>#mset ?o. the (f x)) \<le> s + 1"
  proof (cases "materializationForChain g (m_chainId m)")
    case None
    then have "?o = g_materializations g"
      by (auto simp: materializationForChain_def find_None_iff others_def filter_id_conv)
    with None assms(4) s(2) show ?thesis by simp
  next
    case (Some y)
    then obtain us vs where "g_materializations g = us @ y # vs" "m_chainId y = m_chainId m"
      "\<forall>x\<in>set us \<union> set vs. m_chainId x \<noteq> m_chainId m"
      using find_key_split [of m_chainId "m_chainId m" "g_materializations g" y] assms(1)
      by (auto simp: materializationForChain_def)
    with Some assms(4) s(2) show ?thesis by (simp add: others_def)
  qed
  moreover have "sumChildCosts f (withMaterialization g m) = Some (k + (\<Sum>x\<in>#mset ?o. the (f x)))"
    using s(1) assms(3)
    by (auto simp: sumChildCosts_Some withMaterialization_set [OF assms(1)] withMaterialization_mset [OF assms(1)]
        others_def)
  ultimately show ?thesis by blast
qed

section \<open>The latest time\<close>

definition grant_times :: "grant \<Rightarrow> int set" where
  "grant_times g =
     {g_requestedAt g, some_or 0 (map_option ap_approvedAt (g_approval g)), some_or 0 (g_activatedAt g),
      some_or 0 (g_revocationStartedAt g), some_or 0 (map_option inv_invalidatedAt (g_capabilityInvalidation g)),
      some_or 0 (map_option t_recordedAt (g_terminal g))} \<union>
     m_updatedAt ` set (g_materializations g) \<union> (\<lambda>e. pe_observedAt (re_permission e)) ` set (revocation_entries g)"

lemma foldl_max_ub: "a \<le> foldl (\<lambda>l x. max l (f x)) (a :: int) xs \<and> (\<forall>x\<in>set xs. f x \<le> foldl (\<lambda>l x. max l (f x)) a xs)"
  by (induction xs arbitrary: a) (auto simp: max_def intro: order_trans split: if_splits, (meson order_trans linear)+)

lemma foldl_max_in: "foldl (\<lambda>l x. max l (f x)) (a :: int) xs \<in> insert a (f ` set xs)"
  by (induction xs arbitrary: a) (simp, fastforce simp: max_def split: if_splits)

lemma latestGrantTime_bounds: "latestGrantTime g \<in> grant_times g \<and> (\<forall>t\<in>grant_times g. t \<le> latestGrantTime g)"
proof -
  define l1 where "l1 = foldl max (g_requestedAt g)
      [some_or 0 (map_option ap_approvedAt (g_approval g)), some_or 0 (g_activatedAt g),
       some_or 0 (g_revocationStartedAt g), some_or 0 (map_option inv_invalidatedAt (g_capabilityInvalidation g)),
       some_or 0 (map_option t_recordedAt (g_terminal g))]"
  define l2 where "l2 = foldl (\<lambda>l m. max l (m_updatedAt m)) l1 (g_materializations g)"
  have l3: "latestGrantTime g = foldl (\<lambda>l e. max l (pe_observedAt (re_permission e))) l2 (revocation_entries g)"
    unfolding latestGrantTime_def Let_def l1_def l2_def by (rule refl)
  note ub1 = foldl_max_ub [of "g_requestedAt g" "\<lambda>x. x"
      "[some_or 0 (map_option ap_approvedAt (g_approval g)), some_or 0 (g_activatedAt g),
       some_or 0 (g_revocationStartedAt g), some_or 0 (map_option inv_invalidatedAt (g_capabilityInvalidation g)),
       some_or 0 (map_option t_recordedAt (g_terminal g))]", folded l1_def]
  note in1 = foldl_max_in [of "\<lambda>x. x" "g_requestedAt g"
      "[some_or 0 (map_option ap_approvedAt (g_approval g)), some_or 0 (g_activatedAt g),
       some_or 0 (g_revocationStartedAt g), some_or 0 (map_option inv_invalidatedAt (g_capabilityInvalidation g)),
       some_or 0 (map_option t_recordedAt (g_terminal g))]", folded l1_def]
  note ub2 = foldl_max_ub [of l1 m_updatedAt "g_materializations g", folded l2_def]
  note in2 = foldl_max_in [of m_updatedAt l1 "g_materializations g", folded l2_def]
  note ub3 = foldl_max_ub [of l2 "\<lambda>e. pe_observedAt (re_permission e)" "revocation_entries g", folded l3]
  note in3 = foldl_max_in [of "\<lambda>e. pe_observedAt (re_permission e)" l2 "revocation_entries g", folded l3]
  have "latestGrantTime g \<in> grant_times g"
    using in1 in2 in3 unfolding grant_times_def by auto
  moreover have "\<forall>t\<in>grant_times g. t \<le> latestGrantTime g"
  proof -
    have "l1 \<le> latestGrantTime g" "l2 \<le> latestGrantTime g" using ub2 ub3 by auto
    with ub1 ub2 ub3 show ?thesis unfolding grant_times_def by auto
  qed
  ultimately show ?thesis by blast
qed

lemma latestGrantTime_iff: "latestGrantTime g = u \<longleftrightarrow> u \<in> grant_times g \<and> (\<forall>t\<in>grant_times g. t \<le> u)"
  using latestGrantTime_bounds [of g] by (metis order_antisym)

lemma latestGrantTime_revision [simp]: "latestGrantTime (g\<lparr>g_revision := n\<rparr>) = latestGrantTime g"
  by (simp add: latestGrantTime_def revocation_entries_def)

section \<open>Putting an admissible materialization keeps the record well-formed\<close>

definition putMaterialization :: "grant \<Rightarrow> materialization \<Rightarrow> grant" where
  "putMaterialization g m =
     g\<lparr>g_updatedAt := max (g_updatedAt g) (m_updatedAt m), g_materializations := withMaterialization g m\<rparr>"

definition live :: "grant \<Rightarrow> bool" where
  "live g \<longleftrightarrow> g_state g = GActive \<or> g_state g = GRevoking"

definition child_cost :: "grant \<Rightarrow> materialization \<Rightarrow> int option" where
  "child_cost g = (if g_state g = GActive then activeChildCost else revokingChildCost)"

definition admissible :: "grant \<Rightarrow> materialization \<Rightarrow> bool" where
  "admissible g m \<longleftrightarrow>
     wf_materialization m \<and>
     materializationTimesValid (g_activatedAt g) (g_revocationStartedAt g) None m \<and>
     (case g_revocation g of None \<Rightarrow> True | Some r \<Rightarrow> boundByTargets r m) \<and>
     (g_state g = GActive \<longrightarrow> m_updatedAt m < g_expiresAt g) \<and>
     (case child_cost g m of None \<Rightarrow> False
      | Some k \<Rightarrow> k \<le> (case materializationForChain g (m_chainId m) of None \<Rightarrow> 1
                        | Some old \<Rightarrow> the (child_cost g old) + 1)) \<and>
     (case materializationForChain g (m_chainId m) of None \<Rightarrow> True | Some old \<Rightarrow> m_updatedAt old \<le> m_updatedAt m)"

lemma strict_ids_length:
  assumes "sorted_wrt (<) ids" and "\<forall>i\<in>set ids. 1 \<le> i \<and> i \<le> (n :: int)" and "0 \<le> n"
  shows "int (length ids) \<le> n"
proof -
  have "distinct ids" using assms(1) sorted_less_distinct [of "\<lambda>x. x" ids] by simp
  moreover have "set ids \<subseteq> {1..n}" using assms(2) by auto
  ultimately have "length ids \<le> card {1..n}" by (metis card_mono distinct_card finite_atLeastAtMost_int)
  with assms(3) show ?thesis by simp
qed

lemma wf_materialization_updatedAt: "wf_materialization m \<Longrightarrow> int_ok 0 (m_updatedAt m)"
  by (cases m) auto

lemma materializations_distinct:
  "wf_grant_fields E g \<Longrightarrow> distinct (map m_chainId (g_materializations g))"
  by (rule sorted_less_distinct) (simp add: wf_grant_fields_def wf_materializations_def)

lemma put_materializations_wf:
  assumes "wf_grant_fields E g" and "wf_materialization m"
  shows "wf_materializations (withMaterialization g m)"
proof -
  have ms: "sorted_wrt (<) (map m_chainId (g_materializations g))" "list_all wf_materialization (g_materializations g)"
    using assms(1) by (auto simp: wf_grant_fields_def wf_materializations_def)
  have all: "list_all wf_materialization (withMaterialization g m)"
    using ms(2) assms(2) withMaterialization_set [OF materializations_distinct [OF assms(1)], of m]
    by (auto simp: list_all_iff others_def)
  moreover have "int (length (map m_chainId (withMaterialization g m))) \<le> MAX_SAFE_INTEGER"
    using all wf_materialization_chain
    by (intro strict_ids_length withMaterialization_sorted ms(1))
      (auto simp: list_all_iff int_ok_def MAX_SAFE_INTEGER_def)
  ultimately show ?thesis using withMaterialization_sorted [OF ms(1)] by (simp add: wf_materializations_def)
qed

lemma put_fields_wf:
  assumes "wf_grant E g" and "wf_materialization m" and "g_revision g \<noteq> MAX_SAFE_INTEGER"
  shows "wf_grant_fields E ((putMaterialization g m)\<lparr>g_revision := g_revision g + 1\<rparr>)"
  using assms put_materializations_wf [of E g m] wf_materialization_updatedAt [OF assms(2)]
  by (auto simp: wf_grant_def wf_grant_fields_def putMaterialization_def int_ok_def max_def)

lemma putMaterialization_times:
  "distinct (map m_chainId (g_materializations g)) \<Longrightarrow>
   grant_times (putMaterialization g m) = grant_times (g\<lparr>g_materializations := others g m\<rparr>) \<union> {m_updatedAt m}"
  by (auto simp: grant_times_def putMaterialization_def withMaterialization_set revocation_entries_def)

lemma putMaterialization_latest:
  assumes "distinct (map m_chainId (g_materializations g))" and "latestGrantTime g = g_updatedAt g"
    and "\<And>old. materializationForChain g (m_chainId m) = Some old \<Longrightarrow> m_updatedAt old \<le> m_updatedAt m"
  shows "latestGrantTime (putMaterialization g m) = max (g_updatedAt g) (m_updatedAt m)"
proof -
  let ?o = "g\<lparr>g_materializations := others g m\<rparr>"
  have sub: "grant_times ?o \<subseteq> grant_times g" by (auto simp: grant_times_def revocation_entries_def others_def)
  have latest: "g_updatedAt g \<in> grant_times g" "\<forall>t\<in>grant_times g. t \<le> g_updatedAt g"
    using assms(2) by (auto simp: latestGrantTime_iff)
  have kept: "g_updatedAt g \<in> grant_times ?o" if "m_updatedAt m < g_updatedAt g"
  proof (rule ccontr)
    assume no: "g_updatedAt g \<notin> grant_times ?o"
    have "grant_times g \<subseteq> grant_times ?o \<union> m_updatedAt ` set (g_materializations g)"
      by (auto simp: grant_times_def revocation_entries_def)
    with latest(1) no obtain old where old: "old \<in> set (g_materializations g)" "m_updatedAt old = g_updatedAt g"
      by (smt (verit) UnE imageE subsetD)
    moreover have "m_updatedAt ` set (others g m) \<subseteq> grant_times ?o" by (auto simp: grant_times_def)
    ultimately have "m_chainId old = m_chainId m" using no by (force simp: others_def)
    note old = old this
    have "materializationForChain g (m_chainId m) = Some old"
    proof (cases "materializationForChain g (m_chainId m)")
      case None
      with old show ?thesis by (auto simp: materializationForChain_def find_None_iff)
    next
      case (Some y)
      then have "y \<in> set (g_materializations g)" "m_chainId y = m_chainId old"
        using old(3) by (auto simp: materializationForChain_def find_Some_iff)
      with old(1) assms(1) Some show ?thesis by (auto simp: distinct_map dest: inj_onD)
    qed
    with assms(3) old(2) that show False by fastforce
  qed
  show ?thesis
    unfolding latestGrantTime_iff putMaterialization_times [OF assms(1)]
    using sub latest kept by (cases "m_updatedAt m < g_updatedAt g") (auto simp: max_def not_less dest: order_trans)
qed

lemma forChain_mem: "materializationForChain g c = Some m \<Longrightarrow> m \<in> set (g_materializations g) \<and> m_chainId m = c"
  by (auto simp: materializationForChain_def find_Some_iff)

lemma live_no_terminal: "stateConsistent g \<Longrightarrow> live g \<Longrightarrow> g_terminal g = None \<and> g_activatedAt g \<noteq> None"
  by (auto simp: live_def stateConsistent_def activeRecord_def)

lemma chronologyValid_materializations:
  assumes "chronologyValid g"
    and "materializationChronologyValid ms (g_activatedAt g) (g_revocationStartedAt g) (g_terminal g)"
  shows "chronologyValid (g\<lparr>g_updatedAt := u, g_materializations := ms, g_revision := n\<rparr>)"
  using assms
  by (simp add: chronologyValid_def revocation_entries_def Let_def cong: option.case_cong grant_terminal.case_cong)

lemma put_evidenceConsistent:
  assumes "wf_grant E g" "live g" "admissible g m"
  shows "evidenceConsistent ((putMaterialization g m)\<lparr>g_revision := n\<rparr>)"
proof -
  have wf: "wf_grant_fields E g" "evidenceConsistent g" "stateConsistent g" using assms(1) by (auto simp: wf_grant_def)
  note d = materializations_distinct [OF wf(1)]
  have none: "g_terminal g = None" "g_activatedAt g \<noteq> None" using live_no_terminal [OF wf(3) assms(2)] by auto
  have set: "set (withMaterialization g m) = insert m (set (others g m))" by (rule withMaterialization_set [OF d])
  have "latestGrantTime (putMaterialization g m) = max (g_updatedAt g) (m_updatedAt m)"
    using assms(3) wf(2) by (intro putMaterialization_latest [OF d]) (auto simp: evidenceConsistent_def admissible_def)
  then have "latestGrantTime ((putMaterialization g m)\<lparr>g_revision := n\<rparr>) = max (g_updatedAt g) (m_updatedAt m)"
    by simp
  moreover have "chronologyValid ((putMaterialization g m)\<lparr>g_revision := n\<rparr>)"
    unfolding putMaterialization_def
  proof (rule chronologyValid_materializations)
    show chron: "chronologyValid g" using wf(2) by (simp add: evidenceConsistent_def)
    then have "materializationChronologyValid (g_materializations g) (g_activatedAt g) (g_revocationStartedAt g) None"
      using none(1) by (simp add: chronologyValid_def Let_def)
    with assms(3) none set
    show "materializationChronologyValid (withMaterialization g m) (g_activatedAt g) (g_revocationStartedAt g) (g_terminal g)"
      by (auto simp: materializationChronologyValid_def admissible_def list_all_iff others_def)
  qed
  moreover have "case g_revocation g of None \<Rightarrow> True | Some r \<Rightarrow> list_all (boundByTargets r) (withMaterialization g m)"
    using wf(2) assms(3) set
    by (auto simp: evidenceConsistent_def admissible_def list_all_iff others_def split: option.splits)
  ultimately show ?thesis
    using wf(2) by (simp add: evidenceConsistent_def putMaterialization_def cong: option.case_cong)
qed

lemma put_cost:
  assumes "wf_grant_fields E g" "admissible g m" "sumChildCosts (child_cost g) (g_materializations g) = Some s"
  shows "\<exists>s'. sumChildCosts (child_cost g) (withMaterialization g m) = Some s' \<and> s' \<le> s + 1"
proof -
  from assms(2) obtain k where "child_cost g m = Some k"
    "k \<le> (case materializationForChain g (m_chainId m) of None \<Rightarrow> 1 | Some old \<Rightarrow> the (child_cost g old) + 1)"
    by (auto simp: admissible_def split: option.splits)
  then show ?thesis by (rule withMaterialization_cost [OF materializations_distinct [OF assms(1)] assms(3)])
qed

lemma put_stateConsistent:
  assumes "wf_grant E g" "live g" "admissible g m"
  shows "stateConsistent ((putMaterialization g m)\<lparr>g_revision := g_revision g + 1\<rparr>)"
proof -
  have wf: "wf_grant_fields E g" "stateConsistent g" using assms(1) by (auto simp: wf_grant_def)
  note set = withMaterialization_set [OF materializations_distinct [OF wf(1)], of m]
  note cost = put_cost [OF wf(1) assms(3)]
  show ?thesis
  proof (cases "g_state g = GActive")
    case True
    with wf(2) obtain s where s: "sumChildCosts activeChildCost (g_materializations g) = Some s" "s + 2 \<le> g_revision g"
      by (auto simp: stateConsistent_def reaches_def split: option.splits)
    with cost True obtain s' where "sumChildCosts activeChildCost (withMaterialization g m) = Some s'" "s' \<le> s + 1"
      by (auto simp: child_cost_def)
    with True s wf(2) set assms(3) show ?thesis
      by (auto simp: stateConsistent_def putMaterialization_def activeRecord_def reaches_def list_all_iff others_def
          admissible_def split: option.splits)
  next
    case False
    with assms(2) have st: "g_state g = GRevoking" by (simp add: live_def)
    with wf(2) obtain s where s: "sumChildCosts revokingChildCost (g_materializations g) = Some s"
      by (auto simp: stateConsistent_def reaches_def revokingMinimum_def split: option.splits)
    with cost False obtain s' where "sumChildCosts revokingChildCost (withMaterialization g m) = Some s'" "s' \<le> s + 1"
      by (auto simp: child_cost_def)
    with st s wf(2) show ?thesis
      by (auto simp: stateConsistent_def putMaterialization_def reaches_def revokingMinimum_def revocation_entries_def)
  qed
qed

text \<open>Every transition of one chain: an admissible materialization gives a well-formed Grant.\<close>

lemma put_wf:
  assumes "wf_grant E g" "live g" "admissible g m" "g_revision g \<noteq> MAX_SAFE_INTEGER"
  shows "wf_grant E ((putMaterialization g m)\<lparr>g_revision := g_revision g + 1\<rparr>)"
  using put_fields_wf [OF assms(1) _ assms(4)] put_evidenceConsistent [OF assms(1-3)]
    put_stateConsistent [OF assms(1-3)] assms(3)
  by (simp add: wf_grant_def admissible_def)

section \<open>The transitions of one chain put admissible materializations\<close>

lemma requireBound_Inr:
  "requireBoundMaterialization g b = Inr m \<longleftrightarrow>
     materializationForChain g (cb_chainId b) = Some m \<and> \<not> is_unsupported m \<and> m_binding m = b"
  by (auto simp: requireBoundMaterialization_def split: option.splits)

lemma live_times:
  assumes "wf_grant E g" "live g"
  obtains a where "g_activatedAt g = Some a" "a \<le> g_updatedAt g" "g_terminal g = None"
    and "g_state g = GActive \<Longrightarrow> g_revocation g = None \<and> g_revocationStartedAt g = None"
    and "g_state g = GRevoking \<Longrightarrow>
      \<exists>r s. g_revocation g = Some r \<and> g_revocationStartedAt g = Some s \<and> s \<le> g_updatedAt g \<and> a \<le> s"
proof -
  have wf: "evidenceConsistent g" "stateConsistent g" using assms(1) by (auto simp: wf_grant_def)
  have latest: "t \<le> g_updatedAt g" if "t \<in> grant_times g" for t
    using that wf(1) by (auto simp: evidenceConsistent_def latestGrantTime_iff)
  have c: "chronologyValid g" using wf(1) by (simp add: evidenceConsistent_def)
  from live_no_terminal [OF wf(2) assms(2)] obtain a where a: "g_activatedAt g = Some a" "g_terminal g = None" by auto
  show ?thesis
  proof (rule that [OF a(1) _ a(2)])
    show "a \<le> g_updatedAt g" using latest a by (simp add: grant_times_def some_or_def)
    show "g_revocation g = None \<and> g_revocationStartedAt g = None" if "g_state g = GActive"
      using that wf(2) c by (simp add: stateConsistent_def activeRecord_def chronologyValid_def Let_def)
    show "\<exists>r s. g_revocation g = Some r \<and> g_revocationStartedAt g = Some s \<and> s \<le> g_updatedAt g \<and> a \<le> s"
      if "g_state g = GRevoking"
      using that wf(2) c a latest
      by (auto simp: stateConsistent_def chronologyValid_def Let_def grant_times_def some_or_def)
  qed
qed

lemma current_facts:
  assumes "wf_grant E g" "live g" "materializationForChain g c = Some m"
  shows "wf_materialization m" "m_chainId m = c" "m_updatedAt m \<le> g_updatedAt g"
    "materializationTimesValid (g_activatedAt g) (g_revocationStartedAt g) None m"
    "case g_revocation g of None \<Rightarrow> True | Some r \<Rightarrow> boundByTargets r m"
    "g_state g = GActive \<Longrightarrow> m_updatedAt m < g_expiresAt g" "child_cost g m \<noteq> None"
proof -
  have wf: "wf_grant_fields E g" "evidenceConsistent g" "stateConsistent g" using assms(1) by (auto simp: wf_grant_def)
  from forChain_mem [OF assms(3)] have m: "m \<in> set (g_materializations g)" and "m_chainId m = c" by auto
  then show "m_chainId m = c" by simp
  show "wf_materialization m" using m wf(1) by (auto simp: wf_grant_fields_def wf_materializations_def list_all_iff)
  show "m_updatedAt m \<le> g_updatedAt g"
    using m wf(2) by (auto simp: evidenceConsistent_def latestGrantTime_iff grant_times_def)
  show "materializationTimesValid (g_activatedAt g) (g_revocationStartedAt g) None m"
    using m wf(2) live_no_terminal [OF wf(3) assms(2)]
    by (auto simp: evidenceConsistent_def chronologyValid_def Let_def materializationChronologyValid_def list_all_iff
        split: if_splits)
  show "case g_revocation g of None \<Rightarrow> True | Some r \<Rightarrow> boundByTargets r m"
    using m wf(2) by (auto simp: evidenceConsistent_def list_all_iff split: option.splits)
  show "m_updatedAt m < g_expiresAt g" if "g_state g = GActive"
    using that m wf(3) by (auto simp: stateConsistent_def activeRecord_def list_all_iff)
  show "child_cost g m \<noteq> None"
  proof (cases "g_state g = GActive")
    case True
    with wf(3) obtain s where "sumChildCosts activeChildCost (g_materializations g) = Some s"
      by (auto simp: stateConsistent_def reaches_def split: option.splits)
    with True m show ?thesis by (auto simp: sumChildCosts_Some child_cost_def)
  next
    case False
    then show ?thesis by (auto simp: child_cost_def revokingChildCost_def split: materialization.splits)
  qed
qed

lemma put_at: "t \<ge> g_updatedAt g \<Longrightarrow> m_updatedAt m = t \<Longrightarrow>
    g\<lparr>g_updatedAt := t, g_materializations := withMaterialization g m\<rparr> = putMaterialization g m"
  by (simp add: putMaterialization_def max_def)

lemmas machine_guards = requireGrantTime_def requireBeforeExpiry_def requireMaterializationTime_def
  requireEvidenceBinding_def requireNonRegressingPresence_def

lemma recordUnsupported_admissible:
  assumes "wf_grant E g" "g_state g = GActive" "g_updatedAt g \<le> t" "t < g_expiresAt g" "int_ok 1 c" "int_ok 0 t"
    "\<And>m. materializationForChain g c = Some m \<Longrightarrow> is_unsupported m"
  shows "admissible g (Unsupported c t r)"
proof -
  have live: "live g" using assms(2) by (simp add: live_def)
  from live_times [OF assms(1) live] assms(2) obtain a where "g_activatedAt g = Some a" "a \<le> g_updatedAt g"
    "g_revocation g = None" by metis
  moreover have "materializationForChain g c = Some m \<Longrightarrow> m_updatedAt m \<le> t \<and> child_cost g m = Some 1" for m
    using assms(3,7) current_facts(3) [OF assms(1) live]
    by (fastforce simp: child_cost_def assms(2) activeChildCost_def is_unsupported_def split: materialization.splits)
  ultimately show ?thesis
    using assms
    by (auto simp: admissible_def m_chainId_def child_cost_def activeChildCost_def materializationTimesValid_def
        m_installation_def split: option.splits)
qed

lemma recordUnmaterialized_changes:
  assumes "wf_grant E g" "wf_binding b" "int_ok 0 t" "recordUnmaterialized g b t = Inr x"
  shows "live g \<and> x = putMaterialization g (Unmaterialized b t) \<and> admissible g (Unmaterialized b t)"
proof -
  have st: "g_state g = GActive" "g_updatedAt g \<le> t" "t < g_expiresAt g"
    and x: "x = g\<lparr>g_updatedAt := t, g_materializations := withMaterialization g (Unmaterialized b t)\<rparr>"
    and cur: "materializationForChain g (cb_chainId b) = Some m \<Longrightarrow>
      (case m of Unsupported _ _ _ \<Rightarrow> True | Unmaterialized _ _ \<Rightarrow> True | _ \<Rightarrow> False)" for m
    using assms(4) unfolding recordUnmaterialized_def machine_guards
    by (auto elim!: bindE_InrE split: option.splits materialization.splits)
  have live: "live g" using st(1) by (simp add: live_def)
  from live_times [OF assms(1) live] st(1) obtain a where "g_activatedAt g = Some a" "a \<le> g_updatedAt g"
    "g_revocation g = None" by metis
  moreover have "materializationForChain g (cb_chainId b) = Some m \<Longrightarrow> m_updatedAt m \<le> t \<and> child_cost g m = Some 1" for m
    using st cur [of m] current_facts(3) [OF assms(1) live, of _ m]
    by (fastforce simp: child_cost_def activeChildCost_def split: materialization.splits)
  ultimately have "admissible g (Unmaterialized b t)"
    using assms(2,3) st
    by (auto simp: admissible_def m_chainId_def child_cost_def activeChildCost_def materializationTimesValid_def
        m_installation_def split: option.splits)
  with live x st(2) show ?thesis by (simp add: putMaterialization_def max_def)
qed

text \<open>Replacing the materialization of a bound chain.\<close>

definition removalTimes :: "int option \<Rightarrow> materialization \<Rightarrow> bool" where
  "removalTimes revocationStartedAt m =
     (case m of
        Revoking _ _ _ _ startedAt \<Rightarrow> \<not> (case revocationStartedAt of None \<Rightarrow> True | Some r \<Rightarrow> startedAt < r)
      | Revoked _ _ _ _ _ \<Rightarrow> \<not> (case revocationStartedAt of None \<Rightarrow> True | Some r \<Rightarrow> m_updatedAt m < r)
      | Unreadable _ _ _ prior _ _ \<Rightarrow>
          prior = PriorRevoking \<longrightarrow> \<not> (case revocationStartedAt of None \<Rightarrow> True | Some r \<Rightarrow> m_updatedAt m < r)
      | _ \<Rightarrow> True)"

lemma timesValid_split:
  "materializationTimesValid (Some a) rs None m \<longleftrightarrow>
     a \<le> m_updatedAt m \<and> (case m_installation m of None \<Rightarrow> True | Some i \<Rightarrow> a \<le> pe_observedAt i) \<and> removalTimes rs m"
  by (cases m) (auto simp: materializationTimesValid_def removalTimes_def split: option.splits)

lemma admissible_bound:
  assumes "wf_grant E g" "live g" "materializationForChain g (cb_chainId b) = Some cur"
    and "\<not> is_unsupported cur" "m_binding cur = b" "\<not> is_unsupported m" "m_binding m = b"
    and "wf_materialization m" "m_updatedAt cur \<le> m_updatedAt m"
    and "g_state g = GActive \<Longrightarrow> m_updatedAt m < g_expiresAt g"
    and "\<And>i. m_installation m = Some i \<Longrightarrow> m_installation cur = Some i \<or> m_updatedAt cur \<le> pe_observedAt i"
    and "removalTimes (g_revocationStartedAt g) m"
    and "child_cost g m = Some k" "k \<le> the (child_cost g cur) + 1"
  shows "admissible g m"
proof -
  note cur = current_facts [OF assms(1-3)]
  from live_times [OF assms(1,2)] obtain a where a: "g_activatedAt g = Some a" "a \<le> g_updatedAt g" by metis
  have cur_times: "a \<le> m_updatedAt cur" "\<And>i. m_installation cur = Some i \<Longrightarrow> a \<le> pe_observedAt i"
    using cur(4) by (auto simp: a(1) timesValid_split)
  have "m_chainId m = cb_chainId b"
    using assms(6,7) by (auto simp: m_chainId_def is_unsupported_def split: materialization.splits)
  moreover have "materializationTimesValid (g_activatedAt g) (g_revocationStartedAt g) None m"
    using assms(9,11,12) cur_times by (fastforce simp: a(1) timesValid_split split: option.splits)
  moreover have "case g_revocation g of None \<Rightarrow> True | Some r \<Rightarrow> boundByTargets r m"
    using cur(5) assms(4-7) by (auto simp: boundByTargets_def split: option.splits)
  ultimately show ?thesis
    using assms by (simp add: admissible_def)
qed

lemma live_current:
  assumes "wf_grant E g" "live g" "materializationForChain g c = Some m"
  shows "removalTimes (g_revocationStartedAt g) m"
    and "g_state g = GActive \<Longrightarrow> activeChildCost m \<noteq> None"
proof -
  from live_times [OF assms(1,2)] obtain a where "g_activatedAt g = Some a" by metis
  with current_facts(4) [OF assms] show "removalTimes (g_revocationStartedAt g) m" by (simp add: timesValid_split)
  show "activeChildCost m \<noteq> None" if "g_state g = GActive"
    using that current_facts(7) [OF assms] by (simp add: child_cost_def)
qed

lemmas cost_defs = child_cost_def activeChildCost_def revokingChildCost_def

lemma beginMaterialization_admissible:
  assumes "wf_grant E g" "live g" "materializationForChain g (cb_chainId b) = Some (Unmaterialized b u)"
    and "wf_binding b" "lower_hex 64 oid" "int_ok 0 t" "g_updatedAt g \<le> t" "t < g_expiresAt g"
  shows "admissible g (Installing b t oid t)"
  using assms current_facts(3) [OF assms(1-3)]
  by (intro admissible_bound [OF assms(1-3), where k = 2])
    (auto simp: is_unsupported_def m_installation_def removalTimes_def cost_defs)

lemma abandonMaterialization_admissible:
  assumes "wf_grant E g" "live g" "materializationForChain g (cb_chainId b) = Some (Installing b u oid st)"
    and "wf_binding b" "int_ok 0 t" "g_updatedAt g \<le> t" "g_state g = GActive \<Longrightarrow> t < g_expiresAt g"
  shows "admissible g (Unmaterialized b t)"
  using assms current_facts(3) [OF assms(1-3)]
  by (intro admissible_bound [OF assms(1-3), where k = 1])
    (auto simp: is_unsupported_def m_installation_def removalTimes_def cost_defs)

lemma recordInstalled_changes:
  assumes "wf_grant E g" "wf_binding b" "lower_hex 64 oid" "evidence_of Permission_present e"
    and "recordInstalled g b oid e = Inr x"
  shows "live g \<and> x = putMaterialization g (Installed b (pe_observedAt e) oid e) \<and>
         admissible g (Installed b (pe_observedAt e) oid e)"
proof -
  from assms(5) obtain cur where live: "live g" and cur: "materializationForChain g (cb_chainId b) = Some cur"
      "\<not> is_unsupported cur" "m_binding cur = b" "installingOrPresent cur"
    and e: "pe_binding e = b" "m_updatedAt cur \<le> pe_observedAt e"
      "g_state g = GActive \<Longrightarrow> pe_observedAt e < g_expiresAt g"
    and x: "x = putMaterialization g (Installed b (pe_observedAt e) oid e)"
    unfolding recordInstalled_def machine_guards putMaterialization_def
    by (auto elim!: bindE_InrE simp: requireBound_Inr live_def)
  have "admissible g (Installed b (pe_observedAt e) oid e)"
    using assms(2-4) cur e live_current(2) [OF assms(1) live cur(1)]
    by (intro admissible_bound [OF assms(1) live cur(1), where k = 3])
      (auto simp: is_unsupported_def m_installation_def removalTimes_def cost_defs evidence_of_def wf_evidence_def
        installingOrPresent_def split: materialization.splits if_splits)
  with live x show ?thesis by blast
qed

lemma wf_materialization_operation:
  "wf_materialization m \<Longrightarrow> \<not> is_unsupported m \<Longrightarrow> (case m of Unmaterialized _ _ \<Rightarrow> False | _ \<Rightarrow> True) \<Longrightarrow>
   lower_hex 64 (m_operationId m)"
  by (cases m) (auto simp: is_unsupported_def)

lemma wf_materialization_installation:
  "wf_materialization m \<Longrightarrow> m_installation m = Some i \<Longrightarrow>
   evidence_of Permission_present i \<and> pe_binding i = m_binding m \<and> pe_observedAt i \<le> m_updatedAt m"
  by (cases m) (auto simp: m_installation_def)

lemma recordUnreadable_changes:
  assumes "wf_grant E g" "wf_binding b" "int_ok 0 t" "recordUnreadable g b t r = Inr x"
  shows "live g \<and> (\<exists>m. x = putMaterialization g m \<and> admissible g m)"
proof -
  from assms(4) obtain cur prior where raw: "g_state g = GActive \<or> g_state g = GRevoking"
      "requireBoundMaterialization g b = Inr cur" "\<not> (g_state g = GActive \<and> g_expiresAt g \<le> t)"
    and prior: "unreadablePrior cur = Inr prior" and t: "m_updatedAt cur \<le> t"
    and x: "x = putMaterialization g (Unreadable b t (m_operationId cur) prior (m_installation cur) r)"
    by (auto simp: recordUnreadable_def machine_guards putMaterialization_def bindE_Inr not_less)
  from raw have live: "live g" and cur: "materializationForChain g (cb_chainId b) = Some cur"
      "\<not> is_unsupported cur" "m_binding cur = b" and t': "g_state g = GActive \<Longrightarrow> t < g_expiresAt g"
    by (auto simp: requireBound_Inr live_def)
  note facts = current_facts [OF assms(1) live cur(1)]
  let ?m = "Unreadable b t (m_operationId cur) prior (m_installation cur) r"
  have wf: "wf_materialization ?m"
    using prior facts(1) assms(2,3) t cur(2,3)
    by (cases cur) (auto simp: unreadablePrior_def m_installation_def is_unsupported_def option.pred_set)
  have "removalTimes (g_revocationStartedAt g) ?m"
    using prior facts(1) live_current(1) [OF assms(1) live cur(1)] t
    by (cases cur) (auto simp: unreadablePrior_def removalTimes_def split: option.splits)
  moreover have "\<exists>k. child_cost g ?m = Some k \<and> k \<le> the (child_cost g cur) + 1"
    using prior facts(1) live_current(2) [OF assms(1) live cur(1)]
    by (cases cur) (auto simp: unreadablePrior_def cost_defs m_installation_def split: if_splits)
  ultimately have "admissible g ?m"
    using cur t t' wf
    by (elim exE conjE, intro admissible_bound [OF assms(1) live cur(1)])
      (auto simp: is_unsupported_def m_installation_def)
  with live x show ?thesis by blast
qed

lemma beginChainRevocation_admissible:
  assumes "wf_grant E g" "g_state g = GRevoking" "materializationForChain g (cb_chainId b) = Some cur"
    and "\<not> is_unsupported cur" "m_binding cur = b" "installingOrPresent cur"
    and "wf_binding b" "int_ok 0 t" "g_updatedAt g \<le> t"
  shows "admissible g (Revoking b t (m_operationId cur) (m_installation cur) t)" (is "admissible g ?m")
proof -
  have live: "live g" using assms(2) by (simp add: live_def)
  note facts = current_facts [OF assms(1) live assms(3)]
  have u: "m_updatedAt cur \<le> t" using facts(3) assms(9) by simp
  have "wf_materialization ?m"
    using facts(1) assms(4-8) u
    by (cases cur) (auto simp: installingOrPresent_def m_installation_def option.pred_set)
  moreover have "removalTimes (g_revocationStartedAt g) ?m"
    using live_times [OF assms(1) live] assms(2,9) by (fastforce simp: removalTimes_def)
  moreover have "\<exists>k. child_cost g ?m = Some k \<and> k \<le> the (child_cost g cur) + 1"
    using assms(2,6) by (cases cur) (auto simp: cost_defs installingOrPresent_def m_installation_def)
  ultimately show ?thesis
    using assms u
    by (elim exE conjE, intro admissible_bound [OF assms(1) live assms(3)])
      (auto simp: is_unsupported_def m_installation_def)
qed

lemma recordChainRevoked_changes:
  assumes "wf_grant E g" "wf_binding b" "evidence_of Permission_absent e" "recordChainRevoked g b e = Inr x"
  shows "live g \<and> (\<exists>m. x = putMaterialization g m \<and> admissible g m)"
proof -
  from assms(4) obtain cur i where st: "g_state g = GRevoking"
    and cur: "materializationForChain g (cb_chainId b) = Some cur" "\<not> is_unsupported cur" "m_binding cur = b"
      "case cur of Revoking _ _ _ _ _ \<Rightarrow> True | Unreadable _ _ _ prior _ _ \<Rightarrow> prior = PriorRevoking | _ \<Rightarrow> False"
    and e: "pe_binding e = b" "m_updatedAt cur \<le> pe_observedAt e"
    and i: "m_installation cur = Some i" "BigInt (pe_blockNumber i) < BigInt (pe_blockNumber e)"
    and x: "x = putMaterialization g (Revoked b (pe_observedAt e) (m_operationId cur) i e)"
    unfolding recordChainRevoked_def machine_guards putMaterialization_def
    by (auto elim!: bindE_InrE simp: requireBound_Inr split: option.splits)
  have live: "live g" using st by (simp add: live_def)
  note facts = current_facts [OF assms(1) live cur(1)]
  let ?m = "Revoked b (pe_observedAt e) (m_operationId cur) i e"
  have "wf_materialization ?m"
    using facts(1) assms(2,3) cur e i wf_materialization_installation [OF facts(1) i(1)]
      wf_materialization_operation [OF facts(1) cur(2)]
    by (auto simp: evidence_of_def wf_evidence_def split: materialization.splits)
  moreover have "removalTimes (g_revocationStartedAt g) ?m"
    using facts(1) live_current(1) [OF assms(1) live cur(1)] cur(4) e(2)
    by (cases cur) (auto simp: removalTimes_def split: option.splits)
  moreover have "\<exists>k. child_cost g ?m = Some k \<and> k \<le> the (child_cost g cur) + 1"
    using st cur(4) i(1) by (cases cur) (auto simp: cost_defs m_installation_def)
  ultimately have "admissible g ?m"
    using cur e i st
    by (elim exE conjE, intro admissible_bound [OF assms(1) live cur(1)])
      (auto simp: is_unsupported_def m_installation_def)
  with live x show ?thesis by blast
qed

section \<open>The transitions of the Grant itself\<close>

lemma latest_advance:
  assumes "wf_grant E g" "g_updatedAt g \<le> t" "grant_times g' \<subseteq> insert t (grant_times g)" "t \<in> grant_times g'"
  shows "latestGrantTime g' = t"
proof -
  have "\<forall>s\<in>grant_times g. s \<le> t"
    using assms(1,2) by (fastforce simp: wf_grant_def evidenceConsistent_def latestGrantTime_iff)
  with assms(3,4) show ?thesis by (auto simp: latestGrantTime_iff)
qed

lemma grant_times_le:
  assumes "wf_grant E g"
  shows "m \<in> set (g_materializations g) \<Longrightarrow> m_updatedAt m \<le> g_updatedAt g"
    and "e \<in> set (revocation_entries g) \<Longrightarrow> pe_observedAt (re_permission e) \<le> g_updatedAt g"
    and "g_capabilityInvalidation g = Some i \<Longrightarrow> inv_invalidatedAt i \<le> g_updatedAt g"
    and "g_revocationStartedAt g = Some s \<Longrightarrow> s \<le> g_updatedAt g"
    and "g_activatedAt g = Some a \<Longrightarrow> a \<le> g_updatedAt g"
    and "g_approval g = Some p \<Longrightarrow> ap_approvedAt p \<le> g_updatedAt g"
    and "g_requestedAt g \<le> g_updatedAt g"
proof -
  have "\<forall>t\<in>grant_times g. t \<le> g_updatedAt g"
    using assms by (auto simp: wf_grant_def evidenceConsistent_def latestGrantTime_iff)
  then show "m \<in> set (g_materializations g) \<Longrightarrow> m_updatedAt m \<le> g_updatedAt g"
    and "e \<in> set (revocation_entries g) \<Longrightarrow> pe_observedAt (re_permission e) \<le> g_updatedAt g"
    and "g_capabilityInvalidation g = Some i \<Longrightarrow> inv_invalidatedAt i \<le> g_updatedAt g"
    and "g_revocationStartedAt g = Some s \<Longrightarrow> s \<le> g_updatedAt g"
    and "g_activatedAt g = Some a \<Longrightarrow> a \<le> g_updatedAt g"
    and "g_approval g = Some p \<Longrightarrow> ap_approvedAt p \<le> g_updatedAt g"
    and "g_requestedAt g \<le> g_updatedAt g"
    unfolding grant_times_def some_or_def by auto
qed

lemma requested_shape:
  assumes "wf_grant E g" "g_state g = GRequested"
  shows "g_approval g = None" "g_activatedAt g = None" "g_revocationStartedAt g = None" "g_revocation g = None"
    "g_capabilityInvalidation g = None" "g_terminal g = None" "g_materializations g = []" "g_revision g = 0"
    "g_requestedAt g < g_expiresAt g" "wf_grant_fields E g"
  using assms
  by (auto simp: wf_grant_def stateConsistent_def not_activated_def evidenceConsistent_def chronologyValid_def Let_def)

lemma approved_shape:
  assumes "wf_grant E g" "g_state g = GApproved"
  obtains a where "g_approval g = Some a" "g_activatedAt g = None" "g_revocationStartedAt g = None" "g_revocation g = None"
    "g_capabilityInvalidation g = None" "g_terminal g = None" "g_materializations g = []" "g_revision g = 1"
    "g_requestedAt g < g_expiresAt g" "wf_grant_fields E g" "g_requestedAt g \<le> ap_approvedAt a" "ap_approvedAt a < g_expiresAt g"
  using assms
  by (auto simp: wf_grant_def stateConsistent_def not_activated_def evidenceConsistent_def chronologyValid_def Let_def
      split: option.splits)

lemmas grant_check_defs = wf_grant_def wf_grant_fields_def evidenceConsistent_def stateConsistent_def
  chronologyValid_def Let_def materializationChronologyValid_def revocation_entries_def not_activated_def

lemma reject_wf:
  assumes "wf_grant E g" "g_state g = GRequested" "g_updatedAt g \<le> t" "t < g_expiresAt g" "int_ok 0 t"
  shows "wf_grant E (g\<lparr>g_state := GRejected, g_updatedAt := t, g_terminal := Some (TRejected t), g_revision := g_revision g + 1\<rparr>)"
proof -
  note shape = requested_shape [OF assms(1,2)]
  have "latestGrantTime (g\<lparr>g_state := GRejected, g_updatedAt := t, g_terminal := Some (TRejected t), g_revision := g_revision g + 1\<rparr>) = t"
    by (rule latest_advance [OF assms(1,3)]) (auto simp: grant_times_def revocation_entries_def some_or_def)
  with assms shape grant_times_le(7) [OF assms(1)] show ?thesis
    by (auto simp: grant_check_defs wf_terminal_def int_ok_def MAX_SAFE_INTEGER_def)
qed

lemma approve_wf:
  assumes "wf_grant E g" "g_state g = GRequested" "g_updatedAt g \<le> ap_approvedAt a" "ap_approvedAt a < g_expiresAt g"
    "wf_approval a"
  shows "wf_grant E (g\<lparr>g_state := GApproved, g_updatedAt := ap_approvedAt a, g_approval := Some a, g_revision := g_revision g + 1\<rparr>)"
proof -
  note shape = requested_shape [OF assms(1,2)]
  have "latestGrantTime (g\<lparr>g_state := GApproved, g_updatedAt := ap_approvedAt a, g_approval := Some a,
      g_revision := g_revision g + 1\<rparr>) = ap_approvedAt a"
    by (rule latest_advance [OF assms(1,3)]) (auto simp: grant_times_def revocation_entries_def some_or_def)
  with assms shape grant_times_le(7) [OF assms(1)] show ?thesis
    by (auto simp: grant_check_defs wf_approval_def int_ok_def MAX_SAFE_INTEGER_def)
qed

lemma activate_wf:
  assumes "wf_grant E g" "g_state g = GApproved" "g_updatedAt g \<le> t" "t < g_expiresAt g" "int_ok 0 t"
  shows "wf_grant E (g\<lparr>g_state := GActive, g_updatedAt := t, g_activatedAt := Some t, g_revision := g_revision g + 1\<rparr>)"
proof -
  obtain a where shape: "g_approval g = Some a" "g_activatedAt g = None" "g_revocationStartedAt g = None" "g_revocation g = None"
    "g_capabilityInvalidation g = None" "g_terminal g = None" "g_materializations g = []" "g_revision g = 1"
    "g_requestedAt g < g_expiresAt g" "wf_grant_fields E g" "g_requestedAt g \<le> ap_approvedAt a" "ap_approvedAt a < g_expiresAt g"
    by (rule approved_shape [OF assms(1,2)])
  have "latestGrantTime (g\<lparr>g_state := GActive, g_updatedAt := t, g_activatedAt := Some t, g_revision := g_revision g + 1\<rparr>) = t"
    by (rule latest_advance [OF assms(1,3)]) (auto simp: grant_times_def revocation_entries_def some_or_def)
  with assms shape grant_times_le(6) [OF assms(1) shape(1)] show ?thesis
    by (auto simp: grant_check_defs activeRecord_def reaches_def int_ok_def MAX_SAFE_INTEGER_def)
qed

text \<open>Ending a Grant: a terminal time no earlier than anything recorded keeps the chronology.\<close>

lemma timesValid_terminal:
  "materializationTimesValid a r None m \<Longrightarrow> m_updatedAt m \<le> t_recordedAt t \<Longrightarrow> materializationTimesValid a r (Some t) m"
  by (simp add: materializationTimesValid_def)

lemma terminal_chronology:
  assumes "wf_grant E g" "g_terminal g = None" "g_updatedAt g \<le> t_recordedAt t"
    and "case t of TRejected u \<Rightarrow> u < g_expiresAt g
         | TRevoked u \<Rightarrow> g_revocationStartedAt g \<noteq> None | TExpired _ u \<Rightarrow> g_expiresAt g \<le> u"
  shows "chronologyValid (g\<lparr>g_state := s, g_updatedAt := t_recordedAt t, g_terminal := Some t, g_revision := n\<rparr>)"
proof -
  have c: "chronologyValid g" using assms(1) by (simp add: wf_grant_def evidenceConsistent_def)
  note le = grant_times_le [OF assms(1)]
  have ms: "m_updatedAt m \<le> t_recordedAt t" if "m \<in> set (g_materializations g)" for m
    using le(1) [OF that] assms(3) by simp
  have es: "pe_observedAt (re_permission e) \<le> t_recordedAt t" if "e \<in> set (revocation_entries g)" for e
    using le(2) [OF that] assms(3) by simp
  have others: "g_requestedAt g \<le> t_recordedAt t"
    "case g_capabilityInvalidation g of None \<Rightarrow> True | Some i \<Rightarrow> inv_invalidatedAt i \<le> t_recordedAt t"
    "case g_revocationStartedAt g of None \<Rightarrow> True | Some r \<Rightarrow> r \<le> t_recordedAt t"
    using le(3,4,7) assms(3) by (auto split: option.splits intro: order_trans)
  have "materializationChronologyValid (g_materializations g) (g_activatedAt g) (g_revocationStartedAt g) (Some t)"
  proof -
    have "materializationChronologyValid (g_materializations g) (g_activatedAt g) (g_revocationStartedAt g) None"
      using c assms(2) by (simp add: chronologyValid_def Let_def)
    with ms show ?thesis
      by (auto simp: materializationChronologyValid_def list_all_iff intro: timesValid_terminal
          split: if_splits)
  qed
  moreover have "(case t of TRejected u \<Rightarrow> u < g_expiresAt g
      | TRevoked u \<Rightarrow> (case g_revocationStartedAt g of None \<Rightarrow> False | Some r \<Rightarrow> r \<le> u) | TExpired _ u \<Rightarrow> g_expiresAt g \<le> u)"
    using assms(4) others(3) by (auto split: grant_terminal.splits option.splits)
  ultimately show ?thesis
    using c assms(2) es others
    by (simp add: chronologyValid_def Let_def revocation_entries_def list_all_iff
        cong: option.case_cong grant_terminal.case_cong)
qed

lemma terminal_evidence:
  assumes "wf_grant E g" "g_terminal g = None" "g_updatedAt g \<le> t_recordedAt t"
    and "case t of TRejected u \<Rightarrow> u < g_expiresAt g
         | TRevoked u \<Rightarrow> g_revocationStartedAt g \<noteq> None | TExpired _ u \<Rightarrow> g_expiresAt g \<le> u"
  shows "evidenceConsistent (g\<lparr>g_state := s, g_updatedAt := t_recordedAt t, g_terminal := Some t, g_revision := n\<rparr>)"
proof -
  have "latestGrantTime (g\<lparr>g_state := s, g_updatedAt := t_recordedAt t, g_terminal := Some t, g_revision := n\<rparr>) = t_recordedAt t"
    by (rule latest_advance [OF assms(1,3)]) (use assms(2) in \<open>auto simp: grant_times_def revocation_entries_def some_or_def\<close>)
  with terminal_chronology [OF assms] assms(1) show ?thesis
    by (simp add: wf_grant_def evidenceConsistent_def cong: option.case_cong)
qed

lemma terminal_fields:
  assumes "wf_grant E g" "wf_terminal t" "g_revision g \<noteq> MAX_SAFE_INTEGER"
  shows "wf_grant_fields E (g\<lparr>g_state := s, g_updatedAt := t_recordedAt t, g_terminal := Some t, g_revision := g_revision g + 1\<rparr>)"
  using assms by (auto simp: wf_grant_def wf_grant_fields_def wf_terminal_def int_ok_def)

lemma not_terminal:
  "stateConsistent g \<Longrightarrow> g_state g \<notin> {GRejected, GRevoked, GExpired} \<Longrightarrow> g_terminal g = None"
  by (cases "g_state g") (auto simp: stateConsistent_def)

lemma expire_wf:
  assumes "wf_grant E g" "g_state g \<notin> {GRejected, GRevoked, GExpired}" "g_updatedAt g \<le> t" "g_expiresAt g \<le> t"
    "int_ok 0 t" "g_revision g \<noteq> MAX_SAFE_INTEGER"
  shows "wf_grant E (g\<lparr>g_state := GExpired, g_updatedAt := t, g_terminal := Some (TExpired (g_state g) t),
     g_revision := g_revision g + 1\<rparr>)"
proof -
  have st: "stateConsistent g" using assms(1) by (simp add: wf_grant_def)
  have none: "g_terminal g = None" by (rule not_terminal [OF st assms(2)])
  have "wf_terminal (TExpired (g_state g) t)"
    using assms(2,5) by (cases "g_state g") (auto simp: wf_terminal_def)
  moreover have "stateConsistent (g\<lparr>g_state := GExpired, g_updatedAt := t, g_terminal := Some (TExpired (g_state g) t),
     g_revision := g_revision g + 1\<rparr>)"
    using st assms(2)
    by (cases "g_state g")
      (auto simp: stateConsistent_def expiredConsistent_def not_activated_def activeRecord_def reaches_def
        revokingMinimum_def revocation_entries_def list_all_iff split: option.splits)
  ultimately show ?thesis
    using terminal_evidence [OF assms(1) none, of "TExpired (g_state g) t"] assms(3,4)
      terminal_fields [OF assms(1), of "TExpired (g_state g) t"] assms(6)
    by (simp add: wf_grant_def)
qed

lemma complete_wf:
  assumes "wf_grant E g" "g_state g = GRevoking" "g_updatedAt g \<le> t" "int_ok 0 t" "g_revision g \<noteq> MAX_SAFE_INTEGER"
    "g_capabilityInvalidation g \<noteq> None" "revocationComplete (g_revocation g)" "list_all settled (g_materializations g)"
  shows "wf_grant E (g\<lparr>g_state := GRevoked, g_updatedAt := t, g_terminal := Some (TRevoked t), g_revision := g_revision g + 1\<rparr>)"
proof -
  have st: "stateConsistent g" using assms(1) by (simp add: wf_grant_def)
  have none: "g_terminal g = None" "g_revocationStartedAt g \<noteq> None" using st assms(2) by (auto simp: stateConsistent_def)
  have "stateConsistent (g\<lparr>g_state := GRevoked, g_updatedAt := t, g_terminal := Some (TRevoked t), g_revision := g_revision g + 1\<rparr>)"
    using st assms(2,6-8)
    by (auto simp: stateConsistent_def reaches_def revokingMinimum_def revocation_entries_def split: option.splits)
  then show ?thesis
    using terminal_evidence [OF assms(1) none(1), of "TRevoked t"] assms(3,4,5) none(2)
      terminal_fields [OF assms(1), of "TRevoked t"]
    by (simp add: wf_grant_def wf_terminal_def)
qed

lemma activeCost_revoking: "activeChildCost m = Some k \<Longrightarrow> revokingChildCost m = Some k"
  by (auto simp: activeChildCost_def revokingChildCost_def split: materialization.splits if_splits)

lemma activeCosts_revoking: "sumChildCosts activeChildCost ms = Some s \<Longrightarrow> sumChildCosts revokingChildCost ms = Some s"
  by (induction ms arbitrary: s) (auto split: option.splits dest: activeCost_revoking)

lemma active_no_removal: "activeChildCost m \<noteq> None \<Longrightarrow> removalTimes rs m"
  by (cases m) (auto simp: activeChildCost_def removalTimes_def split: if_splits)

text \<open>
  Starting a revocation is the one transition whose result depends on more than its guards: the
  targets must bind every chain that is bound.
\<close>

definition begun :: "grant \<Rightarrow> chain_binding list \<Rightarrow> string \<Rightarrow> int \<Rightarrow> grant" where
  "begun g ts n t = g\<lparr>g_state := GRevoking, g_updatedAt := t, g_revocationStartedAt := Some t,
     g_revocation := Some \<lparr>gr_targets = ts, gr_installNonce = n, gr_evidence = []\<rparr>\<rparr>"

definition targets_cover :: "grant \<Rightarrow> chain_binding list \<Rightarrow> bool" where
  "targets_cover g ts \<longleftrightarrow> list_all (\<lambda>m. is_unsupported m \<or> m_binding m \<in> set ts) (g_materializations g)"

lemma targets_cover_iff:
  "targets_cover g ts \<longleftrightarrow> list_all (boundByTargets \<lparr>gr_targets = ts, gr_installNonce = n, gr_evidence = es\<rparr>) (g_materializations g)"
  by (auto simp: targets_cover_def boundByTargets_def list_all_iff list_ex_iff)

lemma begin_fields:
  assumes "wf_grant E g" "wf_targets ts" "uint256_string n" "int_ok 0 t" "g_revision g \<noteq> MAX_SAFE_INTEGER"
  shows "wf_grant_fields E ((begun g ts n t)\<lparr>g_revision := g_revision g + 1\<rparr>)"
  using assms
  by (auto simp: wf_grant_def wf_grant_fields_def begun_def wf_revocation_def int_ok_def MAX_SAFE_INTEGER_def)

lemma begin_wf:
  assumes "wf_grant E g" "g_state g = GActive" "g_updatedAt g \<le> t" "t < g_expiresAt g" "wf_targets ts"
    "uint256_string n" "int_ok 0 t" "g_revision g \<noteq> MAX_SAFE_INTEGER" "targets_cover g ts"
  shows "wf_grant E ((begun g ts n t)\<lparr>g_revision := g_revision g + 1\<rparr>)" (is "wf_grant E ?g")
proof -
  have wf: "evidenceConsistent g" "stateConsistent g" using assms(1) by (auto simp: wf_grant_def)
  have live: "live g" using assms(2) by (simp add: live_def)
  from live_times [OF assms(1) live] assms(2) obtain a where a: "g_activatedAt g = Some a" "a \<le> g_updatedAt g"
    "g_terminal g = None" "g_revocation g = None" "g_revocationStartedAt g = None" by metis
  from wf(2) assms(2) obtain s where s: "sumChildCosts activeChildCost (g_materializations g) = Some s"
      "s + 2 \<le> g_revision g" and inv: "g_capabilityInvalidation g = None" "g_approval g \<noteq> None"
    by (auto simp: stateConsistent_def activeRecord_def reaches_def split: option.splits)
  have c: "chronologyValid g" using wf(1) by (simp add: evidenceConsistent_def)
  have "materializationTimesValid (Some a) (Some t) None m" if m: "m \<in> set (g_materializations g)" for m
  proof -
    have "materializationTimesValid (Some a) None None m"
      using c m a by (auto simp: chronologyValid_def Let_def materializationChronologyValid_def list_all_iff split: if_splits)
    moreover have "activeChildCost m \<noteq> None" using s(1) m by (auto simp: sumChildCosts_Some)
    ultimately show ?thesis by (simp add: timesValid_split active_no_removal)
  qed
  then have "materializationChronologyValid (g_materializations g) (Some a) (Some t) None"
    by (simp add: materializationChronologyValid_def list_all_iff)
  then have "chronologyValid ?g"
    using c a inv assms(3,4)
    by (simp add: chronologyValid_def Let_def revocation_entries_def begun_def cong: option.case_cong)
  moreover have "latestGrantTime ?g = t"
    by (rule latest_advance [OF assms(1,3)]) (use a in \<open>auto simp: grant_times_def revocation_entries_def some_or_def begun_def\<close>)
  ultimately have "evidenceConsistent ?g"
    using assms(9) inv by (simp add: evidenceConsistent_def begun_def targets_cover_iff [symmetric])
  moreover have "stateConsistent ?g"
    using activeCosts_revoking [OF s(1)] s(2) a inv
    by (simp add: stateConsistent_def begun_def reaches_def revokingMinimum_def revocation_entries_def)
  ultimately show ?thesis using begin_fields [OF assms(1,5,6,7,8)] by (simp add: wf_grant_def)
qed

lemma revoking_shape:
  assumes "wf_grant E g" "g_state g = GRevoking"
  obtains a p rv rs s where "g_activatedAt g = Some a" "g_approval g = Some p" "g_revocation g = Some rv"
    "g_revocationStartedAt g = Some rs" "g_terminal g = None" "rs \<le> g_updatedAt g" "wf_revocation rv"
    "sumChildCosts revokingChildCost (g_materializations g) = Some s"
    "3 + s + (if g_capabilityInvalidation g = None then 0 else 1) + int (length (gr_evidence rv)) \<le> g_revision g"
proof -
  have wf: "evidenceConsistent g" "stateConsistent g" "wf_grant_fields E g" using assms(1) by (auto simp: wf_grant_def)
  have live: "live g" using assms(2) by (simp add: live_def)
  from live_times [OF assms(1) live] assms(2) obtain a rv rs where r: "g_activatedAt g = Some a" "g_revocation g = Some rv"
    "g_revocationStartedAt g = Some rs" "rs \<le> g_updatedAt g" "g_terminal g = None" by metis
  from wf(2) assms(2) obtain p where p: "g_approval g = Some p" by (auto simp: stateConsistent_def)
  from wf(2) assms(2) r obtain s where "sumChildCosts revokingChildCost (g_materializations g) = Some s"
    "3 + s + (if g_capabilityInvalidation g = None then 0 else 1) + int (length (gr_evidence rv)) \<le> g_revision g"
    by (auto simp: stateConsistent_def reaches_def revokingMinimum_def revocation_entries_def split: option.splits)
  with that r p wf(3) show ?thesis by (auto simp: wf_grant_fields_def)
qed

lemma invalidate_wf:
  assumes "wf_grant E g" "g_state g = GRevoking" "g_capabilityInvalidation g = None" "wf_invalidation i"
    "g_updatedAt g \<le> inv_invalidatedAt i" "Some (inv_capabilityHash i) = map_option ap_capabilityHash (g_approval g)"
    "g_revision g \<noteq> MAX_SAFE_INTEGER"
  shows "wf_grant E (g\<lparr>g_updatedAt := inv_invalidatedAt i, g_capabilityInvalidation := Some i, g_revision := g_revision g + 1\<rparr>)"
    (is "wf_grant E ?g")
proof -
  have wf: "evidenceConsistent g" "stateConsistent g" "wf_grant_fields E g" using assms(1) by (auto simp: wf_grant_def)
  obtain a p rv rs s where r: "g_activatedAt g = Some a" "g_approval g = Some p" "g_revocation g = Some rv"
    "g_revocationStartedAt g = Some rs" "g_terminal g = None" "rs \<le> g_updatedAt g" "wf_revocation rv"
    "sumChildCosts revokingChildCost (g_materializations g) = Some s"
    "3 + s + (if g_capabilityInvalidation g = None then 0 else 1) + int (length (gr_evidence rv)) \<le> g_revision g"
    by (rule revoking_shape [OF assms(1,2)])
  have "latestGrantTime ?g = inv_invalidatedAt i"
    by (rule latest_advance [OF assms(1,5)]) (use assms(3) in \<open>auto simp: grant_times_def revocation_entries_def some_or_def\<close>)
  moreover have "chronologyValid ?g"
    using wf(1) r assms(3,5)
    by (simp add: evidenceConsistent_def chronologyValid_def Let_def revocation_entries_def cong: option.case_cong)
  ultimately have "evidenceConsistent ?g"
    using wf(1) assms(6) r(3) by (simp add: evidenceConsistent_def)
  moreover have "stateConsistent ?g"
    using assms(2,3) r by (simp add: stateConsistent_def reaches_def revokingMinimum_def revocation_entries_def)
  moreover have "wf_grant_fields E ?g"
    using wf(3) assms(4,7) by (auto simp: wf_grant_fields_def wf_invalidation_def int_ok_def)
  ultimately show ?thesis by (simp add: wf_grant_def)
qed

abbreviation re_chain :: "revocation_evidence \<Rightarrow> int" where
  "re_chain e \<equiv> cb_chainId (re_binding e)"

definition withEvidence :: "grant_revocation \<Rightarrow> revocation_evidence \<Rightarrow> grant_revocation" where
  "withEvidence rv proof = rv\<lparr>gr_evidence := sort_key re_chain (gr_evidence rv @ [proof])\<rparr>"

lemma withEvidence_wf:
  assumes "wf_revocation rv" "wf_revocation_evidence proof" "evidenceInScope (gr_targets rv) (gr_installNonce rv) proof"
    and "\<forall>e\<in>set (gr_evidence rv). re_chain e \<noteq> re_chain proof"
  shows "wf_revocation (withEvidence rv proof)"
proof -
  let ?es = "sort_key re_chain (gr_evidence rv @ [proof])"
  have d: "distinct (map re_chain (gr_evidence rv @ [proof]))"
    using sorted_less_distinct [of re_chain "gr_evidence rv"] assms(1,4) by (fastforce simp: wf_revocation_def)
  have sorted: "sorted_wrt (<) (map re_chain ?es)" by (rule sort_key_strict [OF d])
  have all: "list_all wf_revocation_evidence ?es" "list_all (evidenceInScope (gr_targets rv) (gr_installNonce rv)) ?es"
    using assms(1-3) by (auto simp: wf_revocation_def list_all_iff)
  have "int (length (map re_chain ?es)) \<le> MAX_SAFE_INTEGER"
    using all(1)
    by (intro strict_ids_length sorted)
      (auto simp: list_all_iff wf_revocation_evidence_def evidence_of_def wf_evidence_def wf_binding_def int_ok_def
        MAX_SAFE_INTEGER_def)
  with sorted all assms(1) show ?thesis by (simp add: wf_revocation_def withEvidence_def)
qed

lemma recordRevocationEvidence_changes:
  assumes "recordRevocationEvidence g proof = Inr x"
  obtains rv where "g_state g = GRevoking" "g_revocation g = Some rv"
    "x = g\<lparr>g_updatedAt := max (g_updatedAt g) (pe_observedAt (re_permission proof)),
            g_revocation := Some (withEvidence rv proof)\<rparr>"
    "evidenceInScope (gr_targets rv) (gr_installNonce rv) proof"
    "\<forall>e\<in>set (gr_evidence rv). re_chain e \<noteq> re_chain proof"
    "some_or 0 (g_revocationStartedAt g) \<le> pe_observedAt (re_permission proof)"
  using assms unfolding recordRevocationEvidence_def
  by (auto elim!: bindE_InrE simp: withEvidence_def evidenceInScope_def list_ex_iff not_less split: option.splits intro!: that)

lemma evidence_wf:
  assumes "wf_grant E g" "wf_revocation_evidence proof" "recordRevocationEvidence g proof = Inr x"
    "g_revision g \<noteq> MAX_SAFE_INTEGER"
  shows "wf_grant E (x\<lparr>g_revision := g_revision g + 1\<rparr>)"
proof -
  obtain rv where st: "g_state g = GRevoking" and rv: "g_revocation g = Some rv"
    and x: "x = g\<lparr>g_updatedAt := max (g_updatedAt g) (pe_observedAt (re_permission proof)),
            g_revocation := Some (withEvidence rv proof)\<rparr>"
    and scope: "evidenceInScope (gr_targets rv) (gr_installNonce rv) proof"
      "\<forall>e\<in>set (gr_evidence rv). re_chain e \<noteq> re_chain proof"
      "some_or 0 (g_revocationStartedAt g) \<le> pe_observedAt (re_permission proof)"
    by (rule recordRevocationEvidence_changes [OF assms(3)])
  have wf: "evidenceConsistent g" "stateConsistent g" "wf_grant_fields E g" using assms(1) by (auto simp: wf_grant_def)
  obtain a p rv' rs s where r: "g_activatedAt g = Some a" "g_approval g = Some p" "g_revocation g = Some rv'"
    "g_revocationStartedAt g = Some rs" "g_terminal g = None" "rs \<le> g_updatedAt g" "wf_revocation rv'"
    "sumChildCosts revokingChildCost (g_materializations g) = Some s"
    "3 + s + (if g_capabilityInvalidation g = None then 0 else 1) + int (length (gr_evidence rv')) \<le> g_revision g"
    by (rule revoking_shape [OF assms(1) st])
  let ?g = "x\<lparr>g_revision := g_revision g + 1\<rparr>"
  have entries: "set (revocation_entries ?g) = insert proof (set (revocation_entries g))"
    "set (revocation_entries g) = set (gr_evidence rv)"
    by (simp_all add: x rv revocation_entries_def withEvidence_def)
  have "latestGrantTime ?g = max (g_updatedAt g) (pe_observedAt (re_permission proof))"
  proof -
    have "grant_times ?g = insert (pe_observedAt (re_permission proof)) (grant_times g)"
      unfolding grant_times_def entries(1) by (simp add: x insert_commute)
    moreover have "g_updatedAt g \<in> grant_times g" "\<forall>t\<in>grant_times g. t \<le> g_updatedAt g"
      using wf(1) by (auto simp: evidenceConsistent_def latestGrantTime_iff)
    ultimately show ?thesis unfolding latestGrantTime_iff by (auto simp: max_def)
  qed
  moreover have "chronologyValid ?g"
  proof -
    have c: "chronologyValid g" using wf(1) by (simp add: evidenceConsistent_def)
    have "\<forall>e\<in>set (revocation_entries ?g). some_or 0 (g_revocationStartedAt g) \<le> pe_observedAt (re_permission e)"
      using c scope(3) unfolding entries(1) by (auto simp: chronologyValid_def Let_def list_all_iff)
    with c show ?thesis
      unfolding chronologyValid_def Let_def list_all_iff by (simp add: x rv r(5) cong: option.case_cong)
  qed
  moreover have "list_all (boundByTargets (withEvidence rv proof)) (g_materializations g)"
    using wf(1) rv by (simp add: evidenceConsistent_def boundByTargets_def withEvidence_def list_all_iff)
  ultimately have "evidenceConsistent ?g"
    using wf(1) by (simp add: evidenceConsistent_def x cong: option.case_cong)
  moreover have "stateConsistent ?g"
    using st r rv by (simp add: stateConsistent_def reaches_def revokingMinimum_def revocation_entries_def x withEvidence_def)
  moreover have "wf_grant_fields E ?g"
    using wf(3) assms(2,4) withEvidence_wf [of rv "proof"] scope r(3,7) rv
    by (auto simp: wf_grant_fields_def x int_ok_def max_def wf_revocation_evidence_def evidence_of_def wf_evidence_def)
  ultimately show ?thesis by (simp add: wf_grant_def)
qed

section \<open>Progress: what passes the guards is a well-formed Grant\<close>

text \<open>
  The two ways a transition passes its guards and is still refused by the re-parse: an installation
  abandoned at or after the expiry of an active Grant, and a revocation whose targets leave a bound
  chain out.
\<close>

definition refused_on_reparse :: "grant \<Rightarrow> grant_transition \<Rightarrow> bool" where
  "refused_on_reparse g t =
     (case t of
        Abandon_materialization _ _ _ abandonedAt \<Rightarrow> g_state g = GActive \<and> g_expiresAt g \<le> abandonedAt
      | Begin_revocation _ targets _ _ \<Rightarrow> \<not> targets_cover g targets
      | _ \<Rightarrow> False)"

lemma changes_wf:
  assumes "wf_grant E g" "wf_transition E t" "grantChanges g t = Inr x" "g_revision g \<noteq> MAX_SAFE_INTEGER"
    "\<not> refused_on_reparse g t"
  shows "wf_grant E (x\<lparr>g_revision := g_revision g + 1\<rparr>)"
proof (cases t)
  case (Reject i n)
  with assms show ?thesis
    by (auto simp: grantChanges_def machine_guards elim!: bindE_InrE intro!: reject_wf)
next
  case (Approve i a)
  with assms show ?thesis
    by (auto simp: grantChanges_def machine_guards elim!: bindE_InrE intro!: approve_wf)
next
  case (Activate i n)
  with assms show ?thesis
    by (auto simp: grantChanges_def machine_guards elim!: bindE_InrE intro!: activate_wf)
next
  case (Expire i n)
  with assms show ?thesis
    by (auto simp: grantChanges_def machine_guards elim!: bindE_InrE intro!: expire_wf)
next
  case (Record_unsupported i c n r)
  with assms(3) have st: "g_state g = GActive" "g_updatedAt g \<le> n" "n < g_expiresAt g"
    "\<And>m. materializationForChain g c = Some m \<Longrightarrow> is_unsupported m"
    and x: "x = g\<lparr>g_updatedAt := n, g_materializations := withMaterialization g (Unsupported c n r)\<rparr>"
    by (auto simp: grantChanges_def machine_guards elim!: bindE_InrE split: option.splits)
  then have "x = putMaterialization g (Unsupported c n r)" by (simp add: putMaterialization_def max_def)
  with put_wf [OF assms(1) _ recordUnsupported_admissible [OF assms(1)] assms(4)] st assms(2) Record_unsupported
  show ?thesis by (simp add: live_def)
next
  case (Record_unmaterialized i b n)
  with recordUnmaterialized_changes [OF assms(1), of b n x] put_wf [OF assms(1) _ _ assms(4)] assms(2,3) show ?thesis
    by (simp add: grantChanges_def)
next
  case (Begin_materialization i b oid n)
  with assms(3) obtain u where st: "g_state g = GActive" "g_updatedAt g \<le> n" "n < g_expiresAt g"
    "materializationForChain g (cb_chainId b) = Some (Unmaterialized b u)"
    and x: "x = g\<lparr>g_updatedAt := n, g_materializations := withMaterialization g (Installing b n oid n)\<rparr>"
    by (auto simp: grantChanges_def machine_guards requireBound_Inr elim!: bindE_InrE split: materialization.splits)
  then have "x = putMaterialization g (Installing b n oid n)" by (simp add: putMaterialization_def max_def)
  with put_wf [OF assms(1) _ beginMaterialization_admissible [OF assms(1) _ st(4)] assms(4)] st assms(2) Begin_materialization
  show ?thesis by (simp add: live_def)
next
  case (Abandon_materialization i b oid n)
  with assms(3) obtain u s where st: "g_state g = GActive \<or> g_state g = GRevoking" "g_updatedAt g \<le> n"
    "materializationForChain g (cb_chainId b) = Some (Installing b u oid s)"
    and x: "x = g\<lparr>g_updatedAt := n, g_materializations := withMaterialization g (Unmaterialized b n)\<rparr>"
    by (auto simp: grantChanges_def machine_guards requireBound_Inr elim!: bindE_InrE split: materialization.splits)
  then have "x = putMaterialization g (Unmaterialized b n)" by (simp add: putMaterialization_def max_def)
  with put_wf [OF assms(1) _ abandonMaterialization_admissible [OF assms(1) _ st(3)] assms(4)] st assms(2,5)
    Abandon_materialization
  show ?thesis by (auto simp: live_def refused_on_reparse_def)
next
  case (Record_installed i b oid e)
  with recordInstalled_changes [OF assms(1), of b oid e x] put_wf [OF assms(1) _ _ assms(4)] assms(2,3) show ?thesis
    by (simp add: grantChanges_def)
next
  case (Record_unreadable i b n r)
  with recordUnreadable_changes [OF assms(1), of b n r x] put_wf [OF assms(1) _ _ assms(4)] assms(2,3) show ?thesis
    by (auto simp: grantChanges_def)
next
  case (Begin_revocation i ts n s)
  with assms(3) have st: "g_state g = GActive" "g_updatedAt g \<le> s" "s < g_expiresAt g" and x: "x = begun g ts n s"
    by (auto simp: grantChanges_def machine_guards begun_def elim!: bindE_InrE)
  with begin_wf [OF assms(1) st] assms(2,4,5) Begin_revocation show ?thesis by (simp add: refused_on_reparse_def)
next
  case (Begin_chain_revocation i b n)
  with assms(3) obtain cur where st: "g_state g = GRevoking" "g_updatedAt g \<le> n"
    "materializationForChain g (cb_chainId b) = Some cur" "\<not> is_unsupported cur" "m_binding cur = b" "installingOrPresent cur"
    and x: "x = g\<lparr>g_updatedAt := n, g_materializations := withMaterialization g
        (Revoking b n (m_operationId cur) (m_installation cur) n)\<rparr>"
    by (auto simp: grantChanges_def machine_guards requireBound_Inr elim!: bindE_InrE)
  then have "x = putMaterialization g (Revoking b n (m_operationId cur) (m_installation cur) n)"
    by (simp add: putMaterialization_def max_def)
  with put_wf [OF assms(1) _ beginChainRevocation_admissible [OF assms(1) st(1,3-6)] assms(4)] st assms(2)
    Begin_chain_revocation
  show ?thesis by (simp add: live_def)
next
  case (Record_chain_revoked i b e)
  with recordChainRevoked_changes [OF assms(1), of b e x] put_wf [OF assms(1) _ _ assms(4)] assms(2,3) show ?thesis
    by (auto simp: grantChanges_def)
next
  case (Record_capability_invalidated i v)
  with assms show ?thesis
    by (auto simp: grantChanges_def machine_guards elim!: bindE_InrE intro!: invalidate_wf)
next
  case (Record_revocation_evidence i e)
  with evidence_wf [OF assms(1), of e x] assms show ?thesis by (simp add: grantChanges_def)
next
  case (Complete_revocation i n)
  with assms show ?thesis
    by (auto simp: grantChanges_def machine_guards elim!: bindE_InrE intro!: complete_wf)
qed

end
