(* ===== verification/Grant_Lifecycle.thy ===== *)
theory Grant_Lifecycle
  imports Grant_Invariant
begin

text \<open>
  The life of a Grant: which transitions succeed, what a successful one keeps, the steps as a
  relation with the Grants reachable from \<open>createGrant\<close>, and what a revoked Grant proves.
\<close>

section \<open>What a transition keeps\<close>

definition rank :: "grant_state \<Rightarrow> nat" where
  "rank s = (case s of GRequested \<Rightarrow> 0 | GApproved \<Rightarrow> 1 | GActive \<Rightarrow> 2 | GRevoking \<Rightarrow> 3
             | GRejected \<Rightarrow> 4 | GRevoked \<Rightarrow> 4 | GExpired \<Rightarrow> 4)"

definition terminal_state :: "grant_state \<Rightarrow> bool" where
  "terminal_state s \<longleftrightarrow> s = GRejected \<or> s = GRevoked \<or> s = GExpired"

text \<open>The revocation \<open>r'\<close> continues \<open>r\<close>: same targets and nonce, no evidence lost.\<close>

definition revocation_extends :: "grant_revocation option \<Rightarrow> grant_revocation option \<Rightarrow> bool" where
  "revocation_extends r r' \<longleftrightarrow>
     (\<forall>v. r = Some v \<longrightarrow> (\<exists>v'. r' = Some v' \<and> gr_targets v' = gr_targets v \<and>
        gr_installNonce v' = gr_installNonce v \<and> set (gr_evidence v) \<subseteq> set (gr_evidence v')))"

definition continues :: "grant \<Rightarrow> grant \<Rightarrow> bool" where
  "continues g g' \<longleftrightarrow>
     g_identity g' = g_identity g \<and> g_requestedAt g' = g_requestedAt g \<and> g_expiresAt g' = g_expiresAt g \<and>
     g_updatedAt g \<le> g_updatedAt g' \<and> rank (g_state g) \<le> rank (g_state g') \<and>
     (g_approval g \<noteq> None \<longrightarrow> g_approval g' = g_approval g) \<and>
     (g_activatedAt g \<noteq> None \<longrightarrow> g_activatedAt g' = g_activatedAt g) \<and>
     (g_revocationStartedAt g \<noteq> None \<longrightarrow> g_revocationStartedAt g' = g_revocationStartedAt g) \<and>
     (g_capabilityInvalidation g \<noteq> None \<longrightarrow> g_capabilityInvalidation g' = g_capabilityInvalidation g) \<and>
     revocation_extends (g_revocation g) (g_revocation g')"

lemma revocation_extends_refl [simp]: "revocation_extends r r"
  by (auto simp: revocation_extends_def)

lemma continues_refl: "continues g g"
  by (simp add: continues_def)

lemma revocation_extends_trans:
  "revocation_extends a b \<Longrightarrow> revocation_extends b c \<Longrightarrow> revocation_extends a c"
  unfolding revocation_extends_def by fastforce

lemma continues_trans: "continues a b \<Longrightarrow> continues b c \<Longrightarrow> continues a c"
  unfolding continues_def by (intro conjI impI; (elim conjE)?; (rule revocation_extends_trans)?; simp)

lemma put_continues:
  "live g \<Longrightarrow> continues g (putMaterialization g m) \<and> g_revision (putMaterialization g m) = g_revision g \<and>
   \<not> terminal_state (g_state g)"
  by (auto simp: continues_def putMaterialization_def terminal_state_def live_def)

lemma changes_continue:
  assumes "wf_grant E g" "wf_transition E t" "grantChanges g t = Inr x"
  shows "continues g x \<and> g_revision x = g_revision g \<and> \<not> terminal_state (g_state g)"
proof (cases t)
  case (Record_unmaterialized i b n)
  with recordUnmaterialized_changes [OF assms(1), of b n x] assms(2,3) put_continues [of g] show ?thesis
    by (auto simp: grantChanges_def)
next
  case (Record_installed i b oid e)
  with recordInstalled_changes [OF assms(1), of b oid e x] assms(2,3) put_continues [of g] show ?thesis
    by (auto simp: grantChanges_def)
next
  case (Record_unreadable i b n r)
  with recordUnreadable_changes [OF assms(1), of b n r x] assms(2,3) put_continues [of g] show ?thesis
    by (auto simp: grantChanges_def)
next
  case (Record_chain_revoked i b e)
  with recordChainRevoked_changes [OF assms(1), of b e x] assms(2,3) put_continues [of g] show ?thesis
    by (auto simp: grantChanges_def)
next
  case (Record_revocation_evidence i e)
  with assms(3) have "recordRevocationEvidence g e = Inr x" by (simp add: grantChanges_def)
  then show ?thesis
    by (rule recordRevocationEvidence_changes)
      (auto simp: continues_def revocation_extends_def withEvidence_def terminal_state_def)
next
  case (Reject i n)
  with assms requested_shape [OF assms(1)] show ?thesis
    by (auto simp: grantChanges_def machine_guards continues_def rank_def terminal_state_def elim!: bindE_InrE)
next
  case (Approve i a)
  with assms requested_shape [OF assms(1)] show ?thesis
    by (auto simp: grantChanges_def machine_guards continues_def rank_def terminal_state_def elim!: bindE_InrE)
next
  case (Activate i n)
  with assms approved_shape [OF assms(1)] show ?thesis
    by (auto simp: grantChanges_def machine_guards continues_def rank_def terminal_state_def elim!: bindE_InrE)
next
  case (Expire i n)
  with assms show ?thesis
    by (auto simp: grantChanges_def machine_guards continues_def rank_def terminal_state_def elim!: bindE_InrE
        split: grant_state.splits)
next
  case (Begin_revocation i ts n s)
  with assms(3) have st: "g_state g = GActive" "g_updatedAt g \<le> s" and x: "x = begun g ts n s"
    by (auto simp: grantChanges_def machine_guards begun_def elim!: bindE_InrE)
  from st(1) assms(1) have "g_revocation g = None" "g_revocationStartedAt g = None"
    using live_times [OF assms(1)] by (auto simp: live_def)
  with st show ?thesis by (simp add: x begun_def continues_def rank_def revocation_extends_def terminal_state_def)
qed (use assms in \<open>auto simp: grantChanges_def machine_guards continues_def rank_def terminal_state_def elim!: bindE_InrE\<close>)

section \<open>Which transitions succeed\<close>

lemma abandon_refused:
  assumes "wf_grant E g" "g_state g = GActive" "g_expiresAt g \<le> n"
  shows "\<not> stateConsistent ((g\<lparr>g_updatedAt := n, g_materializations := withMaterialization g (Unmaterialized b n)\<rparr>)
      \<lparr>g_revision := k\<rparr>)"
proof -
  have "Unmaterialized b n \<in> set (withMaterialization g (Unmaterialized b n))"
    using withMaterialization_set [OF materializations_distinct, of E g] assms(1) by (auto simp: wf_grant_def)
  with assms(2,3) show ?thesis by (fastforce simp: stateConsistent_def activeRecord_def list_all_iff)
qed

lemma begin_refused:
  "\<not> targets_cover g ts \<Longrightarrow> \<not> evidenceConsistent ((begun g ts n t)\<lparr>g_revision := k\<rparr>)"
  by (simp add: evidenceConsistent_def begun_def targets_cover_iff [of g ts n "[]"])

lemma refused_reparse:
  assumes "ext_ok E" "wf_grant E g" "wf_transition E t" "grantChanges g t = Inr x" "g_revision g \<noteq> MAX_SAFE_INTEGER"
    "refused_on_reparse g t"
  shows "parseGrant E (grant_literal [] (x\<lparr>g_revision := g_revision g + 1\<rparr>)) = Inl (g_err Grant_record_invalid)"
proof (cases t)
  case (Abandon_materialization i b oid n)
  with assms(4,6) have "g_state g = GActive" "g_expiresAt g \<le> n" "g_updatedAt g \<le> n"
    and x: "x = g\<lparr>g_updatedAt := n, g_materializations := withMaterialization g (Unmaterialized b n)\<rparr>"
    by (auto simp: refused_on_reparse_def grantChanges_def machine_guards elim!: bindE_InrE)
  moreover from this have "x = putMaterialization g (Unmaterialized b n)" by (simp add: putMaterialization_def max_def)
  then have "wf_grant_fields E (x\<lparr>g_revision := g_revision g + 1\<rparr>)"
    using put_fields_wf [OF assms(2) _ assms(5), of "Unmaterialized b n"] assms(3) Abandon_materialization by simp
  moreover from this have "parseGrant E (grant_literal [] (x\<lparr>g_revision := g_revision g + 1\<rparr>)) =
      (if grant_fits (x\<lparr>g_revision := g_revision g + 1\<rparr>) \<and> evidenceConsistent (x\<lparr>g_revision := g_revision g + 1\<rparr>) \<and> stateConsistent (x\<lparr>g_revision := g_revision g + 1\<rparr>)
       then Inr (x\<lparr>g_revision := g_revision g + 1\<rparr>) else Inl (g_err Grant_record_invalid))"
    by (rule parseGrant_fields [OF assms(1)])
  ultimately show ?thesis using abandon_refused [OF assms(2), where n = n and b = b and k = "g_revision g + 1"] by simp
next
  case (Begin_revocation i ts n s)
  with assms(4,6) have "\<not> targets_cover g ts" "x = begun g ts n s"
    by (auto simp: refused_on_reparse_def grantChanges_def machine_guards begun_def elim!: bindE_InrE)
  moreover from this have "wf_grant_fields E (x\<lparr>g_revision := g_revision g + 1\<rparr>)"
    using begin_fields [OF assms(2) _ _ _ assms(5), where ts = ts and n = n and t = s] assms(3) Begin_revocation by simp
  ultimately show ?thesis
    using begin_refused [where g = g and ts = ts and n = n and t = s and k = "g_revision g + 1"] by (simp add: parseGrant_fields [OF assms(1)])
qed (use assms(6) in \<open>simp_all add: refused_on_reparse_def\<close>)

lemma advanceParsedGrant_decides:
  assumes "ext_ok E" "wf_grant E g" "wf_transition E t"
  shows "advanceParsedGrant E g t =
     (if g_identity g \<noteq> tr_identity t then Inl mismatch
      else case grantChanges g t of Inl e \<Rightarrow> Inl e
      | Inr x \<Rightarrow>
          if g_revision g = MAX_SAFE_INTEGER then Inl (g_err Grant_revision_exhausted)
          else if refused_on_reparse g t \<or> \<not> grant_fits g then Inl (g_err Grant_record_invalid)
          else Inr (x\<lparr>g_revision := g_revision g + 1\<rparr>))"
proof (cases "grantChanges g t")
  case (Inl e)
  then show ?thesis by (simp add: advanceParsedGrant_def requireGrantIdentity_def guardE_def bindE_def)
next
  case (Inr x)
  have "parseGrant E (grant_literal [] (x\<lparr>g_revision := g_revision g + 1\<rparr>)) =
      (if refused_on_reparse g t \<or> \<not> grant_fits g then Inl (g_err Grant_record_invalid)
       else Inr (x\<lparr>g_revision := g_revision g + 1\<rparr>))"
    if "g_revision g \<noteq> MAX_SAFE_INTEGER"
    using refused_reparse [OF assms Inr that] changes_wf [OF assms(2,3) Inr that] parseGrant_literal [OF assms(1)]
      changes_continue [OF assms(2,3) Inr]
    by (cases "refused_on_reparse g t") (simp_all add: continues_def)
  with Inr show ?thesis
    by (simp add: advanceParsedGrant_def requireGrantIdentity_def guardE_def bindE_def advanceGrantRecord_def nextGrantRevision_def)
qed

section \<open>Steps and reachable Grants\<close>

text \<open>
  A step of the stored Grant: the record is offered to \<open>advanceGrant\<close> with some transition value and
  the result replaces it.
\<close>

inductive grant_step :: "ext \<Rightarrow> grant \<Rightarrow> grant \<Rightarrow> bool" for E where
  advance: "advanceGrant E (grant_literal [] g) tv = Inr g' \<Longrightarrow> grant_step E g g'"

inductive_cases grant_stepE: "grant_step E g g'"

inductive grant_reachable :: "ext \<Rightarrow> grant \<Rightarrow> bool" for E where
  created: "createGrant E v = Inr g \<Longrightarrow> grant_reachable E g"
| stepped: "grant_reachable E g \<Longrightarrow> grant_step E g g' \<Longrightarrow> grant_reachable E g'"

lemma advanceGrant_Inr:
  assumes "ext_ok E" "advanceGrant E v tv = Inr g'"
  obtains g t x where "parseGrant E v = Inr g" "runC (parseGrantTransition E tv) = Inr t" "wf_grant E g" "wf_transition E t"
    "g_identity g = tr_identity t" "grantChanges g t = Inr x" "g' = x\<lparr>g_revision := g_revision g + 1\<rparr>"
    "wf_grant E g'" "g_revision g < MAX_SAFE_INTEGER"
proof -
  from assms(2) obtain g t where g: "parseGrant E v = Inr g" and t: "runC (parseGrantTransition E tv) = Inr t"
    and adv: "advanceParsedGrant E g t = Inr g'" by (auto simp: advanceGrant_def elim!: bindE_InrE)
  have wf: "wf_grant E g" by (rule parseGrant_sound [OF assms(1) g])
  have wt: "wf_transition E t" using t parseGrantTransition_sound [OF assms(1)] by (auto simp: runC_Inr)
  from adv obtain x where x: "g_identity g = tr_identity t" "grantChanges g t = Inr x" "g_revision g \<noteq> MAX_SAFE_INTEGER"
    "\<not> refused_on_reparse g t" "g' = x\<lparr>g_revision := g_revision g + 1\<rparr>"
    unfolding advanceParsedGrant_decides [OF assms(1) wf wt] by (auto split: if_splits sum.splits)
  have "g_revision g < MAX_SAFE_INTEGER" using wf x(3) by (auto simp: wf_grant_def wf_grant_fields_def int_ok_def)
  with that [OF g t wf wt x(1,2,5)] changes_wf [OF wf wt x(2,3,4)] x(5) show ?thesis by simp
qed

lemma continues_revision [simp]: "continues g (x\<lparr>g_revision := n\<rparr>) = continues g x"
  by (simp add: continues_def)

lemma step_facts:
  assumes "ext_ok E" "wf_grant E g" "grant_step E g g'"
  shows "wf_grant E g' \<and> continues g g' \<and> g_revision g' = g_revision g + 1 \<and> \<not> terminal_state (g_state g)"
  using assms(3)
proof (rule grant_stepE)
  fix tv assume "advanceGrant E (grant_literal [] g) tv = Inr g'"
  from advanceGrant_Inr [OF assms(1) this] obtain h t x where h: "parseGrant E (grant_literal [] g) = Inr h"
    "wf_transition E t" "grantChanges h t = Inr x" "g' = x\<lparr>g_revision := g_revision h + 1\<rparr>" "wf_grant E g'"
    "wf_grant E h" by metis
  with parseGrant_literal [OF assms(1,2)] have "h = g" by (simp split: if_splits)
  with h changes_continue [of E g t x] show ?thesis by simp
qed

lemma reachable_wf: "grant_reachable E g \<Longrightarrow> ext_ok E \<Longrightarrow> wf_grant E g"
  by (induction rule: grant_reachable.induct) (auto dest: createGrant_sound step_facts)

lemma steps_facts:
  assumes "ext_ok E" "wf_grant E g" "(grant_step E)\<^sup>*\<^sup>* g g'"
  shows "wf_grant E g' \<and> continues g g'"
  using assms(3)
proof (induction rule: rtranclp_induct)
  case (step h k)
  with step_facts [OF assms(1), of h k] continues_trans [of g h k] show ?case by simp
qed (simp add: assms(2) continues_refl)

section \<open>A complete revocation accounts for every target\<close>

lemma find_mem: "find P xs = Some y \<Longrightarrow> y \<in> set xs"
  by (auto simp: find_Some_iff)

lemma evidenceInScopeD:
  "evidenceInScope ts n e \<Longrightarrow> re_binding e \<in> set ts \<and> nonceConsumed n (re_installNonce e)"
  by (auto simp: evidenceInScope_def split: option.splits dest: find_mem)

lemma complete_targets:
  assumes "wf_revocation r" "length (gr_evidence r) = length (gr_targets r)" "target \<in> set (gr_targets r)"
  shows "\<exists>e\<in>set (gr_evidence r). re_binding e = target \<and> nonceConsumed (gr_installNonce r) (re_installNonce e)"
proof -
  have ts: "distinct (map cb_chainId (gr_targets r))" and es: "distinct (map re_chain (gr_evidence r))"
    using assms(1) by (auto simp: wf_revocation_def wf_targets_def intro!: sorted_less_distinct)
  have scope: "re_binding e \<in> set (gr_targets r) \<and> nonceConsumed (gr_installNonce r) (re_installNonce e)"
    if "e \<in> set (gr_evidence r)" for e
    using that assms(1) evidenceInScopeD by (auto simp: wf_revocation_def list_all_iff)
  have eq: "set (map re_chain (gr_evidence r)) = set (map cb_chainId (gr_targets r))"
  proof (rule card_subset_eq)
    show "set (map re_chain (gr_evidence r)) \<subseteq> set (map cb_chainId (gr_targets r))" using scope by auto
    show "card (set (map re_chain (gr_evidence r))) = card (set (map cb_chainId (gr_targets r)))"
      using ts es assms(2) by (simp only: distinct_card length_map)
  qed simp
  have "cb_chainId target \<in> set (map re_chain (gr_evidence r))" unfolding eq using assms(3) by simp
  then obtain e where e: "e \<in> set (gr_evidence r)" "re_chain e = cb_chainId target" by auto
  have "inj_on cb_chainId (set (gr_targets r))" using ts by (simp add: distinct_map)
  with scope [OF e(1)] assms(3) e(2) have "re_binding e = target" by (meson inj_onD)
  with e(1) scope [OF e(1)] show ?thesis by blast
qed

section \<open>Concrete Grants for the witnesses\<close>

definition sample_identity :: grant_identity where
  "sample_identity = \<lparr>gi_grantId = ''grant-1'',
     gi_application = \<lparr>ab_applicationId = ''app'', ab_clientId = ''client'', ab_origin = ''https://app.example'', ab_deviceId = ''device''\<rparr>,
     gi_logicalAccount = sample_kernel, gi_operatorCredential = OperatorEcdsa (hex_of 40 (CHR ''2'')),
     gi_policyHash = hex_of 64 (CHR ''a'')\<rparr>"

definition sample_binding :: chain_binding where
  "sample_binding = \<lparr>cb_chainId = 1, cb_account = hex_of 40 (CHR ''1''), cb_permissionId = hex_of 8 (CHR ''b'')\<rparr>"

definition sample_request :: jsval where
  "sample_request = mk_obj [] [(''identity'', identity_literal [PName ''identity''] sample_identity),
     (''requestedAt'', jint 100), (''expiresAt'', jint 1000)]"

definition transition_object :: "string \<Rightarrow> (string \<times> jsval) list \<Rightarrow> jsval" where
  "transition_object kind extra = mk_obj []
     ([(''type'', JString kind), (''identity'', identity_literal [PName ''identity''] sample_identity)] @ extra)"

definition sample_approve :: jsval where
  "sample_approve = transition_object ''approve'' [(''approval'', approval_literal [PName ''approval'']
     \<lparr>ap_approvalHash = hex_of 64 (CHR ''a''), ap_capabilityHash = hex_of 64 (CHR ''b''), ap_approvedAt = 110\<rparr>)]"

definition sample_requested :: grant where
  "sample_requested = \<lparr>g_identity = sample_identity, g_revision = 0, g_state = GRequested, g_requestedAt = 100,
     g_expiresAt = 1000, g_updatedAt = 100, g_approval = None, g_activatedAt = None,
     g_revocationStartedAt = None, g_revocation = None, g_capabilityInvalidation = None,
     g_terminal = None, g_materializations = []\<rparr>"

definition sample_approved :: grant where
  "sample_approved = sample_requested\<lparr>g_state := GApproved, g_updatedAt := 110, g_revision := 1,
     g_approval := Some \<lparr>ap_approvalHash = hex_of 64 (CHR ''a''), ap_capabilityHash = hex_of 64 (CHR ''b''),
       ap_approvedAt = 110\<rparr>\<rparr>"

text \<open>An active Grant that is installing its permission on chain 1.\<close>

definition sample_active :: grant where
  "sample_active = sample_approved\<lparr>g_state := GActive, g_activatedAt := Some 120, g_updatedAt := 130, g_revision := 4,
     g_materializations := [Installing sample_binding 130 (hex_of 64 (CHR ''b'')) 130]\<rparr>"

definition sample_revoked :: grant where
  "sample_revoked = sample_approved\<lparr>g_state := GRevoked, g_activatedAt := Some 120, g_updatedAt := 170, g_revision := 7,
     g_revocationStartedAt := Some 140,
     g_revocation := Some \<lparr>gr_targets = [sample_binding], gr_installNonce = ''5'',
       gr_evidence = [\<lparr>re_permission = \<lparr>pe_kind = Permission_absent, pe_binding = sample_binding, pe_blockNumber = ''2'',
          pe_blockHash = hex_of 64 (CHR ''a''), pe_observedAt = 160\<rparr>, re_installNonce = ''6''\<rparr>]\<rparr>,
     g_capabilityInvalidation := Some \<lparr>inv_capabilityHash = hex_of 64 (CHR ''b''), inv_evidenceHash = hex_of 64 (CHR ''a''),
       inv_invalidatedAt = 150\<rparr>,
     g_terminal := Some (TRevoked 170),
     g_materializations := [Unmaterialized sample_binding 130]\<rparr>"

definition sample_abandon :: "int \<Rightarrow> jsval" where
  "sample_abandon t = transition_object ''abandon_materialization''
     [(''binding'', binding_literal [PName ''binding''] sample_binding),
      (''operationId'', JString (hex_of 64 (CHR ''b''))), (''abandonedAt'', jint t)]"

lemma sample_create: "createGrant sample_ext sample_request = Inr sample_requested"
  by code_simp

lemma sample_approve_step: "advanceGrant sample_ext (grant_literal [] sample_requested) sample_approve = Inr sample_approved"
  by code_simp

lemma sample_active_parses: "parseGrant sample_ext (grant_literal [] sample_active) = Inr sample_active"
  by code_simp

lemma sample_revoked_parses: "parseGrant sample_ext (grant_literal [] sample_revoked) = Inr sample_revoked"
  by code_simp

lemma sample_abandon_parses:
  "runC (parseGrantTransition sample_ext (sample_abandon 1000)) =
     Inr (Abandon_materialization sample_identity sample_binding (hex_of 64 (CHR ''b'')) 1000)"
  by code_simp

lemma sample_reachable: "grant_reachable sample_ext sample_requested" "grant_reachable sample_ext sample_approved"
  using grant_reachable.created [OF sample_create]
    grant_reachable.stepped [OF grant_reachable.created [OF sample_create] grant_step.advance [OF sample_approve_step]]
  by auto

text \<open>
  A URL parser that lengthens the host of the sample's origin, as the conversion of a host to ASCII does, and the
  Grant created through it.
\<close>

definition idna_origin :: string where
  "idna_origin = ''https://'' @ replicate 2048 (CHR ''a'')"

definition idna_ext :: ext where
  "idna_ext = sample_ext\<lparr>newURL := \<lambda>s. if s = ''https://app.example'' \<or> s = idna_origin
     then Some (sample_url\<lparr>origin := idna_origin\<rparr>) else None\<rparr>"

definition idna_requested :: grant where
  "idna_requested = sample_requested\<lparr>g_identity := sample_identity\<lparr>gi_application :=
     (gi_application sample_identity)\<lparr>ab_origin := idna_origin\<rparr>\<rparr>\<rparr>"

lemma idna_ext_ok: "ext_ok idna_ext"
proof -
  have "is_http_origin (sample_url\<lparr>origin := idna_origin\<rparr>)"
    by (simp add: is_http_origin_def sample_url_def idna_origin_def)
  with sample_ext_ok show ?thesis by (auto simp: ext_ok_def idna_ext_def split: if_splits)
qed

lemma idna_create: "createGrant idna_ext sample_request = Inr idna_requested"
  by code_simp

section \<open>Properties\<close>

text \<open>C13: every Grant the program can hold (created, then advanced any number of times) is accepted
  again by \<open>parseGrant\<close>, unchanged, if its origin has at most 2048 characters, and refused otherwise. The
  second case is real: the origin validator bounds the text it is given and returns the URL parser's
  serialisation, which can be longer.\<close>

theorem reachable_grant_reparses:
  assumes "ext_ok E" and "grant_reachable E g"
  shows "parseGrant E (grant_literal [] g) =
    (if length (ab_origin (gi_application (g_identity g))) \<le> 2048 then Inr g else Inl (OaathGrantError Grant_record_invalid))"
  using parseGrant_literal [OF assms(1) reachable_wf [OF assms(2,1)]] by (simp add: origin_fits_def)

theorem reachable_grant_reparses_witness:
  "parseGrant sample_ext (grant_literal [] sample_approved) = Inr sample_approved \<and>
   parseGrant idna_ext (grant_literal [] idna_requested) = Inl (OaathGrantError Grant_record_invalid)"
  using reachable_grant_reparses [OF sample_ext_ok sample_reachable(2)]
    reachable_grant_reparses [OF idna_ext_ok grant_reachable.created [OF idna_create]]
  by (simp add: idna_requested_def idna_origin_def) (simp add: sample_approved_def sample_requested_def sample_identity_def)

text \<open>C14: \<open>advanceGrant\<close> on a parsed Grant and transition is decided by the transition's guards: a
  foreign identity and a failed guard give their errors, an exhausted revision gives its own, and what
  passes the guards is returned with the next revision, except where the re-parse refuses it: an
  active Grant's installation abandoned at or after expiry, revocation targets that leave a bound
  chain out, or an origin longer than the parser's bound.\<close>

theorem advanceGrant_decides:
  assumes "ext_ok E" and "parseGrant E v = Inr g" and "runC (parseGrantTransition E tv) = Inr t"
  shows "advanceGrant E v tv =
     (if g_identity g \<noteq> tr_identity t then Inl (OaathGrantError Grant_identity_mismatch)
      else case grantChanges g t of Inl e \<Rightarrow> Inl e
      | Inr x \<Rightarrow>
          if g_revision g = MAX_SAFE_INTEGER then Inl (OaathGrantError Grant_revision_exhausted)
          else if refused_on_reparse g t \<or> length (ab_origin (gi_application (g_identity g))) > 2048
          then Inl (OaathGrantError Grant_record_invalid)
          else Inr (x\<lparr>g_revision := g_revision g + 1\<rparr>))"
proof -
  have "wf_transition E t" using assms(3) parseGrantTransition_sound [OF assms(1)] by (auto simp: runC_Inr)
  with advanceParsedGrant_decides [OF assms(1) parseGrant_sound [OF assms(1,2)]] assms(2,3) show ?thesis
    by (simp add: advanceGrant_def origin_fits_def not_le split: sum.split)
qed

theorem advanceGrant_decides_witness:
  "advanceGrant sample_ext (grant_literal [] sample_active) (sample_abandon 1000) =
     Inl (OaathGrantError Grant_record_invalid)"
proof -
  have "\<exists>x. grantChanges sample_active
      (Abandon_materialization sample_identity sample_binding (hex_of 64 (CHR ''b'')) 1000) = Inr x"
    by (simp add: grantChanges_def machine_guards sample_active_def sample_approved_def sample_requested_def
        requireBoundMaterialization_def materializationForChain_def m_chainId_def is_unsupported_def guardE_def bindE_def)
  moreover have "g_identity sample_active = sample_identity" "g_revision sample_active = 4"
      "g_state sample_active = GActive" "g_expiresAt sample_active = 1000"
    by (simp_all add: sample_active_def sample_approved_def sample_requested_def)
  ultimately show ?thesis
    using advanceGrant_decides [OF sample_ext_ok sample_active_parses sample_abandon_parses]
    by (auto simp: refused_on_reparse_def MAX_SAFE_INTEGER_def)
qed

text \<open>C15: the history of a Grant only moves forward: over any number of steps the identity, request and
  expiry times stay, the record's time never goes back, the lifecycle stage never goes back (a Grant
  that is revoking is never active again), and an approval, an activation, a revocation start, a
  capability invalidation, the revocation's targets and install nonce, and the evidence collected, once
  recorded, are never changed or lost.\<close>

theorem grant_history_forward:
  assumes "ext_ok E" and "grant_reachable E g" and "(grant_step E)\<^sup>*\<^sup>* g g'"
  shows "continues g g' \<and> grant_reachable E g'"
proof -
  have "grant_reachable E g'" using assms(3,2) by (induction rule: rtranclp_induct) (auto intro: grant_reachable.stepped)
  with steps_facts [OF assms(1) reachable_wf [OF assms(2,1)] assms(3)] show ?thesis by simp
qed

theorem grant_history_forward_witness:
  "continues sample_requested sample_approved \<and> grant_reachable sample_ext sample_approved"
  by (rule grant_history_forward [OF sample_ext_ok sample_reachable(1)])
    (rule r_into_rtranclp, rule grant_step.advance, rule sample_approve_step)

text \<open>A rejected, revoked or expired Grant is final: whatever the transition offered, the record is
  not advanced.\<close>

theorem terminal_grant_final:
  assumes "ext_ok E" and "parseGrant E v = Inr g" and "terminal_state (g_state g)"
  shows "\<exists>e. advanceGrant E v tv = Inl e"
proof (cases "advanceGrant E v tv")
  case (Inr g')
  from advanceGrant_Inr [OF assms(1) Inr] assms(2) obtain t x where
    "wf_grant E g" "wf_transition E t" "grantChanges g t = Inr x" by (metis Inr_inject)
  from changes_continue [OF this] assms(3) show ?thesis by simp
qed simp

theorem terminal_grant_final_witness:
  "\<exists>e. advanceGrant sample_ext (grant_literal [] sample_revoked) sample_approve = Inl e"
  by (rule terminal_grant_final [OF sample_ext_ok sample_revoked_parses])
    (simp add: terminal_state_def sample_revoked_def)

text \<open>Each step counts: an advanced Grant's revision is exactly one more than that of the record
  it was advanced from, and it stays a safe integer.\<close>

theorem grant_revision_counts:
  assumes "ext_ok E" and "advanceGrant E v tv = Inr g'"
  shows "\<exists>g. parseGrant E v = Inr g \<and> g_revision g' = g_revision g + 1 \<and> g_revision g' \<le> MAX_SAFE_INTEGER"
  using advanceGrant_Inr [OF assms] by (metis changes_continue grant.select_convs(2) grant.surjective
      grant.update_convs(2) zless_imp_add1_zle)

theorem grant_revision_counts_witness:
  "\<exists>g. parseGrant sample_ext (grant_literal [] sample_requested) = Inr g \<and>
     g_revision sample_approved = g_revision g + 1 \<and> g_revision sample_approved \<le> MAX_SAFE_INTEGER"
  by (rule grant_revision_counts [OF sample_ext_ok sample_approve_step])

text \<open>C16: a Grant that reads as revoked carries the proof: the invalidation of the very capability that
  was approved, for every target chain of the revocation evidence that the permission is absent there and
  that the approval's install nonce is consumed, and no chain that is still installing, installed,
  revoking or unreadable; every bound chain is a target.\<close>

theorem revoked_grant_is_proved:
  assumes "ext_ok E" and "parseGrant E v = Inr g" and "g_state g = GRevoked"
  shows "\<exists>approval invalidation revocation.
     g_approval g = Some approval \<and> g_capabilityInvalidation g = Some invalidation \<and>
     g_revocation g = Some revocation \<and>
     inv_capabilityHash invalidation = ap_capabilityHash approval \<and>
     (\<forall>target\<in>set (gr_targets revocation). \<exists>e\<in>set (gr_evidence revocation).
        re_binding e = target \<and> pe_kind (re_permission e) = Permission_absent \<and>
        nonceConsumed (gr_installNonce revocation) (re_installNonce e)) \<and>
     (\<forall>m\<in>set (g_materializations g). settled m \<and> (is_unsupported m \<or> m_binding m \<in> set (gr_targets revocation)))"
proof -
  have wf: "wf_grant_fields E g" "evidenceConsistent g" "stateConsistent g"
    using parseGrant_sound [OF assms(1,2)] by (auto simp: wf_grant_def)
  from wf(3) assms(3) obtain a i r where air: "g_approval g = Some a" "g_capabilityInvalidation g = Some i"
      "g_revocation g = Some r" "length (gr_evidence r) = length (gr_targets r)" "list_all settled (g_materializations g)"
    by (auto simp: stateConsistent_def revocationComplete_def split: option.splits)
  have r: "wf_revocation r" using wf(1) air by (simp add: wf_grant_fields_def)
  have "\<exists>e\<in>set (gr_evidence r). re_binding e = target \<and> pe_kind (re_permission e) = Permission_absent \<and>
        nonceConsumed (gr_installNonce r) (re_installNonce e)" if "target \<in> set (gr_targets r)" for target
    using complete_targets [OF r air(4) that] r
    by (auto simp: wf_revocation_def list_all_iff wf_revocation_evidence_def evidence_of_def)
  moreover have "is_unsupported m \<or> m_binding m \<in> set (gr_targets r)" if "m \<in> set (g_materializations g)" for m
    using that wf(2) air(3) by (auto simp: evidenceConsistent_def list_all_iff boundByTargets_def list_ex_iff)
  ultimately show ?thesis using air wf(2) by (auto simp: evidenceConsistent_def list_all_iff)
qed

theorem revoked_grant_is_proved_witness:
  "\<exists>approval invalidation revocation.
     g_approval sample_revoked = Some approval \<and> g_capabilityInvalidation sample_revoked = Some invalidation \<and>
     g_revocation sample_revoked = Some revocation \<and>
     inv_capabilityHash invalidation = ap_capabilityHash approval \<and>
     (\<forall>target\<in>set (gr_targets revocation). \<exists>e\<in>set (gr_evidence revocation).
        re_binding e = target \<and> pe_kind (re_permission e) = Permission_absent \<and>
        nonceConsumed (gr_installNonce revocation) (re_installNonce e)) \<and>
     (\<forall>m\<in>set (g_materializations sample_revoked).
        settled m \<and> (is_unsupported m \<or> m_binding m \<in> set (gr_targets revocation)))"
  by (rule revoked_grant_is_proved [OF sample_ext_ok sample_revoked_parses]) (simp add: sample_revoked_def)

text \<open>An active Grant was approved and activated in time: the approval follows the request, the
  activation follows the approval and precedes expiry, nothing recorded on any chain reaches expiry, and
  no chain is in a state that only a revocation produces.\<close>

theorem active_grant_in_time:
  assumes "ext_ok E" and "parseGrant E v = Inr g" and "g_state g = GActive"
  shows "\<exists>approval activatedAt. g_approval g = Some approval \<and> g_activatedAt g = Some activatedAt \<and>
     g_requestedAt g \<le> ap_approvedAt approval \<and> ap_approvedAt approval \<le> activatedAt \<and>
     activatedAt < g_expiresAt g \<and> g_revocation g = None \<and>
     (\<forall>m\<in>set (g_materializations g). activatedAt \<le> m_updatedAt m \<and> m_updatedAt m < g_expiresAt g \<and>
        activeChildCost m \<noteq> None)"
proof -
  have g: "wf_grant E g" "live g" using parseGrant_sound [OF assms(1,2)] assms(3) by (auto simp: live_def)
  then have wf: "evidenceConsistent g" "stateConsistent g" "wf_grant_fields E g" by (auto simp: wf_grant_def)
  have m: "m_updatedAt m < g_expiresAt g \<and> activeChildCost m \<noteq> None \<and>
      materializationTimesValid (g_activatedAt g) (g_revocationStartedAt g) None m"
    if "m \<in> set (g_materializations g)" for m
  proof -
    have d: "distinct (map m_chainId (g_materializations g))" by (rule materializations_distinct [OF wf(3)])
    have "materializationForChain g (m_chainId m) = Some m"
    proof (cases "materializationForChain g (m_chainId m)")
      case None
      with that show ?thesis by (auto simp: materializationForChain_def find_None_iff)
    next
      case (Some y)
      with forChain_mem [OF Some] that d show ?thesis by (auto simp: distinct_map dest: inj_onD)
    qed
    with current_facts [OF g] assms(3) show ?thesis by (metis child_cost_def)
  qed
  from wf(1,2) assms(3) obtain a p where "g_approval g = Some p" "g_activatedAt g = Some a" "g_requestedAt g \<le> ap_approvedAt p"
      "ap_approvedAt p \<le> a" "a < g_expiresAt g" "g_revocation g = None"
    by (auto simp: stateConsistent_def activeRecord_def evidenceConsistent_def chronologyValid_def Let_def)
  with m show ?thesis by (auto simp: timesValid_split)
qed

theorem active_grant_in_time_witness:
  "\<exists>approval activatedAt. g_approval sample_active = Some approval \<and> g_activatedAt sample_active = Some activatedAt \<and>
     g_requestedAt sample_active \<le> ap_approvedAt approval \<and> ap_approvedAt approval \<le> activatedAt \<and>
     activatedAt < g_expiresAt sample_active \<and> g_revocation sample_active = None \<and>
     (\<forall>m\<in>set (g_materializations sample_active). activatedAt \<le> m_updatedAt m \<and> m_updatedAt m < g_expiresAt sample_active \<and>
        activeChildCost m \<noteq> None)"
  by (rule active_grant_in_time [OF sample_ext_ok sample_active_parses]) (simp add: sample_active_def)

end
