(* ===== verification/Permission_Protocol.thy ===== *)
theory Permission_Protocol
  imports Grant_Lifecycle
begin

text \<open>
  Model of \<open>packages/protocol/src/permission-protocol.ts\<close> and \<open>workspace-account-context.ts\<close>: the
  permission request an application makes, the owner's decision, their canonical hashes, and
  \<open>applyPermissionDecision\<close>, which turns a requested Grant into an approved or rejected one.

  Where the code passes an object it has just built to another parser (\<open>createGrant({ ... })\<close>), the
  model passes the captured record of that object: a fresh object is always captured as written and
  aliases nothing. A parsed object passed on is passed as its literal.
\<close>

section \<open>Data\<close>

definition OAATH_PERMISSION_REQUEST_VERSION :: string where
  "OAATH_PERMISSION_REQUEST_VERSION = ''oaath.permission-request/v1''"

definition OAATH_PERMISSION_DECISION_VERSION :: string where
  "OAATH_PERMISSION_DECISION_VERSION = ''oaath.permission-decision/v1''"

definition OAATH_PERMISSION_REQUEST_HASH_DOMAIN :: string where
  "OAATH_PERMISSION_REQUEST_HASH_DOMAIN = ''@oaath/protocol:permission-request''"

definition OAATH_PERMISSION_DECISION_HASH_DOMAIN :: string where
  "OAATH_PERMISSION_DECISION_HASH_DOMAIN = ''@oaath/protocol:permission-decision''"

definition OPERATOR_PROFILE_HASH_DOMAIN :: string where
  "OPERATOR_PROFILE_HASH_DOMAIN = ''@oaath/protocol:operator-credential-profile''"

definition KERNEL_PROFILE_HASH_DOMAIN :: string where
  "KERNEL_PROFILE_HASH_DOMAIN = ''@oaath/protocol:kernel-account-profile''"

definition OAATH_WORKSPACE_ACCOUNT_CONTEXT_VERSION :: string where
  "OAATH_WORKSPACE_ACCOUNT_CONTEXT_VERSION = ''oaath.workspace-account-context/v1''"

definition ZERO_HASH :: string where
  "ZERO_HASH = ''0x'' @ replicate 64 (CHR ''0'')"

datatype workspace_kind = Personal | Team

record workspace_account_context =
  wc_workspaceId :: string
  wc_workspaceKind :: workspace_kind
  wc_accountId :: string

datatype signer_mode = Application_backend | Oaath_hosted

record permission_session_signer =
  ss_mode :: signer_mode
  ss_providerId :: string

record permission_request =
  pr_requestId :: string
  pr_context :: workspace_account_context
  pr_application :: application_binding
  pr_logicalAccount :: kernel_account_profile
  pr_operatorCredential :: operator_credential
  pr_policy :: grant_policy
  pr_requestedAt :: int
  pr_expiresAt :: int
  pr_sessionSigner :: "permission_session_signer option"

datatype permission_decision =
    RejectDecision (pd_requestId: string) (pd_requestHash: string) (pd_decidedAt: int)
  | ApproveDecision (pd_requestId: string) (pd_requestHash: string) (pd_decidedAt: int)
      (pd_approvedPolicy: grant_policy) (pd_capabilityHash: string)

datatype unavailable_reason = Decision_missing | Decision_timeout | Decision_unreadable

datatype permission_decision_observation =
    DecisionAvailable permission_decision
  | DecisionUnavailable unavailable_reason

datatype apply_result =
    DecisionPending unavailable_reason grant
  | DecisionApplied string grant
  | DecisionReplayed string grant

section \<open>Validators\<close>

abbreviation pp_err :: "permission_code \<Rightarrow> err" where
  "pp_err \<equiv> OaathPermissionProtocolError"

text \<open>An error of this module passes; any other becomes the given code.\<close>

definition pp_captureFailure :: "permission_code \<Rightarrow> err + 'a \<Rightarrow> err + 'a" where
  "pp_captureFailure code action =
     (case action of
        Inl (OaathPermissionProtocolError c) \<Rightarrow> Inl (pp_err c)
      | Inl _ \<Rightarrow> Inl (pp_err code)
      | Inr x \<Rightarrow> Inr x)"

definition safeUint48 :: "jsval \<Rightarrow> permission_code \<Rightarrow> err + int" where
  "safeUint48 v code = safe_integer 0 MAX_UINT48 v (pp_err code)"

definition pp_requestId :: "jsval \<Rightarrow> permission_code \<Rightarrow> err + string" where
  "pp_requestId v code = canonical_id v (pp_err code)"

definition pp_hash :: "jsval \<Rightarrow> permission_code \<Rightarrow> bool \<Rightarrow> err + string" where
  "pp_hash v code allowZero =
     bindE (fixed_hex 64 v (pp_err code)) (\<lambda>h.
     if \<not> allowZero \<and> h = ZERO_HASH then Inl (pp_err code) else Inr h)"

definition signer_modes :: "(string \<times> signer_mode) list" where
  "signer_modes = [(''application_backend'', Application_backend), (''oaath_hosted'', Oaath_hosted)]"

definition workspace_kinds :: "(string \<times> workspace_kind) list" where
  "workspace_kinds = [(''personal'', Personal), (''team'', Team)]"

definition unavailable_reasons :: "(string \<times> unavailable_reason) list" where
  "unavailable_reasons = [(''missing'', Decision_missing), (''timeout'', Decision_timeout),
     (''unreadable'', Decision_unreadable)]"

definition captureWorkspaceAccountContext :: "ext \<Rightarrow> err \<Rightarrow> jsval \<Rightarrow> (err, workspace_account_context) capture" where
  "captureWorkspaceAccountContext E fail v =
     bindC (exactRecord v [''version'', ''workspaceId'', ''workspaceKind'', ''accountId''] fail) (\<lambda>record.
     bindC (guardC (fld record ''version'' = JString OAATH_WORKSPACE_ACCOUNT_CONTEXT_VERSION) fail) (\<lambda>_.
     bindC (liftC (literal_of workspace_kinds (fld record ''workspaceKind'') fail)) (\<lambda>workspaceKind.
     bindC (liftC (parseClientId (fld record ''workspaceId'') fail)) (\<lambda>workspaceId.
     bindC (liftC (parseClientId (fld record ''accountId'') fail)) (\<lambda>accountId.
     returnC \<lparr>wc_workspaceId = workspaceId, wc_workspaceKind = workspaceKind, wc_accountId = accountId\<rparr>)))))"

definition parseWorkspaceAccountContext :: "ext \<Rightarrow> jsval \<Rightarrow> err + workspace_account_context" where
  "parseWorkspaceAccountContext E v =
     capturedByProtocol Workspace_account_context_invalid
       (runC (captureWorkspaceAccountContext E (OaathProtocolError Workspace_account_context_invalid) v))"

definition captureSessionSigner :: "ext \<Rightarrow> permission_code \<Rightarrow> jsval \<Rightarrow> (err, permission_session_signer) capture" where
  "captureSessionSigner E code v =
     bindC (exactRecord v [''mode'', ''providerId''] (pp_err code)) (\<lambda>record.
     bindC (liftC (literal_of signer_modes (fld record ''mode'') (pp_err code))) (\<lambda>mode.
     case fld record ''providerId'' of
       JString s \<Rightarrow>
         bindC (guardC (\<not> (length s < 1 \<or> length s > 256)) (pp_err code)) (\<lambda>_.
         returnC \<lparr>ss_mode = mode, ss_providerId = s\<rparr>)
     | _ \<Rightarrow> failC (pp_err code)))"

section \<open>Requests\<close>

text \<open>
  \<open>createGrant({ identity: { grantId, application, chainScope: "all", ... }, requestedAt, expiresAt })\<close>
  on the given field values.
\<close>

definition createRequestedGrant ::
    "ext \<Rightarrow> jsval \<Rightarrow> jsval \<Rightarrow> jsval \<Rightarrow> jsval \<Rightarrow> jsval \<Rightarrow> jsval \<Rightarrow> jsval \<Rightarrow> err + grant" where
  "createRequestedGrant E grantId application logicalAccount operatorCredential policyHash requestedAt expiresAt =
     runC (createGrantRecord
       (parseIdentityRecord E Grant_input_invalid (names
          [(''grantId'', grantId), (''application'', application), (''chainScope'', JString ''all''),
           (''logicalAccount'', logicalAccount), (''operatorCredential'', operatorCredential),
           (''policyHash'', policyHash)]))
       requestedAt expiresAt)"

definition policyOutlivesRequest :: "grant_policy \<Rightarrow> int \<Rightarrow> int \<Rightarrow> bool" where
  "policyOutlivesRequest policy requestedAt expiresAt =
     (case gp_validUntil policy of None \<Rightarrow> False | Some u \<Rightarrow> u < requestedAt \<or> u \<ge> expiresAt)"

definition captureRequest :: "ext \<Rightarrow> permission_code \<Rightarrow> jsval \<Rightarrow> (err, permission_request) capture" where
  "captureRequest E code v =
     bindC (exactRecord v [''version'', ''requestId'', ''context'', ''application'', ''chainScope'',
              ''logicalAccount'', ''operatorCredential'', ''policy'', ''requestedAt'', ''expiresAt'',
              ''sessionSigner''] (pp_err code)) (\<lambda>record.
     bindC (guardC (fld record ''version'' = JString OAATH_PERMISSION_REQUEST_VERSION) (pp_err code)) (\<lambda>_.
     bindC (guardC (fld record ''chainScope'' = JString ''all'') (pp_err code)) (\<lambda>_.
     bindC (liftC (parseGrantPolicy E (fld record ''policy''))) (\<lambda>policy.
     bindC (liftC (safeUint48 (fld record ''requestedAt'') code)) (\<lambda>requestedAt.
     bindC (liftC (safeUint48 (fld record ''expiresAt'') code)) (\<lambda>expiresAt.
     bindC (guardC (\<not> expiresAt \<le> requestedAt) (pp_err code)) (\<lambda>_.
     bindC (guardC (\<not> policyOutlivesRequest policy requestedAt expiresAt) (pp_err code)) (\<lambda>_.
     bindC (liftC (pp_requestId (fld record ''requestId'') code)) (\<lambda>requestId.
     bindC (liftC (hashGrantPolicy E (policy_literal [] policy))) (\<lambda>policyHash.
     bindC (liftC (createRequestedGrant E (JString requestId) (fld record ''application'')
              (fld record ''logicalAccount'') (fld record ''operatorCredential'') (JString policyHash)
              (jint requestedAt) (jint expiresAt))) (\<lambda>grant.
     bindC (liftC (parseWorkspaceAccountContext E (fld record ''context''))) (\<lambda>ctxt.
     bindC (nullableC (captureSessionSigner E code) (fld record ''sessionSigner'')) (\<lambda>sessionSigner.
     returnC \<lparr>pr_requestId = gi_grantId (g_identity grant), pr_context = ctxt,
       pr_application = gi_application (g_identity grant),
       pr_logicalAccount = gi_logicalAccount (g_identity grant),
       pr_operatorCredential = gi_operatorCredential (g_identity grant), pr_policy = policy,
       pr_requestedAt = requestedAt, pr_expiresAt = expiresAt, pr_sessionSigner = sessionSigner\<rparr>)))))))))))))"

definition parsePermissionRequest :: "ext \<Rightarrow> jsval \<Rightarrow> err + permission_request" where
  "parsePermissionRequest E v =
     pp_captureFailure Permission_request_invalid (runC (captureRequest E Permission_request_invalid v))"

section \<open>Hashes of a request\<close>

definition kernel_version_name :: "kernel_version \<Rightarrow> string" where
  "kernel_version_name v = (case v of V0_4_0 \<Rightarrow> ''0.4.0'' | V0_3_3 \<Rightarrow> ''0.3.3'')"

definition factory_route_name :: "factory_route \<Rightarrow> string" where
  "factory_route_name r = (case r of Kernel_factory \<Rightarrow> ''kernel_factory'' | Meta_factory \<Rightarrow> ''meta_factory'')"

definition entry_point_name :: "entry_point_version \<Rightarrow> string" where
  "entry_point_name ep = (case ep of EP_0_9 \<Rightarrow> ''0.9'' | EP_0_7 \<Rightarrow> ''0.7'')"

definition kernel_abi :: "kernel_account_profile \<Rightarrow> string \<Rightarrow> abi list" where
  "kernel_abi profile ownerHash =
     (case profile of
        KernelExisting version address entryPoint _ \<Rightarrow>
          [AbiString KERNEL_PROFILE_HASH_DOMAIN, AbiString OAATH_KERNEL_EXISTING_ACCOUNT_PROFILE_VERSION,
           AbiString ''kernel'', AbiString (kernel_version_name version), AbiAddress address,
           AbiString (entry_point_name entryPoint), AbiFixedBytes 32 ownerHash]
      | KernelDerived index route _ \<Rightarrow>
          [AbiString KERNEL_PROFILE_HASH_DOMAIN, AbiString OAATH_KERNEL_ACCOUNT_PROFILE_VERSION,
           AbiString ''kernel'', AbiUint 256 (BigInt index), AbiString (kernel_version_name V0_4_0),
           AbiString (factory_route_name route), AbiString (entry_point_name EP_0_9),
           AbiFixedBytes 32 ownerHash])"

definition hashKernelAccountProfile :: "ext \<Rightarrow> kernel_account_profile \<Rightarrow> err + string" where
  "hashKernelAccountProfile E profile =
     bindE (hashOwnerCredentialProfile E (owner_literal [] (kp_ownerCredential profile))) (\<lambda>ownerHash.
     Inr (keccak256 E (encodeAbiParameters E (kernel_abi profile ownerHash))))"

definition operator_abi :: "operator_credential \<Rightarrow> abi list" where
  "operator_abi profile =
     [AbiString OPERATOR_PROFILE_HASH_DOMAIN, AbiString OAATH_OPERATOR_CREDENTIAL_PROFILE_VERSION] @
     (case profile of
        OperatorEcdsa address \<Rightarrow> [AbiString ''ecdsa'', AbiAddress address]
      | OperatorWebAuthn publicKey authenticatorIdHash \<Rightarrow>
          [AbiString ''webauthn'', AbiBytes publicKey, AbiFixedBytes 32 authenticatorIdHash])"

definition hashOperatorCredential :: "ext \<Rightarrow> operator_credential \<Rightarrow> string" where
  "hashOperatorCredential E profile = keccak256 E (encodeAbiParameters E (operator_abi profile))"

definition workspace_kind_name :: "workspace_kind \<Rightarrow> string" where
  "workspace_kind_name k = (case k of Personal \<Rightarrow> ''personal'' | Team \<Rightarrow> ''team'')"

definition signer_mode_name :: "signer_mode \<Rightarrow> string" where
  "signer_mode_name m = (case m of Application_backend \<Rightarrow> ''application_backend'' | Oaath_hosted \<Rightarrow> ''oaath_hosted'')"

definition request_abi :: "permission_request \<Rightarrow> string \<Rightarrow> string \<Rightarrow> string \<Rightarrow> abi list" where
  "request_abi request accountHash operatorHash policyHash =
     [AbiString OAATH_PERMISSION_REQUEST_HASH_DOMAIN, AbiString OAATH_PERMISSION_REQUEST_VERSION,
      AbiString (pr_requestId request), AbiString ''all'',
      AbiTuple [AbiString (ab_applicationId (pr_application request)), AbiString (ab_clientId (pr_application request)),
        AbiString (ab_origin (pr_application request)), AbiString (ab_deviceId (pr_application request))],
      AbiTuple [AbiString OAATH_WORKSPACE_ACCOUNT_CONTEXT_VERSION, AbiString (wc_workspaceId (pr_context request)),
        AbiString (workspace_kind_name (wc_workspaceKind (pr_context request))),
        AbiString (wc_accountId (pr_context request))],
      AbiFixedBytes 32 accountHash, AbiFixedBytes 32 operatorHash, AbiFixedBytes 32 policyHash,
      AbiUint 48 (pr_requestedAt request), AbiUint 48 (pr_expiresAt request),
      AbiString (case pr_sessionSigner request of None \<Rightarrow> ''frontend'' | Some s \<Rightarrow> signer_mode_name (ss_mode s)),
      AbiString (case pr_sessionSigner request of None \<Rightarrow> '''' | Some s \<Rightarrow> ss_providerId s)]"

definition encodeCapturedPermissionRequest :: "ext \<Rightarrow> permission_request \<Rightarrow> err + string" where
  "encodeCapturedPermissionRequest E request =
     bindE (hashKernelAccountProfile E (pr_logicalAccount request)) (\<lambda>accountHash.
     bindE (hashGrantPolicy E (policy_literal [] (pr_policy request))) (\<lambda>policyHash.
     Inr (encodeAbiParameters E
       (request_abi request accountHash (hashOperatorCredential E (pr_operatorCredential request)) policyHash))))"

definition encodePermissionRequest :: "ext \<Rightarrow> jsval \<Rightarrow> err + string" where
  "encodePermissionRequest E v =
     bindE (parsePermissionRequest E v) (\<lambda>request. encodeCapturedPermissionRequest E request)"

definition hashPermissionRequest :: "ext \<Rightarrow> jsval \<Rightarrow> err + string" where
  "hashPermissionRequest E v = bindE (encodePermissionRequest E v) (\<lambda>encoded. Inr (keccak256 E encoded))"

definition grantFromCapturedRequest :: "ext \<Rightarrow> permission_request \<Rightarrow> err + grant" where
  "grantFromCapturedRequest E request =
     bindE (hashGrantPolicy E (policy_literal [] (pr_policy request))) (\<lambda>policyHash.
     createRequestedGrant E (JString (pr_requestId request))
       (application_literal (at [] ''application'') (pr_application request))
       (kernel_literal (at [] ''logicalAccount'') (pr_logicalAccount request))
       (operator_literal (at [] ''operatorCredential'') (pr_operatorCredential request))
       (JString policyHash) (jint (pr_requestedAt request)) (jint (pr_expiresAt request)))"

definition createGrantFromPermissionRequest :: "ext \<Rightarrow> jsval \<Rightarrow> err + grant" where
  "createGrantFromPermissionRequest E v =
     bindE (parsePermissionRequest E v) (\<lambda>request. grantFromCapturedRequest E request)"

section \<open>Decisions\<close>

definition captureReject :: "permission_code \<Rightarrow> fields \<Rightarrow> (err, permission_decision) capture" where
  "captureReject code captured =
     bindC (exactCapturedRecord captured [''version'', ''kind'', ''requestId'', ''requestHash'', ''decidedAt'']
              (pp_err code)) (\<lambda>record.
     bindC (guardC (fld record ''version'' = JString OAATH_PERMISSION_DECISION_VERSION) (pp_err code)) (\<lambda>_.
     bindC (liftC (pp_requestId (fld record ''requestId'') code)) (\<lambda>requestId.
     bindC (liftC (pp_hash (fld record ''requestHash'') code True)) (\<lambda>requestHash.
     bindC (liftC (safeUint48 (fld record ''decidedAt'') code)) (\<lambda>decidedAt.
     returnC (RejectDecision requestId requestHash decidedAt))))))"

definition captureApproveDecision :: "ext \<Rightarrow> permission_code \<Rightarrow> fields \<Rightarrow> (err, permission_decision) capture" where
  "captureApproveDecision E code captured =
     bindC (exactCapturedRecord captured [''version'', ''kind'', ''requestId'', ''requestHash'', ''decidedAt'',
              ''approvedPolicy'', ''capabilityHash''] (pp_err code)) (\<lambda>record.
     bindC (guardC (fld record ''version'' = JString OAATH_PERMISSION_DECISION_VERSION) (pp_err code)) (\<lambda>_.
     bindC (liftC (pp_requestId (fld record ''requestId'') code)) (\<lambda>requestId.
     bindC (liftC (pp_hash (fld record ''requestHash'') code True)) (\<lambda>requestHash.
     bindC (liftC (safeUint48 (fld record ''decidedAt'') code)) (\<lambda>decidedAt.
     bindC (liftC (parseGrantPolicy E (fld record ''approvedPolicy''))) (\<lambda>approvedPolicy.
     bindC (liftC (pp_hash (fld record ''capabilityHash'') code False)) (\<lambda>capabilityHash.
     returnC (ApproveDecision requestId requestHash decidedAt approvedPolicy capabilityHash))))))))"

definition captureDecision :: "ext \<Rightarrow> permission_code \<Rightarrow> jsval \<Rightarrow> (err, permission_decision) capture" where
  "captureDecision E code v =
     bindC (captureRecord v (pp_err code)) (\<lambda>captured.
     if fld captured ''kind'' = JString ''reject'' then captureReject code captured
     else if fld captured ''kind'' = JString ''approve'' then captureApproveDecision E code captured
     else failC (pp_err code))"

definition parsePermissionDecision :: "ext \<Rightarrow> jsval \<Rightarrow> err + permission_decision" where
  "parsePermissionDecision E v =
     pp_captureFailure Permission_decision_invalid (runC (captureDecision E Permission_decision_invalid v))"

definition decision_abi :: "permission_decision \<Rightarrow> string \<Rightarrow> abi list" where
  "decision_abi decision policyHash =
     [AbiString OAATH_PERMISSION_DECISION_HASH_DOMAIN, AbiString OAATH_PERMISSION_DECISION_VERSION,
      AbiString (case decision of RejectDecision _ _ _ \<Rightarrow> ''reject'' | _ \<Rightarrow> ''approve''),
      AbiString (pd_requestId decision), AbiFixedBytes 32 (pd_requestHash decision),
      AbiUint 48 (pd_decidedAt decision)] @
     (case decision of
        RejectDecision _ _ _ \<Rightarrow> []
      | ApproveDecision _ _ _ _ capabilityHash \<Rightarrow> [AbiFixedBytes 32 policyHash, AbiFixedBytes 32 capabilityHash])"

definition encodeCapturedPermissionDecision :: "ext \<Rightarrow> permission_decision \<Rightarrow> err + string" where
  "encodeCapturedPermissionDecision E decision =
     (case decision of
        RejectDecision _ _ _ \<Rightarrow> Inr (encodeAbiParameters E (decision_abi decision ''''))
      | ApproveDecision _ _ _ approvedPolicy _ \<Rightarrow>
          bindE (hashGrantPolicy E (policy_literal [] approvedPolicy)) (\<lambda>policyHash.
          Inr (encodeAbiParameters E (decision_abi decision policyHash))))"

definition encodePermissionDecision :: "ext \<Rightarrow> jsval \<Rightarrow> err + string" where
  "encodePermissionDecision E v =
     bindE (parsePermissionDecision E v) (\<lambda>decision. encodeCapturedPermissionDecision E decision)"

definition hashPermissionDecision :: "ext \<Rightarrow> jsval \<Rightarrow> err + string" where
  "hashPermissionDecision E v = bindE (encodePermissionDecision E v) (\<lambda>encoded. Inr (keccak256 E encoded))"

definition captureObservation :: "ext \<Rightarrow> permission_code \<Rightarrow> jsval \<Rightarrow> (err, permission_decision_observation) capture" where
  "captureObservation E code v =
     bindC (captureRecord v (pp_err code)) (\<lambda>captured.
     if fld captured ''status'' = JString ''available'' then
       bindC (exactCapturedRecord captured [''status'', ''decision''] (pp_err code)) (\<lambda>record.
       bindC (captureDecision E code (fld record ''decision'')) (\<lambda>decision.
       returnC (DecisionAvailable decision)))
     else
       bindC (exactCapturedRecord captured [''status'', ''reason''] (pp_err code)) (\<lambda>record.
       bindC (guardC (fld record ''status'' = JString ''unavailable'') (pp_err code)) (\<lambda>_.
       bindC (liftC (literal_of unavailable_reasons (fld record ''reason'') (pp_err code))) (\<lambda>reason.
       returnC (DecisionUnavailable reason)))))"

section \<open>Applying a decision\<close>

definition requireRequestGrantBinding :: "ext \<Rightarrow> permission_request \<Rightarrow> grant \<Rightarrow> err + unit" where
  "requireRequestGrantBinding E request grant =
     bindE (grantFromCapturedRequest E request) (\<lambda>expected.
     if \<not> sameGrantIdentity (g_identity expected) (g_identity grant) \<or>
        g_requestedAt expected \<noteq> g_requestedAt grant \<or> g_expiresAt expected \<noteq> g_expiresAt grant
     then Inl (pp_err Permission_request_binding_mismatch) else Inr ())"

definition requireDecisionRequestBinding :: "ext \<Rightarrow> permission_request \<Rightarrow> permission_decision \<Rightarrow> err + unit" where
  "requireDecisionRequestBinding E request decision =
     bindE (if pd_requestId decision \<noteq> pr_requestId request then Inl (pp_err Permission_decision_binding_mismatch)
            else bindE (encodeCapturedPermissionRequest E request) (\<lambda>encoded.
              guardE (pd_requestHash decision = keccak256 E encoded) (pp_err Permission_decision_binding_mismatch))) (\<lambda>_.
     bindE (guardE (\<not> (pd_decidedAt decision < pr_requestedAt request \<or> pd_decidedAt decision \<ge> pr_expiresAt request))
              (pp_err Permission_decision_stale)) (\<lambda>_.
     case decision of
       RejectDecision _ _ _ \<Rightarrow> Inr ()
     | ApproveDecision _ _ _ approvedPolicy _ \<Rightarrow>
         bindE (isGrantPolicyAttenuation E (policy_literal [] (pr_policy request)) (policy_literal [] approvedPolicy))
           (\<lambda>attenuates. guardE attenuates (pp_err Permission_policy_widening))))"

definition replayMatches :: "grant \<Rightarrow> permission_decision \<Rightarrow> string \<Rightarrow> bool" where
  "replayMatches grant decision decisionHash =
     (case decision of
        RejectDecision _ _ decidedAt \<Rightarrow>
          g_state grant = GRejected \<and>
          (case g_terminal grant of Some (TRejected recordedAt) \<Rightarrow> recordedAt = decidedAt | _ \<Rightarrow> False)
      | ApproveDecision _ _ decidedAt _ capabilityHash \<Rightarrow>
          (case g_approval grant of
             None \<Rightarrow> False
           | Some a \<Rightarrow> ap_approvalHash a = decisionHash \<and> ap_capabilityHash a = capabilityHash \<and>
               ap_approvedAt a = decidedAt))"

definition decision_transition :: "ref \<Rightarrow> grant \<Rightarrow> permission_decision \<Rightarrow> string \<Rightarrow> jsval" where
  "decision_transition p grant decision decisionHash =
     (case decision of
        RejectDecision _ _ decidedAt \<Rightarrow> mk_obj p
          [(''type'', JString ''reject''), (''identity'', identity_literal (at p ''identity'') (g_identity grant)),
           (''rejectedAt'', jint decidedAt)]
      | ApproveDecision _ _ decidedAt _ capabilityHash \<Rightarrow> mk_obj p
          [(''type'', JString ''approve''), (''identity'', identity_literal (at p ''identity'') (g_identity grant)),
           (''approval'', approval_literal (at p ''approval'')
              \<lparr>ap_approvalHash = decisionHash, ap_capabilityHash = capabilityHash, ap_approvedAt = decidedAt\<rparr>)])"

definition policyExpired :: "permission_decision \<Rightarrow> int \<Rightarrow> bool" where
  "policyExpired decision evaluatedAt =
     (case decision of
        RejectDecision _ _ _ \<Rightarrow> False
      | ApproveDecision _ _ _ approvedPolicy _ \<Rightarrow>
          (case gp_validUntil approvedPolicy of None \<Rightarrow> False | Some u \<Rightarrow> evaluatedAt > u))"

definition applyAvailableDecision ::
    "ext \<Rightarrow> permission_request \<Rightarrow> grant \<Rightarrow> permission_decision \<Rightarrow> int \<Rightarrow> err + apply_result" where
  "applyAvailableDecision E request grant decision evaluatedAt =
     bindE (requireDecisionRequestBinding E request decision) (\<lambda>_.
     bindE (encodeCapturedPermissionDecision E decision) (\<lambda>encoded.
     let decisionHash = keccak256 E encoded in
     if replayMatches grant decision decisionHash then Inr (DecisionReplayed decisionHash grant)
     else if g_state grant \<noteq> GRequested then Inl (pp_err Permission_decision_conflict)
     else if pd_decidedAt decision > evaluatedAt \<or> evaluatedAt \<ge> pr_expiresAt request
     then Inl (pp_err Permission_decision_stale)
     else if policyExpired decision evaluatedAt then Inl (pp_err Permission_decision_stale)
     else bindE (advanceGrant E (grant_literal [] grant) (decision_transition [] grant decision decisionHash)) (\<lambda>nextGrant.
          Inr (DecisionApplied decisionHash nextGrant))))"

definition captureApplyInput ::
    "ext \<Rightarrow> jsval \<Rightarrow> (err, permission_request \<times> grant \<times> permission_decision_observation \<times> int) capture" where
  "captureApplyInput E v =
     (let code = Permission_protocol_input_invalid in
      bindC (exactRecord v [''request'', ''grant'', ''observation'', ''evaluatedAt''] (pp_err code)) (\<lambda>record.
      bindC (captureRequest E code (fld record ''request'')) (\<lambda>request.
      bindC (liftC (parseGrant E (fld record ''grant''))) (\<lambda>grant.
      bindC (captureObservation E code (fld record ''observation'')) (\<lambda>observation.
      bindC (liftC (safeUint48 (fld record ''evaluatedAt'') code)) (\<lambda>evaluatedAt.
      returnC (request, grant, observation, evaluatedAt)))))))"

definition applyCaptured ::
    "ext \<Rightarrow> permission_request \<times> grant \<times> permission_decision_observation \<times> int \<Rightarrow> err + apply_result" where
  "applyCaptured E input =
     (case input of (request, grant, observation, evaluatedAt) \<Rightarrow>
      bindE (requireRequestGrantBinding E request grant) (\<lambda>_.
      case observation of
        DecisionUnavailable reason \<Rightarrow> Inr (DecisionPending reason grant)
      | DecisionAvailable decision \<Rightarrow> applyAvailableDecision E request grant decision evaluatedAt))"

definition applyPermissionDecision :: "ext \<Rightarrow> jsval \<Rightarrow> err + apply_result" where
  "applyPermissionDecision E v =
     pp_captureFailure Permission_protocol_input_invalid (bindE (runC (captureApplyInput E v)) (applyCaptured E))"

section \<open>What the captures guarantee\<close>

definition time48 :: "int \<Rightarrow> bool" where
  "time48 n \<longleftrightarrow> 0 \<le> n \<and> n \<le> MAX_UINT48"

definition wf_context :: "workspace_account_context \<Rightarrow> bool" where
  "wf_context w \<longleftrightarrow> identifier_re (wc_workspaceId w) \<and> identifier_re (wc_accountId w)"

definition wf_signer :: "permission_session_signer \<Rightarrow> bool" where
  "wf_signer s \<longleftrightarrow> 1 \<le> length (ss_providerId s) \<and> length (ss_providerId s) \<le> 256"

definition wf_request :: "ext \<Rightarrow> permission_request \<Rightarrow> bool" where
  "wf_request E r \<longleftrightarrow> id_ok (pr_requestId r) \<and> wf_context (pr_context r) \<and> wf_application E (pr_application r) \<and>
     wf_kernel E (pr_logicalAccount r) \<and> wf_operator E (pr_operatorCredential r) \<and> wf_policy (pr_policy r) \<and>
     time48 (pr_requestedAt r) \<and> time48 (pr_expiresAt r) \<and> pr_requestedAt r < pr_expiresAt r \<and>
     \<not> policyOutlivesRequest (pr_policy r) (pr_requestedAt r) (pr_expiresAt r) \<and>
     pred_option wf_signer (pr_sessionSigner r)"

fun wf_decision :: "permission_decision \<Rightarrow> bool" where
  "wf_decision (RejectDecision i h t) = (id_ok i \<and> lower_hex 64 h \<and> time48 t)"
| "wf_decision (ApproveDecision i h t p c) =
     (id_ok i \<and> lower_hex 64 h \<and> time48 t \<and> wf_policy p \<and> lower_hex 64 c \<and> c \<noteq> ZERO_HASH)"

fun wf_observation :: "permission_decision_observation \<Rightarrow> bool" where
  "wf_observation (DecisionAvailable d) = wf_decision d"
| "wf_observation (DecisionUnavailable _) = True"

lemma safeUint48_Inr [simp]: "safeUint48 v code = Inr n \<longleftrightarrow> v = jint n \<and> time48 n"
  using MAX_UINT48_safe by (auto simp: safeUint48_def safe_integer_Inr time48_def)

lemma safeUint48_jint [js_simps]: "time48 n \<Longrightarrow> safeUint48 (jint n) code = Inr n"
  by simp

lemma pp_hash_Inr [simp]:
  "pp_hash v code allowZero = Inr h \<longleftrightarrow> v = JString h \<and> lower_hex 64 h \<and> (allowZero \<or> h \<noteq> ZERO_HASH)"
  by (auto simp: pp_hash_def bindE_Inr split: if_splits)

lemma pp_hash_string [js_simps]:
  "lower_hex 64 h \<Longrightarrow> allowZero \<or> h \<noteq> ZERO_HASH \<Longrightarrow> pp_hash (JString h) code allowZero = Inr h"
  by simp

lemma time48_int_ok: "time48 n \<Longrightarrow> int_ok 0 n"
  using MAX_UINT48_safe by (auto simp: time48_def int_ok_def)

definition requested_grant :: "grant_identity \<Rightarrow> int \<Rightarrow> int \<Rightarrow> grant" where
  "requested_grant identity requestedAt expiresAt =
     \<lparr>g_identity = identity, g_revision = 0, g_state = GRequested, g_requestedAt = requestedAt,
      g_expiresAt = expiresAt, g_updatedAt = requestedAt, g_approval = None, g_activatedAt = None,
      g_revocationStartedAt = None, g_revocation = None, g_capabilityInvalidation = None,
      g_terminal = None, g_materializations = []\<rparr>"

lemma createRequestedGrant_sound:
  assumes "ext_ok E" and "createRequestedGrant E (JString s) a k c (JString h) (jint q) (jint x) = Inr g"
  shows "\<exists>i. wf_identity E i \<and> gi_grantId i = s \<and> gi_policyHash i = h \<and> q < x \<and> g = requested_grant i q x"
  using assms(2)
  unfolding createRequestedGrant_def createGrantRecord_def parseIdentityRecord_def runC_Inr
    captureOperatorCredentialProfile_def bindC_assoc
  by (elim exE bindC_InrE)
    (auto simp: g_field_defs wf_identity_def requested_grant_def js_simps dest!: parseApplicationBinding_sound [OF assms(1)]
      captureKernelAccountProfile_sound [OF assms(1)] captureOperatorCredential_sound [OF assms(1)])

lemma createRequestedGrant_literal:
  assumes "ext_ok E" "wf_identity E i" "int_ok 0 q" "int_ok 0 x" "q < x"
  shows "createRequestedGrant E (JString (gi_grantId i)) (application_literal (at p ''application'') (gi_application i))
    (kernel_literal (at p ''logicalAccount'') (gi_logicalAccount i))
    (operator_literal (at p ''operatorCredential'') (gi_operatorCredential i)) (JString (gi_policyHash i)) (jint q) (jint x)
    = (if origin_fits (gi_application i) then Inr (requested_grant i q x) else Inl (g_err Grant_input_invalid))"
proof (cases "origin_fits (gi_application i)")
  case True
  have w: "within p {} {}" by (simp add: within_def)
  show ?thesis
    unfolding createRequestedGrant_def createGrantRecord_def parseIdentityRecord_def
      captureOperatorCredentialProfile_def bindC_assoc
    apply (simp only: True if_True)
    apply (rule reads_run [where p = p])
    apply (insert True assms(2-5), simp add: js_simps g_field_defs wf_identity_def)
    apply (rule application_codec.bind_field [OF w], simp, rule assms(1), simp)
    apply (rule kernel_codec.bind_field, assumption, simp, rule assms(1), simp)
    apply (rule operator_codec.bind_field, assumption, simp, rule assms(1), simp)
    apply (simp add: js_simps requested_grant_def)
    done
next
  case False
  have "parseApplicationBinding E Grant_input_invalid (application_literal (at p ''application'') (gi_application i)) {} =
      Inl (g_err Grant_input_invalid)"
    using False assms(2) by (intro parseApplicationBinding_refuses) (simp_all add: wf_identity_def)
  then show ?thesis
    using False assms(2)
    by (simp add: createRequestedGrant_def createGrantRecord_def parseIdentityRecord_def bindC_assoc js_simps g_field_defs
        wf_identity_def runC_def refuses_bind)
qed

definition policy_hash :: "ext \<Rightarrow> grant_policy \<Rightarrow> string" where
  "policy_hash E p = keccak256 E (encodeCapturedGrantPolicy E p)"

lemma hashGrantPolicy_literal:
  "ext_ok E \<Longrightarrow> wf_policy q \<Longrightarrow> hashGrantPolicy E (policy_literal p q) = Inr (policy_hash E q)"
  by (simp add: hashGrantPolicy_def encodeGrantPolicy_def parseGrantPolicy_def policy_codec.parse_literal policy_hash_def)

lemma keccak_hex: "ext_ok E \<Longrightarrow> lower_hex 64 (keccak256 E s)"
  by (simp add: ext_ok_def)

lemma policy_hash_hex: "ext_ok E \<Longrightarrow> lower_hex 64 (policy_hash E q)"
  by (simp add: policy_hash_def keccak_hex)

lemma parseGrantPolicy_wf: "ext_ok E \<Longrightarrow> parseGrantPolicy E v = Inr q \<Longrightarrow> wf_policy q"
  by (auto simp: parseGrantPolicy_def runC_Inr dest: capturePolicy_sound)

text \<open>The identity a request stands for.\<close>

definition request_identity :: "ext \<Rightarrow> permission_request \<Rightarrow> grant_identity" where
  "request_identity E r = \<lparr>gi_grantId = pr_requestId r, gi_application = pr_application r,
     gi_logicalAccount = pr_logicalAccount r, gi_operatorCredential = pr_operatorCredential r,
     gi_policyHash = policy_hash E (pr_policy r)\<rparr>"

lemma request_identity_wf: "ext_ok E \<Longrightarrow> wf_request E r \<Longrightarrow> wf_identity E (request_identity E r)"
  by (simp add: wf_request_def request_identity_def wf_identity_def policy_hash_hex)

lemma grantFromCapturedRequest_eq:
  assumes "ext_ok E" "wf_request E r"
  shows "grantFromCapturedRequest E r =
    (if origin_fits (pr_application r) then Inr (requested_grant (request_identity E r) (pr_requestedAt r) (pr_expiresAt r))
     else Inl (g_err Grant_input_invalid))"
  using createRequestedGrant_literal [OF assms(1) request_identity_wf [OF assms], of "pr_requestedAt r" "pr_expiresAt r" "[]"]
    assms time48_int_ok
  by (simp add: grantFromCapturedRequest_def hashGrantPolicy_literal wf_request_def request_identity_def)

lemma pp_captureFailure_Inr [simp]: "pp_captureFailure code r = Inr x \<longleftrightarrow> r = Inr x"
  by (auto simp: pp_captureFailure_def split: sum.splits err.splits)

lemma captureWorkspaceAccountContext_sound: "captureWorkspaceAccountContext E fail v c = Inr (w, c') \<Longrightarrow> wf_context w"
  unfolding captureWorkspaceAccountContext_def parseClientId_def
  by (elim bindC_InrE) (auto simp: wf_context_def)

lemma captureSessionSigner_sound: "captureSessionSigner E code v c = Inr (s, c') \<Longrightarrow> wf_signer s"
  unfolding captureSessionSigner_def
  by (elim bindC_InrE) (auto simp: wf_signer_def Suc_le_eq elim!: bindC_InrE split: jsval.splits)

lemma captureRequest_sound:
  assumes "ext_ok E" and "captureRequest E code v c = Inr (r, c')"
  shows "wf_request E r"
  using assms(2)
  unfolding captureRequest_def parseWorkspaceAccountContext_def
  by (elim bindC_InrE nullableC_InrE)
    (auto simp: wf_request_def pp_requestId_def runC_Inr requested_grant_def wf_identity_def
      dest!: createRequestedGrant_sound [OF assms(1)] dest: parseGrantPolicy_wf [OF assms(1)]
        captureWorkspaceAccountContext_sound captureSessionSigner_sound)

section \<open>Literals\<close>

definition context_literal :: "ref \<Rightarrow> workspace_account_context \<Rightarrow> jsval" where
  "context_literal p w = mk_obj p
     [(''version'', JString OAATH_WORKSPACE_ACCOUNT_CONTEXT_VERSION), (''workspaceId'', JString (wc_workspaceId w)),
      (''workspaceKind'', JString (workspace_kind_name (wc_workspaceKind w))), (''accountId'', JString (wc_accountId w))]"

definition signer_literal :: "ref \<Rightarrow> permission_session_signer \<Rightarrow> jsval" where
  "signer_literal p s = mk_obj p
     [(''mode'', JString (signer_mode_name (ss_mode s))), (''providerId'', JString (ss_providerId s))]"

definition request_literal :: "ref \<Rightarrow> permission_request \<Rightarrow> jsval" where
  "request_literal p r = mk_obj p
     [(''version'', JString OAATH_PERMISSION_REQUEST_VERSION), (''requestId'', JString (pr_requestId r)),
      (''context'', context_literal (at p ''context'') (pr_context r)),
      (''application'', application_literal (at p ''application'') (pr_application r)),
      (''chainScope'', JString ''all''),
      (''logicalAccount'', kernel_literal (at p ''logicalAccount'') (pr_logicalAccount r)),
      (''operatorCredential'', operator_literal (at p ''operatorCredential'') (pr_operatorCredential r)),
      (''policy'', policy_literal (at p ''policy'') (pr_policy r)),
      (''requestedAt'', jint (pr_requestedAt r)), (''expiresAt'', jint (pr_expiresAt r)),
      (''sessionSigner'', nullable (signer_literal (at p ''sessionSigner'')) (pr_sessionSigner r))]"

fun decision_literal :: "ref \<Rightarrow> permission_decision \<Rightarrow> jsval" where
  "decision_literal p (RejectDecision i h t) = mk_obj p
     [(''version'', JString OAATH_PERMISSION_DECISION_VERSION), (''kind'', JString ''reject''),
      (''requestId'', JString i), (''requestHash'', JString h), (''decidedAt'', jint t)]"
| "decision_literal p (ApproveDecision i h t q c) = mk_obj p
     [(''version'', JString OAATH_PERMISSION_DECISION_VERSION), (''kind'', JString ''approve''),
      (''requestId'', JString i), (''requestHash'', JString h), (''decidedAt'', jint t),
      (''approvedPolicy'', policy_literal (at p ''approvedPolicy'') q), (''capabilityHash'', JString c)]"

definition unavailable_reason_name :: "unavailable_reason \<Rightarrow> string" where
  "unavailable_reason_name r =
     (case r of Decision_missing \<Rightarrow> ''missing'' | Decision_timeout \<Rightarrow> ''timeout'' | Decision_unreadable \<Rightarrow> ''unreadable'')"

fun observation_literal :: "ref \<Rightarrow> permission_decision_observation \<Rightarrow> jsval" where
  "observation_literal p (DecisionAvailable d) = mk_obj p
     [(''status'', JString ''available''), (''decision'', decision_literal (at p ''decision'') d)]"
| "observation_literal p (DecisionUnavailable r) = mk_obj p
     [(''status'', JString ''unavailable''), (''reason'', JString (unavailable_reason_name r))]"

definition apply_literal :: "ref \<Rightarrow> permission_request \<Rightarrow> grant \<Rightarrow> permission_decision_observation \<Rightarrow> int \<Rightarrow> jsval" where
  "apply_literal p r g w t = mk_obj p
     [(''request'', request_literal (at p ''request'') r), (''grant'', grant_literal (at p ''grant'') g),
      (''observation'', observation_literal (at p ''observation'') w), (''evaluatedAt'', jint t)]"

section \<open>The captures and the literals keep the interface\<close>

lemma pp_record_eta [js_simps]:
  "\<lparr>wc_workspaceId = wc_workspaceId w, wc_workspaceKind = wc_workspaceKind w, wc_accountId = wc_accountId w\<rparr> = w"
  "\<lparr>ss_mode = ss_mode s, ss_providerId = ss_providerId s\<rparr> = s"
  "\<lparr>pr_requestId = pr_requestId r, pr_context = pr_context r, pr_application = pr_application r,
    pr_logicalAccount = pr_logicalAccount r, pr_operatorCredential = pr_operatorCredential r, pr_policy = pr_policy r,
    pr_requestedAt = pr_requestedAt r, pr_expiresAt = pr_expiresAt r, pr_sessionSigner = pr_sessionSigner r\<rparr> = r"
  by simp_all

lemma pp_literal_not_null [simp]:
  "context_literal p w \<noteq> JNull" "signer_literal p s \<noteq> JNull" "request_literal p r \<noteq> JNull"
  by (simp_all add: context_literal_def signer_literal_def request_literal_def)

lemma pp_literal_not_null_cases [simp]: "decision_literal p d \<noteq> JNull" "observation_literal p w \<noteq> JNull"
  by (cases d, simp_all) (cases w, simp_all)

lemma workspace_kinds_name [js_simps]: "map_of workspace_kinds (workspace_kind_name k) = Some k"
  by (cases k) (simp_all add: workspace_kinds_def workspace_kind_name_def)

lemma signer_modes_name [js_simps]: "map_of signer_modes (signer_mode_name m) = Some m"
  by (cases m) (simp_all add: signer_modes_def signer_mode_name_def)

lemma unavailable_reasons_name [js_simps]: "map_of unavailable_reasons (unavailable_reason_name r) = Some r"
  by (cases r) (simp_all add: unavailable_reasons_def unavailable_reason_name_def)

lemma captureWorkspaceAccountContext_complete:
  "wf_context w \<Longrightarrow> fresh p c \<Longrightarrow> reads (captureWorkspaceAccountContext E fail (context_literal p w)) c p w"
  unfolding captureWorkspaceAccountContext_def context_literal_def parseClientId_def
  by (intro reads_exact) (simp_all add: js_simps wf_context_def)

interpretation context_codec: codec captureWorkspaceAccountContext context_literal "\<lambda>_. wf_context" ext_ok
  by unfold_locales (auto intro: captureWorkspaceAccountContext_sound captureWorkspaceAccountContext_complete)

lemma captureSessionSigner_complete:
  "wf_signer s \<Longrightarrow> fresh p c \<Longrightarrow> reads (captureSessionSigner E code (signer_literal p s)) c p s"
  unfolding captureSessionSigner_def signer_literal_def
  by (intro reads_exact) (simp_all add: js_simps wf_signer_def Suc_le_eq not_less)

interpretation signer_codec: codec captureSessionSigner signer_literal "\<lambda>_. wf_signer" ext_ok
  by unfold_locales (auto intro: captureSessionSigner_sound captureSessionSigner_complete)

lemma request_parts:
  assumes "ext_ok E" "wf_request E r"
  shows "createRequestedGrant E (JString (pr_requestId r)) (application_literal (at p ''application'') (pr_application r))
      (kernel_literal (at p ''logicalAccount'') (pr_logicalAccount r))
      (operator_literal (at p ''operatorCredential'') (pr_operatorCredential r))
      (JString (policy_hash E (pr_policy r))) (jint (pr_requestedAt r)) (jint (pr_expiresAt r)) =
      (if origin_fits (pr_application r) then Inr (requested_grant (request_identity E r) (pr_requestedAt r) (pr_expiresAt r))
       else Inl (g_err Grant_input_invalid))"
    and "parseWorkspaceAccountContext E (context_literal q (pr_context r)) = Inr (pr_context r)"
    and "parseGrantPolicy E (policy_literal q (pr_policy r)) = Inr (pr_policy r)"
  using createRequestedGrant_literal [OF assms(1) request_identity_wf [OF assms], of "pr_requestedAt r" "pr_expiresAt r" p]
    assms(2) time48_int_ok
  by (simp_all add: request_identity_def wf_request_def parseWorkspaceAccountContext_def
      context_codec.parse_literal [OF assms(1)] parseGrantPolicy_def policy_codec.parse_literal [OF assms(1)])

lemma captureRequest_complete:
  assumes "ext_ok E" "wf_request E r \<and> origin_fits (pr_application r)" "fresh p c"
  shows "reads (captureRequest E code (request_literal p r)) c p r"
proof -
  from assms(2) have wf: "wf_request E r" by simp
  note parts = request_parts [OF assms(1) wf] and wf = wf [unfolded wf_request_def]
  show ?thesis
    unfolding captureRequest_def request_literal_def
    apply (intro reads_exact [OF assms(3)], simp)
    apply (insert wf assms(2), simp add: js_simps parts pp_requestId_def hashGrantPolicy_literal [OF assms(1)])
    apply (rule signer_codec.bind_nullable, assumption, simp, rule assms(1), simp)
    apply (simp add: js_simps requested_grant_def request_identity_def)
    done
qed

lemma captureRequest_refuses:
  assumes "ext_ok E" "wf_request E r" "\<not> origin_fits (pr_application r)" "fresh p c"
  shows "captureRequest E code (request_literal p r) c = Inl (g_err Grant_input_invalid)"
  unfolding captureRequest_def request_literal_def
  using assms(2,3) request_parts [OF assms(1,2)]
  by (intro refuses_exact [OF assms(4)])
    (simp_all add: js_simps pp_requestId_def hashGrantPolicy_literal [OF assms(1)] wf_request_def)

interpretation request_codec: literal_codec captureRequest request_literal
  "\<lambda>E r. wf_request E r \<and> origin_fits (pr_application r)" ext_ok
  by unfold_locales (auto intro: captureRequest_complete)

lemma parsePermissionRequest_literal:
  assumes "ext_ok E" "wf_request E r"
  shows "parsePermissionRequest E (request_literal p r) =
    (if origin_fits (pr_application r) then Inr r else Inl (pp_err Permission_request_invalid))"
  using request_codec.parse_literal [OF assms(1), of r Permission_request_invalid p]
    captureRequest_refuses [OF assms, of p "{}" Permission_request_invalid] assms(2)
  by (auto simp: parsePermissionRequest_def runC_def pp_captureFailure_def)

lemma captureDecision_sound:
  assumes "ext_ok E" and "captureDecision E code v c = Inr (d, c')"
  shows "wf_decision d"
  using assms(2) unfolding captureDecision_def captureReject_def captureApproveDecision_def pp_requestId_def
  by (elim bindC_InrE)
    (auto elim!: bindC_InrE split: if_splits dest: parseGrantPolicy_wf [OF assms(1)])

lemma captureDecision_complete:
  assumes "ext_ok E" "wf_decision d" "fresh p c"
  shows "reads (captureDecision E code (decision_literal p d)) c p d"
proof -
  have "parseGrantPolicy E (policy_literal q x) = Inr x" if "wf_policy x" for q x
    using that by (simp add: parseGrantPolicy_def policy_codec.parse_literal [OF assms(1)])
  with assms(2) show ?thesis
    unfolding captureDecision_def captureReject_def captureApproveDecision_def pp_requestId_def
    by (cases d; simp; intro reads_captured [OF assms(3)]) (simp_all add: js_simps)
qed

interpretation decision_codec: codec captureDecision decision_literal "\<lambda>_. wf_decision" ext_ok
  by unfold_locales (auto intro: captureDecision_sound captureDecision_complete)

lemma captureObservation_sound:
  assumes "ext_ok E" and "captureObservation E code v c = Inr (w, c')"
  shows "wf_observation w"
  using assms(2) unfolding captureObservation_def
  by (elim bindC_InrE) (auto elim!: bindC_InrE split: if_splits dest: captureDecision_sound [OF assms(1)])

lemma captureObservation_complete:
  assumes "ext_ok E" "wf_observation w" "fresh p c"
  shows "reads (captureObservation E code (observation_literal p w)) c p w"
proof (cases w)
  case (DecisionAvailable d)
  with assms(2) show ?thesis
    unfolding captureObservation_def DecisionAvailable observation_literal.simps
    apply (intro reads_captured [OF assms(3)])
    apply (simp add: js_simps)
    apply (rule decision_codec.bind_field, assumption, simp, rule assms(1), simp)
    apply (simp add: js_simps)
    done
next
  case (DecisionUnavailable r)
  then show ?thesis
    unfolding captureObservation_def DecisionUnavailable observation_literal.simps
    by (intro reads_captured [OF assms(3)]) (simp add: js_simps)
qed

interpretation observation_codec: codec captureObservation observation_literal "\<lambda>_. wf_observation" ext_ok
  by unfold_locales (auto intro: captureObservation_sound captureObservation_complete)

lemma captureApplyInput_sound:
  assumes "ext_ok E" and "runC (captureApplyInput E v) = Inr (r, g, w, t)"
  shows "wf_request E r" "wf_grant E g" "wf_observation w" "time48 t"
  using assms(2) unfolding captureApplyInput_def Let_def runC_Inr
  by (auto elim!: bindC_InrE dest: captureRequest_sound [OF assms(1)] parseGrant_sound [OF assms(1)]
      captureObservation_sound [OF assms(1)])

lemma captureApplyInput_literal:
  assumes "ext_ok E" "wf_request E r \<and> origin_fits (pr_application r)" "wf_grant E g \<and> grant_fits g" "wf_observation w" "time48 t"
  shows "runC (captureApplyInput E (apply_literal p r g w t)) = Inr (r, g, w, t)"
  unfolding captureApplyInput_def apply_literal_def Let_def
  apply (rule reads_run [where p = p])
  apply (rule reads_exact, simp, simp)
  apply (simp add: js_simps)
  apply (rule request_codec.bind_field, assumption, simp, rule assms(1), rule assms(2))
  apply (simp add: js_simps parseGrant_def grant_codec.parse_literal [OF assms(1,3)])
  apply (rule observation_codec.bind_field, assumption, simp, rule assms(1), rule assms(4))
  apply (simp add: js_simps assms(5))
  done

section \<open>The effect of a decision\<close>

definition account_hash :: "ext \<Rightarrow> kernel_account_profile \<Rightarrow> string" where
  "account_hash E k = keccak256 E (encodeAbiParameters E (kernel_abi k
     (keccak256 E (encodeCapturedOwnerCredentialProfile E (kp_ownerCredential k)))))"

definition request_encoding :: "ext \<Rightarrow> permission_request \<Rightarrow> string" where
  "request_encoding E r = encodeAbiParameters E (request_abi r (account_hash E (pr_logicalAccount r))
     (hashOperatorCredential E (pr_operatorCredential r)) (policy_hash E (pr_policy r)))"

definition request_hash :: "ext \<Rightarrow> permission_request \<Rightarrow> string" where
  "request_hash E r = keccak256 E (request_encoding E r)"

definition decision_encoding :: "ext \<Rightarrow> permission_decision \<Rightarrow> string" where
  "decision_encoding E d = encodeAbiParameters E (decision_abi d
     (case d of RejectDecision _ _ _ \<Rightarrow> '''' | ApproveDecision _ _ _ q _ \<Rightarrow> policy_hash E q))"

definition decision_hash :: "ext \<Rightarrow> permission_decision \<Rightarrow> string" where
  "decision_hash E d = keccak256 E (decision_encoding E d)"

lemma wf_kernel_owner: "wf_kernel E k \<Longrightarrow> wf_owner E (kp_ownerCredential k)"
  by (cases k) auto

lemma encodeCapturedPermissionRequest_eq:
  assumes "ext_ok E" "wf_request E r"
  shows "encodeCapturedPermissionRequest E r = Inr (request_encoding E r)"
  using assms wf_kernel_owner [of E "pr_logicalAccount r"]
  by (simp add: encodeCapturedPermissionRequest_def hashKernelAccountProfile_def hashOwnerCredentialProfile_def
      encodeOwnerCredentialProfile_def parseOwnerCredentialProfile_def captureOwnerCredentialProfile_def
      owner_codec.parse_literal hashGrantPolicy_literal wf_request_def request_encoding_def account_hash_def)

lemma encodeCapturedPermissionDecision_eq:
  "ext_ok E \<Longrightarrow> wf_decision d \<Longrightarrow> encodeCapturedPermissionDecision E d = Inr (decision_encoding E d)"
  by (cases d) (simp_all add: encodeCapturedPermissionDecision_def decision_encoding_def hashGrantPolicy_literal)

lemma requireRequestGrantBinding_eq:
  assumes "ext_ok E" "wf_request E r"
  shows "requireRequestGrantBinding E r g =
    (if \<not> origin_fits (pr_application r) then Inl (g_err Grant_input_invalid)
     else if g_identity g = request_identity E r \<and> g_requestedAt g = pr_requestedAt r \<and> g_expiresAt g = pr_expiresAt r
     then Inr () else Inl (pp_err Permission_request_binding_mismatch))"
  by (auto simp: requireRequestGrantBinding_def grantFromCapturedRequest_eq [OF assms] requested_grant_def)

fun attenuating :: "permission_request \<Rightarrow> permission_decision \<Rightarrow> bool" where
  "attenuating r (RejectDecision _ _ _) = True"
| "attenuating r (ApproveDecision _ _ _ q _) = attenuates_spec (pr_policy r) q"

lemma requireDecisionRequestBinding_eq:
  assumes "ext_ok E" "wf_request E r" "wf_decision d"
  shows "requireDecisionRequestBinding E r d =
    (if pd_requestId d \<noteq> pr_requestId r \<or> pd_requestHash d \<noteq> request_hash E r
     then Inl (pp_err Permission_decision_binding_mismatch)
     else if pd_decidedAt d < pr_requestedAt r \<or> pd_decidedAt d \<ge> pr_expiresAt r
     then Inl (pp_err Permission_decision_stale)
     else if \<not> attenuating r d then Inl (pp_err Permission_policy_widening) else Inr ())"
proof -
  have "wf_policy (pr_policy r)" using assms(2) by (simp add: wf_request_def)
  with assms(1,3) show ?thesis
    by (cases d) (auto simp: requireDecisionRequestBinding_def encodeCapturedPermissionRequest_eq [OF assms(1,2)]
        request_hash_def guardE_def isGrantPolicyAttenuation_literal)
qed

fun decided :: "ext \<Rightarrow> grant \<Rightarrow> permission_decision \<Rightarrow> grant" where
  "decided E g (RejectDecision _ _ t) =
     g\<lparr>g_state := GRejected, g_updatedAt := t, g_terminal := Some (TRejected t), g_revision := 1\<rparr>"
| "decided E g (ApproveDecision i h t q c) =
     g\<lparr>g_state := GApproved, g_updatedAt := t, g_revision := 1,
       g_approval := Some \<lparr>ap_approvalHash = decision_hash E (ApproveDecision i h t q c), ap_capabilityHash = c,
         ap_approvedAt = t\<rparr>\<rparr>"

fun decision_change :: "ext \<Rightarrow> grant_identity \<Rightarrow> permission_decision \<Rightarrow> grant_transition" where
  "decision_change E i (RejectDecision _ _ t) = Reject i t"
| "decision_change E i (ApproveDecision a h t q c) = Approve i
     \<lparr>ap_approvalHash = decision_hash E (ApproveDecision a h t q c), ap_capabilityHash = c, ap_approvedAt = t\<rparr>"

lemma decision_hash_hex: "ext_ok E \<Longrightarrow> lower_hex 64 (decision_hash E d)"
  by (simp add: decision_hash_def keccak_hex)

lemma decision_transition_reads:
  assumes "ext_ok E" "wf_decision d" "wf_identity E (g_identity g) \<and> grant_fits g" "fresh p c"
  shows "reads (parseGrantTransition E (decision_transition p g d (decision_hash E d))) c p
    (decision_change E (g_identity g) d)"
proof (cases d)
  case (RejectDecision i h t)
  with assms(2) show ?thesis
    unfolding decision_transition_def parseGrantTransition_def captureTimed_def tr_id_def tr_time_def
      RejectDecision permission_decision.case
    apply (intro reads_captured [OF assms(4)])
    apply (simp add: js_simps g_safeInteger_def time48_int_ok)
    apply (rule identity_codec.bind_field, assumption, simp, rule assms(1), rule assms(3))
    apply (simp add: js_simps)
    done
next
  case (ApproveDecision i h t q k)
  with assms(2) show ?thesis
    unfolding decision_transition_def parseGrantTransition_def captureApprove_def tr_id_def parseApproval_def
      ApproveDecision permission_decision.case
    apply (intro reads_captured [OF assms(4)])
    apply (simp add: js_simps)
    apply (rule approval_codec.bind_nullable [where x = "Some _", unfolded nullable_def option.case],
        assumption, simp, rule assms(1), force simp: wf_approval_def decision_hash_hex [OF assms(1)] time48_int_ok)
    apply simp
    apply (rule identity_codec.bind_field, assumption, simp, rule assms(1), rule assms(3))
    apply (simp add: js_simps)
    done
qed

lemma decision_transition_parses:
  assumes "ext_ok E" "wf_decision d" "wf_identity E (g_identity g) \<and> grant_fits g"
  shows "runC (parseGrantTransition E (decision_transition [] g d (decision_hash E d))) =
    Inr (decision_change E (g_identity g) d)"
  by (rule reads_run [OF decision_transition_reads [OF assms]]) simp

lemma advance_decision:
  assumes "ext_ok E" "wf_grant E g" "g_state g = GRequested" "wf_decision d"
    "g_requestedAt g \<le> pd_decidedAt d" "pd_decidedAt d < g_expiresAt g" "grant_fits g"
  shows "advanceGrant E (grant_literal [] g) (decision_transition [] g d (decision_hash E d)) = Inr (decided E g d)"
proof -
  have wi: "wf_identity E (g_identity g)" using assms(2) by (simp add: wf_grant_def wf_grant_fields_def)
  note shape = requested_shape [OF assms(2,3)]
  have "g_updatedAt g = g_requestedAt g"
    using assms(2) shape by (auto simp: wf_grant_def evidenceConsistent_def chronologyValid_def latestGrantTime_def
        revocation_entries_def some_or_def wf_grant_fields_def int_ok_def)
  moreover have "wf_transition E (decision_change E (g_identity g) d)"
    using assms(1,4) wi decision_hash_hex time48_int_ok by (cases d) (auto simp: wf_approval_def)
  ultimately show ?thesis
    using assms(3-7) shape decision_transition_parses [OF assms(1,4), of g] wi
    by (cases d) (auto simp: advanceGrant_def parseGrant_literal [OF assms(1,2)] advanceParsedGrant_decides [OF assms(1,2)]
        grantChanges_def machine_guards guardE_def refused_on_reparse_def MAX_SAFE_INTEGER_def)
qed

section \<open>The whole decision\<close>

text \<open>What \<open>applyPermissionDecision\<close> does with captured input, as one table of cases.\<close>

definition apply_spec :: "ext \<Rightarrow> permission_request \<Rightarrow> grant \<Rightarrow> permission_decision \<Rightarrow> int \<Rightarrow> err + apply_result" where
  "apply_spec E r g d t =
     (if length (ab_origin (pr_application r)) > 2048 then Inl (pp_err Permission_protocol_input_invalid)
      else if \<not> (g_identity g = request_identity E r \<and> g_requestedAt g = pr_requestedAt r \<and> g_expiresAt g = pr_expiresAt r)
      then Inl (pp_err Permission_request_binding_mismatch)
      else if pd_requestId d \<noteq> pr_requestId r \<or> pd_requestHash d \<noteq> request_hash E r
      then Inl (pp_err Permission_decision_binding_mismatch)
      else if pd_decidedAt d < pr_requestedAt r \<or> pd_decidedAt d \<ge> pr_expiresAt r
      then Inl (pp_err Permission_decision_stale)
      else if \<not> attenuating r d then Inl (pp_err Permission_policy_widening)
      else if replayMatches g d (decision_hash E d) then Inr (DecisionReplayed (decision_hash E d) g)
      else if g_state g \<noteq> GRequested then Inl (pp_err Permission_decision_conflict)
      else if pd_decidedAt d > t \<or> t \<ge> pr_expiresAt r \<or> policyExpired d t
      then Inl (pp_err Permission_decision_stale)
      else Inr (DecisionApplied (decision_hash E d) (decided E g d)))"

lemma applyCaptured_spec:
  assumes "ext_ok E" "wf_request E r" "wf_grant E g" "wf_decision d"
  shows "pp_captureFailure Permission_protocol_input_invalid (applyCaptured E (r, g, DecisionAvailable d, t)) = apply_spec E r g d t"
proof (cases "origin_fits (pr_application r)")
  case True
  have adv: "advanceGrant E (grant_literal [] g) (decision_transition [] g d (decision_hash E d)) = Inr (decided E g d)"
    if "g_state g = GRequested" "g_requestedAt g \<le> pd_decidedAt d" "pd_decidedAt d < g_expiresAt g" "g_identity g = request_identity E r"
    using advance_decision [OF assms(1,3) that(1) assms(4) that(2,3)] that(4) True by (simp add: request_identity_def)
  have "applyCaptured E (r, g, DecisionAvailable d, t) = apply_spec E r g d t"
    unfolding applyCaptured_def prod.case permission_decision_observation.case applyAvailableDecision_def Let_def
      requireRequestGrantBinding_eq [OF assms(1,2)] requireDecisionRequestBinding_eq [OF assms(1,2,4)]
      encodeCapturedPermissionDecision_eq [OF assms(1,4)] bindE_simps decision_hash_def [symmetric] apply_spec_def
    using adv True by (auto simp: origin_fits_def)
  then show ?thesis by (simp add: apply_spec_def pp_captureFailure_def)
next
  case False
  then show ?thesis
    by (simp add: applyCaptured_def requireRequestGrantBinding_eq [OF assms(1,2)] apply_spec_def origin_fits_def pp_captureFailure_def)
qed

lemma applyPermissionDecision_captured:
  assumes "ext_ok E" and "runC (captureApplyInput E v) = Inr (r, g, DecisionAvailable d, t)"
  shows "applyPermissionDecision E v = apply_spec E r g d t"
  using captureApplyInput_sound [OF assms] applyCaptured_spec [OF assms(1)] assms(2)
  by (simp add: applyPermissionDecision_def)

lemma replay_after_apply: "g_state g = GRequested \<Longrightarrow> replayMatches (decided E g d) d (decision_hash E d)"
  by (cases d) (simp_all add: replayMatches_def)

lemma apply_spec_applied:
  assumes "apply_spec E r g d t = Inr (DecisionApplied h g')"
  shows "g_state g = GRequested" "g' = decided E g d" "h = decision_hash E d" "attenuating r d"
    "pd_requestHash d = request_hash E r" "pr_requestedAt r \<le> pd_decidedAt d" "pd_decidedAt d \<le> t" "t < pr_expiresAt r"
    "g_identity g = request_identity E r" "g_requestedAt g = pr_requestedAt r" "g_expiresAt g = pr_expiresAt r"
    "pd_requestId d = pr_requestId r" "pd_decidedAt d < pr_expiresAt r" "\<not> policyExpired d t" "origin_fits (pr_application r)"
  using assms by (auto simp: apply_spec_def origin_fits_def split: if_splits)

lemma decided_wf:
  assumes "ext_ok E" "wf_request E r" "wf_grant E g" "wf_decision d" "apply_spec E r g d t = Inr (DecisionApplied h g')"
  shows "wf_grant E g'"
proof -
  note applied = apply_spec_applied [OF assms(5)]
  then have "grant_fits g" by (simp add: request_identity_def)
  with advance_decision [OF assms(1,3) applied(1) assms(4)] advanceGrant_Inr [OF assms(1)] applied show ?thesis by metis
qed

lemma decided_keeps:
  "g_identity (decided E g d) = g_identity g" "g_requestedAt (decided E g d) = g_requestedAt g"
  "g_expiresAt (decided E g d) = g_expiresAt g" "g_state (decided E g d) \<noteq> GRequested"
  by (cases d, simp_all)+

lemma request_abi_canonical:
  assumes "ext_ok E" "wf_request E r"
  shows "list_all abi_canonical (request_abi r (account_hash E (pr_logicalAccount r))
     (hashOperatorCredential E (pr_operatorCredential r)) (policy_hash E (pr_policy r)))"
  using assms keccak_hex [OF assms(1)]
  by (auto simp: request_abi_def wf_request_def time48_def MAX_UINT48_def account_hash_def hashOperatorCredential_def
      policy_hash_def)

end
