(* ===== verification/Permission_Properties.thy ===== *)
theory Permission_Properties
  imports Permission_Protocol
begin

text \<open>
  The properties of the permission protocol: an approval takes effect only on the request it was
  given for, once, and never beyond what was requested; the canonical encoding of a request
  determines it.
\<close>

section \<open>A sample request and its decision\<close>

definition sample_permission_request :: permission_request where
  "sample_permission_request = \<lparr>pr_requestId = ''grant-1'',
     pr_context = \<lparr>wc_workspaceId = ''ws'', wc_workspaceKind = Team, wc_accountId = ''acct''\<rparr>,
     pr_application = gi_application sample_identity, pr_logicalAccount = sample_kernel,
     pr_operatorCredential = gi_operatorCredential sample_identity, pr_policy = sample_request_policy,
     pr_requestedAt = 100, pr_expiresAt = 1000,
     pr_sessionSigner = Some \<lparr>ss_mode = Oaath_hosted, ss_providerId = ''kms''\<rparr>\<rparr>"

definition sample_approval :: permission_decision where
  "sample_approval = ApproveDecision ''grant-1'' (hex_of 64 (CHR ''a'')) 110 sample_policy (hex_of 64 (CHR ''b''))"

definition sample_rejection :: permission_decision where
  "sample_rejection = RejectDecision ''grant-1'' (hex_of 64 (CHR ''a'')) 115"

abbreviation sample_apply :: "grant \<Rightarrow> permission_decision \<Rightarrow> int \<Rightarrow> jsval" where
  "sample_apply g d t \<equiv> apply_literal [] sample_permission_request g (DecisionAvailable d) t"

lemma sample_keccak: "keccak256 sample_ext s = hex_of 64 (CHR ''a'')" "keccak256 injective_ext s = hex_of 64 (CHR ''a'')"
  by (simp_all add: sample_ext_def injective_ext_def hex_of_def)

lemma sample_requested_wf: "wf_grant sample_ext sample_requested" "wf_identity sample_ext sample_identity"
  using createGrant_sound [OF sample_ext_ok sample_create]
  by (simp_all add: wf_grant_def wf_grant_fields_def sample_requested_def)

lemma sample_permission_request_wf:
  "wf_request sample_ext sample_permission_request" "wf_request injective_ext sample_permission_request"
proof -
  have ids: "id_ok ''grant-1''" "identifier_re ''ws''" "identifier_re ''acct''" by code_simp+
  have parts: "wf_application sample_ext (gi_application sample_identity)"
    "wf_operator sample_ext (gi_operatorCredential sample_identity)"
    using sample_requested_wf(2) by (simp_all add: wf_identity_def)
  show "wf_request sample_ext sample_permission_request"
    using ids parts sample_policies_wf sample_kernel_wf
    by (simp add: sample_permission_request_def wf_request_def wf_context_def wf_signer_def time48_def MAX_UINT48_def
        policyOutlivesRequest_def sample_request_policy_def)
  moreover have "key_ok injective_ext = key_ok sample_ext" "origin_ok injective_ext = origin_ok sample_ext"
    by (simp_all add: fun_eq_iff key_ok_def origin_ok_def injective_ext_def)
  ultimately show "wf_request injective_ext sample_permission_request"
    by (simp add: sample_permission_request_def wf_request_def wf_application_def sample_identity_def sample_kernel_def
        sample_owner_def)
qed

lemma sample_fits: "origin_fits (pr_application sample_permission_request)" "grant_fits sample_requested"
  by (simp_all add: origin_fits_def sample_permission_request_def sample_requested_def sample_identity_def)

lemma sample_decisions_wf: "wf_decision sample_approval" "wf_decision sample_rejection"
proof -
  have "id_ok ''grant-1''" "hex_of 64 (CHR ''b'') \<noteq> ZERO_HASH" by code_simp+
  then show "wf_decision sample_approval" "wf_decision sample_rejection"
    by (simp_all add: sample_approval_def sample_rejection_def hex_of_lower hex_samples sample_policies_wf time48_def
        MAX_UINT48_def)
qed

lemma sample_apply_captured:
  "runC (captureApplyInput sample_ext (sample_apply sample_requested sample_approval 120)) =
     Inr (sample_permission_request, sample_requested, DecisionAvailable sample_approval, 120)"
  using sample_requested_wf sample_permission_request_wf sample_decisions_wf sample_fits
  by (intro captureApplyInput_literal [OF sample_ext_ok]) (simp_all add: time48_def MAX_UINT48_def)

lemma sample_apply_spec:
  "apply_spec sample_ext sample_permission_request sample_requested sample_approval 120 =
     Inr (DecisionApplied (hex_of 64 (CHR ''a'')) sample_approved)"
  using sample_attenuates sample_fits(1)
  by (simp add: apply_spec_def sample_permission_request_def sample_requested_def sample_approval_def sample_approved_def
      request_identity_def policy_hash_def request_hash_def decision_hash_def sample_keccak sample_identity_def
      replayMatches_def policyExpired_def sample_policy_def)

lemma sample_applied:
  "applyPermissionDecision sample_ext (sample_apply sample_requested sample_approval 120) =
     Inr (DecisionApplied (hex_of 64 (CHR ''a'')) sample_approved)"
  using applyPermissionDecision_captured [OF sample_ext_ok sample_apply_captured] sample_apply_spec by simp

section \<open>Properties\<close>

text \<open>C23: On captured input with an available decision, \<open>applyPermissionDecision\<close> returns exactly what the
  table \<open>apply_spec\<close> says. In particular a decision that is bound to the request and to the Grant, attenuates
  the requested policy and is neither stale nor late always takes effect on a requested Grant, unless the origin of
  the request is longer than the bound of the Grant's own parser, which refuses the input as a whole: no other guard
  of the Grant's state machine refuses it.\<close>

theorem permission_decision_decides:
  assumes "ext_ok E" and "runC (captureApplyInput E v) = Inr (r, g, DecisionAvailable d, t)"
  shows "applyPermissionDecision E v = apply_spec E r g d t"
  using assms by (rule applyPermissionDecision_captured)

theorem permission_decision_decides_witness:
  "apply_spec sample_ext sample_permission_request sample_requested sample_approval 120 =
     Inr (DecisionApplied (hex_of 64 (CHR ''a'')) sample_approved)"
  using permission_decision_decides [OF sample_ext_ok sample_apply_captured] sample_applied by simp

text \<open>C24: An approval takes effect only on a requested Grant, for the very request whose hash the owner signed
  off, within its lifetime; and whatever the approved policy covers, the requested policy covers too.\<close>

theorem approval_within_request:
  assumes "ext_ok E" and "runC (captureApplyInput E v) = Inr (r, g, DecisionAvailable (ApproveDecision i h dt q c), t)"
    and "applyPermissionDecision E v = Inr (DecisionApplied hash g')"
  shows "g_state g = GRequested \<and> g_state g' = GApproved \<and> h = request_hash E r \<and>
    gi_policyHash (g_identity g') = policy_hash E (pr_policy r) \<and>
    pr_requestedAt r \<le> dt \<and> dt \<le> t \<and> t < pr_expiresAt r \<and>
    (\<forall>input. covers (input\<lparr>ci_policy := q\<rparr>) \<longrightarrow> covers (input\<lparr>ci_policy := pr_policy r\<rparr>))"
proof -
  let ?d = "ApproveDecision i h dt q c"
  have spec: "apply_spec E r g ?d t = Inr (DecisionApplied hash g')"
    using applyPermissionDecision_captured [OF assms(1,2)] assms(3) by simp
  note applied = apply_spec_applied [OF spec]
  have "wf_policy (pr_policy r)" "wf_policy q"
    using captureApplyInput_sound [OF assms(1,2)] by (auto simp: wf_request_def)
  with applied(4) have "\<forall>input. covers (input\<lparr>ci_policy := q\<rparr>) \<longrightarrow> covers (input\<lparr>ci_policy := pr_policy r\<rparr>)"
    using covers_attenuated by auto
  with applied show ?thesis by (simp add: request_identity_def)
qed

theorem approval_within_request_witness:
  "g_state sample_requested = GRequested \<and> g_state sample_approved = GApproved \<and>
   gi_policyHash (g_identity sample_approved) = policy_hash sample_ext sample_request_policy \<and>
   120 < pr_expiresAt sample_permission_request"
  using approval_within_request [OF sample_ext_ok sample_apply_captured [unfolded sample_approval_def]
      sample_applied [unfolded sample_approval_def]]
  by (simp add: sample_permission_request_def)

text \<open>C25: A decision takes effect once. After it has been applied, applying the same decision again, at any
  later evaluation time, reports a replay with the same hash and leaves the Grant as it is; and no decision
  whatsoever is applied to that Grant again.\<close>

theorem decision_applied_once:
  assumes "ext_ok E" and "runC (captureApplyInput E v) = Inr (r, g, DecisionAvailable d, t)"
    and "applyPermissionDecision E v = Inr (DecisionApplied h g')" and "time48 t'" and "wf_decision d'"
  shows "applyPermissionDecision E (apply_literal [] r g' (DecisionAvailable d) t') = Inr (DecisionReplayed h g') \<and>
    applyPermissionDecision E (apply_literal [] r g' (DecisionAvailable d') t') \<noteq> Inr (DecisionApplied h' g'')"
proof -
  have spec: "apply_spec E r g d t = Inr (DecisionApplied h g')"
    using applyPermissionDecision_captured [OF assms(1,2)] assms(3) by simp
  note sound = captureApplyInput_sound [OF assms(1,2)] and applied = apply_spec_applied [OF spec]
  have "wf_decision d" using sound(3) by simp
  then have wf: "wf_grant E g'" by (rule decided_wf [OF assms(1) sound(1,2) _ spec])
  have fits: "grant_fits g'" using applied by (simp add: decided_keeps request_identity_def)
  have again: "applyPermissionDecision E (apply_literal [] r g' (DecisionAvailable x) t') = apply_spec E r g' x t'"
    if "wf_decision x" for x
    using captureApplyInput_literal [OF assms(1) _ _ _ assms(4), of r g' "DecisionAvailable x" "[]"] that sound(1) wf applied(15) fits
    by (intro applyPermissionDecision_captured [OF assms(1)]) simp
  have "apply_spec E r g' d t' = Inr (DecisionReplayed h g')"
    using applied replay_after_apply [OF applied(1), of E d] by (simp add: apply_spec_def decided_keeps origin_fits_def)
  moreover have "apply_spec E r g' d' t' \<noteq> Inr (DecisionApplied h' g'')"
    using decided_keeps(4) apply_spec_applied(1) applied(2) by metis
  ultimately show ?thesis using again [OF \<open>wf_decision d\<close>] again [OF assms(5)] by simp
qed

theorem decision_applied_once_witness:
  "applyPermissionDecision sample_ext (sample_apply sample_approved sample_approval 900) =
     Inr (DecisionReplayed (hex_of 64 (CHR ''a'')) sample_approved) \<and>
   applyPermissionDecision sample_ext (sample_apply sample_approved sample_rejection 900) \<noteq>
     Inr (DecisionApplied (hex_of 64 (CHR ''a'')) sample_approved)"
proof -
  have "time48 900" by code_simp
  from decision_applied_once [OF sample_ext_ok sample_apply_captured sample_applied this sample_decisions_wf(2)]
  show ?thesis .
qed

text \<open>C26: The canonical encoding of a permission request determines the request: two values with the same
  encoding agree on the request id, the application, the selected workspace and account, the lifetime and the
  custody of the session key, and on the digests of the account, the operator and the policy.\<close>

theorem request_encoding_binds:
  assumes "ext_ok E" and "abi_injective E"
    and "encodePermissionRequest E v = Inr s" and "encodePermissionRequest E w = Inr s"
  shows "\<exists>r q. parsePermissionRequest E v = Inr r \<and> parsePermissionRequest E w = Inr q \<and>
    pr_requestId r = pr_requestId q \<and> pr_application r = pr_application q \<and> pr_context r = pr_context q \<and>
    pr_requestedAt r = pr_requestedAt q \<and> pr_expiresAt r = pr_expiresAt q \<and>
    pr_sessionSigner r = pr_sessionSigner q \<and> policy_hash E (pr_policy r) = policy_hash E (pr_policy q) \<and>
    account_hash E (pr_logicalAccount r) = account_hash E (pr_logicalAccount q) \<and>
    hashOperatorCredential E (pr_operatorCredential r) = hashOperatorCredential E (pr_operatorCredential q)"
proof -
  have wf: "wf_request E r" if "parsePermissionRequest E x = Inr r" for x r
    using that captureRequest_sound [OF assms(1)] by (auto simp: parsePermissionRequest_def runC_Inr)
  from assms(3,4) obtain r q where r: "parsePermissionRequest E v = Inr r" and q: "parsePermissionRequest E w = Inr q"
    and eq: "request_encoding E r = request_encoding E q"
    by (auto simp: encodePermissionRequest_def bindE_Inr encodeCapturedPermissionRequest_eq [OF assms(1) wf])
  let ?abi = "\<lambda>x. request_abi x (account_hash E (pr_logicalAccount x))
     (hashOperatorCredential E (pr_operatorCredential x)) (policy_hash E (pr_policy x))"
  have "list_all2 same_type (?abi r) (?abi q)" by (simp add: request_abi_def)
  with eq have same: "?abi r = ?abi q"
    unfolding request_encoding_def
    by (intro abi_injectiveD [OF assms(2)] request_abi_canonical [OF assms(1)] wf [OF r] wf [OF q])
  have signer: "pr_sessionSigner r = pr_sessionSigner q"
    using same by (auto simp: request_abi_def signer_mode_name_def split: option.splits signer_mode.splits
        intro!: permission_session_signer.equality)
  have "pr_context r = pr_context q" "pr_application r = pr_application q"
    using same
    by (auto simp: request_abi_def workspace_kind_name_def split: workspace_kind.splits
        intro!: workspace_account_context.equality application_binding.equality)
  with same signer r q show ?thesis by (auto simp: request_abi_def)
qed

theorem request_encoding_binds_witness:
  "\<exists>r. parsePermissionRequest injective_ext (request_literal [] sample_permission_request) = Inr r \<and>
     pr_context r = pr_context sample_permission_request"
proof -
  note wf = sample_permission_request_wf(2)
  then have "parsePermissionRequest injective_ext (request_literal p sample_permission_request) = Inr sample_permission_request" for p
    by (simp add: parsePermissionRequest_literal [OF injective_ext_ok(1)] sample_fits)
  then have "encodePermissionRequest injective_ext (request_literal p sample_permission_request) =
      Inr (request_encoding injective_ext sample_permission_request)" for p
    by (simp add: encodePermissionRequest_def encodeCapturedPermissionRequest_eq [OF injective_ext_ok(1) wf])
  from request_encoding_binds [OF injective_ext_ok this [of "[]"] this [of "[PName ''copy'']"]]
  show ?thesis
    using \<open>\<And>p. parsePermissionRequest injective_ext (request_literal p sample_permission_request) = Inr sample_permission_request\<close>
    by auto
qed

text \<open>C27: A parsed permission request whose origin has at most 2048 characters parses to itself again, and the
  Grant created from it is the requested Grant for that request: its identity carries the request's id, application,
  account, operator and the hash of its policy, and its lifetime is the request's. A parsed request with a longer
  origin, which the URL parser can produce from a shorter text, is refused when it is offered again, and no Grant can
  be created from it.\<close>

theorem permission_request_round_trip:
  assumes "ext_ok E" and "parsePermissionRequest E v = Inr r"
  shows "if length (ab_origin (pr_application r)) \<le> 2048
    then parsePermissionRequest E (request_literal [] r) = Inr r \<and>
      createGrantFromPermissionRequest E v =
        Inr (requested_grant (request_identity E r) (pr_requestedAt r) (pr_expiresAt r))
    else parsePermissionRequest E (request_literal [] r) = Inl (pp_err Permission_request_invalid) \<and>
      createGrantFromPermissionRequest E v = Inl (OaathGrantError Grant_input_invalid)"
proof -
  have wf: "wf_request E r"
    using assms captureRequest_sound [OF assms(1)] by (auto simp: parsePermissionRequest_def runC_Inr)
  show ?thesis
    using parsePermissionRequest_literal [OF assms(1) wf, of "[]"] grantFromCapturedRequest_eq [OF assms(1) wf] assms(2)
    by (auto simp: createGrantFromPermissionRequest_def origin_fits_def)
qed

theorem permission_request_round_trip_witness:
  "createGrantFromPermissionRequest sample_ext (request_literal [] sample_permission_request) = Inr sample_requested"
proof -
  have "parsePermissionRequest sample_ext (request_literal [] sample_permission_request) = Inr sample_permission_request"
    using sample_permission_request_wf(1) sample_fits(1) by (simp add: parsePermissionRequest_literal [OF sample_ext_ok])
  note round_trip = permission_request_round_trip [OF sample_ext_ok this]
  have "length (ab_origin (pr_application sample_permission_request)) \<le> 2048"
    using sample_fits(1) by (simp only: origin_fits_def)
  with round_trip have "createGrantFromPermissionRequest sample_ext (request_literal [] sample_permission_request) =
      Inr (requested_grant (request_identity sample_ext sample_permission_request)
        (pr_requestedAt sample_permission_request) (pr_expiresAt sample_permission_request))"
    by (metis (no_types))
  also have "\<dots> = Inr sample_requested"
    by (simp add: requested_grant_def request_identity_def sample_permission_request_def sample_requested_def
        policy_hash_def sample_keccak sample_identity_def)
  finally show ?thesis .
qed

end
