(* ===== verification/Operation_Record.thy ===== *)
theory Operation_Record
  imports Validators
begin

unbundle bit_operations_syntax

text \<open>
  Model of the record half of \<open>packages/protocol/src/operation.ts\<close>: the data of a UserOperation
  lifecycle record, its validators, \<open>parseOperation\<close> with the consistency checks of the eight
  states, and \<open>createOperation\<close>.

  The fields every state has are the record \<open>operation_common\<close>; the fields of one state are the
  arguments of that state's constructor. The checks a state makes once its fields are captured are
  the predicates \<open>*_order\<close>.
\<close>

section \<open>Data\<close>

definition OAATH_OPERATION_RECORD_VERSION :: string where
  "OAATH_OPERATION_RECORD_VERSION = ''oaath.operation/v1''"

datatype operation_kind = Execution | Revocation

datatype operation_outcome = Success | Reverted

record user_operation_reference =
  ur_chainId :: int
  ur_entryPoint :: string
  ur_account :: string
  ur_nonce :: string
  ur_userOperationHash :: string

record operation_lane =
  ol_id :: string
  ol_key :: int

record operation_identity =
  oi_kind :: operation_kind
  oi_grantId :: string
  oi_chainId :: int
  oi_entryPoint :: string
  oi_account :: string
  oi_nonce :: string
  oi_userOperationHash :: string
  oi_requestHash :: "string option"

datatype pending_reason = Receipt_missing | Timeout

datatype unread_reason = ProviderUnavailable | ReceiptInvalid | CanonicalityUnproven | FinalityUnproven

datatype weak_observation =
    Pending (wo_observedAt: int) pending_reason
  | UnreadableObservation (wo_observedAt: int) unread_reason

record operation_inclusion =
  in_transactionHash :: string
  in_blockNumber :: string
  in_blockHash :: string
  in_outcome :: operation_outcome
  in_observedAt :: int

record operation_finality =
  fi_blockNumber :: string
  fi_blockHash :: string
  fi_observedAt :: int

record drop_evidence =
  de_identity :: user_operation_reference
  de_inclusion :: operation_inclusion
  de_finality :: operation_finality

record operation_supersession =
  su_observedNonce :: string
  su_blockNumber :: string
  su_blockHash :: string
  su_observedAt :: int

datatype abandonment_reason = Submission_not_attempted | Submission_rejected

datatype submission_evidence = Bundler | HandleOps string

record operation_common =
  oc_lane :: "operation_lane option"
  oc_submission :: "submission_evidence option"
  oc_identity :: operation_identity
  oc_revision :: int
  oc_preparedAt :: int
  oc_updatedAt :: int
  oc_observation :: "weak_observation option"

datatype operation_state =
    Prepared
  | Abandoned int abandonment_reason
  | SubmissionAttempted int
  | Submitted int int
  | Included int "int option" operation_inclusion
  | Finalized int "int option" operation_inclusion operation_finality
  | Dropped int "int option" "operation_inclusion option" drop_evidence
  | Superseded int "int option" operation_supersession

record operation =
  op_common :: operation_common
  op_state :: operation_state

section \<open>Validators\<close>

abbreviation o_err :: "operation_code \<Rightarrow> err" where
  "o_err \<equiv> OaathOperationError"

definition o_safeInteger :: "jsval \<Rightarrow> operation_code \<Rightarrow> int \<Rightarrow> err + int" where
  "o_safeInteger v code minimum = safe_integer minimum MAX_SAFE_INTEGER v (o_err code)"

definition o_canonicalGrantId :: "jsval \<Rightarrow> operation_code \<Rightarrow> err + string" where
  "o_canonicalGrantId v code = canonical_id v (o_err code)"

definition o_address :: "ext \<Rightarrow> jsval \<Rightarrow> operation_code \<Rightarrow> err + string" where
  "o_address E v code =
     captureAddress E v
       (\<lambda>reason. o_err (if reason = Checksum then Operation_address_checksum_invalid else code)) False"

definition o_hash :: "jsval \<Rightarrow> operation_code \<Rightarrow> err + string" where
  "o_hash v code = fixed_hex 64 v (o_err code)"

definition o_uint256 :: "jsval \<Rightarrow> operation_code \<Rightarrow> err + string" where
  "o_uint256 v code = decimal_uint256 v (o_err code)"

text \<open>\<open>/^[A-Za-z0-9._:-]{1,128}$/u\<close>\<close>

definition LANE_ID :: "string \<Rightarrow> bool" where
  "LANE_ID s \<longleftrightarrow> 1 \<le> length s \<and> length s \<le> 128 \<and>
     list_all (\<lambda>c. c \<in> set ''ABCDEFGHIJKLMNOPQRSTUVWXYZabcdefghijklmnopqrstuvwxyz0123456789._:-'') s"

definition operation_kinds :: "(string \<times> operation_kind) list" where
  "operation_kinds = [(''execution'', Execution), (''revocation'', Revocation)]"

definition outcomes :: "(string \<times> operation_outcome) list" where
  "outcomes = [(''success'', Success), (''reverted'', Reverted)]"

definition pending_reasons :: "(string \<times> pending_reason) list" where
  "pending_reasons = [(''receipt_missing'', Receipt_missing), (''timeout'', Timeout)]"

definition unread_reasons :: "(string \<times> unread_reason) list" where
  "unread_reasons = [(''provider_unavailable'', ProviderUnavailable), (''receipt_invalid'', ReceiptInvalid),
     (''canonicality_unproven'', CanonicalityUnproven), (''finality_unproven'', FinalityUnproven)]"

definition abandonment_reasons :: "(string \<times> abandonment_reason) list" where
  "abandonment_reasons = [(''submission_not_attempted'', Submission_not_attempted),
     (''submission_rejected'', Submission_rejected)]"

section \<open>Parts of a record\<close>

definition o_parseIdentity :: "ext \<Rightarrow> operation_code \<Rightarrow> jsval \<Rightarrow> (err, operation_identity) capture" where
  "o_parseIdentity E code v =
     bindC (exactRecord v [''kind'', ''grantId'', ''chainId'', ''entryPoint'', ''account'', ''nonce'',
              ''userOperationHash'', ''requestHash''] (o_err code)) (\<lambda>record.
     bindC (liftC (literal_of operation_kinds (fld record ''kind'') (o_err code))) (\<lambda>kind.
     bindC (liftC (o_canonicalGrantId (fld record ''grantId'') code)) (\<lambda>grantId.
     bindC (liftC (o_safeInteger (fld record ''chainId'') code 1)) (\<lambda>chainId.
     bindC (liftC (o_address E (fld record ''entryPoint'') code)) (\<lambda>entryPoint.
     bindC (liftC (o_address E (fld record ''account'') code)) (\<lambda>account.
     bindC (liftC (o_uint256 (fld record ''nonce'') code)) (\<lambda>nonce.
     bindC (liftC (o_hash (fld record ''userOperationHash'') code)) (\<lambda>userOperationHash.
     bindC (liftC (nullable_scalar (fixed_hex 64) (fld record ''requestHash'') (o_err code))) (\<lambda>requestHash.
     returnC \<lparr>oi_kind = kind, oi_grantId = grantId, oi_chainId = chainId, oi_entryPoint = entryPoint,
       oi_account = account, oi_nonce = nonce, oi_userOperationHash = userOperationHash,
       oi_requestHash = requestHash\<rparr>)))))))))"

definition captureLane :: "operation_kind \<Rightarrow> operation_code \<Rightarrow> jsval \<Rightarrow> (err, operation_lane) capture" where
  "captureLane kind code v =
     bindC (guardC (kind = Execution) (o_err code)) (\<lambda>_.
     bindC (exactRecord v [''id'', ''key''] (o_err code)) (\<lambda>record.
     case fld record ''id'' of
       JString s \<Rightarrow>
         bindC (guardC (LANE_ID s) (o_err code)) (\<lambda>_.
         bindC (liftC (o_safeInteger (fld record ''key'') code 1)) (\<lambda>key.
         returnC \<lparr>ol_id = s, ol_key = key\<rparr>))
     | _ \<Rightarrow> failC (o_err code)))"

definition parseLane :: "operation_kind \<Rightarrow> operation_code \<Rightarrow> jsval \<Rightarrow> (err, operation_lane option) capture" where
  "parseLane kind code = nullableC (captureLane kind code)"

definition captureUserOperationReference ::
    "ext \<Rightarrow> operation_code \<Rightarrow> jsval \<Rightarrow> (err, user_operation_reference) capture" where
  "captureUserOperationReference E code v =
     bindC (exactRecord v [''chainId'', ''entryPoint'', ''account'', ''nonce'', ''userOperationHash'']
              (o_err code)) (\<lambda>record.
     bindC (liftC (o_safeInteger (fld record ''chainId'') code 1)) (\<lambda>chainId.
     bindC (liftC (o_address E (fld record ''entryPoint'') code)) (\<lambda>entryPoint.
     bindC (liftC (o_address E (fld record ''account'') code)) (\<lambda>account.
     bindC (liftC (o_uint256 (fld record ''nonce'') code)) (\<lambda>nonce.
     bindC (liftC (o_hash (fld record ''userOperationHash'') code)) (\<lambda>userOperationHash.
     returnC \<lparr>ur_chainId = chainId, ur_entryPoint = entryPoint, ur_account = account, ur_nonce = nonce,
       ur_userOperationHash = userOperationHash\<rparr>))))))"

definition parseUserOperationReference :: "ext \<Rightarrow> jsval \<Rightarrow> err + user_operation_reference" where
  "parseUserOperationReference E v = runC (captureUserOperationReference E Operation_input_invalid v)"

definition captureWeakObservation :: "operation_code \<Rightarrow> jsval \<Rightarrow> (err, weak_observation) capture" where
  "captureWeakObservation code v =
     bindC (captureRecord v (o_err code)) (\<lambda>captured.
     let status = fld captured ''status'' in
     bindC (exactCapturedRecord captured [''status'', ''observedAt'', ''reason''] (o_err code)) (\<lambda>record.
     bindC (liftC (o_safeInteger (fld record ''observedAt'') code 0)) (\<lambda>observedAt.
     if status = JString ''pending'' then
       bindC (liftC (literal_of pending_reasons (fld record ''reason'') (o_err code))) (\<lambda>reason.
       returnC (Pending observedAt reason))
     else if status = JString ''unreadable'' then
       bindC (liftC (literal_of unread_reasons (fld record ''reason'') (o_err code))) (\<lambda>reason.
       returnC (UnreadableObservation observedAt reason))
     else failC (o_err code))))"

definition parseWeakObservation :: "operation_code \<Rightarrow> jsval \<Rightarrow> (err, weak_observation option) capture" where
  "parseWeakObservation code = nullableC (captureWeakObservation code)"

definition parseInclusion :: "operation_code \<Rightarrow> jsval \<Rightarrow> (err, operation_inclusion) capture" where
  "parseInclusion code v =
     bindC (exactRecord v [''transactionHash'', ''blockNumber'', ''blockHash'', ''outcome'', ''observedAt'']
              (o_err code)) (\<lambda>record.
     bindC (liftC (literal_of outcomes (fld record ''outcome'') (o_err code))) (\<lambda>outcome.
     bindC (liftC (o_hash (fld record ''transactionHash'') code)) (\<lambda>transactionHash.
     bindC (liftC (o_uint256 (fld record ''blockNumber'') code)) (\<lambda>blockNumber.
     bindC (liftC (o_hash (fld record ''blockHash'') code)) (\<lambda>blockHash.
     bindC (liftC (o_safeInteger (fld record ''observedAt'') code 0)) (\<lambda>observedAt.
     returnC \<lparr>in_transactionHash = transactionHash, in_blockNumber = blockNumber, in_blockHash = blockHash,
       in_outcome = outcome, in_observedAt = observedAt\<rparr>))))))"

definition parseFinality :: "operation_code \<Rightarrow> jsval \<Rightarrow> (err, operation_finality) capture" where
  "parseFinality code v =
     bindC (exactRecord v [''blockNumber'', ''blockHash'', ''observedAt''] (o_err code)) (\<lambda>record.
     bindC (liftC (o_uint256 (fld record ''blockNumber'') code)) (\<lambda>blockNumber.
     bindC (liftC (o_hash (fld record ''blockHash'') code)) (\<lambda>blockHash.
     bindC (liftC (o_safeInteger (fld record ''observedAt'') code 0)) (\<lambda>observedAt.
     returnC \<lparr>fi_blockNumber = blockNumber, fi_blockHash = blockHash, fi_observedAt = observedAt\<rparr>))))"

definition UINT64_MASK :: int where
  "UINT64_MASK = push_bit 64 1 - 1"

text \<open>The nonce-advance rule: same 192-bit key, strictly greater sequence.\<close>

definition requireNonceAdvance :: "string \<Rightarrow> string \<Rightarrow> operation_code \<Rightarrow> err + unit" where
  "requireNonceAdvance observedNonce identityNonce code =
     (let observed = BigInt observedNonce; own = BigInt identityNonce in
      if drop_bit 64 observed \<noteq> drop_bit 64 own then Inl (o_err code)
      else if (observed AND UINT64_MASK) \<le> (own AND UINT64_MASK) then Inl (o_err code)
      else Inr ())"

definition parseSupersession ::
    "operation_identity \<Rightarrow> operation_code \<Rightarrow> jsval \<Rightarrow> (err, operation_supersession) capture" where
  "parseSupersession identity code v =
     bindC (exactRecord v [''kind'', ''observedNonce'', ''blockNumber'', ''blockHash'', ''observedAt'']
              (o_err code)) (\<lambda>record.
     bindC (guardC (fld record ''kind'' = JString ''entry_point_nonce_advanced'') (o_err code)) (\<lambda>_.
     bindC (liftC (o_uint256 (fld record ''observedNonce'') code)) (\<lambda>observedNonce.
     bindC (liftC (requireNonceAdvance observedNonce (oi_nonce identity) code)) (\<lambda>_.
     bindC (liftC (o_uint256 (fld record ''blockNumber'') code)) (\<lambda>blockNumber.
     bindC (liftC (o_hash (fld record ''blockHash'') code)) (\<lambda>blockHash.
     bindC (liftC (o_safeInteger (fld record ''observedAt'') code 0)) (\<lambda>observedAt.
     returnC \<lparr>su_observedNonce = observedNonce, su_blockNumber = blockNumber, su_blockHash = blockHash,
       su_observedAt = observedAt\<rparr>)))))))"

definition replacesIdentity :: "user_operation_reference \<Rightarrow> operation_identity \<Rightarrow> bool" where
  "replacesIdentity r i \<longleftrightarrow>
     \<not> (ur_chainId r \<noteq> oi_chainId i \<or> ur_entryPoint r \<noteq> oi_entryPoint i \<or> ur_account r \<noteq> oi_account i \<or>
        ur_nonce r \<noteq> oi_nonce i \<or> ur_userOperationHash r = oi_userOperationHash i)"

definition finalityContradicts :: "operation_finality \<Rightarrow> operation_inclusion \<Rightarrow> bool" where
  "finalityContradicts f i \<longleftrightarrow>
     fi_observedAt f < in_observedAt i \<or>
     BigInt (fi_blockNumber f) < BigInt (in_blockNumber i) \<or>
     (fi_blockNumber f = in_blockNumber i \<and> fi_blockHash f \<noteq> in_blockHash i)"

definition captureReplacement ::
    "operation_identity \<Rightarrow> ext \<Rightarrow> operation_code \<Rightarrow> jsval \<Rightarrow> (err, drop_evidence) capture" where
  "captureReplacement identity E code v =
     bindC (exactRecord v [''identity'', ''inclusion'', ''finality''] (o_err code)) (\<lambda>replacementRecord.
     bindC (captureUserOperationReference E code (fld replacementRecord ''identity'')) (\<lambda>replacementIdentity.
     bindC (guardC (replacesIdentity replacementIdentity identity) (o_err code)) (\<lambda>_.
     bindC (parseInclusion code (fld replacementRecord ''inclusion'')) (\<lambda>inclusion.
     bindC (parseFinality code (fld replacementRecord ''finality'')) (\<lambda>finality.
     bindC (guardC (\<not> finalityContradicts finality inclusion) (o_err code)) (\<lambda>_.
     returnC \<lparr>de_identity = replacementIdentity, de_inclusion = inclusion, de_finality = finality\<rparr>))))))"

definition parseDrop ::
    "operation_identity \<Rightarrow> ext \<Rightarrow> operation_code \<Rightarrow> jsval \<Rightarrow> (err, drop_evidence) capture" where
  "parseDrop identity E code v =
     bindC (exactRecord v [''kind'', ''replacement''] (o_err code)) (\<lambda>record.
     bindC (guardC (fld record ''kind'' = JString ''finalized_nonce_replacement'') (o_err code)) (\<lambda>_.
     captureReplacement identity E code (fld record ''replacement'')))"

definition parseNullableTime :: "jsval \<Rightarrow> operation_code \<Rightarrow> err + int option" where
  "parseNullableTime v code = nullable_scalar (safe_integer 0 MAX_SAFE_INTEGER) v (o_err code)"

definition parseNullableInclusion :: "operation_code \<Rightarrow> jsval \<Rightarrow> (err, operation_inclusion option) capture" where
  "parseNullableInclusion code = nullableC (parseInclusion code)"

definition parseSubmission :: "operation_code \<Rightarrow> jsval \<Rightarrow> (err, submission_evidence) capture" where
  "parseSubmission code v =
     bindC (exactRecord v [''route'', ''transactionHash''] (o_err code)) (\<lambda>record.
     if fld record ''route'' = JString ''erc4337-bundler'' \<and> fld record ''transactionHash'' = JNull
     then returnC Bundler
     else if fld record ''route'' = JString ''erc4337-handleops'' then
       bindC (liftC (o_hash (fld record ''transactionHash'') code)) (\<lambda>transactionHash.
       returnC (HandleOps transactionHash))
     else failC (o_err code))"

definition inclusionOccurrenceEqual :: "operation_inclusion \<Rightarrow> operation_inclusion \<Rightarrow> bool" where
  "inclusionOccurrenceEqual l r \<longleftrightarrow>
     in_transactionHash l = in_transactionHash r \<and> in_blockNumber l = in_blockNumber r \<and>
     in_blockHash l = in_blockHash r"

definition baseRecord :: "ext \<Rightarrow> fields \<Rightarrow> operation_code \<Rightarrow> (err, operation_common) capture" where
  "baseRecord E record code =
     bindC (guardC (fld record ''version'' = JString OAATH_OPERATION_RECORD_VERSION) (o_err code)) (\<lambda>_.
     bindC (o_parseIdentity E code (fld record ''identity'')) (\<lambda>identity.
     bindC (parseLane (oi_kind identity) code (fld record ''lane'')) (\<lambda>lane.
     bindC (nullableC (parseSubmission code) (fld record ''submission'')) (\<lambda>submission.
     bindC (liftC (o_safeInteger (fld record ''revision'') code 0)) (\<lambda>revision.
     bindC (liftC (o_safeInteger (fld record ''preparedAt'') code 0)) (\<lambda>preparedAt.
     bindC (liftC (o_safeInteger (fld record ''updatedAt'') code 0)) (\<lambda>updatedAt.
     bindC (parseWeakObservation code (fld record ''observation'')) (\<lambda>observation.
     returnC \<lparr>oc_lane = lane, oc_submission = submission, oc_identity = identity, oc_revision = revision,
       oc_preparedAt = preparedAt, oc_updatedAt = updatedAt, oc_observation = observation\<rparr>))))))))"

section \<open>The eight states\<close>

text \<open>
  What each state checks of its revision and of its times; \<open>true\<close> where no \<open>assertTimeOrder\<close>
  fails. \<open>after_send\<close> is \<open>submittedAt ?? attemptedAt\<close>.
\<close>

definition after_send :: "int \<Rightarrow> int option \<Rightarrow> int" where
  "after_send attemptedAt submittedAt = (case submittedAt of None \<Rightarrow> attemptedAt | Some t \<Rightarrow> t)"

definition one_if_some :: "'a option \<Rightarrow> int" where
  "one_if_some x = (case x of None \<Rightarrow> 0 | Some _ \<Rightarrow> 1)"

definition sent_in_order :: "operation_common \<Rightarrow> int \<Rightarrow> int option \<Rightarrow> bool" where
  "sent_in_order b attemptedAt submittedAt \<longleftrightarrow>
     attemptedAt \<ge> oc_preparedAt b \<and>
     (case submittedAt of None \<Rightarrow> True | Some t \<Rightarrow> t \<ge> attemptedAt)"

definition observed_after :: "operation_common \<Rightarrow> int \<Rightarrow> bool" where
  "observed_after b time \<longleftrightarrow>
     (case oc_observation b of
        Some w \<Rightarrow> wo_observedAt w = oc_updatedAt b \<and> wo_observedAt w \<ge> time
      | None \<Rightarrow> oc_updatedAt b = time)"

definition prepared_order :: "operation_common \<Rightarrow> bool" where
  "prepared_order b \<longleftrightarrow>
     oc_revision b = 0 \<and> oc_updatedAt b = oc_preparedAt b \<and> oc_observation b = None"

definition abandoned_order :: "operation_common \<Rightarrow> int \<Rightarrow> abandonment_reason \<Rightarrow> bool" where
  "abandoned_order b abandonedAt reason \<longleftrightarrow>
     oc_revision b = (if reason = Submission_rejected then 2 else 1) \<and>
     abandonedAt \<ge> oc_preparedAt b \<and> oc_updatedAt b = abandonedAt \<and> oc_observation b = None"

definition attempted_order :: "operation_common \<Rightarrow> int \<Rightarrow> bool" where
  "attempted_order b attemptedAt \<longleftrightarrow>
     attemptedAt \<ge> oc_preparedAt b \<and> attemptedAt \<le> oc_updatedAt b \<and>
     (case oc_observation b of Some _ \<Rightarrow> oc_revision b \<ge> 2 | None \<Rightarrow> oc_revision b = 1) \<and>
     observed_after b attemptedAt"

definition submitted_order :: "operation_common \<Rightarrow> int \<Rightarrow> int \<Rightarrow> bool" where
  "submitted_order b attemptedAt submittedAt \<longleftrightarrow>
     oc_revision b \<ge> (if oc_observation b = None then 2 else 3) \<and>
     attemptedAt \<ge> oc_preparedAt b \<and> submittedAt \<ge> attemptedAt \<and> submittedAt \<le> oc_updatedAt b \<and>
     observed_after b submittedAt"

definition included_order :: "operation_common \<Rightarrow> int \<Rightarrow> int option \<Rightarrow> operation_inclusion \<Rightarrow> bool" where
  "included_order b attemptedAt submittedAt inclusion \<longleftrightarrow>
     oc_revision b \<ge> 2 + one_if_some submittedAt + one_if_some (oc_observation b) \<and>
     sent_in_order b attemptedAt submittedAt \<and>
     in_observedAt inclusion \<ge> after_send attemptedAt submittedAt \<and>
     in_observedAt inclusion \<le> oc_updatedAt b \<and>
     observed_after b (in_observedAt inclusion)"

definition finalized_order ::
    "operation_common \<Rightarrow> int \<Rightarrow> int option \<Rightarrow> operation_inclusion \<Rightarrow> operation_finality \<Rightarrow> bool" where
  "finalized_order b attemptedAt submittedAt inclusion finality \<longleftrightarrow>
     oc_revision b \<ge> 3 + one_if_some submittedAt \<and>
     sent_in_order b attemptedAt submittedAt \<and>
     in_observedAt inclusion \<ge> after_send attemptedAt submittedAt \<and>
     fi_observedAt finality \<ge> in_observedAt inclusion \<and>
     BigInt (fi_blockNumber finality) \<ge> BigInt (in_blockNumber inclusion) \<and>
     (fi_blockNumber finality \<noteq> in_blockNumber inclusion \<or> fi_blockHash finality = in_blockHash inclusion) \<and>
     oc_updatedAt b = fi_observedAt finality \<and> oc_observation b = None"

definition dropped_order ::
    "operation_common \<Rightarrow> int \<Rightarrow> int option \<Rightarrow> operation_inclusion option \<Rightarrow> drop_evidence \<Rightarrow> bool" where
  "dropped_order b attemptedAt submittedAt priorInclusion evidence \<longleftrightarrow>
     (case priorInclusion of None \<Rightarrow> True | Some i \<Rightarrow> \<not> inclusionOccurrenceEqual i (de_inclusion evidence)) \<and>
     oc_revision b \<ge> 2 + one_if_some submittedAt + one_if_some priorInclusion \<and>
     sent_in_order b attemptedAt submittedAt \<and>
     (case priorInclusion of None \<Rightarrow> True | Some i \<Rightarrow> in_observedAt i \<ge> after_send attemptedAt submittedAt) \<and>
     fi_observedAt (de_finality evidence) \<ge>
       (case priorInclusion of Some i \<Rightarrow> in_observedAt i | None \<Rightarrow> after_send attemptedAt submittedAt) \<and>
     oc_updatedAt b = fi_observedAt (de_finality evidence) \<and> oc_observation b = None"

definition superseded_order :: "operation_common \<Rightarrow> int \<Rightarrow> int option \<Rightarrow> operation_supersession \<Rightarrow> bool" where
  "superseded_order b attemptedAt submittedAt supersession \<longleftrightarrow>
     oc_revision b \<ge> 2 + one_if_some submittedAt \<and>
     sent_in_order b attemptedAt submittedAt \<and>
     su_observedAt supersession \<ge> after_send attemptedAt submittedAt \<and>
     oc_updatedAt b = su_observedAt supersession \<and> oc_observation b = None"

section \<open>The record parser\<close>

definition operation_keys :: "string list" where
  "operation_keys = [''lane'', ''submission'', ''version'', ''identity'', ''revision'', ''state'',
     ''preparedAt'', ''updatedAt'', ''observation'']"

definition capturePrepared :: "ext \<Rightarrow> operation_code \<Rightarrow> fields \<Rightarrow> (err, operation) capture" where
  "capturePrepared E code captured =
     bindC (exactCapturedRecord captured operation_keys (o_err code)) (\<lambda>record.
     bindC (baseRecord E record code) (\<lambda>base.
     bindC (guardC (prepared_order base) (o_err code)) (\<lambda>_.
     returnC \<lparr>op_common = base, op_state = Prepared\<rparr>)))"

definition captureAbandoned :: "ext \<Rightarrow> operation_code \<Rightarrow> fields \<Rightarrow> (err, operation) capture" where
  "captureAbandoned E code captured =
     bindC (exactCapturedRecord captured (operation_keys @ [''abandonedAt'', ''abandonment'']) (o_err code)) (\<lambda>record.
     bindC (baseRecord E record code) (\<lambda>base.
     bindC (liftC (o_safeInteger (fld record ''abandonedAt'') code 0)) (\<lambda>abandonedAt.
     bindC (exactRecord (fld record ''abandonment'') [''reason''] (o_err code)) (\<lambda>abandonmentRecord.
     bindC (liftC (literal_of abandonment_reasons (fld abandonmentRecord ''reason'') (o_err code))) (\<lambda>reason.
     bindC (guardC (abandoned_order base abandonedAt reason) (o_err code)) (\<lambda>_.
     returnC \<lparr>op_common = base, op_state = Abandoned abandonedAt reason\<rparr>))))))"

definition captureAttempted :: "ext \<Rightarrow> operation_code \<Rightarrow> fields \<Rightarrow> (err, operation) capture" where
  "captureAttempted E code captured =
     bindC (exactCapturedRecord captured (operation_keys @ [''attemptedAt'']) (o_err code)) (\<lambda>record.
     bindC (baseRecord E record code) (\<lambda>base.
     bindC (liftC (o_safeInteger (fld record ''attemptedAt'') code 0)) (\<lambda>attemptedAt.
     bindC (guardC (attempted_order base attemptedAt) (o_err code)) (\<lambda>_.
     returnC \<lparr>op_common = base, op_state = SubmissionAttempted attemptedAt\<rparr>))))"

definition captureSubmitted :: "ext \<Rightarrow> operation_code \<Rightarrow> fields \<Rightarrow> (err, operation) capture" where
  "captureSubmitted E code captured =
     bindC (exactCapturedRecord captured (operation_keys @ [''attemptedAt'', ''submittedAt'']) (o_err code)) (\<lambda>record.
     bindC (baseRecord E record code) (\<lambda>base.
     bindC (liftC (o_safeInteger (fld record ''attemptedAt'') code 0)) (\<lambda>attemptedAt.
     bindC (liftC (o_safeInteger (fld record ''submittedAt'') code 0)) (\<lambda>submittedAt.
     bindC (guardC (submitted_order base attemptedAt submittedAt) (o_err code)) (\<lambda>_.
     returnC \<lparr>op_common = base, op_state = Submitted attemptedAt submittedAt\<rparr>)))))"

definition captureIncluded :: "ext \<Rightarrow> operation_code \<Rightarrow> fields \<Rightarrow> (err, operation) capture" where
  "captureIncluded E code captured =
     bindC (exactCapturedRecord captured (operation_keys @ [''attemptedAt'', ''submittedAt'', ''inclusion''])
              (o_err code)) (\<lambda>record.
     bindC (baseRecord E record code) (\<lambda>base.
     bindC (liftC (o_safeInteger (fld record ''attemptedAt'') code 0)) (\<lambda>attemptedAt.
     bindC (liftC (parseNullableTime (fld record ''submittedAt'') code)) (\<lambda>submittedAt.
     bindC (parseInclusion code (fld record ''inclusion'')) (\<lambda>inclusion.
     bindC (guardC (included_order base attemptedAt submittedAt inclusion) (o_err code)) (\<lambda>_.
     returnC \<lparr>op_common = base, op_state = Included attemptedAt submittedAt inclusion\<rparr>))))))"

definition captureFinalized :: "ext \<Rightarrow> operation_code \<Rightarrow> fields \<Rightarrow> (err, operation) capture" where
  "captureFinalized E code captured =
     bindC (exactCapturedRecord captured
              (operation_keys @ [''attemptedAt'', ''submittedAt'', ''inclusion'', ''finality'']) (o_err code)) (\<lambda>record.
     bindC (baseRecord E record code) (\<lambda>base.
     bindC (liftC (o_safeInteger (fld record ''attemptedAt'') code 0)) (\<lambda>attemptedAt.
     bindC (liftC (parseNullableTime (fld record ''submittedAt'') code)) (\<lambda>submittedAt.
     bindC (parseInclusion code (fld record ''inclusion'')) (\<lambda>inclusion.
     bindC (parseFinality code (fld record ''finality'')) (\<lambda>finality.
     bindC (guardC (finalized_order base attemptedAt submittedAt inclusion finality) (o_err code)) (\<lambda>_.
     returnC \<lparr>op_common = base, op_state = Finalized attemptedAt submittedAt inclusion finality\<rparr>)))))))"

definition captureDropped :: "ext \<Rightarrow> operation_code \<Rightarrow> fields \<Rightarrow> (err, operation) capture" where
  "captureDropped E code captured =
     bindC (exactCapturedRecord captured
              (operation_keys @ [''attemptedAt'', ''submittedAt'', ''priorInclusion'', ''drop'']) (o_err code)) (\<lambda>record.
     bindC (baseRecord E record code) (\<lambda>base.
     bindC (liftC (o_safeInteger (fld record ''attemptedAt'') code 0)) (\<lambda>attemptedAt.
     bindC (liftC (parseNullableTime (fld record ''submittedAt'') code)) (\<lambda>submittedAt.
     bindC (parseNullableInclusion code (fld record ''priorInclusion'')) (\<lambda>priorInclusion.
     bindC (parseDrop (oc_identity base) E code (fld record ''drop'')) (\<lambda>drop.
     bindC (guardC (dropped_order base attemptedAt submittedAt priorInclusion drop) (o_err code)) (\<lambda>_.
     returnC \<lparr>op_common = base, op_state = Dropped attemptedAt submittedAt priorInclusion drop\<rparr>)))))))"

definition captureSuperseded :: "ext \<Rightarrow> operation_code \<Rightarrow> fields \<Rightarrow> (err, operation) capture" where
  "captureSuperseded E code captured =
     bindC (exactCapturedRecord captured
              (operation_keys @ [''attemptedAt'', ''submittedAt'', ''supersession'']) (o_err code)) (\<lambda>record.
     bindC (baseRecord E record code) (\<lambda>base.
     bindC (liftC (o_safeInteger (fld record ''attemptedAt'') code 0)) (\<lambda>attemptedAt.
     bindC (liftC (parseNullableTime (fld record ''submittedAt'') code)) (\<lambda>submittedAt.
     bindC (parseSupersession (oc_identity base) code (fld record ''supersession'')) (\<lambda>supersession.
     bindC (guardC (superseded_order base attemptedAt submittedAt supersession) (o_err code)) (\<lambda>_.
     returnC \<lparr>op_common = base, op_state = Superseded attemptedAt submittedAt supersession\<rparr>))))))"

definition unacknowledged :: "jsval \<Rightarrow> bool" where
  "unacknowledged state \<longleftrightarrow> state = JString ''prepared'' \<or> state = JString ''abandoned'' \<or>
     state = JString ''submission_attempted''"

definition parseOperationUnsafe :: "ext \<Rightarrow> operation_code \<Rightarrow> jsval \<Rightarrow> (err, operation) capture" where
  "parseOperationUnsafe E code v =
     bindC (captureRecord v (o_err code)) (\<lambda>captured.
     let state = fld captured ''state'' in
     bindC (guardC (\<not> (unacknowledged state \<and> fld captured ''submission'' \<noteq> JNull)) (o_err code)) (\<lambda>_.
     bindC (guardC (\<not> (fld captured ''submittedAt'' = JNull \<and> fld captured ''submission'' \<noteq> JNull))
              (o_err code)) (\<lambda>_.
     if state = JString ''prepared'' then capturePrepared E code captured
     else if state = JString ''abandoned'' then captureAbandoned E code captured
     else if state = JString ''submission_attempted'' then captureAttempted E code captured
     else if state = JString ''submitted'' then captureSubmitted E code captured
     else if state = JString ''included'' then captureIncluded E code captured
     else if state = JString ''finalized'' then captureFinalized E code captured
     else if state = JString ''dropped'' then captureDropped E code captured
     else if state = JString ''superseded'' then captureSuperseded E code captured
     else failC (o_err code))))"

definition parseOperation :: "ext \<Rightarrow> jsval \<Rightarrow> err + operation" where
  "parseOperation E v = runC (parseOperationUnsafe E Operation_record_invalid v)"

definition parseOperationLane :: "jsval \<Rightarrow> err + operation_lane" where
  "parseOperationLane v =
     bindE (runC (parseLane Execution Operation_input_invalid v)) (\<lambda>lane.
     case lane of None \<Rightarrow> Inl (o_err Operation_input_invalid) | Some l \<Rightarrow> Inr l)"

definition parseOperationIdentity :: "ext \<Rightarrow> jsval \<Rightarrow> err + operation_identity" where
  "parseOperationIdentity E v = runC (o_parseIdentity E Operation_record_invalid v)"

definition parseOperationSubmissionEvidence :: "jsval \<Rightarrow> err + submission_evidence" where
  "parseOperationSubmissionEvidence v = runC (parseSubmission Operation_record_invalid v)"

text \<open>\<open>record.lane ?? null\<close>\<close>

definition or_null :: "jsval \<Rightarrow> jsval" where
  "or_null v = (if v = JUndefined then JNull else v)"

definition createOperation :: "ext \<Rightarrow> jsval \<Rightarrow> err + operation" where
  "createOperation E v = runC (
     let code = Operation_input_invalid in
     bindC (captureRecord v (o_err code)) (\<lambda>captured.
     bindC (exactCapturedRecord captured
              (if PName ''lane'' \<in> set (map fst captured) then [''identity'', ''preparedAt'', ''lane'']
               else [''identity'', ''preparedAt'']) (o_err code)) (\<lambda>record.
     bindC (liftC (o_safeInteger (fld record ''preparedAt'') code 0)) (\<lambda>preparedAt.
     bindC (o_parseIdentity E code (fld record ''identity'')) (\<lambda>identity.
     bindC (parseLane (oi_kind identity) code (or_null (fld record ''lane''))) (\<lambda>lane.
     returnC \<lparr>op_common = \<lparr>oc_lane = lane, oc_submission = None, oc_identity = identity, oc_revision = 0,
         oc_preparedAt = preparedAt, oc_updatedAt = preparedAt, oc_observation = None\<rparr>,
       op_state = Prepared\<rparr>))))))"

fun occupiesLane :: "operation_state \<Rightarrow> bool" where
  "occupiesLane (Abandoned _ _) = False"
| "occupiesLane (Finalized _ _ _ _) = False"
| "occupiesLane (Dropped _ _ _ _) = False"
| "occupiesLane (Superseded _ _ _) = False"
| "occupiesLane _ = True"

definition operationOccupiesLane :: "ext \<Rightarrow> jsval \<Rightarrow> err + bool" where
  "operationOccupiesLane E v =
     bindE (parseOperation E v) (\<lambda>operation. Inr (occupiesLane (op_state operation)))"

end
