(* ===== verification/Operation_Codec.thy ===== *)
theory Operation_Codec
  imports Operation_Record
begin

text \<open>
  What \<open>parseOperation\<close> guarantees: the well-formedness of an Operation record and of its parts,
  the literals the program builds from them, and the interface \<open>codec\<close> for each parser.
\<close>

section \<open>Well-formed parts\<close>

definition wf_op_identity :: "operation_identity \<Rightarrow> bool" where
  "wf_op_identity i \<longleftrightarrow> id_ok (oi_grantId i) \<and> int_ok 1 (oi_chainId i) \<and> address_ok (oi_entryPoint i) \<and>
     address_ok (oi_account i) \<and> uint256_string (oi_nonce i) \<and> lower_hex 64 (oi_userOperationHash i) \<and>
     pred_option (lower_hex 64) (oi_requestHash i)"

definition wf_reference :: "user_operation_reference \<Rightarrow> bool" where
  "wf_reference r \<longleftrightarrow> int_ok 1 (ur_chainId r) \<and> address_ok (ur_entryPoint r) \<and> address_ok (ur_account r) \<and>
     uint256_string (ur_nonce r) \<and> lower_hex 64 (ur_userOperationHash r)"

definition wf_lane :: "operation_kind \<Rightarrow> operation_lane \<Rightarrow> bool" where
  "wf_lane kind l \<longleftrightarrow> kind = Execution \<and> LANE_ID (ol_id l) \<and> int_ok 1 (ol_key l)"

definition wf_weak :: "weak_observation \<Rightarrow> bool" where
  "wf_weak w \<longleftrightarrow> int_ok 0 (wo_observedAt w)"

definition wf_inclusion :: "operation_inclusion \<Rightarrow> bool" where
  "wf_inclusion i \<longleftrightarrow> lower_hex 64 (in_transactionHash i) \<and> uint256_string (in_blockNumber i) \<and>
     lower_hex 64 (in_blockHash i) \<and> int_ok 0 (in_observedAt i)"

definition wf_finality :: "operation_finality \<Rightarrow> bool" where
  "wf_finality f \<longleftrightarrow> uint256_string (fi_blockNumber f) \<and> lower_hex 64 (fi_blockHash f) \<and>
     int_ok 0 (fi_observedAt f)"

definition nonceAdvanced :: "string \<Rightarrow> string \<Rightarrow> bool" where
  "nonceAdvanced observed own \<longleftrightarrow>
     BigInt observed div 2 ^ 64 = BigInt own div 2 ^ 64 \<and> BigInt own mod 2 ^ 64 < BigInt observed mod 2 ^ 64"

definition wf_supersession :: "operation_identity \<Rightarrow> operation_supersession \<Rightarrow> bool" where
  "wf_supersession i s \<longleftrightarrow> uint256_string (su_observedNonce s) \<and> nonceAdvanced (su_observedNonce s) (oi_nonce i) \<and>
     uint256_string (su_blockNumber s) \<and> lower_hex 64 (su_blockHash s) \<and> int_ok 0 (su_observedAt s)"

definition wf_drop :: "operation_identity \<Rightarrow> drop_evidence \<Rightarrow> bool" where
  "wf_drop i d \<longleftrightarrow> wf_reference (de_identity d) \<and> replacesIdentity (de_identity d) i \<and>
     wf_inclusion (de_inclusion d) \<and> wf_finality (de_finality d) \<and>
     \<not> finalityContradicts (de_finality d) (de_inclusion d)"

fun wf_submission :: "submission_evidence \<Rightarrow> bool" where
  "wf_submission Bundler = True"
| "wf_submission (HandleOps h) = lower_hex 64 h"

definition wf_common :: "operation_common \<Rightarrow> bool" where
  "wf_common b \<longleftrightarrow> wf_op_identity (oc_identity b) \<and>
     pred_option (wf_lane (oi_kind (oc_identity b))) (oc_lane b) \<and>
     pred_option wf_submission (oc_submission b) \<and> int_ok 0 (oc_revision b) \<and> int_ok 0 (oc_preparedAt b) \<and>
     int_ok 0 (oc_updatedAt b) \<and> pred_option wf_weak (oc_observation b)"

fun wf_state :: "operation_common \<Rightarrow> operation_state \<Rightarrow> bool" where
  "wf_state b Prepared = (oc_submission b = None \<and> prepared_order b)"
| "wf_state b (Abandoned t reason) = (oc_submission b = None \<and> int_ok 0 t \<and> abandoned_order b t reason)"
| "wf_state b (SubmissionAttempted a) = (oc_submission b = None \<and> int_ok 0 a \<and> attempted_order b a)"
| "wf_state b (Submitted a s) = (int_ok 0 a \<and> int_ok 0 s \<and> submitted_order b a s)"
| "wf_state b (Included a s i) =
     ((s = None \<longrightarrow> oc_submission b = None) \<and> int_ok 0 a \<and> pred_option (int_ok 0) s \<and> wf_inclusion i \<and>
      included_order b a s i)"
| "wf_state b (Finalized a s i f) =
     ((s = None \<longrightarrow> oc_submission b = None) \<and> int_ok 0 a \<and> pred_option (int_ok 0) s \<and> wf_inclusion i \<and>
      wf_finality f \<and> finalized_order b a s i f)"
| "wf_state b (Dropped a s i d) =
     ((s = None \<longrightarrow> oc_submission b = None) \<and> int_ok 0 a \<and> pred_option (int_ok 0) s \<and>
      pred_option wf_inclusion i \<and> wf_drop (oc_identity b) d \<and> dropped_order b a s i d)"
| "wf_state b (Superseded a s u) =
     ((s = None \<longrightarrow> oc_submission b = None) \<and> int_ok 0 a \<and> pred_option (int_ok 0) s \<and>
      wf_supersession (oc_identity b) u \<and> superseded_order b a s u)"

definition wf_operation :: "operation \<Rightarrow> bool" where
  "wf_operation x \<longleftrightarrow> wf_common (op_common x) \<and> wf_state (op_common x) (op_state x)"

section \<open>Literals\<close>

definition kind_name :: "operation_kind \<Rightarrow> string" where
  "kind_name k = (case k of Execution \<Rightarrow> ''execution'' | Revocation \<Rightarrow> ''revocation'')"

definition outcome_name :: "operation_outcome \<Rightarrow> string" where
  "outcome_name x = (case x of Success \<Rightarrow> ''success'' | Reverted \<Rightarrow> ''reverted'')"

definition pending_reason_name :: "pending_reason \<Rightarrow> string" where
  "pending_reason_name r = (case r of Receipt_missing \<Rightarrow> ''receipt_missing'' | Timeout \<Rightarrow> ''timeout'')"

definition unread_reason_name :: "unread_reason \<Rightarrow> string" where
  "unread_reason_name r =
     (case r of ProviderUnavailable \<Rightarrow> ''provider_unavailable'' | ReceiptInvalid \<Rightarrow> ''receipt_invalid''
      | CanonicalityUnproven \<Rightarrow> ''canonicality_unproven'' | FinalityUnproven \<Rightarrow> ''finality_unproven'')"

definition abandonment_reason_name :: "abandonment_reason \<Rightarrow> string" where
  "abandonment_reason_name r =
     (case r of Submission_not_attempted \<Rightarrow> ''submission_not_attempted''
      | Submission_rejected \<Rightarrow> ''submission_rejected'')"

definition op_identity_literal :: "ref \<Rightarrow> operation_identity \<Rightarrow> jsval" where
  "op_identity_literal p i = mk_obj p
     [(''kind'', JString (kind_name (oi_kind i))), (''grantId'', JString (oi_grantId i)),
      (''chainId'', jint (oi_chainId i)), (''entryPoint'', JString (oi_entryPoint i)),
      (''account'', JString (oi_account i)), (''nonce'', JString (oi_nonce i)),
      (''userOperationHash'', JString (oi_userOperationHash i)),
      (''requestHash'', nullable JString (oi_requestHash i))]"

definition reference_literal :: "ref \<Rightarrow> user_operation_reference \<Rightarrow> jsval" where
  "reference_literal p r = mk_obj p
     [(''chainId'', jint (ur_chainId r)), (''entryPoint'', JString (ur_entryPoint r)),
      (''account'', JString (ur_account r)), (''nonce'', JString (ur_nonce r)),
      (''userOperationHash'', JString (ur_userOperationHash r))]"

definition lane_literal :: "ref \<Rightarrow> operation_lane \<Rightarrow> jsval" where
  "lane_literal p l = mk_obj p [(''id'', JString (ol_id l)), (''key'', jint (ol_key l))]"

fun weak_literal :: "ref \<Rightarrow> weak_observation \<Rightarrow> jsval" where
  "weak_literal p (Pending t r) = mk_obj p
     [(''status'', JString ''pending''), (''observedAt'', jint t), (''reason'', JString (pending_reason_name r))]"
| "weak_literal p (UnreadableObservation t r) = mk_obj p
     [(''status'', JString ''unreadable''), (''observedAt'', jint t), (''reason'', JString (unread_reason_name r))]"

definition inclusion_literal :: "ref \<Rightarrow> operation_inclusion \<Rightarrow> jsval" where
  "inclusion_literal p i = mk_obj p
     [(''transactionHash'', JString (in_transactionHash i)), (''blockNumber'', JString (in_blockNumber i)),
      (''blockHash'', JString (in_blockHash i)), (''outcome'', JString (outcome_name (in_outcome i))),
      (''observedAt'', jint (in_observedAt i))]"

definition finality_literal :: "ref \<Rightarrow> operation_finality \<Rightarrow> jsval" where
  "finality_literal p f = mk_obj p
     [(''blockNumber'', JString (fi_blockNumber f)), (''blockHash'', JString (fi_blockHash f)),
      (''observedAt'', jint (fi_observedAt f))]"

definition supersession_literal :: "ref \<Rightarrow> operation_supersession \<Rightarrow> jsval" where
  "supersession_literal p s = mk_obj p
     [(''kind'', JString ''entry_point_nonce_advanced''), (''observedNonce'', JString (su_observedNonce s)),
      (''blockNumber'', JString (su_blockNumber s)), (''blockHash'', JString (su_blockHash s)),
      (''observedAt'', jint (su_observedAt s))]"

definition replacement_literal :: "ref \<Rightarrow> drop_evidence \<Rightarrow> jsval" where
  "replacement_literal p d = mk_obj p
     [(''identity'', reference_literal (at p ''identity'') (de_identity d)),
      (''inclusion'', inclusion_literal (at p ''inclusion'') (de_inclusion d)),
      (''finality'', finality_literal (at p ''finality'') (de_finality d))]"

definition drop_literal :: "ref \<Rightarrow> drop_evidence \<Rightarrow> jsval" where
  "drop_literal p d = mk_obj p
     [(''kind'', JString ''finalized_nonce_replacement''),
      (''replacement'', replacement_literal (at p ''replacement'') d)]"

fun submission_literal :: "ref \<Rightarrow> submission_evidence \<Rightarrow> jsval" where
  "submission_literal p Bundler = mk_obj p
     [(''route'', JString ''erc4337-bundler''), (''transactionHash'', JNull)]"
| "submission_literal p (HandleOps h) = mk_obj p
     [(''route'', JString ''erc4337-handleops''), (''transactionHash'', JString h)]"

fun state_name :: "operation_state \<Rightarrow> string" where
  "state_name Prepared = ''prepared''"
| "state_name (Abandoned _ _) = ''abandoned''"
| "state_name (SubmissionAttempted _) = ''submission_attempted''"
| "state_name (Submitted _ _) = ''submitted''"
| "state_name (Included _ _ _) = ''included''"
| "state_name (Finalized _ _ _ _) = ''finalized''"
| "state_name (Dropped _ _ _ _) = ''dropped''"
| "state_name (Superseded _ _ _) = ''superseded''"

definition common_fields :: "ref \<Rightarrow> string \<Rightarrow> operation_common \<Rightarrow> (string \<times> jsval) list" where
  "common_fields p state b =
     [(''lane'', nullable (lane_literal (at p ''lane'')) (oc_lane b)),
      (''submission'', nullable (submission_literal (at p ''submission'')) (oc_submission b)),
      (''version'', JString OAATH_OPERATION_RECORD_VERSION),
      (''identity'', op_identity_literal (at p ''identity'') (oc_identity b)),
      (''revision'', jint (oc_revision b)), (''state'', JString state),
      (''preparedAt'', jint (oc_preparedAt b)), (''updatedAt'', jint (oc_updatedAt b)),
      (''observation'', nullable (weak_literal (at p ''observation'')) (oc_observation b))]"

definition sent_fields :: "int \<Rightarrow> int option \<Rightarrow> (string \<times> jsval) list" where
  "sent_fields a s = [(''attemptedAt'', jint a), (''submittedAt'', nullable jint s)]"

fun state_fields :: "ref \<Rightarrow> operation_state \<Rightarrow> (string \<times> jsval) list" where
  "state_fields p Prepared = []"
| "state_fields p (Abandoned t reason) =
     [(''abandonedAt'', jint t),
      (''abandonment'', mk_obj (at p ''abandonment'') [(''reason'', JString (abandonment_reason_name reason))])]"
| "state_fields p (SubmissionAttempted a) = [(''attemptedAt'', jint a)]"
| "state_fields p (Submitted a s) = [(''attemptedAt'', jint a), (''submittedAt'', jint s)]"
| "state_fields p (Included a s i) =
     sent_fields a s @ [(''inclusion'', inclusion_literal (at p ''inclusion'') i)]"
| "state_fields p (Finalized a s i f) =
     sent_fields a s @ [(''inclusion'', inclusion_literal (at p ''inclusion'') i),
       (''finality'', finality_literal (at p ''finality'') f)]"
| "state_fields p (Dropped a s i d) =
     sent_fields a s @ [(''priorInclusion'', nullable (inclusion_literal (at p ''priorInclusion'')) i),
       (''drop'', drop_literal (at p ''drop'') d)]"
| "state_fields p (Superseded a s u) =
     sent_fields a s @ [(''supersession'', supersession_literal (at p ''supersession'') u)]"

definition operation_literal :: "ref \<Rightarrow> operation \<Rightarrow> jsval" where
  "operation_literal p x =
     mk_obj p (common_fields p (state_name (op_state x)) (op_common x) @ state_fields p (op_state x))"

section \<open>The parsers and the literals keep the interface\<close>

lemmas o_field_defs = o_safeInteger_def o_canonicalGrantId_def o_address_def o_hash_def o_uint256_def
  parseNullableTime_def

lemmas o_literal_defs = lane_literal_def inclusion_literal_def finality_literal_def supersession_literal_def
  reference_literal_def op_identity_literal_def drop_literal_def replacement_literal_def operation_literal_def

lemma o_literal_not_null [simp]:
  "lane_literal p l \<noteq> JNull" "inclusion_literal p i \<noteq> JNull" "finality_literal p f \<noteq> JNull"
  "supersession_literal p s \<noteq> JNull" "reference_literal p r \<noteq> JNull" "op_identity_literal p d \<noteq> JNull"
  "drop_literal p x \<noteq> JNull" "replacement_literal p x \<noteq> JNull" "operation_literal p y \<noteq> JNull"
  by (simp_all add: o_literal_defs)

lemma o_literal_not_null_cases [simp]: "weak_literal p w \<noteq> JNull" "submission_literal p s \<noteq> JNull"
  by (cases w, simp_all) (cases s, simp_all)

lemma o_record_eta [js_simps]:
  "\<lparr>oi_kind = oi_kind i, oi_grantId = oi_grantId i, oi_chainId = oi_chainId i, oi_entryPoint = oi_entryPoint i,
    oi_account = oi_account i, oi_nonce = oi_nonce i, oi_userOperationHash = oi_userOperationHash i,
    oi_requestHash = oi_requestHash i\<rparr> = i"
  "\<lparr>ur_chainId = ur_chainId r, ur_entryPoint = ur_entryPoint r, ur_account = ur_account r,
    ur_nonce = ur_nonce r, ur_userOperationHash = ur_userOperationHash r\<rparr> = r"
  "\<lparr>ol_id = ol_id l, ol_key = ol_key l\<rparr> = l"
  "\<lparr>in_transactionHash = in_transactionHash n, in_blockNumber = in_blockNumber n, in_blockHash = in_blockHash n,
    in_outcome = in_outcome n, in_observedAt = in_observedAt n\<rparr> = n"
  "\<lparr>fi_blockNumber = fi_blockNumber f, fi_blockHash = fi_blockHash f, fi_observedAt = fi_observedAt f\<rparr> = f"
  "\<lparr>su_observedNonce = su_observedNonce s, su_blockNumber = su_blockNumber s, su_blockHash = su_blockHash s,
    su_observedAt = su_observedAt s\<rparr> = s"
  "\<lparr>de_identity = de_identity d, de_inclusion = de_inclusion d, de_finality = de_finality d\<rparr> = d"
  "\<lparr>oc_lane = oc_lane b, oc_submission = oc_submission b, oc_identity = oc_identity b, oc_revision = oc_revision b,
    oc_preparedAt = oc_preparedAt b, oc_updatedAt = oc_updatedAt b, oc_observation = oc_observation b\<rparr> = b"
  by simp_all

lemma operation_kinds_name [js_simps]: "map_of operation_kinds (kind_name k) = Some k"
  by (cases k) (simp_all add: kind_name_def operation_kinds_def)

lemma outcomes_name [js_simps]: "map_of outcomes (outcome_name x) = Some x"
  by (cases x) (simp_all add: outcome_name_def outcomes_def)

lemma pending_reasons_name [js_simps]: "map_of pending_reasons (pending_reason_name r) = Some r"
  by (cases r) (simp_all add: pending_reason_name_def pending_reasons_def)

lemma unread_reasons_name [js_simps]: "map_of unread_reasons (unread_reason_name r) = Some r"
  by (cases r) (simp_all add: unread_reason_name_def unread_reasons_def)

lemma abandonment_reasons_name [js_simps]: "map_of abandonment_reasons (abandonment_reason_name r) = Some r"
  by (cases r) (simp_all add: abandonment_reason_name_def abandonment_reasons_def)

lemma nullable_hex [js_simps]:
  "pred_option (lower_hex n) x \<Longrightarrow> nullable_scalar (fixed_hex n) (nullable JString x) e = Inr x"
  by (cases x) (auto simp: js_simps)

lemma nullable_hex_sound: "nullable_scalar (fixed_hex n) v e = Inr x \<Longrightarrow> pred_option (lower_hex n) x"
  by (auto simp: nullable_scalar_Inr)

lemma o_parseIdentity_sound:
  "ext_ok E \<Longrightarrow> o_parseIdentity E code v c = Inr (i, c') \<Longrightarrow> wf_op_identity i"
  unfolding o_parseIdentity_def
  by (elim bindC_InrE)
    (auto simp: o_field_defs wf_op_identity_def dest: captureAddress_sound nullable_hex_sound)

lemma o_parseIdentity_complete:
  "ext_ok E \<Longrightarrow> wf_op_identity i \<Longrightarrow> fresh p c \<Longrightarrow> reads (o_parseIdentity E code (op_identity_literal p i)) c p i"
  unfolding o_parseIdentity_def op_identity_literal_def
  by (intro reads_exact) (simp_all add: js_simps o_field_defs wf_op_identity_def)

interpretation op_identity_codec: codec o_parseIdentity op_identity_literal "\<lambda>_. wf_op_identity" ext_ok
  by unfold_locales (auto intro: o_parseIdentity_sound o_parseIdentity_complete)

lemma captureUserOperationReference_sound:
  "ext_ok E \<Longrightarrow> captureUserOperationReference E code v c = Inr (r, c') \<Longrightarrow> wf_reference r"
  unfolding captureUserOperationReference_def
  by (elim bindC_InrE) (auto simp: o_field_defs wf_reference_def dest: captureAddress_sound)

lemma captureUserOperationReference_complete:
  "ext_ok E \<Longrightarrow> wf_reference r \<Longrightarrow> fresh p c \<Longrightarrow>
   reads (captureUserOperationReference E code (reference_literal p r)) c p r"
  unfolding captureUserOperationReference_def reference_literal_def
  by (intro reads_exact) (simp_all add: js_simps o_field_defs wf_reference_def)

interpretation reference_codec: codec captureUserOperationReference reference_literal "\<lambda>_. wf_reference" ext_ok
  by unfold_locales (auto intro: captureUserOperationReference_sound captureUserOperationReference_complete)

lemma captureLane_sound: "captureLane kind code v c = Inr (l, c') \<Longrightarrow> wf_lane kind l"
  unfolding captureLane_def
  by (elim bindC_InrE) (auto simp: o_field_defs wf_lane_def elim!: bindC_InrE split: jsval.splits)

lemma captureLane_complete:
  "wf_lane kind l \<Longrightarrow> fresh p c \<Longrightarrow> reads (captureLane kind code (lane_literal p l)) c p l"
  unfolding captureLane_def lane_literal_def
  by (intro reads_bind_guard reads_exact) (simp_all add: js_simps o_field_defs wf_lane_def)

interpretation lane_codec: codec "\<lambda>_. captureLane kind" lane_literal "\<lambda>_. wf_lane kind" ext_ok for kind
  by unfold_locales (auto intro: captureLane_sound captureLane_complete)

lemma captureWeakObservation_sound: "captureWeakObservation code v c = Inr (w, c') \<Longrightarrow> wf_weak w"
  unfolding captureWeakObservation_def Let_def
  by (elim bindC_InrE) (auto simp: o_field_defs wf_weak_def elim!: bindC_InrE split: if_splits)

lemma captureWeakObservation_complete:
  "wf_weak w \<Longrightarrow> fresh p c \<Longrightarrow> reads (captureWeakObservation code (weak_literal p w)) c p w"
  unfolding captureWeakObservation_def
  by (cases w; simp; intro reads_captured) (simp_all add: js_simps o_field_defs wf_weak_def)

interpretation weak_codec: codec "\<lambda>_. captureWeakObservation" weak_literal "\<lambda>_. wf_weak" ext_ok
  by unfold_locales (auto intro: captureWeakObservation_sound captureWeakObservation_complete)

lemma parseInclusion_sound: "parseInclusion code v c = Inr (i, c') \<Longrightarrow> wf_inclusion i"
  unfolding parseInclusion_def by (elim bindC_InrE) (auto simp: o_field_defs wf_inclusion_def)

lemma parseInclusion_complete:
  "wf_inclusion i \<Longrightarrow> fresh p c \<Longrightarrow> reads (parseInclusion code (inclusion_literal p i)) c p i"
  unfolding parseInclusion_def inclusion_literal_def
  by (intro reads_exact) (simp_all add: js_simps o_field_defs wf_inclusion_def)

interpretation inclusion_codec: codec "\<lambda>_. parseInclusion" inclusion_literal "\<lambda>_. wf_inclusion" ext_ok
  by unfold_locales (auto intro: parseInclusion_sound parseInclusion_complete)

lemma parseFinality_sound: "parseFinality code v c = Inr (f, c') \<Longrightarrow> wf_finality f"
  unfolding parseFinality_def by (elim bindC_InrE) (auto simp: o_field_defs wf_finality_def)

lemma parseFinality_complete:
  "wf_finality f \<Longrightarrow> fresh p c \<Longrightarrow> reads (parseFinality code (finality_literal p f)) c p f"
  unfolding parseFinality_def finality_literal_def
  by (intro reads_exact) (simp_all add: js_simps o_field_defs wf_finality_def)

interpretation finality_codec: codec "\<lambda>_. parseFinality" finality_literal "\<lambda>_. wf_finality" ext_ok
  by unfold_locales (auto intro: parseFinality_sound parseFinality_complete)

lemma UINT64_MASK_mod: "x AND UINT64_MASK = x mod 2 ^ 64"
proof -
  have "UINT64_MASK = mask 64" by (simp add: UINT64_MASK_def mask_eq_exp_minus_1 push_bit_eq_mult)
  with take_bit_eq_mask [of 64 x] take_bit_eq_mod [of 64 x] show ?thesis by metis
qed

lemma requireNonceAdvance_Inr [simp]: "requireNonceAdvance a b code = Inr u \<longleftrightarrow> nonceAdvanced a b"
  by (auto simp: requireNonceAdvance_def nonceAdvanced_def Let_def drop_bit_eq_div UINT64_MASK_mod)

lemma requireNonceAdvance_advanced [js_simps]: "nonceAdvanced a b \<Longrightarrow> requireNonceAdvance a b code = Inr ()"
  by simp

lemma parseSupersession_sound: "parseSupersession i code v c = Inr (s, c') \<Longrightarrow> wf_supersession i s"
  unfolding parseSupersession_def by (elim bindC_InrE) (auto simp: o_field_defs wf_supersession_def)

lemma parseSupersession_complete:
  "wf_supersession i s \<Longrightarrow> fresh p c \<Longrightarrow> reads (parseSupersession i code (supersession_literal p s)) c p s"
  unfolding parseSupersession_def supersession_literal_def
  by (intro reads_exact) (simp_all add: js_simps o_field_defs wf_supersession_def)

interpretation supersession_codec: codec "\<lambda>_. parseSupersession i" supersession_literal "\<lambda>_. wf_supersession i" ext_ok for i
  by unfold_locales (auto intro: parseSupersession_sound parseSupersession_complete)

lemma captureReplacement_sound:
  assumes "ext_ok E" and "captureReplacement i E code v c = Inr (d, c')"
  shows "wf_drop i d"
  using assms(2) unfolding captureReplacement_def
  by (elim bindC_InrE) (auto simp: wf_drop_def dest: parseInclusion_sound parseFinality_sound
      captureUserOperationReference_sound [OF assms(1)])

lemma captureReplacement_complete:
  assumes "ext_ok E" "wf_drop i d" "fresh p c"
  shows "reads (captureReplacement i E code (replacement_literal p d)) c p d"
  unfolding captureReplacement_def replacement_literal_def
  apply (rule reads_exact [OF assms(3)], simp)
  apply (insert assms(2), simp add: js_simps wf_drop_def)
  apply (rule reference_codec.bind_field, assumption, simp, rule assms(1), simp)
  apply (simp add: js_simps)
  apply (rule inclusion_codec.bind_field, assumption, simp, rule assms(1), simp)
  apply (rule finality_codec.bind_field, assumption, simp, rule assms(1), simp)
  apply (simp add: js_simps)
  done

interpretation replacement_codec: codec "captureReplacement i" replacement_literal "\<lambda>_. wf_drop i" ext_ok for i
  by unfold_locales (auto intro: captureReplacement_sound captureReplacement_complete)

lemma parseDrop_sound: "ext_ok E \<Longrightarrow> parseDrop i E code v c = Inr (d, c') \<Longrightarrow> wf_drop i d"
  unfolding parseDrop_def by (elim bindC_InrE) (rule captureReplacement_sound)

lemma parseDrop_complete:
  assumes "ext_ok E" "wf_drop i d" "fresh p c"
  shows "reads (parseDrop i E code (drop_literal p d)) c p d"
  unfolding parseDrop_def drop_literal_def
  apply (rule reads_exact [OF assms(3)], simp)
  apply (simp add: js_simps)
  apply (rule replacement_codec.last_field, assumption, simp, rule assms(1), rule assms(2))
  done

interpretation drop_codec: codec "parseDrop i" drop_literal "\<lambda>_. wf_drop i" ext_ok for i
  by unfold_locales (auto intro: parseDrop_sound parseDrop_complete)

lemma parseSubmission_sound: "parseSubmission code v c = Inr (s, c') \<Longrightarrow> wf_submission s"
  unfolding parseSubmission_def
  by (elim bindC_InrE) (auto simp: o_field_defs elim!: bindC_InrE split: if_splits)

lemma parseSubmission_complete:
  "wf_submission s \<Longrightarrow> fresh p c \<Longrightarrow> reads (parseSubmission code (submission_literal p s)) c p s"
  unfolding parseSubmission_def
  by (cases s; simp; intro reads_exact) (simp_all add: js_simps o_field_defs)

interpretation submission_codec: codec "\<lambda>_. parseSubmission" submission_literal "\<lambda>_. wf_submission" ext_ok
  by unfold_locales (auto intro: parseSubmission_sound parseSubmission_complete)

section \<open>The common fields\<close>

lemma baseRecord_sound:
  assumes "ext_ok E" and "baseRecord E record code c = Inr (b, c')"
  shows "wf_common b"
  using assms(2) unfolding baseRecord_def parseLane_def parseWeakObservation_def
  by (elim bindC_InrE)
    (auto simp: o_field_defs wf_common_def dest!: lane_codec.nullable_sound [OF assms(1)]
      submission_codec.nullable_sound [OF assms(1)] weak_codec.nullable_sound [OF assms(1)]
      o_parseIdentity_sound [OF assms(1)])

text \<open>The common fields of a literal are read whatever fields follow them.\<close>

definition common_keys :: "pkey set" where
  "common_keys = {PName ''identity'', PName ''lane'', PName ''submission'', PName ''observation''}"

lemma bind_baseRecord:
  assumes "ext_ok E" "wf_common b" "within p {} c"
    and "\<And>c'. within p common_keys c' \<Longrightarrow> reads (f b) c' p y"
  shows "reads (bindC (baseRecord E (names (common_fields p state b @ rest)) code) f) c p y"
  unfolding baseRecord_def bindC_assoc parseLane_def parseWeakObservation_def
  apply (insert assms(2), simp add: js_simps wf_common_def common_fields_def o_field_defs)
  apply (rule op_identity_codec.bind_field, rule assms(3), simp, rule assms(1), simp)
  apply (rule lane_codec.bind_nullable, assumption, simp, rule assms(1), simp)
  apply (rule submission_codec.bind_nullable, assumption, simp, rule assms(1), simp)
  apply (rule weak_codec.bind_nullable, assumption, simp, rule assms(1), simp)
  apply (simp add: js_simps)
  apply (rule assms(4), simp add: common_keys_def insert_commute)
  done

section \<open>The states\<close>

lemma baseRecord_submission:
  "baseRecord E record code c = Inr (b, c') \<Longrightarrow> fld record ''submission'' = JNull \<Longrightarrow> oc_submission b = None"
  unfolding baseRecord_def by (elim bindC_InrE) (auto simp: nullableC_def)

lemma parseNullableTime_Inr:
  "parseNullableTime v code = Inr t \<longleftrightarrow>
     (v = JNull \<and> t = None) \<or> (\<exists>n. v = jint n \<and> int_ok 0 n \<and> t = Some n)"
  by (auto simp: parseNullableTime_def nullable_scalar_Inr)

lemmas o_capture_dests = baseRecord_sound baseRecord_submission parseInclusion_sound parseFinality_sound
  parseDrop_sound parseSupersession_sound

lemma capturePrepared_sound:
  "ext_ok E \<Longrightarrow> capturePrepared E code captured c = Inr (x, c') \<Longrightarrow> fld captured ''submission'' = JNull \<Longrightarrow>
   wf_operation x"
  unfolding capturePrepared_def
  by (elim bindC_InrE) (auto simp: wf_operation_def dest!: exactCapturedRecord_Inr dest: o_capture_dests)

lemma captureAbandoned_sound:
  "ext_ok E \<Longrightarrow> captureAbandoned E code captured c = Inr (x, c') \<Longrightarrow> fld captured ''submission'' = JNull \<Longrightarrow>
   wf_operation x"
  unfolding captureAbandoned_def
  by (elim bindC_InrE)
    (auto simp: wf_operation_def o_safeInteger_def dest!: exactCapturedRecord_Inr dest: o_capture_dests)

lemma captureAttempted_sound:
  "ext_ok E \<Longrightarrow> captureAttempted E code captured c = Inr (x, c') \<Longrightarrow> fld captured ''submission'' = JNull \<Longrightarrow>
   wf_operation x"
  unfolding captureAttempted_def
  by (elim bindC_InrE)
    (auto simp: wf_operation_def o_safeInteger_def dest!: exactCapturedRecord_Inr dest: o_capture_dests)

lemma captureSubmitted_sound:
  "ext_ok E \<Longrightarrow> captureSubmitted E code captured c = Inr (x, c') \<Longrightarrow> wf_operation x"
  unfolding captureSubmitted_def
  by (elim bindC_InrE)
    (auto simp: wf_operation_def o_safeInteger_def dest!: exactCapturedRecord_Inr dest: o_capture_dests)

definition acknowledged :: "fields \<Rightarrow> bool" where
  "acknowledged captured \<longleftrightarrow>
     (fld captured ''submittedAt'' = JNull \<longrightarrow> fld captured ''submission'' = JNull)"

lemma captureIncluded_sound:
  "ext_ok E \<Longrightarrow> captureIncluded E code captured c = Inr (x, c') \<Longrightarrow> acknowledged captured \<Longrightarrow> wf_operation x"
  unfolding captureIncluded_def acknowledged_def
  by (elim bindC_InrE)
    (auto simp: wf_operation_def o_safeInteger_def parseNullableTime_Inr
      dest!: exactCapturedRecord_Inr dest: o_capture_dests)

lemma captureFinalized_sound:
  "ext_ok E \<Longrightarrow> captureFinalized E code captured c = Inr (x, c') \<Longrightarrow> acknowledged captured \<Longrightarrow> wf_operation x"
  unfolding captureFinalized_def acknowledged_def
  by (elim bindC_InrE)
    (auto simp: wf_operation_def o_safeInteger_def parseNullableTime_Inr
      dest!: exactCapturedRecord_Inr dest: o_capture_dests)

lemma captureDropped_sound:
  "ext_ok E \<Longrightarrow> captureDropped E code captured c = Inr (x, c') \<Longrightarrow> acknowledged captured \<Longrightarrow> wf_operation x"
  unfolding captureDropped_def acknowledged_def parseNullableInclusion_def
  by (elim bindC_InrE)
    (auto simp: wf_operation_def o_safeInteger_def parseNullableTime_Inr
      dest!: exactCapturedRecord_Inr dest: o_capture_dests inclusion_codec.nullable_sound)

lemma captureSuperseded_sound:
  "ext_ok E \<Longrightarrow> captureSuperseded E code captured c = Inr (x, c') \<Longrightarrow> acknowledged captured \<Longrightarrow> wf_operation x"
  unfolding captureSuperseded_def acknowledged_def
  by (elim bindC_InrE)
    (auto simp: wf_operation_def o_safeInteger_def parseNullableTime_Inr
      dest!: exactCapturedRecord_Inr dest: o_capture_dests)

lemma parseOperationUnsafe_sound:
  assumes "ext_ok E" and "parseOperationUnsafe E code v c = Inr (x, c')"
  shows "wf_operation x"
  using assms(2) unfolding parseOperationUnsafe_def Let_def
  by (elim bindC_InrE)
    (auto simp: unacknowledged_def acknowledged_def split: if_splits
      intro: capturePrepared_sound [OF assms(1)] captureAbandoned_sound [OF assms(1)]
        captureAttempted_sound [OF assms(1)] captureSubmitted_sound [OF assms(1)]
        captureIncluded_sound [OF assms(1)] captureFinalized_sound [OF assms(1)]
        captureDropped_sound [OF assms(1)] captureSuperseded_sound [OF assms(1)])

text \<open>Reading a literal: the common fields, then those of the state.\<close>

lemma common_fields_names: "map fst (common_fields p state b) = operation_keys"
  by (simp add: common_fields_def operation_keys_def)

lemma fld_common_state: "fld (names (common_fields p state b @ rest)) ''state'' = JString state"
  by (simp add: js_simps common_fields_def)

lemma fld_common_submission:
  "fld (names (common_fields p state b @ rest)) ''submission'' = JNull \<longleftrightarrow> oc_submission b = None"
  by (auto simp: js_simps common_fields_def nullable_def split: option.splits)

lemma exact_common:
  assumes "map fst rest = keys"
  shows "exactCapturedRecord (names (common_fields p state b @ rest)) (operation_keys @ keys) e =
    returnC (names (common_fields p state b @ rest))"
proof (rule exactCapturedRecord_names)
  show "length (common_fields p state b @ rest) = length (operation_keys @ keys)"
    using arg_cong [OF common_fields_names, of length] arg_cong [OF assms, of length] by simp
  show "set (map fst (common_fields p state b @ rest)) \<subseteq> set (operation_keys @ keys)"
    by (simp only: map_append common_fields_names assms)
qed

lemmas o_read_simps = js_simps common_fields_def common_keys_def sent_fields_def

text \<open>The states in which a null \<open>submittedAt\<close> is present, which rules an acknowledgement out.\<close>

fun null_submittedAt :: "operation_state \<Rightarrow> bool" where
  "null_submittedAt (Included _ s _) = (s = None)"
| "null_submittedAt (Finalized _ s _ _) = (s = None)"
| "null_submittedAt (Dropped _ s _ _) = (s = None)"
| "null_submittedAt (Superseded _ s _) = (s = None)"
| "null_submittedAt _ = False"

lemma fld_submittedAt:
  "fld (names (common_fields p state b @ state_fields p s)) ''submittedAt'' = JNull \<longleftrightarrow> null_submittedAt s"
  by (cases s) (auto simp: o_read_simps nullable_def split: option.splits)

lemma wf_state_submission:
  "wf_state b s \<Longrightarrow> unacknowledged (JString (state_name s)) \<or> null_submittedAt s \<Longrightarrow> oc_submission b = None"
  by (cases s) (auto simp: unacknowledged_def)

lemma reads_state:
  assumes "ext_ok E" "wf_common b" "within p {} c" "map fst rest = keys"
    and "\<And>c'. within p common_keys c' \<Longrightarrow>
           reads (f (names (common_fields p state b @ rest)) b) c' p y"
  shows "reads (bindC (exactCapturedRecord (names (common_fields p state b @ rest)) (operation_keys @ keys) (o_err code))
      (\<lambda>record. bindC (baseRecord E record code) (f record))) c p y"
  unfolding exact_common [OF assms(4)] bindC_returnC
  using assms(1-3,5) by (rule bind_baseRecord)

lemma capturePrepared_complete:
  assumes "ext_ok E" "wf_common b" "wf_state b Prepared" "within p {} c"
  shows "reads (capturePrepared E code (names (common_fields p state b @ state_fields p Prepared))) c p
    \<lparr>op_common = b, op_state = Prepared\<rparr>"
  unfolding capturePrepared_def
  apply (subst append_Nil2 [of operation_keys, symmetric])
  apply (rule reads_state [OF assms(1,2,4)], simp)
  apply (insert assms(3), simp add: o_read_simps)
  done

lemma captureAbandoned_complete:
  assumes "ext_ok E" "wf_common b" "wf_state b (Abandoned t reason)" "within p {} c"
  shows "reads (captureAbandoned E code (names (common_fields p state b @ state_fields p (Abandoned t reason)))) c p
    \<lparr>op_common = b, op_state = Abandoned t reason\<rparr>"
  unfolding captureAbandoned_def
  apply (rule reads_state [OF assms(1,2,4)], simp)
  apply (insert assms(3), simp add: o_read_simps o_field_defs)
  apply (rule reads_bind_exact, assumption, simp, simp)
  apply (simp add: o_read_simps)
  done

lemma captureAttempted_complete:
  assumes "ext_ok E" "wf_common b" "wf_state b (SubmissionAttempted a)" "within p {} c"
  shows "reads (captureAttempted E code (names (common_fields p state b @ state_fields p (SubmissionAttempted a)))) c p
    \<lparr>op_common = b, op_state = SubmissionAttempted a\<rparr>"
  unfolding captureAttempted_def
  apply (rule reads_state [OF assms(1,2,4)], simp)
  apply (insert assms(3), simp add: o_read_simps o_field_defs)
  done

lemma captureSubmitted_complete:
  assumes "ext_ok E" "wf_common b" "wf_state b (Submitted a s)" "within p {} c"
  shows "reads (captureSubmitted E code (names (common_fields p state b @ state_fields p (Submitted a s)))) c p
    \<lparr>op_common = b, op_state = Submitted a s\<rparr>"
  unfolding captureSubmitted_def
  apply (rule reads_state [OF assms(1,2,4)], simp)
  apply (insert assms(3), simp add: o_read_simps o_field_defs)
  done

lemma captureIncluded_complete:
  assumes "ext_ok E" "wf_common b" "wf_state b (Included a s i)" "within p {} c"
  shows "reads (captureIncluded E code (names (common_fields p state b @ state_fields p (Included a s i)))) c p
    \<lparr>op_common = b, op_state = Included a s i\<rparr>"
  unfolding captureIncluded_def
  apply (rule reads_state [OF assms(1,2,4)], simp add: sent_fields_def)
  apply (insert assms(3), simp add: o_read_simps o_field_defs)
  apply (rule inclusion_codec.bind_field, assumption, simp, rule assms(1), simp)
  apply (simp add: js_simps)
  done

lemma captureFinalized_complete:
  assumes "ext_ok E" "wf_common b" "wf_state b (Finalized a s i f)" "within p {} c"
  shows "reads (captureFinalized E code (names (common_fields p state b @ state_fields p (Finalized a s i f)))) c p
    \<lparr>op_common = b, op_state = Finalized a s i f\<rparr>"
  unfolding captureFinalized_def
  apply (rule reads_state [OF assms(1,2,4)], simp add: sent_fields_def)
  apply (insert assms(3), simp add: o_read_simps o_field_defs)
  apply (rule inclusion_codec.bind_field, assumption, simp, rule assms(1), simp)
  apply (rule finality_codec.bind_field, assumption, simp, rule assms(1), simp)
  apply (simp add: js_simps)
  done

lemma captureDropped_complete:
  assumes "ext_ok E" "wf_common b" "wf_state b (Dropped a s i d)" "within p {} c"
  shows "reads (captureDropped E code (names (common_fields p state b @ state_fields p (Dropped a s i d)))) c p
    \<lparr>op_common = b, op_state = Dropped a s i d\<rparr>"
  unfolding captureDropped_def parseNullableInclusion_def
  apply (rule reads_state [OF assms(1,2,4)], simp add: sent_fields_def)
  apply (insert assms(3), simp add: o_read_simps o_field_defs)
  apply (rule inclusion_codec.bind_nullable, assumption, simp, rule assms(1), simp)
  apply (rule drop_codec.bind_field, assumption, simp, rule assms(1), simp)
  apply (simp add: js_simps)
  done

lemma captureSuperseded_complete:
  assumes "ext_ok E" "wf_common b" "wf_state b (Superseded a s u)" "within p {} c"
  shows "reads (captureSuperseded E code (names (common_fields p state b @ state_fields p (Superseded a s u)))) c p
    \<lparr>op_common = b, op_state = Superseded a s u\<rparr>"
  unfolding captureSuperseded_def
  apply (rule reads_state [OF assms(1,2,4)], simp add: sent_fields_def)
  apply (insert assms(3), simp add: o_read_simps o_field_defs)
  apply (rule supersession_codec.bind_field, assumption, simp, rule assms(1), simp)
  apply (simp add: js_simps)
  done

lemma parseOperationUnsafe_complete:
  assumes "ext_ok E" "wf_operation x" "fresh p c"
  shows "reads (parseOperationUnsafe E code (operation_literal p x)) c p x"
proof -
  obtain b s where x: "x = \<lparr>op_common = b, op_state = s\<rparr>" by (cases x) auto
  from assms(2) have wf: "wf_common b" "wf_state b s" by (simp_all add: x wf_operation_def)
  let ?captured = "names (common_fields p (state_name s) b @ state_fields p s)"
  have guards: "\<not> (unacknowledged (fld ?captured ''state'') \<and> fld ?captured ''submission'' \<noteq> JNull)"
    "\<not> (fld ?captured ''submittedAt'' = JNull \<and> fld ?captured ''submission'' \<noteq> JNull)"
    using wf_state_submission [OF wf(2)]
    by (auto simp: fld_common_state fld_common_submission fld_submittedAt)
  show ?thesis
    unfolding parseOperationUnsafe_def operation_literal_def Let_def x operation.simps
  proof (rule reads_captured [OF assms(3)], intro reads_bind_guard guards, unfold fld_common_state)
    fix c assume within: "within p {} c"
    note complete = capturePrepared_complete [OF assms(1)] captureAbandoned_complete [OF assms(1)]
      captureAttempted_complete [OF assms(1)] captureSubmitted_complete [OF assms(1)]
      captureIncluded_complete [OF assms(1)] captureFinalized_complete [OF assms(1)]
      captureDropped_complete [OF assms(1)] captureSuperseded_complete [OF assms(1)]
    show "reads (if JString (state_name s) = JString ''prepared'' then capturePrepared E code ?captured
       else if JString (state_name s) = JString ''abandoned'' then captureAbandoned E code ?captured
       else if JString (state_name s) = JString ''submission_attempted'' then captureAttempted E code ?captured
       else if JString (state_name s) = JString ''submitted'' then captureSubmitted E code ?captured
       else if JString (state_name s) = JString ''included'' then captureIncluded E code ?captured
       else if JString (state_name s) = JString ''finalized'' then captureFinalized E code ?captured
       else if JString (state_name s) = JString ''dropped'' then captureDropped E code ?captured
       else if JString (state_name s) = JString ''superseded'' then captureSuperseded E code ?captured
       else failC (o_err code)) c p \<lparr>op_common = b, op_state = s\<rparr>"
      using wf within
      by (cases s) (auto simp del: wf_state.simps state_fields.simps intro: complete)
  qed
qed

interpretation operation_codec: codec parseOperationUnsafe operation_literal "\<lambda>_. wf_operation" ext_ok
  by unfold_locales (auto intro: parseOperationUnsafe_sound parseOperationUnsafe_complete)

section \<open>Creation\<close>

lemma int_ok_zero: "int_ok 0 0"
  by (simp add: int_ok_def MAX_SAFE_INTEGER_def)

lemma createOperation_sound:
  assumes "ext_ok E" and "createOperation E v = Inr x"
  shows "wf_operation x \<and> op_state x = Prepared \<and> oc_revision (op_common x) = 0"
  using assms(2) unfolding createOperation_def runC_Inr Let_def parseLane_def
  by (elim exE bindC_InrE)
    (auto simp: wf_operation_def wf_common_def prepared_order_def o_safeInteger_def int_ok_zero
      dest: o_parseIdentity_sound [OF assms(1)] lane_codec.nullable_sound [OF assms(1)])

lemma parseOperation_wf: "ext_ok E \<Longrightarrow> parseOperation E v = Inr x \<Longrightarrow> wf_operation x"
  by (auto simp: parseOperation_def runC_Inr intro: parseOperationUnsafe_sound)

lemma parseOperation_literal: "ext_ok E \<Longrightarrow> wf_operation x \<Longrightarrow> parseOperation E (operation_literal [] x) = Inr x"
  unfolding parseOperation_def by (rule operation_codec.parse_literal)

lemma parseOperation_literal_iff:
  "ext_ok E \<Longrightarrow> parseOperation E (operation_literal [] x) = Inr x \<longleftrightarrow> wf_operation x"
  using parseOperation_wf parseOperation_literal by blast

end
