(* ===== verification/Operation_Machine.thy ===== *)
theory Operation_Machine
  imports Operation_Codec
begin

text \<open>
  Model of the transition half of \<open>packages/protocol/src/operation.ts\<close>: \<open>parseTransition\<close>,
  \<open>advanceParsedOperation\<close> and its two owners, \<open>advanceOperation\<close> (submission transitions) and
  \<open>applyVerifiedOperationObservation\<close> (observations). One definition per branch of
  \<open>advanceParsedOperation\<close>, with the guards in the order of the code.
\<close>

section \<open>Transitions\<close>

datatype operation_transition =
    Mark_abandoned (ot_identity: operation_identity) int abandonment_reason
  | Mark_submission_attempted (ot_identity: operation_identity) int
  | Mark_submitted (ot_identity: operation_identity) string int "submission_evidence option"
  | Record_pending (ot_identity: operation_identity) int pending_reason
  | Record_unread (ot_identity: operation_identity) int unread_reason
  | Record_included (ot_identity: operation_identity) operation_inclusion
  | Record_finalized (ot_identity: operation_identity) operation_finality
  | Record_dropped (ot_identity: operation_identity) drop_evidence
  | Record_superseded (ot_identity: operation_identity) operation_supersession

text \<open>The transitions \<open>advanceOperation\<close> owns; the others are verified observations.\<close>

fun submission_transition :: "operation_transition \<Rightarrow> bool" where
  "submission_transition (Mark_abandoned _ _ _) = True"
| "submission_transition (Mark_submission_attempted _ _) = True"
| "submission_transition (Mark_submitted _ _ _ _) = True"
| "submission_transition _ = False"

definition captureMarkAbandoned :: "ext \<Rightarrow> operation_code \<Rightarrow> fields \<Rightarrow> (err, operation_transition) capture" where
  "captureMarkAbandoned E code captured =
     bindC (exactCapturedRecord captured [''type'', ''identity'', ''abandonedAt'', ''reason''] (o_err code)) (\<lambda>record.
     bindC (liftC (literal_of abandonment_reasons (fld record ''reason'') (o_err code))) (\<lambda>reason.
     bindC (o_parseIdentity E code (fld record ''identity'')) (\<lambda>identity.
     bindC (liftC (o_safeInteger (fld record ''abandonedAt'') code 0)) (\<lambda>abandonedAt.
     returnC (Mark_abandoned identity abandonedAt reason)))))"

definition captureMarkAttempted :: "ext \<Rightarrow> operation_code \<Rightarrow> fields \<Rightarrow> (err, operation_transition) capture" where
  "captureMarkAttempted E code captured =
     bindC (exactCapturedRecord captured [''type'', ''identity'', ''attemptedAt''] (o_err code)) (\<lambda>record.
     bindC (o_parseIdentity E code (fld record ''identity'')) (\<lambda>identity.
     bindC (liftC (o_safeInteger (fld record ''attemptedAt'') code 0)) (\<lambda>attemptedAt.
     returnC (Mark_submission_attempted identity attemptedAt))))"

definition captureMarkSubmitted :: "ext \<Rightarrow> operation_code \<Rightarrow> fields \<Rightarrow> (err, operation_transition) capture" where
  "captureMarkSubmitted E code captured =
     bindC (exactCapturedRecord captured
              [''type'', ''identity'', ''returnedUserOperationHash'', ''submittedAt'', ''submission'']
              (o_err code)) (\<lambda>record.
     bindC (o_parseIdentity E code (fld record ''identity'')) (\<lambda>identity.
     bindC (liftC (o_hash (fld record ''returnedUserOperationHash'') code)) (\<lambda>returnedUserOperationHash.
     bindC (liftC (o_safeInteger (fld record ''submittedAt'') code 0)) (\<lambda>submittedAt.
     bindC (nullableC (parseSubmission code) (fld record ''submission'')) (\<lambda>submission.
     returnC (Mark_submitted identity returnedUserOperationHash submittedAt submission))))))"

definition captureRecordPending :: "ext \<Rightarrow> operation_code \<Rightarrow> fields \<Rightarrow> (err, operation_transition) capture" where
  "captureRecordPending E code captured =
     bindC (exactCapturedRecord captured [''type'', ''identity'', ''observedAt'', ''reason''] (o_err code)) (\<lambda>record.
     bindC (liftC (literal_of pending_reasons (fld record ''reason'') (o_err code))) (\<lambda>reason.
     bindC (o_parseIdentity E code (fld record ''identity'')) (\<lambda>identity.
     bindC (liftC (o_safeInteger (fld record ''observedAt'') code 0)) (\<lambda>observedAt.
     returnC (Record_pending identity observedAt reason)))))"

definition captureRecordUnread :: "ext \<Rightarrow> operation_code \<Rightarrow> fields \<Rightarrow> (err, operation_transition) capture" where
  "captureRecordUnread E code captured =
     bindC (exactCapturedRecord captured [''type'', ''identity'', ''observedAt'', ''reason''] (o_err code)) (\<lambda>record.
     bindC (liftC (literal_of unread_reasons (fld record ''reason'') (o_err code))) (\<lambda>reason.
     bindC (o_parseIdentity E code (fld record ''identity'')) (\<lambda>identity.
     bindC (liftC (o_safeInteger (fld record ''observedAt'') code 0)) (\<lambda>observedAt.
     returnC (Record_unread identity observedAt reason)))))"

definition captureRecordIncluded :: "ext \<Rightarrow> operation_code \<Rightarrow> fields \<Rightarrow> (err, operation_transition) capture" where
  "captureRecordIncluded E code captured =
     bindC (exactCapturedRecord captured [''type'', ''identity'', ''inclusion''] (o_err code)) (\<lambda>record.
     bindC (o_parseIdentity E code (fld record ''identity'')) (\<lambda>identity.
     bindC (parseInclusion code (fld record ''inclusion'')) (\<lambda>inclusion.
     returnC (Record_included identity inclusion))))"

definition captureRecordFinalized :: "ext \<Rightarrow> operation_code \<Rightarrow> fields \<Rightarrow> (err, operation_transition) capture" where
  "captureRecordFinalized E code captured =
     bindC (exactCapturedRecord captured [''type'', ''identity'', ''finality''] (o_err code)) (\<lambda>record.
     bindC (o_parseIdentity E code (fld record ''identity'')) (\<lambda>identity.
     bindC (parseFinality code (fld record ''finality'')) (\<lambda>finality.
     returnC (Record_finalized identity finality))))"

definition captureRecordDropped :: "ext \<Rightarrow> operation_code \<Rightarrow> fields \<Rightarrow> (err, operation_transition) capture" where
  "captureRecordDropped E code captured =
     bindC (exactCapturedRecord captured [''type'', ''identity'', ''drop''] (o_err code)) (\<lambda>record.
     bindC (o_parseIdentity E code (fld record ''identity'')) (\<lambda>identity.
     bindC (parseDrop identity E code (fld record ''drop'')) (\<lambda>evidence.
     returnC (Record_dropped identity evidence))))"

definition captureRecordSuperseded :: "ext \<Rightarrow> operation_code \<Rightarrow> fields \<Rightarrow> (err, operation_transition) capture" where
  "captureRecordSuperseded E code captured =
     bindC (exactCapturedRecord captured [''type'', ''identity'', ''supersession''] (o_err code)) (\<lambda>record.
     bindC (o_parseIdentity E code (fld record ''identity'')) (\<lambda>identity.
     bindC (parseSupersession identity code (fld record ''supersession'')) (\<lambda>supersession.
     returnC (Record_superseded identity supersession))))"

definition parseTransition :: "ext \<Rightarrow> operation_code \<Rightarrow> jsval \<Rightarrow> (err, operation_transition) capture" where
  "parseTransition E code v =
     bindC (captureRecord v (o_err code)) (\<lambda>captured.
     let type = fld captured ''type'' in
     if type = JString ''mark_abandoned'' then captureMarkAbandoned E code captured
     else if type = JString ''mark_submission_attempted'' then captureMarkAttempted E code captured
     else if type = JString ''mark_submitted'' then captureMarkSubmitted E code captured
     else if type = JString ''record_pending'' then captureRecordPending E code captured
     else if type = JString ''record_unreadable'' then captureRecordUnread E code captured
     else if type = JString ''record_included'' then captureRecordIncluded E code captured
     else if type = JString ''record_finalized'' then captureRecordFinalized E code captured
     else if type = JString ''record_dropped'' then captureRecordDropped E code captured
     else if type = JString ''record_superseded'' then captureRecordSuperseded E code captured
     else failC (o_err code))"

definition captureTransition :: "ext \<Rightarrow> jsval \<Rightarrow> err + operation_transition" where
  "captureTransition E v = runC (parseTransition E Operation_transition_invalid v)"

section \<open>Guards\<close>

definition sameIdentity :: "operation_identity \<Rightarrow> operation_identity \<Rightarrow> bool" where
  "sameIdentity l r \<longleftrightarrow>
     oi_kind l = oi_kind r \<and> oi_grantId l = oi_grantId r \<and> oi_chainId l = oi_chainId r \<and>
     oi_entryPoint l = oi_entryPoint r \<and> oi_account l = oi_account r \<and> oi_nonce l = oi_nonce r \<and>
     oi_userOperationHash l = oi_userOperationHash r \<and> oi_requestHash l = oi_requestHash r"

definition nextRevision :: "operation \<Rightarrow> err + int" where
  "nextRevision x =
     (if oc_revision (op_common x) = MAX_SAFE_INTEGER then Inl (o_err Operation_revision_exhausted)
      else Inr (oc_revision (op_common x) + 1))"

definition requireIdentity :: "operation \<Rightarrow> operation_identity \<Rightarrow> err + unit" where
  "requireIdentity x identity =
     guardE (sameIdentity (oc_identity (op_common x)) identity) (o_err Operation_identity_mismatch)"

definition requireTime :: "operation \<Rightarrow> int \<Rightarrow> err + unit" where
  "requireTime x time =
     (if time < oc_updatedAt (op_common x) then Inl (o_err Operation_transition_invalid) else Inr ())"

abbreviation o_forbidden :: "err + 'a" where
  "o_forbidden \<equiv> Inl (o_err Operation_transition_forbidden)"

text \<open>\<open>{ ...operation, revision: nextRevision(operation), state, updatedAt, observation }\<close>\<close>

definition advanceRecord :: "operation \<Rightarrow> int \<Rightarrow> weak_observation option \<Rightarrow> operation_state \<Rightarrow> err + operation" where
  "advanceRecord x time observation state =
     bindE (nextRevision x) (\<lambda>revision.
     Inr \<lparr>op_common = (op_common x)\<lparr>oc_revision := revision, oc_updatedAt := time, oc_observation := observation\<rparr>,
          op_state = state\<rparr>)"

definition withSubmission :: "submission_evidence option \<Rightarrow> operation \<Rightarrow> operation" where
  "withSubmission submission x = x\<lparr>op_common := (op_common x)\<lparr>oc_submission := submission\<rparr>\<rparr>"

section \<open>The branches of \<open>advanceParsedOperation\<close>\<close>

definition markAbandoned :: "operation \<Rightarrow> int \<Rightarrow> abandonment_reason \<Rightarrow> err + operation" where
  "markAbandoned x abandonedAt reason =
     (if (if reason = Submission_not_attempted then op_state x \<noteq> Prepared
          else (case op_state x of SubmissionAttempted _ \<Rightarrow> False | _ \<Rightarrow> True))
      then o_forbidden
      else bindE (requireTime x abandonedAt) (\<lambda>_.
           bindE (advanceRecord x abandonedAt None (Abandoned abandonedAt reason)) (\<lambda>y.
           Inr (withSubmission None y))))"

definition markSubmissionAttempted :: "operation \<Rightarrow> int \<Rightarrow> err + operation" where
  "markSubmissionAttempted x attemptedAt =
     (if op_state x \<noteq> Prepared then o_forbidden
      else bindE (requireTime x attemptedAt) (\<lambda>_.
           advanceRecord x attemptedAt None (SubmissionAttempted attemptedAt)))"

definition markSubmitted :: "operation \<Rightarrow> string \<Rightarrow> int \<Rightarrow> submission_evidence option \<Rightarrow> err + operation" where
  "markSubmitted x returnedUserOperationHash submittedAt submission =
     (case op_state x of
        SubmissionAttempted attemptedAt \<Rightarrow>
          bindE (guardE (returnedUserOperationHash = oi_userOperationHash (oc_identity (op_common x)))
                   (o_err Operation_identity_mismatch)) (\<lambda>_.
          bindE (requireTime x submittedAt) (\<lambda>_.
          bindE (advanceRecord x submittedAt None (Submitted attemptedAt submittedAt)) (\<lambda>y.
          Inr (withSubmission submission y))))
      | _ \<Rightarrow> o_forbidden)"

definition recordWeak :: "operation \<Rightarrow> weak_observation \<Rightarrow> err + operation" where
  "recordWeak x observation =
     (if op_state x = Prepared then o_forbidden
      else if \<not> occupiesLane (op_state x) then Inr x
      else bindE (requireTime x (wo_observedAt observation)) (\<lambda>_.
           advanceRecord x (wo_observedAt observation) (Some observation) (op_state x)))"

definition recordIncluded :: "operation \<Rightarrow> operation_inclusion \<Rightarrow> err + operation" where
  "recordIncluded x inclusion =
     (let record = (\<lambda>attemptedAt submittedAt.
        advanceRecord x (in_observedAt inclusion) None (Included attemptedAt submittedAt inclusion)) in
      case op_state x of
        SubmissionAttempted attemptedAt \<Rightarrow>
          bindE (requireTime x (in_observedAt inclusion)) (\<lambda>_. record attemptedAt None)
      | Submitted attemptedAt submittedAt \<Rightarrow>
          bindE (requireTime x (in_observedAt inclusion)) (\<lambda>_. record attemptedAt (Some submittedAt))
      | Included attemptedAt submittedAt prior \<Rightarrow>
          bindE (requireTime x (in_observedAt inclusion)) (\<lambda>_.
          bindE (guardE (\<not> (\<not> inclusionOccurrenceEqual prior inclusion \<or> in_outcome prior \<noteq> in_outcome inclusion))
                   (o_err Operation_transition_invalid)) (\<lambda>_. record attemptedAt submittedAt))
      | _ \<Rightarrow> o_forbidden)"

definition recordFinalized :: "operation \<Rightarrow> operation_finality \<Rightarrow> err + operation" where
  "recordFinalized x finality =
     (case op_state x of
        Included attemptedAt submittedAt inclusion \<Rightarrow>
          bindE (requireTime x (fi_observedAt finality)) (\<lambda>_.
          bindE (guardE (\<not> BigInt (fi_blockNumber finality) < BigInt (in_blockNumber inclusion))
                   (o_err Operation_transition_invalid)) (\<lambda>_.
          bindE (guardE (\<not> (fi_blockNumber finality = in_blockNumber inclusion \<and>
                           fi_blockHash finality \<noteq> in_blockHash inclusion))
                   (o_err Operation_transition_invalid)) (\<lambda>_.
          advanceRecord x (fi_observedAt finality) None (Finalized attemptedAt submittedAt inclusion finality))))
      | _ \<Rightarrow> o_forbidden)"

definition recordDropped :: "operation \<Rightarrow> drop_evidence \<Rightarrow> err + operation" where
  "recordDropped x evidence =
     (let time = fi_observedAt (de_finality evidence);
          record = (\<lambda>attemptedAt submittedAt prior.
            bindE (requireTime x time) (\<lambda>_.
            advanceRecord x time None (Dropped attemptedAt submittedAt prior evidence))) in
      case op_state x of
        SubmissionAttempted attemptedAt \<Rightarrow> record attemptedAt None None
      | Submitted attemptedAt submittedAt \<Rightarrow> record attemptedAt (Some submittedAt) None
      | Included attemptedAt submittedAt inclusion \<Rightarrow>
          bindE (guardE (\<not> inclusionOccurrenceEqual inclusion (de_inclusion evidence))
                   (o_err Operation_transition_invalid)) (\<lambda>_. record attemptedAt submittedAt (Some inclusion))
      | Superseded attemptedAt submittedAt _ \<Rightarrow> record attemptedAt submittedAt None
      | _ \<Rightarrow> o_forbidden)"

definition recordSuperseded :: "operation \<Rightarrow> operation_supersession \<Rightarrow> err + operation" where
  "recordSuperseded x supersession =
     (let record = (\<lambda>attemptedAt submittedAt.
        bindE (requireTime x (su_observedAt supersession)) (\<lambda>_.
        advanceRecord x (su_observedAt supersession) None (Superseded attemptedAt submittedAt supersession))) in
      case op_state x of
        SubmissionAttempted attemptedAt \<Rightarrow> record attemptedAt None
      | Submitted attemptedAt submittedAt \<Rightarrow> record attemptedAt (Some submittedAt)
      | _ \<Rightarrow> o_forbidden)"

fun applyTransition :: "operation \<Rightarrow> operation_transition \<Rightarrow> err + operation" where
  "applyTransition x (Mark_abandoned _ t reason) = markAbandoned x t reason"
| "applyTransition x (Mark_submission_attempted _ t) = markSubmissionAttempted x t"
| "applyTransition x (Mark_submitted _ h t submission) = markSubmitted x h t submission"
| "applyTransition x (Record_pending _ t reason) = recordWeak x (Pending t reason)"
| "applyTransition x (Record_unread _ t reason) = recordWeak x (UnreadableObservation t reason)"
| "applyTransition x (Record_included _ inclusion) = recordIncluded x inclusion"
| "applyTransition x (Record_finalized _ finality) = recordFinalized x finality"
| "applyTransition x (Record_dropped _ evidence) = recordDropped x evidence"
| "applyTransition x (Record_superseded _ supersession) = recordSuperseded x supersession"

definition advanceParsedOperation :: "operation \<Rightarrow> operation_transition \<Rightarrow> err + operation" where
  "advanceParsedOperation x t = bindE (requireIdentity x (ot_identity t)) (\<lambda>_. applyTransition x t)"

definition advanceOperation :: "ext \<Rightarrow> jsval \<Rightarrow> jsval \<Rightarrow> err + operation" where
  "advanceOperation E value transitionValue =
     bindE (parseOperation E value) (\<lambda>operation.
     bindE (captureTransition E transitionValue) (\<lambda>transition.
     if \<not> submission_transition transition then o_forbidden
     else advanceParsedOperation operation transition))"

definition applyVerifiedOperationObservation :: "ext \<Rightarrow> jsval \<Rightarrow> jsval \<Rightarrow> err + operation" where
  "applyVerifiedOperationObservation E value transitionValue =
     bindE (parseOperation E value) (\<lambda>operation.
     bindE (captureTransition E transitionValue) (\<lambda>transition.
     if submission_transition transition then o_forbidden
     else advanceParsedOperation operation transition))"

end
