(* ===== verification/Operation_Lifecycle.thy ===== *)
theory Operation_Lifecycle
  imports Operation_Machine
begin

text \<open>
  The properties of the Operation lifecycle of \<open>packages/protocol/src/operation.ts\<close>: which records
  the transitions lead to, which of them \<open>parseOperation\<close> accepts again, and the refinement of the
  abstract lifecycle graph.
\<close>

section \<open>What a captured transition guarantees\<close>

fun wf_op_transition :: "operation_transition \<Rightarrow> bool" where
  "wf_op_transition (Mark_abandoned i t _) = (wf_op_identity i \<and> int_ok 0 t)"
| "wf_op_transition (Mark_submission_attempted i t) = (wf_op_identity i \<and> int_ok 0 t)"
| "wf_op_transition (Mark_submitted i h t s) =
     (wf_op_identity i \<and> lower_hex 64 h \<and> int_ok 0 t \<and> pred_option wf_submission s)"
| "wf_op_transition (Record_pending i t _) = (wf_op_identity i \<and> int_ok 0 t)"
| "wf_op_transition (Record_unread i t _) = (wf_op_identity i \<and> int_ok 0 t)"
| "wf_op_transition (Record_included i n) = (wf_op_identity i \<and> wf_inclusion n)"
| "wf_op_transition (Record_finalized i f) = (wf_op_identity i \<and> wf_finality f)"
| "wf_op_transition (Record_dropped i d) = (wf_op_identity i \<and> wf_drop i d)"
| "wf_op_transition (Record_superseded i s) = (wf_op_identity i \<and> wf_supersession i s)"

lemmas captureTransition_defs = captureMarkAbandoned_def captureMarkAttempted_def captureMarkSubmitted_def
  captureRecordPending_def captureRecordUnread_def captureRecordIncluded_def captureRecordFinalized_def
  captureRecordDropped_def captureRecordSuperseded_def

lemma captureTransition_wf:
  assumes "ext_ok E" and "captureTransition E v = Inr t"
  shows "wf_op_transition t"
  using assms(2) unfolding captureTransition_def runC_Inr parseTransition_def Let_def captureTransition_defs
  by (elim exE bindC_InrE)
    (auto split: if_splits elim!: bindC_InrE simp: o_field_defs
      dest: o_parseIdentity_sound [OF assms(1)] parseInclusion_sound parseFinality_sound
        parseDrop_sound [OF assms(1)] parseSupersession_sound submission_codec.nullable_sound [OF assms(1)])

section \<open>What a transition does\<close>

lemma sameIdentity_iff [simp]: "sameIdentity l r \<longleftrightarrow> l = r"
  by (auto simp: sameIdentity_def intro: operation_identity.equality)

lemma requireTime_Inr [simp]: "requireTime x t = Inr u \<longleftrightarrow> oc_updatedAt (op_common x) \<le> t"
  by (auto simp: requireTime_def)

lemma requireIdentity_Inr [simp]: "requireIdentity x i = Inr u \<longleftrightarrow> i = oc_identity (op_common x)"
  by (auto simp: requireIdentity_def)

lemma advanceRecord_Inr:
  "advanceRecord x t w s = Inr y \<longleftrightarrow> oc_revision (op_common x) \<noteq> MAX_SAFE_INTEGER \<and>
     y = \<lparr>op_common = (op_common x)\<lparr>oc_revision := oc_revision (op_common x) + 1, oc_updatedAt := t,
            oc_observation := w\<rparr>, op_state = s\<rparr>"
  by (auto simp: advanceRecord_def nextRevision_def)

lemmas transition_defs = markAbandoned_def markSubmissionAttempted_def markSubmitted_def recordWeak_def
  recordIncluded_def recordFinalized_def recordDropped_def recordSuperseded_def withSubmission_def

lemmas order_defs = prepared_order_def abandoned_order_def attempted_order_def submitted_order_def
  included_order_def finalized_order_def dropped_order_def superseded_order_def observed_after_def
  sent_in_order_def after_send_def one_if_some_def

text \<open>
  Every successful transition leaves the record as it is (a weak observation of a settled
  operation), or changes it like this.
\<close>

definition changed :: "operation \<Rightarrow> operation \<Rightarrow> bool" where
  "changed x y \<longleftrightarrow>
     oc_identity (op_common y) = oc_identity (op_common x) \<and> oc_lane (op_common y) = oc_lane (op_common x) \<and>
     oc_preparedAt (op_common y) = oc_preparedAt (op_common x) \<and>
     oc_revision (op_common y) = oc_revision (op_common x) + 1 \<and>
     oc_revision (op_common x) \<noteq> MAX_SAFE_INTEGER \<and>
     oc_updatedAt (op_common x) \<le> oc_updatedAt (op_common y)"

lemma applyTransition_changed:
  "applyTransition x t = Inr y \<Longrightarrow> changed x y \<or> (y = x \<and> \<not> occupiesLane (op_state x) \<and> \<not> submission_transition t)"
  by (cases t)
    (auto simp: transition_defs changed_def advanceRecord_Inr Let_def
      elim!: bindE_InrE split: if_splits operation_state.splits)

section \<open>Which results parse again\<close>

text \<open>
  A rejected send that had already been observed: the one transition whose result the parser
  refuses.
\<close>

fun rejected_after_observation :: "operation \<Rightarrow> operation_transition \<Rightarrow> bool" where
  "rejected_after_observation x (Mark_abandoned _ _ reason) =
     (reason = Submission_rejected \<and> oc_observation (op_common x) \<noteq> None)"
| "rejected_after_observation x _ = False"

lemma int_ok_next: "int_ok 0 n \<Longrightarrow> n \<noteq> MAX_SAFE_INTEGER \<Longrightarrow> int_ok 0 (n + 1)"
  by (auto simp: int_ok_def)

lemma int_ok_small: "int_ok 0 1" "int_ok 0 2"
  by (simp_all add: int_ok_def MAX_SAFE_INTEGER_def)

lemma markAbandoned_wf:
  assumes "markAbandoned x t reason = Inr y" "wf_operation x" "int_ok 0 t"
  shows "wf_operation y \<longleftrightarrow> \<not> (reason = Submission_rejected \<and> oc_observation (op_common x) \<noteq> None)"
  using assms
  by (cases reason; cases "op_state x")
    (auto simp: markAbandoned_def withSubmission_def advanceRecord_Inr wf_operation_def wf_common_def int_ok_next int_ok_small
      order_defs elim!: bindE_InrE split: option.splits)

lemma markSubmissionAttempted_wf:
  "markSubmissionAttempted x t = Inr y \<Longrightarrow> wf_operation x \<Longrightarrow> int_ok 0 t \<Longrightarrow> wf_operation y"
  by (auto simp: markSubmissionAttempted_def advanceRecord_Inr wf_operation_def wf_common_def int_ok_next int_ok_small
      order_defs elim!: bindE_InrE split: if_splits)

lemma markSubmitted_wf:
  "markSubmitted x h t s = Inr y \<Longrightarrow> wf_operation x \<Longrightarrow> int_ok 0 t \<Longrightarrow> pred_option wf_submission s \<Longrightarrow> wf_operation y"
  by (auto simp: markSubmitted_def withSubmission_def advanceRecord_Inr wf_operation_def wf_common_def int_ok_next int_ok_small
      order_defs elim!: bindE_InrE split: operation_state.splits option.splits)

lemma recordWeak_wf:
  "recordWeak x w = Inr y \<Longrightarrow> wf_operation x \<Longrightarrow> wf_weak w \<Longrightarrow> wf_operation y"
  by (cases "op_state x")
    (auto simp: recordWeak_def advanceRecord_Inr wf_operation_def wf_common_def int_ok_next int_ok_small wf_weak_def
      order_defs elim!: bindE_InrE split: option.splits if_splits)

lemma recordIncluded_wf:
  "recordIncluded x n = Inr y \<Longrightarrow> wf_operation x \<Longrightarrow> wf_inclusion n \<Longrightarrow> wf_operation y"
  by (cases "op_state x")
    (auto simp: recordIncluded_def Let_def advanceRecord_Inr wf_operation_def wf_common_def int_ok_next int_ok_small wf_inclusion_def
      order_defs elim!: bindE_InrE split: option.splits)

lemma recordFinalized_wf:
  "recordFinalized x f = Inr y \<Longrightarrow> wf_operation x \<Longrightarrow> wf_finality f \<Longrightarrow> wf_operation y"
  by (cases "op_state x")
    (auto simp: recordFinalized_def advanceRecord_Inr wf_operation_def wf_common_def int_ok_next int_ok_small wf_finality_def
      order_defs elim!: bindE_InrE split: option.splits)

lemma recordDropped_wf:
  "recordDropped x d = Inr y \<Longrightarrow> wf_operation x \<Longrightarrow> wf_drop (oc_identity (op_common x)) d \<Longrightarrow> wf_operation y"
  by (cases "op_state x")
    (auto simp: recordDropped_def Let_def advanceRecord_Inr wf_operation_def wf_common_def int_ok_next int_ok_small wf_drop_def
      wf_finality_def order_defs elim!: bindE_InrE split: option.splits)

lemma recordSuperseded_wf:
  "recordSuperseded x s = Inr y \<Longrightarrow> wf_operation x \<Longrightarrow> wf_supersession (oc_identity (op_common x)) s \<Longrightarrow> wf_operation y"
  by (cases "op_state x")
    (auto simp: recordSuperseded_def Let_def advanceRecord_Inr wf_operation_def wf_common_def int_ok_next int_ok_small
      wf_supersession_def order_defs elim!: bindE_InrE split: option.splits)

lemmas transition_wf = markSubmissionAttempted_wf markSubmitted_wf recordWeak_wf recordIncluded_wf
  recordFinalized_wf recordDropped_wf recordSuperseded_wf

lemma advanceParsedOperation_wf:
  assumes "advanceParsedOperation x t = Inr y" "wf_operation x" "wf_op_transition t"
  shows "wf_operation y \<longleftrightarrow> \<not> rejected_after_observation x t"
proof -
  from assms(1) have "ot_identity t = oc_identity (op_common x)" "applyTransition x t = Inr y"
    by (auto simp: advanceParsedOperation_def elim!: bindE_InrE)
  with assms(2,3) show ?thesis
    by (cases t) (auto simp: markAbandoned_wf wf_weak_def dest: transition_wf)
qed

section \<open>The abstract lifecycle\<close>

text \<open>
  The graph the record types of \<open>operation.ts\<close> describe. \<open>next_phase\<close> is its transition function;
  \<open>None\<close> is a forbidden transition. Evidence, times and revisions are abstracted away.
\<close>

datatype phase = PPrepared | PAbandoned | PAttempted | PSubmitted | PIncluded | PFinalized | PDropped | PSuperseded

fun phase_of :: "operation_state \<Rightarrow> phase" where
  "phase_of Prepared = PPrepared"
| "phase_of (Abandoned _ _) = PAbandoned"
| "phase_of (SubmissionAttempted _) = PAttempted"
| "phase_of (Submitted _ _) = PSubmitted"
| "phase_of (Included _ _ _) = PIncluded"
| "phase_of (Finalized _ _ _ _) = PFinalized"
| "phase_of (Dropped _ _ _ _) = PDropped"
| "phase_of (Superseded _ _ _) = PSuperseded"

fun next_phase :: "operation_transition \<Rightarrow> phase \<Rightarrow> phase option" where
  "next_phase (Mark_abandoned _ _ Submission_not_attempted) p = (if p = PPrepared then Some PAbandoned else None)"
| "next_phase (Mark_abandoned _ _ Submission_rejected) p = (if p = PAttempted then Some PAbandoned else None)"
| "next_phase (Mark_submission_attempted _ _) p = (if p = PPrepared then Some PAttempted else None)"
| "next_phase (Mark_submitted _ _ _ _) p = (if p = PAttempted then Some PSubmitted else None)"
| "next_phase (Record_pending _ _ _) p = (if p = PPrepared then None else Some p)"
| "next_phase (Record_unread _ _ _) p = (if p = PPrepared then None else Some p)"
| "next_phase (Record_included _ _) p = (if p \<in> {PAttempted, PSubmitted, PIncluded} then Some PIncluded else None)"
| "next_phase (Record_finalized _ _) p = (if p = PIncluded then Some PFinalized else None)"
| "next_phase (Record_dropped _ _) p =
     (if p \<in> {PAttempted, PSubmitted, PIncluded, PSuperseded} then Some PDropped else None)"
| "next_phase (Record_superseded _ _) p = (if p \<in> {PAttempted, PSubmitted} then Some PSuperseded else None)"

definition settled_phase :: "phase \<Rightarrow> bool" where
  "settled_phase p \<longleftrightarrow> p \<in> {PAbandoned, PFinalized, PDropped, PSuperseded}"

lemma occupiesLane_phase: "occupiesLane s \<longleftrightarrow> \<not> settled_phase (phase_of s)"
  by (cases s) (auto simp: settled_phase_def)

lemma phase_of_prepared: "phase_of s = PPrepared \<longleftrightarrow> s = Prepared"
  by (cases s) auto

lemma applyTransition_phase: "applyTransition x t = Inr y \<Longrightarrow> next_phase t (phase_of (op_state x)) = Some (phase_of (op_state y))"
  by (cases "(t, phase_of (op_state x))" rule: next_phase.cases; cases "op_state x")
    (auto simp: transition_defs advanceRecord_Inr Let_def elim!: bindE_InrE split: if_splits)

lemma requireTime_forbidden [simp]: "requireTime x t \<noteq> Inl (o_err Operation_transition_forbidden)"
  by (simp add: requireTime_def)

lemma advanceRecord_forbidden [simp]: "advanceRecord x t w s \<noteq> Inl (o_err Operation_transition_forbidden)"
  by (simp add: advanceRecord_def nextRevision_def)

lemma applyTransition_forbidden:
  "applyTransition x t = o_forbidden \<longleftrightarrow> next_phase t (phase_of (op_state x)) = None"
  by (cases "(t, phase_of (op_state x))" rule: next_phase.cases; cases "op_state x")
    (auto simp: transition_defs Let_def elim!: bindE_InlE)

text \<open>Settled phases only move from superseded to dropped, and no phase leads back to prepared.\<close>

lemma next_phase_settled:
  "next_phase t p = Some q \<Longrightarrow> settled_phase p \<Longrightarrow> settled_phase q \<and> (q = p \<or> p = PSuperseded \<and> q = PDropped)"
  by (cases "(t, p)" rule: next_phase.cases) (auto simp: settled_phase_def split: if_splits)

lemma next_phase_not_prepared: "next_phase t p = Some q \<Longrightarrow> q \<noteq> PPrepared"
  by (cases "(t, p)" rule: next_phase.cases) (auto split: if_splits)

section \<open>Runs of the two owners\<close>

text \<open>
  A step reads a stored value, captures a transition and calls one of the two exported owners. A
  run is a sequence of steps, each on a value that reads as the previous result.
\<close>

inductive operation_step :: "ext \<Rightarrow> operation \<Rightarrow> operation_transition \<Rightarrow> operation \<Rightarrow> bool" for E where
  submission: "parseOperation E v = Inr x \<Longrightarrow> captureTransition E tv = Inr t \<Longrightarrow>
     advanceOperation E v tv = Inr y \<Longrightarrow> operation_step E x t y"
| observation: "parseOperation E v = Inr x \<Longrightarrow> captureTransition E tv = Inr t \<Longrightarrow>
     applyVerifiedOperationObservation E v tv = Inr y \<Longrightarrow> operation_step E x t y"

inductive operation_run :: "ext \<Rightarrow> operation \<Rightarrow> operation_transition list \<Rightarrow> operation \<Rightarrow> bool" for E where
  refl: "operation_run E x [] x"
| step: "operation_step E x t y \<Longrightarrow> operation_run E y ts z \<Longrightarrow> operation_run E x (t # ts) z"

inductive_cases operation_stepE: "operation_step E x t y"
inductive_cases operation_run_ConsE: "operation_run E x (t # ts) z"

lemma operation_stepD:
  assumes "ext_ok E" "operation_step E x t y"
  shows "wf_operation x" "wf_op_transition t" "ot_identity t = oc_identity (op_common x)" "applyTransition x t = Inr y"
  using assms(2) parseOperation_wf [OF assms(1)] captureTransition_wf [OF assms(1)]
  by (auto elim!: operation_stepE simp: advanceOperation_def applyVerifiedOperationObservation_def
      advanceParsedOperation_def split: if_splits elim!: bindE_InrE)

lemma operation_step_wf:
  assumes "ext_ok E" "operation_step E x t y"
  shows "wf_operation y \<longleftrightarrow> \<not> rejected_after_observation x t"
  using operation_stepD [OF assms]
  by (intro advanceParsedOperation_wf) (auto simp: advanceParsedOperation_def bindE_Inr)

definition earlier :: "operation \<Rightarrow> operation \<Rightarrow> bool" where
  "earlier x y \<longleftrightarrow>
     oc_identity (op_common y) = oc_identity (op_common x) \<and> oc_lane (op_common y) = oc_lane (op_common x) \<and>
     oc_preparedAt (op_common y) = oc_preparedAt (op_common x) \<and>
     oc_revision (op_common x) \<le> oc_revision (op_common y) \<and>
     oc_updatedAt (op_common x) \<le> oc_updatedAt (op_common y) \<and>
     (oc_revision (op_common y) = oc_revision (op_common x) \<longrightarrow> y = x)"

lemma earlier_refl: "earlier x x"
  by (simp add: earlier_def)

lemma earlier_trans: "earlier x y \<Longrightarrow> earlier y z \<Longrightarrow> earlier x z"
  by (auto simp: earlier_def)

lemma operation_step_earlier: "ext_ok E \<Longrightarrow> operation_step E x t y \<Longrightarrow> earlier x y"
  using applyTransition_changed [of x t y] operation_stepD(4) [of E x t y]
  by (auto simp: earlier_def changed_def)

lemma operation_run_earlier: "operation_run E x ts y \<Longrightarrow> ext_ok E \<Longrightarrow> earlier x y"
  by (induction rule: operation_run.induct) (auto intro: earlier_refl earlier_trans operation_step_earlier)

lemma operation_step_phase:
  "ext_ok E \<Longrightarrow> operation_step E x t y \<Longrightarrow> next_phase t (phase_of (op_state x)) = Some (phase_of (op_state y))"
  by (rule applyTransition_phase [OF operation_stepD(4)])

lemma settled_step:
  assumes "ext_ok E" "operation_step E x t y" "\<not> occupiesLane (op_state x)"
  shows "\<not> occupiesLane (op_state y) \<and>
    (y = x \<or> phase_of (op_state x) = PSuperseded \<and> phase_of (op_state y) = PDropped)"
proof -
  note phase = operation_step_phase [OF assms(1,2)]
  have "y = x" if "phase_of (op_state y) = phase_of (op_state x)"
    using that phase assms(3) operation_stepD(4) [OF assms(1,2)]
    by (cases "(t, phase_of (op_state x))" rule: next_phase.cases; cases "op_state x")
      (auto simp: recordWeak_def split: if_splits)
  with next_phase_settled [OF phase] assms(3) show ?thesis by (auto simp: occupiesLane_phase)
qed

fun is_attempt :: "operation_transition \<Rightarrow> bool" where
  "is_attempt (Mark_submission_attempted _ _) = True"
| "is_attempt _ = False"

lemma attempt_from_prepared: "next_phase t p = Some q \<Longrightarrow> is_attempt t \<Longrightarrow> p = PPrepared"
  by (cases t) (auto split: if_splits)

lemma attempts_bound:
  "operation_run E x ts y \<Longrightarrow> ext_ok E \<Longrightarrow>
   length (filter is_attempt ts) \<le> (if op_state x = Prepared then 1 else 0)"
proof (induction rule: operation_run.induct)
  case (step x t y ts z)
  have phase: "next_phase t (phase_of (op_state x)) = Some (phase_of (op_state y))"
    using step.hyps(1) step.prems by (intro operation_step_phase)
  have "op_state y \<noteq> Prepared" using next_phase_not_prepared [OF phase] by (simp add: phase_of_prepared)
  with step.IH [OF step.prems] attempt_from_prepared [OF phase] show ?case
    by (auto simp: phase_of_prepared)
qed simp

section \<open>A sample lifecycle\<close>

definition op_sample_identity :: operation_identity where
  "op_sample_identity = \<lparr>oi_kind = Execution, oi_grantId = ''grant-1'', oi_chainId = 1,
     oi_entryPoint = ''0x'' @ replicate 40 (CHR ''e''), oi_account = ''0x'' @ replicate 40 (CHR ''a''),
     oi_nonce = ''18446744073709551621'', oi_userOperationHash = ''0x'' @ replicate 64 (CHR ''1''),
     oi_requestHash = None\<rparr>"

definition op_sample_common :: "int \<Rightarrow> int \<Rightarrow> weak_observation option \<Rightarrow> operation_common" where
  "op_sample_common revision updatedAt observation =
     \<lparr>oc_lane = Some \<lparr>ol_id = ''run:7'', ol_key = 7\<rparr>, oc_submission = None, oc_identity = op_sample_identity,
      oc_revision = revision, oc_preparedAt = 100, oc_updatedAt = updatedAt, oc_observation = observation\<rparr>"

definition op_sample_prepared :: operation where
  "op_sample_prepared = \<lparr>op_common = op_sample_common 0 100 None, op_state = Prepared\<rparr>"

definition op_sample_attempted :: operation where
  "op_sample_attempted = \<lparr>op_common = op_sample_common 1 110 None, op_state = SubmissionAttempted 110\<rparr>"

definition op_sample_timed_out :: operation where
  "op_sample_timed_out =
     \<lparr>op_common = op_sample_common 2 120 (Some (Pending 120 Timeout)), op_state = SubmissionAttempted 110\<rparr>"

definition op_sample_rejected :: operation where
  "op_sample_rejected =
     \<lparr>op_common = op_sample_common 3 130 None, op_state = Abandoned 130 Submission_rejected\<rparr>"

definition op_sample_supersession :: operation_supersession where
  "op_sample_supersession = \<lparr>su_observedNonce = ''18446744073709551622'', su_blockNumber = ''12'',
     su_blockHash = ''0x'' @ replicate 64 (CHR ''b''), su_observedAt = 140\<rparr>"

definition op_sample_superseded :: operation where
  "op_sample_superseded =
     \<lparr>op_common = op_sample_common 3 140 None, op_state = Superseded 110 None op_sample_supersession\<rparr>"

definition transition_fields :: "ref \<Rightarrow> string \<Rightarrow> (string \<times> jsval) list \<Rightarrow> jsval" where
  "transition_fields p name rest =
     mk_obj p ([(''type'', JString name), (''identity'', op_identity_literal (at p ''identity'') op_sample_identity)] @ rest)"

lemma op_sample_attempt:
  "operation_step sample_ext op_sample_prepared (Mark_submission_attempted op_sample_identity 110) op_sample_attempted"
  by (rule operation_step.submission [where v = "operation_literal [] op_sample_prepared"
        and tv = "transition_fields [] ''mark_submission_attempted'' [(''attemptedAt'', jint 110)]"])
    (code_simp+)

lemma op_sample_pending:
  "operation_step sample_ext op_sample_attempted (Record_pending op_sample_identity 120 Timeout) op_sample_timed_out"
  by (rule operation_step.observation [where v = "operation_literal [] op_sample_attempted"
        and tv = "transition_fields [] ''record_pending'' [(''observedAt'', jint 120), (''reason'', JString ''timeout'')]"])
    (code_simp+)

lemma op_sample_reject:
  "operation_step sample_ext op_sample_timed_out (Mark_abandoned op_sample_identity 130 Submission_rejected) op_sample_rejected"
  by (rule operation_step.submission [where v = "operation_literal [] op_sample_timed_out"
        and tv = "transition_fields [] ''mark_abandoned''
          [(''abandonedAt'', jint 130), (''reason'', JString ''submission_rejected'')]"])
    (code_simp+)

lemma op_sample_supersede:
  "operation_step sample_ext op_sample_timed_out (Record_superseded op_sample_identity op_sample_supersession) op_sample_superseded"
  by (rule operation_step.observation [where v = "operation_literal [] op_sample_timed_out"
        and tv = "transition_fields [] ''record_superseded''
          [(''supersession'', supersession_literal (at [] ''supersession'') op_sample_supersession)]"])
    (code_simp+)

lemma op_sample_run:
  "operation_run sample_ext op_sample_prepared
     [Mark_submission_attempted op_sample_identity 110, Record_pending op_sample_identity 120 Timeout,
      Record_superseded op_sample_identity op_sample_supersession] op_sample_superseded"
  by (rule operation_run.step [OF op_sample_attempt] operation_run.step [OF op_sample_pending]
      operation_run.step [OF op_sample_supersede] operation_run.refl)+

lemma op_sample_late_pending:
  "operation_step sample_ext op_sample_superseded (Record_pending op_sample_identity 150 Receipt_missing) op_sample_superseded"
  by (rule operation_step.observation [where v = "operation_literal [] op_sample_superseded"
        and tv = "transition_fields [] ''record_pending'' [(''observedAt'', jint 150), (''reason'', JString ''receipt_missing'')]"])
    (code_simp+)

section \<open>Properties\<close>

text \<open>C18: A successful step of either owner yields a record that \<open>parseOperation\<close> reads back unchanged,
  with exactly one exception: abandoning a rejected send after a weak observation has been recorded.
  That record is refused, because \<open>parseOperation\<close> requires revision 2 of it and the observation has
  already used revision 2.\<close>

theorem operation_step_reparses:
  assumes "ext_ok E" and "operation_step E x t y"
  shows "parseOperation E (operation_literal [] y) = Inr y \<longleftrightarrow> \<not> rejected_after_observation x t"
  using parseOperation_literal_iff [OF assms(1)] operation_step_wf [OF assms] by simp

theorem operation_step_reparses_witness:
  "parseOperation sample_ext (operation_literal [] op_sample_attempted) = Inr op_sample_attempted \<and>
   parseOperation sample_ext (operation_literal [] op_sample_rejected) \<noteq> Inr op_sample_rejected"
proof
  show "parseOperation sample_ext (operation_literal [] op_sample_attempted) = Inr op_sample_attempted"
    by (subst operation_step_reparses [OF sample_ext_ok op_sample_attempt]) simp
  show "parseOperation sample_ext (operation_literal [] op_sample_rejected) \<noteq> Inr op_sample_rejected"
    by (subst operation_step_reparses [OF sample_ext_ok op_sample_reject])
      (simp add: op_sample_timed_out_def op_sample_common_def)
qed

text \<open>C17: The owners implement the abstract lifecycle graph: on a captured transition for the record's own
  identity, a success is an edge of the graph, and the code \<open>operation_transition_forbidden\<close> is returned
  by exactly those transitions the graph has no edge for.\<close>

theorem operation_refines_lifecycle:
  assumes "parseOperation E v = Inr x" and "captureTransition E tv = Inr t"
    and "ot_identity t = oc_identity (op_common x)"
    and "owner = (if submission_transition t then advanceOperation else applyVerifiedOperationObservation)"
  shows "(owner E v tv = Inr y \<longrightarrow> next_phase t (phase_of (op_state x)) = Some (phase_of (op_state y))) \<and>
    (owner E v tv = Inl (o_err Operation_transition_forbidden) \<longleftrightarrow> next_phase t (phase_of (op_state x)) = None)"
proof -
  have "requireIdentity x (ot_identity t) = Inr ()" using assms(3) by simp
  with assms(1,2,4) have "owner E v tv = applyTransition x t"
    by (simp add: advanceOperation_def applyVerifiedOperationObservation_def advanceParsedOperation_def del: requireIdentity_Inr)
  with applyTransition_phase applyTransition_forbidden show ?thesis by simp
qed

theorem operation_refines_lifecycle_witness:
  "next_phase (Mark_submission_attempted op_sample_identity 110) (phase_of (op_state op_sample_prepared)) =
     Some (phase_of (op_state op_sample_attempted))"
proof -
  let ?v = "operation_literal [] op_sample_prepared"
  let ?tv = "transition_fields [] ''mark_submission_attempted'' [(''attemptedAt'', jint 110)]"
  have "parseOperation sample_ext ?v = Inr op_sample_prepared"
    "captureTransition sample_ext ?tv = Inr (Mark_submission_attempted op_sample_identity 110)"
    "advanceOperation sample_ext ?v ?tv = Inr op_sample_attempted" by code_simp+
  then show ?thesis
    using operation_refines_lifecycle [OF \<open>parseOperation sample_ext ?v = _\<close> \<open>captureTransition sample_ext ?tv = _\<close> _ HOL.refl,
      of op_sample_attempted]
    by (simp add: op_sample_prepared_def op_sample_common_def)
qed

text \<open>C22: Over any run the identity, the lane and the preparation time never change, time does not go
  back, the revision never decreases, and two records of a run with the same revision are equal: the
  revision identifies the version of the record.\<close>

theorem operation_history_forward:
  assumes "ext_ok E" and "operation_run E x ts y"
  shows "oc_identity (op_common y) = oc_identity (op_common x) \<and> oc_lane (op_common y) = oc_lane (op_common x) \<and>
    oc_preparedAt (op_common y) = oc_preparedAt (op_common x) \<and>
    oc_revision (op_common x) \<le> oc_revision (op_common y) \<and>
    oc_updatedAt (op_common x) \<le> oc_updatedAt (op_common y) \<and>
    (oc_revision (op_common y) = oc_revision (op_common x) \<longrightarrow> y = x)"
  using operation_run_earlier [OF assms(2,1)] by (simp add: earlier_def)

theorem operation_history_forward_witness:
  "oc_identity (op_common op_sample_superseded) = oc_identity (op_common op_sample_prepared)"
  using operation_history_forward [OF sample_ext_ok op_sample_run] by simp

text \<open>C20: Once an operation has released its lane (abandoned, finalized, dropped or superseded) no run takes
  it again: the record stays exactly as it is, except that proof of a replacement may turn superseded into
  dropped.\<close>

theorem settled_operation_final:
  assumes "ext_ok E" and "operation_run E x ts y" and "\<not> occupiesLane (op_state x)"
  shows "\<not> occupiesLane (op_state y) \<and>
    (y = x \<or> phase_of (op_state x) = PSuperseded \<and> phase_of (op_state y) = PDropped)"
  using assms(2,1,3)
proof (induction rule: operation_run.induct)
  case (step x t y ts z)
  from settled_step [OF step.prems(1) step.hyps(1) step.prems(2)] step.IH [OF step.prems(1)]
  show ?case by auto
qed simp

theorem settled_operation_final_witness:
  "\<not> occupiesLane (op_state op_sample_superseded)"
  using settled_operation_final [OF sample_ext_ok operation_run.step [OF op_sample_late_pending operation_run.refl]]
  by (simp add: op_sample_superseded_def)

text \<open>C19: An identity is sent at most once: over any run from any record the transition
  \<open>mark_submission_attempted\<close> succeeds at most once, and never from a record that is past preparation.\<close>

theorem submission_attempted_once:
  assumes "ext_ok E" and "operation_run E x ts y"
  shows "length (filter is_attempt ts) \<le> (if op_state x = Prepared then 1 else 0)"
  using assms by (intro attempts_bound)

theorem submission_attempted_once_witness:
  "length (filter is_attempt [Mark_submission_attempted op_sample_identity 110,
     Record_pending op_sample_identity 120 Timeout,
     Record_superseded op_sample_identity op_sample_supersession]) \<le> 1"
  using submission_attempted_once [OF sample_ext_ok op_sample_run]
  by (simp only: op_sample_prepared_def operation.simps simp_thms if_True)

text \<open>C21: A settled record carries its proof: a finalized operation was sent, then included, and its
  finalized block is not below the inclusion block and is that same block at equal height; a dropped one
  names a different UserOperation included and finalized at its own chain, EntryPoint, account and nonce,
  in an occurrence other than its own earlier inclusion; a superseded one names a nonce of the same
  192-bit key that is greater than its own.\<close>

theorem settled_operation_is_proved:
  assumes "ext_ok E" and "parseOperation E v = Inr x"
  shows "case op_state x of
      Finalized a s i f \<Rightarrow> a \<le> in_observedAt i \<and> in_observedAt i \<le> fi_observedAt f \<and>
        BigInt (in_blockNumber i) \<le> BigInt (fi_blockNumber f) \<and>
        (fi_blockNumber f = in_blockNumber i \<longrightarrow> fi_blockHash f = in_blockHash i)
    | Dropped a s prior d \<Rightarrow>
        ur_chainId (de_identity d) = oi_chainId (oc_identity (op_common x)) \<and>
        ur_entryPoint (de_identity d) = oi_entryPoint (oc_identity (op_common x)) \<and>
        ur_account (de_identity d) = oi_account (oc_identity (op_common x)) \<and>
        ur_nonce (de_identity d) = oi_nonce (oc_identity (op_common x)) \<and>
        ur_userOperationHash (de_identity d) \<noteq> oi_userOperationHash (oc_identity (op_common x)) \<and>
        BigInt (in_blockNumber (de_inclusion d)) \<le> BigInt (fi_blockNumber (de_finality d)) \<and>
        prior \<noteq> Some (de_inclusion d)
    | Superseded a s u \<Rightarrow>
        BigInt (su_observedNonce u) div 2 ^ 64 = BigInt (oi_nonce (oc_identity (op_common x))) div 2 ^ 64 \<and>
        BigInt (oi_nonce (oc_identity (op_common x))) < BigInt (su_observedNonce u)
    | _ \<Rightarrow> True"
proof -
  have wf: "wf_state (op_common x) (op_state x)"
    using parseOperation_wf [OF assms] by (simp add: wf_operation_def)
  have less: "n < m" if "m div 2 ^ 64 = n div 2 ^ 64" "n mod 2 ^ 64 < m mod 2 ^ 64" for m n :: int
    using that div_mult_mod_eq [of n "2 ^ 64"] div_mult_mod_eq [of m "2 ^ 64"] by (metis add_strict_left_mono)
  show ?thesis
  proof (cases "op_state x")
    case (Superseded a s u)
    with wf have "nonceAdvanced (su_observedNonce u) (oi_nonce (oc_identity (op_common x)))"
      by (simp add: wf_supersession_def)
    with Superseded less show ?thesis by (simp only: nonceAdvanced_def operation_state.case)
  next
    case (Finalized a s i f)
    with wf show ?thesis by (auto simp: order_defs split: option.splits)
  next
    case (Dropped a s prior d)
    with wf show ?thesis
      by (auto simp: wf_drop_def replacesIdentity_def finalityContradicts_def inclusionOccurrenceEqual_def order_defs)
  qed auto
qed

theorem settled_operation_is_proved_witness:
  "BigInt (oi_nonce op_sample_identity) < BigInt (su_observedNonce op_sample_supersession)"
proof -
  have "parseOperation sample_ext (operation_literal [] op_sample_superseded) = Inr op_sample_superseded" by code_simp
  from settled_operation_is_proved [OF sample_ext_ok this] show ?thesis
    by (simp add: op_sample_superseded_def op_sample_common_def)
qed

text \<open>An Operation record that was parsed parses to itself again, and what \<open>createOperation\<close> builds
  is a prepared record of revision 0 that parses.\<close>

theorem parseOperation_round_trip:
  assumes "ext_ok E" and "parseOperation E v = Inr x \<or> createOperation E v = Inr x"
  shows "parseOperation E (operation_literal [] x) = Inr x \<and>
    (createOperation E v = Inr x \<longrightarrow> op_state x = Prepared \<and> oc_revision (op_common x) = 0)"
  using assms(2) parseOperation_wf [OF assms(1)] createOperation_sound [OF assms(1)]
    parseOperation_literal [OF assms(1)] by blast

theorem parseOperation_round_trip_witness:
  "parseOperation sample_ext (operation_literal [] op_sample_prepared) = Inr op_sample_prepared"
proof -
  have "createOperation sample_ext (mk_obj []
      [(''identity'', op_identity_literal (at [] ''identity'') op_sample_identity), (''preparedAt'', jint 100),
       (''lane'', lane_literal (at [] ''lane'') \<lparr>ol_id = ''run:7'', ol_key = 7\<rparr>)]) = Inr op_sample_prepared" by code_simp
  then show ?thesis using parseOperation_round_trip [OF sample_ext_ok] by blast
qed

end
