(* ===== verification/Routing.thy ===== *)
theory Routing
  imports Operation_Record
begin

text \<open>
  Model of \<open>packages/sdk/src/routing\<close>: the closed vocabulary of \<open>types.ts\<close>, the fact validators of
  \<open>capabilities.ts\<close>, the decision of \<open>decide.ts\<close> and the signer preference of \<open>auto.ts\<close>.

  A decision is a function of captured facts: the kind of the operation, the coverage of the session
  and the ordered list of the chain's routes. \<open>HostTypeError\<close> is the engine's own exception: the
  input's \<open>signer\<close> key is looked up with \<open>Object.hasOwn\<close> before the capture, so an object whose
  reflection throws escapes the routing error vocabulary.
\<close>

section \<open>Vocabulary (\<open>types.ts\<close>)\<close>

datatype route_kind = Erc4337Bundler | Erc4337HandleOps

datatype bundler_capability = BundlerAvailable | BundlerAbsent | BundlerUnsupported | BundlerUnreadable

datatype session_coverage = SessionCovered | SessionUncovered | SessionUnreadable

record fee_payer =
  fp_address :: string
  fp_balance :: string

datatype route_fact = BundlerRoute bundler_capability | HandleOpsRoute fee_payer

record routing_capabilities =
  rc_chainId :: int
  rc_routes :: "route_fact list"
  rc_sessionCoverage :: session_coverage

datatype signer_decision = SignerSession | SignerOwner | SignerNone

datatype signer_reason =
    Owner_explicit
  | Owner_auto_single_operation
  | Session_auto_owner_unavailable
  | Session_auto_multiple_operations
  | Root_operation_requires_owner
  | Session_covers_calls
  | Session_calls_uncovered
  | Session_coverage_unreadable

datatype route_reason = RouteReason bundler_capability route_kind | Route_none_configured

datatype execution_reason = SignerReason signer_reason | RouteReasonOf route_reason

record execution_decision =
  ed_signer :: signer_decision
  ed_route :: "route_kind option"
  ed_feePayer :: "fee_payer option"
  ed_reasons :: "execution_reason list"

definition inputInvalid :: err where
  "inputInvalid = OaathRoutingError Routing_input_invalid"

definition capabilityInvalid :: err where
  "capabilityInvalid = OaathRoutingError Routing_capability_invalid"

definition exactRoutingRecord :: "jsval \<Rightarrow> string list \<Rightarrow> err \<Rightarrow> (err, fields) capture" where
  "exactRoutingRecord v keys fail =
     bindC (captureRecord v fail) (\<lambda>captured. exactCapturedRecord captured keys fail)"

section \<open>Fact validators (\<open>capabilities.ts\<close>)\<close>

definition routingChainId :: "jsval \<Rightarrow> err \<Rightarrow> err + int" where
  "routingChainId v fail = (if \<not> isSafeInteger v \<or> num_val v < 1 then Inl fail else Inr (num_val v))"

definition routingAddress :: "ext \<Rightarrow> jsval \<Rightarrow> err \<Rightarrow> err + string" where
  "routingAddress E v fail = captureAddress E v (\<lambda>_. fail) False"

fun routingBytes :: "jsval \<Rightarrow> err \<Rightarrow> err + string" where
  "routingBytes (JString s) fail = (if \<not> lower_bytes s \<or> s = ''0x'' then Inl fail else Inr s)"
| "routingBytes _ fail = Inl fail"

fun routingUint :: "jsval \<Rightarrow> err \<Rightarrow> err + string" where
  "routingUint (JString s) fail = (if \<not> decimal_uint s \<or> BigInt s > MAX_UINT256 then Inl fail else Inr s)"
| "routingUint _ fail = Inl fail"

definition bundler_capabilities :: "(string \<times> bundler_capability) list" where
  "bundler_capabilities =
     [(''available'', BundlerAvailable), (''absent'', BundlerAbsent),
      (''unsupported'', BundlerUnsupported), (''unreadable'', BundlerUnreadable)]"

definition bundlerCapability :: "jsval \<Rightarrow> err \<Rightarrow> err + bundler_capability" where
  "bundlerCapability v fail = literal_of bundler_capabilities v fail"

definition session_coverages :: "(string \<times> session_coverage) list" where
  "session_coverages =
     [(''covered'', SessionCovered), (''uncovered'', SessionUncovered), (''unreadable'', SessionUnreadable)]"

definition sessionCoverage :: "jsval \<Rightarrow> err \<Rightarrow> err + session_coverage" where
  "sessionCoverage v fail = literal_of session_coverages v fail"

definition feePayerDescriptor :: "ext \<Rightarrow> jsval \<Rightarrow> err \<Rightarrow> (err, fee_payer option) capture" where
  "feePayerDescriptor E v fail =
     (if v = JNull then returnC None
      else bindC (exactRoutingRecord v [''address'', ''balance''] fail) (\<lambda>record.
           bindC (liftC (routingAddress E (fld record ''address'') fail)) (\<lambda>address.
           bindC (liftC (routingUint (fld record ''balance'') fail)) (\<lambda>balance.
           returnC (Some \<lparr>fp_address = address, fp_balance = balance\<rparr>)))))"

definition route_kinds :: "(string \<times> route_kind) list" where
  "route_kinds = [(''erc4337-bundler'', Erc4337Bundler), (''erc4337-handleops'', Erc4337HandleOps)]"

definition routeKind :: "jsval \<Rightarrow> err \<Rightarrow> err + route_kind" where
  "routeKind v fail = literal_of route_kinds v fail"

text \<open>One entry of the list, with the set of the kinds seen before it.\<close>

definition routeFact :: "ext \<Rightarrow> route_kind set \<Rightarrow> jsval \<Rightarrow> err \<Rightarrow> (err, route_fact \<times> route_kind set) capture" where
  "routeFact E seen entry fail =
     bindC (captureRecord entry fail) (\<lambda>captured.
     bindC (liftC (routeKind (fld captured ''kind'') fail)) (\<lambda>kind.
     bindC (guardC (kind \<notin> seen) fail) (\<lambda>_.
     (let seen' = insert kind seen; fact = (if kind = Erc4337Bundler then ''bundler'' else ''feePayer'') in
      bindC (exactCapturedRecord captured [''kind'', fact] fail) (\<lambda>record.
      if kind = Erc4337Bundler
      then bindC (liftC (bundlerCapability (fld record ''bundler'') fail)) (\<lambda>b. returnC (BundlerRoute b, seen'))
      else bindC (feePayerDescriptor E (fld record ''feePayer'') fail) (\<lambda>feePayer.
           case feePayer of None \<Rightarrow> failC fail | Some p \<Rightarrow> returnC (HandleOpsRoute p, seen')))))))"

primrec routeEntries :: "ext \<Rightarrow> route_kind set \<Rightarrow> jsval list \<Rightarrow> err \<Rightarrow> (err, route_fact list) capture" where
  "routeEntries E seen [] fail = returnC []"
| "routeEntries E seen (entry # entries) fail =
     bindC (routeFact E seen entry fail) (\<lambda>(fact, seen').
     bindC (routeEntries E seen' entries fail) (\<lambda>facts. returnC (fact # facts)))"

definition routeFacts :: "ext \<Rightarrow> jsval \<Rightarrow> err \<Rightarrow> (err, route_fact list) capture" where
  "routeFacts E v fail = bindC (captureDenseArray v fail) (\<lambda>entries. routeEntries E {} entries fail)"

definition captureRoutingCapabilities :: "ext \<Rightarrow> jsval \<Rightarrow> err + routing_capabilities" where
  "captureRoutingCapabilities E v =
     runC (bindC (exactRoutingRecord v [''chainId'', ''routes'', ''sessionCoverage''] capabilityInvalid) (\<lambda>record.
           bindC (liftC (routingChainId (fld record ''chainId'') capabilityInvalid)) (\<lambda>chainId.
           bindC (routeFacts E (fld record ''routes'') capabilityInvalid) (\<lambda>routes.
           bindC (liftC (sessionCoverage (fld record ''sessionCoverage'') capabilityInvalid)) (\<lambda>coverage.
           returnC \<lparr>rc_chainId = chainId, rc_routes = routes, rc_sessionCoverage = coverage\<rparr>)))))"

section \<open>The decision (\<open>decide.ts\<close>, \<open>auto.ts\<close>)\<close>

definition operationKind :: "jsval \<Rightarrow> err + operation_kind" where
  "operationKind v = literal_of operation_kinds v inputInvalid"

definition decideSigner :: "operation_kind \<Rightarrow> session_coverage \<Rightarrow> signer_decision \<times> signer_reason" where
  "decideSigner kind coverage =
     (if kind = Revocation then (SignerOwner, Root_operation_requires_owner)
      else if coverage = SessionCovered then (SignerSession, Session_covers_calls)
      else if coverage = SessionUncovered then (SignerNone, Session_calls_uncovered)
      else (SignerNone, Session_coverage_unreadable))"

type_synonym route_decision = "route_kind option \<times> fee_payer option \<times> route_reason list"

fun considerRoutes :: "route_fact list \<Rightarrow> route_reason list \<Rightarrow> route_decision" where
  "considerRoutes [] reasons = (None, None, reasons)"
| "considerRoutes (HandleOpsRoute p # _) reasons =
     (Some Erc4337HandleOps, Some p, reasons @ [RouteReason BundlerAvailable Erc4337HandleOps])"
| "considerRoutes (BundlerRoute b # facts) reasons =
     (let reasons' = reasons @ [RouteReason b Erc4337Bundler] in
      if b = BundlerAvailable \<or> b = BundlerUnreadable then (Some Erc4337Bundler, None, reasons')
      else considerRoutes facts reasons')"

definition decideRoute :: "route_fact list \<Rightarrow> route_decision" where
  "decideRoute routes =
     (if routes = [] then (None, None, [Route_none_configured]) else considerRoutes routes [])"

definition supportsBundlerSponsorship :: "route_fact list \<Rightarrow> bool" where
  "supportsBundlerSponsorship routes \<longleftrightarrow> fst (decideRoute routes) = Some Erc4337Bundler"

text \<open>
  \<open>Object.hasOwn(input, "signer")\<close> reflects on the raw input: it finds a property of any kind, and a
  revoked proxy throws.
\<close>

fun has_signer :: "jsval \<Rightarrow> err + bool" where
  "has_signer (JObject _ _ _ descriptors) = Inr (PName ''signer'' \<in> set (map fst descriptors))"
| "has_signer (JHostile _) = Inl HostTypeError"
| "has_signer _ = Inr False"

definition decide_captured ::
  "signer_decision \<times> signer_reason \<Rightarrow> route_fact list \<Rightarrow> execution_decision" where
  "decide_captured signer routes =
     (case decideRoute routes of (route, feePayer, reasons) \<Rightarrow>
        if fst signer = SignerNone
        then \<lparr>ed_signer = SignerNone, ed_route = None, ed_feePayer = None, ed_reasons = [SignerReason (snd signer)]\<rparr>
        else \<lparr>ed_signer = fst signer, ed_route = route, ed_feePayer = feePayer,
              ed_reasons = SignerReason (snd signer) # map RouteReasonOf reasons\<rparr>)"

definition decideExecution :: "ext \<Rightarrow> jsval \<Rightarrow> err + execution_decision" where
  "decideExecution E input =
     bindE (has_signer input) (\<lambda>signed.
     runC (bindC (exactRoutingRecord input
               ([''operationKind'', ''sessionCoverage'', ''routes''] @ (if signed then [''signer''] else []))
               inputInvalid) (\<lambda>record.
           bindC (guardC (PName ''signer'' \<in> set (map fst record) \<longrightarrow>
                     fld record ''signer'' \<in> {JString ''owner'', JString ''session''}) inputInvalid) (\<lambda>_.
           bindC (liftC (operationKind (fld record ''operationKind''))) (\<lambda>kind.
           bindC (liftC (sessionCoverage (fld record ''sessionCoverage'') inputInvalid)) (\<lambda>coverage.
           (let signer = (if fld record ''signer'' = JString ''owner'' then (SignerOwner, Owner_explicit)
                          else decideSigner kind coverage) in
            bindC (routeFacts E (fld record ''routes'') inputInvalid) (\<lambda>routes.
            returnC (decide_captured signer routes)))))))))"

definition selectAutoSigner :: "bool \<Rightarrow> bool \<Rightarrow> signer_decision \<times> signer_reason" where
  "selectAutoSigner ownerAvailable singleUserOperation =
     (if ownerAvailable \<and> singleUserOperation then (SignerOwner, Owner_auto_single_operation)
      else (SignerSession, if ownerAvailable then Session_auto_multiple_operations
                           else Session_auto_owner_unavailable))"

section \<open>Reference: the first usable route\<close>

fun usable :: "route_fact \<Rightarrow> bool" where
  "usable (HandleOpsRoute _) = True"
| "usable (BundlerRoute b) = (b = BundlerAvailable \<or> b = BundlerUnreadable)"

fun kind_of :: "route_fact \<Rightarrow> route_kind" where
  "kind_of (HandleOpsRoute _) = Erc4337HandleOps"
| "kind_of (BundlerRoute _) = Erc4337Bundler"

fun payer_of :: "route_fact \<Rightarrow> fee_payer option" where
  "payer_of (HandleOpsRoute p) = Some p"
| "payer_of (BundlerRoute _) = None"

fun reason_of :: "route_fact \<Rightarrow> route_reason" where
  "reason_of (HandleOpsRoute _) = RouteReason BundlerAvailable Erc4337HandleOps"
| "reason_of (BundlerRoute b) = RouteReason b Erc4337Bundler"

text \<open>The routes looked at: up to and including the first usable one.\<close>

fun considered :: "route_fact list \<Rightarrow> route_fact list" where
  "considered [] = []"
| "considered (f # fs) = (if usable f then [f] else f # considered fs)"

lemma considerRoutes_reference:
  "considerRoutes fs reasons =
     (map_option kind_of (find usable fs), Option.bind (find usable fs) payer_of,
      reasons @ map reason_of (considered fs))"
  by (induction fs reasons rule: considerRoutes.induct) (auto simp: Let_def)

lemma decideRoute_reference:
  "fs \<noteq> [] \<Longrightarrow> decideRoute fs =
     (map_option kind_of (find usable fs), Option.bind (find usable fs) payer_of, map reason_of (considered fs))"
  by (simp add: decideRoute_def considerRoutes_reference)

lemma decideRoute_route: "fst (decideRoute fs) = map_option kind_of (find usable fs)"
  by (simp add: decideRoute_def considerRoutes_reference)

text \<open>A bundler route is skipped only when the bundler is known to be absent or to lack support.\<close>

definition conclusive :: "route_fact set" where
  "conclusive = {BundlerRoute BundlerAbsent, BundlerRoute BundlerUnsupported}"

lemma usable_iff: "usable f \<longleftrightarrow> f \<notin> conclusive"
  by (cases f; cases "case f of BundlerRoute b \<Rightarrow> b | _ \<Rightarrow> BundlerAbsent") (auto simp: conclusive_def)

lemma take_subset: "i < length fs \<Longrightarrow> set (take i fs) \<subseteq> S \<longleftrightarrow> (\<forall>j < i. fs ! j \<in> S)"
  by (auto simp: subset_iff in_set_conv_nth)

lemma find_usable_iff:
  "find usable fs = Some f \<longleftrightarrow> f \<notin> conclusive \<and> (\<exists>i < length fs. fs ! i = f \<and> set (take i fs) \<subseteq> conclusive)"
  by (simp add: find_Some_iff usable_iff take_subset cong: conj_cong) blast

lemma find_usable_None: "find usable fs = None \<longleftrightarrow> set fs \<subseteq> conclusive"
  by (auto simp: find_None_iff usable_iff)

lemma selected_routes:
  "map_option kind_of (find usable fs) = Some Erc4337HandleOps \<and> Option.bind (find usable fs) payer_of = Some p \<longleftrightarrow>
     find usable fs = Some (HandleOpsRoute p)"
  "map_option kind_of (find usable fs) = Some Erc4337Bundler \<and> Option.bind (find usable fs) payer_of = None \<longleftrightarrow>
     (\<exists>b \<in> {BundlerAvailable, BundlerUnreadable}. find usable fs = Some (BundlerRoute b))"
  "map_option kind_of (find usable fs) = None \<and> Option.bind (find usable fs) payer_of = None \<longleftrightarrow> find usable fs = None"
proof -
  have "usable f" if "find usable fs = Some f" for f using that by (auto simp: find_Some_iff)
  then show "map_option kind_of (find usable fs) = Some Erc4337HandleOps \<and> Option.bind (find usable fs) payer_of = Some p \<longleftrightarrow>
      find usable fs = Some (HandleOpsRoute p)"
    "map_option kind_of (find usable fs) = Some Erc4337Bundler \<and> Option.bind (find usable fs) payer_of = None \<longleftrightarrow>
      (\<exists>b \<in> {BundlerAvailable, BundlerUnreadable}. find usable fs = Some (BundlerRoute b))"
    "map_option kind_of (find usable fs) = None \<and> Option.bind (find usable fs) payer_of = None \<longleftrightarrow> find usable fs = None"
    by (cases "find usable fs"; cases "the (find usable fs)"; force)+
qed

section \<open>What a captured input gives\<close>

text \<open>The value of an own enumerable data property of the raw input.\<close>

fun own_value :: "jsval \<Rightarrow> string \<Rightarrow> jsval" where
  "own_value (JObject _ _ _ descriptors) k =
     (case map_of descriptors (PName k) of Some (DData v True) \<Rightarrow> v | _ \<Rightarrow> JUndefined)"
| "own_value _ k = JUndefined"

lemma collectFields_map_of:
  "collectFields ds = Some fs \<Longrightarrow>
   map_of fs k = (case map_of ds k of Some (DData v True) \<Rightarrow> Some v | _ \<Rightarrow> None) \<and> map fst fs = map fst ds"
  by (induction ds arbitrary: fs rule: collectFields.induct) (auto split: option.splits)

lemma captureRecord_InrE:
  assumes "captureRecord v e c = Inr (fs, c')"
  obtains r p ds where "v = JObject r False p ds" "collectFields ds = Some fs" "c' = insert r c"
  using assms by (cases v) (auto split: if_splits option.splits)

lemma captureRecord_own:
  assumes "captureRecord v e c = Inr (fs, c')"
  shows "fld fs k = own_value v k" and "has_signer v = Inr (PName ''signer'' \<in> set (map fst fs))"
proof -
  from assms obtain r p ds where v: "v = JObject r False p ds" "collectFields ds = Some fs"
    by (rule captureRecord_InrE)
  show "fld fs k = own_value v k"
    by (simp add: v(1) fld_def collectFields_map_of [OF v(2)] split: option.splits pdesc.splits bool.splits)
  show "has_signer v = Inr (PName ''signer'' \<in> set (map fst fs))"
    using collectFields_map_of [OF v(2)] by (simp only: v(1) has_signer.simps)
qed

lemma exactRoutingRecord_own:
  assumes "exactRoutingRecord v keys e c = Inr (fs, c')"
  shows "fld fs k = own_value v k" and "has_signer v = Inr (PName ''signer'' \<in> set (map fst fs))"
  using assms captureRecord_own [of v e c]
  by (auto simp: exactRoutingRecord_def exactCapturedRecord_def elim!: bindC_InrE split: if_splits)

text \<open>
  A decision comes from the captured signer request, kind and coverage and from the list of routes,
  in which no kind is repeated.
\<close>

definition requested_signer :: "jsval \<Rightarrow> operation_kind \<Rightarrow> session_coverage \<Rightarrow> signer_decision \<times> signer_reason" where
  "requested_signer v kind coverage =
     (if own_value v ''signer'' = JString ''owner'' then (SignerOwner, Owner_explicit)
      else decideSigner kind coverage)"

lemma routeFact_distinct:
  "routeFact E seen v e c = Inr ((f, seen'), c') \<Longrightarrow> kind_of f \<notin> seen \<and> seen' = insert (kind_of f) seen"
  unfolding routeFact_def
  by (elim bindC_InrE) (auto simp: Let_def elim!: bindC_InrE split: if_splits option.splits, (metis (full_types) route_kind.exhaust)+)

lemma routeEntries_distinct:
  "routeEntries E seen vs e c = Inr (fs, c') \<Longrightarrow> distinct (map kind_of fs) \<and> kind_of ` set fs \<inter> seen = {}"
proof (induction vs arbitrary: seen c c' fs)
  case (Cons v vs)
  then show ?case by (fastforce elim!: bindC_InrE dest!: routeFact_distinct)
qed simp

text \<open>The raw entry of the input's list that a captured route stands for.\<close>

fun route_entry :: "jsval \<Rightarrow> route_fact \<Rightarrow> bool" where
  "route_entry w (BundlerRoute b) \<longleftrightarrow> own_value w ''kind'' = JString ''erc4337-bundler'' \<and>
     (\<exists>name. own_value w ''bundler'' = JString name \<and> map_of bundler_capabilities name = Some b)"
| "route_entry w (HandleOpsRoute p) \<longleftrightarrow> own_value w ''kind'' = JString ''erc4337-handleops'' \<and>
     own_value (own_value w ''feePayer'') ''balance'' = JString (fp_balance p)"

lemma feePayerDescriptor_own:
  assumes "feePayerDescriptor E w e c = Inr (Some p, c')"
  shows "own_value w ''balance'' = JString (fp_balance p)"
  using assms unfolding feePayerDescriptor_def
  by (auto elim!: bindC_InrE routingUint.elims dest!: exactRoutingRecord_own(1) [where k = "''balance''"] split: if_splits)

lemma routeFact_entry:
  assumes "routeFact E seen w e c = Inr ((f, seen'), c')"
  shows "route_entry w f"
proof -
  from assms obtain fs c1 kind c2 where fs: "captureRecord w e c = Inr (fs, c1)"
    and kind: "routeKind (fld fs ''kind'') e = Inr kind"
    and f: "if kind = Erc4337Bundler then \<exists>b. bundlerCapability (fld fs ''bundler'') e = Inr b \<and> f = BundlerRoute b
      else \<exists>p c'. feePayerDescriptor E (fld fs ''feePayer'') e c2 = Inr (Some p, c') \<and> f = HandleOpsRoute p"
    unfolding routeFact_def
    by (elim bindC_InrE)
      (auto simp: Let_def elim!: bindC_InrE dest!: exactCapturedRecord_Inr split: if_splits option.splits, (metis (full_types))+)
  note own = captureRecord_own(1) [OF fs]
  show ?thesis
    using kind f feePayerDescriptor_own unfolding own
    by (auto simp: routeKind_def route_kinds_def bundlerCapability_def literal_of_Inr split: if_splits)
qed

lemma routeEntries_entry:
  "routeEntries E seen vs e c = Inr (fs, c') \<Longrightarrow> list_all2 route_entry vs fs"
proof (induction vs arbitrary: seen c c' fs)
  case (Cons v vs)
  then show ?case by (fastforce elim!: bindC_InrE dest!: routeFact_entry)
qed simp

lemma decideExecution_InrE:
  assumes "decideExecution E v = Inr d"
  obtains kind coverage entries routes c c' where
    "operationKind (own_value v ''operationKind'') = Inr kind"
    "sessionCoverage (own_value v ''sessionCoverage'') inputInvalid = Inr coverage"
    "captureDenseArray (own_value v ''routes'') inputInvalid c = Inr (entries, c')"
    "list_all2 route_entry entries routes" "distinct (map kind_of routes)"
    "d = decide_captured (requested_signer v kind coverage) routes"
proof -
  from assms obtain signed rec c kind coverage routes vs c0 c1 c2 c3 where r:
    "exactRoutingRecord v ([''operationKind'', ''sessionCoverage'', ''routes''] @ (if signed then [''signer''] else []))
       inputInvalid {} = Inr (rec, c)"
    "operationKind (fld rec ''operationKind'') = Inr kind"
    "sessionCoverage (fld rec ''sessionCoverage'') inputInvalid = Inr coverage"
    "captureDenseArray (fld rec ''routes'') inputInvalid c0 = Inr (vs, c1)"
    "routeEntries E {} vs inputInvalid c1 = Inr (routes, c2)"
    "d = decide_captured (if fld rec ''signer'' = JString ''owner'' then (SignerOwner, Owner_explicit)
       else decideSigner kind coverage) routes"
    unfolding decideExecution_def runC_Inr
    by (elim bindE_InrE) (auto simp: runC_Inr Let_def routeFacts_def elim!: bindC_InrE)
  note own = exactRoutingRecord_own(1) [OF r(1)]
  from routeEntries_distinct [OF r(5)] have "distinct (map kind_of routes)" by simp
  with r(2-4,6) routeEntries_entry [OF r(5)] show thesis
    unfolding own by (intro that) (simp_all add: requested_signer_def)
qed

section \<open>Only routing errors\<close>

lemma liftC_Inl [simp]: "liftC r c = Inl e \<longleftrightarrow> r = Inl e"
  by (auto simp: liftC_def split: sum.splits)

lemma bindC_Inl:
  "bindC m f c = Inl e \<longleftrightarrow> m c = Inl e \<or> (\<exists>x c'. m c = Inr (x, c') \<and> f x c' = Inl e)"
  by (auto simp: bindC_def split: sum.splits)

definition raises_only :: "'e \<Rightarrow> ('e, 'a) capture \<Rightarrow> bool" where
  "raises_only e m \<longleftrightarrow> (\<forall>c e'. m c = Inl e' \<longrightarrow> e' = e)"

named_theorems raises

lemma raises_bind [raises]: "raises_only e m \<Longrightarrow> (\<And>x. raises_only e (f x)) \<Longrightarrow> raises_only e (bindC m f)"
  by (auto simp: raises_only_def bindC_Inl)

lemma raises_return [raises]: "raises_only e (returnC x)" "raises_only e (failC e)" "raises_only e (guardC b e)"
  by (auto simp: raises_only_def returnC_def failC_def guardC_def)

lemma raises_lift [raises]: "(\<And>e'. r = Inl e' \<Longrightarrow> e' = e) \<Longrightarrow> raises_only e (liftC r)"
  by (auto simp: raises_only_def)

lemma raises_if [raises]: "raises_only e m \<Longrightarrow> raises_only e m' \<Longrightarrow> raises_only e (if b then m else m')"
  by simp

lemma raises_record [raises]: "raises_only e (captureRecord v e)"
  unfolding raises_only_def
proof (intro allI impI)
  fix c e' assume "captureRecord v e c = Inl e'"
  then show "e' = e" by (cases v) (auto split: if_splits option.splits)
qed

lemma raises_array [raises]: "raises_only e (captureDenseArray v e)"
  unfolding raises_only_def
proof (intro allI impI)
  fix c e' assume "captureDenseArray v e c = Inl e'"
  then show "e' = e" by (cases v) (auto split: if_splits option.splits pdesc.splits)
qed

lemma raises_exact [raises]: "raises_only e (exactCapturedRecord fs ks e)"
  by (simp add: exactCapturedRecord_def raises)

lemma raises_routing [raises]: "raises_only e (exactRoutingRecord v ks e)"
  unfolding exactRoutingRecord_def by (intro raises)

lemma literal_of_Inl: "literal_of table v e = Inl e' \<Longrightarrow> e' = e"
  by (auto simp: literal_of_def split: jsval.splits option.splits)

lemma routing_scalar_Inl:
  "routingAddress E v e = Inl e' \<Longrightarrow> e' = e" "routingUint v e = Inl e' \<Longrightarrow> e' = e"
  "bundlerCapability v e = Inl e' \<Longrightarrow> e' = e" "sessionCoverage v e = Inl e' \<Longrightarrow> e' = e"
  "routeKind v e = Inl e' \<Longrightarrow> e' = e" "operationKind v = Inl e' \<Longrightarrow> e' = inputInvalid"
  by (auto simp: routingAddress_def captureAddress_def bundlerCapability_def sessionCoverage_def routeKind_def
      operationKind_def Let_def dest: literal_of_Inl elim!: routingUint.elims split: if_splits jsval.splits)

lemma raises_feePayer [raises]: "raises_only e (feePayerDescriptor E v e)"
  unfolding feePayerDescriptor_def by (intro raises) (rule routing_scalar_Inl, assumption)+

lemma raises_routeFact [raises]: "raises_only e (routeFact E seen v e)"
  unfolding routeFact_def Let_def
  by (intro raises) (auto intro: raises dest: routing_scalar_Inl split: option.split)

lemma raises_routeEntries [raises]: "raises_only e (routeEntries E seen vs e)"
  by (induction vs arbitrary: seen) (auto intro!: raises split: prod.split)

lemma raises_routeFacts [raises]: "raises_only e (routeFacts E v e)"
  unfolding routeFacts_def by (intro raises)

lemma raises_only_run: "raises_only e m \<Longrightarrow> runC m = Inl e' \<Longrightarrow> e' = e"
  by (auto simp: raises_only_def runC_def split: sum.splits prod.splits)

lemma decideExecution_Inl:
  "decideExecution E v = Inl e \<Longrightarrow> e = inputInvalid \<or> has_signer v = Inl e"
  unfolding decideExecution_def Let_def
  by (elim bindE_InlE disjE; (simp; fail)?; rule disjI1)
     (erule raises_only_run [rotated], (intro raises; (erule routing_scalar_Inl)?))

section \<open>Sample input\<close>

definition sample_fee_payer :: fee_payer where
  "sample_fee_payer = \<lparr>fp_address = ''0x'' @ replicate 40 (CHR ''1''), fp_balance = ''1000''\<rparr>"

definition sample_decision_input :: "string \<Rightarrow> jsval" where
  "sample_decision_input bundler =
     mk_obj [] [(''operationKind'', JString ''execution''), (''sessionCoverage'', JString ''covered''),
       (''routes'', mk_arr [PName ''routes'']
          [mk_obj [PName ''routes'', PIndex 0] [(''kind'', JString ''erc4337-bundler''), (''bundler'', JString bundler)],
           mk_obj [PName ''routes'', PIndex 1] [(''kind'', JString ''erc4337-handleops''),
             (''feePayer'', mk_obj [PName ''routes'', PIndex 1, PName ''feePayer'']
                [(''address'', JString (fp_address sample_fee_payer)), (''balance'', JString ''1000'')])]])]"

definition sample_bundler_decision :: execution_decision where
  "sample_bundler_decision = \<lparr>ed_signer = SignerSession, ed_route = Some Erc4337Bundler, ed_feePayer = None,
     ed_reasons = [SignerReason Session_covers_calls,
       RouteReasonOf (RouteReason BundlerUnreadable Erc4337Bundler)]\<rparr>"

lemma sample_decisions:
  "decideExecution sample_ext (sample_decision_input ''absent'') =
     Inr \<lparr>ed_signer = SignerSession, ed_route = Some Erc4337HandleOps, ed_feePayer = Some sample_fee_payer,
          ed_reasons = [SignerReason Session_covers_calls,
            RouteReasonOf (RouteReason BundlerAbsent Erc4337Bundler),
            RouteReasonOf (RouteReason BundlerAvailable Erc4337HandleOps)]\<rparr>"
  "decideExecution sample_ext (sample_decision_input ''unreadable'') =
     Inr sample_bundler_decision"
  by code_simp+

section \<open>Properties\<close>

text \<open>C32: Authority is never widened by routing. A decision signs with the owner only when the input asks for the
  owner or the operation is a revocation, and with the session only when the operation is an execution whose
  calls the session covers; in every other case no signer, no route and no fee payer is selected.\<close>

theorem execution_authority:
  assumes "decideExecution E v = Inr d"
  shows "(ed_signer d = SignerOwner \<longleftrightarrow>
      own_value v ''signer'' = JString ''owner'' \<or> own_value v ''operationKind'' = JString ''revocation'') \<and>
    (ed_signer d = SignerSession \<longleftrightarrow> own_value v ''signer'' \<noteq> JString ''owner'' \<and>
      own_value v ''operationKind'' = JString ''execution'' \<and> own_value v ''sessionCoverage'' = JString ''covered'') \<and>
    (ed_signer d = SignerNone \<longrightarrow> ed_route d = None \<and> ed_feePayer d = None)"
  using assms
proof (rule decideExecution_InrE)
  fix kind coverage entries routes c c'
  assume "operationKind (own_value v ''operationKind'') = Inr kind"
    and "sessionCoverage (own_value v ''sessionCoverage'') inputInvalid = Inr coverage"
    and "d = decide_captured (requested_signer v kind coverage) routes"
  then show ?thesis
    by (auto simp: operationKind_def operation_kinds_def sessionCoverage_def session_coverages_def literal_of_Inr
        decide_captured_def requested_signer_def decideSigner_def split: prod.splits if_splits)
qed

theorem execution_authority_witness:
  "ed_signer sample_bundler_decision = SignerSession \<and>
   own_value (sample_decision_input ''unreadable'') ''sessionCoverage'' = JString ''covered''"
  using execution_authority [OF sample_decisions(2)] by (simp add: sample_bundler_decision_def)

text \<open>C33: Bundler trouble authorises a fallback only when it is conclusive. Over the raw entries of the input's route
  list, in their order, a decision with a signer selects the direct \<open>handleOps\<close> route, with its fee payer, exactly
  when every entry before it is a bundler reported absent or unsupported; it selects the bundler route exactly when
  the first entry that is not such a bundler is one reported available or unreadable; and it selects no route exactly
  when every entry is such a bundler. The reasons name every entry looked at. Without a signer nothing is
  selected.\<close>

theorem fallback_only_when_conclusive:
  assumes "decideExecution E v = Inr d"
  shows "\<exists>entries routes c c'. captureDenseArray (own_value v ''routes'') inputInvalid c = Inr (entries, c') \<and>
    list_all2 route_entry entries routes \<and>
    (if ed_signer d = SignerNone then ed_route d = None \<and> ed_feePayer d = None
     else (\<forall>p. ed_route d = Some Erc4337HandleOps \<and> ed_feePayer d = Some p \<longleftrightarrow>
            (\<exists>i < length routes. routes ! i = HandleOpsRoute p \<and> set (take i routes) \<subseteq> conclusive)) \<and>
          (ed_route d = Some Erc4337Bundler \<and> ed_feePayer d = None \<longleftrightarrow>
            (\<exists>i < length routes. routes ! i \<in> {BundlerRoute BundlerAvailable, BundlerRoute BundlerUnreadable} \<and>
               set (take i routes) \<subseteq> conclusive)) \<and>
          (ed_route d = None \<and> ed_feePayer d = None \<longleftrightarrow> set routes \<subseteq> conclusive) \<and>
          tl (ed_reasons d) = map RouteReasonOf (if routes = [] then [Route_none_configured] else map reason_of (considered routes)))"
  using assms
proof (rule decideExecution_InrE)
  fix kind coverage entries routes c c'
  assume d: "d = decide_captured (requested_signer v kind coverage) routes"
    and captured: "captureDenseArray (own_value v ''routes'') inputInvalid c = Inr (entries, c')"
      "list_all2 route_entry entries routes"
  let ?f = "find usable routes"
  have decided: "decideRoute routes = (map_option kind_of ?f, Option.bind ?f payer_of,
      if routes = [] then [Route_none_configured] else map reason_of (considered routes))"
    by (simp add: decideRoute_def considerRoutes_reference)
  have f: "?f = Some (HandleOpsRoute p) \<longleftrightarrow> (\<exists>i < length routes. routes ! i = HandleOpsRoute p \<and> set (take i routes) \<subseteq> conclusive)"
    "(\<exists>b \<in> {BundlerAvailable, BundlerUnreadable}. ?f = Some (BundlerRoute b)) \<longleftrightarrow>
      (\<exists>i < length routes. routes ! i \<in> {BundlerRoute BundlerAvailable, BundlerRoute BundlerUnreadable} \<and>
         set (take i routes) \<subseteq> conclusive)" for p
    by (auto simp: find_usable_iff) (auto simp: conclusive_def)
  have route: "map_option kind_of ?f = Some Erc4337HandleOps \<and> Option.bind ?f payer_of = Some p \<longleftrightarrow> ?f = Some (HandleOpsRoute p)"
    "map_option kind_of ?f = Some Erc4337Bundler \<and> Option.bind ?f payer_of = None \<longleftrightarrow>
      (\<exists>b \<in> {BundlerAvailable, BundlerUnreadable}. ?f = Some (BundlerRoute b))"
    "map_option kind_of ?f = None \<and> Option.bind ?f payer_of = None \<longleftrightarrow> ?f = None" for p
    by (rule selected_routes)+
  show ?thesis
    using captured route unfolding f find_usable_None
    by (intro exI [of _ entries] exI [of _ routes] exI [of _ c] exI [of _ c']) (simp add: d decide_captured_def decided)
qed

theorem fallback_only_when_conclusive_witness:
  "\<exists>entries routes c c'.
    captureDenseArray (own_value (sample_decision_input ''unreadable'') ''routes'') inputInvalid c = Inr (entries, c') \<and>
    list_all2 route_entry entries routes \<and>
    (\<exists>i < length routes. routes ! i \<in> {BundlerRoute BundlerAvailable, BundlerRoute BundlerUnreadable} \<and>
       set (take i routes) \<subseteq> conclusive)"
  using fallback_only_when_conclusive [OF sample_decisions(2)] by (simp add: sample_bundler_decision_def) blast

text \<open>C34: Every failure of the decision is the one routing input error, with one exception: an object whose
  reflection throws is not captured but raises the engine's own exception, because the \<open>signer\<close> key is looked up
  before the capture.\<close>

theorem decideExecution_errors:
  "decideExecution E v = Inl e \<longleftrightarrow>
     (if \<exists>r. v = JHostile r then e = HostTypeError
      else e = inputInvalid \<and> (\<forall>d. decideExecution E v \<noteq> Inr d))"
proof (cases "\<exists>r. v = JHostile r")
  case True
  then show ?thesis by (auto simp: decideExecution_def)
next
  case False
  then have "has_signer v \<noteq> Inl e" for e by (cases v) auto
  with decideExecution_Inl have "decideExecution E v = Inl e \<Longrightarrow> e = inputInvalid" for e by blast
  with False show ?thesis by (cases "decideExecution E v") auto
qed

end
