(* ===== verification/Store.thy ===== *)
theory Store
  imports Grant_Invariant Operation_Codec
begin

text \<open>
  Model of \<open>packages/sdk/src/store.ts\<close>: the envelope a store keeps around an aggregate, the keys of
  the journal, the \<open>AggregateStore\<close> both stores are built on, \<open>GrantStore\<close> and \<open>OperationStore\<close>.

  The adapter behind a store is a capability: a call of it is a promise that either rejects or
  resolves with an untrusted value (\<open>answer\<close>). An asynchronous method is cut at its awaits: a
  \<open>cas_phase\<close> says which adapter call a \<open>compareAndSwap\<close> in flight waits for and what it has
  computed so far, \<open>casRequest\<close> is the call it has issued, and \<open>resumeCas\<close> is the code that runs
  when the answer arrives. The flag \<open>closed\<close> is the store's \<open>#closed\<close> at that moment, so a close
  between two awaits is covered. The composition with an adapter and with other calls in flight is
  in \<open>Store_Concurrency\<close>.

  \<open>sameValue\<close>, equality of \<open>JSON.stringify\<close>, is equality of the captured values: they are built by
  the parsers with one key order per shape and hold only strings, integers, booleans and null.
  The constructors' check that an adapter offers functions (\<open>captureAdapter\<close>) is not modelled.
\<close>

section \<open>Records and keys\<close>

definition OAATH_GRANT_STORE_RECORD_VERSION :: string where
  "OAATH_GRANT_STORE_RECORD_VERSION = ''oaath.grant-store-record/v1''"

definition OAATH_OPERATION_STORE_RECORD_VERSION :: string where
  "OAATH_OPERATION_STORE_RECORD_VERSION = ''oaath.operation-store-record/v1''"

definition MAX_LISTED_LANES :: nat where
  "MAX_LISTED_LANES = 65537"

record 'v store_record =
  sr_storeRevision :: int
  sr_updatedAt :: int
  sr_value :: 'v

record operation_store_scope =
  sc_grantId :: string
  sc_chainId :: int
  sc_kind :: operation_kind

record operation_store_key = operation_store_scope +
  sk_lane :: "int option"

datatype 'v cas_result = Committed "'v store_record" | Conflict "'v store_record option"

datatype answer = Rejected | Resolved jsval

abbreviation s_err :: "store_code \<Rightarrow> err" where
  "s_err \<equiv> OaathStoreError"

definition st_canonicalGrantId :: "jsval \<Rightarrow> err + string" where
  "st_canonicalGrantId v = canonical_id v (s_err Store_input_invalid)"

definition canonicalChainId :: "jsval \<Rightarrow> err + int" where
  "canonicalChainId v =
     (if \<not> isSafeInteger v \<or> num_val v < 1 then Inl (s_err Store_input_invalid) else Inr (num_val v))"

definition canonicalOperationKind :: "jsval \<Rightarrow> err + operation_kind" where
  "canonicalOperationKind v = literal_of operation_kinds v (s_err Store_input_invalid)"

definition canonicalUserOperationHash :: "jsval \<Rightarrow> err + string" where
  "canonicalUserOperationHash v = fixed_hex 64 v (s_err Store_input_invalid)"

definition parseOperationScope :: "jsval \<Rightarrow> err + operation_store_scope" where
  "parseOperationScope v =
     bindE (runC (exactRecord v [''grantId'', ''chainId'', ''kind''] (s_err Store_input_invalid))) (\<lambda>record.
     bindE (st_canonicalGrantId (fld record ''grantId'')) (\<lambda>grantId.
     bindE (canonicalChainId (fld record ''chainId'')) (\<lambda>chainId.
     bindE (canonicalOperationKind (fld record ''kind'')) (\<lambda>kind.
     Inr \<lparr>sc_grantId = grantId, sc_chainId = chainId, sc_kind = kind\<rparr>))))"

definition has_field :: "fields \<Rightarrow> string \<Rightarrow> bool" where
  "has_field fs k \<longleftrightarrow> PName k \<in> set (map fst fs)"

definition parseOperationKey :: "jsval \<Rightarrow> err + operation_store_key" where
  "parseOperationKey v =
     (let fail = s_err Store_input_invalid in
      bindE (runC (bindC (captureRecord v fail) (\<lambda>captured.
             exactCapturedRecord captured
               (if has_field captured ''lane'' then [''grantId'', ''chainId'', ''kind'', ''lane'']
                else [''grantId'', ''chainId'', ''kind'']) fail))) (\<lambda>record.
      bindE (canonicalOperationKind (fld record ''kind'')) (\<lambda>kind.
      bindE (st_canonicalGrantId (fld record ''grantId'')) (\<lambda>grantId.
      bindE (canonicalChainId (fld record ''chainId'')) (\<lambda>chainId.
      let scope = \<lparr>sc_grantId = grantId, sc_chainId = chainId, sc_kind = kind, sk_lane = None\<rparr>;
          lane = fld record ''lane'' in
      if \<not> has_field record ''lane'' then Inr scope
      else if kind \<noteq> Execution \<or> \<not> isSafeInteger lane \<or> num_val lane < 1 then Inl fail
      else Inr (scope\<lparr>sk_lane := Some (num_val lane)\<rparr>))))))"

definition operationStoreKeyOf :: "operation \<Rightarrow> operation_store_key" where
  "operationStoreKeyOf x =
     (let identity = oc_identity (op_common x) in
      \<lparr>sc_grantId = oi_grantId identity, sc_chainId = oi_chainId identity, sc_kind = oi_kind identity,
       sk_lane = map_option ol_key (oc_lane (op_common x))\<rparr>)"

definition expectedStoreRevision :: "jsval \<Rightarrow> err + int option" where
  "expectedStoreRevision v = nullable_scalar (safe_integer 0 MAX_SAFE_INTEGER) v (s_err Store_input_invalid)"

definition storeRevision :: "jsval \<Rightarrow> err + int" where
  "storeRevision v = safe_integer 0 MAX_SAFE_INTEGER v (s_err Store_record_invalid)"

definition safeUpdatedAt :: "jsval \<Rightarrow> err + int" where
  "safeUpdatedAt v = safe_integer 0 MAX_SAFE_INTEGER v (s_err Store_record_invalid)"

definition nextStoreRevision :: "int option \<Rightarrow> err + int" where
  "nextStoreRevision current =
     (if current = Some MAX_SAFE_INTEGER then Inl (s_err Store_revision_exhausted)
      else Inr (case current of None \<Rightarrow> 0 | Some n \<Rightarrow> n + 1))"

definition sameOperationIdentity :: "operation \<Rightarrow> operation \<Rightarrow> bool" where
  "sameOperationIdentity left right \<longleftrightarrow> oc_identity (op_common left) = oc_identity (op_common right)"

definition sameStoreRecord :: "'v store_record option \<Rightarrow> 'v store_record \<Rightarrow> bool" where
  "sameStoreRecord left right =
     (case left of None \<Rightarrow> False
      | Some l \<Rightarrow> sr_storeRevision l = sr_storeRevision right \<and> sr_updatedAt l = sr_updatedAt right \<and>
                  sr_value l = sr_value right)"

section \<open>The aggregate store\<close>

text \<open>
  What a store knows of its aggregate (\<open>AggregateAccess\<close>). The last four fields are the archive
  discipline of \<open>OperationStore\<close>: whether there is an archive at all, when a replacement archives the
  record it replaces, under which hash, and which records may be archived.
\<close>

record ('v, 'k) access =
  ac_version :: string
  ac_parse :: "jsval \<Rightarrow> err + 'v"
  ac_keyMatches :: "'v \<Rightarrow> 'k \<Rightarrow> bool"
  ac_updatedAt :: "'v \<Rightarrow> int"
  ac_validateNext :: "'v option \<Rightarrow> 'v \<Rightarrow> err + unit"
  ac_archives :: bool
  ac_sameIdentity :: "'v \<Rightarrow> 'v \<Rightarrow> bool"
  ac_hash :: "'v \<Rightarrow> string"
  ac_terminal :: "'v \<Rightarrow> bool"

definition parseRead :: "('v, 'k) access \<Rightarrow> jsval \<Rightarrow> 'k \<Rightarrow> err + 'v store_record option" where
  "parseRead A raw key =
     (if raw = JUndefined then Inr None
      else case runC (exactRecord raw [''version'', ''storeRevision'', ''updatedAt'', ''value'']
                        (s_err Store_record_invalid)) of
        Inl _ \<Rightarrow> Inl (s_err Store_record_invalid)
      | Inr record \<Rightarrow>
          (case ac_parse A (fld record ''value'') of
             Inl _ \<Rightarrow> Inl (s_err Store_record_invalid)
           | Inr value \<Rightarrow>
               if fld record ''version'' \<noteq> JString (ac_version A) then Inl (s_err Store_record_invalid)
               else if \<not> ac_keyMatches A value key then Inl (s_err Store_key_mismatch)
               else bindE (storeRevision (fld record ''storeRevision'')) (\<lambda>revision.
                    bindE (safeUpdatedAt (fld record ''updatedAt'')) (\<lambda>updatedAt.
                    if updatedAt \<noteq> ac_updatedAt A value then Inl (s_err Store_record_invalid)
                    else Inr (Some \<lparr>sr_storeRevision = revision, sr_updatedAt = updatedAt, sr_value = value\<rparr>)))))"

definition assertOpen :: "bool \<Rightarrow> err + unit" where
  "assertOpen closed = guardE (\<not> closed) (s_err Store_closed)"

definition parseStored :: "('v, 'k) access \<Rightarrow> bool \<Rightarrow> jsval \<Rightarrow> 'k \<Rightarrow> err + 'v store_record option" where
  "parseStored A closed raw key = bindE (assertOpen closed) (\<lambda>_. parseRead A raw key)"

text \<open>The rest of \<open>get\<close> once the adapter has answered.\<close>

definition readAnswer :: "('v, 'k) access \<Rightarrow> 'k \<Rightarrow> answer \<Rightarrow> err + 'v store_record option" where
  "readAnswer A key a =
     (case a of Rejected \<Rightarrow> Inl (s_err Store_unavailable) | Resolved raw \<Rightarrow> parseRead A raw key)"

definition store_get :: "('v, 'k) access \<Rightarrow> bool \<Rightarrow> 'k \<Rightarrow> answer \<Rightarrow> err + 'v store_record option" where
  "store_get A closed key a = bindE (assertOpen closed) (\<lambda>_. readAnswer A key a)"

definition archiveFor :: "('v, 'k) access \<Rightarrow> 'v store_record option \<Rightarrow> 'v store_record \<Rightarrow> (string \<times> 'v store_record) option" where
  "archiveFor A current next =
     (case current of
        None \<Rightarrow> None
      | Some c \<Rightarrow>
          if \<not> ac_archives A \<or> ac_sameIdentity A (sr_value c) (sr_value next) then None
          else Some (ac_hash A (sr_value c), c))"

definition revisionMatches :: "'v store_record option \<Rightarrow> int option \<Rightarrow> bool" where
  "revisionMatches current expected =
     (case expected of None \<Rightarrow> current = None | Some n \<Rightarrow> map_option sr_storeRevision current = Some n)"

text \<open>The adapter calls a store issues, and the states of a compare-and-swap between them.\<close>

datatype ('k, 'v) request =
    ReqGet 'k
  | ReqArchived 'k string
  | ReqSwap 'k "int option" "'v store_record" string "(string \<times> 'v store_record) option"

datatype 'v cas_phase =
    AwaitHistory
  | AwaitRead
  | AwaitSwap "'v store_record" "'v store_record option"
  | AwaitRetained bool "'v store_record" "'v store_record option"
  | AwaitArchive "'v store_record" "'v store_record option" "'v store_record" string
  | Settled "err + 'v cas_result"

record ('k, 'v) cas_call =
  cc_key :: 'k
  cc_expected :: "int option"
  cc_next :: 'v
  cc_phase :: "'v cas_phase"

text \<open>\<open>OperationStore.#readArchived\<close>, once the archive has answered.\<close>

definition archivedAnswer ::
    "('v, 'k) access \<Rightarrow> bool \<Rightarrow> 'k \<Rightarrow> string \<Rightarrow> answer \<Rightarrow> err + 'v store_record option" where
  "archivedAnswer A closed key hash a =
     (case a of
        Rejected \<Rightarrow> Inl (s_err Store_unavailable)
      | Resolved raw \<Rightarrow>
          bindE (parseStored A closed raw key) (\<lambda>archived.
          case archived of
            None \<Rightarrow> Inr None
          | Some r \<Rightarrow>
              if ac_hash A (sr_value r) \<noteq> hash then Inl (s_err Store_identity_mismatch)
              else if \<not> ac_terminal A (sr_value r) then Inl (s_err Store_record_invalid)
              else Inr archived))"

definition beginCas :: "('v, 'k) access \<Rightarrow> bool \<Rightarrow> 'v cas_phase" where
  "beginCas A closed =
     (if closed then Settled (Inl (s_err Store_closed))
      else if ac_archives A then AwaitHistory else AwaitRead)"

definition afterHistory :: "('v, 'k) access \<Rightarrow> bool \<Rightarrow> ('k, 'v) cas_call \<Rightarrow> answer \<Rightarrow> 'v cas_phase" where
  "afterHistory A closed call a =
     (case archivedAnswer A closed (cc_key call) (ac_hash A (cc_next call)) a of
        Inl e \<Rightarrow> Settled (Inl e)
      | Inr (Some _) \<Rightarrow> Settled (Inl (s_err Store_identity_mismatch))
      | Inr None \<Rightarrow> if closed then Settled (Inl (s_err Store_closed)) else AwaitRead)"

definition afterRead :: "('v, 'k) access \<Rightarrow> ('k, 'v) cas_call \<Rightarrow> answer \<Rightarrow> 'v cas_phase" where
  "afterRead A call a =
     (case readAnswer A (cc_key call) a of
        Inl e \<Rightarrow> Settled (Inl e)
      | Inr current \<Rightarrow>
          if \<not> revisionMatches current (cc_expected call) then Settled (Inr (Conflict current))
          else case bindE (ac_validateNext A (map_option sr_value current) (cc_next call)) (\<lambda>_.
                    nextStoreRevision (cc_expected call)) of
                 Inl e \<Rightarrow> Settled (Inl e)
               | Inr revision \<Rightarrow>
                   AwaitSwap \<lparr>sr_storeRevision = revision, sr_updatedAt = ac_updatedAt A (cc_next call),
                              sr_value = cc_next call\<rparr> current)"

definition afterSwap :: "bool \<Rightarrow> 'v store_record \<Rightarrow> 'v store_record option \<Rightarrow> answer \<Rightarrow> 'v cas_phase" where
  "afterSwap closed next current a =
     (case a of
        Resolved (JBool swapped) \<Rightarrow>
          if \<not> closed then AwaitRetained swapped next current
          else Settled (Inl (s_err (if swapped then Store_commit_unverified else Store_commit_indeterminate)))
      | _ \<Rightarrow> Settled (Inl (s_err Store_commit_indeterminate)))"

definition afterRetained ::
    "('v, 'k) access \<Rightarrow> ('k, 'v) cas_call \<Rightarrow> bool \<Rightarrow> 'v store_record \<Rightarrow> 'v store_record option \<Rightarrow> answer \<Rightarrow> 'v cas_phase" where
  "afterRetained A call swapped next current a =
     (case readAnswer A (cc_key call) a of
        Inl _ \<Rightarrow> Settled (Inl (s_err (if swapped then Store_commit_unverified else Store_commit_indeterminate)))
      | Inr retained \<Rightarrow>
          if swapped then
            (case retained of
               Some r \<Rightarrow>
                 if sameStoreRecord retained next then
                   (case archiveFor A current next of
                      None \<Rightarrow> Settled (Inr (Committed r))
                    | Some (hash, _) \<Rightarrow> AwaitArchive next current r hash)
                 else Settled (Inl (s_err Store_commit_unverified))
             | None \<Rightarrow> Settled (Inl (s_err Store_commit_unverified)))
          else
            (case retained of
               None \<Rightarrow> Settled (Inl (s_err Store_commit_indeterminate))
             | Some r \<Rightarrow>
                 if (case cc_expected call of None \<Rightarrow> False | Some n \<Rightarrow> sr_storeRevision r \<le> n)
                 then Settled (Inl (s_err Store_commit_indeterminate))
                 else Settled (Inr (Conflict retained))))"

definition archiveRetains ::
    "('v, 'k) access \<Rightarrow> bool \<Rightarrow> 'k \<Rightarrow> 'v store_record option \<Rightarrow> string \<Rightarrow> answer \<Rightarrow> bool" where
  "archiveRetains A closed key current hash a =
     (case a of
        Rejected \<Rightarrow> False
      | Resolved raw \<Rightarrow>
          (case parseStored A closed raw key of
             Inr (Some retained) \<Rightarrow>
               current \<noteq> None \<and> sameStoreRecord (Some retained) (the current) \<and>
               ac_hash A (sr_value retained) = hash \<and> ac_terminal A (sr_value retained)
           | _ \<Rightarrow> False))"

definition afterArchive ::
    "('v, 'k) access \<Rightarrow> bool \<Rightarrow> ('k, 'v) cas_call \<Rightarrow> 'v store_record option \<Rightarrow> 'v store_record \<Rightarrow> string \<Rightarrow> answer \<Rightarrow> 'v cas_phase" where
  "afterArchive A closed call current retained hash a =
     (if archiveRetains A closed (cc_key call) current hash a then Settled (Inr (Committed retained))
      else Settled (Inl (s_err Store_commit_unverified)))"

fun casRequest :: "('v, 'k) access \<Rightarrow> 'k \<Rightarrow> int option \<Rightarrow> 'v \<Rightarrow> 'v cas_phase \<Rightarrow> ('k, 'v) request option" where
  "casRequest A key expected x AwaitHistory = Some (ReqArchived key (ac_hash A x))"
| "casRequest A key expected x AwaitRead = Some (ReqGet key)"
| "casRequest A key expected x (AwaitSwap next current) =
     Some (ReqSwap key expected next (ac_hash A (sr_value next)) (archiveFor A current next))"
| "casRequest A key expected x (AwaitRetained _ _ _) = Some (ReqGet key)"
| "casRequest A key expected x (AwaitArchive _ _ _ hash) = Some (ReqArchived key hash)"
| "casRequest A key expected x (Settled _) = None"

definition resumeCas :: "('v, 'k) access \<Rightarrow> bool \<Rightarrow> ('k, 'v) cas_call \<Rightarrow> answer \<Rightarrow> 'v cas_phase" where
  "resumeCas A closed call a =
     (case cc_phase call of
        AwaitHistory \<Rightarrow> afterHistory A closed call a
      | AwaitRead \<Rightarrow> afterRead A call a
      | AwaitSwap next current \<Rightarrow> afterSwap closed next current a
      | AwaitRetained swapped next current \<Rightarrow> afterRetained A call swapped next current a
      | AwaitArchive next current retained hash \<Rightarrow> afterArchive A closed call current retained hash a
      | Settled r \<Rightarrow> Settled r)"

text \<open>\<open>close\<close>: callers that arrive while a close is under way share its promise.\<close>

datatype close_state = StoreOpen | StoreClosing | StoreClosed

definition beginClose :: "close_state \<Rightarrow> close_state \<times> bool" where
  "beginClose s = (case s of StoreOpen \<Rightarrow> (StoreClosing, True) | _ \<Rightarrow> (s, False))"

definition afterClose :: "answer \<Rightarrow> close_state \<times> (err + unit)" where
  "afterClose a =
     (case a of Rejected \<Rightarrow> (StoreOpen, Inl (s_err Store_unavailable)) | Resolved _ \<Rightarrow> (StoreClosed, Inr ()))"

section \<open>The Grant store\<close>

definition grant_access :: "ext \<Rightarrow> (grant, string) access" where
  "grant_access E = \<lparr>
     ac_version = OAATH_GRANT_STORE_RECORD_VERSION,
     ac_parse = parseGrant E,
     ac_keyMatches = (\<lambda>g grantId. gi_grantId (g_identity g) = grantId),
     ac_updatedAt = g_updatedAt,
     ac_validateNext = (\<lambda>current next.
        case current of
          None \<Rightarrow> Inr ()
        | Some c \<Rightarrow> guardE (sameGrantIdentity (g_identity c) (g_identity next)) (s_err Store_identity_mismatch)),
     ac_archives = False,
     ac_sameIdentity = (\<lambda>left right. sameGrantIdentity (g_identity left) (g_identity right)),
     ac_hash = (\<lambda>_. []),
     ac_terminal = (\<lambda>_. False)\<rparr>"

definition grantStore_get :: "ext \<Rightarrow> bool \<Rightarrow> jsval \<Rightarrow> answer \<Rightarrow> err + grant store_record option" where
  "grantStore_get E closed grantId a =
     bindE (st_canonicalGrantId grantId) (\<lambda>key. store_get (grant_access E) closed key a)"

text \<open>What \<open>compareAndSwap\<close> captures before it touches the adapter: key, expected revision, next value.\<close>

definition grantStore_casInput :: "ext \<Rightarrow> jsval \<Rightarrow> err + (string \<times> int option \<times> grant)" where
  "grantStore_casInput E v =
     bindE (runC (exactRecord v [''grantId'', ''expectedStoreRevision'', ''next''] (s_err Store_input_invalid))) (\<lambda>record.
     bindE (st_canonicalGrantId (fld record ''grantId'')) (\<lambda>grantId.
     bindE (expectedStoreRevision (fld record ''expectedStoreRevision'')) (\<lambda>expected.
     case parseGrant E (fld record ''next'') of
       Inl _ \<Rightarrow> Inl (s_err Store_input_invalid)
     | Inr next \<Rightarrow>
         if gi_grantId (g_identity next) \<noteq> grantId then Inl (s_err Store_key_mismatch)
         else Inr (grantId, expected, next))))"

section \<open>The Operation store\<close>

definition validateNextOperation :: "operation option \<Rightarrow> operation \<Rightarrow> err + unit" where
  "validateNextOperation current next =
     (case current of
        None \<Rightarrow> Inr ()
      | Some c \<Rightarrow>
          if sameOperationIdentity c next \<and> oc_submission (op_common c) \<noteq> None \<and>
             oc_submission (op_common c) \<noteq> oc_submission (op_common next)
          then Inl (s_err Store_identity_mismatch)
          else if oi_userOperationHash (oc_identity (op_common c)) = oi_userOperationHash (oc_identity (op_common next)) \<and>
                  (\<not> sameOperationIdentity c next \<or> oc_lane (op_common c) \<noteq> oc_lane (op_common next))
          then Inl (s_err Store_identity_mismatch)
          else if \<not> sameOperationIdentity c next \<and> occupiesLane (op_state c)
          then Inl (s_err Store_lane_occupied)
          else Inr ())"

definition operation_access :: "ext \<Rightarrow> (operation, operation_store_key) access" where
  "operation_access E = \<lparr>
     ac_version = OAATH_OPERATION_STORE_RECORD_VERSION,
     ac_parse = parseOperation E,
     ac_keyMatches = (\<lambda>x key. operationStoreKeyOf x = key),
     ac_updatedAt = (\<lambda>x. oc_updatedAt (op_common x)),
     ac_validateNext = validateNextOperation,
     ac_archives = True,
     ac_sameIdentity = sameOperationIdentity,
     ac_hash = (\<lambda>x. oi_userOperationHash (oc_identity (op_common x))),
     ac_terminal = (\<lambda>x. \<not> occupiesLane (op_state x))\<rparr>"

definition operationStore_get :: "ext \<Rightarrow> bool \<Rightarrow> jsval \<Rightarrow> answer \<Rightarrow> err + operation store_record option" where
  "operationStore_get E closed v a =
     bindE (parseOperationKey v) (\<lambda>key. store_get (operation_access E) closed key a)"

text \<open>\<open>String(key.lane ?? 0)\<close>: the decimal text of the lane number determines it.\<close>

primrec listLanes :: "ext \<Rightarrow> bool \<Rightarrow> operation_store_scope \<Rightarrow> int set \<Rightarrow> jsval list \<Rightarrow> err + operation store_record list" where
  "listLanes E closed scope seen [] = Inr []"
| "listLanes E closed scope seen (entry # entries) =
     (case bindE (runC (exactRecord entry [''version'', ''storeRevision'', ''updatedAt'', ''value'']
                          (s_err Store_record_invalid))) (\<lambda>envelope.
           parseOperation E (fld envelope ''value'')) of
        Inl _ \<Rightarrow> Inl (s_err Store_record_invalid)
      | Inr x \<Rightarrow>
          (let key = operationStoreKeyOf x; lane = (case sk_lane key of None \<Rightarrow> 0 | Some n \<Rightarrow> n) in
           if sc_grantId key \<noteq> sc_grantId scope \<or> sc_chainId key \<noteq> sc_chainId scope \<or> sc_kind key \<noteq> sc_kind scope
           then Inl (s_err Store_key_mismatch)
           else if lane \<in> seen then Inl (s_err Store_record_invalid)
           else bindE (parseStored (operation_access E) closed entry key) (\<lambda>stored.
                bindE (listLanes E closed scope (insert lane seen) entries) (\<lambda>records.
                Inr (case stored of None \<Rightarrow> records | Some r \<Rightarrow> r # records)))))"

definition operationStore_list ::
    "ext \<Rightarrow> bool \<Rightarrow> bool \<Rightarrow> jsval \<Rightarrow> answer \<Rightarrow> err + operation store_record list" where
  "operationStore_list E closed closed' scopeValue a =
     bindE (parseOperationScope scopeValue) (\<lambda>scope.
     bindE (assertOpen closed) (\<lambda>_.
     case a of
       Rejected \<Rightarrow> Inl (s_err Store_unavailable)
     | Resolved raw \<Rightarrow>
         bindE (runC (captureDenseArray raw (s_err Store_record_invalid))) (\<lambda>entries.
         if length entries > MAX_LISTED_LANES then Inl (s_err Store_record_invalid)
         else listLanes E closed' scope {} entries)))"

text \<open>
  \<open>getExact\<close>: two awaits. \<open>closed\<close>, \<open>closed'\<close> and \<open>closed''\<close> are the store's flag when it starts,
  after the first answer and after the second.
\<close>

definition exactRecordOf ::
    "string \<Rightarrow> operation store_record option \<Rightarrow> operation store_record option \<Rightarrow> err + operation store_record option" where
  "exactRecordOf hash current archived =
     (if archived \<noteq> None \<and>
         (current = None \<or> sr_storeRevision (the archived) \<ge> sr_storeRevision (the current))
      then Inl (s_err Store_record_invalid)
      else if current \<noteq> None \<and> oi_userOperationHash (oc_identity (op_common (sr_value (the current)))) = hash
      then if archived \<noteq> None then Inl (s_err Store_identity_mismatch) else Inr current
      else Inr archived)"

definition getExact ::
    "ext \<Rightarrow> jsval \<Rightarrow> jsval \<Rightarrow> bool \<Rightarrow> answer \<Rightarrow> bool \<Rightarrow> answer \<Rightarrow> bool \<Rightarrow> err + operation store_record option" where
  "getExact E keyValue hashValue closed a closed' a' closed'' =
     bindE (parseOperationKey keyValue) (\<lambda>key.
     bindE (canonicalUserOperationHash hashValue) (\<lambda>hash.
     bindE (store_get (operation_access E) closed key a) (\<lambda>current.
     bindE (assertOpen closed') (\<lambda>_.
     bindE (archivedAnswer (operation_access E) closed'' key hash a') (\<lambda>archived.
     exactRecordOf hash current archived)))))"

definition operationStore_casInput :: "ext \<Rightarrow> jsval \<Rightarrow> err + (operation_store_key \<times> int option \<times> operation)" where
  "operationStore_casInput E v =
     bindE (runC (exactRecord v [''key'', ''expectedStoreRevision'', ''next''] (s_err Store_input_invalid))) (\<lambda>record.
     bindE (parseOperationKey (fld record ''key'')) (\<lambda>key.
     bindE (expectedStoreRevision (fld record ''expectedStoreRevision'')) (\<lambda>expected.
     case parseOperation E (fld record ''next'') of
       Inl _ \<Rightarrow> Inl (s_err Store_input_invalid)
     | Inr next \<Rightarrow>
         if operationStoreKeyOf next \<noteq> key then Inl (s_err Store_key_mismatch)
         else Inr (key, expected, next))))"

section \<open>Envelopes\<close>

text \<open>The object a backend hands back for a record it holds, and the records that parse back from it.\<close>

definition envelope :: "string \<Rightarrow> (ref \<Rightarrow> 'v \<Rightarrow> jsval) \<Rightarrow> 'v store_record \<Rightarrow> jsval" where
  "envelope version literal r = mk_obj []
     [(''version'', JString version), (''storeRevision'', jint (sr_storeRevision r)),
      (''updatedAt'', jint (sr_updatedAt r)), (''value'', literal [PName ''value''] (sr_value r))]"

definition wf_stored :: "('v, 'k) access \<Rightarrow> ('v \<Rightarrow> bool) \<Rightarrow> 'k \<Rightarrow> 'v store_record \<Rightarrow> bool" where
  "wf_stored A valid key r \<longleftrightarrow> valid (sr_value r) \<and> ac_keyMatches A (sr_value r) key \<and>
     int_ok 0 (sr_storeRevision r) \<and> int_ok 0 (sr_updatedAt r) \<and> sr_updatedAt r = ac_updatedAt A (sr_value r)"

lemma exactRecord_run: "map fst kvs = ks \<Longrightarrow> runC (exactRecord (mk_obj p kvs) ks e) = Inr (names kvs)"
  by (simp add: runC_def exactRecord_mk_obj)

lemma parseRead_envelope:
  assumes "wf_stored A valid key r" and "\<And>p. ac_parse A (literal p (sr_value r)) = Inr (sr_value r)"
  shows "parseRead A (envelope (ac_version A) literal r) key = Inr (Some r)"
proof -
  have "runC (exactRecord (envelope (ac_version A) literal r) [''version'', ''storeRevision'', ''updatedAt'', ''value''] e) =
     Inr (names [(''version'', JString (ac_version A)), (''storeRevision'', jint (sr_storeRevision r)),
      (''updatedAt'', jint (sr_updatedAt r)), (''value'', literal [PName ''value''] (sr_value r))])" for e :: err
    unfolding envelope_def by (rule exactRecord_run) auto
  moreover have "envelope (ac_version A) literal r \<noteq> JUndefined" by (simp add: envelope_def mk_obj_def)
  moreover have "int_ok 0 (ac_updatedAt A (sr_value r))" "r = \<lparr>sr_storeRevision = sr_storeRevision r,
      sr_updatedAt = ac_updatedAt A (sr_value r), sr_value = sr_value r\<rparr>"
    using assms(1) by (auto simp: wf_stored_def)
  ultimately show ?thesis
    using assms by (simp add: parseRead_def js_simps wf_stored_def storeRevision_def safeUpdatedAt_def)
qed

lemma parseRead_envelope_value:
  assumes "parseRead A (envelope version literal r) key = Inr c" and "wf_stored A valid key r"
    and "\<And>p y. ac_parse A (literal p (sr_value r)) = Inr y \<Longrightarrow> y = sr_value r"
  shows "c = Some r"
proof -
  have "runC (exactRecord (envelope version literal r) [''version'', ''storeRevision'', ''updatedAt'', ''value''] e) =
     Inr (names [(''version'', JString version), (''storeRevision'', jint (sr_storeRevision r)),
      (''updatedAt'', jint (sr_updatedAt r)), (''value'', literal [PName ''value''] (sr_value r))])" for e :: err
    unfolding envelope_def by (rule exactRecord_run) auto
  moreover have "envelope version literal r \<noteq> JUndefined" by (simp add: envelope_def mk_obj_def)
  ultimately show ?thesis
    using assms by (auto simp: parseRead_def js_simps wf_stored_def storeRevision_def safeUpdatedAt_def bindE_Inr
        split: if_splits sum.splits)
qed

lemma parseRead_sound:
  assumes "parseRead A raw key = Inr (Some r)" and "\<And>v x. ac_parse A v = Inr x \<Longrightarrow> valid x"
  shows "wf_stored A valid key r"
  using assms by (auto simp: parseRead_def wf_stored_def storeRevision_def safeUpdatedAt_def bindE_Inr
      split: if_splits sum.splits)

lemma parse_operation_literal: "ext_ok E \<Longrightarrow> wf_operation x \<Longrightarrow> parseOperation E (operation_literal p x) = Inr x"
  unfolding parseOperation_def by (rule operation_codec.parse_literal)

lemma nextStoreRevision_Inr:
  "nextStoreRevision e = Inr n \<longleftrightarrow> e \<noteq> Some MAX_SAFE_INTEGER \<and> n = (case e of None \<Rightarrow> 0 | Some m \<Rightarrow> m + 1)"
  by (auto simp: nextStoreRevision_def)

lemma expectedStoreRevision_sound: "expectedStoreRevision v = Inr e \<Longrightarrow> pred_option (int_ok 0) e"
  unfolding expectedStoreRevision_def by (erule nullable_int_sound) simp

lemma sameStoreRecord_iff: "sameStoreRecord c r \<longleftrightarrow> c = Some r"
  by (cases c) (auto simp: sameStoreRecord_def)

lemma grantStore_casInput_InrE:
  assumes "grantStore_casInput E v = Inr (k, e, g)"
  obtains w u where "parseGrant E w = Inr g" "expectedStoreRevision u = Inr e" "gi_grantId (g_identity g) = k"
  using assms unfolding grantStore_casInput_def by (elim bindE_InrE) (simp split: sum.splits if_splits)

lemma operationStore_casInput_InrE:
  assumes "operationStore_casInput E v = Inr (k, e, x)"
  obtains w u where "parseOperation E w = Inr x" "expectedStoreRevision u = Inr e" "operationStoreKeyOf x = k"
  using assms unfolding operationStore_casInput_def by (elim bindE_InrE) (simp split: sum.splits if_splits)

end
