(* ===== verification/Store_Concurrency.thy ===== *)
theory Store_Concurrency
  imports Store
begin

text \<open>
  Compare-and-swap calls in flight together, over one adapter. A schedule is a list of events: a call
  starts, the adapter serves the request a call has issued (one atomic action of the backend), a call
  resumes with its answer, the adapter is closed. Every interleaving of any number of calls, from any
  number of store objects, is a schedule; the flag of \<open>Start\<close> and \<open>Resume\<close> is the \<open>#closed\<close> of the
  store object the call belongs to at that moment.

  The locale \<open>journal\<close> is the contract between a store and its backend: what \<open>get\<close>, \<open>getArchived\<close>
  and \<open>compareAndSwap\<close> of an adapter promise (a rejected swap may or may not have taken effect), and
  what the aggregate's parser and successor check promise. Its lemmas show that under every schedule the
  content of each key is the last entry of a log in which revision \<open>n\<close> is the \<open>n\<close>-th entry and every
  entry was validated against its predecessor. Its extension \<open>live_journal\<close> adds what a backend that is up
  promises, and \<open>atomic_backend\<close> is the contract under which a failed call leaves no trace.
\<close>

section \<open>Schedules\<close>

datatype event = Start nat bool jsval | Serve nat | Resume nat bool | CloseAdapter

record ('s, 'k, 'v) world =
  w_adapter :: 's
  w_calls :: "nat \<Rightarrow> (('k, 'v) cas_call \<times> answer option) option"

type_synonym ('s, 'k, 'v) backend = "'s \<Rightarrow> ('k, 'v) request \<Rightarrow> answer \<times> 's"

definition startCall ::
    "('v, 'k) access \<Rightarrow> (jsval \<Rightarrow> err + ('k \<times> int option \<times> 'v)) \<Rightarrow> nat \<Rightarrow> bool \<Rightarrow> jsval \<Rightarrow> ('s, 'k, 'v) world \<Rightarrow> ('s, 'k, 'v) world" where
  "startCall A input i closed v w =
     (if w_calls w i \<noteq> None then w
      else case input v of
        Inl _ \<Rightarrow> w
      | Inr (k, e, x) \<Rightarrow>
          w\<lparr>w_calls := (w_calls w)(i \<mapsto>
             (\<lparr>cc_key = k, cc_expected = e, cc_next = x, cc_phase = beginCas A closed\<rparr>, None))\<rparr>)"

definition requestOf :: "('v, 'k) access \<Rightarrow> ('k, 'v) cas_call \<Rightarrow> ('k, 'v) request option" where
  "requestOf A call = casRequest A (cc_key call) (cc_expected call) (cc_next call) (cc_phase call)"

definition serveCall ::
    "('v, 'k) access \<Rightarrow> ('s, 'k, 'v) backend \<Rightarrow> nat \<Rightarrow> ('s, 'k, 'v) world \<Rightarrow> ('s, 'k, 'v) world" where
  "serveCall A serve i w =
     (case w_calls w i of
        Some (call, None) \<Rightarrow>
          (case requestOf A call of
             None \<Rightarrow> w
           | Some req \<Rightarrow>
               (case serve (w_adapter w) req of (a, s) \<Rightarrow>
                  w\<lparr>w_adapter := s, w_calls := (w_calls w)(i \<mapsto> (call, Some a))\<rparr>))
      | _ \<Rightarrow> w)"

definition resumeCall ::
    "('v, 'k) access \<Rightarrow> nat \<Rightarrow> bool \<Rightarrow> ('s, 'k, 'v) world \<Rightarrow> ('s, 'k, 'v) world" where
  "resumeCall A i closed w =
     (case w_calls w i of
        Some (call, Some a) \<Rightarrow>
          w\<lparr>w_calls := (w_calls w)(i \<mapsto> (call\<lparr>cc_phase := resumeCas A closed call a\<rparr>, None))\<rparr>
      | _ \<Rightarrow> w)"

fun runEvent ::
    "('v, 'k) access \<Rightarrow> (jsval \<Rightarrow> err + ('k \<times> int option \<times> 'v)) \<Rightarrow> ('s, 'k, 'v) backend \<Rightarrow> ('s \<Rightarrow> 's) \<Rightarrow> event \<Rightarrow>
     ('s, 'k, 'v) world \<Rightarrow> ('s, 'k, 'v) world" where
  "runEvent A input serve shut (Start i closed v) w = startCall A input i closed v w"
| "runEvent A input serve shut (Serve i) w = serveCall A serve i w"
| "runEvent A input serve shut (Resume i closed) w = resumeCall A i closed w"
| "runEvent A input serve shut CloseAdapter w = w\<lparr>w_adapter := shut (w_adapter w)\<rparr>"

definition runSchedule ::
    "('v, 'k) access \<Rightarrow> (jsval \<Rightarrow> err + ('k \<times> int option \<times> 'v)) \<Rightarrow> ('s, 'k, 'v) backend \<Rightarrow> ('s \<Rightarrow> 's) \<Rightarrow> event list \<Rightarrow>
     ('s, 'k, 'v) world \<Rightarrow> ('s, 'k, 'v) world" where
  "runSchedule A input serve shut es w = fold (runEvent A input serve shut) es w"

definition emptyWorld :: "'s \<Rightarrow> ('s, 'k, 'v) world" where
  "emptyWorld s = \<lparr>w_adapter = s, w_calls = (\<lambda>_. None)\<rparr>"

definition outcome :: "('s, 'k, 'v) world \<Rightarrow> nat \<Rightarrow> (err + 'v cas_result) option" where
  "outcome w i =
     (case w_calls w i of Some (call, _) \<Rightarrow> (case cc_phase call of Settled r \<Rightarrow> Some r | _ \<Rightarrow> None) | None \<Rightarrow> None)"

definition committed_by :: "('s, 'k, 'v) world \<Rightarrow> nat \<Rightarrow> 'k \<Rightarrow> 'v store_record \<Rightarrow> bool" where
  "committed_by w i k r \<longleftrightarrow>
     (\<exists>call pending. w_calls w i = Some (call, pending) \<and> cc_key call = k \<and> cc_phase call = Settled (Inr (Committed r)))"

section \<open>Calls without effect\<close>

text \<open>
  A backend whose state changes only in a swap it answers with \<open>true\<close>. Over such a backend a call that ends
  otherwise than with a commit, or with the report that its commit could not be verified, leaves no trace: the
  schedule without its events leads to the same backend and the same other calls.
\<close>

fun event_call :: "event \<Rightarrow> nat option" where
  "event_call (Start i _ _) = Some i"
| "event_call (Serve i) = Some i"
| "event_call (Resume i _) = Some i"
| "event_call CloseAdapter = None"

fun took_effect :: "'v cas_phase \<Rightarrow> answer option \<Rightarrow> bool" where
  "took_effect (AwaitSwap _ _) pending \<longleftrightarrow> pending = Some (Resolved (JBool True))"
| "took_effect (AwaitRetained swapped _ _) _ \<longleftrightarrow> swapped"
| "took_effect (AwaitArchive _ _ _ _) _ \<longleftrightarrow> True"
| "took_effect (Settled (Inr (Committed _))) _ \<longleftrightarrow> True"
| "took_effect (Settled (Inl e)) _ \<longleftrightarrow> e = s_err Store_commit_unverified"
| "took_effect _ _ \<longleftrightarrow> False"

lemma took_effect_settled:
  "took_effect (Settled res) pending \<longleftrightarrow> res = Inl (s_err Store_commit_unverified) \<or> (\<exists>r. res = Inr (Committed r))"
  by (cases "(Settled res, pending)" rule: took_effect.cases) auto

lemma took_effect_served: "took_effect ph None \<Longrightarrow> took_effect ph (Some a)"
  by (cases ph) (auto simp: took_effect_settled)

lemma took_effect_resume:
  "took_effect (cc_phase call) (Some a) \<Longrightarrow> took_effect (resumeCas A closed call a) None"
  by (cases "cc_phase call")
    (auto simp: resumeCas_def afterSwap_def afterRetained_def afterArchive_def took_effect_settled split: sum.split option.split)

locale atomic_backend =
  fixes serve :: "('s, 'k, 'v) backend"
  assumes serve_changes: "serve s req = (a, s') \<Longrightarrow> s' = s \<or>
    a = Resolved (JBool True) \<and> (\<exists>k e n h ar. req = ReqSwap k e n h ar)"
begin

definition apart :: "nat \<Rightarrow> ('s, 'k, 'v) world \<Rightarrow> ('s, 'k, 'v) world \<Rightarrow> bool" where
  "apart i w w' \<longleftrightarrow> w_adapter w = w_adapter w' \<and> w_calls w' = (w_calls w)(i := None)"

definition effective :: "nat \<Rightarrow> ('s, 'k, 'v) world \<Rightarrow> bool" where
  "effective i w \<longleftrightarrow> (\<exists>call pending. w_calls w i = Some (call, pending) \<and> took_effect (cc_phase call) pending)"

lemma effective_stays: "effective i w \<Longrightarrow> effective i (runEvent A input serve shut e w)"
  by (cases e) (auto simp: effective_def startCall_def serveCall_def resumeCall_def took_effect_resume took_effect_served
      split: option.splits sum.splits prod.splits)

lemma other_event: "event_call e \<noteq> Some i \<Longrightarrow> apart i w w' \<Longrightarrow>
   apart i (runEvent A input serve shut e w) (runEvent A input serve shut e w')"
  by (cases e) (auto simp: apart_def startCall_def serveCall_def resumeCall_def fun_upd_twist
      split: option.split sum.split prod.split)

lemma served_apart:
  assumes "apart i w w'"
  shows "apart i (serveCall A serve i w) w' \<or> effective i (serveCall A serve i w)"
proof (cases "\<exists>call req. w_calls w i = Some (call, None) \<and> requestOf A call = Some req")
  case True
  then obtain call req a s where c: "w_calls w i = Some (call, None)" "requestOf A call = Some req"
    "serve (w_adapter w) req = (a, s)" by (metis surj_pair)
  then have run: "serveCall A serve i w = w\<lparr>w_adapter := s, w_calls := (w_calls w)(i \<mapsto> (call, Some a))\<rparr>"
    by (simp add: serveCall_def)
  from serve_changes [OF c(3)] show ?thesis
  proof
    assume "s = w_adapter w"
    with assms show ?thesis by (simp add: run apart_def)
  next
    assume "a = Resolved (JBool True) \<and> (\<exists>k e n h ar. req = ReqSwap k e n h ar)"
    with c(2) show ?thesis by (cases "cc_phase call") (auto simp: run effective_def requestOf_def)
  qed
next
  case False
  then have "serveCall A serve i w = w" by (auto simp: serveCall_def split: option.split)
  with assms show ?thesis by simp
qed

lemma own_event:
  assumes "event_call e = Some i" "apart i w w'"
  shows "apart i (runEvent A input serve shut e w) w' \<or> effective i (runEvent A input serve shut e w)"
proof (cases e)
  case (Serve j)
  with assms served_apart [OF assms(2)] show ?thesis by simp
qed (use assms in \<open>auto simp: apart_def startCall_def resumeCall_def split: option.split sum.split\<close>)

theorem without_call:
  "apart i w w' \<or> effective i w \<Longrightarrow>
   apart i (runSchedule A input serve shut es w) (runSchedule A input serve shut (filter (\<lambda>e. event_call e \<noteq> Some i) es) w') \<or>
   effective i (runSchedule A input serve shut es w)"
proof (induction es arbitrary: w w')
  case (Cons e es)
  show ?case
  proof (cases "event_call e = Some i")
    case True
    with Cons.prems own_event [OF True] effective_stays
    have "apart i (runEvent A input serve shut e w) w' \<or> effective i (runEvent A input serve shut e w)" by blast
    from Cons.IH [OF this] True show ?thesis by (simp add: runSchedule_def)
  next
    case False
    with Cons.prems other_event [OF False] effective_stays
    have "apart i (runEvent A input serve shut e w) (runEvent A input serve shut e w') \<or>
        effective i (runEvent A input serve shut e w)" by blast
    from Cons.IH [OF this] False show ?thesis by (simp add: runSchedule_def)
  qed
qed (simp add: runSchedule_def)

lemma failed_call_apart:
  assumes "outcome (runSchedule A input serve shut es (emptyWorld s)) i = Some res"
    and "\<And>r. res \<noteq> Inr (Committed r)" "res \<noteq> Inl (s_err Store_commit_unverified)"
  shows "apart i (runSchedule A input serve shut es (emptyWorld s))
    (runSchedule A input serve shut (filter (\<lambda>e. event_call e \<noteq> Some i) es) (emptyWorld s))"
proof -
  have "apart i (emptyWorld s) (emptyWorld s)" by (simp add: apart_def emptyWorld_def fun_eq_iff)
  moreover have "\<not> took_effect (Settled res) pending" for pending
    using assms(2,3) by (simp add: took_effect_settled)
  then have "\<not> effective i (runSchedule A input serve shut es (emptyWorld s))"
    using assms(1) by (auto simp: effective_def outcome_def split: cas_phase.splits)
  ultimately show ?thesis using without_call by blast
qed

end

section \<open>The contract of a journal\<close>

definition shown :: "('v store_record \<Rightarrow> jsval) \<Rightarrow> 'v store_record option \<Rightarrow> jsval" where
  "shown show_record c = (case c of None \<Rightarrow> JUndefined | Some r \<Rightarrow> show_record r)"

text \<open>
  The log of a key: entry \<open>n\<close> has revision \<open>n\<close>, is a well-formed record of the key, and was accepted by
  the successor check against entry \<open>n - 1\<close>.
\<close>

definition log_ok :: "('v, 'k) access \<Rightarrow> ('v \<Rightarrow> bool) \<Rightarrow> 'k \<Rightarrow> 'v store_record list \<Rightarrow> bool" where
  "log_ok A valid k rs \<longleftrightarrow>
     (\<forall>i < length rs. sr_storeRevision (rs ! i) = int i \<and> wf_stored A valid k (rs ! i)) \<and>
     successively (\<lambda>r r'. ac_validateNext A (Some (sr_value r)) (sr_value r') = Inr ()) rs"

definition last_of :: "'a list \<Rightarrow> 'a option" where
  "last_of rs = (if rs = [] then None else Some (last rs))"

lemma last_of_simps [simp]: "last_of [] = None" "last_of (rs @ [r]) = Some r"
  by (simp_all add: last_of_def)

lemma last_of_Some: "last_of rs = Some r \<longleftrightarrow> rs \<noteq> [] \<and> last rs = r"
  by (auto simp: last_of_def)

lemma log_ok_revision: "log_ok A valid k rs \<Longrightarrow> r \<in> set rs \<Longrightarrow>
   0 \<le> sr_storeRevision r \<and> nat (sr_storeRevision r) < length rs \<and> rs ! nat (sr_storeRevision r) = r"
  by (auto simp: log_ok_def in_set_conv_nth)

lemma log_ok_wf: "log_ok A valid k rs \<Longrightarrow> r \<in> set rs \<Longrightarrow> wf_stored A valid k r"
  by (auto simp: log_ok_def in_set_conv_nth)

lemma log_ok_last:
  assumes "log_ok A valid k rs" "r \<in> set rs"
  shows "sr_storeRevision r \<le> sr_storeRevision (last rs)"
    and "sr_storeRevision r = sr_storeRevision (last rs) \<Longrightarrow> r = last rs"
proof -
  obtain i where i: "i < length rs" "r = rs ! i" using assms(2) by (auto simp: in_set_conv_nth)
  then have ne: "rs \<noteq> []" by auto
  from i ne have rev: "sr_storeRevision r = int i" and l: "last rs = rs ! (length rs - 1)"
    "sr_storeRevision (last rs) = int (length rs - 1)"
    using assms(1) by (auto simp: log_ok_def last_conv_nth of_nat_diff Suc_le_eq)
  show "sr_storeRevision r \<le> sr_storeRevision (last rs)" using i rev l(2) by simp
  assume "sr_storeRevision r = sr_storeRevision (last rs)"
  then have "i = length rs - 1" using rev l(2) by simp
  then show "r = last rs" using i l(1) by simp
qed

lemma log_ok_snoc:
  assumes "log_ok A valid k rs" and "sr_storeRevision r = int (length rs)" and "wf_stored A valid k r"
    and "rs \<noteq> [] \<Longrightarrow> ac_validateNext A (Some (sr_value (last rs))) (sr_value r) = Inr ()"
  shows "log_ok A valid k (rs @ [r])"
  using assms by (auto simp: log_ok_def nth_append less_Suc_eq successively_append_iff)

lemma archiveFor_archives: "archiveFor A c n \<noteq> None \<Longrightarrow> ac_archives A"
  by (auto simp: archiveFor_def split: option.splits if_splits)

locale journal =
  fixes A :: "('v, 'k) access"
    and input :: "jsval \<Rightarrow> err + ('k \<times> int option \<times> 'v)"
    and serve :: "'s \<Rightarrow> ('k, 'v) request \<Rightarrow> answer \<times> 's"
    and shut :: "'s \<Rightarrow> 's"
    and cur :: "'s \<Rightarrow> 'k \<Rightarrow> 'v store_record option"
    and arch :: "'s \<Rightarrow> 'k \<Rightarrow> string \<Rightarrow> 'v store_record option"
    and key_ok :: "'k \<Rightarrow> bool"
    and valid :: "'v \<Rightarrow> bool"
    and show_record :: "'v store_record \<Rightarrow> jsval"
  assumes input_valid:
      "input v = Inr (k, e, x) \<Longrightarrow> key_ok k \<and> valid x \<and> ac_keyMatches A x k \<and> pred_option (int_ok 0) e"
    and updatedAt_ok: "valid x \<Longrightarrow> int_ok 0 (ac_updatedAt A x)"
    and parse_shown: "wf_stored A valid k r \<Longrightarrow> parseRead A (show_record r) k = Inr c \<Longrightarrow> c = Some r"
    and serve_get: "key_ok k \<Longrightarrow> serve s (ReqGet k) = (a, s') \<Longrightarrow>
      s' = s \<and> (a = Rejected \<or> a = Resolved (shown show_record (cur s k)))"
    and serve_archived: "key_ok k \<Longrightarrow> serve s (ReqArchived k h) = (a, s') \<Longrightarrow>
      s' = s \<and> (a = Rejected \<or> a = Resolved (shown show_record (arch s k h)))"
    and serve_swap: "key_ok k \<Longrightarrow> (ar \<noteq> None \<Longrightarrow> ac_archives A) \<Longrightarrow> serve s (ReqSwap k e n h ar) = (a, s') \<Longrightarrow>
      (a \<noteq> Resolved (JBool True) \<and> cur s' = cur s \<and> arch s' = arch s) \<or>
      ((a = Rejected \<or> a = Resolved (JBool True)) \<and> revisionMatches (cur s k) e \<and>
       (ac_archives A \<longrightarrow> arch s k h = None) \<and> cur s' = (cur s)(k \<mapsto> n) \<and>
       (case ar of
          None \<Rightarrow> arch s' = arch s
        | Some (h', r) \<Rightarrow> h' \<noteq> h \<and> cur s k = Some r \<and> arch s k h' = None \<and>
            arch s' = (arch s)(k := (arch s k)(h' \<mapsto> r))))"
    and shut_keeps: "cur (shut s) = cur s" "arch (shut s) = arch s"
    and successor: "ac_archives A \<Longrightarrow> ac_validateNext A (Some x) y = Inr () \<Longrightarrow> \<not> ac_sameIdentity A x y \<Longrightarrow>
      ac_terminal A x \<and> ac_hash A x \<noteq> ac_hash A y"
    and same_hash: "ac_sameIdentity A x y \<Longrightarrow> ac_hash A x = ac_hash A y"
begin

text \<open>
  The state of the backend against the logs \<open>L\<close>: the content of a key is the last entry of its log, and
  the archive holds, for every hash that has left the key, the last entry that had it.
\<close>

definition backed_at ::
    "'k \<Rightarrow> 'v store_record option \<Rightarrow> (string \<Rightarrow> 'v store_record option) \<Rightarrow> 'v store_record list \<Rightarrow> bool" where
  "backed_at k c archive rs \<longleftrightarrow> log_ok A valid k rs \<and> c = last_of rs \<and>
     (\<forall>h r. archive h = Some r \<longrightarrow> ac_archives A \<and> r \<in> set rs \<and> ac_hash A (sr_value r) = h \<and>
        ac_terminal A (sr_value r) \<and> ac_hash A (sr_value (last rs)) \<noteq> h) \<and>
     (ac_archives A \<longrightarrow> (\<forall>r \<in> set rs. ac_hash A (sr_value r) = ac_hash A (sr_value (last rs)) \<or>
        (\<exists>r'. archive (ac_hash A (sr_value r)) = Some r' \<and> sr_storeRevision r \<le> sr_storeRevision r')))"

definition backed :: "'s \<Rightarrow> ('k \<Rightarrow> 'v store_record list) \<Rightarrow> bool" where
  "backed s L \<longleftrightarrow> (\<forall>k. backed_at k (cur s k) (arch s k) (L k))"

lemma backed_log: "backed s L \<Longrightarrow> log_ok A valid k (L k)" "backed s L \<Longrightarrow> cur s k = last_of (L k)"
  by (auto simp: backed_def backed_at_def)

definition next_of :: "('k, 'v) cas_call \<Rightarrow> 'v store_record \<Rightarrow> bool" where
  "next_of call n \<longleftrightarrow> sr_value n = cc_next call \<and> sr_updatedAt n = ac_updatedAt A (cc_next call) \<and>
     nextStoreRevision (cc_expected call) = Inr (sr_storeRevision n)"

definition read_ok :: "('k \<Rightarrow> 'v store_record list) \<Rightarrow> 'k \<Rightarrow> answer \<Rightarrow> bool" where
  "read_ok L k a \<longleftrightarrow> a = Rejected \<or> (\<exists>c. a = Resolved (shown show_record c) \<and> set_option c \<subseteq> set (L k))"

definition call_ok :: "('k \<Rightarrow> 'v store_record list) \<Rightarrow> ('k, 'v) cas_call \<Rightarrow> answer option \<Rightarrow> bool" where
  "call_ok L call pending \<longleftrightarrow>
     key_ok (cc_key call) \<and> valid (cc_next call) \<and> ac_keyMatches A (cc_next call) (cc_key call) \<and> pred_option (int_ok 0) (cc_expected call) \<and>
     (case cc_phase call of
        AwaitHistory \<Rightarrow> True
      | AwaitRead \<Rightarrow> pred_option (read_ok L (cc_key call)) pending
      | AwaitSwap n c \<Rightarrow> next_of call n \<and> revisionMatches c (cc_expected call) \<and> set_option c \<subseteq> set (L (cc_key call)) \<and>
          ac_validateNext A (map_option sr_value c) (cc_next call) = Inr () \<and>
          (pending = Some (Resolved (JBool True)) \<longrightarrow> n \<in> set (L (cc_key call)))
      | AwaitRetained swapped n c \<Rightarrow> next_of call n \<and> (swapped \<longrightarrow> n \<in> set (L (cc_key call))) \<and>
          pred_option (read_ok L (cc_key call)) pending
      | AwaitArchive n c r h \<Rightarrow> next_of call n \<and> r = n \<and> n \<in> set (L (cc_key call))
      | Settled (Inr (Committed r)) \<Rightarrow> next_of call r \<and> r \<in> set (L (cc_key call))
      | Settled (Inr (Conflict c)) \<Rightarrow> set_option c \<subseteq> set (L (cc_key call))
      | Settled (Inl _) \<Rightarrow> True)"

lemma call_ok_mono: "call_ok L call pending \<Longrightarrow> (\<And>k. set (L k) \<subseteq> set (L' k)) \<Longrightarrow> call_ok L' call pending"
  unfolding call_ok_def read_ok_def
  by (cases "cc_phase call") (fastforce split: sum.splits cas_result.splits elim: option.pred_mono_strong)+

lemma readAnswer_read_ok:
  assumes "backed s L" "read_ok L k a" "readAnswer A k a = Inr c"
  shows "set_option c \<subseteq> set (L k)"
proof -
  from assms(2,3) obtain c' where c': "a = Resolved (shown show_record c')" "set_option c' \<subseteq> set (L k)"
    by (auto simp: read_ok_def readAnswer_def)
  show ?thesis
  proof (cases c')
    case None
    with c' assms(3) show ?thesis by (simp add: readAnswer_def shown_def parseRead_def)
  next
    case (Some r)
    with c'(2) assms(1) have "wf_stored A valid k r" by (auto intro: log_ok_wf backed_log)
    with c' Some assms(3) parse_shown [of k r c] show ?thesis by (auto simp: readAnswer_def shown_def split: sum.splits)
  qed
qed

lemma resume_call_ok:
  assumes "backed s L" "call_ok L call (Some a)"
  shows "call_ok L (call\<lparr>cc_phase := resumeCas A closed call a\<rparr>) None"
proof (cases "cc_phase call")
  case AwaitHistory
  with assms(2) show ?thesis
    by (auto simp: call_ok_def resumeCas_def afterHistory_def split: sum.split option.split)
next
  case AwaitRead
  with assms(2) readAnswer_read_ok [OF assms(1), of "cc_key call" a] show ?thesis
    by (auto simp: call_ok_def resumeCas_def afterRead_def next_of_def bindE_def split: sum.split)
next
  case (AwaitSwap n c)
  with assms(2) show ?thesis
    by (auto simp: call_ok_def resumeCas_def afterSwap_def next_of_def split: answer.split jsval.split)
next
  case (AwaitRetained swapped n c)
  with assms(2) readAnswer_read_ok [OF assms(1), of "cc_key call" a] show ?thesis
    by (auto simp: call_ok_def resumeCas_def afterRetained_def next_of_def sameStoreRecord_iff split: sum.split option.split)
next
  case (AwaitArchive n c r h)
  with assms(2) show ?thesis
    by (auto simp: call_ok_def resumeCas_def afterArchive_def next_of_def)
next
  case (Settled r)
  with assms(2) show ?thesis by (simp add: call_ok_def resumeCas_def next_of_def split: sum.splits cas_result.splits)
qed

end
context journal
begin

lemma swap_current:
  assumes "backed s L" "call_ok L call None" "cc_phase call = AwaitSwap n c"
    and "revisionMatches (cur s (cc_key call)) (cc_expected call)"
  shows "c = last_of (L (cc_key call))" and "sr_storeRevision n = int (length (L (cc_key call)))"
    and "wf_stored A valid (cc_key call) n"
proof -
  let ?rs = "L (cc_key call)"
  from assms(2,3) have call: "next_of call n" "revisionMatches c (cc_expected call)" "set_option c \<subseteq> set ?rs"
    "valid (cc_next call)" "ac_keyMatches A (cc_next call) (cc_key call)" "pred_option (int_ok 0) (cc_expected call)"
    by (auto simp: call_ok_def)
  from assms(1) have rs: "log_ok A valid (cc_key call) ?rs" "cur s (cc_key call) = last_of ?rs"
    by (auto intro: backed_log)
  show c: "c = last_of ?rs"
  proof (cases "cc_expected call")
    case None
    with call(2) assms(4) rs(2) show ?thesis by (simp add: revisionMatches_def)
  next
    case (Some m)
    with call(2,3) assms(4) rs(2) log_ok_last(2) [OF rs(1)] show ?thesis
      by (auto simp: revisionMatches_def last_of_def split: if_splits)
  qed
  show rev: "sr_storeRevision n = int (length ?rs)"
  proof (cases "cc_expected call")
    case None
    with call(1) assms(4) rs(2) show ?thesis
      by (simp add: revisionMatches_def next_of_def nextStoreRevision_Inr last_of_def split: if_splits)
  next
    case (Some m)
    then have "?rs \<noteq> []" "sr_storeRevision (last ?rs) = m"
      using assms(4) rs(2) by (auto simp: revisionMatches_def last_of_def split: if_splits)
    moreover from this rs(1) have "sr_storeRevision (last ?rs) = int (length ?rs - 1)"
      by (simp add: log_ok_def last_conv_nth)
    ultimately show ?thesis
      using call(1) Some by (auto simp: next_of_def nextStoreRevision_Inr of_nat_diff Suc_le_eq)
  qed
  have "int_ok 0 (sr_storeRevision n)"
    using call(1,6) by (cases "cc_expected call") (auto simp: next_of_def nextStoreRevision_Inr int_ok_def MAX_SAFE_INTEGER_def)
  then show "wf_stored A valid (cc_key call) n"
    using call updatedAt_ok by (auto simp: wf_stored_def next_of_def)
qed

lemma backed_at_snoc:
  assumes "backed_at k (last_of rs) archive rs" "log_ok A valid k (rs @ [n])"
    and "rs \<noteq> [] \<Longrightarrow> ac_archives A \<Longrightarrow> ac_hash A (sr_value (last rs)) = ac_hash A (sr_value n)"
    and "ac_archives A \<Longrightarrow> archive (ac_hash A (sr_value n)) = None"
  shows "backed_at k (Some n) archive (rs @ [n])"
  using assms by (cases "rs = []") (auto simp: backed_at_def last_of_def)

lemma backed_at_replaced:
  assumes "backed_at k (last_of rs) archive rs" "log_ok A valid k (rs @ [n])" "rs \<noteq> []" "ac_archives A"
    and "ac_terminal A (sr_value (last rs))" "ac_hash A (sr_value (last rs)) \<noteq> ac_hash A (sr_value n)"
    and "archive (ac_hash A (sr_value n)) = None"
  shows "backed_at k (Some n) (archive(ac_hash A (sr_value (last rs)) \<mapsto> last rs)) (rs @ [n])"
proof -
  have "log_ok A valid k rs" using assms(1) by (simp add: backed_at_def)
  from log_ok_last(1) [OF this] assms show ?thesis
    unfolding backed_at_def by (auto simp: last_of_def)
qed

text \<open>
  A log grows only by the swap of a call: the entry is the call's next record, the call expected the revision
  that is last, the successor check has accepted it there, and if its hash has occurred before, the last
  entry has it.
\<close>

definition grown_by :: "('k \<Rightarrow> 'v store_record list) \<Rightarrow> ('k, 'v) cas_call \<Rightarrow> 'v store_record \<Rightarrow> bool" where
  "grown_by L call n \<longleftrightarrow> next_of call n \<and>
     revisionMatches (last_of (L (cc_key call))) (cc_expected call) \<and>
     ac_validateNext A (map_option sr_value (last_of (L (cc_key call)))) (cc_next call) = Inr () \<and>
     (ac_archives A \<longrightarrow> (\<forall>r \<in> set (L (cc_key call)). ac_hash A (sr_value r) = ac_hash A (cc_next call) \<longrightarrow>
        ac_hash A (sr_value (last (L (cc_key call)))) = ac_hash A (cc_next call)))"

lemma swap_step:
  assumes "backed s L" "call_ok L call None" "cc_phase call = AwaitSwap n c"
    and "requestOf A call = Some req" "serve s req = (a, s')"
  obtains "a \<noteq> Resolved (JBool True)" "backed s' L"
  | "backed s' (L(cc_key call := L (cc_key call) @ [n]))" "sr_storeRevision n = int (length (L (cc_key call)))"
    "grown_by L call n"
proof -
  let ?k = "cc_key call" and ?rs = "L (cc_key call)"
  have req: "req = ReqSwap ?k (cc_expected call) n (ac_hash A (sr_value n)) (archiveFor A c n)"
    using assms(3,4) by (simp add: requestOf_def)
  consider "a \<noteq> Resolved (JBool True)" "cur s' = cur s" "arch s' = arch s"
    | "revisionMatches (cur s ?k) (cc_expected call)" "ac_archives A \<longrightarrow> arch s ?k (ac_hash A (sr_value n)) = None"
      "cur s' = (cur s)(?k \<mapsto> n)"
      "case archiveFor A c n of
          None \<Rightarrow> arch s' = arch s
        | Some (h', r) \<Rightarrow> h' \<noteq> ac_hash A (sr_value n) \<and> cur s ?k = Some r \<and> arch s ?k h' = None \<and>
            arch s' = (arch s)(?k := (arch s ?k)(h' \<mapsto> r))"
    using serve_swap [OF _ archiveFor_archives [of A c n] assms(5) [unfolded req]] assms(2) unfolding call_ok_def by blast
  then show thesis
  proof cases
    case 1
    with assms(1) have "backed s' L" by (simp add: backed_def)
    with 1 that(1) show thesis by blast
  next
    case 2
    note c = swap_current [OF assms(1-3) 2(1)]
    from assms(1) have log: "log_ok A valid ?k ?rs" by (rule backed_log)
    have next_value: "sr_value n = cc_next call"
      and valid_next: "ac_validateNext A (map_option sr_value c) (cc_next call) = Inr ()"
      using assms(2,3) by (auto simp: call_ok_def next_of_def)
    have log': "log_ok A valid ?k (?rs @ [n])"
      using c valid_next next_value by (intro log_ok_snoc [OF log]) (auto simp: last_of_def)
    have at: "backed_at ?k (last_of ?rs) (arch s ?k) ?rs"
      using assms(1) backed_log(2) [OF assms(1), of ?k] by (metis backed_def)
    have "backed_at ?k (Some n) (arch s' ?k) (?rs @ [n]) \<and> (\<forall>k. k \<noteq> ?k \<longrightarrow> arch s' k = arch s k)"
    proof (cases "archiveFor A c n")
      case None
      then have "?rs \<noteq> [] \<Longrightarrow> ac_archives A \<Longrightarrow> ac_hash A (sr_value (last ?rs)) = ac_hash A (sr_value n)"
        using c(1) same_hash by (auto simp: archiveFor_def last_of_def split: if_splits)
      with None 2(2,4) backed_at_snoc [OF at log'] show ?thesis by simp
    next
      case (Some p)
      then have ne: "?rs \<noteq> []" "ac_archives A" and p: "p = (ac_hash A (sr_value (last ?rs)), last ?rs)"
        and "\<not> ac_sameIdentity A (sr_value (last ?rs)) (sr_value n)"
        using c(1) by (auto simp: archiveFor_def last_of_def split: if_splits)
      with successor [OF ne(2), of "sr_value (last ?rs)" "sr_value n"] valid_next c(1)
      have "ac_terminal A (sr_value (last ?rs))" "ac_hash A (sr_value (last ?rs)) \<noteq> ac_hash A (sr_value n)"
        by (auto simp: next_value last_of_def)
      with 2(2,4) Some p ne backed_at_replaced [OF at log' ne] show ?thesis by simp
    qed
    then have "backed s' (L(?k := ?rs @ [n]))"
      using assms(1) 2(3) unfolding backed_def by (auto simp: fun_upd_def)
    moreover have "grown_by L call n"
      using assms(2,3) 2(1,2) c(1) valid_next next_value at backed_log(2) [OF assms(1), of ?k]
      unfolding grown_by_def backed_at_def by (fastforce simp: call_ok_def)
    ultimately show thesis using that(2) c(2) by blast
  qed
qed

text \<open>The revision a call has won: its swap has taken effect and was answered so.\<close>

definition won :: "('k, 'v) cas_call \<Rightarrow> answer option \<Rightarrow> int option" where
  "won call pending =
     (case cc_phase call of
        AwaitSwap n c \<Rightarrow> (if pending = Some (Resolved (JBool True)) then Some (sr_storeRevision n) else None)
      | AwaitRetained swapped n c \<Rightarrow> (if swapped then Some (sr_storeRevision n) else None)
      | AwaitArchive n c r h \<Rightarrow> Some (sr_storeRevision n)
      | Settled (Inr (Committed r)) \<Rightarrow> Some (sr_storeRevision r)
      | _ \<Rightarrow> None)"

definition world_ok :: "('s, 'k, 'v) world \<Rightarrow> ('k \<Rightarrow> 'v store_record list) \<Rightarrow> bool" where
  "world_ok w L \<longleftrightarrow> backed (w_adapter w) L \<and>
     (\<forall>i call pending. w_calls w i = Some (call, pending) \<longrightarrow> call_ok L call pending) \<and>
     (\<forall>i j call pending call' pending'. i \<noteq> j \<longrightarrow> w_calls w i = Some (call, pending) \<longrightarrow>
        w_calls w j = Some (call', pending') \<longrightarrow> cc_key call = cc_key call' \<longrightarrow>
        won call pending = None \<or> won call pending \<noteq> won call' pending')"

lemma won_bound:
  assumes "call_ok L call pending" "log_ok A valid (cc_key call) (L (cc_key call))" "won call pending = Some n"
  shows "n < int (length (L (cc_key call)))"
proof -
  obtain r where "r \<in> set (L (cc_key call))" "sr_storeRevision r = n"
    using assms(1,3) by (cases "cc_phase call") (auto simp: call_ok_def won_def split: if_splits sum.splits cas_result.splits)
  with log_ok_revision [OF assms(2)] show ?thesis by fastforce
qed

lemma won_resume:
  assumes "call_ok L call (Some a)" "won (call\<lparr>cc_phase := resumeCas A closed call a\<rparr>) None = Some n"
  shows "won call (Some a) = Some n"
  using assms
  by (cases "cc_phase call")
    (auto simp: won_def call_ok_def resumeCas_def afterHistory_def afterRead_def afterSwap_def afterRetained_def afterArchive_def
      sameStoreRecord_iff split: if_splits sum.splits option.splits answer.splits jsval.splits cas_result.splits)

lemma world_ok_update:
  assumes "world_ok w L" "w_calls w i = Some (call, pending) \<or> w_calls w i = None" "cc_key call' = cc_key call"
    and "backed s L" "call_ok L call' pending'"
    and "\<And>n. won call' pending' = Some n \<Longrightarrow> w_calls w i \<noteq> None \<and> won call pending = Some n"
  shows "world_ok (w\<lparr>w_adapter := s, w_calls := (w_calls w)(i \<mapsto> (call', pending'))\<rparr>) L"
  using assms unfolding world_ok_def by (auto split: if_splits) (metis not_None_eq)+

end
context journal
begin

lemma start_ok: "world_ok w L \<Longrightarrow> world_ok (startCall A input i closed v w) L"
proof (cases "w_calls w i = None \<and> (\<exists>k e x. input v = Inr (k, e, x))")
  case True
  assume ok: "world_ok w L"
  from True obtain k e x where v: "input v = Inr (k, e, x)" "w_calls w i = None" by blast
  let ?call = "\<lparr>cc_key = k, cc_expected = e, cc_next = x, cc_phase = beginCas A closed\<rparr>"
  have "call_ok L ?call None" using input_valid [OF v(1)] by (simp add: call_ok_def beginCas_def)
  moreover have "won ?call None = None" by (simp add: won_def beginCas_def)
  ultimately have "world_ok (w\<lparr>w_adapter := w_adapter w, w_calls := (w_calls w)(i \<mapsto> (?call, None))\<rparr>) L"
    using ok v(2) by (intro world_ok_update [where call = ?call and pending = None]) (auto simp: world_ok_def)
  then show ?thesis using v by (simp add: startCall_def)
next
  case False
  assume "world_ok w L"
  then show ?thesis using False by (auto simp: startCall_def split: sum.split prod.split)
qed

lemma resume_ok: "world_ok w L \<Longrightarrow> world_ok (resumeCall A i closed w) L"
proof (cases "\<exists>call a. w_calls w i = Some (call, Some a)")
  case True
  assume ok: "world_ok w L"
  from True obtain call a where c: "w_calls w i = Some (call, Some a)" by blast
  let ?call = "call\<lparr>cc_phase := resumeCas A closed call a\<rparr>"
  have b: "backed (w_adapter w) L" and co: "call_ok L call (Some a)" using ok c by (auto simp: world_ok_def)
  have "world_ok (w\<lparr>w_adapter := w_adapter w, w_calls := (w_calls w)(i \<mapsto> (?call, None))\<rparr>) L"
    using c by (intro world_ok_update [OF ok _ _ b resume_call_ok [OF b co], where call = call and pending = "Some a"])
      (auto dest: won_resume [OF co])
  then show ?thesis using c by (simp add: resumeCall_def)
next
  case False
  assume "world_ok w L"
  then show ?thesis using False by (auto simp: resumeCall_def split: option.split)
qed

lemma shut_ok: "world_ok w L \<Longrightarrow> world_ok (w\<lparr>w_adapter := shut (w_adapter w)\<rparr>) L"
  by (simp add: world_ok_def backed_def shut_keeps)

lemma serve_read_ok:
  assumes "world_ok w L" "w_calls w i = Some (call, None)" "requestOf A call = Some req"
    and "serve (w_adapter w) req = (a, s)" "\<nexists>n c. cc_phase call = AwaitSwap n c"
  shows "s = w_adapter w" "call_ok L call (Some a)" "won call (Some a) = won call None"
proof -
  have co: "call_ok L call None" and b: "backed (w_adapter w) L" using assms(1,2) by (auto simp: world_ok_def)
  have read: "set_option (cur (w_adapter w) k) \<subseteq> set (L k)" for k
    using backed_log(2) [OF b, of k] by (auto simp: last_of_def split: if_splits)
  have key: "key_ok (cc_key call)" using co by (simp add: call_ok_def)
  show "s = w_adapter w" using assms(3-5) serve_get [OF key] serve_archived [OF key]
    by (cases "cc_phase call") (auto simp: requestOf_def)
  have "read_ok L k a" if "key_ok k" "serve (w_adapter w) (ReqGet k) = (a, s)" for k
    using serve_get [OF that] read unfolding read_ok_def by blast
  then show "call_ok L call (Some a)" using assms(3-5) co key
    by (cases "cc_phase call") (auto simp: requestOf_def call_ok_def)
  show "won call (Some a) = won call None" using assms(5) by (cases "cc_phase call") (auto simp: won_def)
qed

lemma serve_grows:
  assumes "world_ok w L"
  shows "world_ok (serveCall A serve i w) L \<or>
    (\<exists>call n. w_calls w i = Some (call, None) \<and> grown_by L call n \<and>
       world_ok (serveCall A serve i w) (L(cc_key call := L (cc_key call) @ [n])))"
proof (cases "\<exists>call req. w_calls w i = Some (call, None) \<and> requestOf A call = Some req")
  case False
  then have "serveCall A serve i w = w" by (auto simp: serveCall_def split: option.split)
  with assms show ?thesis by simp
next
  case True
  then obtain call req a s where c: "w_calls w i = Some (call, None)" "requestOf A call = Some req"
    "serve (w_adapter w) req = (a, s)" by (metis surj_pair)
  have run: "serveCall A serve i w = w\<lparr>w_adapter := s, w_calls := (w_calls w)(i \<mapsto> (call, Some a))\<rparr>"
    using c by (simp add: serveCall_def)
  have b: "backed (w_adapter w) L" and co: "call_ok L call None" using assms c(1) by (auto simp: world_ok_def)
  show ?thesis
  proof (cases "\<exists>n c. cc_phase call = AwaitSwap n c")
    case False
    with serve_read_ok [OF assms c] b c(1) have "world_ok (serveCall A serve i w) L"
      unfolding run by (intro world_ok_update [OF assms, where pending = None]) auto
    then show ?thesis by simp
  next
    case True
    then obtain n cu where ph: "cc_phase call = AwaitSwap n cu" by blast
    let ?k = "cc_key call"
    from swap_step [OF b co ph c(2,3)] show ?thesis
    proof cases
      case 1
      have "call_ok L call (Some a)" using co ph 1(1) by (simp add: call_ok_def)
      then have "world_ok (serveCall A serve i w) L"
        unfolding run using c(1) 1 ph by (intro world_ok_update [OF assms, where pending = None]) (auto simp: won_def)
      then show ?thesis by simp
    next
      case 2
      let ?L = "L(?k := L ?k @ [n])"
      have sub: "set (L k) \<subseteq> set (?L k)" for k by auto
      have "call_ok ?L call (Some a)"
        using call_ok_mono [OF co, of ?L] sub ph by (auto simp: call_ok_def)
      moreover have "won call' pending' \<noteq> Some (sr_storeRevision n)"
        if "w_calls w j = Some (call', pending')" "cc_key call' = ?k" for j call' pending'
        using won_bound [of L call' pending'] that assms backed_log(1) [OF b] 2(2) by (force simp: world_ok_def)
      moreover have "won call (Some a) = None \<or> won call (Some a) = Some (sr_storeRevision n)"
        using ph by (simp add: won_def)
      ultimately have "world_ok (serveCall A serve i w) ?L"
        unfolding run using assms 2(1) call_ok_mono [of L _ _ ?L] sub
        unfolding world_ok_def by (auto split: if_splits)
      with c(1) 2(3) show ?thesis by blast
    qed
  qed
qed

lemma serve_ok:
  assumes "world_ok w L"
  shows "\<exists>L'. world_ok (serveCall A serve i w) L' \<and> (\<forall>k. prefix (L k) (L' k))"
  using serve_grows [OF assms, of i]
proof
  assume "world_ok (serveCall A serve i w) L"
  then show ?thesis by (intro exI [of _ L]) simp
next
  assume "\<exists>call n. w_calls w i = Some (call, None) \<and> grown_by L call n \<and>
    world_ok (serveCall A serve i w) (L(cc_key call := L (cc_key call) @ [n]))"
  then show ?thesis by (elim exE conjE, intro exI conjI allI) (assumption, simp add: prefix_def)
qed

lemma event_ok:
  assumes "world_ok w L"
  shows "\<exists>L'. world_ok (runEvent A input serve shut e w) L' \<and> (\<forall>k. prefix (L k) (L' k))"
  using start_ok [OF assms] resume_ok [OF assms] shut_ok [OF assms] serve_ok [OF assms] prefix_order.refl
  by (cases e) (auto simp del: prefix_order.refl, blast+)

theorem schedule_ok:
  assumes "world_ok w L"
  shows "\<exists>L'. world_ok (runSchedule A input serve shut es w) L' \<and> (\<forall>k. prefix (L k) (L' k))"
  using assms
proof (induction es arbitrary: w L)
  case Nil
  then show ?case by (intro exI [of _ L]) (simp add: runSchedule_def)
next
  case (Cons e es)
  from event_ok [OF Cons.prems, of e] obtain L1 where L1:
    "world_ok (runEvent A input serve shut e w) L1" "\<forall>k. prefix (L k) (L1 k)" by blast
  from Cons.IH [OF L1(1)] obtain L2 where
    "world_ok (runSchedule A input serve shut es (runEvent A input serve shut e w)) L2" "\<forall>k. prefix (L1 k) (L2 k)" by blast
  with L1(2) show ?case by (intro exI [of _ L2]) (auto simp: runSchedule_def intro: prefix_order.trans)
qed

lemma empty_ok:
  assumes "\<And>k. cur s k = None" "\<And>k h. arch s k h = None"
  shows "world_ok (emptyWorld s) (\<lambda>_. [])"
  using assms by (simp add: world_ok_def emptyWorld_def backed_def backed_at_def log_ok_def)

text \<open>
  The consequences for a run from an empty backend: the log, the commits in it, one winner per revision, and
  the durability of every hash that was ever current.
\<close>

lemma world_ok_log: "world_ok w L \<Longrightarrow> log_ok A valid k (L k) \<and> cur (w_adapter w) k = last_of (L k)"
  by (auto simp: world_ok_def intro: backed_log)

lemma world_ok_committed: "world_ok w L \<Longrightarrow> committed_by w i k r \<Longrightarrow> r \<in> set (L k)"
  by (fastforce simp: world_ok_def committed_by_def call_ok_def)

lemma world_ok_conflict: "world_ok w L \<Longrightarrow> w_calls w i = Some (call, pending) \<Longrightarrow>
   cc_phase call = Settled (Inr (Conflict (Some r))) \<Longrightarrow> r \<in> set (L (cc_key call))"
  by (fastforce simp: world_ok_def call_ok_def)

lemma world_ok_winner:
  assumes "world_ok w L" "committed_by w i k r" "committed_by w j k r'" "sr_storeRevision r = sr_storeRevision r'"
  shows "i = j"
proof (rule ccontr)
  assume "i \<noteq> j"
  from assms(2,3) obtain call pending call' pending' where
    "w_calls w i = Some (call, pending)" "cc_key call = k" "cc_phase call = Settled (Inr (Committed r))"
    "w_calls w j = Some (call', pending')" "cc_key call' = k" "cc_phase call' = Settled (Inr (Committed r'))"
    unfolding committed_by_def by blast
  with \<open>i \<noteq> j\<close> assms(1,4) show False unfolding world_ok_def by (fastforce simp: won_def)
qed

lemma world_ok_durable:
  assumes "world_ok w L" "r \<in> set (L k)" "ac_archives A"
  shows "\<exists>r'. (cur (w_adapter w) k = Some r' \<or> arch (w_adapter w) k (ac_hash A (sr_value r)) = Some r') \<and>
    ac_hash A (sr_value r') = ac_hash A (sr_value r) \<and> sr_storeRevision r \<le> sr_storeRevision r'"
proof -
  have b: "backed_at k (cur (w_adapter w) k) (arch (w_adapter w) k) (L k)"
    using assms(1) by (simp add: world_ok_def backed_def)
  then have ne: "cur (w_adapter w) k = Some (last (L k))" and "log_ok A valid k (L k)"
    using assms(2) by (auto simp: backed_at_def last_of_def)
  from log_ok_last(1) [OF this(2) assms(2)] b assms(2,3) ne show ?thesis
    unfolding backed_at_def by metis
qed

lemma world_ok_archive:
  assumes "world_ok w L" "arch (w_adapter w) k h = Some r"
  shows "\<exists>c. cur (w_adapter w) k = Some c \<and> sr_storeRevision r < sr_storeRevision c \<and> ac_hash A (sr_value c) \<noteq> h \<and>
    ac_hash A (sr_value r) = h \<and> ac_terminal A (sr_value r) \<and> wf_stored A valid k r"
proof -
  have b: "backed_at k (cur (w_adapter w) k) (arch (w_adapter w) k) (L k)"
    using assms(1) by (simp add: world_ok_def backed_def)
  then have r: "r \<in> set (L k)" "ac_hash A (sr_value r) = h" "ac_terminal A (sr_value r)"
     "ac_hash A (sr_value (last (L k))) \<noteq> h" and log: "log_ok A valid k (L k)" "cur (w_adapter w) k = last_of (L k)"
    using assms(2) by (auto simp: backed_at_def)
  from r have "r \<noteq> last (L k)" by auto
  with log_ok_last [OF log(1) r(1)] have "sr_storeRevision r < sr_storeRevision (last (L k))"
    by (meson order_le_imp_less_or_eq)
  with r log log_ok_wf [OF log(1) r(1)] show ?thesis by (auto simp: last_of_def)
qed

end
section \<open>An uncontended call commits\<close>

text \<open>
  A backend that is up answers every read with what it holds and performs every swap whose conditions
  hold; the parser of the store accepts the values that are \<open>readable\<close> when they come back. The schedule \<open>alone i v\<close> runs one call from its start through five rounds with nothing between.
\<close>

definition alone :: "nat \<Rightarrow> jsval \<Rightarrow> event list" where
  "alone i v = Start i False v # concat (replicate 5 [Serve i, Resume i False])"

locale live_journal = journal A input serve shut cur arch key_ok valid show_record
  for A :: "('v, 'k) access" and input and serve :: "'s \<Rightarrow> ('k, 'v) request \<Rightarrow> answer \<times> 's"
    and shut and cur and arch and key_ok and valid and show_record +
  fixes up :: "'s \<Rightarrow> bool" and readable :: "'v \<Rightarrow> bool"
  assumes parse_live: "wf_stored A valid k r \<Longrightarrow> readable (sr_value r) \<Longrightarrow> parseRead A (show_record r) k = Inr (Some r)"
    and live_get: "up s \<Longrightarrow> key_ok k \<Longrightarrow> serve s (ReqGet k) = (Resolved (shown show_record (cur s k)), s)"
    and live_archived: "up s \<Longrightarrow> ac_archives A \<Longrightarrow> key_ok k \<Longrightarrow> valid x \<Longrightarrow>
      serve s (ReqArchived k (ac_hash A x)) = (Resolved (shown show_record (arch s k (ac_hash A x))), s)"
    and live_swap: "up s \<Longrightarrow> key_ok k \<Longrightarrow> valid (sr_value n) \<Longrightarrow> revisionMatches (cur s k) e \<Longrightarrow>
      (ac_archives A \<Longrightarrow> arch s k (ac_hash A (sr_value n)) = None) \<Longrightarrow>
      (\<And>h r. ar = Some (h, r) \<Longrightarrow> ac_archives A \<and> h = ac_hash A (sr_value r) \<and> h \<noteq> ac_hash A (sr_value n) \<and>
         valid (sr_value r) \<and> cur s k = Some r \<and> arch s k h = None) \<Longrightarrow>
      \<exists>s'. serve s (ReqSwap k e n (ac_hash A (sr_value n)) ar) = (Resolved (JBool True), s') \<and> up s'"
begin

definition round_of :: "nat \<Rightarrow> ('s, 'k, 'v) world \<Rightarrow> ('s, 'k, 'v) world" where
  "round_of i w = resumeCall A i False (serveCall A serve i w)"

lemma round_of_eq:
  assumes "w_calls w i = Some (call, None)" "requestOf A call = Some req" "serve (w_adapter w) req = (a, s)"
  shows "round_of i w = w\<lparr>w_adapter := s, w_calls := (w_calls w)(i \<mapsto> (call\<lparr>cc_phase := resumeCas A False call a\<rparr>, None))\<rparr>"
  using assms by (simp add: round_of_def serveCall_def resumeCall_def)

lemma round_of_settled: "w_calls w i = Some (call, None) \<Longrightarrow> cc_phase call = Settled r \<Longrightarrow> round_of i w = w"
  by (simp add: round_of_def serveCall_def resumeCall_def requestOf_def)

lemma round_of_ok: "world_ok w L \<Longrightarrow> \<exists>L'. world_ok (round_of i w) L'"
  unfolding round_of_def using serve_ok resume_ok by blast

lemma run_alone: "runSchedule A input serve shut (alone i v) w = (round_of i ^^ 5) (startCall A input i False v w)"
  by (simp add: runSchedule_def alone_def round_of_def numeral_eq_Suc)

lemma readAnswer_shown: "wf_stored A valid k r \<Longrightarrow> readable (sr_value r) \<Longrightarrow>
   readAnswer A k (Resolved (shown show_record (Some r))) = Inr (Some r)"
  by (simp add: readAnswer_def shown_def parse_live)

lemma readAnswer_none: "readAnswer A k (Resolved (shown show_record None)) = Inr None"
  by (simp add: readAnswer_def shown_def parseRead_def)

lemma readAnswer_current:
  assumes "world_ok w L" "pred_option (readable \<circ> sr_value) (cur (w_adapter w) k)"
  shows "readAnswer A k (Resolved (shown show_record (cur (w_adapter w) k))) = Inr (cur (w_adapter w) k)"
proof (cases "cur (w_adapter w) k")
  case (Some r)
  with world_ok_log [OF assms(1), of k] have "wf_stored A valid k r"
    by (auto simp: last_of_def intro: log_ok_wf split: if_splits)
  with Some readAnswer_shown assms(2) show ?thesis by simp
qed (simp add: readAnswer_none)

lemma replaced_record:
  assumes "backed s L" "cur s k = c" "c = last_of (L k)" "archiveFor A c n = Some (h, r)"
    and "ac_validateNext A (map_option sr_value c) (sr_value n) = Inr ()"
  shows "ac_archives A \<and> h = ac_hash A (sr_value r) \<and> h \<noteq> ac_hash A (sr_value n) \<and> valid (sr_value r) \<and>
    arch s k h = None \<and> ac_terminal A (sr_value r) \<and> wf_stored A valid k r \<and> c = Some r"
proof -
  from assms(4) have c: "c = Some r" "ac_archives A" "h = ac_hash A (sr_value r)" "\<not> ac_sameIdentity A (sr_value r) (sr_value n)"
    by (auto simp: archiveFor_def split: option.splits if_splits)
  with successor assms(5) have t: "ac_terminal A (sr_value r)" "h \<noteq> ac_hash A (sr_value n)" by auto
  have l: "last (L k) = r" "r \<in> set (L k)" using assms(3) c(1) by (auto simp: last_of_def split: if_splits)
  have wf: "wf_stored A valid k r" by (rule log_ok_wf [OF backed_log(1) [OF assms(1)] l(2)])
  have "arch s k h = None"
    using assms(1) l(1) c(3) by (cases "arch s k h") (auto simp: backed_def backed_at_def)
  moreover have "valid (sr_value r)" using wf by (simp add: wf_stored_def)
  ultimately show ?thesis using c t wf by simp
qed

text \<open>From the swap on: the record is read back and, where one was replaced, its archived copy.\<close>

lemma rounds_after_swap:
  assumes "world_ok w L" "up (w_adapter w)" "w_calls w i = Some (call, None)" "cc_phase call = AwaitSwap n c"
    and "cur (w_adapter w) (cc_key call) = c" "ac_archives A \<Longrightarrow> arch (w_adapter w) (cc_key call) (ac_hash A (sr_value n)) = None"
    and "readable (sr_value n)" "pred_option (readable \<circ> sr_value) c"
  shows "w_calls ((round_of i ^^ 3) w) i = Some (call\<lparr>cc_phase := Settled (Inr (Committed n))\<rparr>, None) \<and>
    cur (w_adapter ((round_of i ^^ 3) w)) (cc_key call) = Some n"
proof -
  let ?k = "cc_key call"
  have ok: "call_ok L call None" "backed (w_adapter w) L" using assms(1,3) by (auto simp: world_ok_def)
  then have n: "sr_value n = cc_next call" "valid (cc_next call)" "key_ok ?k"
    "revisionMatches c (cc_expected call)" "ac_validateNext A (map_option sr_value c) (cc_next call) = Inr ()"
    using assms(4) by (auto simp: call_ok_def next_of_def)
  note current = swap_current [OF ok(2,1) assms(4), unfolded assms(5), OF n(4)]
  have replaced: "ac_archives A \<and> h = ac_hash A (sr_value r) \<and> h \<noteq> ac_hash A (sr_value n) \<and> valid (sr_value r) \<and>
      cur (w_adapter w) ?k = Some r \<and> arch (w_adapter w) ?k h = None \<and> ac_terminal A (sr_value r) \<and>
      wf_stored A valid ?k r \<and> c = Some r"
    if "archiveFor A c n = Some (h, r)" for h r
    using replaced_record [OF ok(2) assms(5) current(1) that] n(1,5) assms(5) by auto
  have rm: "revisionMatches (cur (w_adapter w) ?k) (cc_expected call)" using n(4) assms(5) by simp
  have req: "requestOf A call = Some (ReqSwap ?k (cc_expected call) n (ac_hash A (sr_value n)) (archiveFor A c n))"
    using assms(4) by (simp add: requestOf_def)
  obtain s where s: "serve (w_adapter w) (ReqSwap ?k (cc_expected call) n (ac_hash A (sr_value n)) (archiveFor A c n)) =
      (Resolved (JBool True), s)" "up s"
    using live_swap [OF assms(2) n(3) _ rm, of n "archiveFor A c n"] n assms(6) replaced by auto
  let ?call1 = "call\<lparr>cc_phase := AwaitRetained True n c\<rparr>"
  have w1: "round_of i w = w\<lparr>w_adapter := s, w_calls := (w_calls w)(i \<mapsto> (?call1, None))\<rparr>"
    using round_of_eq [OF assms(3) req s(1)] assms(4) by (simp add: resumeCas_def afterSwap_def)
  have s1: "cur s ?k = Some n" "\<And>h r. archiveFor A c n = Some (h, r) \<Longrightarrow> arch s ?k h = Some r"
    using serve_swap [OF n(3) archiveFor_archives [of A c n] s(1)] by (auto split: option.splits)
  have get: "serve s (ReqGet ?k) = (Resolved (shown show_record (Some n)), s)"
    using live_get [OF s(2) n(3)] s1(1) by simp
  let ?phase2 = "case archiveFor A c n of None \<Rightarrow> Settled (Inr (Committed n)) | Some (h, _) \<Rightarrow> AwaitArchive n c n h"
  have w2: "round_of i (round_of i w) = w\<lparr>w_adapter := s, w_calls := (w_calls w)(i \<mapsto> (call\<lparr>cc_phase := ?phase2\<rparr>, None))\<rparr>"
    using round_of_eq [of "round_of i w" i ?call1 "ReqGet ?k"] get readAnswer_shown [OF current(3) assms(7)]
    by (simp add: w1 requestOf_def resumeCas_def afterRetained_def sameStoreRecord_iff)
  show ?thesis
  proof (cases "archiveFor A c n")
    case None
    then have "round_of i (round_of i (round_of i w)) = round_of i (round_of i w)"
      using round_of_settled [of "round_of i (round_of i w)" i] by (simp add: w2)
    with None s1(1) show ?thesis by (simp add: numeral_3_eq_3 w2)
  next
    case (Some p)
    then obtain r where p: "p = (ac_hash A (sr_value r), r)" and
      r: "ac_archives A" "valid (sr_value r)" "ac_terminal A (sr_value r)" "wf_stored A valid ?k r" "c = Some r"
      using replaced [of "fst p" "snd p"] by (cases p) auto
    have "serve s (ReqArchived ?k (ac_hash A (sr_value r))) = (Resolved (shown show_record (Some r)), s)"
      using live_archived [OF s(2) r(1) n(3) r(2)] s1(2) Some p by simp
    then have "round_of i (round_of i (round_of i w)) =
        w\<lparr>w_adapter := s, w_calls := (w_calls w)(i \<mapsto> (call\<lparr>cc_phase := Settled (Inr (Committed n))\<rparr>, None))\<rparr>"
      using round_of_eq [of "round_of i (round_of i w)" i _ "ReqArchived ?k (ac_hash A (sr_value r))"] Some p r parse_live [OF r(4)] assms(8)
      by (simp add: w2 requestOf_def resumeCas_def afterArchive_def archiveRetains_def parseStored_def assertOpen_def
          sameStoreRecord_iff shown_def guardE_def)
    with s1(1) show ?thesis by (simp add: numeral_3_eq_3)
  qed
qed

lemma round_history:
  assumes "up (w_adapter w)" "ac_archives A" "key_ok k" "valid x" "arch (w_adapter w) k (ac_hash A x) = None"
    and "w_calls w i = Some (call, None)" "call = \<lparr>cc_key = k, cc_expected = e, cc_next = x, cc_phase = AwaitHistory\<rparr>"
  shows "round_of i w = w\<lparr>w_calls := (w_calls w)(i \<mapsto> (call\<lparr>cc_phase := AwaitRead\<rparr>, None))\<rparr>"
  using round_of_eq [OF assms(6), of "ReqArchived k (ac_hash A x)"] live_archived [OF assms(1-4)] assms(5,7)
  by (simp add: requestOf_def resumeCas_def afterHistory_def archivedAnswer_def shown_def parseStored_def assertOpen_def
      guardE_def parseRead_def)

text \<open>A call that expects another revision than the one it reads ends in a conflict that names what it read.\<close>

lemma stale_conflict:
  assumes "world_ok w L" "up (w_adapter w)" "w_calls w i = None" "input v = Inr (k, e, x)"
    and "\<not> revisionMatches (cur (w_adapter w) k) e"
    and "ac_archives A \<Longrightarrow> arch (w_adapter w) k (ac_hash A x) = None"
    and "pred_option (readable \<circ> sr_value) (cur (w_adapter w) k)"
  shows "outcome (runSchedule A input serve shut (alone i v) w) i = Some (Inr (Conflict (cur (w_adapter w) k)))"
proof -
  let ?at = "\<lambda>ph. w\<lparr>w_calls := (w_calls w)(i \<mapsto> (\<lparr>cc_key = k, cc_expected = e, cc_next = x, cc_phase = ph\<rparr>, None))\<rparr>"
  let ?final = "?at (Settled (Inr (Conflict (cur (w_adapter w) k))))"
  have x: "valid x" "key_ok k" using input_valid [OF assms(4)] by auto
  have start: "startCall A input i False v w = ?at (beginCas A False)"
    using assms(3,4) by (simp add: startCall_def)
  have history: "round_of i (?at AwaitHistory) = ?at AwaitRead" if "ac_archives A"
    using round_history [of "?at AwaitHistory", OF _ that x(2,1)] assms(2) assms(6) [OF that] by simp
  have settled: "round_of i (?at AwaitRead) = ?final"
    using round_of_eq [of "?at AwaitRead" i _ "ReqGet k"] live_get [OF assms(2) x(2)] readAnswer_current [OF assms(1,7)] assms(5)
    by (simp add: requestOf_def resumeCas_def afterRead_def)
  have final_round: "round_of i ?final = ?final"
    by (rule round_of_settled [where r = "Inr (Conflict (cur (w_adapter w) k))"], simp, simp)
  have "runSchedule A input serve shut (alone i v) w = ?final"
    by (cases "ac_archives A") (simp_all add: run_alone start beginCas_def history settled final_round numeral_eq_Suc)
  then show ?thesis by (simp add: outcome_def)
qed

lemma uncontended_commit:
  assumes "world_ok w L" "up (w_adapter w)" "w_calls w i = None" "input v = Inr (k, e, x)"
    and "revisionMatches (cur (w_adapter w) k) e" "nextStoreRevision e = Inr revision"
    and "ac_validateNext A (map_option sr_value (cur (w_adapter w) k)) x = Inr ()"
    and "ac_archives A \<Longrightarrow> arch (w_adapter w) k (ac_hash A x) = None"
    and "readable x" "pred_option (readable \<circ> sr_value) (cur (w_adapter w) k)"
  defines "n \<equiv> \<lparr>sr_storeRevision = revision, sr_updatedAt = ac_updatedAt A x, sr_value = x\<rparr>"
  shows "outcome (runSchedule A input serve shut (alone i v) w) i = Some (Inr (Committed n)) \<and>
    cur (w_adapter (runSchedule A input serve shut (alone i v) w)) k = Some n"
proof -
  let ?call = "\<lambda>ph. \<lparr>cc_key = k, cc_expected = e, cc_next = x, cc_phase = ph\<rparr>"
  let ?at = "\<lambda>ph. w\<lparr>w_calls := (w_calls w)(i \<mapsto> (?call ph, None))\<rparr>"
  let ?c = "cur (w_adapter w) k"
  have x: "valid x" "key_ok k" using input_valid [OF assms(4)] by auto
  have b: "backed (w_adapter w) L" using assms(1) by (simp add: world_ok_def)
  have start: "startCall A input i False v w = ?at (beginCas A False)"
    using assms(3,4) by (simp add: startCall_def)
  note read = readAnswer_current [OF assms(1,10)]
  have swap: "round_of i (?at AwaitRead) = ?at (AwaitSwap n ?c)"
    using round_of_eq [of "?at AwaitRead" i "?call AwaitRead" "ReqGet k"] live_get [OF assms(2) x(2)] read assms(5-7)
    by (simp add: requestOf_def resumeCas_def afterRead_def n_def)
  have history: "round_of i (?at AwaitHistory) = ?at AwaitRead" if "ac_archives A"
    using round_history [of "?at AwaitHistory", OF _ that x(2,1)] assms(2) assms(8) [OF that] by simp
  have "world_ok (?at (beginCas A False)) L" using start_ok [OF assms(1), of i False v] start by simp
  then have "\<exists>L'. world_ok (?at (AwaitSwap n ?c)) L'"
    using round_of_ok [of "?at (beginCas A False)" L i] round_of_ok [of "?at AwaitRead" _ i] swap history
    by (cases "ac_archives A") (auto simp: beginCas_def)
  then obtain L' where L': "world_ok (?at (AwaitSwap n ?c)) L'" ..
  have settled: "w_calls ((round_of i ^^ 3) (?at (AwaitSwap n ?c))) i = Some (?call (Settled (Inr (Committed n))), None)"
      "cur (w_adapter ((round_of i ^^ 3) (?at (AwaitSwap n ?c)))) k = Some n"
    using rounds_after_swap [OF L', of i "?call (AwaitSwap n ?c)" n ?c] assms(2,8,9,10) by (simp_all add: n_def)
  show ?thesis
  proof (cases "ac_archives A")
    case True
    then have "runSchedule A input serve shut (alone i v) w = (round_of i ^^ 3) (?at (AwaitSwap n ?c))"
      by (simp add: run_alone start beginCas_def history swap numeral_eq_Suc)
    with settled show ?thesis by (simp add: outcome_def)
  next
    case False
    then have "runSchedule A input serve shut (alone i v) w = round_of i ((round_of i ^^ 3) (?at (AwaitSwap n ?c)))"
      by (simp add: run_alone start beginCas_def swap numeral_eq_Suc)
    with settled round_of_settled [OF settled(1)] show ?thesis by (simp add: outcome_def)
  qed
qed

end

end
