(* ===== verification/Memory_Store.thy ===== *)
theory Memory_Store
  imports Store_Concurrency "HOL-Library.AList"
begin

text \<open>
  Model of the Grant and Operation backends of \<open>packages/sdk/src/persistence/memory/stores.ts\<close>.

  A JavaScript \<open>Map\<close> is an association list without duplicate keys in insertion order: \<open>map_of\<close> is
  \<open>get\<close> and \<open>AList.update\<close> is \<open>set\<close>, which keeps the place of a key it finds. The text
  \<open>JSON.stringify([...])\<close> of a composite key is the tuple of its parts, and a text prefix that ends
  after a part is equality of the parts before it. Every adapter method runs without an await, so one
  call is one atomic action.

  The backends are shown to keep the contract \<open>live_journal\<close> of the stores above them. What the
  contract needs of the external functions is their documented behaviour \<open>ext_ok\<close>; the type
  \<open>documented_ext\<close> holds exactly the instances that have it.
\<close>

section \<open>Keys\<close>

abbreviation p_err :: "persistence_code \<Rightarrow> err" where
  "p_err \<equiv> OaathPersistenceError"

definition MAX_ID_LENGTH :: nat where
  "MAX_ID_LENGTH = 256"

fun persistenceId :: "jsval \<Rightarrow> err \<Rightarrow> err + string" where
  "persistenceId (JString s) fail =
     (if length s < 1 \<or> length s > MAX_ID_LENGTH \<or> s \<noteq> trim s then Inl fail else Inr s)"
| "persistenceId _ fail = Inl fail"

definition memory_assertOpen :: "bool \<Rightarrow> err + unit" where
  "memory_assertOpen closed = guardE (\<not> closed) (p_err Persistence_unavailable)"

type_synonym scope_parts = "string \<times> int \<times> operation_kind"
type_synonym key_parts = "string \<times> int \<times> operation_kind \<times> int"

definition safe_int :: "int \<Rightarrow> bool" where
  "safe_int n \<longleftrightarrow> \<bar>n\<bar> \<le> MAX_SAFE_INTEGER"

definition operationScopeParts :: "('a) operation_store_scope_scheme \<Rightarrow> err + scope_parts" where
  "operationScopeParts input =
     (if \<not> safe_int (sc_chainId input) \<or> sc_chainId input < 1 then Inl (p_err Persistence_input_invalid)
      else bindE (persistenceId (JString (sc_grantId input)) (p_err Persistence_input_invalid)) (\<lambda>grantId.
           Inr (grantId, sc_chainId input, sc_kind input)))"

definition operationKeyParts :: "operation_store_key \<Rightarrow> err + key_parts" where
  "operationKeyParts input =
     (let lane = (case sk_lane input of None \<Rightarrow> 0 | Some n \<Rightarrow> n) in
      if \<not> safe_int lane \<or> lane < 0 then Inl (p_err Persistence_input_invalid)
      else bindE (operationScopeParts input) (\<lambda>(grantId, chainId, kind). Inr (grantId, chainId, kind, lane)))"

definition operationKey :: "operation_store_key \<Rightarrow> err + key_parts" where
  "operationKey input = operationKeyParts input"

definition operationArchiveKey :: "operation_store_key \<Rightarrow> string \<Rightarrow> err + (key_parts \<times> string)" where
  "operationArchiveKey input hash =
     (if \<not> lower_hex 64 hash then Inl (p_err Persistence_input_invalid)
      else bindE (operationKeyParts input) (\<lambda>parts. Inr (parts, hash)))"

section \<open>The Grant backend\<close>

record 'v grant_memory =
  gm_records :: "(string \<times> 'v store_record) list"
  gm_closed :: bool

definition memory_compareAndSwap ::
    "('k \<times> 'v store_record) list \<Rightarrow> 'k \<Rightarrow> int option \<Rightarrow> 'v store_record \<Rightarrow> bool \<times> ('k \<times> 'v store_record) list" where
  "memory_compareAndSwap records key expected next =
     (if \<not> revisionMatches (map_of records key) expected then (False, records)
      else (True, AList.update key next records))"

definition createMemoryGrantStoreAdapter :: "'v grant_memory" where
  "createMemoryGrantStoreAdapter = \<lparr>gm_records = [], gm_closed = False\<rparr>"

definition memoryGrant_get :: "'v grant_memory \<Rightarrow> string \<Rightarrow> err + 'v store_record option" where
  "memoryGrant_get m grantId =
     bindE (memory_assertOpen (gm_closed m)) (\<lambda>_.
     bindE (persistenceId (JString grantId) (p_err Persistence_input_invalid)) (\<lambda>key.
     Inr (map_of (gm_records m) key)))"

definition memoryGrant_compareAndSwap ::
    "'v grant_memory \<Rightarrow> string \<Rightarrow> int option \<Rightarrow> 'v store_record \<Rightarrow> err + (bool \<times> 'v grant_memory)" where
  "memoryGrant_compareAndSwap m grantId expected next =
     bindE (memory_assertOpen (gm_closed m)) (\<lambda>_.
     bindE (persistenceId (JString grantId) (p_err Persistence_input_invalid)) (\<lambda>key.
     case memory_compareAndSwap (gm_records m) key expected next of
       (swapped, records) \<Rightarrow> Inr (swapped, m\<lparr>gm_records := records\<rparr>)))"

definition memoryGrant_close :: "'v grant_memory \<Rightarrow> 'v grant_memory" where
  "memoryGrant_close m = m\<lparr>gm_closed := True\<rparr>"

section \<open>The Operation backend\<close>

record 'v operation_memory =
  om_records :: "(key_parts \<times> 'v store_record) list"
  om_archives :: "((key_parts \<times> string) \<times> 'v store_record) list"
  om_closed :: bool

definition createMemoryOperationStoreAdapter :: "'v operation_memory" where
  "createMemoryOperationStoreAdapter = \<lparr>om_records = [], om_archives = [], om_closed = False\<rparr>"

definition memoryOperation_get :: "'v operation_memory \<Rightarrow> operation_store_key \<Rightarrow> err + 'v store_record option" where
  "memoryOperation_get m key =
     bindE (memory_assertOpen (om_closed m)) (\<lambda>_.
     bindE (operationKey key) (\<lambda>lane. Inr (map_of (om_records m) lane)))"

definition memoryOperation_list :: "'v operation_memory \<Rightarrow> operation_store_scope \<Rightarrow> err + 'v store_record list" where
  "memoryOperation_list m scope =
     bindE (memory_assertOpen (om_closed m)) (\<lambda>_.
     bindE (operationScopeParts scope) (\<lambda>prefix.
     Inr (map snd (filter (\<lambda>((grantId, chainId, kind, lane), r). (grantId, chainId, kind) = prefix) (om_records m)))))"

definition memoryOperation_getArchived ::
    "'v operation_memory \<Rightarrow> operation_store_key \<Rightarrow> string \<Rightarrow> err + 'v store_record option" where
  "memoryOperation_getArchived m key hash =
     bindE (memory_assertOpen (om_closed m)) (\<lambda>_.
     bindE (operationArchiveKey key hash) (\<lambda>archive. Inr (map_of (om_archives m) archive)))"

definition memoryOperation_compareAndSwap ::
    "'v operation_memory \<Rightarrow> operation_store_key \<Rightarrow> int option \<Rightarrow> 'v store_record \<Rightarrow> string \<Rightarrow> (string \<times> 'v store_record) option \<Rightarrow>
     err + (bool \<times> 'v operation_memory)" where
  "memoryOperation_compareAndSwap m key expected next expectedAbsent archive =
     bindE (memory_assertOpen (om_closed m)) (\<lambda>_.
     bindE (operationKey key) (\<lambda>lane.
     bindE (operationArchiveKey key expectedAbsent) (\<lambda>expectedAbsentArchive.
     let current = map_of (om_records m) lane in
     if \<not> revisionMatches current expected then Inr (False, m)
     else if map_of (om_archives m) expectedAbsentArchive \<noteq> None then Inr (False, m)
     else case archive of
       None \<Rightarrow> Inr (True, m\<lparr>om_records := AList.update lane next (om_records m)\<rparr>)
     | Some (hash, r) \<Rightarrow>
         if hash = expectedAbsent then Inr (False, m)
         else bindE (operationArchiveKey key hash) (\<lambda>archiveKey.
              if current = None \<or> current \<noteq> Some r \<or> map_of (om_archives m) archiveKey \<noteq> None then Inr (False, m)
              else Inr (True, m\<lparr>om_archives := AList.update archiveKey r (om_archives m),
                                om_records := AList.update lane next (om_records m)\<rparr>)))))"

definition memoryOperation_close :: "'v operation_memory \<Rightarrow> 'v operation_memory" where
  "memoryOperation_close m = m\<lparr>om_closed := True\<rparr>"

section \<open>Serving a store's requests\<close>

text \<open>A thrown error is a rejected promise; a record is handed back as the object that holds it.\<close>

definition read_answer :: "('v store_record \<Rightarrow> jsval) \<Rightarrow> err + 'v store_record option \<Rightarrow> answer" where
  "read_answer show_record r = (case r of Inl _ \<Rightarrow> Rejected | Inr c \<Rightarrow> Resolved (shown show_record c))"

definition swap_answer :: "'s \<Rightarrow> err + (bool \<times> 's) \<Rightarrow> answer \<times> 's" where
  "swap_answer m r = (case r of Inl _ \<Rightarrow> (Rejected, m) | Inr (swapped, m') \<Rightarrow> (Resolved (JBool swapped), m'))"

fun serveMemoryGrant ::
    "('v store_record \<Rightarrow> jsval) \<Rightarrow> 'v grant_memory \<Rightarrow> (string, 'v) request \<Rightarrow> answer \<times> 'v grant_memory" where
  "serveMemoryGrant show_record m (ReqGet key) = (read_answer show_record (memoryGrant_get m key), m)"
| "serveMemoryGrant show_record m (ReqArchived _ _) = (Rejected, m)"
| "serveMemoryGrant show_record m (ReqSwap key expected next _ _) =
     swap_answer m (memoryGrant_compareAndSwap m key expected next)"

fun serveMemoryOperation ::
    "('v store_record \<Rightarrow> jsval) \<Rightarrow> 'v operation_memory \<Rightarrow> (operation_store_key, 'v) request \<Rightarrow> answer \<times> 'v operation_memory" where
  "serveMemoryOperation show_record m (ReqGet key) = (read_answer show_record (memoryOperation_get m key), m)"
| "serveMemoryOperation show_record m (ReqArchived key hash) =
     (read_answer show_record (memoryOperation_getArchived m key hash), m)"
| "serveMemoryOperation show_record m (ReqSwap key expected next expectedAbsent archive) =
     swap_answer m (memoryOperation_compareAndSwap m key expected next expectedAbsent archive)"

section \<open>The backends keep the contract\<close>

typedef documented_ext = "{E. ext_ok E}" morphisms ext_of mk_ext
  using sample_ext_ok by blast

lemma ext_of_ok: "ext_ok (ext_of T)"
  using ext_of [of T] by simp

lemma documented_extE: "ext_ok E \<Longrightarrow> (\<And>T. E = ext_of T \<Longrightarrow> P) \<Longrightarrow> P"
  by (metis mem_Collect_eq mk_ext_inverse)

definition show_grant :: "grant store_record \<Rightarrow> jsval" where
  "show_grant = envelope OAATH_GRANT_STORE_RECORD_VERSION grant_literal"

definition show_operation :: "operation store_record \<Rightarrow> jsval" where
  "show_operation = envelope OAATH_OPERATION_STORE_RECORD_VERSION operation_literal"

definition grant_content :: "'v grant_memory \<Rightarrow> string \<Rightarrow> 'v store_record option" where
  "grant_content m k = map_of (gm_records m) k"

text \<open>A lane key of zero is the default lane spelt out; no key a store has parsed has it.\<close>

definition proper_key :: "operation_store_key \<Rightarrow> bool" where
  "proper_key k \<longleftrightarrow> sk_lane k \<noteq> Some 0 \<and> (\<exists>parts. operationKey k = Inr parts)"

definition lane_content :: "'v operation_memory \<Rightarrow> operation_store_key \<Rightarrow> 'v store_record option" where
  "lane_content m k =
     (if sk_lane k = Some 0 then None
      else case operationKey k of Inl _ \<Rightarrow> None | Inr lane \<Rightarrow> map_of (om_records m) lane)"

definition lane_archive :: "'v operation_memory \<Rightarrow> operation_store_key \<Rightarrow> string \<Rightarrow> 'v store_record option" where
  "lane_archive m k hash =
     (if sk_lane k = Some 0 then None
      else case operationArchiveKey k hash of Inl _ \<Rightarrow> None | Inr key \<Rightarrow> map_of (om_archives m) key)"

lemma persistenceId_string: "persistenceId (JString s) e = Inr r \<longleftrightarrow> id_ok s \<and> r = s"
  by (auto simp: id_ok_def MAX_ID_LENGTH_def MAX_GRANT_ID_LENGTH_def Suc_le_eq)

lemma operationKey_inject:
  "operationKey k = Inr p \<Longrightarrow> operationKey k' = Inr p \<Longrightarrow> sk_lane k \<noteq> Some 0 \<Longrightarrow> sk_lane k' \<noteq> Some 0 \<Longrightarrow> k = k'"
  by (auto simp: operationKey_def operationKeyParts_def operationScopeParts_def bindE_Inr persistenceId_string Let_def
      simp del: persistenceId.simps split: if_splits option.splits prod.splits intro!: operation_store_key.equality)

lemma operationArchiveKey_Inr:
  "operationArchiveKey k h = Inr p \<longleftrightarrow> lower_hex 64 h \<and> (\<exists>parts. operationKey k = Inr parts \<and> p = (parts, h))"
  by (auto simp: operationArchiveKey_def operationKey_def bindE_Inr)

lemma map_of_AList_update: "map_of (AList.update k v al) = (map_of al)(k \<mapsto> v)"
  by (rule AList.update_conv')

lemma lane_content_cong: "om_records m' = om_records m \<Longrightarrow> lane_content m' = lane_content m"
  by (auto simp: lane_content_def fun_eq_iff split: sum.split)

lemma lane_archive_cong: "om_archives m' = om_archives m \<Longrightarrow> lane_archive m' = lane_archive m"
  by (auto simp: lane_archive_def fun_eq_iff split: sum.split)

lemma lane_content_swapped:
  assumes "proper_key k" "operationKey k = Inr lane" "om_records m' = AList.update lane n (om_records m)"
  shows "lane_content m' = (lane_content m)(k \<mapsto> n)"
proof
  fix k'
  show "lane_content m' k' = ((lane_content m)(k \<mapsto> n)) k'"
  proof (cases "k' = k")
    case True
    with assms show ?thesis by (simp add: lane_content_def proper_key_def map_of_AList_update)
  next
    case False
    with assms operationKey_inject [of k' lane k] show ?thesis
      by (auto simp: lane_content_def proper_key_def map_of_AList_update split: sum.split)
  qed
qed

lemma lane_archive_added:
  assumes "proper_key k" "operationArchiveKey k h = Inr key" "om_archives m' = AList.update key r (om_archives m)"
  shows "lane_archive m' = (lane_archive m)(k := (lane_archive m k)(h \<mapsto> r))"
proof (intro ext)
  fix k' h'
  show "lane_archive m' k' h' = ((lane_archive m)(k := (lane_archive m k)(h \<mapsto> r))) k' h'"
  proof (cases "k' = k \<and> h' = h")
    case True
    with assms show ?thesis by (auto simp: lane_archive_def proper_key_def map_of_AList_update)
  next
    case False
    then have "operationArchiveKey k' h' \<noteq> Inr key" if "sk_lane k' \<noteq> Some 0"
      using assms(1,2) that operationKey_inject by (auto simp: operationArchiveKey_Inr proper_key_def)
    with False assms show ?thesis
      by (auto simp: lane_archive_def map_of_AList_update split: sum.split)
  qed
qed

lemma lane_content_key: "proper_key k \<Longrightarrow> operationKey k = Inr lane \<Longrightarrow> lane_content m k = map_of (om_records m) lane"
  by (simp add: lane_content_def proper_key_def)

lemma lane_archive_key: "proper_key k \<Longrightarrow> operationArchiveKey k h = Inr key \<Longrightarrow> lane_archive m k h = map_of (om_archives m) key"
  by (simp add: lane_archive_def proper_key_def)

lemma memoryOperation_swap:
  assumes "proper_key k" "memoryOperation_compareAndSwap m k e n h ar = Inr (True, m')"
  shows "revisionMatches (lane_content m k) e" "lane_archive m k h = None" "lane_content m' = (lane_content m)(k \<mapsto> n)"
    "case ar of
       None \<Rightarrow> lane_archive m' = lane_archive m
     | Some (h', r) \<Rightarrow> h' \<noteq> h \<and> lane_content m k = Some r \<and> lane_archive m k h' = None \<and>
         lane_archive m' = (lane_archive m)(k := (lane_archive m k)(h' \<mapsto> r))"
proof -
  from assms obtain lane key where lane: "operationKey k = Inr lane" "operationArchiveKey k h = Inr key"
    and now: "revisionMatches (map_of (om_records m) lane) e" "map_of (om_archives m) key = None"
    and upd: "om_records m' = AList.update lane n (om_records m)"
    and ar: "case ar of None \<Rightarrow> om_archives m' = om_archives m
        | Some (h', r) \<Rightarrow> h' \<noteq> h \<and> map_of (om_records m) lane = Some r \<and>
           (\<exists>key'. operationArchiveKey k h' = Inr key' \<and> map_of (om_archives m) key' = None \<and>
              om_archives m' = AList.update key' r (om_archives m))"
    unfolding memoryOperation_compareAndSwap_def
    by (elim bindE_InrE) (auto simp: Let_def bindE_Inr split: if_splits option.splits)
  show "revisionMatches (lane_content m k) e" "lane_archive m k h = None" "lane_content m' = (lane_content m)(k \<mapsto> n)"
    using now lane upd lane_content_swapped [OF assms(1) lane(1) upd]
    by (simp_all add: lane_content_key [OF assms(1) lane(1)] lane_archive_key [OF assms(1) lane(2)])
  show "case ar of
       None \<Rightarrow> lane_archive m' = lane_archive m
     | Some (h', r) \<Rightarrow> h' \<noteq> h \<and> lane_content m k = Some r \<and> lane_archive m k h' = None \<and>
         lane_archive m' = (lane_archive m)(k := (lane_archive m k)(h' \<mapsto> r))"
  proof (cases ar)
    case None
    with ar lane_archive_cong [of m' m] show ?thesis by simp
  next
    case (Some p)
    with ar obtain h' r key' where "ar = Some (h', r)" "h' \<noteq> h" "map_of (om_records m) lane = Some r"
      and key': "operationArchiveKey k h' = Inr key'" "map_of (om_archives m) key' = None"
        "om_archives m' = AList.update key' r (om_archives m)" by (cases p) auto
    with lane_archive_added [OF assms(1) key'(1,3)] lane_archive_key [OF assms(1) key'(1), of m]
    show ?thesis by (simp add: lane_content_key [OF assms(1) lane(1)])
  qed
qed

lemma memoryOperation_no_swap:
  "memoryOperation_compareAndSwap m k e n h ar = Inr (False, m') \<Longrightarrow> m' = m"
  unfolding memoryOperation_compareAndSwap_def
  by (elim bindE_InrE) (auto simp: Let_def bindE_Inr split: if_splits option.splits)

lemma memoryOperation_swaps:
  assumes "proper_key k" "\<not> om_closed m" "lower_hex 64 h" "revisionMatches (lane_content m k) e" "lane_archive m k h = None"
    and "\<And>h' r. ar = Some (h', r) \<Longrightarrow> lower_hex 64 h' \<and> h' \<noteq> h \<and> lane_content m k = Some r \<and> lane_archive m k h' = None"
  shows "\<exists>m'. memoryOperation_compareAndSwap m k e n h ar = Inr (True, m') \<and> \<not> om_closed m'"
proof -
  from assms(1) obtain lane where lane: "operationKey k = Inr lane" by (auto simp: proper_key_def)
  then have key: "operationArchiveKey k h' = Inr (lane, h')" if "lower_hex 64 h'" for h'
    using that by (cases lane) (simp add: operationArchiveKey_Inr)
  show ?thesis
    using assms(2-) key lane
    by (cases ar) (auto simp: memoryOperation_compareAndSwap_def memory_assertOpen_def guardE_def Let_def
        lane_content_key [OF assms(1) lane] lane_archive_key [OF assms(1) key])
qed

lemma operation_key_proper:
  assumes "wf_operation x"
  shows "proper_key (operationStoreKeyOf x)"
proof -
  have i: "id_ok (oi_grantId (oc_identity (op_common x)))" "int_ok 1 (oi_chainId (oc_identity (op_common x)))"
    using assms by (auto simp: wf_operation_def wf_common_def wf_op_identity_def)
  have l: "int_ok 1 (ol_key l)" if "oc_lane (op_common x) = Some l" for l
    using assms that by (auto simp: wf_operation_def wf_common_def wf_lane_def)
  have "1 \<le> ol_key l \<and> ol_key l \<le> MAX_SAFE_INTEGER" if "oc_lane (op_common x) = Some l" for l
    using l [OF that] by (simp add: int_ok_def)
  with i show ?thesis
    by (cases "oc_lane (op_common x)")
      (auto simp: proper_key_def operationStoreKeyOf_def operationKey_def operationKeyParts_def operationScopeParts_def
        bindE_Inr persistenceId_string int_ok_def safe_int_def Let_def MAX_SAFE_INTEGER_def simp del: persistenceId.simps)
qed

lemma wf_operation_hash: "wf_operation x \<Longrightarrow> lower_hex 64 (ac_hash (operation_access E) x)"
  by (simp add: operation_access_def wf_operation_def wf_common_def wf_op_identity_def)

lemma parseRead_shown_operation:
  assumes "wf_stored (operation_access (ext_of T)) wf_operation k r"
  shows "parseRead (operation_access (ext_of T)) (show_operation r) k = Inr (Some r)"
proof -
  have "parseOperation (ext_of T) (operation_literal p (sr_value r)) = Inr (sr_value r)" for p
    using assms by (intro parse_operation_literal ext_of_ok) (simp add: wf_stored_def)
  with parseRead_envelope [of "operation_access (ext_of T)" wf_operation k r operation_literal] assms
  show ?thesis by (simp add: show_operation_def operation_access_def)
qed

lemma parseRead_shown_grant:
  assumes "wf_stored (grant_access (ext_of T)) (wf_grant (ext_of T)) k r" "grant_fits (sr_value r)"
  shows "parseRead (grant_access (ext_of T)) (show_grant r) k = Inr (Some r)"
proof -
  have "parseGrant (ext_of T) (grant_literal p (sr_value r)) = Inr (sr_value r)" for p
    using assms by (simp add: parseGrant_literal [OF ext_of_ok] wf_stored_def)
  with parseRead_envelope [of "grant_access (ext_of T)" "wf_grant (ext_of T)" k r grant_literal] assms(1)
  show ?thesis by (simp add: show_grant_def grant_access_def)
qed

interpretation op_atomic: atomic_backend "serveMemoryOperation show_operation"
proof
  fix s s' and req :: "(operation_store_key, operation) request" and a
  assume "serveMemoryOperation show_operation s req = (a, s')"
  then show "s' = s \<or> a = Resolved (JBool True) \<and> (\<exists>k e n h ar. req = ReqSwap k e n h ar)"
    by (cases req) (auto simp: swap_answer_def split: sum.splits, metis (full_types) memoryOperation_no_swap)
qed

interpretation op_journal: live_journal "operation_access (ext_of T)" "operationStore_casInput (ext_of T)"
  "serveMemoryOperation show_operation" memoryOperation_close lane_content lane_archive proper_key wf_operation
  show_operation "\<lambda>m. \<not> om_closed m" "\<lambda>_. True"
  for T
proof
  fix v k e x
  assume "operationStore_casInput (ext_of T) v = Inr (k, e, x)"
  then obtain w u where i: "parseOperation (ext_of T) w = Inr x" "expectedStoreRevision u = Inr e" "operationStoreKeyOf x = k"
    by (rule operationStore_casInput_InrE)
  from parseOperation_wf [OF ext_of_ok i(1)] expectedStoreRevision_sound [OF i(2)] operation_key_proper [of x] i(3)
  show "proper_key k \<and> wf_operation x \<and> ac_keyMatches (operation_access (ext_of T)) x k \<and> pred_option (int_ok 0) e"
    by (simp add: operation_access_def)
next
  fix x assume "wf_operation x"
  then show "int_ok 0 (ac_updatedAt (operation_access (ext_of T)) x)"
    by (simp add: operation_access_def wf_operation_def wf_common_def)
next
  fix k r c assume "wf_stored (operation_access (ext_of T)) wf_operation k r"
    "parseRead (operation_access (ext_of T)) (show_operation r) k = Inr c"
  with parseRead_shown_operation [OF this(1)] show "c = Some r" by simp
next
  fix k s a s' assume "proper_key k" "serveMemoryOperation show_operation s (ReqGet k) = (a, s')"
  then show "s' = s \<and> (a = Rejected \<or> a = Resolved (shown show_operation (lane_content s k)))"
    by (auto simp: read_answer_def memoryOperation_get_def bindE_Inr lane_content_key split: sum.splits)
next
  fix k s h a s' assume "proper_key k" "serveMemoryOperation show_operation s (ReqArchived k h) = (a, s')"
  then show "s' = s \<and> (a = Rejected \<or> a = Resolved (shown show_operation (lane_archive s k h)))"
    by (auto simp: read_answer_def memoryOperation_getArchived_def bindE_Inr lane_archive_key split: sum.splits)
next
  fix k s e n h ar a s'
  assume k: "proper_key k" and "serveMemoryOperation show_operation s (ReqSwap k e n h ar) = (a, s')"
  then consider "a = Rejected" "s' = s" | swapped where "a = Resolved (JBool swapped)"
      "memoryOperation_compareAndSwap s k e n h ar = Inr (swapped, s')"
    by (auto simp: swap_answer_def split: sum.splits prod.splits)
  then show "(a \<noteq> Resolved (JBool True) \<and> lane_content s' = lane_content s \<and> lane_archive s' = lane_archive s) \<or>
      ((a = Rejected \<or> a = Resolved (JBool True)) \<and> revisionMatches (lane_content s k) e \<and>
       (ac_archives (operation_access (ext_of T)) \<longrightarrow> lane_archive s k h = None) \<and> lane_content s' = (lane_content s)(k \<mapsto> n) \<and>
       (case ar of
          None \<Rightarrow> lane_archive s' = lane_archive s
        | Some (h', r) \<Rightarrow> h' \<noteq> h \<and> lane_content s k = Some r \<and> lane_archive s k h' = None \<and>
            lane_archive s' = (lane_archive s)(k := (lane_archive s k)(h' \<mapsto> r))))"
  proof cases
    case (2 swapped)
    then show ?thesis
      using memoryOperation_swap [OF k, of s e n h ar s'] memoryOperation_no_swap [of s k e n h ar s'] by (cases swapped) auto
  qed simp
next
  fix s :: "operation operation_memory"
  show "lane_content (memoryOperation_close s) = lane_content s" "lane_archive (memoryOperation_close s) = lane_archive s"
    unfolding memoryOperation_close_def by (rule lane_content_cong lane_archive_cong, simp)+
next
  fix x y assume "ac_validateNext (operation_access (ext_of T)) (Some x) y = Inr ()" "\<not> ac_sameIdentity (operation_access (ext_of T)) x y"
  then show "ac_terminal (operation_access (ext_of T)) x \<and> ac_hash (operation_access (ext_of T)) x \<noteq> ac_hash (operation_access (ext_of T)) y"
    by (auto simp: operation_access_def validateNextOperation_def split: if_splits)
next
  fix x y assume "ac_sameIdentity (operation_access (ext_of T)) x y"
  then show "ac_hash (operation_access (ext_of T)) x = ac_hash (operation_access (ext_of T)) y"
    by (simp add: operation_access_def sameOperationIdentity_def)
next
  fix k r assume "wf_stored (operation_access (ext_of T)) wf_operation k r"
  then show "parseRead (operation_access (ext_of T)) (show_operation r) k = Inr (Some r)" by (rule parseRead_shown_operation)
next
  fix s :: "operation operation_memory" and k assume "\<not> om_closed s" "proper_key k"
  then show "serveMemoryOperation show_operation s (ReqGet k) = (Resolved (shown show_operation (lane_content s k)), s)"
    by (auto simp: read_answer_def memoryOperation_get_def memory_assertOpen_def guardE_def lane_content_def proper_key_def)
next
  fix s :: "operation operation_memory" and k x assume "\<not> om_closed s" "proper_key k" "wf_operation x"
  then show "serveMemoryOperation show_operation s (ReqArchived k (ac_hash (operation_access (ext_of T)) x)) =
      (Resolved (shown show_operation (lane_archive s k (ac_hash (operation_access (ext_of T)) x))), s)"
    using wf_operation_hash [of x]
    by (auto simp: read_answer_def memoryOperation_getArchived_def memory_assertOpen_def guardE_def lane_archive_def proper_key_def
        operationArchiveKey_def operationKey_def split: sum.split)
next
  fix s :: "operation operation_memory" and n :: "operation store_record" and k e
    and ar :: "(string \<times> operation store_record) option"
  assume "\<not> om_closed s" "proper_key k" "wf_operation (sr_value n)" "revisionMatches (lane_content s k) e"
    "ac_archives (operation_access (ext_of T)) \<Longrightarrow> lane_archive s k (ac_hash (operation_access (ext_of T)) (sr_value n)) = None"
    "\<And>h r. ar = Some (h, r) \<Longrightarrow> ac_archives (operation_access (ext_of T)) \<and> h = ac_hash (operation_access (ext_of T)) (sr_value r) \<and>
       h \<noteq> ac_hash (operation_access (ext_of T)) (sr_value n) \<and> wf_operation (sr_value r) \<and> lane_content s k = Some r \<and> lane_archive s k h = None"
  then have "\<exists>m'. memoryOperation_compareAndSwap s k e n (ac_hash (operation_access (ext_of T)) (sr_value n)) ar = Inr (True, m') \<and> \<not> om_closed m'"
    using wf_operation_hash by (intro memoryOperation_swaps) (auto simp: operation_access_def)
  then show "\<exists>s'. serveMemoryOperation show_operation s (ReqSwap k e n (ac_hash (operation_access (ext_of T)) (sr_value n)) ar) =
      (Resolved (JBool True), s') \<and> \<not> om_closed s'"
    by (auto simp: swap_answer_def)
qed

lemma memoryGrant_swap:
  assumes "memoryGrant_compareAndSwap m k e n = Inr (swapped, m')"
  shows "if swapped then revisionMatches (grant_content m k) e \<and> grant_content m' = (grant_content m)(k \<mapsto> n) else m' = m"
  using assms unfolding memoryGrant_compareAndSwap_def
  by (elim bindE_InrE)
    (auto simp: memory_compareAndSwap_def persistenceId_string grant_content_def fun_eq_iff map_of_AList_update
      simp del: persistenceId.simps split: if_splits)

lemma wf_grant_times: "wf_grant E g \<Longrightarrow> int_ok 0 (g_updatedAt g) \<and> id_ok (gi_grantId (g_identity g))"
  by (auto simp: wf_grant_def wf_grant_fields_def wf_identity_def)

interpretation grant_atomic: atomic_backend "serveMemoryGrant show_grant"
proof
  fix s s' and req :: "(string, grant) request" and a
  assume "serveMemoryGrant show_grant s req = (a, s')"
  then show "s' = s \<or> a = Resolved (JBool True) \<and> (\<exists>k e n h ar. req = ReqSwap k e n h ar)"
    by (cases req) (auto simp: swap_answer_def dest: memoryGrant_swap split: sum.splits if_splits)
qed

interpretation grant_journal: live_journal "grant_access (ext_of T)" "grantStore_casInput (ext_of T)"
  "serveMemoryGrant show_grant" memoryGrant_close grant_content "\<lambda>_ _ _. None" id_ok "wf_grant (ext_of T)"
  show_grant "\<lambda>m. \<not> gm_closed m" grant_fits
  for T
proof
  fix v k e g
  assume "grantStore_casInput (ext_of T) v = Inr (k, e, g)"
  then obtain w u where i: "parseGrant (ext_of T) w = Inr g" "expectedStoreRevision u = Inr e" "gi_grantId (g_identity g) = k"
    by (rule grantStore_casInput_InrE)
  from parseGrant_sound [OF ext_of_ok i(1)] expectedStoreRevision_sound [OF i(2)] wf_grant_times i(3)
  show "id_ok k \<and> wf_grant (ext_of T) g \<and> ac_keyMatches (grant_access (ext_of T)) g k \<and> pred_option (int_ok 0) e"
    by (auto simp: grant_access_def)
next
  fix g assume "wf_grant (ext_of T) g"
  then show "int_ok 0 (ac_updatedAt (grant_access (ext_of T)) g)" using wf_grant_times by (simp add: grant_access_def)
next
  fix k r c assume stored: "wf_stored (grant_access (ext_of T)) (wf_grant (ext_of T)) k r"
    and read: "parseRead (grant_access (ext_of T)) (show_grant r) k = Inr c"
  have "wf_grant (ext_of T) (sr_value r)" using stored by (simp add: wf_stored_def)
  then show "c = Some r"
    by (intro parseRead_envelope_value [OF read [unfolded show_grant_def] stored])
      (simp add: grant_access_def parseGrant_literal [OF ext_of_ok] split: if_splits)
next
  fix k s a s' assume "id_ok k" "serveMemoryGrant show_grant s (ReqGet k) = (a, s')"
  then show "s' = s \<and> (a = Rejected \<or> a = Resolved (shown show_grant (grant_content s k)))"
    by (auto simp: read_answer_def memoryGrant_get_def bindE_Inr grant_content_def persistenceId_string
        simp del: persistenceId.simps split: sum.splits)
next
  fix k s h a s' assume "serveMemoryGrant show_grant s (ReqArchived k h) = (a, s')"
  then show "s' = s \<and> (a = Rejected \<or> a = Resolved (shown show_grant None))" by simp
next
  fix k s e n h and ar :: "(string \<times> grant store_record) option" and a s'
  assume ar: "ar \<noteq> None \<Longrightarrow> ac_archives (grant_access (ext_of T))"
    and "serveMemoryGrant show_grant s (ReqSwap k e n h ar) = (a, s')"
  then consider "a = Rejected" "s' = s" | swapped where "a = Resolved (JBool swapped)"
      "memoryGrant_compareAndSwap s k e n = Inr (swapped, s')"
    by (auto simp: swap_answer_def split: sum.splits prod.splits)
  then have "(a \<noteq> Resolved (JBool True) \<and> grant_content s' = grant_content s) \<or>
     (a = Resolved (JBool True) \<and> revisionMatches (grant_content s k) e \<and> grant_content s' = (grant_content s)(k \<mapsto> n))"
  proof cases
    case (2 swapped)
    with memoryGrant_swap [OF 2(2)] show ?thesis by (cases swapped) auto
  qed simp
  moreover have "ar = None" using ar by (cases ar) (auto simp: grant_access_def)
  ultimately show "(a \<noteq> Resolved (JBool True) \<and> grant_content s' = grant_content s \<and> (\<lambda>_ _. None) = (\<lambda>_ _. None)) \<or>
      ((a = Rejected \<or> a = Resolved (JBool True)) \<and> revisionMatches (grant_content s k) e \<and>
       (ac_archives (grant_access (ext_of T)) \<longrightarrow> None = None) \<and> grant_content s' = (grant_content s)(k \<mapsto> n) \<and>
       (case ar of
          None \<Rightarrow> (\<lambda>_ _. None) = (\<lambda>_ _. None)
        | Some (h', r) \<Rightarrow> h' \<noteq> h \<and> grant_content s k = Some r \<and> None = None \<and>
            (\<lambda>_ _. None) = (\<lambda>_ _. None)(k := (\<lambda>_. None)(h' \<mapsto> r))))"
    by auto
next
  fix s :: "grant grant_memory"
  show "grant_content (memoryGrant_close s) = grant_content s" by (simp add: memoryGrant_close_def grant_content_def fun_eq_iff)
next
  show "ac_archives (grant_access (ext_of T)) \<Longrightarrow> P" for P by (simp add: grant_access_def)
next
  fix x y assume "ac_sameIdentity (grant_access (ext_of T)) x y"
  then show "ac_hash (grant_access (ext_of T)) x = ac_hash (grant_access (ext_of T)) y" by (simp add: grant_access_def)
next
  fix k r assume "wf_stored (grant_access (ext_of T)) (wf_grant (ext_of T)) k r" "grant_fits (sr_value r)"
  then show "parseRead (grant_access (ext_of T)) (show_grant r) k = Inr (Some r)" by (rule parseRead_shown_grant)
next
  fix s :: "grant grant_memory" and k assume "\<not> gm_closed s" "id_ok k"
  then show "serveMemoryGrant show_grant s (ReqGet k) = (Resolved (shown show_grant (grant_content s k)), s)"
    using persistenceId_string [of k "p_err Persistence_input_invalid" k]
    by (simp add: read_answer_def memoryGrant_get_def memory_assertOpen_def guardE_def grant_content_def del: persistenceId.simps)
next
  fix s :: "grant grant_memory" and n :: "grant store_record" and k e and ar :: "(string \<times> grant store_record) option"
  assume "\<not> gm_closed s" "id_ok k" "revisionMatches (grant_content s k) e"
  then show "\<exists>s'. serveMemoryGrant show_grant s (ReqSwap k e n (ac_hash (grant_access (ext_of T)) (sr_value n)) ar) =
      (Resolved (JBool True), s') \<and> \<not> gm_closed s'"
    using persistenceId_string [of k "p_err Persistence_input_invalid" k]
    by (simp add: swap_answer_def memoryGrant_compareAndSwap_def memory_compareAndSwap_def memory_assertOpen_def guardE_def
        grant_content_def del: persistenceId.simps)
qed (simp_all add: grant_access_def memoryGrant_close_def grant_content_def fun_eq_iff)

end
