(* ===== verification/Store_Properties.thy ===== *)
theory Store_Properties
  imports Memory_Store Operation_Lifecycle Grant_Lifecycle
begin

text \<open>
  The properties of the stores over their in-memory backends, under every schedule of calls: the log
  of a lane, one winner per revision, termination of a call, the uncontended commit, the durability of
  an operation's hash, and what \<open>getExact\<close> returns, alone and in a race.
\<close>

section \<open>The two systems\<close>

definition operation_system ::
    "ext \<Rightarrow> event list \<Rightarrow> (operation operation_memory, operation_store_key, operation) world" where
  "operation_system E es =
     runSchedule (operation_access E) (operationStore_casInput E) (serveMemoryOperation show_operation)
       memoryOperation_close es (emptyWorld createMemoryOperationStoreAdapter)"

definition grant_system :: "ext \<Rightarrow> event list \<Rightarrow> (grant grant_memory, string, grant) world" where
  "grant_system E es =
     runSchedule (grant_access E) (grantStore_casInput E) (serveMemoryGrant show_grant)
       memoryGrant_close es (emptyWorld createMemoryGrantStoreAdapter)"

lemma system_append:
  "operation_system E (es @ es') =
     runSchedule (operation_access E) (operationStore_casInput E) (serveMemoryOperation show_operation)
       memoryOperation_close es' (operation_system E es)"
  "grant_system E (es @ es') =
     runSchedule (grant_access E) (grantStore_casInput E) (serveMemoryGrant show_grant)
       memoryGrant_close es' (grant_system E es)"
  by (simp_all add: operation_system_def grant_system_def runSchedule_def)

lemma operation_system_ok: "\<exists>L. op_journal.world_ok T (operation_system (ext_of T) es) L"
proof -
  have "op_journal.world_ok T (emptyWorld createMemoryOperationStoreAdapter) (\<lambda>_. [])"
    by (rule op_journal.empty_ok)
      (simp_all add: createMemoryOperationStoreAdapter_def lane_content_def lane_archive_def split: sum.split)
  from op_journal.schedule_ok [OF this, of es] show ?thesis unfolding operation_system_def by blast
qed

lemma grant_system_ok: "\<exists>L. grant_journal.world_ok T (grant_system (ext_of T) es) L"
proof -
  have "grant_journal.world_ok T (emptyWorld createMemoryGrantStoreAdapter) (\<lambda>_. [])"
    by (rule grant_journal.empty_ok) (simp_all add: createMemoryGrantStoreAdapter_def grant_content_def)
  from grant_journal.schedule_ok [OF this, of es] show ?thesis unfolding grant_system_def by blast
qed

section \<open>Sample calls\<close>

definition sample_lane_key :: operation_store_key where
  "sample_lane_key = \<lparr>sc_grantId = ''grant-1'', sc_chainId = 1, sc_kind = Execution, sk_lane = Some 7\<rparr>"

definition key_literal :: "ref \<Rightarrow> operation_store_key \<Rightarrow> jsval" where
  "key_literal p k = mk_obj p
     ([(''grantId'', JString (sc_grantId k)), (''chainId'', jint (sc_chainId k)), (''kind'', JString (kind_name (sc_kind k)))] @
      (case sk_lane k of None \<Rightarrow> [] | Some n \<Rightarrow> [(''lane'', jint n)]))"

definition cas_literal :: "operation_store_key \<Rightarrow> int option \<Rightarrow> operation \<Rightarrow> jsval" where
  "cas_literal k e x = mk_obj []
     [(''key'', key_literal [PName ''key''] k), (''expectedStoreRevision'', nullable jint e),
      (''next'', operation_literal [PName ''next''] x)]"

lemma parseOperationKey_literal:
  assumes "proper_key k" "sk_lane k \<noteq> None \<Longrightarrow> sc_kind k = Execution"
  shows "parseOperationKey (key_literal p k) = Inr k"
proof -
  have k: "int_ok 1 (sc_chainId k)" "id_ok (sc_grantId k)" "\<And>n. sk_lane k = Some n \<Longrightarrow> 1 \<le> n \<and> n \<le> MAX_SAFE_INTEGER"
    using assms(1) by (fastforce simp: proper_key_def operationKey_def operationKeyParts_def operationScopeParts_def
        bindE_Inr persistenceId_string int_ok_def safe_int_def Let_def simp del: persistenceId.simps split: if_splits option.splits)+
  have kind: "canonicalOperationKind (JString (kind_name x)) = Inr x" for x
    by (cases x) (simp_all add: canonicalOperationKind_def kind_name_def literal_of_def operation_kinds_def)
  have chain: "canonicalChainId (jint (sc_chainId k)) = Inr (sc_chainId k)"
    using k(1) by (simp add: canonicalChainId_def int_ok_def)
  show ?thesis
    using assms(2) k(2) k(3)
    by (cases "sk_lane k")
      (auto simp: parseOperationKey_def key_literal_def runC_def bindC_def captureRecord_mk_obj exactCapturedRecord_def
        returnC_def names_def has_field_def fld_def st_canonicalGrantId_def js_simps kind chain Let_def
        intro!: operation_store_key.equality)
qed

lemma operation_key_execution: "wf_operation x \<Longrightarrow> sk_lane (operationStoreKeyOf x) \<noteq> None \<Longrightarrow> sc_kind (operationStoreKeyOf x) = Execution"
  by (auto simp: operationStoreKeyOf_def wf_operation_def wf_common_def wf_lane_def Let_def)

lemma operationStore_casInput_literal:
  assumes "ext_ok E" "wf_operation x" "pred_option (int_ok 0) e"
  shows "operationStore_casInput E (cas_literal (operationStoreKeyOf x) e x) = Inr (operationStoreKeyOf x, e, x)"
proof -
  have "runC (exactRecord (cas_literal (operationStoreKeyOf x) e x) [''key'', ''expectedStoreRevision'', ''next''] err) =
      Inr (names [(''key'', key_literal [PName ''key''] (operationStoreKeyOf x)), (''expectedStoreRevision'', nullable jint e),
        (''next'', operation_literal [PName ''next''] x)])" for err :: err
    unfolding cas_literal_def by (rule exactRecord_run) simp
  then show ?thesis
    using assms parseOperationKey_literal [OF operation_key_proper [OF assms(2)]] operation_key_execution [OF assms(2)]
    by (simp add: operationStore_casInput_def js_simps expectedStoreRevision_def parse_operation_literal)
qed

lemma op_sample_wf: "wf_operation op_sample_prepared" "wf_operation op_sample_attempted" "wf_operation op_sample_superseded"
  using operation_stepD(1) [OF sample_ext_ok op_sample_attempt] operation_stepD(1) [OF sample_ext_ok op_sample_pending]
    operation_stepD(1) [OF sample_ext_ok op_sample_late_pending] by simp_all

lemma sample_inputs:
  "operationStore_casInput sample_ext (cas_literal sample_lane_key None op_sample_prepared) = Inr (sample_lane_key, None, op_sample_prepared)"
  "operationStore_casInput sample_ext (cas_literal sample_lane_key (Some 0) op_sample_attempted) = Inr (sample_lane_key, Some 0, op_sample_attempted)"
proof -
  have k: "operationStoreKeyOf op_sample_prepared = sample_lane_key" "operationStoreKeyOf op_sample_attempted = sample_lane_key"
    by (simp_all add: operationStoreKeyOf_def op_sample_prepared_def op_sample_attempted_def op_sample_common_def
        op_sample_identity_def sample_lane_key_def)
  show "operationStore_casInput sample_ext (cas_literal sample_lane_key None op_sample_prepared) = Inr (sample_lane_key, None, op_sample_prepared)"
    using operationStore_casInput_literal [OF sample_ext_ok op_sample_wf(1), of None] k by simp
  show "operationStore_casInput sample_ext (cas_literal sample_lane_key (Some 0) op_sample_attempted) = Inr (sample_lane_key, Some 0, op_sample_attempted)"
    using operationStore_casInput_literal [OF sample_ext_ok op_sample_wf(2), of "Some 0"] k by (simp add: int_ok_def MAX_SAFE_INTEGER_def)
qed

section \<open>Histories of the two systems\<close>

lemma operation_history:
  assumes "ext_ok E"
  obtains L L' T where "E = ext_of T" "op_journal.world_ok T (operation_system E es) L"
    "op_journal.world_ok T (operation_system E (es @ es')) L'" "\<And>k. prefix (L k) (L' k)"
proof -
  from assms obtain T where T: "E = ext_of T" by (rule documented_extE)
  obtain L where L: "op_journal.world_ok T (operation_system E es) L" using operation_system_ok T by blast
  from op_journal.schedule_ok [OF L, of es'] obtain L' where
    "op_journal.world_ok T (operation_system E (es @ es')) L'" "\<forall>k. prefix (L k) (L' k)"
    unfolding T system_append by blast
  with that T L show thesis by blast
qed

lemma grant_history:
  assumes "ext_ok E"
  obtains L L' T where "E = ext_of T" "grant_journal.world_ok T (grant_system E es) L"
    "grant_journal.world_ok T (grant_system E (es @ es')) L'" "\<And>k. prefix (L k) (L' k)"
proof -
  from assms obtain T where T: "E = ext_of T" by (rule documented_extE)
  obtain L where L: "grant_journal.world_ok T (grant_system E es) L" using grant_system_ok T by blast
  from grant_journal.schedule_ok [OF L, of es'] obtain L' where
    "grant_journal.world_ok T (grant_system E (es @ es')) L'" "\<forall>k. prefix (L k) (L' k)"
    unfolding T system_append by blast
  with that T L show thesis by blast
qed

lemma parseOperationKey_proper: "parseOperationKey v = Inr k \<Longrightarrow> proper_key k"
  unfolding parseOperationKey_def Let_def
  by (elim bindE_InrE)
    (auto simp: proper_key_def operationKey_def operationKeyParts_def operationScopeParts_def bindE_Inr persistenceId_string
      st_canonicalGrantId_def canonicalChainId_def safe_int_def Let_def MAX_SAFE_INTEGER_def simp del: persistenceId.simps
      split: if_splits dest: isSafeInteger_bound)

abbreviation op_hash :: "operation store_record \<Rightarrow> string" where
  "op_hash r \<equiv> oi_userOperationHash (oc_identity (op_common (sr_value r)))"

lemma access_hash: "ac_hash (operation_access E) x = oi_userOperationHash (oc_identity (op_common x))"
  "ac_archives (operation_access E)" "ac_terminal (operation_access E) x \<longleftrightarrow> \<not> occupiesLane (op_state x)"
  by (simp_all add: operation_access_def)

text \<open>The two reads of \<open>getExact\<close>, the first from one state of the backend and the second from a later one.\<close>

definition getExact_between ::
    "ext \<Rightarrow> jsval \<Rightarrow> string \<Rightarrow> operation_store_key \<Rightarrow> operation operation_memory \<Rightarrow> operation operation_memory \<Rightarrow>
     err + operation store_record option" where
  "getExact_between E keyValue hash k m m' =
     getExact E keyValue (JString hash) False (fst (serveMemoryOperation show_operation m (ReqGet k)))
       False (fst (serveMemoryOperation show_operation m' (ReqArchived k hash))) False"

lemma getExact_between_reads:
  assumes "op_journal.world_ok T w L" "op_journal.world_ok T w' L'" "parseOperationKey v = Inr k" "lower_hex 64 h"
    and "\<not> om_closed (w_adapter w)" "\<not> om_closed (w_adapter w')"
  shows "getExact_between (ext_of T) v h k (w_adapter w) (w_adapter w') =
    exactRecordOf h (lane_content (w_adapter w) k) (lane_archive (w_adapter w') k h)"
proof -
  let ?A = "operation_access (ext_of T)"
  have k: "proper_key k" by (rule parseOperationKey_proper [OF assms(3)])
  have key: "operationArchiveKey k h \<noteq> Inl e" for e
    using k assms(4) by (auto simp: proper_key_def operationArchiveKey_def operationKey_def)
  have get: "fst (serveMemoryOperation show_operation (w_adapter w) (ReqGet k)) =
      Resolved (shown show_operation (lane_content (w_adapter w) k))"
    using op_journal.live_get [OF assms(5) k] by simp
  have arch: "fst (serveMemoryOperation show_operation (w_adapter w') (ReqArchived k h)) =
      Resolved (shown show_operation (lane_archive (w_adapter w') k h))"
    using assms(6) k key
    by (auto simp: read_answer_def memoryOperation_getArchived_def memory_assertOpen_def guardE_def lane_archive_def
        proper_key_def split: sum.splits)
  have "store_get ?A False k (Resolved (shown show_operation (lane_content (w_adapter w) k))) = Inr (lane_content (w_adapter w) k)"
  proof (cases "lane_content (w_adapter w) k")
    case None
    then show ?thesis by (simp add: store_get_def assertOpen_def guardE_def op_journal.readAnswer_none)
  next
    case (Some r)
    then have "wf_stored ?A wf_operation k r"
      using op_journal.world_ok_log [OF assms(1), of k] by (auto simp: last_of_def intro: log_ok_wf split: if_splits)
    with Some show ?thesis by (simp add: store_get_def assertOpen_def guardE_def op_journal.readAnswer_shown)
  qed
  moreover have "archivedAnswer ?A False k h (Resolved (shown show_operation (lane_archive (w_adapter w') k h))) =
      Inr (lane_archive (w_adapter w') k h)"
  proof (cases "lane_archive (w_adapter w') k h")
    case None
    then show ?thesis by (simp add: archivedAnswer_def shown_def parseStored_def assertOpen_def guardE_def parseRead_def)
  next
    case (Some r)
    with op_journal.world_ok_archive [OF assms(2) Some] show ?thesis
      by (auto simp: archivedAnswer_def shown_def parseStored_def assertOpen_def guardE_def parseRead_shown_operation access_hash)
  qed
  ultimately show ?thesis
    using assms(3,4) get arch
    by (simp add: getExact_between_def getExact_def canonicalUserOperationHash_def assertOpen_def guardE_def js_simps)
qed

lemma log_ok_grant_identity:
  assumes "log_ok (grant_access E) valid k rs" "r \<in> set rs" "r' \<in> set rs"
  shows "g_identity (sr_value r) = g_identity (sr_value r')"
proof -
  have "successively (\<lambda>a b. g_identity (sr_value a) = g_identity (sr_value b)) rs"
    using assms(1) unfolding log_ok_def by (auto simp: grant_access_def elim: successively_mono)
  then have "r \<in> set rs \<Longrightarrow> g_identity (sr_value r) = g_identity (sr_value (hd rs))" for r
    by (induction rs rule: induct_list012) auto
  with assms(2,3) show ?thesis by metis
qed
section \<open>A sample history\<close>

text \<open>A superseded operation is stored, then replaced by the next operation of the lane.\<close>

definition second_operation :: operation where
  "second_operation = \<lparr>op_common = (op_sample_common 0 150 None)
     \<lparr>oc_preparedAt := 150, oc_identity := op_sample_identity\<lparr>oi_userOperationHash := ''0x'' @ replicate 64 (CHR ''2'')\<rparr>\<rparr>,
     op_state = Prepared\<rparr>"

definition first_record :: "operation store_record" where
  "first_record = \<lparr>sr_storeRevision = 0, sr_updatedAt = 140, sr_value = op_sample_superseded\<rparr>"

definition second_record :: "operation store_record" where
  "second_record = \<lparr>sr_storeRevision = 1, sr_updatedAt = 150, sr_value = second_operation\<rparr>"

definition first_schedule :: "event list" where
  "first_schedule = alone 0 (cas_literal sample_lane_key None op_sample_superseded)"

definition second_schedule :: "event list" where
  "second_schedule = alone 1 (cas_literal sample_lane_key (Some 0) second_operation)"

lemma second_operation_wf: "wf_operation second_operation"
proof -
  have "oc_lane (op_common second_operation) = oc_lane (op_common op_sample_prepared)"
    "oc_submission (op_common second_operation) = None" "oc_observation (op_common second_operation) = None"
    "oi_kind (oc_identity (op_common second_operation)) = oi_kind (oc_identity (op_common op_sample_prepared))"
    by (simp_all add: second_operation_def op_sample_prepared_def op_sample_common_def)
  moreover have "wf_op_identity (oc_identity (op_common second_operation))"
  proof -
    have "lower_hex 64 (''0x'' @ replicate 64 (CHR ''2''))" by code_simp
    with op_sample_wf(1) show ?thesis
      by (simp add: wf_operation_def wf_common_def wf_op_identity_def second_operation_def op_sample_prepared_def op_sample_common_def)
  qed
  ultimately show ?thesis
    using op_sample_wf(1)
    by (simp add: wf_operation_def wf_common_def second_operation_def op_sample_prepared_def op_sample_common_def
        prepared_order_def int_ok_def MAX_SAFE_INTEGER_def)
qed

lemma sample_keys: "operationStoreKeyOf op_sample_superseded = sample_lane_key" "operationStoreKeyOf second_operation = sample_lane_key"
  by (simp_all add: operationStoreKeyOf_def op_sample_superseded_def second_operation_def op_sample_common_def
      op_sample_identity_def sample_lane_key_def)

lemma sample_calls:
  "operationStore_casInput sample_ext (cas_literal sample_lane_key None op_sample_superseded) =
     Inr (sample_lane_key, None, op_sample_superseded)"
  "operationStore_casInput sample_ext (cas_literal sample_lane_key (Some 0) second_operation) =
     Inr (sample_lane_key, Some 0, second_operation)"
  using operationStore_casInput_literal [OF sample_ext_ok op_sample_wf(3), of None]
    operationStore_casInput_literal [OF sample_ext_ok second_operation_wf, of "Some 0"]
  by (simp_all add: sample_keys int_ok_def MAX_SAFE_INTEGER_def)

lemma sample_hashes: "op_hash first_record \<noteq> op_hash second_record" "op_hash first_record = ''0x'' @ replicate 64 (CHR ''1'')"
  "op_hash second_record = ''0x'' @ replicate 64 (CHR ''2'')"
  by (simp_all add: first_record_def second_record_def second_operation_def op_sample_superseded_def op_sample_common_def
      op_sample_identity_def)
lemma memoryOperation_cas_open:
  "memoryOperation_compareAndSwap m k e n h ar = Inr (b, m') \<Longrightarrow> om_closed m' = om_closed m"
  unfolding memoryOperation_compareAndSwap_def
  by (elim bindE_InrE) (auto simp: Let_def bindE_Inr split: if_splits option.splits)

lemma serve_open: "serveMemoryOperation show_record m req = (a, m') \<Longrightarrow> om_closed m' = om_closed m"
  by (cases req) (auto simp: swap_answer_def dest: memoryOperation_cas_open split: sum.splits)

lemma event_quiet:
  "e \<noteq> CloseAdapter \<Longrightarrow>
   om_closed (w_adapter (runEvent A input (serveMemoryOperation show_record) shut e w)) = om_closed (w_adapter w)"
  "(\<And>closed v. e \<noteq> Start i closed v) \<Longrightarrow> w_calls w i = None \<Longrightarrow>
   w_calls (runEvent A input (serveMemoryOperation show_record) shut e w) i = None"
  by (cases e; auto simp: startCall_def serveCall_def resumeCall_def dest: serve_open
      split: option.splits sum.splits prod.splits)+

lemma system_open: "CloseAdapter \<notin> set es \<Longrightarrow> \<not> om_closed (w_adapter (operation_system E es))"
  by (induction es rule: rev_induct)
    (auto simp: system_append(1) runSchedule_def event_quiet(1) operation_system_def emptyWorld_def
      createMemoryOperationStoreAdapter_def)

lemma system_fresh: "(\<And>closed v. Start i closed v \<notin> set es) \<Longrightarrow> w_calls (operation_system E es) i = None"
proof (induction es rule: rev_induct)
  case Nil
  then show ?case by (simp add: operation_system_def runSchedule_def emptyWorld_def)
next
  case (snoc e es)
  have run: "operation_system E (es @ [e]) = runEvent (operation_access E) (operationStore_casInput E)
      (serveMemoryOperation show_operation) memoryOperation_close e (operation_system E es)"
    by (simp add: system_append(1) runSchedule_def)
  show ?case unfolding run using snoc by (intro event_quiet(2)) auto
qed

lemma commit_alone:
  assumes "ext_ok E" "w_calls (operation_system E es) i = None" "\<not> om_closed (w_adapter (operation_system E es))"
    and "operationStore_casInput E v = Inr (k, e, x)" "e \<noteq> Some MAX_SAFE_INTEGER"
    and "revisionMatches (lane_content (w_adapter (operation_system E es)) k) e"
    and "validateNextOperation (map_option sr_value (lane_content (w_adapter (operation_system E es)) k)) x = Inr ()"
    and "lane_archive (w_adapter (operation_system E es)) k (oi_userOperationHash (oc_identity (op_common x))) = None"
  defines "n \<equiv> \<lparr>sr_storeRevision = (case e of None \<Rightarrow> 0 | Some m \<Rightarrow> m + 1), sr_updatedAt = oc_updatedAt (op_common x), sr_value = x\<rparr>"
  shows "outcome (operation_system E (es @ alone i v)) i = Some (Inr (Committed n)) \<and>
    lane_content (w_adapter (operation_system E (es @ alone i v))) k = Some n"
proof -
  from assms(1) obtain T where T: "E = ext_of T" by (rule documented_extE)
  obtain L where L: "op_journal.world_ok T (operation_system E es) L" using operation_system_ok T by blast
  have "nextStoreRevision e = Inr (case e of None \<Rightarrow> 0 | Some m \<Rightarrow> m + 1)" using assms(5) by (simp add: nextStoreRevision_Inr)
  from op_journal.uncontended_commit [OF L assms(3,2) assms(4) [unfolded T] assms(6) this] assms(7,8)
  show ?thesis unfolding T system_append by (simp add: operation_access_def n_def comp_def option.pred_True)
qed

lemma no_archive_below:
  assumes "ext_ok E" "\<And>r. lane_content (w_adapter (operation_system E es)) k = Some r \<Longrightarrow> sr_storeRevision r \<le> 0"
  shows "lane_archive (w_adapter (operation_system E es)) k h = None"
proof (rule ccontr)
  assume "lane_archive (w_adapter (operation_system E es)) k h \<noteq> None"
  then obtain r where r: "lane_archive (w_adapter (operation_system E es)) k h = Some r" by blast
  from assms(1) obtain T L where T: "E = ext_of T" and L: "op_journal.world_ok T (operation_system E es) L"
    using operation_system_ok documented_extE by metis
  from op_journal.world_ok_archive [OF L r] assms(2) show False by (force simp: wf_stored_def int_ok_def)
qed

lemma first_committed:
  "outcome (operation_system sample_ext first_schedule) 0 = Some (Inr (Committed first_record))"
  "lane_content (w_adapter (operation_system sample_ext first_schedule)) sample_lane_key = Some first_record"
proof -
  have "lane_content (w_adapter (operation_system sample_ext [])) sample_lane_key = None"
    by (simp add: operation_system_def runSchedule_def emptyWorld_def createMemoryOperationStoreAdapter_def lane_content_def split: sum.split)
  moreover from this have "lane_archive (w_adapter (operation_system sample_ext [])) sample_lane_key h = None" for h
    by (intro no_archive_below [OF sample_ext_ok]) simp
  ultimately have "outcome (operation_system sample_ext ([] @ first_schedule)) 0 = Some (Inr (Committed first_record)) \<and>
     lane_content (w_adapter (operation_system sample_ext ([] @ first_schedule))) sample_lane_key = Some first_record"
    unfolding first_schedule_def
    using commit_alone [OF sample_ext_ok _ _ sample_calls(1), of "[]" 0] system_open [of "[]"] system_fresh [of 0 "[]"]
    by (simp add: revisionMatches_def validateNextOperation_def first_record_def op_sample_superseded_def op_sample_common_def)
  then show "outcome (operation_system sample_ext first_schedule) 0 = Some (Inr (Committed first_record))"
    "lane_content (w_adapter (operation_system sample_ext first_schedule)) sample_lane_key = Some first_record" by simp_all
qed

lemma sample_quiet: "CloseAdapter \<notin> set first_schedule" "CloseAdapter \<notin> set second_schedule" "Start 1 c v \<notin> set first_schedule"
  by (auto simp: first_schedule_def second_schedule_def alone_def)

lemma second_committed:
  "outcome (operation_system sample_ext (first_schedule @ second_schedule)) 1 = Some (Inr (Committed second_record))"
  "lane_content (w_adapter (operation_system sample_ext (first_schedule @ second_schedule))) sample_lane_key = Some second_record"
proof -
  have "lane_archive (w_adapter (operation_system sample_ext first_schedule)) sample_lane_key h = None" for h
    by (intro no_archive_below [OF sample_ext_ok]) (simp add: first_committed(2) first_record_def)
  moreover have "validateNextOperation (Some (sr_value first_record)) second_operation = Inr ()"
    using sample_hashes(1)
    by (auto simp: validateNextOperation_def first_record_def second_record_def op_sample_superseded_def sameOperationIdentity_def)
  moreover have "(0::int) \<noteq> MAX_SAFE_INTEGER" by (simp add: MAX_SAFE_INTEGER_def)
  ultimately show "outcome (operation_system sample_ext (first_schedule @ second_schedule)) 1 = Some (Inr (Committed second_record))"
    "lane_content (w_adapter (operation_system sample_ext (first_schedule @ second_schedule))) sample_lane_key = Some second_record"
    using commit_alone [OF sample_ext_ok system_fresh [of 1 first_schedule] system_open [OF sample_quiet(1)] sample_calls(2)]
      first_committed(2) sample_quiet(3)
    by (simp_all add: second_schedule_def revisionMatches_def first_record_def second_record_def second_operation_def op_sample_common_def)
qed

lemma outcome_committed:
  assumes "ext_ok E" "outcome (operation_system E es) i = Some (Inr (Committed r))"
  shows "committed_by (operation_system E es) i (operationStoreKeyOf (sr_value r)) r"
proof -
  obtain call pending where call: "w_calls (operation_system E es) i = Some (call, pending)"
    and ph: "cc_phase call = Settled (Inr (Committed r))"
    using assms(2) by (auto simp: outcome_def split: option.splits cas_phase.splits)
  obtain T L where "op_journal.world_ok T (operation_system E es) L"
    using operation_system_ok documented_extE [OF assms(1)] by metis
  with call ph have "ac_keyMatches (operation_access (ext_of T)) (sr_value r) (cc_key call)"
    by (fastforce simp: op_journal.world_ok_def op_journal.call_ok_def op_journal.next_of_def)
  then have "cc_key call = operationStoreKeyOf (sr_value r)" by (simp add: operation_access_def)
  with call ph show ?thesis by (auto simp: committed_by_def)
qed

lemma sample_commits:
  "committed_by (operation_system sample_ext first_schedule) 0 sample_lane_key first_record"
  "committed_by (operation_system sample_ext (first_schedule @ second_schedule)) 1 sample_lane_key second_record"
  using outcome_committed [OF sample_ext_ok first_committed(1)] outcome_committed [OF sample_ext_ok second_committed(1)]
  by (simp_all add: first_record_def second_record_def sample_keys)

text \<open>A call that still expects the lane to be empty after the first operation is stored: it conflicts.\<close>

definition stale_schedule :: "event list" where
  "stale_schedule = alone 1 (cas_literal sample_lane_key None second_operation)"

lemma stale_conflicts:
  "outcome (operation_system sample_ext (first_schedule @ stale_schedule)) 1 = Some (Inr (Conflict (Some first_record)))"
proof -
  obtain T where T: "ext_of T = sample_ext" using documented_extE [OF sample_ext_ok] by metis
  obtain L where L: "op_journal.world_ok T (operation_system sample_ext first_schedule) L"
    using operation_system_ok [of T first_schedule] T by auto
  have input: "operationStore_casInput sample_ext (cas_literal sample_lane_key None second_operation) =
      Inr (sample_lane_key, None, second_operation)"
    using operationStore_casInput_literal [OF sample_ext_ok second_operation_wf, of None] by (simp add: sample_keys)
  have "lane_archive (w_adapter (operation_system sample_ext first_schedule)) sample_lane_key h = None" for h
    by (intro no_archive_below [OF sample_ext_ok]) (simp add: first_committed(2) first_record_def)
  with op_journal.stale_conflict [OF L _ _ input [folded T], of 1] first_committed(2) system_open [OF sample_quiet(1), of sample_ext]
    system_fresh [of 1 first_schedule sample_ext] sample_quiet(3)
  show ?thesis unfolding system_append stale_schedule_def T [symmetric] by (simp add: T revisionMatches_def)
qed

definition grant_cas_literal :: "int option \<Rightarrow> grant \<Rightarrow> jsval" where
  "grant_cas_literal e g = mk_obj []
     [(''grantId'', JString (gi_grantId (g_identity g))), (''expectedStoreRevision'', nullable jint e),
      (''next'', grant_literal [PName ''next''] g)]"

lemma grantStore_casInput_literal:
  assumes "ext_ok E" "wf_grant E g" "pred_option (int_ok 0) e" "grant_fits g"
  shows "grantStore_casInput E (grant_cas_literal e g) = Inr (gi_grantId (g_identity g), e, g)"
proof -
  have "runC (exactRecord (grant_cas_literal e g) [''grantId'', ''expectedStoreRevision'', ''next''] err) =
      Inr (names [(''grantId'', JString (gi_grantId (g_identity g))), (''expectedStoreRevision'', nullable jint e),
        (''next'', grant_literal [PName ''next''] g)])" for err :: err
    unfolding grant_cas_literal_def by (rule exactRecord_run) simp
  then show ?thesis
    using assms wf_grant_times [OF assms(2)]
    by (simp add: grantStore_casInput_def js_simps st_canonicalGrantId_def expectedStoreRevision_def parseGrant_literal)
qed

definition grant_schedule :: "event list" where
  "grant_schedule = alone 0 (grant_cas_literal None sample_requested)"

lemma grant_stored:
  "grant_content (w_adapter (grant_system sample_ext grant_schedule)) ''grant-1'' =
     Some \<lparr>sr_storeRevision = 0, sr_updatedAt = 100, sr_value = sample_requested\<rparr>"
proof -
  obtain T where T: "ext_of T = sample_ext" using documented_extE [OF sample_ext_ok] by metis
  have wf: "wf_grant sample_ext sample_requested" by (rule reachable_wf [OF sample_reachable(1) sample_ext_ok])
  have id: "gi_grantId (g_identity sample_requested) = ''grant-1''" by (simp add: sample_requested_def sample_identity_def)
  have fits: "grant_fits sample_requested"
    by (simp add: sample_requested_def sample_identity_def origin_fits_def)
  have input: "grantStore_casInput sample_ext (grant_cas_literal None sample_requested) = Inr (''grant-1'', None, sample_requested)"
    using grantStore_casInput_literal [OF sample_ext_ok wf, of None] id fits by simp
  obtain L where "grant_journal.world_ok T (grant_system sample_ext []) L" using grant_system_ok [of T "[]"] T by auto
  moreover have "grant_system sample_ext [] = emptyWorld createMemoryGrantStoreAdapter"
    by (simp add: grant_system_def runSchedule_def)
  ultimately have ok: "grant_journal.world_ok T (emptyWorld createMemoryGrantStoreAdapter) L" by simp
  show ?thesis
    using grant_journal.uncontended_commit [OF ok _ _ input [folded T], of 0 0] fits
    unfolding grant_system_def grant_schedule_def
    by (simp add: T emptyWorld_def createMemoryGrantStoreAdapter_def grant_content_def revisionMatches_def
        nextStoreRevision_def grant_access_def) (simp add: sample_requested_def)
qed
section \<open>Properties\<close>

text \<open>C7: Concurrent compare-and-swap calls implement an append-only log. Under every schedule each lane has a log
  whose \<open>n\<close>-th entry has store revision \<open>n\<close>, each entry accepted by the successor check against the entry
  before it; the lane holds the last entry, every record a call reported as committed is an entry, and whatever
  happens next only appends.\<close>

theorem lane_is_a_log:
  assumes "ext_ok E"
  shows "\<exists>L L'. \<forall>k.
    log_ok (operation_access E) wf_operation k (L k) \<and> log_ok (operation_access E) wf_operation k (L' k) \<and>
    lane_content (w_adapter (operation_system E es)) k = last_of (L k) \<and>
    lane_content (w_adapter (operation_system E (es @ es'))) k = last_of (L' k) \<and> prefix (L k) (L' k) \<and>
    {r. \<exists>i. committed_by (operation_system E es) i k r} \<subseteq> set (L k)"
  using assms
proof (rule operation_history [where es = es and es' = es'])
  fix L L' T
  assume T: "E = ext_of T" and ok: "op_journal.world_ok T (operation_system E es) L"
    "op_journal.world_ok T (operation_system E (es @ es')) L'" "\<And>k. prefix (L k) (L' k)"
  then show ?thesis
    using op_journal.world_ok_log [OF ok(1)] op_journal.world_ok_log [OF ok(2)] op_journal.world_ok_committed [OF ok(1)]
    by (intro exI [of _ L] exI [of _ L']) (auto simp: T)
qed

theorem lane_is_a_log_witness:
  "\<exists>rs. lane_content (w_adapter (operation_system sample_ext first_schedule)) sample_lane_key = last_of rs \<and> first_record \<in> set rs"
  using lane_is_a_log [OF sample_ext_ok, of first_schedule "[]"] first_committed(2)
  by (metis last_in_set last_of_Some)

text \<open>C3: No update is lost. Under every schedule a store revision of a lane is committed by at most one call.\<close>

theorem revision_won_once:
  assumes "ext_ok E" and "committed_by (operation_system E es) i k r" and "committed_by (operation_system E es) j k r'"
    and "sr_storeRevision r = sr_storeRevision r'"
  shows "i = j \<and> r = r'"
  using assms(1)
proof (rule operation_history [where es = es and es' = "[]"])
  fix L L' T
  assume ok: "op_journal.world_ok T (operation_system E es) L"
  have "i = j" by (rule op_journal.world_ok_winner [OF ok assms(2-4)])
  moreover have "r = r'" using assms(2,3) \<open>i = j\<close> by (auto simp: committed_by_def)
  ultimately show ?thesis by simp
qed

theorem revision_won_once_witness:
  "\<not> committed_by (operation_system sample_ext (first_schedule @ second_schedule)) 0 sample_lane_key second_record"
  using revision_won_once [OF sample_ext_ok _ sample_commits(2), of 0 second_record] by auto

text \<open>C35: A call that fails leaves nothing behind. If a compare-and-swap over the in-memory adapter settles with a
  conflict or with any error other than the report that its commit could not be verified, then the schedule without
  that call's events, however the events of other calls fall between them, leads to the same lanes, the same archive
  and the same state of every other call.\<close>

theorem failed_call_has_no_effect:
  assumes "outcome (operation_system E es) i = Some res"
    and "\<forall>r. res \<noteq> Inr (Committed r)" and "res \<noteq> Inl (s_err Store_commit_unverified)"
  defines "without \<equiv> operation_system E (filter (\<lambda>e. event_call e \<noteq> Some i) es)"
  shows "w_adapter (operation_system E es) = w_adapter without \<and>
    (\<forall>j. j \<noteq> i \<longrightarrow> w_calls (operation_system E es) j = w_calls without j)"
  using op_atomic.failed_call_apart [OF assms(1) [unfolded operation_system_def]] assms(2,3)
  unfolding without_def operation_system_def op_atomic.apart_def by simp

theorem failed_call_has_no_effect_witness:
  "w_adapter (operation_system sample_ext (first_schedule @ stale_schedule)) = w_adapter (operation_system sample_ext first_schedule)"
proof -
  have "filter (\<lambda>e. event_call e \<noteq> Some 1) (first_schedule @ stale_schedule) = first_schedule"
    by (simp add: first_schedule_def stale_schedule_def alone_def numeral_eq_Suc)
  with failed_call_has_no_effect [OF stale_conflicts] show ?thesis by simp
qed

text \<open>C36: An uncontended call commits. With the adapter open, a captured compare-and-swap whose expected revision is
  the lane's, whose record the successor check accepts and whose hash is not in the lane's history, run alone,
  reports the record committed at the next revision, and the lane holds it.\<close>

theorem uncontended_call_commits:
  assumes "ext_ok E" and "w_calls (operation_system E es) i = None" and "\<not> om_closed (w_adapter (operation_system E es))"
    and "operationStore_casInput E v = Inr (k, e, x)" and "e \<noteq> Some MAX_SAFE_INTEGER"
    and "revisionMatches (lane_content (w_adapter (operation_system E es)) k) e"
    and "validateNextOperation (map_option sr_value (lane_content (w_adapter (operation_system E es)) k)) x = Inr ()"
    and "lane_archive (w_adapter (operation_system E es)) k (oi_userOperationHash (oc_identity (op_common x))) = None"
  shows "\<exists>n. outcome (operation_system E (es @ alone i v)) i = Some (Inr (Committed n)) \<and>
    lane_content (w_adapter (operation_system E (es @ alone i v))) k = Some n \<and>
    sr_value n = x \<and> sr_storeRevision n = (case e of None \<Rightarrow> 0 | Some m \<Rightarrow> m + 1)"
  using commit_alone [OF assms] by simp

theorem uncontended_call_commits_witness:
  "\<exists>n. outcome (operation_system sample_ext ([] @ first_schedule)) 0 = Some (Inr (Committed n)) \<and> sr_value n = op_sample_superseded"
proof -
  have e: "lane_content (w_adapter (operation_system sample_ext [])) sample_lane_key = None"
    by (simp add: operation_system_def runSchedule_def emptyWorld_def createMemoryOperationStoreAdapter_def lane_content_def split: sum.split)
  then have "lane_archive (w_adapter (operation_system sample_ext [])) sample_lane_key h = None" for h
    by (intro no_archive_below [OF sample_ext_ok]) simp
  with e show ?thesis unfolding first_schedule_def
    using uncontended_call_commits [OF sample_ext_ok _ _ sample_calls(1), of "[]" 0] system_open [of "[]"] system_fresh [of 0 "[]"]
    by (auto simp: revisionMatches_def validateNextOperation_def)
qed

text \<open>C4: No operation is lost. A record once committed is, after any further schedule, still found under its hash:
  either the lane's current record has that hash, or the archive holds a record of that hash that has released
  the lane; in both cases at a revision at least as high.\<close>

theorem operation_never_lost:
  assumes "ext_ok E" and "committed_by (operation_system E es) i k r"
  shows "\<exists>r'. (lane_content (w_adapter (operation_system E (es @ es'))) k = Some r' \<or>
      lane_archive (w_adapter (operation_system E (es @ es'))) k (op_hash r) = Some r' \<and> \<not> occupiesLane (op_state (sr_value r'))) \<and>
    op_hash r' = op_hash r \<and> sr_storeRevision r \<le> sr_storeRevision r'"
  using assms(1)
proof (rule operation_history [where es = es and es' = es'])
  fix L L' T
  assume ok: "op_journal.world_ok T (operation_system E es) L"
    "op_journal.world_ok T (operation_system E (es @ es')) L'" "\<And>k. prefix (L k) (L' k)"
  have "r \<in> set (L' k)"
    using op_journal.world_ok_committed [OF ok(1) assms(2)] ok(3) [of k] by (auto simp: prefix_def)
  from op_journal.world_ok_durable [OF ok(2) this access_hash(2)] op_journal.world_ok_archive [OF ok(2)] show ?thesis
    by (auto simp: access_hash)
qed

theorem operation_never_lost_witness:
  "lane_archive (w_adapter (operation_system sample_ext (first_schedule @ second_schedule))) sample_lane_key (op_hash first_record) \<noteq> None"
  using operation_never_lost [OF sample_ext_ok sample_commits(1), of second_schedule] second_committed(2) sample_hashes(1) by auto

text \<open>C37: \<open>getExact\<close> reads the lane and then the archive. When the lane did not change in between, it returns the
  current record if its hash is the requested one and the archived record otherwise, and never fails. But when the
  current record it read was replaced before the archive was read, it fails with \<open>store_record_invalid\<close> although
  both the journal and the archive are intact.\<close>

theorem getExact_alone_and_raced:
  assumes "ext_ok E" and "parseOperationKey v = Inr k" and "lower_hex 64 h"
    and "\<not> om_closed (w_adapter (operation_system E es))" and "\<not> om_closed (w_adapter (operation_system E (es @ es')))"
    and "c = lane_content (w_adapter (operation_system E es)) k"
    and "c' = lane_content (w_adapter (operation_system E (es @ es'))) k"
  shows "(c' = c \<longrightarrow>
      getExact_between E v h k (w_adapter (operation_system E es)) (w_adapter (operation_system E (es @ es'))) =
      Inr (if map_option op_hash c = Some h then c else lane_archive (w_adapter (operation_system E (es @ es'))) k h)) \<and>
    (map_option op_hash c = Some h \<and> map_option op_hash c' \<noteq> Some h \<longrightarrow>
      getExact_between E v h k (w_adapter (operation_system E es)) (w_adapter (operation_system E (es @ es'))) =
      Inl (s_err Store_record_invalid))"
  using assms(1)
proof (rule operation_history [where es = es and es' = es'])
  fix L L' T
  assume T: "E = ext_of T" and ok: "op_journal.world_ok T (operation_system E es) L"
    "op_journal.world_ok T (operation_system E (es @ es')) L'" "\<And>k. prefix (L k) (L' k)"
  let ?a = "lane_archive (w_adapter (operation_system E (es @ es'))) k h"
  have reads: "getExact_between E v h k (w_adapter (operation_system E es)) (w_adapter (operation_system E (es @ es'))) =
      exactRecordOf h c ?a"
    using getExact_between_reads [OF ok(1,2) assms(2,3,4,5)] T assms(6) by simp
  have archived: "\<exists>r. c' = Some r \<and> sr_storeRevision a < sr_storeRevision r \<and> op_hash r \<noteq> h" if "?a = Some a" for a
    using op_journal.world_ok_archive [OF ok(2) that] assms(7) by (auto simp: access_hash)
  have "exactRecordOf h c ?a = Inr (if map_option op_hash c = Some h then c else ?a)" if "c' = c"
    using archived that by (cases ?a) (auto simp: exactRecordOf_def)
  moreover have "exactRecordOf h c ?a = Inl (s_err Store_record_invalid)"
    if "map_option op_hash c = Some h" "map_option op_hash c' \<noteq> Some h"
  proof -
    from that(1) obtain r where r: "c = Some r" "op_hash r = h" by auto
    then have "r \<in> set (L' k)"
      using op_journal.world_ok_log [OF ok(1), of k] ok(3) [of k] assms(6)
      by (auto simp: last_of_def prefix_def split: if_splits)
    from op_journal.world_ok_durable [OF ok(2) this access_hash(2)] r(2) that(2) assms(7)
    obtain a where "?a = Some a" "sr_storeRevision r \<le> sr_storeRevision a" by (auto simp: access_hash)
    with r show ?thesis by (simp add: exactRecordOf_def)
  qed
  ultimately show ?thesis by (simp add: reads)
qed

theorem getExact_alone_and_raced_witness:
  "getExact_between sample_ext (key_literal [] sample_lane_key) (op_hash first_record) sample_lane_key
     (w_adapter (operation_system sample_ext first_schedule)) (w_adapter (operation_system sample_ext (first_schedule @ second_schedule))) =
   Inl (s_err Store_record_invalid)"
proof -
  have key: "parseOperationKey (key_literal [] sample_lane_key) = Inr sample_lane_key"
    using parseOperationKey_literal [of sample_lane_key] operation_key_proper [OF op_sample_wf(3)]
    by (simp add: sample_keys) (simp add: sample_lane_key_def)
  have hash: "lower_hex 64 (op_hash first_record)"
    using op_sample_wf(3) by (simp add: first_record_def wf_operation_def wf_common_def wf_op_identity_def)
  show ?thesis
    using getExact_alone_and_raced [OF sample_ext_ok key hash system_open system_open HOL.refl HOL.refl, of first_schedule second_schedule]
      sample_quiet first_committed(2) second_committed(2) sample_hashes(1) by auto
qed

text \<open>C38: The identity of a stored Grant is fixed, and a stored Grant never disappears or goes back: after any further
  schedule the key still holds a record of the same identity, at a revision at least as high.\<close>

theorem grant_identity_fixed:
  assumes "ext_ok E" and "grant_content (w_adapter (grant_system E es)) k = Some r"
  shows "\<exists>r'. grant_content (w_adapter (grant_system E (es @ es'))) k = Some r' \<and>
    g_identity (sr_value r') = g_identity (sr_value r) \<and> sr_storeRevision r \<le> sr_storeRevision r'"
  using assms(1)
proof (rule grant_history [where es = es and es' = es'])
  fix L L' T
  assume ok: "grant_journal.world_ok T (grant_system E es) L" "grant_journal.world_ok T (grant_system E (es @ es')) L'"
    "\<And>k. prefix (L k) (L' k)"
  have r: "r \<in> set (L' k)"
    using grant_journal.world_ok_log [OF ok(1), of k] ok(3) [of k] assms(2)
    by (auto simp: last_of_def prefix_def split: if_splits)
  have log: "log_ok (grant_access (ext_of T)) (wf_grant (ext_of T)) k (L' k)"
    and content: "grant_content (w_adapter (grant_system E (es @ es'))) k = last_of (L' k)"
    using grant_journal.world_ok_log [OF ok(2), of k] by auto
  from r have ne: "L' k \<noteq> []" by auto
  then have "last (L' k) \<in> set (L' k)" by simp
  with ne log_ok_grant_identity [OF log _ r] log_ok_last(1) [OF log r] content show ?thesis by (auto simp: last_of_def)
qed

theorem grant_identity_fixed_witness:
  "\<exists>r'. grant_content (w_adapter (grant_system sample_ext (grant_schedule @ [CloseAdapter]))) ''grant-1'' = Some r' \<and>
     g_identity (sr_value r') = sample_identity"
  using grant_identity_fixed [OF sample_ext_ok grant_stored, of "[CloseAdapter]"] by (auto simp: sample_requested_def)

end
