(* ===== verification/Prepared_User_Operation.thy ===== *)
theory Prepared_User_Operation
  imports Operation_Codec
begin

text \<open>
  Model of \<open>packages/sdk/src/prepared-user-operation.ts\<close>: the unsigned UserOperation an owner prepares,
  the record \<open>prepareUserOperation\<close> makes of it, \<open>parsePreparedUserOperation\<close>, which accepts a record
  only with the hash of its own fields, and \<open>deriveOperationId\<close>.

  \<open>getSigningHash\<close> (package \<open>cetane\<close>) is the parameter \<open>H\<close>; what is relied on is that it returns a
  lowercase 32-byte hash. Byte data may be given as a \<open>Uint8Array\<close> to \<open>prepareUserOperation\<close> only. The
  loop over the element descriptors of such an array is part of the value: the elements of a typed
  array are data properties.
\<close>

section \<open>Data\<close>

definition OAATH_PREPARED_USER_OPERATION_VERSION :: string where
  "OAATH_PREPARED_USER_OPERATION_VERSION = ''oaath.prepared-user-operation/v1''"

definition EIP_7702_FACTORY :: string where
  "EIP_7702_FACTORY = ''0x7702'' @ concat (replicate 18 ''00'')"

definition MAX_UINT120 :: int where
  "MAX_UINT120 = 2 ^ 120 - 1"

record prepared_entry_point =
  ep_version :: string
  ep_address :: string

record prepared_factory =
  pf_address :: string
  pf_data :: string

record prepared_paymaster =
  pp_address :: string
  pp_verificationGasLimit :: string
  pp_postOpGasLimit :: string
  pp_data :: string

record unsigned_user_operation =
  uo_sender :: string
  uo_nonce :: string
  uo_callData :: string
  uo_callGasLimit :: string
  uo_verificationGasLimit :: string
  uo_preVerificationGas :: string
  uo_maxFeePerGas :: string
  uo_maxPriorityFeePerGas :: string
  uo_factory :: "prepared_factory option"
  uo_paymaster :: "prepared_paymaster option"

record preparation =
  pr_kind :: operation_kind
  pr_grantId :: string
  pr_chainId :: int
  pr_entryPoint :: prepared_entry_point
  pr_userOperation :: unsigned_user_operation

record prepared_user_operation = preparation +
  pu_userOperationHash :: string

text \<open>The unpacked operation \<open>cetane\<close> takes; an absent factory or paymaster has none of its fields.\<close>

record cetane_operation =
  ce_sender :: string
  ce_nonce :: int
  ce_callData :: string
  ce_callGasLimit :: int
  ce_verificationGasLimit :: int
  ce_preVerificationGas :: int
  ce_maxFeePerGas :: int
  ce_maxPriorityFeePerGas :: int
  ce_signature :: string
  ce_factory :: "(string \<times> string) option"
  ce_paymaster :: "(string \<times> int \<times> int \<times> string) option"

type_synonym signing_hash = "cetane_operation \<Rightarrow> int \<Rightarrow> string \<Rightarrow> string \<Rightarrow> string"

section \<open>Validators\<close>

abbreviation u_err :: "prepared_user_operation_code \<Rightarrow> err" where
  "u_err \<equiv> OaathPreparedUserOperationError"

definition u_operationKind :: "jsval \<Rightarrow> prepared_user_operation_code \<Rightarrow> err + operation_kind" where
  "u_operationKind v code = literal_of operation_kinds v (u_err code)"

definition u_canonicalGrantId :: "jsval \<Rightarrow> prepared_user_operation_code \<Rightarrow> err + string" where
  "u_canonicalGrantId v code = canonical_id v (u_err code)"

definition u_chainId :: "jsval \<Rightarrow> prepared_user_operation_code \<Rightarrow> err + int" where
  "u_chainId v code = (if \<not> isSafeInteger v \<or> num_val v < 1 then Inl (u_err code) else Inr (num_val v))"

definition u_address :: "ext \<Rightarrow> jsval \<Rightarrow> prepared_user_operation_code \<Rightarrow> err + string" where
  "u_address E v code = captureAddress E v (\<lambda>_. u_err code) False"

fun isOwnedByteArray :: "jsval \<Rightarrow> prepared_user_operation_code \<Rightarrow> err + bool" where
  "isOwnedByteArray (JHostile _) code = Inl (u_err code)"
| "isOwnedByteArray (JBytes isShared extra _) code =
     (if isShared then Inl (u_err code) else if extra then Inl (u_err code) else Inr True)"
| "isOwnedByteArray _ code = Inr False"

text \<open>\<open>byte.toString(16).padStart(2, "0")\<close>\<close>

definition byte_hex :: "char \<Rightarrow> string" where
  "byte_hex b = [''0123456789abcdef'' ! (of_char b div 16), ''0123456789abcdef'' ! (of_char b mod 16)]"

definition u_hex :: "jsval \<Rightarrow> prepared_user_operation_code \<Rightarrow> bool \<Rightarrow> err + string" where
  "u_hex v code allowBytes =
     bindE (if allowBytes then isOwnedByteArray v code else Inr False) (\<lambda>owned.
     case v of
       JBytes _ _ bytes \<Rightarrow> if owned then Inr (''0x'' @ concat (map byte_hex bytes)) else Inl (u_err code)
     | JString s \<Rightarrow> if \<not> lower_bytes s then Inl (u_err code) else Inr s
     | _ \<Rightarrow> Inl (u_err code))"

definition u_hash :: "jsval \<Rightarrow> prepared_user_operation_code \<Rightarrow> err + string" where
  "u_hash v code = fixed_hex 64 v (u_err code)"

definition u_uint :: "jsval \<Rightarrow> int \<Rightarrow> prepared_user_operation_code \<Rightarrow> err + string" where
  "u_uint v maximum code =
     (case v of
        JString s \<Rightarrow> if \<not> decimal_uint s \<or> BigInt s > maximum then Inl (u_err code) else Inr s
      | _ \<Rightarrow> Inl (u_err code))"

section \<open>Parsers\<close>

definition parseEntryPoint ::
    "ext \<Rightarrow> prepared_user_operation_code \<Rightarrow> jsval \<Rightarrow> (err, prepared_entry_point) capture" where
  "parseEntryPoint E code v =
     bindC (exactRecord v [''version'', ''address''] (u_err code)) (\<lambda>record.
     bindC (liftC (literal_of [(''0.7'', ''0.7''), (''0.9'', ''0.9'')] (fld record ''version'') (u_err code))) (\<lambda>version.
     bindC (liftC (u_address E (fld record ''address'') code)) (\<lambda>address.
     returnC \<lparr>ep_version = version, ep_address = address\<rparr>)))"

definition parseFactory ::
    "ext \<Rightarrow> prepared_user_operation_code \<times> bool \<Rightarrow> jsval \<Rightarrow> (err, prepared_factory) capture" where
  "parseFactory E = (\<lambda>(code, allowBytes) v.
     bindC (exactRecord v [''address'', ''data''] (u_err code)) (\<lambda>record.
     bindC (liftC (u_address E (fld record ''address'') code)) (\<lambda>factoryAddress.
     bindC (guardC (factoryAddress \<noteq> EIP_7702_FACTORY) (u_err code)) (\<lambda>_.
     bindC (liftC (u_hex (fld record ''data'') code allowBytes)) (\<lambda>data.
     returnC \<lparr>pf_address = factoryAddress, pf_data = data\<rparr>)))))"

definition parsePaymaster ::
    "ext \<Rightarrow> prepared_user_operation_code \<times> bool \<Rightarrow> jsval \<Rightarrow> (err, prepared_paymaster) capture" where
  "parsePaymaster E = (\<lambda>(code, allowBytes) v.
     bindC (exactRecord v [''address'', ''verificationGasLimit'', ''postOpGasLimit'', ''data''] (u_err code)) (\<lambda>record.
     bindC (liftC (u_address E (fld record ''address'') code)) (\<lambda>address.
     bindC (liftC (u_uint (fld record ''verificationGasLimit'') MAX_UINT120 code)) (\<lambda>verificationGasLimit.
     bindC (liftC (u_uint (fld record ''postOpGasLimit'') MAX_UINT120 code)) (\<lambda>postOpGasLimit.
     bindC (liftC (u_hex (fld record ''data'') code allowBytes)) (\<lambda>data.
     returnC \<lparr>pp_address = address, pp_verificationGasLimit = verificationGasLimit,
              pp_postOpGasLimit = postOpGasLimit, pp_data = data\<rparr>))))))"

definition unsigned_keys :: "string list" where
  "unsigned_keys = [''sender'', ''nonce'', ''callData'', ''callGasLimit'', ''verificationGasLimit'', ''preVerificationGas'',
     ''maxFeePerGas'', ''maxPriorityFeePerGas'', ''factory'', ''paymaster'']"

definition parseUnsignedUserOperation ::
    "ext \<Rightarrow> prepared_user_operation_code \<times> bool \<Rightarrow> jsval \<Rightarrow> (err, unsigned_user_operation) capture" where
  "parseUnsignedUserOperation E = (\<lambda>(code, allowBytes) v.
     bindC (exactRecord v unsigned_keys (u_err code)) (\<lambda>record.
     bindC (liftC (u_uint (fld record ''maxFeePerGas'') MAX_UINT120 code)) (\<lambda>maxFeePerGas.
     bindC (liftC (u_uint (fld record ''maxPriorityFeePerGas'') MAX_UINT120 code)) (\<lambda>maxPriorityFeePerGas.
     bindC (guardC (\<not> BigInt maxPriorityFeePerGas > BigInt maxFeePerGas) (u_err code)) (\<lambda>_.
     bindC (liftC (u_address E (fld record ''sender'') code)) (\<lambda>sender.
     bindC (liftC (u_uint (fld record ''nonce'') MAX_UINT256 code)) (\<lambda>nonce.
     bindC (liftC (u_hex (fld record ''callData'') code allowBytes)) (\<lambda>callData.
     bindC (liftC (u_uint (fld record ''callGasLimit'') MAX_UINT120 code)) (\<lambda>callGasLimit.
     bindC (liftC (u_uint (fld record ''verificationGasLimit'') MAX_UINT120 code)) (\<lambda>verificationGasLimit.
     bindC (liftC (u_uint (fld record ''preVerificationGas'') MAX_UINT120 code)) (\<lambda>preVerificationGas.
     bindC (nullableC (parseFactory E (code, allowBytes)) (fld record ''factory'')) (\<lambda>factory.
     bindC (nullableC (parsePaymaster E (code, allowBytes)) (fld record ''paymaster'')) (\<lambda>paymaster.
     returnC \<lparr>uo_sender = sender, uo_nonce = nonce, uo_callData = callData, uo_callGasLimit = callGasLimit,
       uo_verificationGasLimit = verificationGasLimit, uo_preVerificationGas = preVerificationGas,
       uo_maxFeePerGas = maxFeePerGas, uo_maxPriorityFeePerGas = maxPriorityFeePerGas,
       uo_factory = factory, uo_paymaster = paymaster\<rparr>)))))))))))))"

section \<open>The hash of a prepared operation\<close>

definition asCetaneUserOperation :: "unsigned_user_operation \<Rightarrow> cetane_operation" where
  "asCetaneUserOperation u = \<lparr>
     ce_sender = uo_sender u, ce_nonce = BigInt (uo_nonce u), ce_callData = uo_callData u,
     ce_callGasLimit = BigInt (uo_callGasLimit u), ce_verificationGasLimit = BigInt (uo_verificationGasLimit u),
     ce_preVerificationGas = BigInt (uo_preVerificationGas u), ce_maxFeePerGas = BigInt (uo_maxFeePerGas u),
     ce_maxPriorityFeePerGas = BigInt (uo_maxPriorityFeePerGas u), ce_signature = ''0x'',
     ce_factory = map_option (\<lambda>f. (pf_address f, pf_data f)) (uo_factory u),
     ce_paymaster = map_option (\<lambda>p. (pp_address p, BigInt (pp_verificationGasLimit p),
       BigInt (pp_postOpGasLimit p), pp_data p)) (uo_paymaster u)\<rparr>"

definition deriveUserOperationHash :: "signing_hash \<Rightarrow> 'a preparation_scheme \<Rightarrow> string" where
  "deriveUserOperationHash H x =
     H (asCetaneUserOperation (pr_userOperation x)) (pr_chainId x)
       (ep_address (pr_entryPoint x)) (ep_version (pr_entryPoint x))"

text \<open>The five fields both record shapes share, read in the order of the code.\<close>

definition capturePreparationFields ::
    "ext \<Rightarrow> prepared_user_operation_code \<times> bool \<Rightarrow> fields \<Rightarrow> (err, preparation) capture" where
  "capturePreparationFields E = (\<lambda>(code, allowBytes) record.
     bindC (liftC (u_operationKind (fld record ''kind'') code)) (\<lambda>kind.
     bindC (liftC (u_canonicalGrantId (fld record ''grantId'') code)) (\<lambda>grantId.
     bindC (liftC (u_chainId (fld record ''chainId'') code)) (\<lambda>chainId.
     bindC (parseEntryPoint E code (fld record ''entryPoint'')) (\<lambda>entryPoint.
     bindC (parseUnsignedUserOperation E (code, allowBytes) (fld record ''userOperation'')) (\<lambda>userOperation.
     returnC \<lparr>pr_kind = kind, pr_grantId = grantId, pr_chainId = chainId, pr_entryPoint = entryPoint,
              pr_userOperation = userOperation\<rparr>))))))"

definition capturePreparation ::
    "ext \<Rightarrow> prepared_user_operation_code \<Rightarrow> jsval \<Rightarrow> (err, preparation) capture" where
  "capturePreparation E code v =
     bindC (exactRecord v [''kind'', ''grantId'', ''chainId'', ''entryPoint'', ''userOperation''] (u_err code))
       (capturePreparationFields E (code, True))"

definition with_hash :: "preparation \<Rightarrow> string \<Rightarrow> prepared_user_operation" where
  "with_hash x h = \<lparr>pr_kind = pr_kind x, pr_grantId = pr_grantId x, pr_chainId = pr_chainId x,
     pr_entryPoint = pr_entryPoint x, pr_userOperation = pr_userOperation x, pu_userOperationHash = h\<rparr>"

definition prepared_keys :: "string list" where
  "prepared_keys = [''version'', ''kind'', ''grantId'', ''chainId'', ''entryPoint'', ''userOperation'', ''userOperationHash'']"

definition parsePreparedUserOperationUnsafe ::
    "ext \<times> signing_hash \<Rightarrow> prepared_user_operation_code \<Rightarrow> jsval \<Rightarrow> (err, prepared_user_operation) capture" where
  "parsePreparedUserOperationUnsafe = (\<lambda>(E, H) code v.
     bindC (captureRecord v (u_err code)) (\<lambda>captured.
     bindC (exactCapturedRecord captured prepared_keys (u_err code)) (\<lambda>record.
     bindC (guardC (fld record ''version'' = JString OAATH_PREPARED_USER_OPERATION_VERSION) (u_err code)) (\<lambda>_.
     bindC (capturePreparationFields E (code, False) record) (\<lambda>preparation.
     bindC (liftC (u_hash (fld record ''userOperationHash'') code)) (\<lambda>recordedHash.
     bindC (guardC (recordedHash = deriveUserOperationHash H preparation) (u_err code)) (\<lambda>_.
     returnC (with_hash preparation recordedHash))))))))"

definition prepareUserOperation :: "ext \<Rightarrow> signing_hash \<Rightarrow> jsval \<Rightarrow> err + prepared_user_operation" where
  "prepareUserOperation E H v =
     bindE (runC (capturePreparation E Prepared_user_operation_input_invalid v)) (\<lambda>preparation.
     Inr (with_hash preparation (deriveUserOperationHash H preparation)))"

definition parsePreparedUserOperation :: "ext \<Rightarrow> signing_hash \<Rightarrow> jsval \<Rightarrow> err + prepared_user_operation" where
  "parsePreparedUserOperation E H v =
     runC (parsePreparedUserOperationUnsafe (E, H) Prepared_user_operation_record_invalid v)"

definition identity_of_prepared :: "prepared_user_operation \<Rightarrow> string option \<Rightarrow> operation_identity" where
  "identity_of_prepared x requestHash = \<lparr>
     oi_kind = pr_kind x, oi_grantId = pr_grantId x, oi_chainId = pr_chainId x,
     oi_entryPoint = ep_address (pr_entryPoint x), oi_account = uo_sender (pr_userOperation x),
     oi_nonce = uo_nonce (pr_userOperation x), oi_userOperationHash = pu_userOperationHash x,
     oi_requestHash = requestHash\<rparr>"

definition deriveOperationId :: "ext \<Rightarrow> signing_hash \<Rightarrow> jsval \<Rightarrow> string option \<Rightarrow> err + operation_identity" where
  "deriveOperationId E H v requestHash =
     bindE (parsePreparedUserOperation E H v) (\<lambda>prepared.
     bindE (case requestHash of
              None \<Rightarrow> Inr None
            | Some h \<Rightarrow> bindE (u_hash (JString h) Prepared_user_operation_input_invalid) (\<lambda>h. Inr (Some h))) (\<lambda>parsedRequestHash.
     Inr (identity_of_prepared prepared parsedRequestHash)))"

section \<open>The records the parsers accept\<close>

definition uint_ok :: "int \<Rightarrow> string \<Rightarrow> bool" where
  "uint_ok maximum s \<longleftrightarrow> decimal_uint s \<and> BigInt s \<le> maximum"

definition wf_entry_point :: "prepared_entry_point \<Rightarrow> bool" where
  "wf_entry_point x \<longleftrightarrow> (ep_version x = ''0.7'' \<or> ep_version x = ''0.9'') \<and> address_ok (ep_address x)"

definition wf_factory :: "prepared_factory \<Rightarrow> bool" where
  "wf_factory f \<longleftrightarrow> address_ok (pf_address f) \<and> pf_address f \<noteq> EIP_7702_FACTORY \<and> lower_bytes (pf_data f)"

definition wf_paymaster :: "prepared_paymaster \<Rightarrow> bool" where
  "wf_paymaster p \<longleftrightarrow> address_ok (pp_address p) \<and> uint_ok MAX_UINT120 (pp_verificationGasLimit p) \<and>
     uint_ok MAX_UINT120 (pp_postOpGasLimit p) \<and> lower_bytes (pp_data p)"

definition wf_unsigned :: "unsigned_user_operation \<Rightarrow> bool" where
  "wf_unsigned u \<longleftrightarrow> address_ok (uo_sender u) \<and> uint_ok MAX_UINT256 (uo_nonce u) \<and> lower_bytes (uo_callData u) \<and>
     uint_ok MAX_UINT120 (uo_callGasLimit u) \<and> uint_ok MAX_UINT120 (uo_verificationGasLimit u) \<and>
     uint_ok MAX_UINT120 (uo_preVerificationGas u) \<and> uint_ok MAX_UINT120 (uo_maxFeePerGas u) \<and>
     uint_ok MAX_UINT120 (uo_maxPriorityFeePerGas u) \<and> BigInt (uo_maxPriorityFeePerGas u) \<le> BigInt (uo_maxFeePerGas u) \<and>
     pred_option wf_factory (uo_factory u) \<and> pred_option wf_paymaster (uo_paymaster u)"

definition wf_preparation :: "'a preparation_scheme \<Rightarrow> bool" where
  "wf_preparation x \<longleftrightarrow> id_ok (pr_grantId x) \<and> int_ok 1 (pr_chainId x) \<and> wf_entry_point (pr_entryPoint x) \<and>
     wf_unsigned (pr_userOperation x)"

definition wf_prepared :: "signing_hash \<Rightarrow> prepared_user_operation \<Rightarrow> bool" where
  "wf_prepared H x \<longleftrightarrow> wf_preparation x \<and> lower_hex 64 (pu_userOperationHash x) \<and>
     pu_userOperationHash x = deriveUserOperationHash H x"

definition prepared_entry_point_literal :: "ref \<Rightarrow> prepared_entry_point \<Rightarrow> jsval" where
  "prepared_entry_point_literal p x = mk_obj p [(''version'', JString (ep_version x)), (''address'', JString (ep_address x))]"

definition factory_literal :: "ref \<Rightarrow> prepared_factory \<Rightarrow> jsval" where
  "factory_literal p f = mk_obj p [(''address'', JString (pf_address f)), (''data'', JString (pf_data f))]"

definition paymaster_literal :: "ref \<Rightarrow> prepared_paymaster \<Rightarrow> jsval" where
  "paymaster_literal p x = mk_obj p
     [(''address'', JString (pp_address x)), (''verificationGasLimit'', JString (pp_verificationGasLimit x)),
      (''postOpGasLimit'', JString (pp_postOpGasLimit x)), (''data'', JString (pp_data x))]"

definition unsigned_literal :: "ref \<Rightarrow> unsigned_user_operation \<Rightarrow> jsval" where
  "unsigned_literal p u = mk_obj p
     [(''sender'', JString (uo_sender u)), (''nonce'', JString (uo_nonce u)), (''callData'', JString (uo_callData u)),
      (''callGasLimit'', JString (uo_callGasLimit u)), (''verificationGasLimit'', JString (uo_verificationGasLimit u)),
      (''preVerificationGas'', JString (uo_preVerificationGas u)), (''maxFeePerGas'', JString (uo_maxFeePerGas u)),
      (''maxPriorityFeePerGas'', JString (uo_maxPriorityFeePerGas u)),
      (''factory'', nullable (factory_literal (at p ''factory'')) (uo_factory u)),
      (''paymaster'', nullable (paymaster_literal (at p ''paymaster'')) (uo_paymaster u))]"

definition preparation_fields :: "ref \<Rightarrow> 'a preparation_scheme \<Rightarrow> (string \<times> jsval) list" where
  "preparation_fields p x =
     [(''kind'', JString (kind_name (pr_kind x))), (''grantId'', JString (pr_grantId x)), (''chainId'', jint (pr_chainId x)),
      (''entryPoint'', prepared_entry_point_literal (at p ''entryPoint'') (pr_entryPoint x)),
      (''userOperation'', unsigned_literal (at p ''userOperation'') (pr_userOperation x))]"

definition prepared_literal :: "ref \<Rightarrow> prepared_user_operation \<Rightarrow> jsval" where
  "prepared_literal p x = mk_obj p
     ((''version'', JString OAATH_PREPARED_USER_OPERATION_VERSION) # preparation_fields p x @
      [(''userOperationHash'', JString (pu_userOperationHash x))])"

lemma byte_hex_lower: "length (byte_hex b) = 2" "list_all hex_lower (byte_hex b)"
proof -
  have "hex_lower (''0123456789abcdef'' ! n)" if "n < 16" for n
    unfolding hex_lower_def by (rule nth_mem) (use that in simp)
  moreover have "(of_char b :: nat) < 256" by simp
  ultimately show "length (byte_hex b) = 2" "list_all hex_lower (byte_hex b)"
    by (simp_all add: byte_hex_def less_mult_imp_div_less)
qed

lemma bytes_hex_lower: "lower_bytes (''0x'' @ concat (map byte_hex bs))"
  by (induction bs) (auto simp: lower_bytes_def byte_hex_lower list_all_append)

lemma u_hex_sound: "u_hex v code allowBytes = Inr s \<Longrightarrow> lower_bytes s"
  by (cases v) (auto simp: u_hex_def bindE_Inr bytes_hex_lower [simplified] split: if_splits)

lemma u_hex_string [js_simps]: "lower_bytes s \<Longrightarrow> u_hex (JString s) code allowBytes = Inr s"
  by (simp add: u_hex_def)

lemma u_uint_Inr [simp]: "u_uint v m code = Inr s \<longleftrightarrow> v = JString s \<and> uint_ok m s"
  by (auto simp: u_uint_def uint_ok_def split: jsval.splits)

lemma u_chainId_Inr [simp]: "u_chainId v code = Inr n \<longleftrightarrow> v = jint n \<and> int_ok 1 n"
  by (induction v rule: isSafeInteger.induct) (auto simp: u_chainId_def int_ok_def)

lemma u_uint_string [js_simps]: "uint_ok m s \<Longrightarrow> u_uint (JString s) m code = Inr s"
  by simp

lemma u_chainId_jint [js_simps]: "int_ok 1 n \<Longrightarrow> u_chainId (jint n) code = Inr n"
  by simp

lemma u_literal_not_null [simp]:
  "prepared_entry_point_literal p x \<noteq> JNull" "factory_literal p f \<noteq> JNull" "paymaster_literal p m \<noteq> JNull"
  "unsigned_literal p u \<noteq> JNull" "prepared_literal p y \<noteq> JNull"
  by (simp_all add: prepared_entry_point_literal_def factory_literal_def paymaster_literal_def unsigned_literal_def prepared_literal_def)

lemmas u_field_defs = u_operationKind_def u_canonicalGrantId_def u_address_def u_hash_def

lemma parseEntryPoint_sound: "ext_ok E \<Longrightarrow> parseEntryPoint E code v c = Inr (x, c') \<Longrightarrow> wf_entry_point x"
  unfolding parseEntryPoint_def
  by (elim bindC_InrE) (auto simp: u_field_defs wf_entry_point_def literal_of_Inr split: if_splits dest: captureAddress_sound)

lemma parseEntryPoint_complete:
  "ext_ok E \<Longrightarrow> wf_entry_point x \<Longrightarrow> fresh p c \<Longrightarrow> reads (parseEntryPoint E code (prepared_entry_point_literal p x)) c p x"
  unfolding parseEntryPoint_def prepared_entry_point_literal_def
  by (intro reads_exact) (auto simp: js_simps u_field_defs wf_entry_point_def)

interpretation entry_point_codec: codec parseEntryPoint prepared_entry_point_literal "\<lambda>_. wf_entry_point" ext_ok
  by unfold_locales (auto intro: parseEntryPoint_sound parseEntryPoint_complete)

lemma parseFactory_sound: "ext_ok E \<Longrightarrow> parseFactory E code v c = Inr (x, c') \<Longrightarrow> wf_factory x"
  unfolding parseFactory_def split_def
  by (elim bindC_InrE) (auto simp: u_field_defs wf_factory_def dest: captureAddress_sound u_hex_sound)

lemma parseFactory_complete:
  "ext_ok E \<Longrightarrow> wf_factory x \<Longrightarrow> fresh p c \<Longrightarrow> reads (parseFactory E code (factory_literal p x)) c p x"
  unfolding parseFactory_def factory_literal_def split_def
  by (intro reads_exact) (simp_all add: js_simps u_field_defs wf_factory_def)

interpretation factory_codec: codec parseFactory factory_literal "\<lambda>_. wf_factory" ext_ok
  by unfold_locales (auto intro: parseFactory_sound parseFactory_complete)

lemma parsePaymaster_sound: "ext_ok E \<Longrightarrow> parsePaymaster E code v c = Inr (x, c') \<Longrightarrow> wf_paymaster x"
  unfolding parsePaymaster_def split_def
  by (elim bindC_InrE) (auto simp: u_field_defs wf_paymaster_def dest: captureAddress_sound u_hex_sound)

lemma parsePaymaster_complete:
  "ext_ok E \<Longrightarrow> wf_paymaster x \<Longrightarrow> fresh p c \<Longrightarrow> reads (parsePaymaster E code (paymaster_literal p x)) c p x"
  unfolding parsePaymaster_def paymaster_literal_def split_def
  by (intro reads_exact) (simp_all add: js_simps u_field_defs wf_paymaster_def)

interpretation paymaster_codec: codec parsePaymaster paymaster_literal "\<lambda>_. wf_paymaster" ext_ok
  by unfold_locales (auto intro: parsePaymaster_sound parsePaymaster_complete)

lemma parseUnsignedUserOperation_sound:
  assumes "ext_ok E" and "parseUnsignedUserOperation E code v c = Inr (x, c')"
  shows "wf_unsigned x"
  using assms(2) unfolding parseUnsignedUserOperation_def split_def
  by (elim bindC_InrE)
    (auto simp: u_field_defs wf_unsigned_def dest: captureAddress_sound [OF assms(1)] u_hex_sound
      factory_codec.nullable_sound [OF assms(1)] paymaster_codec.nullable_sound [OF assms(1)])

lemma parseUnsignedUserOperation_complete:
  assumes "ext_ok E" "wf_unsigned x" "fresh p c"
  shows "reads (parseUnsignedUserOperation E code (unsigned_literal p x)) c p x"
  unfolding parseUnsignedUserOperation_def unsigned_literal_def split_def
  apply (rule reads_exact [OF assms(3)], simp add: unsigned_keys_def)
  apply (insert assms(1,2), simp add: js_simps wf_unsigned_def u_field_defs)
  apply (rule factory_codec.bind_nullable, assumption, simp, rule assms(1), simp)
  apply (rule paymaster_codec.bind_nullable, assumption, simp, rule assms(1), simp)
  apply (simp add: js_simps)
  done

interpretation unsigned_codec: codec parseUnsignedUserOperation unsigned_literal "\<lambda>_. wf_unsigned" ext_ok
  by unfold_locales (auto intro: parseUnsignedUserOperation_sound parseUnsignedUserOperation_complete)

lemma capturePreparationFields_sound:
  assumes "ext_ok E" and "capturePreparationFields E code fs c = Inr (x, c')"
  shows "wf_preparation x"
  using assms(2) unfolding capturePreparationFields_def split_def
  by (elim bindC_InrE)
    (auto simp: u_field_defs wf_preparation_def dest: parseEntryPoint_sound [OF assms(1)] parseUnsignedUserOperation_sound [OF assms(1)])

lemma with_hash_simps [simp]:
  "wf_preparation (with_hash x h) \<longleftrightarrow> wf_preparation x" "pu_userOperationHash (with_hash x h) = h"
  "deriveUserOperationHash H (with_hash x h) = deriveUserOperationHash H x"
  by (simp_all add: with_hash_def wf_preparation_def deriveUserOperationHash_def)

lemma parsePreparedUserOperationUnsafe_sound:
  assumes "ext_ok E" and "parsePreparedUserOperationUnsafe (E, H) code v c = Inr (x, c')"
  shows "wf_prepared H x"
  using assms(2) unfolding parsePreparedUserOperationUnsafe_def
  by (auto simp: u_field_defs wf_prepared_def elim!: bindC_InrE dest: capturePreparationFields_sound [OF assms(1)])

lemma parsePreparedUserOperationUnsafe_complete:
  assumes "ext_ok E" "wf_prepared H x" "fresh p c"
  shows "reads (parsePreparedUserOperationUnsafe (E, H) code (prepared_literal p x)) c p x"
  unfolding parsePreparedUserOperationUnsafe_def prepared_literal_def prod.case
  apply (rule reads_captured [OF assms(3)])
  apply (insert assms(1,2), simp add: js_simps prepared_keys_def preparation_fields_def capturePreparationFields_def bindC_assoc
      wf_prepared_def wf_preparation_def u_field_defs)
  apply (rule entry_point_codec.bind_field, assumption, simp, rule assms(1), simp)
  apply (rule unsigned_codec.bind_field, assumption, simp, rule assms(1), simp)
  apply (elim conjE, simp add: js_simps deriveUserOperationHash_def with_hash_def)
  done

interpretation prepared_codec: codec parsePreparedUserOperationUnsafe prepared_literal "\<lambda>(E, H). wf_prepared H" "\<lambda>(E, H). ext_ok E"
  by unfold_locales (auto intro: parsePreparedUserOperationUnsafe_sound parsePreparedUserOperationUnsafe_complete)

lemma parsePrepared_wf: "ext_ok E \<Longrightarrow> parsePreparedUserOperation E H v = Inr x \<Longrightarrow> wf_prepared H x"
  by (auto simp: parsePreparedUserOperation_def runC_Inr intro: parsePreparedUserOperationUnsafe_sound)

lemma parsePrepared_literal: "ext_ok E \<Longrightarrow> wf_prepared H x \<Longrightarrow> parsePreparedUserOperation E H (prepared_literal p x) = Inr x"
  unfolding parsePreparedUserOperation_def by (rule prepared_codec.parse_literal) simp_all

lemma prepareUserOperation_wf:
  assumes "ext_ok E" "\<And>u n a v. lower_hex 64 (H u n a v)" "prepareUserOperation E H v = Inr x"
  shows "wf_prepared H x"
proof -
  from assms(3) obtain y where y: "runC (capturePreparation E Prepared_user_operation_input_invalid v) = Inr y"
    and x: "x = with_hash y (deriveUserOperationHash H y)" by (auto simp: prepareUserOperation_def bindE_Inr)
  from y have "wf_preparation y"
    by (auto simp: runC_Inr capturePreparation_def elim!: bindC_InrE intro: capturePreparationFields_sound [OF assms(1)])
  with x assms(2) show ?thesis by (simp add: wf_prepared_def) (simp add: deriveUserOperationHash_def)
qed

lemma deriveOperationId_prepared:
  "ext_ok E \<Longrightarrow> wf_prepared H x \<Longrightarrow> pred_option (lower_hex 64) r \<Longrightarrow>
   deriveOperationId E H (prepared_literal p x) r = Inr (identity_of_prepared x r)"
  by (cases r) (simp_all add: deriveOperationId_def parsePrepared_literal u_hash_def js_simps)

lemma deriveOperationId_Inr:
  assumes "ext_ok E" "wf_prepared H x" "deriveOperationId E H (prepared_literal p x) r = Inr i"
  shows "i = identity_of_prepared x r"
  using assms by (cases r) (auto simp: deriveOperationId_def parsePrepared_literal u_hash_def bindE_Inr)

lemma identity_of_prepared_wf: "wf_prepared H x \<Longrightarrow> pred_option (lower_hex 64) r \<Longrightarrow> wf_op_identity (identity_of_prepared x r)"
  by (auto simp: wf_prepared_def wf_preparation_def wf_op_identity_def identity_of_prepared_def wf_entry_point_def wf_unsigned_def
      uint_ok_def uint256_string_def)

section \<open>Round trip\<close>

text \<open>What is read from a value does not depend on the hash function: it is only compared with.\<close>

lemma parsePrepared_hash_function:
  assumes "parsePreparedUserOperation E H v = Inr x" "parsePreparedUserOperation E H' v = Inr y"
  shows "x = y"
  using assms unfolding parsePreparedUserOperation_def parsePreparedUserOperationUnsafe_def runC_Inr prod.case
  by (elim exE bindC_InrE) auto

lemma parsePrepared_other_hash:
  assumes "ext_ok E" "wf_prepared H x" "h \<noteq> pu_userOperationHash x"
  shows "parsePreparedUserOperation E H (prepared_literal p (x\<lparr>pu_userOperationHash := h\<rparr>)) \<noteq> Inr y"
proof
  let ?x = "x\<lparr>pu_userOperationHash := h\<rparr>"
  let ?H = "\<lambda>_ _ _ _. h"
  assume y: "parsePreparedUserOperation E H (prepared_literal p ?x) = Inr y"
  have "deriveUserOperationHash H ?x = deriveUserOperationHash H x" by (simp add: deriveUserOperationHash_def)
  have "lower_hex 64 h"
    using y unfolding parsePreparedUserOperation_def parsePreparedUserOperationUnsafe_def runC_Inr prod.case
    by (elim exE bindC_InrE)
      (auto simp: u_hash_def prepared_literal_def captureRecord_mk_obj js_simps prepared_keys_def preparation_fields_def)
  with assms(2) have "wf_prepared ?H ?x"
    by (simp add: wf_prepared_def wf_preparation_def deriveUserOperationHash_def)
  from parsePrepared_hash_function [OF y parsePrepared_literal [OF assms(1) this]] have "y = ?x" .
  with parsePrepared_wf [OF assms(1) y] assms(2,3) \<open>deriveUserOperationHash H ?x = _\<close> show False
    by (simp add: wf_prepared_def)
qed

definition sample_hash :: signing_hash where
  "sample_hash = (\<lambda>u n a v. ''0x'' @ replicate 64 (CHR ''1''))"

definition sample_preparation :: preparation where
  "sample_preparation = \<lparr>pr_kind = Execution, pr_grantId = ''grant-1'', pr_chainId = 1,
     pr_entryPoint = \<lparr>ep_version = ''0.7'', ep_address = ''0x'' @ replicate 40 (CHR ''e'')\<rparr>,
     pr_userOperation = \<lparr>uo_sender = ''0x'' @ replicate 40 (CHR ''a''), uo_nonce = ''18446744073709551621'',
       uo_callData = ''0x00ff'', uo_callGasLimit = ''50000'', uo_verificationGasLimit = ''70000'',
       uo_preVerificationGas = ''21000'', uo_maxFeePerGas = ''30'', uo_maxPriorityFeePerGas = ''2'',
       uo_factory = None,
       uo_paymaster = Some \<lparr>pp_address = ''0x'' @ replicate 40 (CHR ''b''), pp_verificationGasLimit = ''9000'',
         pp_postOpGasLimit = ''0'', pp_data = ''0x''\<rparr>\<rparr>\<rparr>"

definition sample_prepared :: prepared_user_operation where
  "sample_prepared = with_hash sample_preparation (''0x'' @ replicate 64 (CHR ''1''))"

text \<open>The sample as an owner may give it, with its call data as bytes.\<close>

definition sample_preparation_literal :: jsval where
  "sample_preparation_literal =
     (let u = pr_userOperation sample_preparation in
      mk_obj [] [(''kind'', JString ''execution''), (''grantId'', JString ''grant-1''), (''chainId'', jint 1),
        (''entryPoint'', prepared_entry_point_literal [PName ''entryPoint''] (pr_entryPoint sample_preparation)),
        (''userOperation'', mk_obj [PName ''userOperation'']
          [(''sender'', JString (uo_sender u)), (''nonce'', JString (uo_nonce u)),
           (''callData'', JBytes False False [CHR 0x00, CHR 0xFF]),
           (''callGasLimit'', JString (uo_callGasLimit u)), (''verificationGasLimit'', JString (uo_verificationGasLimit u)),
           (''preVerificationGas'', JString (uo_preVerificationGas u)), (''maxFeePerGas'', JString (uo_maxFeePerGas u)),
           (''maxPriorityFeePerGas'', JString (uo_maxPriorityFeePerGas u)), (''factory'', JNull),
           (''paymaster'', nullable (paymaster_literal [PName ''userOperation'', PName ''paymaster'']) (uo_paymaster u))])])"

lemma sample_prepares: "prepareUserOperation sample_ext sample_hash sample_preparation_literal = Inr sample_prepared"
  by code_simp

lemma sample_hash_ok: "lower_hex 64 (sample_hash u n a v)"
  by code_simp

text \<open>C39: A prepared UserOperation is bound to its hash. What \<open>prepareUserOperation\<close> makes of an owner's
  input (with byte data as text or as bytes) carries the signing hash of exactly its own fields, is read back unchanged
  by \<open>parsePreparedUserOperation\<close>, and the operation identity derived from it names its sender, nonce, entry point
  and hash; the same record with any other hash is refused. The signing hash is a parameter of which only the documented
  shape, a lowercase 32-byte hash, is used.\<close>

theorem prepared_round_trip:
  assumes "ext_ok E" and "\<And>u n a v. lower_hex 64 (H u n a v)" and "prepareUserOperation E H v = Inr x"
    and "pred_option (lower_hex 64) r"
  shows "pu_userOperationHash x = deriveUserOperationHash H x \<and>
    parsePreparedUserOperation E H (prepared_literal [] x) = Inr x \<and>
    deriveOperationId E H (prepared_literal [] x) r = Inr (identity_of_prepared x r) \<and>
    (\<forall>h y. h \<noteq> pu_userOperationHash x \<longrightarrow>
      parsePreparedUserOperation E H (prepared_literal [] (x\<lparr>pu_userOperationHash := h\<rparr>)) \<noteq> Inr y)"
proof -
  have x: "wf_prepared H x" by (rule prepareUserOperation_wf [OF assms(1,2,3)])
  then show ?thesis
    using parsePrepared_literal [OF assms(1) x] deriveOperationId_prepared [OF assms(1) x assms(4)]
      parsePrepared_other_hash [OF assms(1) x]
    by (auto simp: wf_prepared_def)
qed

theorem prepared_round_trip_witness:
  "parsePreparedUserOperation sample_ext sample_hash (prepared_literal [] sample_prepared) = Inr sample_prepared"
  using prepared_round_trip [OF sample_ext_ok sample_hash_ok sample_prepares, of None] by simp

end
