(* ===== verification/Operation_Runner.thy ===== *)
theory Operation_Runner
  imports Prepared_User_Operation Store Operation_Machine
begin

text \<open>
  Model of \<open>packages/sdk/src/operation-runner.ts\<close>: the runner that takes one operation of a lane from
  preparation through durable publication, a single send and observation.

  An asynchronous method is a \<open>run\<close>, the tree of the calls it makes: a node is one call of a capability or
  of the store, and branches on the answer. Nothing else happens between two calls, so the tree is the
  method. \<open>bindR\<close> is sequencing, \<open>catchR\<close> a \<open>try\<close> around a call, \<open>liftR\<close> a synchronous step that may
  throw. Timers are part of the answers: a capability call raced against \<open>withTimeout\<close> either answers or
  fails.

  Times of the input are kept as JavaScript numbers, since \<open>safeTime\<close> lets \<open>-0\<close> through. Diagnostics
  and failure classifications attached to errors and results are not modelled, except whether a failed send
  is a conclusive rejection (\<open>isSubmissionRejection\<close>). \<open>instanceof OperationStore\<close> is a parameter of
  \<open>captureConfiguration\<close>.
\<close>

section \<open>Configuration and input\<close>

abbreviation r_err :: "operation_runner_code \<Rightarrow> err" where
  "r_err \<equiv> OaathOperationRunnerError"

datatype terminal_behavior = Replace | Reuse_same_kind

record runner_configuration =
  rc_terminalBehavior :: terminal_behavior
  rc_requestHash :: "string option"
  rc_lane :: "operation_lane option"

record run_input =
  ri_kind :: operation_kind
  ri_key :: operation_store_key
  ri_preparedAt :: jsnum
  ri_attemptedAt :: jsnum
  ri_submittedAt :: jsnum
  ri_observedAt :: jsnum
  ri_timeoutMs :: int

record abandon_input =
  ra_kind :: operation_kind
  ra_key :: operation_store_key
  ra_expectedUserOperationHash :: string
  ra_abandonedAt :: jsnum

definition time_val :: "jsnum \<Rightarrow> int" where
  "time_val t = num_val (JNumber t)"

definition callable :: "jsval \<Rightarrow> operation_runner_code \<Rightarrow> err + unit" where
  "callable v code = guardE (v = JFunction) (r_err code)"

definition callables :: "fields \<Rightarrow> string list \<Rightarrow> operation_runner_code \<Rightarrow> err + unit" where
  "callables record keys code = guardE (list_all (\<lambda>k. callable (fld record k) code = Inr ()) keys) (r_err code)"

definition captureRunnerLane :: "jsval \<Rightarrow> (err, operation_lane) capture" where
  "captureRunnerLane v =
     (let fail = r_err Operation_runner_capability_invalid in
      bindC (exactRecord v [''id'', ''key''] fail) (\<lambda>laneRecord.
      case fld laneRecord ''id'' of
        JString i \<Rightarrow>
          if \<not> isSafeInteger (fld laneRecord ''key'') \<or> num_val (fld laneRecord ''key'') < 1 then failC fail
          else returnC \<lparr>ol_id = i, ol_key = num_val (fld laneRecord ''key'')\<rparr>
      | _ \<Rightarrow> failC fail))"

definition captureConfiguration :: "(jsval \<Rightarrow> bool) \<Rightarrow> jsval \<Rightarrow> err + runner_configuration" where
  "captureConfiguration isOperationStore v =
     (let code = Operation_runner_capability_invalid; fail = r_err code in
      runC (bindC (captureRecord v fail) (\<lambda>captured.
        bindC (exactCapturedRecord captured
                 ([''terminalBehavior'', ''requestHash''] @ (if has_field captured ''lane'' then [''lane''] else []) @
                  [''store'', ''observer'', ''preparation'', ''submission'']) fail) (\<lambda>record.
        bindC (if has_field record ''lane''
               then bindC (captureRunnerLane (fld record ''lane'')) (\<lambda>lane. returnC (Some lane))
               else returnC None) (\<lambda>lane.
        bindC (guardC (isOperationStore (fld record ''store'')) fail) (\<lambda>_.
        bindC (liftC (literal_of [(''replace'', Replace), (''reuse_same_kind'', Reuse_same_kind)]
                 (fld record ''terminalBehavior'') fail)) (\<lambda>terminalBehavior.
        bindC (liftC (nullable_scalar (fixed_hex 64) (fld record ''requestHash'') fail)) (\<lambda>requestHash.
        bindC (exactRecord (fld record ''observer'') [''observeOperation'', ''close''] fail) (\<lambda>observer.
        bindC (exactRecord (fld record ''preparation'')
                 [''prepare'', ''reserveOperation'', ''releaseOperationReservation'', ''authorizeOperation'',
                  ''abandonOperation'', ''confirmOperationPublished'', ''close''] fail) (\<lambda>preparation.
        bindC (exactRecord (fld record ''submission'') [''openSubmission'', ''close''] fail) (\<lambda>submission.
        bindC (liftC (callables observer [''observeOperation'', ''close''] code)) (\<lambda>_.
        bindC (liftC (callables preparation [''prepare'', ''reserveOperation'', ''releaseOperationReservation'',
                 ''authorizeOperation'', ''abandonOperation'', ''confirmOperationPublished'', ''close''] code)) (\<lambda>_.
        bindC (liftC (callables submission [''openSubmission'', ''close''] code)) (\<lambda>_.
        returnC \<lparr>rc_terminalBehavior = terminalBehavior, rc_requestHash = requestHash, rc_lane = lane\<rparr>))))))))))))))"

definition parseKind :: "jsval \<Rightarrow> err + operation_kind" where
  "parseKind v = literal_of operation_kinds v (r_err Operation_runner_input_invalid)"

definition parseKey :: "jsval \<Rightarrow> (err, operation_store_key) capture" where
  "parseKey v =
     (let fail = r_err Operation_runner_input_invalid in
      bindC (captureRecord v fail) (\<lambda>captured.
      let hasLane = has_field captured ''lane'' in
      bindC (exactCapturedRecord captured
               (if hasLane then [''grantId'', ''chainId'', ''kind'', ''lane''] else [''grantId'', ''chainId'', ''kind'']) fail) (\<lambda>record.
      bindC (liftC (canonical_id (fld record ''grantId'') fail)) (\<lambda>grantId.
      bindC (guardC (isSafeInteger (fld record ''chainId'') \<and> \<not> num_val (fld record ''chainId'') < 1) fail) (\<lambda>_.
      bindC (liftC (parseKind (fld record ''kind''))) (\<lambda>kind.
      let key = \<lparr>sc_grantId = grantId, sc_chainId = num_val (fld record ''chainId''), sc_kind = kind, sk_lane = None\<rparr> in
      if \<not> hasLane then returnC key
      else if \<not> isSafeInteger (fld record ''lane'') \<or> num_val (fld record ''lane'') < 1 then failC fail
      else returnC (key\<lparr>sk_lane := Some (num_val (fld record ''lane''))\<rparr>)))))))"

definition safeTime :: "jsval \<Rightarrow> err + jsnum" where
  "safeTime v =
     (case v of
        JNumber t \<Rightarrow>
          if \<not> isSafeInteger v \<or> num_val v < 0 then Inl (r_err Operation_runner_input_invalid) else Inr t
      | _ \<Rightarrow> Inl (r_err Operation_runner_input_invalid))"

definition RUN_INPUT_KEYS :: "string list" where
  "RUN_INPUT_KEYS = [''kind'', ''key'', ''preparedAt'', ''attemptedAt'', ''submittedAt'', ''observedAt'', ''timeoutMs'']"

definition parseCapturedRunInput :: "fields \<Rightarrow> (err, run_input) capture" where
  "parseCapturedRunInput record =
     (let fail = r_err Operation_runner_input_invalid; timeoutMs = fld record ''timeoutMs'' in
      bindC (liftC (safeTime (fld record ''preparedAt''))) (\<lambda>preparedAt.
      bindC (liftC (safeTime (fld record ''attemptedAt''))) (\<lambda>attemptedAt.
      bindC (liftC (safeTime (fld record ''submittedAt''))) (\<lambda>submittedAt.
      bindC (liftC (safeTime (fld record ''observedAt''))) (\<lambda>observedAt.
      bindC (guardC (\<not> (time_val preparedAt > time_val attemptedAt \<or> time_val attemptedAt > time_val submittedAt \<or>
               time_val submittedAt > time_val observedAt \<or> \<not> isSafeInteger timeoutMs \<or>
               num_val timeoutMs < 1 \<or> num_val timeoutMs > 60000)) fail) (\<lambda>_.
      bindC (liftC (parseKind (fld record ''kind''))) (\<lambda>kind.
      bindC (parseKey (fld record ''key'')) (\<lambda>key.
      bindC (guardC (sc_kind key = kind) fail) (\<lambda>_.
      returnC \<lparr>ri_kind = kind, ri_key = key, ri_preparedAt = preparedAt, ri_attemptedAt = attemptedAt,
               ri_submittedAt = submittedAt, ri_observedAt = observedAt, ri_timeoutMs = num_val timeoutMs\<rparr>)))))))))"

definition parseRunInput :: "jsval \<Rightarrow> err + run_input" where
  "parseRunInput v =
     runC (bindC (exactRecord v RUN_INPUT_KEYS (r_err Operation_runner_input_invalid)) parseCapturedRunInput)"

definition parseObserveInput :: "jsval \<Rightarrow> err + (run_input \<times> string)" where
  "parseObserveInput v =
     (let fail = r_err Operation_runner_input_invalid in
      runC (bindC (exactRecord v (RUN_INPUT_KEYS @ [''expectedUserOperationHash'']) fail) (\<lambda>record.
            bindC (parseCapturedRunInput record) (\<lambda>input.
            bindC (liftC (fixed_hex 64 (fld record ''expectedUserOperationHash'') fail)) (\<lambda>hash.
            returnC (input, hash))))))"

definition parseAbandonPreparedInput :: "jsval \<Rightarrow> err + abandon_input" where
  "parseAbandonPreparedInput v =
     (let fail = r_err Operation_runner_input_invalid in
      runC (bindC (exactRecord v [''kind'', ''key'', ''expectedUserOperationHash'', ''abandonedAt''] fail) (\<lambda>record.
            bindC (liftC (parseKind (fld record ''kind''))) (\<lambda>kind.
            bindC (parseKey (fld record ''key'')) (\<lambda>key.
            bindC (guardC (sc_kind key = kind) fail) (\<lambda>_.
            bindC (liftC (fixed_hex 64 (fld record ''expectedUserOperationHash'') fail)) (\<lambda>hash.
            bindC (liftC (safeTime (fld record ''abandonedAt''))) (\<lambda>abandonedAt.
            bindC (guardC (abandonedAt \<noteq> JNegZero) fail) (\<lambda>_.
            returnC \<lparr>ra_kind = kind, ra_key = key, ra_expectedUserOperationHash = hash, ra_abandonedAt = abandonedAt\<rparr>)))))))))"

section \<open>Observations\<close>

text \<open>\<open>ObserveOperationResult\<close>\<close>

datatype observation_result =
    ObsPending pending_reason (obs_operation: operation)
  | ObsUnreadable unread_reason (obs_operation: operation)
  | ObsIncluded (obs_operation: operation)
  | ObsFinalized (obs_operation: operation)
  | ObsDropped (obs_operation: operation)
  | ObsSuperseded (obs_operation: operation)
  | ObsAbandoned (obs_operation: operation)

definition runnerSameIdentity :: "operation_identity \<Rightarrow> operation_identity \<Rightarrow> bool" where
  "runnerSameIdentity left right \<longleftrightarrow>
     oi_kind left = oi_kind right \<and> oi_grantId left = oi_grantId right \<and> oi_chainId left = oi_chainId right \<and>
     oi_entryPoint left = oi_entryPoint right \<and> oi_account left = oi_account right \<and> oi_nonce left = oi_nonce right \<and>
     oi_userOperationHash left = oi_userOperationHash right \<and> oi_requestHash left = oi_requestHash right"

definition sameOperation :: "ext \<Rightarrow> operation \<Rightarrow> operation \<Rightarrow> err + bool" where
  "sameOperation E left right =
     bindE (parseOperation E (operation_literal [] left)) (\<lambda>l.
     bindE (parseOperation E (operation_literal [] right)) (\<lambda>r. Inr (l = r)))"

text \<open>The literal of a transition, with the identity the runner names in it.\<close>

definition transition_literal :: "string \<Rightarrow> operation_identity \<Rightarrow> (string \<times> jsval) list \<Rightarrow> jsval" where
  "transition_literal type identity rest =
     mk_obj [] ([(''type'', JString type), (''identity'', op_identity_literal [PName ''identity''] identity)] @ rest)"

definition applyObserved :: "ext \<Rightarrow> operation \<Rightarrow> string \<Rightarrow> (string \<times> jsval) list \<Rightarrow> err + operation" where
  "applyObserved E x type rest =
     applyVerifiedOperationObservation E (operation_literal [] x)
       (transition_literal type (oc_identity (op_common x)) rest)"

definition inclusion_of :: "operation_state \<Rightarrow> operation_inclusion option" where
  "inclusion_of s = (case s of Included _ _ i \<Rightarrow> Some i | Finalized _ _ i _ \<Rightarrow> Some i | _ \<Rightarrow> None)"

text \<open>The field of the observed record an observation is read from; \<open>undefined\<close> where its state has none.\<close>

definition inclusion_field :: "operation \<Rightarrow> jsval" where
  "inclusion_field x =
     (case inclusion_of (op_state x) of None \<Rightarrow> JUndefined | Some i \<Rightarrow> inclusion_literal [PName ''inclusion''] i)"

definition finality_field :: "operation \<Rightarrow> jsval" where
  "finality_field x = (case op_state x of Finalized _ _ _ f \<Rightarrow> finality_literal [PName ''finality''] f | _ \<Rightarrow> JUndefined)"

definition supersession_field :: "operation \<Rightarrow> jsval" where
  "supersession_field x =
     (case op_state x of Superseded _ _ s \<Rightarrow> supersession_literal [PName ''supersession''] s | _ \<Rightarrow> JUndefined)"

definition drop_field :: "operation \<Rightarrow> jsval" where
  "drop_field x = (case op_state x of Dropped _ _ _ d \<Rightarrow> drop_literal [PName ''drop''] d | _ \<Rightarrow> JUndefined)"

fun is_weak :: "observation_result \<Rightarrow> bool" where
  "is_weak (ObsPending _ _) = True"
| "is_weak (ObsUnreadable _ _) = True"
| "is_weak _ = False"

definition includeFirst :: "ext \<Rightarrow> operation \<Rightarrow> observation_result \<Rightarrow> err + operation" where
  "includeFirst E current observation =
     (case observation of
        ObsIncluded _ \<Rightarrow> Inr current
      | _ \<Rightarrow>
          if inclusion_of (op_state (obs_operation observation)) = None then Inr current
          else (case op_state current of
                  Included _ _ _ \<Rightarrow> Inr current
                | _ \<Rightarrow> applyObserved E current ''record_included'' [(''inclusion'', inclusion_field (obs_operation observation))]))"

definition applyWeak :: "ext \<Rightarrow> operation \<Rightarrow> operation \<Rightarrow> string \<Rightarrow> string \<Rightarrow> err + operation option" where
  "applyWeak E x observed type reason =
     (case oc_observation (op_common observed) of
        None \<Rightarrow> Inr None
      | Some weak \<Rightarrow>
          bindE (applyObserved E x type [(''observedAt'', jint (wo_observedAt weak)), (''reason'', JString reason)])
            (\<lambda>y. Inr (Some y)))"

definition applyObservation :: "ext \<Rightarrow> operation \<Rightarrow> observation_result \<Rightarrow> err + operation option" where
  "applyObservation E x observation =
     (let some = (\<lambda>r. bindE r (\<lambda>y. Inr (Some y))) in
      case observation of
        ObsPending reason observed \<Rightarrow> applyWeak E x observed ''record_pending'' (pending_reason_name reason)
      | ObsUnreadable reason observed \<Rightarrow> applyWeak E x observed ''record_unreadable'' (unread_reason_name reason)
      | ObsIncluded observed \<Rightarrow> some (applyObserved E x ''record_included'' [(''inclusion'', inclusion_field observed)])
      | ObsFinalized observed \<Rightarrow> some (applyObserved E x ''record_finalized'' [(''finality'', finality_field observed)])
      | ObsSuperseded observed \<Rightarrow>
          some (applyObserved E x ''record_superseded'' [(''supersession'', supersession_field observed)])
      | ObsDropped observed \<Rightarrow> some (applyObserved E x ''record_dropped'' [(''drop'', drop_field observed)])
      | ObsAbandoned _ \<Rightarrow> Inr None)"

definition deriveObserved :: "ext \<Rightarrow> operation \<Rightarrow> observation_result \<Rightarrow> err + operation option" where
  "deriveObserved E current observation =
     bindE (sameOperation E current (obs_operation observation)) (\<lambda>same.
     if same then Inr (if is_weak observation then None else Some current)
     else if observation = ObsAbandoned (obs_operation observation) then Inr None
     else bindE (includeFirst E current observation) (\<lambda>x.
          bindE (applyObservation E x observation) (\<lambda>applied.
          case applied of
            None \<Rightarrow> Inr None
          | Some y \<Rightarrow>
              bindE (parseOperation E (operation_literal [] y)) (\<lambda>canonical.
              bindE (sameOperation E canonical (obs_operation observation)) (\<lambda>agrees.
              Inr (if agrees then Some canonical else None))))))"

definition deriveObservedOperation :: "ext \<Rightarrow> operation \<Rightarrow> observation_result \<Rightarrow> operation option" where
  "deriveObservedOperation E current observation =
     (case deriveObserved E current observation of Inl _ \<Rightarrow> None | Inr r \<Rightarrow> r)"

definition classifyObservation :: "jsval \<Rightarrow> jsval \<Rightarrow> operation \<Rightarrow> observation_result option" where
  "classifyObservation status reason x =
     (let observation = oc_observation (op_common x) in
      if status = JString ''pending'' then
        (case observation of
           Some (Pending _ r) \<Rightarrow> if reason = JString (pending_reason_name r) then Some (ObsPending r x) else None
         | _ \<Rightarrow> None)
      else if status = JString ''unreadable'' then
        (case observation of
           Some (UnreadableObservation _ r) \<Rightarrow>
             if reason = JString (unread_reason_name r) then Some (ObsUnreadable r x) else None
         | _ \<Rightarrow> None)
      else case op_state x of
        Included _ _ _ \<Rightarrow> if status = JString ''included'' \<and> observation = None then Some (ObsIncluded x) else None
      | Finalized _ _ _ _ \<Rightarrow> if status = JString ''finalized'' then Some (ObsFinalized x) else None
      | Dropped _ _ _ _ \<Rightarrow> if status = JString ''dropped'' then Some (ObsDropped x) else None
      | Superseded _ _ _ \<Rightarrow> if status = JString ''superseded'' then Some (ObsSuperseded x) else None
      | Abandoned _ _ \<Rightarrow> if status = JString ''abandoned'' then Some (ObsAbandoned x) else None
      | _ \<Rightarrow> None)"

definition captureObservationResult :: "ext \<Rightarrow> jsval \<Rightarrow> observation_result option" where
  "captureObservationResult E v =
     (let fail = r_err Operation_runner_capability_invalid in
      case runC (bindC (captureRecord v fail) (\<lambda>captured.
             exactCapturedRecord captured
               (if fld captured ''status'' = JString ''pending'' \<or> fld captured ''status'' = JString ''unreadable''
                then [''status'', ''reason'', ''operation''] else [''status'', ''operation'']) fail)) of
        Inl _ \<Rightarrow> None
      | Inr record \<Rightarrow>
          (case parseOperation E (fld record ''operation'') of
             Inl _ \<Rightarrow> None
           | Inr x \<Rightarrow> classifyObservation (fld record ''status'') (fld record ''reason'') x))"

definition retainedObservation :: "operation \<Rightarrow> observation_result option" where
  "retainedObservation x =
     (case op_state x of
        Finalized _ _ _ _ \<Rightarrow> Some (ObsFinalized x)
      | Included _ _ _ \<Rightarrow> Some (ObsIncluded x)
      | Dropped _ _ _ _ \<Rightarrow> Some (ObsDropped x)
      | Superseded _ _ _ \<Rightarrow> Some (ObsSuperseded x)
      | Abandoned _ _ \<Rightarrow> Some (ObsAbandoned x)
      | _ \<Rightarrow>
          (case oc_observation (op_common x) of
             Some (Pending _ r) \<Rightarrow> Some (ObsPending r x)
           | Some (UnreadableObservation _ r) \<Rightarrow> Some (ObsUnreadable r x)
           | None \<Rightarrow> None))"

section \<open>Answers of the store and of a submission session\<close>

definition requireLane :: "operation \<Rightarrow> operation_kind \<Rightarrow> operation_store_key \<Rightarrow> err + unit" where
  "requireLane x kind key =
     guardE (\<not> (oi_kind (oc_identity (op_common x)) \<noteq> kind \<or>
                oi_grantId (oc_identity (op_common x)) \<noteq> sc_grantId key \<or>
                oi_chainId (oc_identity (op_common x)) \<noteq> sc_chainId key))
       (r_err Operation_runner_state_conflict)"

definition mapStoreError :: "err \<Rightarrow> err" where
  "mapStoreError e =
     (if e = s_err Store_identity_mismatch then r_err Operation_runner_state_conflict
      else if e = s_err Store_commit_indeterminate \<or> e = s_err Store_commit_unverified
      then r_err Operation_runner_store_uncertain
      else r_err Operation_runner_store_unavailable)"

definition parseSubmissionSession :: "jsval \<Rightarrow> err + unit" where
  "parseSubmissionSession v =
     (let code = Operation_runner_capability_invalid in
      bindE (runC (exactRecord v [''submit'', ''close''] (r_err code))) (\<lambda>record.
      callables record [''submit'', ''close''] code))"

definition parseSubmissionResult :: "jsval \<Rightarrow> (string \<times> submission_evidence option) option" where
  "parseSubmissionResult v =
     (let fail = r_err Operation_runner_capability_invalid in
      case bindE (runC (bindC (captureRecord v fail) (\<lambda>captured.
                  exactCapturedRecord captured
                    (''userOperationHash'' # (if has_field captured ''submission'' then [''submission''] else [])) fail))) (\<lambda>record.
           bindE (fixed_hex 64 (fld record ''userOperationHash'') fail) (\<lambda>hash.
           if has_field record ''submission''
           then bindE (parseOperationSubmissionEvidence (fld record ''submission'')) (\<lambda>s. Inr (hash, Some s))
           else Inr (hash, None))) of
        Inl _ \<Rightarrow> None
      | Inr r \<Rightarrow> Some r)"
section \<open>Runs\<close>

datatype owner_call =
    ReserveOperation | ReleaseOperationReservation | AuthorizeOperation | AbandonOperation | ConfirmOperationPublished

text \<open>The answer of \<open>openSubmission\<close> and \<open>submit\<close>: a value, or a failure with whether it is a conclusive rejection.\<close>

datatype send_answer = Sent jsval | SendFailed bool

datatype 'r run =
    Return 'r
  | Throw err
  | StoreGet operation_store_key "err + operation store_record option \<Rightarrow> 'r run"
  | StoreGetExact operation_store_key string "err + operation store_record option \<Rightarrow> 'r run"
  | StoreCas operation_store_key "int option" operation "err + operation cas_result \<Rightarrow> 'r run"
  | CallPrepare operation_kind operation_store_key "answer \<Rightarrow> 'r run"
  | CallOwner owner_call prepared_user_operation "bool \<Rightarrow> 'r run"
  | OpenSubmission prepared_user_operation "send_answer \<Rightarrow> 'r run"
  | Submit prepared_user_operation "send_answer \<Rightarrow> 'r run"
  | CallObserve operation int int "answer \<Rightarrow> 'r run"

primrec bindR :: "'a run \<Rightarrow> ('a \<Rightarrow> 'b run) \<Rightarrow> 'b run" where
  "bindR (Return x) g = g x"
| "bindR (Throw e) g = Throw e"
| "bindR (StoreGet k f) g = StoreGet k (\<lambda>a. bindR (f a) g)"
| "bindR (StoreGetExact k h f) g = StoreGetExact k h (\<lambda>a. bindR (f a) g)"
| "bindR (StoreCas k e x f) g = StoreCas k e x (\<lambda>a. bindR (f a) g)"
| "bindR (CallPrepare kind k f) g = CallPrepare kind k (\<lambda>a. bindR (f a) g)"
| "bindR (CallOwner c p f) g = CallOwner c p (\<lambda>a. bindR (f a) g)"
| "bindR (OpenSubmission p f) g = OpenSubmission p (\<lambda>a. bindR (f a) g)"
| "bindR (Submit p f) g = Submit p (\<lambda>a. bindR (f a) g)"
| "bindR (CallObserve x t timeout f) g = CallObserve x t timeout (\<lambda>a. bindR (f a) g)"

primrec catchR :: "'a run \<Rightarrow> (err \<Rightarrow> 'a run) \<Rightarrow> 'a run" where
  "catchR (Return x) h = Return x"
| "catchR (Throw e) h = h e"
| "catchR (StoreGet k f) h = StoreGet k (\<lambda>a. catchR (f a) h)"
| "catchR (StoreGetExact k hash f) h = StoreGetExact k hash (\<lambda>a. catchR (f a) h)"
| "catchR (StoreCas k e x f) h = StoreCas k e x (\<lambda>a. catchR (f a) h)"
| "catchR (CallPrepare kind k f) h = CallPrepare kind k (\<lambda>a. catchR (f a) h)"
| "catchR (CallOwner c p f) h = CallOwner c p (\<lambda>a. catchR (f a) h)"
| "catchR (OpenSubmission p f) h = OpenSubmission p (\<lambda>a. catchR (f a) h)"
| "catchR (Submit p f) h = Submit p (\<lambda>a. catchR (f a) h)"
| "catchR (CallObserve x t timeout f) h = CallObserve x t timeout (\<lambda>a. catchR (f a) h)"

definition liftR :: "err + 'a \<Rightarrow> 'a run" where
  "liftR r = (case r of Inl e \<Rightarrow> Throw e | Inr x \<Rightarrow> Return x)"

datatype uncertain_reason = Session_unavailable | Session_invalid | Send_ambiguous | Send_result_invalid | Send_identity_mismatch
datatype observation_unavailable_reason = Observer_failed | Observation_invalid | Observation_identity_mismatch

datatype run_result =
    Started "operation store_record"
  | SubmissionUncertain uncertain_reason "operation store_record"
  | Observed observation_result "operation store_record"
  | ObservationUnavailable observation_unavailable_reason "operation store_record"
  | StateConflict "operation store_record"

section \<open>The runner's calls of the store\<close>

abbreviation identity_in :: "operation store_record \<Rightarrow> operation_identity" where
  "identity_in r \<equiv> oc_identity (op_common (sr_value r))"

abbreviation state_in :: "operation store_record \<Rightarrow> operation_state" where
  "state_in r \<equiv> op_state (sr_value r)"

definition getRecord :: "operation_store_key \<Rightarrow> operation store_record option run" where
  "getRecord key = StoreGet key (\<lambda>a. case a of Inl e \<Rightarrow> Throw (mapStoreError e) | Inr r \<Rightarrow> Return r)"

definition getExactRecord :: "operation_store_key \<Rightarrow> string \<Rightarrow> operation store_record option run" where
  "getExactRecord key hash = StoreGetExact key hash (\<lambda>a. case a of Inl e \<Rightarrow> Throw (mapStoreError e) | Inr r \<Rightarrow> Return r)"

definition commit :: "operation_store_key \<Rightarrow> int option \<Rightarrow> operation \<Rightarrow> operation cas_result run" where
  "commit key expected x = StoreCas key expected x (\<lambda>a. case a of Inl e \<Rightarrow> Throw (mapStoreError e) | Inr r \<Rightarrow> Return r)"

definition occupies :: "ext \<Rightarrow> operation \<Rightarrow> bool run" where
  "occupies E x = liftR (operationOccupiesLane E (operation_literal [] x))"

definition advance :: "ext \<Rightarrow> operation \<Rightarrow> string \<Rightarrow> (string \<times> jsval) list \<Rightarrow> operation run" where
  "advance E x type rest =
     liftR (advanceOperation E (operation_literal [] x) (transition_literal type (oc_identity (op_common x)) rest))"

definition requireConflictIdentity ::
    "operation store_record option \<Rightarrow> operation_identity \<Rightarrow> operation store_record run" where
  "requireConflictIdentity record identity =
     (case record of
        None \<Rightarrow> Throw (r_err Operation_runner_store_uncertain)
      | Some r \<Rightarrow>
          if \<not> runnerSameIdentity (identity_in r) identity then Throw (r_err Operation_runner_state_conflict)
          else Return r)"

section \<open>Preparation and publication\<close>

definition releasePreparedReservation :: "prepared_user_operation \<Rightarrow> unit run" where
  "releasePreparedReservation prepared = CallOwner ReleaseOperationReservation prepared (\<lambda>_. Return ())"

definition reservePreparedOperation :: "prepared_user_operation \<Rightarrow> unit run" where
  "reservePreparedOperation prepared =
     CallOwner ReserveOperation prepared (\<lambda>resolved.
       if resolved then Return () else Throw (r_err Operation_runner_preparation_failed))"

datatype conflict_behavior = ResumeConflict | RejectConflict

text \<open>\<open>{ identity, preparedAt, ...(lane === null ? {} : { lane }) }\<close>\<close>

definition creation_literal :: "operation_identity \<Rightarrow> jsnum \<Rightarrow> operation_lane option \<Rightarrow> jsval" where
  "creation_literal identity preparedAt lane = mk_obj []
     ([(''identity'', op_identity_literal [PName ''identity''] identity), (''preparedAt'', JNumber preparedAt)] @
      (case lane of None \<Rightarrow> [] | Some l \<Rightarrow> [(''lane'', lane_literal [PName ''lane''] l)]))"

definition releaseAndThrow :: "prepared_user_operation \<Rightarrow> err \<Rightarrow> 'a run" where
  "releaseAndThrow prepared e = bindR (releasePreparedReservation prepared) (\<lambda>_. Throw e)"

primrec publishLoop ::
    "nat \<Rightarrow> ext \<Rightarrow> operation_store_key \<Rightarrow> prepared_user_operation \<Rightarrow> conflict_behavior \<Rightarrow> operation \<Rightarrow> nat \<Rightarrow> int option \<Rightarrow>
     operation store_record run" where
  "publishLoop 0 E key prepared behavior x attempt expected =
     releaseAndThrow prepared (r_err Operation_runner_state_conflict)"
| "publishLoop (Suc n) E key prepared behavior x attempt expected =
     bindR (catchR (commit key expected x) (\<lambda>e.
       if e = r_err Operation_runner_state_conflict then releaseAndThrow prepared e else Throw e)) (\<lambda>persisted.
     case persisted of
       Committed r \<Rightarrow> Return r
     | Conflict None \<Rightarrow> Throw (r_err Operation_runner_store_uncertain)
     | Conflict (Some r) \<Rightarrow>
         if behavior = RejectConflict then releaseAndThrow prepared (r_err Operation_runner_state_conflict)
         else if runnerSameIdentity (identity_in r) (oc_identity (op_common x)) then Return r
         else bindR (if attempt = 0 then occupies E (sr_value r) else Return True) (\<lambda>occupied.
              if \<not> occupied then publishLoop n E key prepared behavior x (attempt + 1) (Some (sr_storeRevision r))
              else releaseAndThrow prepared (r_err Operation_runner_state_conflict)))"

definition publishPrepared ::
    "ext \<Rightarrow> signing_hash \<Rightarrow> runner_configuration \<Rightarrow> run_input \<Rightarrow> operation store_record option \<Rightarrow> prepared_user_operation \<Rightarrow>
     conflict_behavior \<Rightarrow> operation store_record run" where
  "publishPrepared E H cfg input current prepared behavior =
     bindR (liftR (deriveOperationId E H (prepared_literal [] prepared) (rc_requestHash cfg))) (\<lambda>identity.
     bindR (liftR (createOperation E (creation_literal identity (ri_preparedAt input) (rc_lane cfg)))) (\<lambda>x.
     if (case current of None \<Rightarrow> False | Some r \<Rightarrow> runnerSameIdentity (identity_in r) (oc_identity (op_common x)))
     then releaseAndThrow prepared (r_err Operation_runner_state_conflict)
     else publishLoop (if behavior = ResumeConflict then 2 else 1) E (ri_key input) prepared behavior x 0
            (map_option sr_storeRevision current)))"

definition prepareExact ::
    "ext \<Rightarrow> signing_hash \<Rightarrow> runner_configuration \<Rightarrow> run_input \<Rightarrow> operation_identity option \<Rightarrow> prepared_user_operation run" where
  "prepareExact E H cfg input expectedIdentity =
     (if map_option ol_key (rc_lane cfg) \<noteq> sk_lane (ri_key input) then Throw (r_err Operation_runner_input_invalid)
      else CallPrepare (ri_kind input) (ri_key input) (\<lambda>a.
        case a of
          Rejected \<Rightarrow> Throw (r_err Operation_runner_preparation_failed)
        | Resolved raw \<Rightarrow>
            (case parsePreparedUserOperation E H raw of
               Inl _ \<Rightarrow> Throw (r_err Operation_runner_preparation_failed)
             | Inr prepared \<Rightarrow>
                 bindR (liftR (deriveOperationId E H (prepared_literal [] prepared) (rc_requestHash cfg))) (\<lambda>identity.
                 if oi_kind identity \<noteq> ri_kind input \<or> oi_grantId identity \<noteq> sc_grantId (ri_key input) \<or>
                    oi_chainId identity \<noteq> sc_chainId (ri_key input) \<or>
                    (case expectedIdentity of None \<Rightarrow> False | Some i \<Rightarrow> \<not> runnerSameIdentity identity i)
                 then Throw (r_err Operation_runner_identity_mismatch)
                 else Return prepared))))"

section \<open>Before and after the send\<close>

definition abandonBeforeSubmission ::
    "ext \<Rightarrow> run_input \<Rightarrow> operation store_record \<Rightarrow> prepared_user_operation \<Rightarrow> unit run" where
  "abandonBeforeSubmission E input r prepared =
     bindR (advance E (sr_value r) ''mark_abandoned''
              [(''abandonedAt'', JNumber (ri_attemptedAt input)), (''reason'', JString ''submission_not_attempted'')]) (\<lambda>abandoned.
     bindR (commit (ri_key input) (Some (sr_storeRevision r)) abandoned) (\<lambda>persisted.
     bindR (case persisted of
              Committed _ \<Rightarrow> Return ()
            | Conflict c \<Rightarrow>
                bindR (requireConflictIdentity c (identity_in r)) (\<lambda>current.
                case state_in current of
                  Abandoned _ _ \<Rightarrow> Return ()
                | _ \<Rightarrow> Throw (r_err Operation_runner_state_conflict))) (\<lambda>_.
     CallOwner AbandonOperation prepared (\<lambda>_. Return ()))))"

definition confirmPreparedPublication ::
    "ext \<Rightarrow> run_input \<Rightarrow> operation store_record \<Rightarrow> prepared_user_operation \<Rightarrow> unit run" where
  "confirmPreparedPublication E input r prepared =
     CallOwner ConfirmOperationPublished prepared (\<lambda>resolved.
       if resolved then Return ()
       else bindR (abandonBeforeSubmission E input r prepared) (\<lambda>_. Throw (r_err Operation_runner_preparation_failed)))"

definition authorizePreparedOperation ::
    "ext \<Rightarrow> run_input \<Rightarrow> operation store_record \<Rightarrow> prepared_user_operation \<Rightarrow> unit run" where
  "authorizePreparedOperation E input r prepared =
     CallOwner AuthorizeOperation prepared (\<lambda>resolved.
       if resolved then Return ()
       else bindR (abandonBeforeSubmission E input r prepared) (\<lambda>_. Throw (r_err Operation_runner_preparation_failed)))"

text \<open>\<open>Math.max\<close> of an input time and the time of the record, which is never \<open>-0\<close>.\<close>

definition not_before :: "jsnum \<Rightarrow> operation store_record \<Rightarrow> int" where
  "not_before t r = max (time_val t) (oc_updatedAt (op_common (sr_value r)))"

definition rejectSubmission ::
    "ext \<Rightarrow> run_input \<Rightarrow> operation store_record \<Rightarrow> prepared_user_operation \<Rightarrow> unit run" where
  "rejectSubmission E input r prepared =
     bindR (advance E (sr_value r) ''mark_abandoned''
              [(''abandonedAt'', jint (not_before (ri_submittedAt input) r)), (''reason'', JString ''submission_rejected'')]) (\<lambda>abandoned.
     bindR (commit (ri_key input) (Some (sr_storeRevision r)) abandoned) (\<lambda>persisted.
     bindR (case persisted of
              Committed _ \<Rightarrow> Return True
            | Conflict c \<Rightarrow>
                bindR (requireConflictIdentity c (identity_in r)) (\<lambda>current.
                case state_in current of Abandoned _ _ \<Rightarrow> Return True | _ \<Rightarrow> Return False)) (\<lambda>abandonedHere.
     if \<not> abandonedHere then Return ()
     else CallOwner AbandonOperation prepared (\<lambda>_. Throw (r_err Operation_runner_submission_rejected)))))"

section \<open>Observation\<close>

definition observeStep ::
    "ext \<Rightarrow> run_input \<Rightarrow> operation store_record \<Rightarrow> (operation store_record \<Rightarrow> run_result run) \<Rightarrow> run_result run" where
  "observeStep E input r contended =
     CallObserve (sr_value r) (not_before (ri_observedAt input) r) (ri_timeoutMs input) (\<lambda>a.
       case a of
         Rejected \<Rightarrow> Return (ObservationUnavailable Observer_failed r)
       | Resolved raw \<Rightarrow>
           (case captureObservationResult E raw of
              None \<Rightarrow> Return (ObservationUnavailable Observation_invalid r)
            | Some observation \<Rightarrow>
                if \<not> runnerSameIdentity (oc_identity (op_common (obs_operation observation))) (identity_in r)
                then Return (ObservationUnavailable Observation_identity_mismatch r)
                else case deriveObservedOperation E (sr_value r) observation of
                  None \<Rightarrow> Return (ObservationUnavailable Observation_invalid r)
                | Some derived \<Rightarrow>
                    bindR (liftR (sameOperation E derived (sr_value r))) (\<lambda>same.
                    if same then Return (Observed observation r)
                    else bindR (commit (ri_key input) (Some (sr_storeRevision r)) derived) (\<lambda>persisted.
                      case persisted of
                        Committed r' \<Rightarrow> Return (Observed observation r')
                      | Conflict c \<Rightarrow>
                          bindR (requireConflictIdentity c (identity_in r)) (\<lambda>current.
                          bindR (liftR (sameOperation E (sr_value current) derived)) (\<lambda>converged.
                          if converged then Return (Observed observation current) else contended current))))))"

definition observeRetained :: "operation store_record \<Rightarrow> run_result run" where
  "observeRetained r =
     (case retainedObservation (sr_value r) of
        Some retained \<Rightarrow> Return (Observed retained r)
      | None \<Rightarrow> Return (ObservationUnavailable Observation_invalid r))"

text \<open>The argument counts the conflicts that may still be observed again: \<open>2 - conflictAttempt\<close>.\<close>

primrec observe :: "nat \<Rightarrow> ext \<Rightarrow> run_input \<Rightarrow> operation store_record \<Rightarrow> run_result run" where
  "observe 0 E input r = observeStep E input r observeRetained"
| "observe (Suc n) E input r = observeStep E input r (observe n E input)"

section \<open>The send\<close>

primrec acknowledge ::
    "nat \<Rightarrow> ext \<Rightarrow> run_input \<Rightarrow> string \<times> submission_evidence option \<Rightarrow> operation_identity \<Rightarrow> operation store_record \<Rightarrow>
     operation store_record run" where
  "acknowledge 0 E input ack identity r = Return r"
| "acknowledge (Suc n) E input ack identity r =
     (case state_in r of
        SubmissionAttempted _ \<Rightarrow>
          bindR (advance E (sr_value r) ''mark_submitted''
                   [(''returnedUserOperationHash'', JString (fst ack)),
                    (''submittedAt'', jint (not_before (ri_submittedAt input) r)),
                    (''submission'', nullable (submission_literal [PName ''submission'']) (snd ack))]) (\<lambda>submitted.
          bindR (commit (ri_key input) (Some (sr_storeRevision r)) submitted) (\<lambda>persisted.
          case persisted of
            Committed r' \<Rightarrow> Return r'
          | Conflict c \<Rightarrow>
              bindR (requireConflictIdentity c identity) (\<lambda>current.
              acknowledge n E input ack identity current)))
      | _ \<Rightarrow> Return r)"

datatype run_mode = StartMode | ResumeMode | RunMode

definition finish :: "ext \<Rightarrow> run_input \<Rightarrow> run_mode \<Rightarrow> operation store_record \<Rightarrow> run_result run" where
  "finish E input mode r = (if mode = StartMode \<or> mode = ResumeMode then Return (Started r) else observe 2 E input r)"

definition submitSession ::
    "ext \<Rightarrow> run_input \<Rightarrow> run_mode \<Rightarrow> operation store_record \<Rightarrow> prepared_user_operation \<Rightarrow> run_result run" where
  "submitSession E input mode r prepared =
     Submit prepared (\<lambda>a.
       case a of
         SendFailed rejection \<Rightarrow>
           bindR (if rejection then rejectSubmission E input r prepared else Return ()) (\<lambda>_.
           Return (SubmissionUncertain Send_ambiguous r))
       | Sent v \<Rightarrow>
           (case parseSubmissionResult v of
              None \<Rightarrow> Return (SubmissionUncertain Send_result_invalid r)
            | Some ack \<Rightarrow>
                if fst ack \<noteq> oi_userOperationHash (identity_in r)
                then Return (SubmissionUncertain Send_identity_mismatch r)
                else bindR (acknowledge 3 E input ack (identity_in r) r) (finish E input mode)))"

definition sendPrepared ::
    "ext \<Rightarrow> run_input \<Rightarrow> run_mode \<Rightarrow> operation store_record \<Rightarrow> prepared_user_operation \<Rightarrow> run_result run" where
  "sendPrepared E input mode r prepared =
     OpenSubmission prepared (\<lambda>a.
       case a of
         SendFailed _ \<Rightarrow> Return (SubmissionUncertain Session_unavailable r)
       | Sent v \<Rightarrow>
           (case parseSubmissionSession v of
              Inl _ \<Rightarrow> Return (SubmissionUncertain Session_invalid r)
            | Inr _ \<Rightarrow> submitSession E input mode r prepared))"

definition attemptConflict :: "ext \<Rightarrow> run_input \<Rightarrow> run_mode \<Rightarrow> operation store_record \<Rightarrow> run_result run" where
  "attemptConflict E input mode current =
     (case mode of
        StartMode \<Rightarrow> Throw (r_err Operation_runner_state_conflict)
      | ResumeMode \<Rightarrow>
          if state_in current = Prepared then Throw (r_err Operation_runner_state_conflict) else Return (Started current)
      | RunMode \<Rightarrow> if state_in current = Prepared then Return (StateConflict current) else observe 2 E input current)"

definition attemptSubmission ::
    "ext \<Rightarrow> run_input \<Rightarrow> run_mode \<Rightarrow> operation store_record \<Rightarrow> prepared_user_operation \<Rightarrow> run_result run" where
  "attemptSubmission E input mode r prepared =
     bindR (advance E (sr_value r) ''mark_submission_attempted'' [(''attemptedAt'', JNumber (ri_attemptedAt input))]) (\<lambda>attempted.
     bindR (commit (ri_key input) (Some (sr_storeRevision r)) attempted) (\<lambda>attemptedCommit.
     case attemptedCommit of
       Conflict c \<Rightarrow> bindR (requireConflictIdentity c (identity_in r)) (attemptConflict E input mode)
     | Committed r' \<Rightarrow> sendPrepared E input mode r' prepared))"

text \<open>The part of \<open>executeOperation\<close> behind the branches of its modes.\<close>

definition executeAcquired ::
    "ext \<Rightarrow> signing_hash \<Rightarrow> runner_configuration \<Rightarrow> run_input \<Rightarrow> run_mode \<Rightarrow>
     operation store_record \<times> prepared_user_operation option \<Rightarrow> run_result run" where
  "executeAcquired E H cfg input mode = (\<lambda>(r, preparedBefore).
     bindR (liftR (requireLane (sr_value r) (ri_kind input) (ri_key input))) (\<lambda>_.
     if state_in r \<noteq> Prepared then
       (case mode of
          StartMode \<Rightarrow> Throw (r_err Operation_runner_state_conflict)
        | ResumeMode \<Rightarrow> Return (Started r)
        | RunMode \<Rightarrow> observe 2 E input r)
     else
       bindR (case preparedBefore of
                Some prepared \<Rightarrow> Return prepared
              | None \<Rightarrow> prepareExact E H cfg input (Some (identity_in r))) (\<lambda>prepared.
       bindR (authorizePreparedOperation E input r prepared) (\<lambda>_.
       bindR (confirmPreparedPublication E input r prepared) (\<lambda>_.
       attemptSubmission E input mode r prepared)))))"

section \<open>The modes of \<open>executeOperation\<close>\<close>

definition occupied :: "ext \<Rightarrow> operation store_record option \<Rightarrow> bool run" where
  "occupied E c = (case c of None \<Rightarrow> Return False | Some r \<Rightarrow> occupies E (sr_value r))"

definition publishFresh ::
    "ext \<Rightarrow> signing_hash \<Rightarrow> runner_configuration \<Rightarrow> run_input \<Rightarrow> operation store_record option \<Rightarrow> prepared_user_operation \<Rightarrow>
     conflict_behavior \<Rightarrow> (operation store_record \<times> prepared_user_operation option) run" where
  "publishFresh E H cfg input current prepared behavior =
     bindR (reservePreparedOperation prepared) (\<lambda>_.
     bindR (publishPrepared E H cfg input current prepared behavior) (\<lambda>r. Return (r, Some prepared)))"

definition startExecution :: "ext \<Rightarrow> signing_hash \<Rightarrow> runner_configuration \<Rightarrow> run_input \<Rightarrow> run_result run" where
  "startExecution E H cfg input =
     bindR (getRecord (ri_key input)) (\<lambda>current.
     bindR (occupied E current) (\<lambda>occ.
     if occ then Throw (r_err Operation_runner_state_conflict)
     else bindR (prepareExact E H cfg input None) (\<lambda>prepared.
          bindR (publishFresh E H cfg input current prepared RejectConflict) (\<lambda>acquired.
          executeAcquired E H cfg input StartMode acquired))))"

definition resumeOccupied ::
    "ext \<Rightarrow> signing_hash \<Rightarrow> runner_configuration \<Rightarrow> run_input \<Rightarrow> prepared_user_operation \<Rightarrow> operation_identity \<Rightarrow>
     operation store_record \<Rightarrow> run_result run" where
  "resumeOccupied E H cfg input prepared expectedIdentity r =
     bindR (liftR (requireLane (sr_value r) (ri_kind input) (ri_key input))) (\<lambda>_.
     if \<not> runnerSameIdentity (identity_in r) expectedIdentity then Throw (r_err Operation_runner_state_conflict)
     else if state_in r \<noteq> Prepared then Return (Started r)
     else bindR (reservePreparedOperation prepared) (\<lambda>_.
          executeAcquired E H cfg input ResumeMode (r, Some prepared)))"

definition resumeExecution ::
    "ext \<Rightarrow> signing_hash \<Rightarrow> runner_configuration \<Rightarrow> run_input \<Rightarrow> string \<Rightarrow> run_result run" where
  "resumeExecution E H cfg input expectedUserOperationHash =
     bindR (getRecord (ri_key input)) (\<lambda>current.
     bindR (prepareExact E H cfg input None) (\<lambda>prepared.
     bindR (liftR (deriveOperationId E H (prepared_literal [] prepared) (rc_requestHash cfg))) (\<lambda>expectedIdentity.
     if oi_userOperationHash expectedIdentity \<noteq> expectedUserOperationHash
     then Throw (r_err Operation_runner_identity_mismatch)
     else bindR (occupied E current) (\<lambda>occ.
          case current of
            Some r \<Rightarrow>
              if \<not> occ then bindR (publishFresh E H cfg input current prepared ResumeConflict) (executeAcquired E H cfg input ResumeMode)
              else resumeOccupied E H cfg input prepared expectedIdentity r
          | None \<Rightarrow> bindR (publishFresh E H cfg input None prepared ResumeConflict) (executeAcquired E H cfg input ResumeMode)))))"

definition runExecution :: "ext \<Rightarrow> signing_hash \<Rightarrow> runner_configuration \<Rightarrow> run_input \<Rightarrow> run_result run" where
  "runExecution E H cfg input =
     bindR (getRecord (ri_key input)) (\<lambda>current.
     bindR (occupied E current) (\<lambda>occ.
     case current of
       Some r \<Rightarrow>
         if occ then executeAcquired E H cfg input RunMode (r, None)
         else if rc_terminalBehavior cfg = Reuse_same_kind \<and> oi_kind (identity_in r) = ri_kind input then
           bindR (liftR (requireLane (sr_value r) (ri_kind input) (ri_key input))) (\<lambda>_. observe 2 E input r)
         else bindR (prepareExact E H cfg input None) (\<lambda>prepared.
              bindR (publishFresh E H cfg input current prepared ResumeConflict) (executeAcquired E H cfg input RunMode))
     | None \<Rightarrow>
         bindR (prepareExact E H cfg input None) (\<lambda>prepared.
         bindR (publishFresh E H cfg input None prepared ResumeConflict) (executeAcquired E H cfg input RunMode))))"

section \<open>The methods of a runner\<close>

definition startOperation :: "ext \<Rightarrow> signing_hash \<Rightarrow> runner_configuration \<Rightarrow> jsval \<Rightarrow> run_result run" where
  "startOperation E H cfg v = bindR (liftR (parseRunInput v)) (startExecution E H cfg)"

definition resumePreparedOperation :: "ext \<Rightarrow> signing_hash \<Rightarrow> runner_configuration \<Rightarrow> jsval \<Rightarrow> run_result run" where
  "resumePreparedOperation E H cfg v =
     bindR (liftR (parseObserveInput v)) (\<lambda>(input, hash). resumeExecution E H cfg input hash)"

definition runOperation :: "ext \<Rightarrow> signing_hash \<Rightarrow> runner_configuration \<Rightarrow> jsval \<Rightarrow> run_result run" where
  "runOperation E H cfg v = bindR (liftR (parseRunInput v)) (runExecution E H cfg)"

definition observeOperation :: "ext \<Rightarrow> jsval \<Rightarrow> run_result run" where
  "observeOperation E v =
     bindR (liftR (parseObserveInput v)) (\<lambda>(input, hash).
     bindR (getExactRecord (ri_key input) hash) (\<lambda>found.
     case found of
       None \<Rightarrow>
         bindR (getRecord (ri_key input)) (\<lambda>current.
         Throw (r_err (if current \<noteq> None then Operation_runner_identity_mismatch else Operation_runner_state_conflict)))
     | Some r \<Rightarrow>
         bindR (liftR (requireLane (sr_value r) (ri_kind input) (ri_key input))) (\<lambda>_.
         if oi_userOperationHash (identity_in r) \<noteq> hash then Throw (r_err Operation_runner_identity_mismatch)
         else if state_in r = Prepared then Throw (r_err Operation_runner_state_conflict)
         else observe 2 E input r)))"

definition abandonPreparedOperation :: "ext \<Rightarrow> jsval \<Rightarrow> operation cas_result run" where
  "abandonPreparedOperation E v =
     bindR (liftR (parseAbandonPreparedInput v)) (\<lambda>input.
     bindR (getRecord (ra_key input)) (\<lambda>found.
     case found of
       None \<Rightarrow> Throw (r_err Operation_runner_state_conflict)
     | Some r \<Rightarrow>
         bindR (liftR (requireLane (sr_value r) (ra_kind input) (ra_key input))) (\<lambda>_.
         if oi_userOperationHash (identity_in r) \<noteq> ra_expectedUserOperationHash input
         then Throw (r_err Operation_runner_identity_mismatch)
         else if state_in r \<noteq> Prepared then Throw (r_err Operation_runner_state_conflict)
         else bindR (advance E (sr_value r) ''mark_abandoned''
                       [(''abandonedAt'', JNumber (ra_abandonedAt input)), (''reason'', JString ''submission_not_attempted'')])
                (commit (ra_key input) (Some (sr_storeRevision r))))))"

section \<open>Active runs and closing\<close>

text \<open>
  The mutable state of \<open>createOperationRunner\<close>. \<open>rs_closing\<close> says a close attempt is under way and
  \<open>rs_waiting\<close> that it waits for the active runs to drain; a resource is represented by its \<open>closed\<close> flag.
\<close>

record runner_state =
  rs_activeRuns :: nat
  rs_closeRequested :: bool
  rs_closed :: bool
  rs_closing :: bool
  rs_waiting :: bool
  rs_sessions :: "bool list"
  rs_resources :: "bool list"

definition createdRunner :: runner_state where
  "createdRunner = \<lparr>rs_activeRuns = 0, rs_closeRequested = False, rs_closed = False, rs_closing = False,
     rs_waiting = False, rs_sessions = [], rs_resources = [False, False, False, False]\<rparr>"

definition beginRun :: "runner_state \<Rightarrow> err + runner_state" where
  "beginRun s =
     (if rs_closeRequested s \<or> rs_closed s \<or> rs_closing s then Inl (r_err Operation_runner_closed)
      else Inr (s\<lparr>rs_activeRuns := rs_activeRuns s + 1\<rparr>))"

definition endRun :: "runner_state \<Rightarrow> runner_state" where
  "endRun s =
     (let n = rs_activeRuns s - 1 in
      s\<lparr>rs_activeRuns := n, rs_waiting := (if n = 0 then False else rs_waiting s)\<rparr>)"

definition pushSession :: "runner_state \<Rightarrow> runner_state" where
  "pushSession s = s\<lparr>rs_sessions := rs_sessions s @ [False]\<rparr>"

text \<open>\<open>close\<close> up to its first await: nothing on a closed runner, the attempt under way is shared.\<close>

definition requestClose :: "runner_state \<Rightarrow> runner_state" where
  "requestClose s =
     (if rs_closed s then s
      else if rs_closing s then s\<lparr>rs_closeRequested := True\<rparr>
      else s\<lparr>rs_closeRequested := True, rs_closing := True, rs_waiting := rs_activeRuns s > 0\<rparr>)"

text \<open>One pass over the resources: a closed one is skipped, the others are closed with the given answers.\<close>

fun closePass :: "bool list \<Rightarrow> bool list \<Rightarrow> bool list \<times> bool \<times> bool list" where
  "closePass [] answers = ([], False, answers)"
| "closePass (True # flags) answers =
     (case closePass flags answers of (flags', failed, rest) \<Rightarrow> (True # flags', failed, rest))"
| "closePass (False # flags) answers =
     (let ok = (case answers of a # _ \<Rightarrow> a | [] \<Rightarrow> False) in
      case closePass flags (tl answers) of (flags', failed, rest) \<Rightarrow> (ok # flags', \<not> ok \<or> failed, rest))"

definition closeResources :: "runner_state \<Rightarrow> bool list \<Rightarrow> runner_state \<times> (err + unit)" where
  "closeResources s answers =
     (case closePass (rs_sessions s) answers of (sessions, failed, rest) \<Rightarrow>
      case closePass (rs_resources s) rest of (resources, failed', _) \<Rightarrow>
        if failed \<or> failed'
        then (s\<lparr>rs_sessions := sessions, rs_resources := resources, rs_closing := False\<rparr>,
              Inl (r_err Operation_runner_close_failed))
        else (s\<lparr>rs_sessions := sessions, rs_resources := resources, rs_closed := True\<rparr>, Inr ()))"

end
