(* ===== verification/Runner_Safety.thy ===== *)
theory Runner_Safety
  imports Operation_Runner Operation_Lifecycle
begin

text \<open>
  What one run of the runner may do, whatever its capabilities and the store answer.

  \<open>wp\<close> is a weakest precondition over runs with a ghost state: the records the run has been shown for a key,
  and a token for sending. The token is gained by the commit that takes a record known to be prepared to
  \<open>submission_attempted\<close>, \<open>openSubmission\<close> turns it into the right to submit, and \<open>submit\<close> spends it. A
  commit is allowed only if it does not make a record prepared again: a prepared record is either the first
  of its key, or replaces a known record of another identity.
\<close>

section \<open>Weakest preconditions of runs\<close>

datatype token = NoToken | MayOpen operation_store_key string | MaySubmit operation_store_key string

record ghost =
  gh_known :: "(operation_store_key \<times> operation store_record) set"
  gh_token :: token

abbreviation hash_in :: "operation store_record \<Rightarrow> string" where
  "hash_in r \<equiv> oi_userOperationHash (identity_in r)"

definition sound_record :: "operation_store_key \<Rightarrow> operation store_record \<Rightarrow> bool" where
  "sound_record k r \<longleftrightarrow> wf_operation (sr_value r) \<and> operationStoreKeyOf (sr_value r) = k"

definition learn :: "operation_store_key \<Rightarrow> operation store_record option \<Rightarrow> ghost \<Rightarrow> ghost" where
  "learn k c g = g\<lparr>gh_known := gh_known g \<union> Pair k ` set_option c\<rparr>"

definition permitted :: "ghost \<Rightarrow> operation_store_key \<Rightarrow> int option \<Rightarrow> operation \<Rightarrow> bool" where
  "permitted g k e x \<longleftrightarrow> (op_state x = Prepared \<longrightarrow> wf_operation x \<and>
     (\<forall>m. e = Some m \<longrightarrow> (\<exists>r. (k, r) \<in> gh_known g \<and> sr_storeRevision r = m \<and> identity_in r \<noteq> oc_identity (op_common x))))"

text \<open>The commit takes a record known to be prepared to \<open>submission_attempted\<close>.\<close>

definition attempting :: "ghost \<Rightarrow> operation_store_key \<Rightarrow> int option \<Rightarrow> operation \<Rightarrow> bool" where
  "attempting g k e x \<longleftrightarrow> wf_operation x \<and> (\<exists>r t. (k, r) \<in> gh_known g \<and> e = Some (sr_storeRevision r) \<and> state_in r = Prepared \<and>
     identity_in r = oc_identity (op_common x) \<and> op_state x = SubmissionAttempted t)"

definition cas_answer_ok ::
    "operation_store_key \<Rightarrow> int option \<Rightarrow> operation \<Rightarrow> err + operation cas_result \<Rightarrow> bool" where
  "cas_answer_ok k e x a \<longleftrightarrow>
     (case a of
        Inl _ \<Rightarrow> True
      | Inr (Committed r) \<Rightarrow> sound_record k r \<and> (wf_operation x \<longrightarrow> sr_value r = x)
      | Inr (Conflict c) \<Rightarrow> pred_option (sound_record k) c)"

definition after_cas ::
    "operation_store_key \<Rightarrow> int option \<Rightarrow> operation \<Rightarrow> err + operation cas_result \<Rightarrow> ghost \<Rightarrow> ghost" where
  "after_cas k e x a g =
     (case a of
        Inl _ \<Rightarrow> g
      | Inr (Committed r) \<Rightarrow>
          (learn k (Some r) g)\<lparr>gh_token := if attempting g k e x then MayOpen k (oi_userOperationHash (oc_identity (op_common x))) else NoToken\<rparr>
      | Inr (Conflict c) \<Rightarrow> learn k c g)"

definition read_of :: "err + operation store_record option \<Rightarrow> operation store_record option" where
  "read_of a = (case a of Inl _ \<Rightarrow> None | Inr c \<Rightarrow> c)"

primrec wp :: "(prepared_user_operation \<Rightarrow> operation_store_key) \<Rightarrow> 'r run \<Rightarrow> ('r \<Rightarrow> ghost \<Rightarrow> bool) \<Rightarrow> ghost \<Rightarrow> bool" where
  "wp K (Return x) Q g = Q x g"
| "wp K (Throw e) Q g = True"
| "wp K (StoreGet k f) Q g =
     (\<forall>a. pred_option (sound_record k) (read_of a) \<longrightarrow> wp K (f a) Q (learn k (read_of a) g))"
| "wp K (StoreGetExact k h f) Q g =
     (\<forall>a. pred_option (sound_record k) (read_of a) \<longrightarrow> wp K (f a) Q (learn k (read_of a) g))"
| "wp K (StoreCas k e x f) Q g =
     (permitted g k e x \<and> (\<forall>a. cas_answer_ok k e x a \<longrightarrow> wp K (f a) Q (after_cas k e x a g)))"
| "wp K (CallPrepare kind k f) Q g = (\<forall>a. wp K (f a) Q g)"
| "wp K (CallOwner c p f) Q g = (\<forall>a. wp K (f a) Q g)"
| "wp K (OpenSubmission p f) Q g =
     (gh_token g = MayOpen (K p) (pu_userOperationHash p) \<and>
      (\<forall>a. wp K (f a) Q (g\<lparr>gh_token := MaySubmit (K p) (pu_userOperationHash p)\<rparr>)))"
| "wp K (Submit p f) Q g =
     (gh_token g = MaySubmit (K p) (pu_userOperationHash p) \<and> (\<forall>a. wp K (f a) Q (g\<lparr>gh_token := NoToken\<rparr>)))"
| "wp K (CallObserve x t timeout f) Q g = (\<forall>a. wp K (f a) Q g)"

lemma wp_leaf [simp]: "wp K (Return x) Q = Q x" "wp K (Throw e) Q = (\<lambda>_. True)"
  by (simp_all add: fun_eq_iff)

lemma wp_bind: "wp K (bindR m f) Q g = wp K m (\<lambda>x. wp K (f x) Q) g"
  by (induction m arbitrary: g) simp_all

lemma wp_mono: "wp K m Q g \<Longrightarrow> (\<And>x g. Q x g \<Longrightarrow> Q' x g) \<Longrightarrow> wp K m Q' g"
  by (induction m arbitrary: g) auto

lemma wp_lift: "wp K (liftR r) Q g \<longleftrightarrow> (\<forall>x. r = Inr x \<longrightarrow> Q x g)"
  by (cases r) (auto simp: liftR_def)

lemma wp_release: "wp K (releaseAndThrow p e) Q g"
  by (simp add: releaseAndThrow_def releasePreparedReservation_def)

lemma wp_get: "wp K (getRecord k) Q g \<longleftrightarrow> (\<forall>c. pred_option (sound_record k) c \<longrightarrow> Q c (learn k c g))"
  by (auto simp: getRecord_def read_of_def split: sum.splits)

lemma wp_getExact: "wp K (getExactRecord k h) Q g \<longleftrightarrow> (\<forall>c. pred_option (sound_record k) c \<longrightarrow> Q c (learn k c g))"
  by (auto simp: getExactRecord_def read_of_def split: sum.splits)

lemma wp_commit:
  "wp K (commit k e x) Q g \<longleftrightarrow> permitted g k e x \<and>
     (\<forall>a. cas_answer_ok k e x (Inr a) \<longrightarrow> Q a (after_cas k e x (Inr a) g))"
  by (auto simp: commit_def cas_answer_ok_def split: sum.splits)

lemmas wp_rules = wp_bind wp_lift wp_release wp_get wp_getExact wp_commit

section \<open>The records a run works with\<close>

definition held :: "ghost \<Rightarrow> operation_store_key \<Rightarrow> operation store_record \<Rightarrow> bool" where
  "held g k r \<longleftrightarrow> (k, r) \<in> gh_known g \<and> sound_record k r"

lemma held_learn: "held g k r \<Longrightarrow> held (learn k' c g) k r" "sound_record k r \<Longrightarrow> held (learn k (Some r) g) k r"
  by (auto simp: held_def learn_def)

lemma held_after_cas: "held g k r \<Longrightarrow> held (after_cas k' e x a g) k r"
  by (auto simp: held_def after_cas_def learn_def split: sum.split cas_result.split)

lemma held_committed: "cas_answer_ok k e x (Inr (Committed r)) \<Longrightarrow> held (after_cas k e x (Inr (Committed r)) g) k r"
  by (auto simp: held_def after_cas_def learn_def cas_answer_ok_def)

lemma held_conflict: "cas_answer_ok k e x (Inr (Conflict (Some r))) \<Longrightarrow> held (after_cas k e x (Inr (Conflict (Some r))) g) k r"
  by (auto simp: held_def after_cas_def learn_def cas_answer_ok_def)

lemmas held_intros = held_learn held_after_cas held_committed held_conflict

lemma held_wf: "held g k r \<Longrightarrow> wf_operation (sr_value r)"
  by (simp add: held_def sound_record_def)

lemma runnerSameIdentity_iff [simp]: "runnerSameIdentity l r \<longleftrightarrow> l = r"
  by (auto simp: runnerSameIdentity_def intro: operation_identity.equality)

lemma step_result:
  assumes "ext_ok E" "operation_step E x t y"
  shows "op_state y \<noteq> Prepared" "oc_identity (op_common y) = oc_identity (op_common x)"
proof -
  have app: "applyTransition x t = Inr y" by (rule operation_stepD(4) [OF assms])
  show "op_state y \<noteq> Prepared"
    using next_phase_not_prepared [OF applyTransition_phase [OF app]] by (simp add: phase_of_prepared)
  show "oc_identity (op_common y) = oc_identity (op_common x)"
    using applyTransition_changed [OF app] by (auto simp: changed_def)
qed

lemma advance_steps:
  assumes "ext_ok E" "wf_operation x" "advanceOperation E (operation_literal [] x) v = Inr y"
  obtains t where "captureTransition E v = Inr t" "operation_step E x t y"
proof -
  from assms(3) obtain t where t: "captureTransition E v = Inr t"
    by (auto simp: advanceOperation_def bindE_Inr split: if_splits)
  from operation_step.submission [OF parseOperation_literal [OF assms(1,2)] t assms(3)] t that show thesis by blast
qed

lemma wp_advance:
  assumes "ext_ok E" "wf_operation x"
    and "\<And>y. op_state y \<noteq> Prepared \<Longrightarrow> oc_identity (op_common y) = oc_identity (op_common x) \<Longrightarrow> Q y g"
  shows "wp K (advance E x ty rest) Q g"
  using assms advance_steps [OF assms(1,2)] step_result [OF assms(1)] by (auto simp: advance_def wp_lift) metis

lemma permitted_advanced: "op_state x \<noteq> Prepared \<Longrightarrow> permitted g k e x"
  by (simp add: permitted_def)

lemma attempt_transition:
  assumes "captureTransition E (transition_literal ''mark_submission_attempted'' i rest) = Inr t"
  shows "\<exists>i n. t = Mark_submission_attempted i n"
proof -
  let ?fs = "names ((''type'', JString ''mark_submission_attempted'') #
      (''identity'', op_identity_literal [PName ''identity''] i) # rest)"
  have f: "fld ?fs ''type'' = JString ''mark_submission_attempted''" by (simp add: js_simps)
  from assms obtain c' where "captureMarkAttempted E Operation_transition_invalid ?fs {[]} = Inr (t, c')"
    unfolding captureTransition_def runC_Inr parseTransition_def transition_literal_def Let_def
    by (auto simp: bindC_def captureRecord_mk_obj f [simplified])
  then show ?thesis unfolding captureMarkAttempted_def by (auto elim!: bindC_InrE)
qed

lemma wp_attempt:
  assumes "ext_ok E" "wf_operation x"
    and "\<And>y n. wf_operation y \<Longrightarrow> op_state y = SubmissionAttempted n \<Longrightarrow> oc_identity (op_common y) = oc_identity (op_common x) \<Longrightarrow> Q y g"
  shows "wp K (advance E x ''mark_submission_attempted'' rest) Q g"
  unfolding advance_def wp_lift
proof (intro allI impI)
  fix y assume "advanceOperation E (operation_literal [] x)
      (transition_literal ''mark_submission_attempted'' (oc_identity (op_common x)) rest) = Inr y"
  then obtain t where t: "captureTransition E (transition_literal ''mark_submission_attempted'' (oc_identity (op_common x)) rest) = Inr t"
    "operation_step E x t y" by (rule advance_steps [OF assms(1,2)])
  from attempt_transition [OF t(1)] operation_stepD(4) [OF assms(1) t(2)] obtain n where "op_state y = SubmissionAttempted n"
    by (auto simp: markSubmissionAttempted_def advanceRecord_Inr elim!: bindE_InrE split: if_splits)
  moreover have "wf_operation y"
    using attempt_transition [OF t(1)] operation_step_wf [OF assms(1) t(2)] by auto
  ultimately show "Q y g" using step_result(2) [OF assms(1) t(2)] assms(3) by blast
qed

lemma wp_conflict_identity:
  "wp K (requireConflictIdentity c i) Q g \<longleftrightarrow> (\<forall>r. c = Some r \<longrightarrow> identity_in r = i \<longrightarrow> Q r g)"
  by (auto simp: requireConflictIdentity_def split: option.split)

section \<open>Steps that never send\<close>

lemma wp_abandonBeforeSubmission:
  assumes "ext_ok E" "wf_operation (sr_value r)"
  shows "wp K (abandonBeforeSubmission E input r p) (\<lambda>_ _. True) g"
  unfolding abandonBeforeSubmission_def wp_bind
  by (rule wp_advance [OF assms])
    (auto simp: wp_rules wp_conflict_identity permitted_advanced split: cas_result.split operation_state.split)

lemma wp_confirm:
  assumes "ext_ok E" "wf_operation (sr_value r)" "Q () g"
  shows "wp K (confirmPreparedPublication E input r p) Q g"
  using assms by (simp add: confirmPreparedPublication_def wp_bind wp_abandonBeforeSubmission)

lemma wp_authorize:
  assumes "ext_ok E" "wf_operation (sr_value r)" "Q () g"
  shows "wp K (authorizePreparedOperation E input r p) Q g"
  using assms by (simp add: authorizePreparedOperation_def wp_bind wp_abandonBeforeSubmission)

lemma wp_reserve: "Q () g \<Longrightarrow> wp K (reservePreparedOperation p) Q g"
  by (simp add: reservePreparedOperation_def)

lemma wp_rejectSubmission:
  assumes "ext_ok E" "wf_operation (sr_value r)"
  shows "wp K (rejectSubmission E input r p) (\<lambda>_ _. True) g"
  unfolding rejectSubmission_def wp_bind
  by (rule wp_advance [OF assms])
    (auto simp: wp_rules wp_conflict_identity permitted_advanced split: cas_result.split operation_state.split)

lemma observed_steps:
  assumes "ext_ok E" "wf_operation x" "applyObserved E x ty rest = Inr y"
  shows "op_state y \<noteq> Prepared" "wf_operation y"
proof -
  let ?v = "transition_literal ty (oc_identity (op_common x)) rest"
  from assms(3) obtain t where "captureTransition E ?v = Inr t" and n: "\<not> submission_transition t"
    by (auto simp: applyObserved_def applyVerifiedOperationObservation_def bindE_Inr split: if_splits)
  from operation_step.observation [OF parseOperation_literal [OF assms(1,2)] this(1) assms(3) [unfolded applyObserved_def]] n
  have t: "operation_step E x t y" "\<not> submission_transition t" by auto
  show "op_state y \<noteq> Prepared" by (rule step_result [OF assms(1) t(1)])
  show "wf_operation y" using operation_step_wf [OF assms(1) t(1)] t(2) by (cases t) auto
qed

lemma sameOperation_wf: "ext_ok E \<Longrightarrow> wf_operation x \<Longrightarrow> wf_operation y \<Longrightarrow> sameOperation E x y = Inr (x = y)"
  by (simp add: sameOperation_def parseOperation_literal)

lemma derived_operation:
  assumes "ext_ok E" "wf_operation x" "deriveObservedOperation E x ob = Some y" "y \<noteq> x"
  shows "wf_operation y" "op_state y \<noteq> Prepared"
proof -
  from assms(3,4) obtain z where z: "includeFirst E x ob = Inr z" and y: "\<exists>z'. applyObservation E z ob = Inr (Some z') \<and>
      parseOperation E (operation_literal [] z') = Inr y"
    by (auto simp: deriveObservedOperation_def deriveObserved_def bindE_Inr split: sum.splits if_splits option.splits)
  have wz: "wf_operation z"
    using z assms(2) observed_steps(2) [OF assms(1,2)]
    by (auto simp: includeFirst_def split: observation_result.splits if_splits operation_state.splits)
  from y obtain z' where z': "applyObservation E z ob = Inr (Some z')" "parseOperation E (operation_literal [] z') = Inr y" by blast
  have "wf_operation z' \<and> op_state z' \<noteq> Prepared"
    using z'(1) observed_steps [OF assms(1) wz]
    by (auto simp: applyObservation_def applyWeak_def bindE_Inr split: observation_result.splits option.splits)
  with z'(2) parseOperation_literal [OF assms(1)] show "wf_operation y" "op_state y \<noteq> Prepared" by auto
qed

lemma wp_observeStep:
  assumes "ext_ok E" "held g (ri_key input) r"
    and "\<And>g' r'. held g' (ri_key input) r' \<Longrightarrow> wp K (contended r') (\<lambda>_ _. True) g'"
  shows "wp K (observeStep E input r contended) (\<lambda>_ _. True) g"
proof -
  have same: "sameOperation E y (sr_value r) = Inr False \<longrightarrow> permitted g (ri_key input) (Some (sr_storeRevision r)) y"
    if "deriveObservedOperation E (sr_value r) ob = Some y" for y ob
    using derived_operation [OF assms(1) held_wf [OF assms(2)] that] sameOperation_wf [OF assms(1), of y "sr_value r"]
      held_wf [OF assms(2)] by (cases "y = sr_value r") (auto simp: permitted_advanced)
  show ?thesis
    unfolding observeStep_def
    using same
    by (auto simp: wp_rules wp_conflict_identity intro!: assms(3) held_conflict split: answer.split option.split cas_result.split)
qed

lemma wp_observe: "ext_ok E \<Longrightarrow> held g (ri_key input) r \<Longrightarrow> wp K (observe n E input r) (\<lambda>_ _. True) g"
proof (induction n arbitrary: g r)
  case 0
  then show ?case by (auto intro!: wp_observeStep simp: observeRetained_def split: option.split)
next
  case (Suc n)
  then show ?case by (auto intro!: wp_observeStep)
qed
section \<open>Publication\<close>

text \<open>The lane a prepared operation belongs to under a configuration.\<close>

definition lane_of :: "runner_configuration \<Rightarrow> prepared_user_operation \<Rightarrow> operation_store_key" where
  "lane_of cfg p = \<lparr>sc_grantId = pr_grantId p, sc_chainId = pr_chainId p, sc_kind = pr_kind p,
     sk_lane = map_option ol_key (rc_lane cfg)\<rparr>"

lemma wp_prepareExact:
  assumes "ext_ok E" "sc_kind (ri_key input) = ri_kind input"
    and "\<And>p. wf_prepared H p \<Longrightarrow> lane_of cfg p = ri_key input \<Longrightarrow>
      (\<And>i. expected = Some i \<Longrightarrow> oi_userOperationHash i = pu_userOperationHash p) \<Longrightarrow> Q p g"
  shows "wp K (prepareExact E H cfg input expected) Q g"
proof -
  have "Q p g" if p: "parsePreparedUserOperation E H raw = Inr p"
      "deriveOperationId E H (prepared_literal [] p) (rc_requestHash cfg) = Inr i"
    and lane: "map_option ol_key (rc_lane cfg) = sk_lane (ri_key input)"
    and i: "oi_kind i = ri_kind input" "oi_grantId i = sc_grantId (ri_key input)" "oi_chainId i = sc_chainId (ri_key input)"
      "\<forall>j. expected = Some j \<longrightarrow> i = j" for raw p i
  proof (rule assms(3))
    show wf: "wf_prepared H p" by (rule parsePrepared_wf [OF assms(1) p(1)])
    then have "i = identity_of_prepared p (rc_requestHash cfg)" using deriveOperationId_Inr [OF assms(1) _ p(2)] by blast
    with i lane assms(2) show "lane_of cfg p = ri_key input" "\<And>j. expected = Some j \<Longrightarrow> oi_userOperationHash j = pu_userOperationHash p"
      by (auto simp: lane_of_def identity_of_prepared_def intro!: operation_store_key.equality)
  qed
  then show ?thesis
    by (auto simp: prepareExact_def wp_rules split: answer.split sum.split option.splits)
qed

lemma createOperation_identity:
  assumes "ext_ok E" "wf_op_identity i" "createOperation E (creation_literal i t l) = Inr x"
  shows "oc_identity (op_common x) = i"
proof -
  let ?kvs = "[(''identity'', op_identity_literal [PName ''identity''] i), (''preparedAt'', JNumber t)] @
      (case l of None \<Rightarrow> [] | Some y \<Rightarrow> [(''lane'', lane_literal [PName ''lane''] y)])"
  have f: "fld (names ?kvs) ''identity'' = op_identity_literal [PName ''identity''] i" by (simp add: js_simps)
  have "fresh [PName ''identity''] {[]}" by (simp add: fresh_def below_def)
  from op_identity_codec.complete [OF assms(1,2) this] have r:
    "o_parseIdentity E code (op_identity_literal [PName ''identity''] i) {[]} = Inr (j, c) \<Longrightarrow> j = i" for code j c
    unfolding reads_def by (metis Inr_inject Pair_inject)
  from assms(3) show ?thesis
    unfolding createOperation_def creation_literal_def Let_def runC_Inr
    by (elim exE bindC_InrE) (auto simp: captureRecord_mk_obj f [simplified] exactCapturedRecord_def dest!: r split: if_splits)
qed

lemma wp_publishLoop:
  assumes "ext_ok E" "wf_operation x"
    and "\<And>r g'. held g' k r \<Longrightarrow> identity_in r = oc_identity (op_common x) \<Longrightarrow> Q r g'"
  shows "permitted g k e x \<Longrightarrow> wp K (publishLoop n E k p behavior x attempt e) Q g"
proof (induction n arbitrary: g e attempt)
  case 0
  then show ?case by (simp add: wp_release)
next
  case (Suc n)
  have again: "wp K (publishLoop n E k p behavior x (attempt + 1) (Some (sr_storeRevision r))) Q (after_cas k e x (Inr (Conflict (Some r))) g)"
    if "cas_answer_ok k e x (Inr (Conflict (Some r)))" "identity_in r \<noteq> oc_identity (op_common x)" for r
    using that held_conflict [OF that(1), of g] by (intro Suc.IH) (auto simp: permitted_def held_def assms(2))
  have settled: "wp K (catchR (commit k e x) (\<lambda>e. if e = r_err Operation_runner_state_conflict then releaseAndThrow p e else Throw e)) R g"
    if "\<And>a. cas_answer_ok k e x (Inr a) \<Longrightarrow> R a (after_cas k e x (Inr a) g)" for R
    using that Suc.prems by (auto simp: commit_def wp_release split: sum.split)
  show ?case
    unfolding publishLoop.simps wp_bind
  proof (rule settled)
    fix a assume a: "cas_answer_ok k e x (Inr a)"
    show "wp K (case a of
        Committed r \<Rightarrow> Return r
      | Conflict None \<Rightarrow> Throw (r_err Operation_runner_store_uncertain)
      | Conflict (Some r) \<Rightarrow>
         if behavior = RejectConflict then releaseAndThrow p (r_err Operation_runner_state_conflict)
         else if runnerSameIdentity (identity_in r) (oc_identity (op_common x)) then Return r
         else bindR (if attempt = 0 then occupies E (sr_value r) else Return True) (\<lambda>occupied.
              if \<not> occupied then publishLoop n E k p behavior x (attempt + 1) (Some (sr_storeRevision r))
              else releaseAndThrow p (r_err Operation_runner_state_conflict))) Q (after_cas k e x (Inr a) g)"
    proof (cases a)
      case (Committed r)
      with a assms(2,3) held_committed show ?thesis by (auto simp: cas_answer_ok_def)
    next
      case (Conflict c)
      with a again assms(3) held_conflict show ?thesis
        by (cases c) (auto simp: wp_bind wp_release wp_lift occupies_def)
    qed
  qed
qed

lemma wp_publishPrepared:
  assumes "ext_ok E" "wf_prepared H p"
    and "\<And>r. current = Some r \<Longrightarrow> held g (ri_key input) r"
    and "\<And>r g'. held g' (ri_key input) r \<Longrightarrow> hash_in r = pu_userOperationHash p \<Longrightarrow> Q r g'"
  shows "wp K (publishPrepared E H cfg input current p behavior) Q g"
  unfolding publishPrepared_def wp_bind wp_lift
proof (intro allI impI)
  fix i x assume i: "deriveOperationId E H (prepared_literal [] p) (rc_requestHash cfg) = Inr i"
    and x: "createOperation E (creation_literal i (ri_preparedAt input) (rc_lane cfg)) = Inr x"
  have id: "i = identity_of_prepared p (rc_requestHash cfg)" by (rule deriveOperationId_Inr [OF assms(1,2) i])
  have "pred_option (lower_hex 64) (rc_requestHash cfg)"
    using i by (cases "rc_requestHash cfg") (auto simp: deriveOperationId_def u_hash_def bindE_Inr)
  from createOperation_identity [OF assms(1) _ x] identity_of_prepared_wf [OF assms(2) this] id
  have ix: "oc_identity (op_common x) = identity_of_prepared p (rc_requestHash cfg)" by simp
  have st: "wf_operation x" using createOperation_sound [OF assms(1) x] by simp
  have loop: "wp K (publishLoop n E (ri_key input) p behavior x 0 (map_option sr_storeRevision current)) Q g"
    if "\<And>r. current = Some r \<Longrightarrow> identity_in r \<noteq> oc_identity (op_common x)" for n
    using that assms(3) by (intro wp_publishLoop [OF assms(1) st] assms(4))
      (auto simp: ix identity_of_prepared_def permitted_def held_def st)
  show "wp K (if (case current of None \<Rightarrow> False | Some r \<Rightarrow> runnerSameIdentity (identity_in r) (oc_identity (op_common x)))
     then releaseAndThrow p (r_err Operation_runner_state_conflict)
     else publishLoop (if behavior = ResumeConflict then 2 else 1) E (ri_key input) p behavior x 0
            (map_option sr_storeRevision current)) Q g"
    using loop by (cases current) (auto simp: wp_release simp del: publishLoop.simps)
qed

section \<open>The send\<close>

lemma wp_acknowledge:
  assumes "ext_ok E"
  shows "held g (ri_key input) r \<Longrightarrow> (\<And>r' g'. held g' (ri_key input) r' \<Longrightarrow> Q r' g') \<Longrightarrow>
    wp K (acknowledge n E input ack i r) Q g"
proof (induction n arbitrary: g r i)
  case 0
  then show ?case by simp
next
  case (Suc n)
  have "wp K (bindR (advance E (sr_value r) ty rest) (\<lambda>submitted.
          bindR (commit (ri_key input) (Some (sr_storeRevision r)) submitted) (\<lambda>persisted.
          case persisted of
            Committed r' \<Rightarrow> Return r'
          | Conflict c \<Rightarrow> bindR (requireConflictIdentity c i) (acknowledge n E input ack i)))) Q g" for ty rest
    unfolding wp_bind
    by (rule wp_advance [OF assms held_wf [OF Suc.prems(1)]])
      (auto simp: wp_rules wp_conflict_identity permitted_advanced intro!: Suc.IH Suc.prems(2) held_conflict held_committed split: cas_result.split)
  with Suc.prems show ?case by (auto split: operation_state.split)
qed

lemma wp_finish: "ext_ok E \<Longrightarrow> held g (ri_key input) r \<Longrightarrow> wp K (finish E input mode r) (\<lambda>_ _. True) g"
  by (simp add: finish_def wp_observe)

lemma wp_sendPrepared:
  assumes "ext_ok E" "held g (ri_key input) r" "gh_token g = MayOpen (K p) (pu_userOperationHash p)"
  shows "wp K (sendPrepared E input mode r p) (\<lambda>_ _. True) g"
proof -
  have held: "held (g\<lparr>gh_token := t\<rparr>) (ri_key input) r" for t using assms(2) by (simp add: held_def)
  have send: "wp K (submitSession E input mode r p) (\<lambda>_ _. True) (g\<lparr>gh_token := MaySubmit (K p) (pu_userOperationHash p)\<rparr>)"
    using held [of NoToken]
    by (auto simp: submitSession_def wp_bind wp_rejectSubmission [OF assms(1) held_wf [OF assms(2)]]
        intro!: wp_acknowledge [OF assms(1)] wp_finish [OF assms(1)] split: send_answer.split option.split)
  with assms(3) show ?thesis by (auto simp: sendPrepared_def split: send_answer.split sum.split)
qed

lemma wp_attemptConflict:
  "ext_ok E \<Longrightarrow> held g (ri_key input) r \<Longrightarrow> wp K (attemptConflict E input mode r) (\<lambda>_ _. True) g"
  by (cases mode) (simp_all add: attemptConflict_def wp_observe)

lemma wp_attemptSubmission:
  assumes "ext_ok E" "held g (ri_key input) r" "state_in r = Prepared"
    and "K p = ri_key input" "hash_in r = pu_userOperationHash p"
  shows "wp K (attemptSubmission E input mode r p) (\<lambda>_ _. True) g"
  unfolding attemptSubmission_def wp_bind
proof (rule wp_attempt [OF assms(1) held_wf [OF assms(2)]])
  fix y :: operation and n assume wf: "wf_operation y" and y: "op_state y = SubmissionAttempted n" "oc_identity (op_common y) = identity_in r"
  have "attempting g (ri_key input) (Some (sr_storeRevision r)) y"
    using assms(2,3) wf y unfolding attempting_def held_def by metis
  then have tok: "gh_token (after_cas (ri_key input) (Some (sr_storeRevision r)) y (Inr (Committed r')) g) =
      MayOpen (K p) (pu_userOperationHash p)" for r'
    using y assms(4,5) by (simp add: after_cas_def)
  show "wp K (commit (ri_key input) (Some (sr_storeRevision r)) y) (\<lambda>attemptedCommit. wp K (case attemptedCommit of
       Committed r' \<Rightarrow> sendPrepared E input mode r' p
     | Conflict c \<Rightarrow> bindR (requireConflictIdentity c (identity_in r)) (attemptConflict E input mode)) (\<lambda>_ _. True)) g"
    using y(1) by (auto simp: wp_rules wp_conflict_identity permitted_advanced tok
        intro!: wp_sendPrepared [OF assms(1)] wp_attemptConflict [OF assms(1)] intro: held_intros split: cas_result.split)
qed

lemma wp_executeAcquired:
  assumes "ext_ok E" "held g (ri_key input) r" "sc_kind (ri_key input) = ri_kind input"
    and "\<And>p. pb = Some p \<Longrightarrow> lane_of cfg p = ri_key input \<and> hash_in r = pu_userOperationHash p"
  shows "wp (lane_of cfg) (executeAcquired E H cfg input mode (r, pb)) (\<lambda>_ _. True) g"
proof -
  note wf = held_wf [OF assms(2)]
  have prepared: "wp (lane_of cfg) (bindR (authorizePreparedOperation E input r p) (\<lambda>_.
       bindR (confirmPreparedPublication E input r p) (\<lambda>_. attemptSubmission E input mode r p))) (\<lambda>_ _. True) g"
    if "state_in r = Prepared" "lane_of cfg p = ri_key input" "hash_in r = pu_userOperationHash p" for p
    unfolding wp_bind by (intro wp_authorize [OF assms(1) wf] wp_confirm [OF assms(1) wf] wp_attemptSubmission assms(1,2) that)
  have acquired: "wp (lane_of cfg) (case pb of Some p \<Rightarrow> Return p | None \<Rightarrow> prepareExact E H cfg input (Some (identity_in r)))
      (\<lambda>p. wp (lane_of cfg) (bindR (authorizePreparedOperation E input r p) (\<lambda>_.
       bindR (confirmPreparedPublication E input r p) (\<lambda>_. attemptSubmission E input mode r p))) (\<lambda>_ _. True)) g"
    if "state_in r = Prepared"
    using prepared [OF that] assms(4)
    by (cases pb) (auto intro!: wp_prepareExact [OF assms(1,3)])
  show ?thesis
    unfolding executeAcquired_def prod.case wp_bind wp_lift
    using acquired wp_observe [OF assms(1,2)] by (cases mode) (auto simp: wp_bind)
qed

section \<open>The methods\<close>

lemma parseRunInput_kind: "parseRunInput v = Inr input \<Longrightarrow> sc_kind (ri_key input) = ri_kind input"
  unfolding parseRunInput_def parseCapturedRunInput_def runC_Inr Let_def by (elim exE bindC_InrE) auto

lemma parseObserveInput_kind: "parseObserveInput v = Inr (input, h) \<Longrightarrow> sc_kind (ri_key input) = ri_kind input"
  unfolding parseObserveInput_def parseCapturedRunInput_def runC_Inr Let_def by (elim exE bindC_InrE) auto

lemma wp_publishFresh:
  assumes "ext_ok E" "sc_kind (ri_key input) = ri_kind input" "wf_prepared H p" "lane_of cfg p = ri_key input"
    and "\<And>r. current = Some r \<Longrightarrow> held g (ri_key input) r"
  shows "wp (lane_of cfg) (bindR (publishFresh E H cfg input current p behavior) (executeAcquired E H cfg input mode)) (\<lambda>_ _. True) g"
  unfolding publishFresh_def wp_bind wp.simps
  by (intro wp_reserve wp_publishPrepared [OF assms(1,3)] wp_executeAcquired assms(1,2,5)) (auto simp: assms(4))

lemma held_option: "pred_option (sound_record k) c \<Longrightarrow> c = Some r \<Longrightarrow> held (learn k c g) k r"
  by (auto intro: held_learn)

lemma wp_occupied: "(\<And>b. Q b g) \<Longrightarrow> wp K (occupied E c) Q g"
  by (auto simp: occupied_def occupies_def wp_lift split: option.split)

lemma wp_prepare:
  assumes "ext_ok E" "sc_kind (ri_key input) = ri_kind input"
    and "\<And>p. wf_prepared H p \<Longrightarrow> lane_of cfg p = ri_key input \<Longrightarrow> wp K (f p) Q g"
  shows "wp K (bindR (prepareExact E H cfg input None) f) Q g"
  unfolding wp_bind by (rule wp_prepareExact [OF assms(1,2)]) (rule assms(3))

theorem wp_startOperation: "ext_ok E \<Longrightarrow> wp (lane_of cfg) (startOperation E H cfg v) (\<lambda>_ _. True) g"
  unfolding startOperation_def startExecution_def
  by (subst wp_bind, subst wp_lift, intro allI impI, subst wp_bind, subst wp_get, intro allI impI, subst wp_bind, rule wp_occupied)
    (auto dest!: parseRunInput_kind intro!: wp_prepare wp_publishFresh held_option)

theorem wp_runOperation: "ext_ok E \<Longrightarrow> wp (lane_of cfg) (runOperation E H cfg v) (\<lambda>_ _. True) g"
  unfolding runOperation_def runExecution_def
  by (subst wp_bind, subst wp_lift, intro allI impI, subst wp_bind, subst wp_get, intro allI impI, subst wp_bind, rule wp_occupied)
    (auto simp: wp_bind [of _ "liftR _"] wp_lift dest!: parseRunInput_kind intro!: wp_executeAcquired wp_observe held_learn(2)
      wp_prepare wp_publishFresh held_option split: option.split)

lemma wp_resumeOccupied:
  assumes "ext_ok E" "sc_kind (ri_key input) = ri_kind input"
    and "held g (ri_key input) r" "lane_of cfg p = ri_key input" "oi_userOperationHash i = pu_userOperationHash p"
  shows "wp (lane_of cfg) (resumeOccupied E H cfg input p i r) (\<lambda>_ _. True) g"
  using assms by (auto simp: resumeOccupied_def wp_bind wp_lift intro!: wp_reserve wp_executeAcquired)

lemma wp_resumeExecution:
  assumes "ext_ok E" "sc_kind (ri_key input) = ri_kind input"
  shows "wp (lane_of cfg) (resumeExecution E H cfg input h) (\<lambda>_ _. True) g"
  unfolding resumeExecution_def
proof (subst wp_bind, subst wp_get, intro allI impI, rule wp_prepare [OF assms], subst wp_bind, subst wp_lift, intro allI impI)
  fix c p i
  assume c: "pred_option (sound_record (ri_key input)) c" and p: "wf_prepared H p" "lane_of cfg p = ri_key input"
    and i: "deriveOperationId E H (prepared_literal [] p) (rc_requestHash cfg) = Inr i"
  have hash: "oi_userOperationHash i = pu_userOperationHash p"
    using deriveOperationId_Inr [OF assms(1) p(1) i] by (simp add: identity_of_prepared_def)
  show "wp (lane_of cfg) (if oi_userOperationHash i \<noteq> h then Throw (r_err Operation_runner_identity_mismatch)
     else bindR (occupied E c) (\<lambda>occ.
          case c of
            None \<Rightarrow> bindR (publishFresh E H cfg input None p ResumeConflict) (executeAcquired E H cfg input ResumeMode)
          | Some r \<Rightarrow>
              if \<not> occ then bindR (publishFresh E H cfg input c p ResumeConflict) (executeAcquired E H cfg input ResumeMode)
              else resumeOccupied E H cfg input p i r)) (\<lambda>_ _. True) (learn (ri_key input) c g)"
    using c hash
    by (cases c) (auto simp: wp_bind [of _ "occupied E _"]
        intro!: wp_occupied wp_publishFresh [OF assms p] wp_resumeOccupied [OF assms] held_learn(2) p)
qed

theorem wp_resumePreparedOperation: "ext_ok E \<Longrightarrow> wp (lane_of cfg) (resumePreparedOperation E H cfg v) (\<lambda>_ _. True) g"
  unfolding resumePreparedOperation_def wp_bind wp_lift
  by (auto dest!: parseObserveInput_kind intro: wp_resumeExecution)

theorem wp_observeOperation: "ext_ok E \<Longrightarrow> wp K (observeOperation E v) (\<lambda>_ _. True) g"
  unfolding observeOperation_def
  by (auto simp: wp_rules intro!: wp_observe held_learn(2) split: option.split)

theorem wp_abandonPreparedOperation: "ext_ok E \<Longrightarrow> wp K (abandonPreparedOperation E v) (\<lambda>_ _. True) g"
  unfolding abandonPreparedOperation_def
  by (auto simp: wp_rules sound_record_def intro!: wp_advance permitted_advanced split: option.split)

section \<open>Closing a runner\<close>

text \<open>
  The life of one runner: methods begin and end, a running method may open a session, \<open>close\<close> may be
  called at any time, and its pass over the resources runs once no method is active.
\<close>

inductive runner_life :: "runner_state \<Rightarrow> bool" where
  created: "runner_life createdRunner"
| begins: "runner_life s \<Longrightarrow> beginRun s = Inr s' \<Longrightarrow> runner_life s'"
| ends: "runner_life s \<Longrightarrow> rs_activeRuns s > 0 \<Longrightarrow> runner_life (endRun s)"
| opens: "runner_life s \<Longrightarrow> rs_activeRuns s > 0 \<Longrightarrow> runner_life (pushSession s)"
| requests: "runner_life s \<Longrightarrow> runner_life (requestClose s)"
| passes: "runner_life s \<Longrightarrow> rs_closing s \<Longrightarrow> \<not> rs_closed s \<Longrightarrow> \<not> rs_waiting s \<Longrightarrow> runner_life (fst (closeResources s answers))"

lemma closePass_closes:
  assumes "closePass flags answers = (flags', failed, rest)"
  shows "list_all2 (\<longrightarrow>) flags flags' \<and> (\<not> failed \<longrightarrow> False \<notin> set flags')"
  using assms
proof (induction flags answers arbitrary: flags' failed rest rule: closePass.induct)
  case (2 flags answers)
  obtain f b r where "closePass flags answers = (f, b, r)" by (cases "closePass flags answers")
  with 2 show ?case by auto
next
  case (3 flags answers)
  obtain f b r where "closePass flags (tl answers) = (f, b, r)" by (cases "closePass flags (tl answers)")
  with 3 show ?case by (auto simp: Let_def)
qed auto

lemma closeResources_closes:
  "closeResources s answers = (s', Inr u) \<Longrightarrow> rs_closed s' \<and> False \<notin> set (rs_sessions s') \<and> False \<notin> set (rs_resources s')"
  "fst (closeResources s answers) = s' \<Longrightarrow> rs_activeRuns s' = rs_activeRuns s \<and> rs_closeRequested s' = rs_closeRequested s \<and>
     rs_waiting s' = rs_waiting s \<and> (rs_closed s' \<longrightarrow> rs_closed s \<or> False \<notin> set (rs_sessions s') \<and> False \<notin> set (rs_resources s'))"
  by (auto simp: closeResources_def dest!: closePass_closes split: prod.splits if_splits)

text \<open>A closed runner has no method running and every session it opened and every resource it owns is closed.\<close>

lemma closed_runner_released:
  assumes "runner_life s"
  shows "(rs_closing s \<or> rs_closed s \<longrightarrow> rs_closeRequested s) \<and> (rs_closing s \<and> \<not> rs_waiting s \<longrightarrow> rs_activeRuns s = 0) \<and>
    (rs_waiting s \<longrightarrow> rs_closing s) \<and>
    (rs_closed s \<longrightarrow> rs_activeRuns s = 0 \<and> False \<notin> set (rs_sessions s) \<and> False \<notin> set (rs_resources s))"
  using assms
proof induction
  case (passes s answers)
  then show ?case
    using closeResources_closes(2) [OF HOL.refl, of s answers]
    by (auto simp: closeResources_def split: prod.splits if_splits dest!: closePass_closes)
qed (auto simp: createdRunner_def beginRun_def endRun_def pushSession_def requestClose_def Let_def split: if_splits)

lemma close_refuses_runs: "beginRun (requestClose s) = Inl (r_err Operation_runner_closed)"
  by (simp add: beginRun_def requestClose_def)

end
