(* ===== verification/Runner_System.thy ===== *)
theory Runner_System
  imports Runner_Safety Store_Properties
begin

text \<open>
  Any number of runner methods running together over one operation journal: the runs of
  \<open>Operation_Runner\<close> composed with the stores of \<open>Store_Concurrency\<close> and the in-memory backend.

  A task is one method call. Its next call is made by an event of its own, so other tasks, the stores'
  requests and closes fall between any two calls, and a task whose events stop is a crashed process. A
  compare-and-swap is issued to the store and answered with the outcome of that store call. Opening a
  submission and submitting are recorded when they are invoked, not when they are answered. The answers of
  the preparation, submission and observation capabilities are arbitrary, and so is the closed flag of the
  task's store at every step. The only writers of the journal are runner methods.
\<close>

section \<open>Tasks\<close>

datatype runner_method = StartMethod | ResumeMethod | RunMethod | ObserveMethod | AbandonMethod

datatype method_result = RunResult run_result | AbandonResult "operation cas_result"

definition methodRun ::
    "ext \<Rightarrow> signing_hash \<Rightarrow> runner_configuration \<Rightarrow> runner_method \<Rightarrow> jsval \<Rightarrow> method_result run" where
  "methodRun E H cfg m v =
     (let result = (\<lambda>t. bindR t (\<lambda>r. Return (RunResult r))) in
      case m of
        StartMethod \<Rightarrow> result (startOperation E H cfg v)
      | ResumeMethod \<Rightarrow> result (resumePreparedOperation E H cfg v)
      | RunMethod \<Rightarrow> result (runOperation E H cfg v)
      | ObserveMethod \<Rightarrow> result (observeOperation E v)
      | AbandonMethod \<Rightarrow> bindR (abandonPreparedOperation E v) (\<lambda>r. Return (AbandonResult r)))"

record runner_task =
  rt_configuration :: runner_configuration
  rt_run :: "method_result run"
  rt_call :: "nat option"
  rt_read :: "answer option"
  rt_invoked :: bool

type_synonym operation_world = "(operation operation_memory, operation_store_key, operation) world"

record runner_system =
  y_world :: operation_world
  y_tasks :: "nat \<Rightarrow> runner_task option"
  y_opened :: "(operation_store_key \<times> string) list"
  y_sent :: "(operation_store_key \<times> string) list"

datatype runner_event =
    Launch nat runner_configuration runner_method jsval
  | StoreServe nat
  | StoreResume nat bool
  | StoreClose
  | Issue nat nat bool
  | Settle nat
  | ReadLane nat bool
  | ReadArchive nat bool bool bool
  | Answered nat answer
  | OwnerAnswered nat bool
  | Invoke nat
  | SendAnswered nat send_answer

definition operation_event :: "ext \<Rightarrow> event \<Rightarrow> operation_world \<Rightarrow> operation_world" where
  "operation_event E = runEvent (operation_access E) (operationStore_casInput E)
     (serveMemoryOperation show_operation) memoryOperation_close"

definition laneRead :: "ext \<Rightarrow> bool \<Rightarrow> operation_world \<Rightarrow> operation_store_key \<Rightarrow> err + operation store_record option" where
  "laneRead E closed w k =
     operationStore_get E closed (key_literal [] k) (fst (serveMemoryOperation show_operation (w_adapter w) (ReqGet k)))"

definition put_task :: "nat \<Rightarrow> runner_task \<Rightarrow> runner_system \<Rightarrow> runner_system" where
  "put_task i t y = y\<lparr>y_tasks := (y_tasks y)(i \<mapsto> t)\<rparr>"

definition continue_with :: "runner_task \<Rightarrow> method_result run \<Rightarrow> runner_task" where
  "continue_with t m = t\<lparr>rt_run := m, rt_call := None, rt_read := None, rt_invoked := False\<rparr>"

text \<open>One event of a task, on the call its run has reached; events that do not fit change nothing.\<close>

definition issue :: "ext \<Rightarrow> nat \<Rightarrow> runner_task \<Rightarrow> nat \<Rightarrow> bool \<Rightarrow> runner_system \<Rightarrow> runner_system" where
  "issue E i t c closed y =
     (case rt_run t of
        StoreCas k e x f \<Rightarrow>
          if rt_call t \<noteq> None \<or> w_calls (y_world y) c \<noteq> None then y
          else (case operationStore_casInput E (cas_literal k e x) of
                  Inl err \<Rightarrow> put_task i (continue_with t (f (Inl err))) y
                | Inr _ \<Rightarrow>
                    (put_task i (t\<lparr>rt_call := Some c\<rparr>) y)
                      \<lparr>y_world := operation_event E (Start c closed (cas_literal k e x)) (y_world y)\<rparr>)
      | _ \<Rightarrow> y)"

definition settle :: "nat \<Rightarrow> runner_task \<Rightarrow> runner_system \<Rightarrow> runner_system" where
  "settle i t y =
     (case (rt_run t, rt_call t) of
        (StoreCas k e x f, Some c) \<Rightarrow>
          (case outcome (y_world y) c of None \<Rightarrow> y | Some r \<Rightarrow> put_task i (continue_with t (f r)) y)
      | _ \<Rightarrow> y)"

definition readLane :: "ext \<Rightarrow> nat \<Rightarrow> runner_task \<Rightarrow> bool \<Rightarrow> runner_system \<Rightarrow> runner_system" where
  "readLane E i t closed y =
     (case rt_run t of
        StoreGet k f \<Rightarrow> put_task i (continue_with t (f (laneRead E closed (y_world y) k))) y
      | StoreGetExact k h f \<Rightarrow>
          put_task i (t\<lparr>rt_read := Some (fst (serveMemoryOperation show_operation (w_adapter (y_world y)) (ReqGet k)))\<rparr>) y
      | _ \<Rightarrow> y)"

definition readArchive :: "ext \<Rightarrow> nat \<Rightarrow> runner_task \<Rightarrow> bool \<Rightarrow> bool \<Rightarrow> bool \<Rightarrow> runner_system \<Rightarrow> runner_system" where
  "readArchive E i t closed closed' closed'' y =
     (case (rt_run t, rt_read t) of
        (StoreGetExact k h f, Some a) \<Rightarrow>
          put_task i (continue_with t (f (getExact E (key_literal [] k) (JString h) closed a closed'
            (fst (serveMemoryOperation show_operation (w_adapter (y_world y)) (ReqArchived k h))) closed''))) y
      | _ \<Rightarrow> y)"

definition answered :: "nat \<Rightarrow> runner_task \<Rightarrow> answer \<Rightarrow> runner_system \<Rightarrow> runner_system" where
  "answered i t a y =
     (case rt_run t of
        CallPrepare kind k f \<Rightarrow> put_task i (continue_with t (f a)) y
      | CallObserve x time timeout f \<Rightarrow> put_task i (continue_with t (f a)) y
      | _ \<Rightarrow> y)"

definition ownerAnswered :: "nat \<Rightarrow> runner_task \<Rightarrow> bool \<Rightarrow> runner_system \<Rightarrow> runner_system" where
  "ownerAnswered i t resolved y =
     (case rt_run t of CallOwner c p f \<Rightarrow> put_task i (continue_with t (f resolved)) y | _ \<Rightarrow> y)"

definition invoke :: "nat \<Rightarrow> runner_task \<Rightarrow> runner_system \<Rightarrow> runner_system" where
  "invoke i t y =
     (if rt_invoked t then y
      else case rt_run t of
        OpenSubmission p f \<Rightarrow>
          (put_task i (t\<lparr>rt_invoked := True\<rparr>) y)
            \<lparr>y_opened := y_opened y @ [(lane_of (rt_configuration t) p, pu_userOperationHash p)]\<rparr>
      | Submit p f \<Rightarrow>
          (put_task i (t\<lparr>rt_invoked := True\<rparr>) y)
            \<lparr>y_sent := y_sent y @ [(lane_of (rt_configuration t) p, pu_userOperationHash p)]\<rparr>
      | _ \<Rightarrow> y)"

definition sendAnswered :: "nat \<Rightarrow> runner_task \<Rightarrow> send_answer \<Rightarrow> runner_system \<Rightarrow> runner_system" where
  "sendAnswered i t a y =
     (if \<not> rt_invoked t then y
      else case rt_run t of
        OpenSubmission p f \<Rightarrow> put_task i (continue_with t (f a)) y
      | Submit p f \<Rightarrow> put_task i (continue_with t (f a)) y
      | _ \<Rightarrow> y)"

definition launch ::
    "ext \<Rightarrow> signing_hash \<Rightarrow> nat \<Rightarrow> runner_configuration \<Rightarrow> runner_method \<Rightarrow> jsval \<Rightarrow> runner_system \<Rightarrow> runner_system" where
  "launch E H i cfg m v y =
     (if y_tasks y i \<noteq> None then y
      else put_task i \<lparr>rt_configuration = cfg, rt_run = methodRun E H cfg m v, rt_call = None, rt_read = None,
             rt_invoked = False\<rparr> y)"

definition with_task :: "runner_system \<Rightarrow> nat \<Rightarrow> (runner_task \<Rightarrow> runner_system) \<Rightarrow> runner_system" where
  "with_task y i f = (case y_tasks y i of None \<Rightarrow> y | Some t \<Rightarrow> f t)"

fun runnerEvent :: "ext \<Rightarrow> signing_hash \<Rightarrow> runner_event \<Rightarrow> runner_system \<Rightarrow> runner_system" where
  "runnerEvent E H (Launch i cfg m v) y = launch E H i cfg m v y"
| "runnerEvent E H (StoreServe c) y = y\<lparr>y_world := operation_event E (Serve c) (y_world y)\<rparr>"
| "runnerEvent E H (StoreResume c closed) y = y\<lparr>y_world := operation_event E (Resume c closed) (y_world y)\<rparr>"
| "runnerEvent E H StoreClose y = y\<lparr>y_world := operation_event E CloseAdapter (y_world y)\<rparr>"
| "runnerEvent E H (Issue i c closed) y = with_task y i (\<lambda>t. issue E i t c closed y)"
| "runnerEvent E H (Settle i) y = with_task y i (\<lambda>t. settle i t y)"
| "runnerEvent E H (ReadLane i closed) y = with_task y i (\<lambda>t. readLane E i t closed y)"
| "runnerEvent E H (ReadArchive i closed closed' closed'') y = with_task y i (\<lambda>t. readArchive E i t closed closed' closed'' y)"
| "runnerEvent E H (Answered i a) y = with_task y i (\<lambda>t. answered i t a y)"
| "runnerEvent E H (OwnerAnswered i resolved) y = with_task y i (\<lambda>t. ownerAnswered i t resolved y)"
| "runnerEvent E H (Invoke i) y = with_task y i (\<lambda>t. invoke i t y)"
| "runnerEvent E H (SendAnswered i a) y = with_task y i (\<lambda>t. sendAnswered i t a y)"

definition emptySystem :: runner_system where
  "emptySystem = \<lparr>y_world = emptyWorld createMemoryOperationStoreAdapter, y_tasks = (\<lambda>_. None), y_opened = [], y_sent = []\<rparr>"

definition runRunners :: "ext \<Rightarrow> signing_hash \<Rightarrow> runner_event list \<Rightarrow> runner_system" where
  "runRunners E H es = fold (runnerEvent E H) es emptySystem"

section \<open>What an event of the journal keeps\<close>

abbreviation captured_in :: "(operation_store_key, operation) cas_call \<Rightarrow> operation_store_key \<times> int option \<times> operation" where
  "captured_in call \<equiv> (cc_key call, cc_expected call, cc_next call)"

lemma event_keeps_call:
  assumes "w_calls w c = Some (call, p)"
  obtains call' p' where "w_calls (operation_event E e w) c = Some (call', p')" "captured_in call' = captured_in call"
    "\<And>r. cc_phase call = Settled r \<Longrightarrow> cc_phase call' = Settled r"
proof (cases "c \<in> dom (w_calls (operation_event E e w))")
  case True
  then obtain call' p' where "w_calls (operation_event E e w) c = Some (call', p')" by auto
  moreover from this assms have "captured_in call' = captured_in call \<and> (\<forall>r. cc_phase call = Settled r \<longrightarrow> cc_phase call' = Settled r)"
    by (cases e) (auto simp: operation_event_def startCall_def serveCall_def resumeCall_def resumeCas_def
        split: if_splits sum.splits prod.splits option.splits)
  ultimately show thesis using that by blast
next
  case False
  with assms have False
    by (cases e) (auto simp: operation_event_def startCall_def serveCall_def resumeCall_def
        split: if_splits sum.splits prod.splits option.splits)
  then show thesis ..
qed

lemma event_keeps_commit: "committed_by w c k r \<Longrightarrow> committed_by (operation_event E e w) c k r"
proof -
  assume "committed_by w c k r"
  then obtain call p where call: "w_calls w c = Some (call, p)" "cc_key call = k" "cc_phase call = Settled (Inr (Committed r))"
    by (auto simp: committed_by_def)
  from event_keeps_call [OF call(1), of E e] call(2,3) show ?thesis unfolding committed_by_def by fastforce
qed

lemma event_calls:
  assumes "w_calls (operation_event E e w) c = Some (call', p')" "\<nexists>i closed v. e = Start i closed v"
  obtains call p where "w_calls w c = Some (call, p)" "captured_in call' = captured_in call"
  using assms
  by (cases e) (auto simp: operation_event_def serveCall_def resumeCall_def split: if_splits option.splits prod.splits)

lemma access_successor: "ac_validateNext (operation_access E) = validateNextOperation"
  by (simp add: operation_access_def)

section \<open>A prepared record is the first of its hash\<close>

definition prepared_first :: "operation store_record list \<Rightarrow> bool" where
  "prepared_first rs \<longleftrightarrow>
     (\<forall>i j. i < j \<longrightarrow> j < length rs \<longrightarrow> state_in (rs ! j) = Prepared \<longrightarrow> hash_in (rs ! i) \<noteq> hash_in (rs ! j))"

lemma prepared_first_snoc:
  assumes "prepared_first rs" "state_in n = Prepared \<Longrightarrow> \<forall>r \<in> set rs. hash_in r \<noteq> hash_in n"
  shows "prepared_first (rs @ [n])"
  using assms by (auto simp: prepared_first_def nth_append less_Suc_eq)

text \<open>A call in flight that would write a prepared record expects a record of another identity.\<close>

definition cas_permitted :: "(operation_store_key \<Rightarrow> operation store_record list) \<Rightarrow> (operation_store_key \<times> int option \<times> operation) \<Rightarrow> bool" where
  "cas_permitted L = (\<lambda>(k, e, x). op_state x = Prepared \<longrightarrow>
     (\<forall>m. e = Some m \<longrightarrow> (\<exists>r \<in> set (L k). sr_storeRevision r = m \<and> identity_in r \<noteq> oc_identity (op_common x))))"

definition journal_ok :: "documented_ext \<Rightarrow> operation_world \<Rightarrow> (operation_store_key \<Rightarrow> operation store_record list) \<Rightarrow> bool" where
  "journal_ok T w L \<longleftrightarrow> op_journal.world_ok T w L \<and> (\<forall>k. prepared_first (L k)) \<and>
     (\<forall>c call p. w_calls w c = Some (call, p) \<longrightarrow> cas_permitted L (captured_in call))"

lemma cas_permitted_mono: "cas_permitted L x \<Longrightarrow> (\<And>k. set (L k) \<subseteq> set (L' k)) \<Longrightarrow> cas_permitted L' x"
  unfolding cas_permitted_def by (cases x) fastforce

lemma grown_prepared_first:
  assumes "log_ok (operation_access E) wf_operation (cc_key call) (L (cc_key call))" "op_journal.grown_by T L call n"
    and "cas_permitted L (captured_in call)" "prepared_first (L (cc_key call))"
  shows "prepared_first (L (cc_key call) @ [n])"
proof (rule prepared_first_snoc [OF assms(4)], rule ballI, rule notI)
  let ?rs = "L (cc_key call)"
  fix r assume n: "state_in n = Prepared" and r: "r \<in> set ?rs" "hash_in r = hash_in n"
  have next_value: "sr_value n = cc_next call" and rev: "revisionMatches (last_of ?rs) (cc_expected call)"
    and valid: "validateNextOperation (map_option sr_value (last_of ?rs)) (cc_next call) = Inr ()"
    and hash: "hash_in (last ?rs) = hash_in n"
    using assms(2) [unfolded op_journal.grown_by_def op_journal.next_of_def] r by (auto simp: access_hash access_successor)
  from r(1) have ne: "?rs \<noteq> []" by auto
  with rev have e: "cc_expected call = Some (sr_storeRevision (last ?rs))"
    by (auto simp: revisionMatches_def last_of_def split: option.splits)
  with assms(3) n next_value obtain r' where r': "r' \<in> set ?rs" "sr_storeRevision r' = sr_storeRevision (last ?rs)"
    "identity_in r' \<noteq> oc_identity (op_common (cc_next call))" by (auto simp: cas_permitted_def)
  from log_ok_last(2) [OF assms(1) r'(1,2)] r'(3) have "identity_in (last ?rs) \<noteq> oc_identity (op_common (cc_next call))" by simp
  with valid hash ne next_value show False
    by (auto simp: validateNextOperation_def last_of_def sameOperationIdentity_def split: if_splits)
qed

lemma journal_event:
  assumes "journal_ok T w L" "\<nexists>i closed v. e = Start i closed v"
  obtains L' where "journal_ok T (operation_event (ext_of T) e w) L'" "\<And>k. set (L k) \<subseteq> set (L' k)"
proof -
  let ?w = "operation_event (ext_of T) e w"
  have ok: "op_journal.world_ok T w L" and first: "prepared_first (L k)"
    and perm: "w_calls w c = Some (call, p) \<Longrightarrow> cas_permitted L (captured_in call)" for k c call p
    using assms(1) by (auto simp: journal_ok_def)
  have calls: "cas_permitted L (captured_in call)" if "w_calls ?w c = Some (call, p)" for c call p
    using event_calls [OF that assms(2)] perm by metis
  consider "op_journal.world_ok T ?w L"
    | i call n where "w_calls w i = Some (call, None)" "op_journal.grown_by T L call n"
      "op_journal.world_ok T ?w (L(cc_key call := L (cc_key call) @ [n]))"
    using assms(2) op_journal.serve_grows [OF ok] op_journal.resume_ok [OF ok] op_journal.shut_ok [OF ok]
    by (cases e) (auto simp: operation_event_def, blast+)
  then show thesis
  proof cases
    case 1
    with calls first have "journal_ok T ?w L" by (auto simp: journal_ok_def)
    then show thesis by (rule that) simp
  next
    case (2 i call n)
    let ?L = "L(cc_key call := L (cc_key call) @ [n])"
    have sub: "set (L k) \<subseteq> set (?L k)" for k by auto
    have log: "log_ok (operation_access (ext_of T)) wf_operation (cc_key call) (L (cc_key call))"
      using op_journal.world_ok_log [OF ok] by blast
    have "prepared_first (?L k)" for k
      using grown_prepared_first [OF log 2(2) perm [OF 2(1)] first] first by simp
    moreover have "cas_permitted ?L (captured_in call')" if "w_calls ?w c = Some (call', p)" for c call' p
      using calls [OF that] sub by (rule cas_permitted_mono)
    ultimately have "journal_ok T ?w ?L" using 2(3) by (auto simp: journal_ok_def)
    then show thesis using sub by (rule that)
  qed
qed

lemma journal_start:
  assumes "journal_ok T w L" "operationStore_casInput (ext_of T) v = Inr x" "cas_permitted L x"
  shows "journal_ok T (operation_event (ext_of T) (Start c closed v) w) L"
proof -
  have "op_journal.world_ok T (operation_event (ext_of T) (Start c closed v) w) L"
    using assms(1) op_journal.start_ok by (auto simp: journal_ok_def operation_event_def)
  moreover have "cas_permitted L (captured_in call)"
    if "w_calls (operation_event (ext_of T) (Start c closed v) w) c' = Some (call, p)" for c' call p
  proof (cases "w_calls w c' = Some (call, p)")
    case True
    with assms(1) show ?thesis unfolding journal_ok_def by blast
  next
    case False
    with that assms(2,3) show ?thesis
      by (cases x) (auto simp: operation_event_def startCall_def split: if_splits)
  qed
  ultimately show ?thesis using assms(1) by (auto simp: journal_ok_def)
qed

section \<open>The one commit that authorises a send\<close>

definition authorized ::
    "operation_world \<Rightarrow> (operation_store_key \<Rightarrow> operation store_record list) \<Rightarrow> nat \<Rightarrow> operation_store_key \<times> string \<Rightarrow> bool" where
  "authorized w L c = (\<lambda>(k, h). \<exists>r r0. committed_by w c k r \<and> r0 \<in> set (L k) \<and> sr_storeRevision r = sr_storeRevision r0 + 1 \<and>
     state_in r0 = Prepared \<and> hash_in r0 = h \<and> hash_in r = h \<and> state_in r \<noteq> Prepared)"

lemma authorized_unique:
  assumes "journal_ok T w L" "authorized w L c kh" "authorized w L c' kh"
  shows "c = c'"
proof -
  obtain k h where kh: "kh = (k, h)" by (cases kh)
  from assms(2,3) obtain r r0 r' r0' where r: "committed_by w c k r" "committed_by w c' k r'"
    "sr_storeRevision r = sr_storeRevision r0 + 1" "sr_storeRevision r' = sr_storeRevision r0' + 1"
    and r0: "r0 \<in> set (L k)" "state_in r0 = Prepared" "hash_in r0 = h" "r0' \<in> set (L k)" "state_in r0' = Prepared" "hash_in r0' = h"
    by (auto simp: authorized_def kh)
  from r0(1,4) obtain i j where ij: "i < length (L k)" "r0 = L k ! i" "j < length (L k)" "r0' = L k ! j"
    by (auto simp: in_set_conv_nth)
  have first: "prepared_first (L k)" and ok: "op_journal.world_ok T w L" using assms(1) by (auto simp: journal_ok_def)
  have "i = j"
    using first ij r0 unfolding prepared_first_def by (metis linorder_neqE_nat)
  with r ij have "sr_storeRevision r = sr_storeRevision r'" by simp
  then show ?thesis by (rule op_journal.world_ok_winner [OF ok r(1,2)])
qed

lemma authorized_mono:
  assumes "authorized w L c kh" "\<And>k. set (L k) \<subseteq> set (L' k)"
  shows "authorized (operation_event E e w) L' c kh"
proof -
  obtain k h where kh: "kh = (k, h)" by (cases kh)
  from assms(1) obtain r r0 where r: "committed_by w c k r" "r0 \<in> set (L k)" "sr_storeRevision r = sr_storeRevision r0 + 1"
     "state_in r0 = Prepared" "hash_in r0 = h" "hash_in r = h" "state_in r \<noteq> Prepared"
    by (auto simp: authorized_def kh)
  with assms(2) [of k] event_keeps_commit [OF r(1), of E e] show ?thesis unfolding authorized_def kh prod.case by blast
qed
section \<open>Answers of the store are entries of the log\<close>

lemma key_literal_parsed:
  assumes "parseOperationKey (key_literal p k) = Inr k'"
  shows "k' = k" "proper_key k"
proof -
  have kind: "canonicalOperationKind (JString (kind_name x)) = Inr x" for x
    by (cases x) (simp_all add: canonicalOperationKind_def kind_name_def literal_of_def operation_kinds_def)
  show eq: "k' = k"
    using assms
    by (cases "sk_lane k")
      (auto simp: parseOperationKey_def key_literal_def runC_def bindC_def captureRecord_mk_obj exactCapturedRecord_def
        returnC_def names_def has_field_def fld_def st_canonicalGrantId_def canonicalChainId_def kind Let_def bindE_Inr
        split: if_splits intro!: operation_store_key.equality)
  show "proper_key k" using parseOperationKey_proper [OF assms] eq by simp
qed

context journal
begin

lemma get_read_ok: "world_ok w L \<Longrightarrow> key_ok k \<Longrightarrow> read_ok L k (fst (serve (w_adapter w) (ReqGet k)))"
proof -
  assume ok: "world_ok w L" and k: "key_ok k"
  obtain a s where a: "serve (w_adapter w) (ReqGet k) = (a, s)" by fastforce
  have "set_option (cur (w_adapter w) k) \<subseteq> set (L k)" using world_ok_log [OF ok, of k] by (auto simp: last_of_def split: if_splits)
  with serve_get [OF k a] a show ?thesis unfolding read_ok_def by auto
qed

lemma read_in_log: "world_ok w L \<Longrightarrow> read_ok L k a \<Longrightarrow> readAnswer A k a = Inr c \<Longrightarrow> set_option c \<subseteq> set (L k)"
  by (rule readAnswer_read_ok) (auto simp: world_ok_def)

lemma archived_in_log:
  assumes "world_ok w L" "key_ok k" "archivedAnswer A closed k h (fst (serve (w_adapter w) (ReqArchived k h))) = Inr (Some r)"
  shows "r \<in> set (L k)"
proof -
  obtain a s where a: "serve (w_adapter w) (ReqArchived k h) = (a, s)" by fastforce
  have b: "backed_at k (cur (w_adapter w) k) (arch (w_adapter w) k) (L k)"
    using assms(1) by (simp add: world_ok_def backed_def)
  from serve_archived [OF assms(2) a] assms(3) a
  have "a = Resolved (shown show_record (arch (w_adapter w) k h))" by (auto simp: archivedAnswer_def)
  with assms(3) a have parsed: "parseRead A (shown show_record (arch (w_adapter w) k h)) k = Inr (Some r)"
    by (auto simp: archivedAnswer_def parseStored_def bindE_Inr split: option.splits if_splits)
  then obtain r' where r': "arch (w_adapter w) k h = Some r'"
    by (cases "arch (w_adapter w) k h") (auto simp: shown_def parseRead_def)
  with b have "r' \<in> set (L k)" by (auto simp: backed_at_def)
  moreover from this b have "wf_stored A valid k r'" by (auto simp: backed_at_def intro: log_ok_wf)
  ultimately show ?thesis using parsed r' parse_shown [of k r' "Some r"] by (simp add: shown_def)
qed

end

lemma laneRead_in_log:
  assumes "op_journal.world_ok T w L" "laneRead (ext_of T) closed w k = Inr c"
  shows "set_option c \<subseteq> set (L k)"
proof -
  let ?a = "fst (serveMemoryOperation show_operation (w_adapter w) (ReqGet k))"
  from assms(2) obtain k' where k': "parseOperationKey (key_literal [] k) = Inr k'"
    and "readAnswer (operation_access (ext_of T)) k' ?a = Inr c"
    by (auto simp: laneRead_def operationStore_get_def store_get_def bindE_Inr)
  with key_literal_parsed [OF k'] op_journal.read_in_log [OF assms(1) op_journal.get_read_ok [OF assms(1)]] show ?thesis by blast
qed

lemma exactRead_in_log:
  assumes "op_journal.world_ok T w L" "proper_key k \<Longrightarrow> op_journal.read_ok L k a"
    and "getExact (ext_of T) (key_literal [] k) (JString h) closed a closed'
      (fst (serveMemoryOperation show_operation (w_adapter w) (ReqArchived k h))) closed'' = Inr c"
  shows "set_option c \<subseteq> set (L k)"
proof -
  let ?A = "operation_access (ext_of T)" and ?b = "fst (serveMemoryOperation show_operation (w_adapter w) (ReqArchived k h))"
  from assms(3) obtain k' c1 c2 where k': "parseOperationKey (key_literal [] k) = Inr k'"
    and c: "readAnswer ?A k' a = Inr c1" "archivedAnswer ?A closed'' k' h ?b = Inr c2" "exactRecordOf h c1 c2 = Inr c"
    by (auto simp: getExact_def store_get_def bindE_Inr canonicalUserOperationHash_def)
  note k = key_literal_parsed [OF k']
  have "set_option c1 \<subseteq> set (L k)" using op_journal.read_in_log [OF assms(1) assms(2)] c(1) k by blast
  moreover have "set_option c2 \<subseteq> set (L k)"
    using op_journal.archived_in_log [OF assms(1) k(2)] c(2) k(1) by (cases c2) auto
  ultimately show ?thesis using c(3) by (auto simp: exactRecordOf_def split: if_splits)
qed

lemma log_sound: "op_journal.world_ok T w L \<Longrightarrow> r \<in> set (L k) \<Longrightarrow> sound_record k r"
  using op_journal.world_ok_log [of T w L k] log_ok_wf [of "operation_access (ext_of T)" wf_operation k "L k" r]
  by (auto simp: sound_record_def wf_stored_def operation_access_def)

section \<open>The invariant of the system\<close>

fun claim :: "ghost \<Rightarrow> (operation_store_key \<times> string) option" where
  "claim g = (case gh_token g of NoToken \<Rightarrow> None | MayOpen k h \<Rightarrow> Some (k, h) | MaySubmit k h \<Rightarrow> Some (k, h))"

definition task_ok ::
    "operation_world \<Rightarrow> (operation_store_key \<Rightarrow> operation store_record list) \<Rightarrow> runner_task \<Rightarrow> ghost \<Rightarrow> bool" where
  "task_ok w L t g \<longleftrightarrow> gh_known g \<subseteq> {(k, r). r \<in> set (L k)} \<and>
     wp (lane_of (rt_configuration t)) (rt_run t) (\<lambda>_ _. True) g \<and>
     (\<forall>c. rt_call t = Some c \<longrightarrow> (\<exists>k e x f call p. rt_run t = StoreCas k e x f \<and> w_calls w c = Some (call, p) \<and>
        cc_key call = k \<and> cc_expected call = e \<and> (wf_operation x \<longrightarrow> cc_next call = x))) \<and>
     (rt_invoked t \<longrightarrow> (\<exists>p f. rt_run t = OpenSubmission p f \<or> rt_run t = Submit p f)) \<and>
     (\<forall>k h f a. rt_run t = StoreGetExact k h f \<longrightarrow> rt_read t = Some a \<longrightarrow> proper_key k \<longrightarrow> op_journal.read_ok L k a)"

text \<open>The token of a task against the recorded sends.\<close>

definition token_ok :: "runner_system \<Rightarrow> runner_task \<Rightarrow> ghost \<Rightarrow> bool" where
  "token_ok y t g =
     (case gh_token g of
        NoToken \<Rightarrow> True
      | MayOpen k h \<Rightarrow> (k, h) \<notin> set (y_sent y) \<and> ((k, h) \<in> set (y_opened y) \<longleftrightarrow> rt_invoked t)
      | MaySubmit k h \<Rightarrow> (k, h) \<in> set (y_opened y) \<and> (\<not> rt_invoked t \<longrightarrow> (k, h) \<notin> set (y_sent y)))"

definition delivered :: "runner_system \<Rightarrow> nat \<Rightarrow> bool" where
  "delivered y c \<longleftrightarrow> w_calls (y_world y) c \<noteq> None \<and> (\<forall>i t. y_tasks y i = Some t \<longrightarrow> rt_call t \<noteq> Some c)"

definition earned :: "runner_system \<Rightarrow> (operation_store_key \<Rightarrow> operation store_record list) \<Rightarrow> operation_store_key \<times> string \<Rightarrow> bool" where
  "earned y L kh \<longleftrightarrow> (\<exists>c. delivered y c \<and> authorized (y_world y) L c kh)"

definition system_ok ::
    "documented_ext \<Rightarrow> runner_system \<Rightarrow> (operation_store_key \<Rightarrow> operation store_record list) \<Rightarrow> (nat \<Rightarrow> ghost) \<Rightarrow> bool" where
  "system_ok T y L G \<longleftrightarrow> journal_ok T (y_world y) L \<and>
     (\<forall>i t. y_tasks y i = Some t \<longrightarrow> task_ok (y_world y) L t (G i) \<and> token_ok y t (G i)) \<and>
     (\<forall>i t kh. y_tasks y i = Some t \<longrightarrow> claim (G i) = Some kh \<longrightarrow> earned y L kh) \<and>
     (\<forall>i j t u c. i \<noteq> j \<longrightarrow> y_tasks y i = Some t \<longrightarrow> y_tasks y j = Some u \<longrightarrow> rt_call t = Some c \<longrightarrow> rt_call u \<noteq> Some c) \<and>
     (\<forall>i j t u. i \<noteq> j \<longrightarrow> y_tasks y i = Some t \<longrightarrow> y_tasks y j = Some u \<longrightarrow> claim (G i) \<noteq> None \<longrightarrow> claim (G i) \<noteq> claim (G j)) \<and>
     (\<forall>kh \<in> set (y_opened y). earned y L kh) \<and> distinct (y_opened y) \<and> distinct (y_sent y) \<and> set (y_sent y) \<subseteq> set (y_opened y)"

section \<open>Steps that keep the invariant\<close>

lemma put_task_simps [simp]:
  "y_world (put_task i t y) = y_world y" "y_opened (put_task i t y) = y_opened y" "y_sent (put_task i t y) = y_sent y"
  "y_tasks (put_task i t y) = (y_tasks y)(i \<mapsto> t)"
  by (simp_all add: put_task_def)

lemma continue_with_simps [simp]:
  "rt_run (continue_with t m) = m" "rt_call (continue_with t m) = None" "rt_read (continue_with t m) = None"
  "rt_invoked (continue_with t m) = False" "rt_configuration (continue_with t m) = rt_configuration t"
  by (simp_all add: continue_with_def)

lemma token_ok_put [simp]: "token_ok (put_task i t y) u g = token_ok y u g"
  "token_ok (y\<lparr>y_world := w\<rparr>) u g = token_ok y u g"
  by (auto simp: token_ok_def split: token.split)

text \<open>The call a task has in flight is dropped, kept, or one that is nobody's and has committed nothing.\<close>

definition call_moves :: "runner_system \<Rightarrow> runner_task \<Rightarrow> runner_task \<Rightarrow> bool" where
  "call_moves y t t' \<longleftrightarrow> rt_call t' = None \<or> rt_call t' = rt_call t \<or>
     (\<exists>c. rt_call t' = Some c \<and> (\<forall>j u. y_tasks y j = Some u \<longrightarrow> rt_call u \<noteq> Some c) \<and> (\<forall>k r. \<not> committed_by (y_world y) c k r))"

lemma earned_put:
  assumes "earned y L kh" "y_tasks y i = Some t" "call_moves y t t'"
  shows "earned (put_task i t' y) L kh"
proof -
  from assms(1) obtain c where c: "delivered y c" "authorized (y_world y) L c kh" by (auto simp: earned_def)
  then have "rt_call t' \<noteq> Some c"
    using assms(2,3) by (cases kh) (auto simp: call_moves_def delivered_def authorized_def)
  with c have "delivered (put_task i t' y) c" by (auto simp: delivered_def)
  with c show ?thesis by (auto simp: earned_def)
qed

lemma system_okD:
  assumes "system_ok T y L G"
  shows "journal_ok T (y_world y) L" "op_journal.world_ok T (y_world y) L"
    "y_tasks y i = Some t \<Longrightarrow> task_ok (y_world y) L t (G i)" "y_tasks y i = Some t \<Longrightarrow> token_ok y t (G i)"
    "y_tasks y i = Some t \<Longrightarrow> claim (G i) = Some kh \<Longrightarrow> earned y L kh"
    "i \<noteq> j \<Longrightarrow> y_tasks y i = Some t \<Longrightarrow> y_tasks y j = Some u \<Longrightarrow> rt_call t = Some c \<Longrightarrow> rt_call u \<noteq> Some c"
    "i \<noteq> j \<Longrightarrow> y_tasks y i = Some t \<Longrightarrow> y_tasks y j = Some u \<Longrightarrow> claim (G i) = Some kh \<Longrightarrow> claim (G j) \<noteq> Some kh"
    "kh \<in> set (y_opened y) \<Longrightarrow> earned y L kh" "distinct (y_opened y)" "distinct (y_sent y)" "set (y_sent y) \<subseteq> set (y_opened y)"
proof -
  show "i \<noteq> j \<Longrightarrow> y_tasks y i = Some t \<Longrightarrow> y_tasks y j = Some u \<Longrightarrow> claim (G i) = Some kh \<Longrightarrow> claim (G j) \<noteq> Some kh"
    using assms unfolding system_ok_def by (metis option.distinct(1))
  show "y_tasks y i = Some t \<Longrightarrow> claim (G i) = Some kh \<Longrightarrow> earned y L kh"
    using assms unfolding system_ok_def by blast
qed (use assms in \<open>auto simp: system_ok_def journal_ok_def simp del: claim.simps\<close>)

lemma update_task:
  assumes ok: "system_ok T y L G" and i: "y_tasks y i = Some t" and call: "call_moves y t t'"
    and t': "task_ok (y_world y) L t' g'" "token_ok y t' g'"
    and new: "\<And>kh. claim g' = Some kh \<Longrightarrow>
      earned (put_task i t' y) L kh \<and> (\<forall>j u. j \<noteq> i \<longrightarrow> y_tasks y j = Some u \<longrightarrow> claim (G j) \<noteq> Some kh)"
  shows "system_ok T (put_task i t' y) L (G(i := g'))"
  unfolding system_ok_def
proof (intro conjI allI impI ballI)
  fix j u assume "y_tasks (put_task i t' y) j = Some u"
  then show "task_ok (y_world (put_task i t' y)) L u ((G(i := g')) j)" "token_ok (put_task i t' y) u ((G(i := g')) j)"
    using t' system_okD(3,4) [OF ok, of j u] by (auto split: if_splits)
next
  fix j u kh assume "y_tasks (put_task i t' y) j = Some u" "claim ((G(i := g')) j) = Some kh"
  then show "earned (put_task i t' y) L kh"
    using new earned_put [OF system_okD(5) [OF ok] i call] by (auto split: if_splits simp del: claim.simps)
next
  fix a b u v c assume ab: "a \<noteq> b" "y_tasks (put_task i t' y) a = Some u" "y_tasks (put_task i t' y) b = Some v" "rt_call u = Some c"
  consider "a = i" | "b = i" | "a \<noteq> i" "b \<noteq> i" by blast
  then show "rt_call v \<noteq> Some c"
  proof cases
    case 1
    with ab have v: "y_tasks y b = Some v" "rt_call t' = Some c" by auto
    then have "rt_call t = Some c \<or> rt_call v \<noteq> Some c" using call unfolding call_moves_def by fastforce
    with 1 ab(1) v show ?thesis using system_okD(6) [OF ok _ i, of b v c] by blast
  next
    case 2
    with ab have u: "y_tasks y a = Some u" "v = t'" by auto
    with 2 ab have "rt_call t \<noteq> Some c" using system_okD(6) [OF ok ab(1) _ _ ab(4)] i by blast
    with u ab(4) call show ?thesis unfolding call_moves_def by fastforce
  next
    case 3
    with ab show ?thesis by (intro system_okD(6) [OF ok ab(1) _ _ ab(4)]) auto
  qed
next
  fix a b u v assume ab: "a \<noteq> b" "y_tasks (put_task i t' y) a = Some u" "y_tasks (put_task i t' y) b = Some v"
    and "claim ((G(i := g')) a) \<noteq> None"
  then obtain kh where kh: "claim ((G(i := g')) a) = Some kh" by blast
  have "claim ((G(i := g')) b) \<noteq> Some kh"
  proof (cases "b = i")
    case True
    with ab kh have "y_tasks y a = Some u" "claim (G a) = Some kh" "a \<noteq> i" by auto
    with new [of kh] have "claim g' \<noteq> Some kh" by blast
    with True show ?thesis by simp
  next
    case False
    with ab have "y_tasks y b = Some v" by simp
    with ab kh False new [of kh] system_okD(7) [OF ok ab(1), of u v kh] show ?thesis by (cases "a = i") auto
  qed
  with kh show "claim ((G(i := g')) a) \<noteq> claim ((G(i := g')) b)" by simp
next
  fix kh assume "kh \<in> set (y_opened (put_task i t' y))"
  then show "earned (put_task i t' y) L kh" using earned_put [OF system_okD(8) [OF ok] i call] by simp
qed (use ok in \<open>auto simp: system_ok_def simp del: claim.simps\<close>)

text \<open>A task that keeps its token, or drops it, goes on.\<close>

lemma continue_task:
  assumes ok: "system_ok T y L G" and i: "y_tasks y i = Some t" and known: "gh_known g' \<subseteq> {(k, r). r \<in> set (L k)}"
    and wp: "wp (lane_of (rt_configuration t)) m (\<lambda>_ _. True) g'"
    and token: "claim g' = None \<or> claim g' = claim (G i) \<and> token_ok y (continue_with t m) g'"
  shows "system_ok T (put_task i (continue_with t m) y) L (G(i := g'))"
proof (rule update_task [OF ok i])
  show "task_ok (y_world y) L (continue_with t m) g'" using known wp by (simp add: task_ok_def)
  show "token_ok y (continue_with t m) g'"
    using token by (cases "gh_token g'") (auto simp: token_ok_def)
  fix kh assume "claim g' = Some kh"
  with token have kh: "claim (G i) = Some kh" by (simp del: claim.simps)
  have "earned (put_task i (continue_with t m) y) L kh"
    by (rule earned_put [OF system_okD(5) [OF ok i kh] i]) (simp add: call_moves_def)
  moreover have "claim (G j) \<noteq> Some kh" if "j \<noteq> i" "y_tasks y j = Some u" for j u
    using system_okD(7) [OF ok that(1) [symmetric] i that(2) kh] .
  ultimately show "earned (put_task i (continue_with t m) y) L kh \<and> (\<forall>j u. j \<noteq> i \<longrightarrow> y_tasks y j = Some u \<longrightarrow> claim (G j) \<noteq> Some kh)"
    by blast
qed (simp add: call_moves_def)

lemma same_token:
  assumes "system_ok T y L G" "y_tasks y i = Some t" "gh_token g' = gh_token (G i)"
    and "\<nexists>p f. rt_run t = OpenSubmission p f \<or> rt_run t = Submit p f"
  shows "claim g' = claim (G i) \<and> token_ok y (continue_with t m) g'"
  using system_okD(3,4) [OF assms(1,2)] assms(3,4) by (auto simp: token_ok_def task_ok_def split: token.splits)

text \<open>A step of the journal under a system.\<close>

lemma task_ok_event:
  assumes "task_ok w L t g" "\<And>k. set (L k) \<subseteq> set (L' k)"
  shows "task_ok (operation_event E e w) L' t g"
  unfolding task_ok_def
proof (intro conjI allI impI)
  show "gh_known g \<subseteq> {(k, r). r \<in> set (L' k)}" using assms by (fastforce simp: task_ok_def)
  fix c assume "rt_call t = Some c"
  with assms(1) obtain k e' x f call p where c: "rt_run t = StoreCas k e' x f" "w_calls w c = Some (call, p)"
    "cc_key call = k" "cc_expected call = e'" "wf_operation x \<longrightarrow> cc_next call = x" by (auto simp: task_ok_def)
  obtain call' p' where "w_calls (operation_event E e w) c = Some (call', p')" "captured_in call' = captured_in call"
    using event_keeps_call [OF c(2), of E e] by metis
  with c show "\<exists>k e' x f call p. rt_run t = StoreCas k e' x f \<and> w_calls (operation_event E e w) c = Some (call, p) \<and>
      cc_key call = k \<and> cc_expected call = e' \<and> (wf_operation x \<longrightarrow> cc_next call = x)" by auto
next
  fix k h f a assume "rt_run t = StoreGetExact k h f" "rt_read t = Some a" "proper_key k"
  with assms have "op_journal.read_ok L k a" by (auto simp: task_ok_def)
  then show "op_journal.read_ok L' k a" using assms(2) [of k] unfolding op_journal.read_ok_def by blast
qed (use assms(1) in \<open>auto simp: task_ok_def\<close>)

lemma journal_step:
  assumes ok: "system_ok T y L G" and j: "journal_ok T (operation_event (ext_of T) e (y_world y)) L'" "\<And>k. set (L k) \<subseteq> set (L' k)"
  shows "system_ok T (y\<lparr>y_world := operation_event (ext_of T) e (y_world y)\<rparr>) L' G"
proof -
  let ?y = "y\<lparr>y_world := operation_event (ext_of T) e (y_world y)\<rparr>"
  have "delivered ?y c" if "delivered y c" for c
    using that event_keeps_call [of "y_world y" c _ _ "ext_of T" e] by (fastforce simp: delivered_def)
  then have "earned ?y L' kh" if "earned y L kh" for kh
    using that authorized_mono [where L = L and L' = L', OF _ j(2)] unfolding earned_def by fastforce
  then show ?thesis
    using ok j task_ok_event [OF _ j(2), where E = "ext_of T" and e = e] unfolding system_ok_def by (simp del: claim.simps)
qed

section \<open>Every event keeps the invariant\<close>

lemma casInput_literal_parsed:
  assumes "operationStore_casInput E (cas_literal k e x) = Inr (k', e', x')"
  shows "k' = k" "e' = e" "parseOperation E (operation_literal [PName ''next''] x) = Inr x'"
proof -
  have "runC (exactRecord (cas_literal k e x) [''key'', ''expectedStoreRevision'', ''next''] err) =
      Inr (names [(''key'', key_literal [PName ''key''] k), (''expectedStoreRevision'', nullable jint e),
        (''next'', operation_literal [PName ''next''] x)])" for err :: err
    unfolding cas_literal_def by (rule exactRecord_run) simp
  with assms have k: "parseOperationKey (key_literal [PName ''key''] k) = Inr k'"
    and e: "expectedStoreRevision (nullable jint e) = Inr e'"
    and x: "parseOperation E (operation_literal [PName ''next''] x) = Inr x'"
    by (cases "parseOperation E (operation_literal [PName ''next''] x)";
        auto simp: operationStore_casInput_def bindE_Inr js_simps split: if_splits)+
  show "k' = k" using key_literal_parsed [OF k] by simp
  show "e' = e" using e by (cases e) (auto simp: expectedStoreRevision_def nullable_scalar_Inr nullable_def)
  show "parseOperation E (operation_literal [PName ''next''] x) = Inr x'" by (rule x)
qed

text \<open>The state field of a record literal decides whether it parses to a prepared record.\<close>

lemma parsed_prepared:
  assumes "parseOperation E (operation_literal p x) = Inr x'" "op_state x' = Prepared"
  shows "op_state x = Prepared"
proof -
  have "state_name (op_state x) = ''prepared''"
  proof (rule ccontr)
    assume n: "state_name (op_state x) \<noteq> ''prepared''"
    from assms(1) n have "op_state x' \<noteq> Prepared"
      unfolding parseOperation_def runC_Inr parseOperationUnsafe_def operation_literal_def Let_def
      by (auto simp: captureRecord_mk_obj fld_common_state captureAbandoned_def captureAttempted_def captureSubmitted_def
          captureIncluded_def captureFinalized_def captureDropped_def captureSuperseded_def
          elim!: bindC_InrE split: if_splits)
    with assms(2) show False by simp
  qed
  then show ?thesis by (cases "op_state x") auto
qed

lemma issue_ok:
  assumes ok: "system_ok T y L G" and i: "y_tasks y i = Some t"
  shows "\<exists>G'. system_ok T (issue (ext_of T) i t c closed y) L G'"
proof (cases "\<exists>k e x f. rt_run t = StoreCas k e x f \<and> rt_call t = None \<and> w_calls (y_world y) c = None")
  case False
  then have "issue (ext_of T) i t c closed y = y" by (auto simp: issue_def split: run.split)
  with ok show ?thesis by auto
next
  case True
  then obtain k e x f where r: "rt_run t = StoreCas k e x f" and c: "rt_call t = None" "w_calls (y_world y) c = None" by blast
  from system_okD(3) [OF ok i] r have wp: "permitted (G i) k e x"
      "\<And>a. cas_answer_ok k e x a \<Longrightarrow> wp (lane_of (rt_configuration t)) (f a) (\<lambda>_ _. True) (after_cas k e x a (G i))"
    and known: "gh_known (G i) \<subseteq> {(k, r). r \<in> set (L k)}"
    by (auto simp: task_ok_def)
  show ?thesis
  proof (cases "operationStore_casInput (ext_of T) (cas_literal k e x)")
    case (Inl err)
    then have "issue (ext_of T) i t c closed y = put_task i (continue_with t (f (Inl err))) y" using r c by (simp add: issue_def)
    moreover have "wp (lane_of (rt_configuration t)) (f (Inl err)) (\<lambda>_ _. True) (G i)"
      using wp(2) [of "Inl err"] by (simp add: cas_answer_ok_def after_cas_def)
    ultimately show ?thesis
      using continue_task [OF ok i known] same_token [OF ok i, of "G i"] r by auto
  next
    case (Inr kex)
    then obtain x' where inp: "operationStore_casInput (ext_of T) (cas_literal k e x) = Inr (k, e, x')"
      and parsed: "parseOperation (ext_of T) (operation_literal [PName ''next''] x) = Inr x'"
      by (cases kex) (use casInput_literal_parsed in metis)
    have same: "x' = x" if "wf_operation x" using parse_operation_literal [OF ext_of_ok that] parsed by simp
    have perm: "cas_permitted L (k, e, x')"
      using wp(1) known parsed_prepared [OF parsed] same unfolding cas_permitted_def permitted_def by fastforce
    let ?v = "cas_literal k e x"
    let ?y = "y\<lparr>y_world := operation_event (ext_of T) (Start c closed ?v) (y_world y)\<rparr>"
    have oky: "system_ok T ?y L G"
      by (rule journal_step [OF ok journal_start [OF system_okD(1) [OF ok] inp perm]]) simp
    have "issue (ext_of T) i t c closed y = put_task i (t\<lparr>rt_call := Some c\<rparr>) ?y"
      using r c inp by (simp add: issue_def put_task_def)
    moreover have "system_ok T (put_task i (t\<lparr>rt_call := Some c\<rparr>) ?y) L (G(i := G i))"
    proof (rule update_task [OF oky])
      have started: "w_calls (y_world ?y) c = Some (\<lparr>cc_key = k, cc_expected = e, cc_next = x',
          cc_phase = beginCas (operation_access (ext_of T)) closed\<rparr>, None)"
        using c(2) inp by (simp add: operation_event_def startCall_def)
      have "rt_call u \<noteq> Some c" if "y_tasks y j = Some u" for j u
        using system_okD(3) [OF ok that] c(2) by (auto simp: task_ok_def)
      moreover have "\<not> committed_by (y_world ?y) c k' r'" for k' r'
        unfolding committed_by_def using started by (auto simp: beginCas_def split: if_splits)
      ultimately show "call_moves ?y t (t\<lparr>rt_call := Some c\<rparr>)" by (auto simp: call_moves_def)
      show "y_tasks ?y i = Some t" using i by simp
      show "task_ok (y_world ?y) L (t\<lparr>rt_call := Some c\<rparr>) (G i)"
        using system_okD(3) [OF oky, of i t] i r started same by (auto simp: task_ok_def)
      show "token_ok ?y (t\<lparr>rt_call := Some c\<rparr>) (G i)"
        using system_okD(4) [OF oky, of i t] i by (simp add: token_ok_def split: token.splits)
      fix kh assume kh: "claim (G i) = Some kh"
      have "earned (put_task i (t\<lparr>rt_call := Some c\<rparr>) ?y) L kh"
        by (rule earned_put [OF system_okD(5) [OF oky _ kh], of t]) (use i in simp, use i in simp, fact)
      moreover have "claim (G j) \<noteq> Some kh" if "j \<noteq> i" "y_tasks ?y j = Some u" for j u
        using system_okD(7) [OF oky that(1) [symmetric] _ that(2) kh] i by simp
      ultimately show "earned (put_task i (t\<lparr>rt_call := Some c\<rparr>) ?y) L kh \<and>
          (\<forall>j u. j \<noteq> i \<longrightarrow> y_tasks ?y j = Some u \<longrightarrow> claim (G j) \<noteq> Some kh)" by blast
    qed
    ultimately show ?thesis by auto
  qed
qed

lemma settled_answer_ok:
  assumes ok: "op_journal.world_ok T w L" and call: "w_calls w c = Some (call, p)" "outcome w c = Some r"
    and "cc_key call = k" "cc_expected call = e" "wf_operation x \<longrightarrow> cc_next call = x"
  shows "cas_answer_ok k e x r" "\<And>r'. r = Inr (Committed r') \<or> r = Inr (Conflict (Some r')) \<Longrightarrow> r' \<in> set (L k)"
    "\<And>r'. r = Inr (Committed r') \<Longrightarrow> nextStoreRevision e = Inr (sr_storeRevision r') \<and> committed_by w c k r'"
proof -
  from call have ph: "cc_phase call = Settled r" by (auto simp: outcome_def split: cas_phase.splits)
  show mem: "\<And>r'. r = Inr (Committed r') \<or> r = Inr (Conflict (Some r')) \<Longrightarrow> r' \<in> set (L k)"
    using op_journal.world_ok_conflict [OF ok call(1)] op_journal.world_ok_committed [OF ok, of c k] ph call(1) assms(4)
    by (auto simp: committed_by_def)
  have next_of: "op_journal.next_of T call r'" if "r = Inr (Committed r')" for r'
    using ok call(1) ph that unfolding op_journal.world_ok_def op_journal.call_ok_def by fastforce
  then show "\<And>r'. r = Inr (Committed r') \<Longrightarrow> nextStoreRevision e = Inr (sr_storeRevision r') \<and> committed_by w c k r'"
    using call(1) ph assms(4,5) by (auto simp: op_journal.next_of_def committed_by_def)
  show "cas_answer_ok k e x r"
    using mem log_sound [OF ok] next_of assms(6)
    by (auto simp: cas_answer_ok_def op_journal.next_of_def option.pred_set split: sum.split cas_result.split)
qed

lemma settle_ok:
  assumes ok: "system_ok T y L G" and i: "y_tasks y i = Some t"
  shows "\<exists>G'. system_ok T (settle i t y) L G'"
proof (cases "\<exists>k e x f c r. rt_run t = StoreCas k e x f \<and> rt_call t = Some c \<and> outcome (y_world y) c = Some r")
  case False
  then have "settle i t y = y" by (auto simp: settle_def split: run.split option.split)
  with ok show ?thesis by auto
next
  case True
  then obtain k e x f c r where r: "rt_run t = StoreCas k e x f" "rt_call t = Some c" "outcome (y_world y) c = Some r" by blast
  note task = system_okD(3) [OF ok i]
  obtain call p where call: "w_calls (y_world y) c = Some (call, p)" "cc_key call = k" "cc_expected call = e" "wf_operation x \<longrightarrow> cc_next call = x"
    using task r by (auto simp: task_ok_def)
  note answer = settled_answer_ok [OF system_okD(2) [OF ok] call(1) r(3) call(2-4)]
  let ?g = "after_cas k e x r (G i)" and ?t = "continue_with t (f r)"
  have known: "gh_known ?g \<subseteq> {(k, r). r \<in> set (L k)}"
    using task answer(2) by (auto simp: after_cas_def learn_def task_ok_def split: sum.splits cas_result.splits)
  have wp: "wp (lane_of (rt_configuration t)) (f r) (\<lambda>_ _. True) ?g" using task r(1) answer(1) by (simp add: task_ok_def)
  have run: "settle i t y = put_task i ?t y" using r by (simp add: settle_def)
  show ?thesis
  proof (cases "\<exists>r'. r = Inr (Committed r') \<and> attempting (G i) k e x")
    case False
    then have "gh_token ?g = NoToken \<or> gh_token ?g = gh_token (G i)"
      by (auto simp: after_cas_def learn_def split: sum.split cas_result.split)
    then have "claim ?g = None \<or> claim ?g = claim (G i) \<and> token_ok y ?t ?g"
      using same_token [OF ok i, of ?g] r(1) by auto
    then show ?thesis unfolding run using continue_task [OF ok i known wp] by blast
  next
    case True
    then obtain r' where r': "r = Inr (Committed r')" "attempting (G i) k e x" by blast
    let ?kh = "(k, oi_userOperationHash (oc_identity (op_common x)))"
    have token: "gh_token ?g = MayOpen k (oi_userOperationHash (oc_identity (op_common x)))" using r' by (simp add: after_cas_def)
    from r'(2) obtain r0 n where r0: "(k, r0) \<in> gh_known (G i)" "e = Some (sr_storeRevision r0)" "state_in r0 = Prepared"
      "identity_in r0 = oc_identity (op_common x)" "op_state x = SubmissionAttempted n" "wf_operation x" by (auto simp: attempting_def)
    have "sr_value r' = x" using answer(1) r'(1) r0(6) by (simp add: cas_answer_ok_def)
    moreover have "r0 \<in> set (L k)" using task r0(1) by (auto simp: task_ok_def)
    moreover have "sr_storeRevision r' = sr_storeRevision r0 + 1" "committed_by (y_world y) c k r'"
      using answer(3) [OF r'(1)] r0(2) by (auto simp: nextStoreRevision_Inr)
    ultimately have auth: "authorized (y_world y) L c ?kh"
      using r0 unfolding authorized_def prod.case by (metis operation_state.distinct(3))
    have other: "\<not> earned y L ?kh"
      using authorized_unique [OF system_okD(1) [OF ok] auth] i r(2) unfolding earned_def delivered_def by blast
    have "system_ok T (put_task i ?t y) L (G(i := ?g))"
    proof (rule update_task [OF ok i])
      show "call_moves y t ?t" by (simp add: call_moves_def)
      show "task_ok (y_world y) L ?t ?g" using known wp by (simp add: task_ok_def)
      show "token_ok y ?t ?g" using token other system_okD(8,11) [OF ok] by (auto simp: token_ok_def)
      fix kh assume "claim ?g = Some kh"
      with token have kh: "kh = ?kh" by simp
      have "rt_call u \<noteq> Some c" if "j \<noteq> i" "y_tasks y j = Some u" for j u
        using system_okD(6) [OF ok that(1) [symmetric] i that(2) r(2)] .
      with call(1) have "delivered (put_task i ?t y) c" by (auto simp: delivered_def)
      with auth have "earned (put_task i ?t y) L kh" unfolding earned_def kh by auto
      with other system_okD(5) [OF ok]
      show "earned (put_task i ?t y) L kh \<and> (\<forall>j u. j \<noteq> i \<longrightarrow> y_tasks y j = Some u \<longrightarrow> claim (G j) \<noteq> Some kh)"
        unfolding kh by blast
    qed
    then show ?thesis unfolding run by blast
  qed
qed
lemma plain_continue:
  assumes ok: "system_ok T y L G" and i: "y_tasks y i = Some t"
    and run: "\<nexists>p f. rt_run t = OpenSubmission p f \<or> rt_run t = Submit p f"
    and wp: "wp (lane_of (rt_configuration t)) m (\<lambda>_ _. True) (learn k c (G i))" and c: "set_option c \<subseteq> set (L k)"
  shows "\<exists>G'. system_ok T (put_task i (continue_with t m) y) L G'"
proof -
  have "gh_known (learn k c (G i)) \<subseteq> {(k, r). r \<in> set (L k)}"
    using system_okD(3) [OF ok i] c by (auto simp: task_ok_def learn_def)
  from continue_task [OF ok i this wp] same_token [OF ok i _ run, of "learn k c (G i)" m] show ?thesis
    by (auto simp: learn_def simp del: claim.simps)
qed

lemma learn_None [simp]: "learn k None g = g"
  by (simp add: learn_def)

lemma readLane_ok:
  assumes ok: "system_ok T y L G" and i: "y_tasks y i = Some t"
  shows "\<exists>G'. system_ok T (readLane (ext_of T) i t closed y) L G'"
proof (cases "rt_run t")
  case (StoreGet k f)
  let ?a = "laneRead (ext_of T) closed (y_world y) k"
  have sub: "set_option (read_of ?a) \<subseteq> set (L k)"
    using laneRead_in_log [OF system_okD(2) [OF ok]] by (auto simp: read_of_def split: sum.split)
  then have "pred_option (sound_record k) (read_of ?a)"
    using log_sound [OF system_okD(2) [OF ok]] by (auto simp: option.pred_set)
  with system_okD(3) [OF ok i] StoreGet have "wp (lane_of (rt_configuration t)) (f ?a) (\<lambda>_ _. True) (learn k (read_of ?a) (G i))"
    by (auto simp: task_ok_def)
  with plain_continue [OF ok i _ this sub] StoreGet show ?thesis by (simp add: readLane_def)
next
  case (StoreGetExact k h f)
  let ?t = "t\<lparr>rt_read := Some (fst (serveMemoryOperation show_operation (w_adapter (y_world y)) (ReqGet k)))\<rparr>"
  have run: "readLane (ext_of T) i t closed y = put_task i ?t y" using StoreGetExact by (simp add: readLane_def)
  have "system_ok T (put_task i ?t y) L (G(i := G i))"
  proof (rule update_task [OF ok i])
    show "task_ok (y_world y) L ?t (G i)"
      using system_okD(3) [OF ok i] StoreGetExact op_journal.get_read_ok [OF system_okD(2) [OF ok]] by (auto simp: task_ok_def)
    show "token_ok y ?t (G i)" using system_okD(4) [OF ok i] by (simp add: token_ok_def split: token.splits)
    fix kh assume kh: "claim (G i) = Some kh"
    have "earned (put_task i ?t y) L kh"
      by (rule earned_put [OF system_okD(5) [OF ok i kh] i]) (simp add: call_moves_def)
    then show "earned (put_task i ?t y) L kh \<and> (\<forall>j u. j \<noteq> i \<longrightarrow> y_tasks y j = Some u \<longrightarrow> claim (G j) \<noteq> Some kh)"
      using system_okD(7) [OF ok _ i _ kh] by metis
  qed (simp add: call_moves_def)
  then show ?thesis unfolding run by auto
qed (use ok in \<open>auto simp: readLane_def\<close>)

lemma readArchive_ok:
  assumes ok: "system_ok T y L G" and i: "y_tasks y i = Some t"
  shows "\<exists>G'. system_ok T (readArchive (ext_of T) i t closed closed' closed'' y) L G'"
proof (cases "\<exists>k h f a. rt_run t = StoreGetExact k h f \<and> rt_read t = Some a")
  case True
  then obtain k h f a where r: "rt_run t = StoreGetExact k h f" "rt_read t = Some a" by blast
  let ?a = "getExact (ext_of T) (key_literal [] k) (JString h) closed a closed'
      (fst (serveMemoryOperation show_operation (w_adapter (y_world y)) (ReqArchived k h))) closed''"
  have "proper_key k \<Longrightarrow> op_journal.read_ok L k a" using system_okD(3) [OF ok i] r by (auto simp: task_ok_def)
  then have sub: "set_option (read_of ?a) \<subseteq> set (L k)"
    using exactRead_in_log [OF system_okD(2) [OF ok], of k a h closed closed' closed''] by (cases ?a) (simp_all add: read_of_def)
  then have "pred_option (sound_record k) (read_of ?a)"
    using log_sound [OF system_okD(2) [OF ok]] by (auto simp: option.pred_set)
  with system_okD(3) [OF ok i] r have "wp (lane_of (rt_configuration t)) (f ?a) (\<lambda>_ _. True) (learn k (read_of ?a) (G i))"
    by (auto simp: task_ok_def)
  with plain_continue [OF ok i _ this sub] r show ?thesis by (simp add: readArchive_def)
next
  case False
  then have "readArchive (ext_of T) i t closed closed' closed'' y = y" by (auto simp: readArchive_def split: run.split option.split)
  with ok show ?thesis by auto
qed

lemma answered_ok:
  assumes ok: "system_ok T y L G" and i: "y_tasks y i = Some t"
  shows "\<exists>G'. system_ok T (answered i t a y) L G'" "\<exists>G'. system_ok T (ownerAnswered i t b y) L G'"
proof -
  have go: "\<exists>G'. system_ok T (put_task i (continue_with t m) y) L G'"
    if "wp (lane_of (rt_configuration t)) m (\<lambda>_ _. True) (G i)" "\<nexists>p f. rt_run t = OpenSubmission p f \<or> rt_run t = Submit p f" for m
    using plain_continue [OF ok i that(2), of m _ None] that(1) by simp
  have wp: "wp (lane_of (rt_configuration t)) (rt_run t) (\<lambda>_ _. True) (G i)" using system_okD(3) [OF ok i] by (simp add: task_ok_def)
  show "\<exists>G'. system_ok T (answered i t a y) L G'"
    using go wp ok by (cases "rt_run t") (auto simp: answered_def)
  show "\<exists>G'. system_ok T (ownerAnswered i t b y) L G'"
    using go wp ok by (cases "rt_run t") (auto simp: ownerAnswered_def)
qed

lemma sendAnswered_ok:
  assumes ok: "system_ok T y L G" and i: "y_tasks y i = Some t"
  shows "\<exists>G'. system_ok T (sendAnswered i t a y) L G'"
proof -
  have known: "gh_known (G i\<lparr>gh_token := k\<rparr>) \<subseteq> {(k, r). r \<in> set (L k)}" for k
    using system_okD(3) [OF ok i] by (auto simp: task_ok_def)
  have wp: "wp (lane_of (rt_configuration t)) (rt_run t) (\<lambda>_ _. True) (G i)" using system_okD(3) [OF ok i] by (simp add: task_ok_def)
  note token = system_okD(4) [OF ok i]
  show ?thesis
  proof (cases "rt_invoked t")
    case True
    show ?thesis
    proof (cases "rt_run t")
      case (OpenSubmission p f)
      from wp OpenSubmission continue_task [OF ok i known, of "f a"] token True show ?thesis
        by (fastforce simp: sendAnswered_def token_ok_def)
    next
      case (Submit p f)
      from wp Submit continue_task [OF ok i known, of "f a"] True show ?thesis
        by (fastforce simp: sendAnswered_def)
    qed (use ok True in \<open>auto simp: sendAnswered_def\<close>)
  qed (use ok in \<open>auto simp: sendAnswered_def\<close>)
qed

lemma opened_invoked:
  assumes "system_ok T y L G" "y_tasks y i = Some t" "\<not> rt_invoked t" "gh_token (G i) = MayOpen k h"
  shows "(k, h) \<notin> set (y_opened y)" "y_tasks y j = Some u \<Longrightarrow> j \<noteq> i \<Longrightarrow> claim (G j) \<noteq> Some (k, h)" "earned y L (k, h)"
  using system_okD(4) [OF assms(1,2)] system_okD(7) [OF assms(1) _ assms(2), of j u "(k, h)"] system_okD(5) [OF assms(1,2)] assms(3,4)
  by (auto simp: token_ok_def)

lemma record_send:
  assumes ok: "system_ok T y L G" and i: "y_tasks y i = Some t"
    and run: "\<exists>p f. rt_run t = OpenSubmission p f \<or> rt_run t = Submit p f"
    and y': "y_world y' = y_world y" "y_tasks y' = (y_tasks y)(i \<mapsto> t\<lparr>rt_invoked := True\<rparr>)"
    and tokens: "token_ok y' (t\<lparr>rt_invoked := True\<rparr>) (G i)" "\<And>j u. j \<noteq> i \<Longrightarrow> y_tasks y j = Some u \<Longrightarrow> token_ok y' u (G j)"
    and recorded: "\<And>kh. kh \<in> set (y_opened y') \<Longrightarrow> earned y L kh" "distinct (y_opened y')" "distinct (y_sent y')"
      "set (y_sent y') \<subseteq> set (y_opened y')"
  shows "system_ok T y' L G"
proof -
  have before: "\<exists>v. y_tasks y j = Some v \<and> rt_call v = rt_call u" if "y_tasks y' j = Some u" for j u
    using that i y'(2) by (auto split: if_splits)
  have earned: "earned y' L kh" if "earned y L kh" for kh
    using that before y'(1) unfolding earned_def delivered_def by metis
  show ?thesis
    unfolding system_ok_def
  proof (intro conjI allI impI ballI)
    show "journal_ok T (y_world y') L" using system_okD(1) [OF ok] y'(1) by simp
    fix j u assume u: "y_tasks y' j = Some u"
    show "task_ok (y_world y') L u (G j)"
      using u y' i run system_okD(3) [OF ok, of j] by (auto simp: task_ok_def split: if_splits)
    show "token_ok y' u (G j)" using u y'(2) tokens by (auto split: if_splits)
  next
    fix j u kh assume "y_tasks y' j = Some u" "claim (G j) = Some kh"
    with before system_okD(5) [OF ok] earned show "earned y' L kh" by blast
  next
    fix a b u v c assume "a \<noteq> b" "y_tasks y' a = Some u" "y_tasks y' b = Some v" "rt_call u = Some c"
    with before [of a u] before [of b v] system_okD(6) [OF ok] show "rt_call v \<noteq> Some c" by metis
  next
    fix a b u v assume "a \<noteq> b" "y_tasks y' a = Some u" "y_tasks y' b = Some v" "claim (G a) \<noteq> None"
    with before [of a u] before [of b v] system_okD(7) [OF ok] show "claim (G a) \<noteq> claim (G b)" by (metis not_None_eq)
  qed (use recorded earned in auto)
qed

lemma invoke_ok:
  assumes ok: "system_ok T y L G" and i: "y_tasks y i = Some t"
  shows "\<exists>G'. system_ok T (invoke i t y) L G'"
proof (cases "rt_invoked t")
  case True
  with ok show ?thesis by (auto simp: invoke_def)
next
  case False
  have wp: "wp (lane_of (rt_configuration t)) (rt_run t) (\<lambda>_ _. True) (G i)" using system_okD(3) [OF ok i] by (simp add: task_ok_def)
  note token = system_okD(4) [OF ok i]
  show ?thesis
  proof (cases "rt_run t")
    case (OpenSubmission p f)
    let ?k = "lane_of (rt_configuration t) p" and ?h = "pu_userOperationHash p"
    have tok: "gh_token (G i) = MayOpen ?k ?h" using wp OpenSubmission by simp
    have other: "token_ok y' u (G j)" if "j \<noteq> i" "y_tasks y j = Some u" "y_sent y' = y_sent y" "y_opened y' = y_opened y @ [(?k, ?h)]" for j u y'
      using system_okD(4) [OF ok that(2)] system_okD(7) [OF ok that(1) [symmetric] i that(2), of "(?k, ?h)"] tok that(3,4)
      by (auto simp: token_ok_def split: token.splits)
    have "system_ok T (invoke i t y) L G"
      by (rule record_send [OF ok i])
        (use OpenSubmission False tok token other system_okD(5) [OF ok i] system_okD(8-11) [OF ok] in
          \<open>auto simp: invoke_def token_ok_def\<close>)
    then show ?thesis by blast
  next
    case (Submit p f)
    let ?k = "lane_of (rt_configuration t) p" and ?h = "pu_userOperationHash p"
    have tok: "gh_token (G i) = MaySubmit ?k ?h" using wp Submit by simp
    have other: "token_ok y' u (G j)" if "j \<noteq> i" "y_tasks y j = Some u" "y_opened y' = y_opened y" "y_sent y' = y_sent y @ [(?k, ?h)]" for j u y'
      using system_okD(4) [OF ok that(2)] system_okD(7) [OF ok that(1) [symmetric] i that(2), of "(?k, ?h)"] tok that(3,4)
      by (auto simp: token_ok_def split: token.splits)
    have "system_ok T (invoke i t y) L G"
      by (rule record_send [OF ok i])
        (use Submit False tok token other system_okD(8-11) [OF ok] in \<open>auto simp: invoke_def token_ok_def\<close>)
    then show ?thesis by blast
  qed (use ok False in \<open>auto simp: invoke_def\<close>)
qed

lemma methodRun_wp: "ext_ok E \<Longrightarrow> wp (lane_of cfg) (methodRun E H cfg m v) (\<lambda>_ _. True) g"
  by (cases m) (simp_all add: methodRun_def Let_def wp_bind wp_startOperation wp_resumePreparedOperation wp_runOperation
      wp_observeOperation wp_abandonPreparedOperation)

lemma launch_ok:
  assumes ok: "system_ok T y L G"
  shows "\<exists>G'. system_ok T (launch (ext_of T) H i cfg m v y) L G'"
proof (cases "y_tasks y i")
  case None
  let ?t = "\<lparr>rt_configuration = cfg, rt_run = methodRun (ext_of T) H cfg m v, rt_call = None, rt_read = None, rt_invoked = False\<rparr>"
  let ?g = "\<lparr>gh_known = {}, gh_token = NoToken\<rparr>"
  have run: "launch (ext_of T) H i cfg m v y = put_task i ?t y" using None by (simp add: launch_def)
  have earned: "earned (put_task i ?t y) L kh" if "earned y L kh" for kh
    using that unfolding earned_def delivered_def by auto
  have "task_ok (y_world y) L ?t ?g \<and> token_ok y ?t ?g"
    using methodRun_wp [OF ext_of_ok] by (simp add: task_ok_def token_ok_def)
  then have "system_ok T (put_task i ?t y) L (G(i := ?g))"
    using ok earned None unfolding system_ok_def by (auto split: if_splits)
  then show ?thesis unfolding run by blast
next
  case (Some t)
  with ok show ?thesis by (auto simp: launch_def)
qed

lemma with_task_ok:
  assumes "system_ok T y L G" "\<And>t. y_tasks y i = Some t \<Longrightarrow> \<exists>G'. system_ok T (f t) L G'"
  shows "\<exists>L' G'. system_ok T (with_task y i f) L' G' \<and> (\<forall>k. set (L k) \<subseteq> set (L' k))"
  using assms unfolding with_task_def by (cases "y_tasks y i") auto

lemma journal_step_ok:
  assumes "system_ok T y L G" "\<nexists>i closed v. e = Start i closed v"
  shows "\<exists>L' G'. system_ok T (y\<lparr>y_world := operation_event (ext_of T) e (y_world y)\<rparr>) L' G' \<and> (\<forall>k. set (L k) \<subseteq> set (L' k))"
proof -
  from journal_event [OF system_okD(1) [OF assms(1)] assms(2)] obtain L' where
    "journal_ok T (operation_event (ext_of T) e (y_world y)) L'" "\<And>k. set (L k) \<subseteq> set (L' k)" by metis
  with journal_step [OF assms(1)] show ?thesis by blast
qed

theorem runnerEvent_ok:
  assumes ok: "system_ok T y L G"
  shows "\<exists>L' G'. system_ok T (runnerEvent (ext_of T) H e y) L' G' \<and> (\<forall>k. set (L k) \<subseteq> set (L' k))"
proof (cases e)
  case (Launch i cfg m v)
  then show ?thesis using launch_ok [OF ok] by fastforce
qed ((simp only: runnerEvent.simps, ((rule journal_step_ok [OF ok], simp) |
    (rule with_task_ok [OF ok], (rule issue_ok [OF ok] settle_ok [OF ok] readLane_ok [OF ok] readArchive_ok [OF ok]
       answered_ok [OF ok] invoke_ok [OF ok] sendAnswered_ok [OF ok]), assumption)))+)

lemma runRunners_ok: "\<exists>L G. system_ok T (runRunners (ext_of T) H es) L G"
proof -
  have "op_journal.world_ok T (emptyWorld createMemoryOperationStoreAdapter) (\<lambda>_. [])"
    by (rule op_journal.empty_ok)
      (simp_all add: createMemoryOperationStoreAdapter_def lane_content_def lane_archive_def split: sum.split)
  then have "system_ok T emptySystem (\<lambda>_. []) (\<lambda>_. undefined)"
    by (simp add: system_ok_def emptySystem_def journal_ok_def prepared_first_def) (simp add: emptyWorld_def)
  moreover have "\<exists>L' G'. system_ok T (fold (runnerEvent (ext_of T) H) es y) L' G'" if "system_ok T y L G" for y L G
    using that
  proof (induction es arbitrary: y L G)
    case (Cons e es)
    then show ?case using runnerEvent_ok [OF Cons.prems, of H e] by auto
  qed auto
  ultimately show ?thesis unfolding runRunners_def by blast
qed

end
