(* ===== verification/Runner_Properties.thy ===== *)
theory Runner_Properties
  imports Runner_System
begin

text \<open>
  What holds of every schedule of runner methods over one journal, and a schedule in which a runner
  publishes, marks and opens a submission.
\<close>

section \<open>A run that sends\<close>

text \<open>A compare-and-swap of task \<open>i\<close>, issued and served with nothing in between.\<close>

definition commitAlone :: "nat \<Rightarrow> nat \<Rightarrow> runner_event list" where
  "commitAlone i c = Issue i c False # concat (replicate 5 [StoreServe c, StoreResume c False]) @ [Settle i]"

lemma served_rounds:
  "fold (runnerEvent E H) (concat (replicate n [StoreServe c, StoreResume c False])) y =
     y\<lparr>y_world := fold (operation_event E) (concat (replicate n [Serve c, Resume c False])) (y_world y)\<rparr>"
  by (induction n arbitrary: y) simp_all

lemma system_alone:
  "operation_system E (es @ alone c v) =
     fold (operation_event E) (concat (replicate 5 [Serve c, Resume c False]))
       (operation_event E (Start c False v) (operation_system E es))"
  unfolding system_append(1) runSchedule_def alone_def operation_event_def by simp

lemma commitAlone_run:
  assumes "y_world y = operation_system E es" "y_tasks y i = Some t" "rt_run t = StoreCas k e x f" "rt_call t = None"
    and "w_calls (operation_system E es) c = None" "operationStore_casInput E (cas_literal k e x) = Inr z"
    and "outcome (operation_system E (es @ alone c (cas_literal k e x))) c = Some r"
  shows "fold (runnerEvent E H) (commitAlone i c) y =
    put_task i (continue_with t (f r)) (y\<lparr>y_world := operation_system E (es @ alone c (cas_literal k e x))\<rparr>)"
proof -
  let ?w = "operation_system E (es @ alone c (cas_literal k e x))"
  have "fold (runnerEvent E H) (Issue i c False # concat (replicate 5 [StoreServe c, StoreResume c False])) y =
      (put_task i (t\<lparr>rt_call := Some c\<rparr>) y)\<lparr>y_world := ?w\<rparr>"
    unfolding system_alone using assms(1-6)
    by (simp only: fold.simps o_apply served_rounds) (simp add: with_task_def issue_def put_task_def)
  then show ?thesis
    using assms(3,7) unfolding commitAlone_def
    by (simp only: append_Cons [symmetric] fold_append o_apply)
       (simp add: with_task_def settle_def put_task_def continue_with_def)
qed

definition sample_runner :: runner_configuration where
  "sample_runner = \<lparr>rc_terminalBehavior = Replace, rc_requestHash = None, rc_lane = Some \<lparr>ol_id = ''run:7'', ol_key = 7\<rparr>\<rparr>"

definition sample_run_literal :: jsval where
  "sample_run_literal = mk_obj [] [(''kind'', JString ''execution''), (''key'', key_literal [PName ''key''] sample_lane_key),
     (''preparedAt'', jint 100), (''attemptedAt'', jint 110), (''submittedAt'', jint 120), (''observedAt'', jint 130),
     (''timeoutMs'', jint 1000)]"

definition sample_run_input :: run_input where
  "sample_run_input = \<lparr>ri_kind = Execution, ri_key = sample_lane_key, ri_preparedAt = JInt 100, ri_attemptedAt = JInt 110,
     ri_submittedAt = JInt 120, ri_observedAt = JInt 130, ri_timeoutMs = 1000\<rparr>"

definition sample_published :: "operation store_record" where
  "sample_published = \<lparr>sr_storeRevision = 0, sr_updatedAt = 100, sr_value = op_sample_prepared\<rparr>"

definition sample_marked :: "operation store_record" where
  "sample_marked = \<lparr>sr_storeRevision = 1, sr_updatedAt = 110, sr_value = op_sample_attempted\<rparr>"

lemma sample_run_parses: "parseRunInput sample_run_literal = Inr sample_run_input"
  by code_simp

lemma sample_prepared_wf: "wf_prepared sample_hash sample_prepared"
  by (rule prepareUserOperation_wf [OF sample_ext_ok sample_hash_ok sample_prepares])

lemma sample_identity_derived: "identity_of_prepared sample_prepared None = op_sample_identity"
  by code_simp

lemma sample_creation:
  "createOperation sample_ext (creation_literal op_sample_identity (JInt 100) (Some \<lparr>ol_id = ''run:7'', ol_key = 7\<rparr>)) =
     Inr op_sample_prepared"
  by code_simp

lemma sample_marking:
  "advanceOperation sample_ext (operation_literal [] op_sample_prepared)
     (transition_literal ''mark_submission_attempted'' op_sample_identity [(''attemptedAt'', JNumber (JInt 110))]) =
   Inr op_sample_attempted"
  by code_simp

text \<open>The calls the sample run makes, up to the one that opens its submission.\<close>

lemma sample_run_calls:
  obtains F0 F1 F2 F3 F4 F5 F6 F7 where
    "methodRun sample_ext sample_hash sample_runner StartMethod sample_run_literal = StoreGet sample_lane_key F0"
    "F0 (Inr None) = CallPrepare Execution sample_lane_key F1"
    "F1 (Resolved (prepared_literal [] sample_prepared)) = CallOwner ReserveOperation sample_prepared F2"
    "F2 True = StoreCas sample_lane_key None op_sample_prepared F3"
    "F3 (Inr (Committed sample_published)) = CallOwner AuthorizeOperation sample_prepared F4"
    "F4 True = CallOwner ConfirmOperationPublished sample_prepared F5"
    "F5 True = StoreCas sample_lane_key (Some 0) op_sample_attempted F6"
    "F6 (Inr (Committed sample_marked)) = OpenSubmission sample_prepared F7"
proof -
  have id: "deriveOperationId sample_ext sample_hash (prepared_literal [] sample_prepared) None = Inr op_sample_identity"
    using deriveOperationId_prepared [OF sample_ext_ok sample_prepared_wf, of None] by (simp add: sample_identity_derived)
  have fields: "oi_kind op_sample_identity = Execution" "oi_grantId op_sample_identity = sc_grantId sample_lane_key"
    "oi_chainId op_sample_identity = sc_chainId sample_lane_key" "sk_lane sample_lane_key = Some 7"
    "oc_identity (op_common op_sample_prepared) = op_sample_identity" "op_state op_sample_prepared = Prepared"
    by (simp_all add: op_sample_identity_def sample_lane_key_def op_sample_prepared_def op_sample_common_def)
  note facts = sample_run_parses id fields parsePrepared_literal [OF sample_ext_ok sample_prepared_wf] sample_creation sample_marking
  note run_defs = methodRun_def startOperation_def startExecution_def getRecord_def occupied_def prepareExact_def publishFresh_def
    reservePreparedOperation_def publishPrepared_def commit_def executeAcquired_def requireLane_def authorizePreparedOperation_def
    confirmPreparedPublication_def attemptSubmission_def advance_def sendPrepared_def liftR_def guardE_def
    sample_run_input_def sample_runner_def sample_published_def sample_marked_def
  have "\<exists>F0. methodRun sample_ext sample_hash sample_runner StartMethod sample_run_literal = StoreGet sample_lane_key F0 \<and>
    (\<exists>F1. F0 (Inr None) = CallPrepare Execution sample_lane_key F1 \<and>
    (\<exists>F2. F1 (Resolved (prepared_literal [] sample_prepared)) = CallOwner ReserveOperation sample_prepared F2 \<and>
    (\<exists>F3. F2 True = StoreCas sample_lane_key None op_sample_prepared F3 \<and>
    (\<exists>F4. F3 (Inr (Committed sample_published)) = CallOwner AuthorizeOperation sample_prepared F4 \<and>
    (\<exists>F5. F4 True = CallOwner ConfirmOperationPublished sample_prepared F5 \<and>
    (\<exists>F6. F5 True = StoreCas sample_lane_key (Some 0) op_sample_attempted F6 \<and>
    (\<exists>F7. F6 (Inr (Committed sample_marked)) = OpenSubmission sample_prepared F7)))))))"
    by (simp add: facts run_defs)
  then show thesis by (elim exE conjE) (rule that)
qed

definition sample_sends :: "runner_event list" where
  "sample_sends =
     [Launch 0 sample_runner StartMethod sample_run_literal, ReadLane 0 False,
      Answered 0 (Resolved (prepared_literal [] sample_prepared)), OwnerAnswered 0 True] @ commitAlone 0 0 @
     [OwnerAnswered 0 True, OwnerAnswered 0 True] @ commitAlone 0 1 @ [Invoke 0]"

lemma sample_lane_empty: "laneRead sample_ext False (emptyWorld createMemoryOperationStoreAdapter) sample_lane_key = Inr None"
  by code_simp

definition after_publication :: "event list" where
  "after_publication = alone 0 (cas_literal sample_lane_key None op_sample_prepared)"

definition after_mark :: "event list" where
  "after_mark = after_publication @ alone 1 (cas_literal sample_lane_key (Some 0) op_sample_attempted)"

lemma sample_published_commits:
  "outcome (operation_system sample_ext after_publication) 0 = Some (Inr (Committed sample_published))"
  "lane_content (w_adapter (operation_system sample_ext after_publication)) sample_lane_key = Some sample_published"
proof -
  have "lane_content (w_adapter (operation_system sample_ext [])) sample_lane_key = None"
    by (simp add: operation_system_def runSchedule_def emptyWorld_def createMemoryOperationStoreAdapter_def lane_content_def split: sum.split)
  moreover from this have "lane_archive (w_adapter (operation_system sample_ext [])) sample_lane_key h = None" for h
    by (intro no_archive_below [OF sample_ext_ok]) simp
  ultimately have "outcome (operation_system sample_ext ([] @ after_publication)) 0 = Some (Inr (Committed sample_published)) \<and>
     lane_content (w_adapter (operation_system sample_ext ([] @ after_publication))) sample_lane_key = Some sample_published"
    unfolding after_publication_def
    using commit_alone [OF sample_ext_ok _ _ sample_inputs(1), of "[]" 0] system_open [of "[]"] system_fresh [of 0 "[]"]
    by (simp add: revisionMatches_def validateNextOperation_def sample_published_def op_sample_prepared_def op_sample_common_def)
  then show "outcome (operation_system sample_ext after_publication) 0 = Some (Inr (Committed sample_published))"
    "lane_content (w_adapter (operation_system sample_ext after_publication)) sample_lane_key = Some sample_published" by simp_all
qed

lemma after_publication_quiet: "CloseAdapter \<notin> set after_publication" "Start 1 closed v \<notin> set after_publication"
  by (auto simp: after_publication_def alone_def)

lemma sample_mark_commits:
  "outcome (operation_system sample_ext after_mark) 1 = Some (Inr (Committed sample_marked))"
proof -
  have "lane_archive (w_adapter (operation_system sample_ext after_publication)) sample_lane_key h = None" for h
    by (intro no_archive_below [OF sample_ext_ok]) (simp add: sample_published_commits(2) sample_published_def)
  moreover have "validateNextOperation (Some (sr_value sample_published)) op_sample_attempted = Inr ()" by code_simp
  moreover have "(0::int) \<noteq> MAX_SAFE_INTEGER" by (simp add: MAX_SAFE_INTEGER_def)
  ultimately show ?thesis
    using commit_alone [OF sample_ext_ok system_fresh [of 1 after_publication] system_open [OF after_publication_quiet(1)] sample_inputs(2)]
      sample_published_commits(2) after_publication_quiet(2)
    by (simp add: after_mark_def revisionMatches_def sample_published_def sample_marked_def op_sample_attempted_def op_sample_common_def)
qed

lemma sample_opened: "y_opened (runRunners sample_ext sample_hash sample_sends) = [(sample_lane_key, ''0x'' @ replicate 64 (CHR ''1''))]"
proof -
  obtain F0 F1 F2 F3 F4 F5 F6 F7 where F:
    "methodRun sample_ext sample_hash sample_runner StartMethod sample_run_literal = StoreGet sample_lane_key F0"
    "F0 (Inr None) = CallPrepare Execution sample_lane_key F1"
    "F1 (Resolved (prepared_literal [] sample_prepared)) = CallOwner ReserveOperation sample_prepared F2"
    "F2 True = StoreCas sample_lane_key None op_sample_prepared F3"
    "F3 (Inr (Committed sample_published)) = CallOwner AuthorizeOperation sample_prepared F4"
    "F4 True = CallOwner ConfirmOperationPublished sample_prepared F5"
    "F5 True = StoreCas sample_lane_key (Some 0) op_sample_attempted F6"
    "F6 (Inr (Committed sample_marked)) = OpenSubmission sample_prepared F7"
    by (rule sample_run_calls)
  define task where "task m = \<lparr>rt_configuration = sample_runner, rt_run = m, rt_call = None, rt_read = None, rt_invoked = False\<rparr>" for m
  define solo where "solo w m = \<lparr>y_world = w, y_tasks = [0 \<mapsto> task m], y_opened = [], y_sent = []\<rparr>" for w m
  let ?step = "fold (runnerEvent sample_ext sample_hash)"
  note step_defs = with_task_def put_task_def continue_with_def solo_def task_def
  have start: "?step [Launch 0 sample_runner StartMethod sample_run_literal, ReadLane 0 False,
      Answered 0 (Resolved (prepared_literal [] sample_prepared)), OwnerAnswered 0 True] emptySystem =
      solo (operation_system sample_ext []) (StoreCas sample_lane_key None op_sample_prepared F3)"
    by (simp add: step_defs emptySystem_def launch_def readLane_def answered_def ownerAnswered_def F sample_lane_empty
        operation_system_def runSchedule_def)
  have publish: "?step (commitAlone 0 0) (solo (operation_system sample_ext []) (StoreCas sample_lane_key None op_sample_prepared F3)) =
      solo (operation_system sample_ext after_publication) (CallOwner AuthorizeOperation sample_prepared F4)"
    by (subst commitAlone_run [where es = "[]" and t = "task (StoreCas sample_lane_key None op_sample_prepared F3)" and
        f = F3 and k = sample_lane_key and e = None and x = op_sample_prepared and r = "Inr (Committed sample_published)"])
      (simp_all add: step_defs system_fresh sample_inputs sample_published_commits(1) [unfolded after_publication_def] F after_publication_def)
  have confirm: "?step [OwnerAnswered 0 True, OwnerAnswered 0 True]
      (solo (operation_system sample_ext after_publication) (CallOwner AuthorizeOperation sample_prepared F4)) =
      solo (operation_system sample_ext after_publication) (StoreCas sample_lane_key (Some 0) op_sample_attempted F6)"
    by (simp add: step_defs ownerAnswered_def F)
  have mark: "?step (commitAlone 0 1)
      (solo (operation_system sample_ext after_publication) (StoreCas sample_lane_key (Some 0) op_sample_attempted F6)) =
      solo (operation_system sample_ext after_mark) (OpenSubmission sample_prepared F7)"
    by (subst commitAlone_run [where es = after_publication and t = "task (StoreCas sample_lane_key (Some 0) op_sample_attempted F6)" and
        f = F6 and k = sample_lane_key and e = "Some 0" and x = op_sample_attempted and r = "Inr (Committed sample_marked)"])
      (simp_all add: step_defs system_fresh after_publication_quiet sample_inputs sample_mark_commits [unfolded after_mark_def] F after_mark_def del: One_nat_def)
  have "lane_of sample_runner sample_prepared = sample_lane_key" "pu_userOperationHash sample_prepared = ''0x'' @ replicate 64 (CHR ''1'')"
    by code_simp+
  then show ?thesis
    unfolding runRunners_def sample_sends_def fold_append o_apply start publish confirm mark
    by (simp add: step_defs invoke_def)
qed

section \<open>Properties\<close>

lemma earned_recorded:
  assumes ok: "journal_ok T w L" and a: "authorized w L c (k, h)"
  shows "\<exists>r. (lane_content (w_adapter w) k = Some r \<or> lane_archive (w_adapter w) k h = Some r) \<and>
    hash_in r = h \<and> state_in r \<noteq> Prepared"
proof -
  have wok: "op_journal.world_ok T w L" and first: "prepared_first (L k)" using ok by (auto simp: journal_ok_def)
  from a obtain r where r: "committed_by w c k r" "hash_in r = h" "state_in r \<noteq> Prepared" by (auto simp: authorized_def)
  have mem: "r \<in> set (L k)" by (rule op_journal.world_ok_committed [OF wok r(1)])
  from op_journal.world_ok_durable [OF wok mem access_hash(2)] r(2) obtain r' where
    r': "lane_content (w_adapter w) k = Some r' \<or> lane_archive (w_adapter w) k h = Some r'" "hash_in r' = h"
    by (auto simp: access_hash)
  have "state_in r' \<noteq> Prepared"
  proof (cases "lane_archive (w_adapter w) k h = Some r'")
    case True
    with op_journal.world_ok_archive [OF wok True] show ?thesis by (auto simp: access_hash)
  next
    case False
    with r' have last: "L k \<noteq> []" "r' = last (L k)"
      using op_journal.world_ok_log [OF wok, of k] by (auto simp: last_of_def split: if_splits)
    from mem obtain i where i: "i < length (L k)" "r = L k ! i" by (auto simp: in_set_conv_nth)
    show ?thesis
    proof
      assume p: "state_in r' = Prepared"
      with r(3) i last have "i < length (L k) - 1" by (auto simp: last_conv_nth intro!: le_neq_implies_less)
      with first p last i r(2) r'(2) show False unfolding prepared_first_def by (force simp: last_conv_nth)
    qed
  qed
  with r' show ?thesis by blast
qed

text \<open>C1: An operation is sent at most once. Whatever the schedule of any number of runner methods (start, resume, run,
  observe, abandon) on any number of runners over one journal, with crashes, closed stores and arbitrary answers of every
  capability: no submission session is ever opened twice for the same hash on a lane, no session submits the same hash
  twice, and a submit is always of an opened session.\<close>

theorem submitted_once:
  assumes "ext_ok E"
  shows "distinct (y_opened (runRunners E H es)) \<and> distinct (y_sent (runRunners E H es)) \<and>
    set (y_sent (runRunners E H es)) \<subseteq> set (y_opened (runRunners E H es))"
proof -
  from assms obtain T where T: "E = ext_of T" by (rule documented_extE)
  obtain L G where "system_ok T (runRunners E H es) L G" using runRunners_ok T by blast
  then show ?thesis by (auto dest: system_okD)
qed

theorem submitted_once_witness:
  "distinct (y_opened (runRunners sample_ext sample_hash (sample_sends @ sample_sends))) \<and>
   y_opened (runRunners sample_ext sample_hash sample_sends) \<noteq> []"
  using submitted_once [OF sample_ext_ok, of sample_hash "sample_sends @ sample_sends"] sample_opened by simp

text \<open>C6: A send leaves a durable trace before it happens. Whenever a submission session has been opened for a hash on a
  lane, at that moment and ever after the lane's record or its archive holds a record of that hash that is no longer
  prepared; a runner that finds it there observes and never sends again.\<close>

theorem send_is_recorded:
  assumes "ext_ok E" and "(k, h) \<in> set (y_opened (runRunners E H es))"
  shows "\<exists>r. (lane_content (w_adapter (y_world (runRunners E H es))) k = Some r \<or>
      lane_archive (w_adapter (y_world (runRunners E H es))) k h = Some r) \<and>
    hash_in r = h \<and> state_in r \<noteq> Prepared"
proof -
  from assms(1) obtain T where T: "E = ext_of T" by (rule documented_extE)
  obtain L G where ok: "system_ok T (runRunners E H es) L G" using runRunners_ok T by blast
  from system_okD(8) [OF ok assms(2)] obtain c where "authorized (y_world (runRunners E H es)) L c (k, h)" by (auto simp: earned_def)
  with system_okD(1) [OF ok] show ?thesis by (rule earned_recorded)
qed

theorem send_is_recorded_witness:
  "\<exists>r. (lane_content (w_adapter (y_world (runRunners sample_ext sample_hash sample_sends))) sample_lane_key = Some r \<or>
      lane_archive (w_adapter (y_world (runRunners sample_ext sample_hash sample_sends))) sample_lane_key
        (''0x'' @ replicate 64 (CHR ''1'')) = Some r) \<and>
    hash_in r = ''0x'' @ replicate 64 (CHR ''1'') \<and> state_in r \<noteq> Prepared"
  by (rule send_is_recorded [OF sample_ext_ok]) (simp add: sample_opened)

end
