(* ===== verification/Operation_Observer.thy ===== *)
theory Operation_Observer
  imports Operation_Runner
begin

unbundle bit_operations_syntax

text \<open>
  Model of \<open>packages/sdk/src/operation-observer.ts\<close>: the parsers of the provider's receipts, transactions
  and blocks, the verification that a UserOperation was executed in a transaction
  (\<open>verifyParsedOperationReceiptEvidence\<close>), the verified inclusion and finality, and the two observers,
  \<open>observeOperation\<close> and \<open>observeReference\<close>, with their close protocol.

  An observation is a \<open>reading\<close>, the tree of the reads it makes of the provider, as a runner method is a
  tree of calls. A read answers with a value, fails, or runs into the deadline of \<open>deadlineReader\<close>; what
  it answers is arbitrary. Of the requests of \<open>OperationObserverReadRequest\<close> those the observers make are
  constructors. An \<open>observedAt\<close> of the input is a JavaScript number, as in the runner; in a result it is
  its integer value.
\<close>

section \<open>Quantities\<close>

text \<open>\<open>value.toString(base)\<close>, \<open>decimal\<close>, and \<open>BigInt\<close> of a hexadecimal string.\<close>

definition digit_char :: "int \<Rightarrow> char" where
  "digit_char n = ''0123456789abcdef'' ! nat n"

function to_base :: "int \<Rightarrow> int \<Rightarrow> string" where
  "to_base b n = (if b < 2 \<or> n < b then [digit_char n] else to_base b (n div b) @ [digit_char (n mod b)])"
  by pat_completeness auto

termination
proof (relation "measure (\<lambda>(b, n). nat n)")
  fix b n :: int
  assume "\<not> (b < 2 \<or> n < b)"
  then have "n div b < n" "0 \<le> n div b" by (auto intro: int_div_less_self simp: pos_imp_zdiv_nonneg_iff)
  then show "((b, n div b), (b, n)) \<in> measure (\<lambda>(b, n). nat n)" by simp
qed simp

definition decimal :: "int \<Rightarrow> string" where
  "decimal n = to_base 10 n"

definition toHex :: "int \<Rightarrow> string" where
  "toHex n = ''0x'' @ to_base 16 n"

definition hex_digit_val :: "char \<Rightarrow> int" where
  "hex_digit_val c = (if dec_digit c then digit_val c else int (of_char c) - 87)"

definition BigIntHex :: "string \<Rightarrow> int" where
  "BigIntHex s = foldl (\<lambda>acc c. 16 * acc + hex_digit_val c) 0 (drop 2 s)"

text \<open>\<open>/^0x(?:0|[1-9a-f][0-9a-f]*)$/u\<close>\<close>

definition QUANTITY :: "string \<Rightarrow> bool" where
  "QUANTITY s \<longleftrightarrow> take 2 s = ''0x'' \<and> list_all hex_lower (drop 2 s) \<and>
     (drop 2 s = ''0'' \<or> (drop 2 s \<noteq> [] \<and> hd (drop 2 s) \<noteq> CHR ''0''))"

section \<open>Failures and scalar parsers\<close>

datatype observe_failure = EvidenceFailure unread_reason | ProviderFailure | TimeoutFailure | OtherError err

definition parseHash :: "jsval \<Rightarrow> unread_reason \<Rightarrow> observe_failure + string" where
  "parseHash v reason = fixed_hex 64 v (EvidenceFailure reason)"

definition parseAddress :: "jsval \<Rightarrow> observe_failure + string" where
  "parseAddress v = fixed_hex 40 v (EvidenceFailure ReceiptInvalid)"

definition parseQuantity :: "jsval \<Rightarrow> unread_reason \<Rightarrow> observe_failure + int" where
  "parseQuantity v reason =
     (case v of
        JString s \<Rightarrow> if \<not> QUANTITY s then Inl (EvidenceFailure reason) else Inr (BigIntHex s)
      | _ \<Rightarrow> Inl (EvidenceFailure reason))"

text \<open>\<open>`0x${parseQuantity(value).toString(16)}`\<close>\<close>

definition quantityField :: "jsval \<Rightarrow> unread_reason \<Rightarrow> observe_failure + string" where
  "quantityField v reason = bindE (parseQuantity v reason) (\<lambda>n. Inr (toHex n))"

section \<open>Evidence of the provider\<close>

record log_evidence =
  le_address :: string
  le_blockNumber :: string
  le_blockHash :: string
  le_transactionHash :: string
  le_transactionIndex :: string
  le_logIndex :: string
  le_removed :: bool
  le_topics :: "string list"
  le_data :: string

record user_operation_receipt =
  re_userOperationHash :: string
  re_entryPoint :: string
  re_sender :: string
  re_nonce :: string
  re_paymaster :: string
  re_actualGasCost :: string
  re_actualGasUsed :: string
  re_success :: bool
  re_transactionHash :: string
  re_blockNumber :: string
  re_blockHash :: string

record transaction_receipt =
  tr_transactionHash :: string
  tr_blockNumber :: string
  tr_blockHash :: string
  tr_transactionIndex :: string
  tr_status :: string
  tr_gasUsed :: string
  tr_logs :: "log_evidence list"

record transaction_evidence =
  tx_hash :: string
  tx_to :: "string option"
  tx_blockNumber :: string
  tx_blockHash :: string
  tx_transactionIndex :: string

record block_evidence =
  bl_number :: string
  bl_hash :: string
  bl_parentHash :: string
  bl_transactions :: "string list"

record verified_receipt =
  ve_transactionHash :: string
  ve_blockNumber :: string
  ve_blockHash :: string
  ve_gasUsed :: string
  ve_outcome :: operation_outcome
  ve_logs :: "log_evidence list"

definition MAX_RECEIPT_LOGS :: int where
  "MAX_RECEIPT_LOGS = 10000"

abbreviation receipt_invalid :: observe_failure where
  "receipt_invalid \<equiv> EvidenceFailure ReceiptInvalid"

definition boolField :: "jsval \<Rightarrow> observe_failure + bool" where
  "boolField v = (case v of JBool b \<Rightarrow> Inr b | _ \<Rightarrow> Inl receipt_invalid)"

definition parseLog :: "jsval \<Rightarrow> (observe_failure, log_evidence) capture" where
  "parseLog v =
     bindC (exactRecord v [''address'', ''blockNumber'', ''blockHash'', ''transactionHash'', ''transactionIndex'',
              ''logIndex'', ''removed'', ''topics'', ''data''] receipt_invalid) (\<lambda>record.
     bindC (liftC (boolField (fld record ''removed''))) (\<lambda>removed.
     bindC (arrayC (\<lambda>topic. liftC (parseHash topic ReceiptInvalid)) (fld record ''topics'') receipt_invalid) (\<lambda>topics.
     bindC (liftC (case fld record ''data'' of
              JString s \<Rightarrow> if \<not> lower_bytes s then Inl receipt_invalid else Inr s
            | _ \<Rightarrow> Inl receipt_invalid)) (\<lambda>data.
     bindC (liftC (parseAddress (fld record ''address''))) (\<lambda>address.
     bindC (liftC (quantityField (fld record ''blockNumber'') ReceiptInvalid)) (\<lambda>blockNumber.
     bindC (liftC (parseHash (fld record ''blockHash'') ReceiptInvalid)) (\<lambda>blockHash.
     bindC (liftC (parseHash (fld record ''transactionHash'') ReceiptInvalid)) (\<lambda>transactionHash.
     bindC (liftC (quantityField (fld record ''transactionIndex'') ReceiptInvalid)) (\<lambda>transactionIndex.
     bindC (liftC (quantityField (fld record ''logIndex'') ReceiptInvalid)) (\<lambda>logIndex.
     returnC \<lparr>le_address = address, le_blockNumber = blockNumber, le_blockHash = blockHash,
       le_transactionHash = transactionHash, le_transactionIndex = transactionIndex, le_logIndex = logIndex,
       le_removed = removed, le_topics = topics, le_data = data\<rparr>))))))))))"

definition parseUserOperationReceipt :: "jsval \<Rightarrow> (observe_failure, user_operation_receipt) capture" where
  "parseUserOperationReceipt v =
     bindC (exactRecord v [''userOperationHash'', ''entryPoint'', ''sender'', ''nonce'', ''paymaster'', ''actualGasCost'',
              ''actualGasUsed'', ''success'', ''transactionHash'', ''blockNumber'', ''blockHash''] receipt_invalid) (\<lambda>record.
     bindC (liftC (boolField (fld record ''success''))) (\<lambda>success.
     bindC (liftC (parseHash (fld record ''userOperationHash'') ReceiptInvalid)) (\<lambda>userOperationHash.
     bindC (liftC (parseAddress (fld record ''entryPoint''))) (\<lambda>entryPoint.
     bindC (liftC (parseAddress (fld record ''sender''))) (\<lambda>sender.
     bindC (liftC (quantityField (fld record ''nonce'') ReceiptInvalid)) (\<lambda>nonce.
     bindC (liftC (parseAddress (fld record ''paymaster''))) (\<lambda>paymaster.
     bindC (liftC (quantityField (fld record ''actualGasCost'') ReceiptInvalid)) (\<lambda>actualGasCost.
     bindC (liftC (quantityField (fld record ''actualGasUsed'') ReceiptInvalid)) (\<lambda>actualGasUsed.
     bindC (liftC (parseHash (fld record ''transactionHash'') ReceiptInvalid)) (\<lambda>transactionHash.
     bindC (liftC (quantityField (fld record ''blockNumber'') ReceiptInvalid)) (\<lambda>blockNumber.
     bindC (liftC (parseHash (fld record ''blockHash'') ReceiptInvalid)) (\<lambda>blockHash.
     returnC \<lparr>re_userOperationHash = userOperationHash, re_entryPoint = entryPoint, re_sender = sender, re_nonce = nonce,
       re_paymaster = paymaster, re_actualGasCost = actualGasCost, re_actualGasUsed = actualGasUsed,
       re_success = success, re_transactionHash = transactionHash, re_blockNumber = blockNumber,
       re_blockHash = blockHash\<rparr>))))))))))))"

definition parseTransactionReceipt :: "jsval \<Rightarrow> (observe_failure, transaction_receipt) capture" where
  "parseTransactionReceipt v =
     bindC (exactRecord v [''transactionHash'', ''blockNumber'', ''blockHash'', ''transactionIndex'', ''status'', ''gasUsed'',
              ''logs''] receipt_invalid) (\<lambda>record.
     bindC (liftC (literal_of [(''0x0'', ''0x0''), (''0x1'', ''0x1'')] (fld record ''status'') receipt_invalid)) (\<lambda>status.
     bindC (captureDenseArray (fld record ''logs'') receipt_invalid) (\<lambda>entries.
     bindC (guardC (\<not> int (length entries) > MAX_RECEIPT_LOGS) receipt_invalid) (\<lambda>_.
     bindC (mapC parseLog entries) (\<lambda>logs.
     bindC (liftC (parseHash (fld record ''transactionHash'') ReceiptInvalid)) (\<lambda>transactionHash.
     bindC (liftC (quantityField (fld record ''blockNumber'') ReceiptInvalid)) (\<lambda>blockNumber.
     bindC (liftC (parseHash (fld record ''blockHash'') ReceiptInvalid)) (\<lambda>blockHash.
     bindC (liftC (quantityField (fld record ''transactionIndex'') ReceiptInvalid)) (\<lambda>transactionIndex.
     bindC (liftC (quantityField (fld record ''gasUsed'') ReceiptInvalid)) (\<lambda>gasUsed.
     returnC \<lparr>tr_transactionHash = transactionHash, tr_blockNumber = blockNumber, tr_blockHash = blockHash,
       tr_transactionIndex = transactionIndex, tr_status = status, tr_gasUsed = gasUsed, tr_logs = logs\<rparr>))))))))))"

definition parseTransaction :: "jsval \<Rightarrow> (observe_failure, transaction_evidence) capture" where
  "parseTransaction v =
     bindC (exactRecord v [''hash'', ''to'', ''blockNumber'', ''blockHash'', ''transactionIndex''] receipt_invalid) (\<lambda>record.
     bindC (liftC (parseHash (fld record ''hash'') ReceiptInvalid)) (\<lambda>hash.
     bindC (nullableC (\<lambda>v. liftC (parseAddress v)) (fld record ''to'')) (\<lambda>to.
     bindC (liftC (quantityField (fld record ''blockNumber'') ReceiptInvalid)) (\<lambda>blockNumber.
     bindC (liftC (parseHash (fld record ''blockHash'') ReceiptInvalid)) (\<lambda>blockHash.
     bindC (liftC (quantityField (fld record ''transactionIndex'') ReceiptInvalid)) (\<lambda>transactionIndex.
     returnC \<lparr>tx_hash = hash, tx_to = to, tx_blockNumber = blockNumber, tx_blockHash = blockHash,
       tx_transactionIndex = transactionIndex\<rparr>))))))"

definition parseBlock :: "jsval \<Rightarrow> unread_reason \<Rightarrow> (observe_failure, block_evidence) capture" where
  "parseBlock v reason =
     bindC (exactRecord v [''number'', ''hash'', ''parentHash'', ''transactions''] (EvidenceFailure reason)) (\<lambda>record.
     bindC (arrayC (\<lambda>h. liftC (parseHash h reason)) (fld record ''transactions'') (EvidenceFailure reason)) (\<lambda>transactions.
     bindC (liftC (quantityField (fld record ''number'') reason)) (\<lambda>number.
     bindC (liftC (parseHash (fld record ''hash'') reason)) (\<lambda>hash.
     bindC (liftC (parseHash (fld record ''parentHash'') reason)) (\<lambda>parentHash.
     returnC \<lparr>bl_number = number, bl_hash = hash, bl_parentHash = parentHash, bl_transactions = transactions\<rparr>)))))"

section \<open>The execution window of a UserOperation\<close>

definition USER_OPERATION_EVENT :: string where
  "USER_OPERATION_EVENT = ''0x49628fd1471006c1482da88028e9ce4dbb080b815c9b0344d39e5a8e6ec1419f''"

definition BEFORE_EXECUTION :: string where
  "BEFORE_EXECUTION = ''0xbb47ee3e183a558b1a2ff0874b079f3fc5478b7454eacf2bfc5af2ff5878f972''"

definition sameOccurrence :: "operation_inclusion \<Rightarrow> operation_inclusion \<Rightarrow> bool" where
  "sameOccurrence inclusion next' \<longleftrightarrow>
     in_transactionHash inclusion = in_transactionHash next' \<and> in_blockNumber inclusion = in_blockNumber next' \<and>
     in_blockHash inclusion = in_blockHash next' \<and> in_outcome inclusion = in_outcome next'"

text \<open>\<open>log.topics[i]\<close>, \<open>undefined\<close> out of range.\<close>

definition topic :: "log_evidence \<Rightarrow> nat \<Rightarrow> string option" where
  "topic log i = (if i < length (le_topics log) then Some (le_topics log ! i) else None)"

text \<open>\<open>/^0x0{24}[0-9a-f]{40}$/u\<close>\<close>

definition address_topic :: "string option \<Rightarrow> bool" where
  "address_topic t = (case t of None \<Rightarrow> False | Some s \<Rightarrow> lower_hex 64 s \<and> take 24 (drop 2 s) = replicate 24 (CHR ''0''))"

text \<open>Word \<open>i\<close> of the event data.\<close>

definition data_word :: "log_evidence \<Rightarrow> nat \<Rightarrow> int" where
  "data_word log i = BigIntHex (''0x'' @ slice (2 + i * 64) (2 + (i + 1) * 64) (le_data log))"

record event_evidence =
  ev_paymaster :: string
  ev_actualGasCost :: int
  ev_actualGasUsed :: int
  ev_success :: bool

definition parseEvent :: "log_evidence \<Rightarrow> user_operation_reference \<Rightarrow> observe_failure + event_evidence" where
  "parseEvent log reference =
     (if length (le_topics log) \<noteq> 4 \<or> length (le_data log) \<noteq> 258 then Inl receipt_invalid
      else if topic log 0 \<noteq> Some USER_OPERATION_EVENT \<or> topic log 1 \<noteq> Some (ur_userOperationHash reference) \<or>
              topic log 2 \<noteq> Some (''0x'' @ replicate 24 (CHR ''0'') @ drop 2 (ur_account reference))
      then Inl receipt_invalid
      else if \<not> address_topic (topic log 3) then Inl receipt_invalid
      else if decimal (data_word log 0) \<noteq> ur_nonce reference \<or> (data_word log 1 \<noteq> 0 \<and> data_word log 1 \<noteq> 1)
      then Inl receipt_invalid
      else Inr \<lparr>ev_paymaster = ''0x'' @ drop 26 (le_topics log ! 3), ev_actualGasCost = data_word log 2,
        ev_actualGasUsed = data_word log 3, ev_success = (data_word log 1 = 1)\<rparr>)"

definition isEntryPointBoundary :: "log_evidence \<Rightarrow> string \<Rightarrow> observe_failure + bool" where
  "isEntryPointBoundary log entryPoint =
     (if le_address log \<noteq> entryPoint then Inr False
      else if topic log 0 = Some BEFORE_EXECUTION then
        (if length (le_topics log) \<noteq> 1 \<or> le_data log \<noteq> ''0x'' then Inl receipt_invalid else Inr True)
      else if topic log 0 \<noteq> Some USER_OPERATION_EVENT then Inr False
      else if length (le_topics log) \<noteq> 4 \<or> length (le_data log) \<noteq> 258 \<or> \<not> address_topic (topic log 2) \<or>
              \<not> address_topic (topic log 3)
      then Inl receipt_invalid
      else if data_word log 1 \<noteq> 0 \<and> data_word log 1 \<noteq> 1 then Inl receipt_invalid
      else Inr True)"

text \<open>The receipt against the reference and the claimed inclusion. The numbers it holds are quantities already.\<close>

definition receiptAgrees ::
    "user_operation_reference \<Rightarrow> operation_inclusion \<Rightarrow> user_operation_receipt \<Rightarrow> transaction_receipt \<Rightarrow> bool" where
  "receiptAgrees reference inclusion receipt transactionReceipt \<longleftrightarrow>
     \<not> (re_userOperationHash receipt \<noteq> ur_userOperationHash reference \<or> re_entryPoint receipt \<noteq> ur_entryPoint reference \<or>
        re_sender receipt \<noteq> ur_account reference \<or> decimal (BigIntHex (re_nonce receipt)) \<noteq> ur_nonce reference \<or>
        re_transactionHash receipt \<noteq> in_transactionHash inclusion \<or>
        decimal (BigIntHex (re_blockNumber receipt)) \<noteq> in_blockNumber inclusion \<or>
        re_blockHash receipt \<noteq> in_blockHash inclusion \<or>
        (if re_success receipt then Success else Reverted) \<noteq> in_outcome inclusion \<or>
        tr_status transactionReceipt \<noteq> ''0x1'' \<or>
        tr_transactionHash transactionReceipt \<noteq> in_transactionHash inclusion \<or>
        decimal (BigIntHex (tr_blockNumber transactionReceipt)) \<noteq> in_blockNumber inclusion \<or>
        tr_blockHash transactionReceipt \<noteq> in_blockHash inclusion)"

fun logsAgree :: "transaction_receipt \<Rightarrow> int option \<Rightarrow> log_evidence list \<Rightarrow> bool" where
  "logsAgree receipt previousLogIndex [] = True"
| "logsAgree receipt previousLogIndex (log # logs) =
     (let logIndex = BigIntHex (le_logIndex log) in
      \<not> (le_removed log \<or> le_transactionHash log \<noteq> tr_transactionHash receipt \<or>
         le_blockNumber log \<noteq> tr_blockNumber receipt \<or> le_blockHash log \<noteq> tr_blockHash receipt \<or>
         le_transactionIndex log \<noteq> tr_transactionIndex receipt \<or>
         (case previousLogIndex of None \<Rightarrow> False | Some p \<Rightarrow> logIndex \<le> p)) \<and>
      logsAgree receipt (Some logIndex) logs)"

definition isTargetEvent :: "user_operation_reference \<Rightarrow> log_evidence \<Rightarrow> bool" where
  "isTargetEvent reference log \<longleftrightarrow>
     le_address log = ur_entryPoint reference \<and> topic log 0 = Some USER_OPERATION_EVENT \<and>
     topic log 1 = Some (ur_userOperationHash reference)"

definition targetEvents :: "user_operation_reference \<Rightarrow> log_evidence list \<Rightarrow> (nat \<times> log_evidence) list" where
  "targetEvents reference logs = filter (\<lambda>(i, log). isTargetEvent reference log) (enumerate 0 logs)"

text \<open>The search for the nearest boundary below an index; \<open>None\<close> is \<open>-1\<close>.\<close>

fun findBoundary :: "log_evidence list \<Rightarrow> string \<Rightarrow> nat \<Rightarrow> observe_failure + nat option" where
  "findBoundary logs entryPoint 0 = Inr None"
| "findBoundary logs entryPoint (Suc i) =
     bindE (isEntryPointBoundary (logs ! i) entryPoint) (\<lambda>boundary.
     if boundary then Inr (Some i) else findBoundary logs entryPoint i)"

definition verifyParsedOperationReceiptEvidence ::
    "user_operation_reference \<Rightarrow> operation_inclusion \<Rightarrow> user_operation_receipt \<Rightarrow> transaction_receipt \<Rightarrow>
     observe_failure + verified_receipt" where
  "verifyParsedOperationReceiptEvidence reference inclusion receipt transactionReceipt =
     bindE (guardE (receiptAgrees reference inclusion receipt transactionReceipt) receipt_invalid) (\<lambda>_.
     bindE (guardE (logsAgree transactionReceipt None (tr_logs transactionReceipt)) receipt_invalid) (\<lambda>_.
     case targetEvents reference (tr_logs transactionReceipt) of
       [(index, target)] \<Rightarrow>
         bindE (parseEvent target reference) (\<lambda>event.
         bindE (guardE (\<not> (re_paymaster receipt \<noteq> ev_paymaster event \<or> re_success receipt \<noteq> ev_success event \<or>
                          BigIntHex (re_actualGasCost receipt) \<noteq> ev_actualGasCost event \<or>
                          BigIntHex (re_actualGasUsed receipt) \<noteq> ev_actualGasUsed event)) receipt_invalid) (\<lambda>_.
         bindE (findBoundary (tr_logs transactionReceipt) (ur_entryPoint reference) index) (\<lambda>boundaryIndex.
         case boundaryIndex of
           None \<Rightarrow> Inl receipt_invalid
         | Some b \<Rightarrow> Inr \<lparr>ve_transactionHash = in_transactionHash inclusion, ve_blockNumber = in_blockNumber inclusion,
             ve_blockHash = in_blockHash inclusion, ve_gasUsed = decimal (BigIntHex (tr_gasUsed transactionReceipt)),
             ve_outcome = in_outcome inclusion,
             ve_logs = take (index + 1 - (b + 1)) (drop (b + 1) (tr_logs transactionReceipt))\<rparr>)))
     | _ \<Rightarrow> Inl receipt_invalid))"

definition verifyOperationReceiptEvidence ::
    "user_operation_reference \<Rightarrow> operation_inclusion \<Rightarrow> jsval \<Rightarrow> jsval \<Rightarrow> observe_failure + verified_receipt" where
  "verifyOperationReceiptEvidence reference inclusion userOperationReceipt transactionReceiptValue =
     bindE (runC (parseUserOperationReceipt userOperationReceipt)) (\<lambda>receipt.
     bindE (runC (parseTransactionReceipt transactionReceiptValue)) (\<lambda>transactionReceipt.
     verifyParsedOperationReceiptEvidence reference inclusion receipt transactionReceipt))"

section \<open>Readings\<close>

datatype read_request =
    ReadChainId int
  | ReadUserOperationReceipt int string "(string \<times> string) option"
  | ReadTransactionReceipt int string
  | ReadTransaction int string
  | ReadCanonicalBlock int string
  | ReadFinalizedBlock int
  | ReadReplacementCandidate user_operation_reference
  | ReadEntryPointNonce int string string string string

datatype provider_answer = ReadValue jsval | ReadFailed | ReadTimedOut

datatype 'r reading =
    Observe 'r
  | Fails observe_failure
  | Read read_request "provider_answer \<Rightarrow> 'r reading"

primrec bindO :: "'a reading \<Rightarrow> ('a \<Rightarrow> 'b reading) \<Rightarrow> 'b reading" where
  "bindO (Observe x) g = g x"
| "bindO (Fails e) g = Fails e"
| "bindO (Read q f) g = Read q (\<lambda>a. bindO (f a) g)"

primrec catchO :: "'a reading \<Rightarrow> (observe_failure \<Rightarrow> 'a reading) \<Rightarrow> 'a reading" where
  "catchO (Observe x) h = Observe x"
| "catchO (Fails e) h = h e"
| "catchO (Read q f) h = Read q (\<lambda>a. catchO (f a) h)"

definition liftO :: "observe_failure + 'a \<Rightarrow> 'a reading" where
  "liftO r = (case r of Inl e \<Rightarrow> Fails e | Inr x \<Rightarrow> Observe x)"

text \<open>A read through \<open>deadlineReader\<close>.\<close>

definition readValue :: "read_request \<Rightarrow> jsval reading" where
  "readValue q = Read q (\<lambda>a. case a of
     ReadValue v \<Rightarrow> Observe v | ReadFailed \<Rightarrow> Fails ProviderFailure | ReadTimedOut \<Rightarrow> Fails TimeoutFailure)"

definition readBlock :: "read_request \<Rightarrow> unread_reason \<Rightarrow> block_evidence reading" where
  "readBlock q reason = bindO (readValue q) (\<lambda>v. liftO (runC (parseBlock v reason)))"

definition requireO :: "bool \<Rightarrow> unread_reason \<Rightarrow> unit reading" where
  "requireO b reason = (if b then Observe () else Fails (EvidenceFailure reason))"

section \<open>Verified inclusion and finality\<close>

text \<open>
  The transaction against the receipts, and the canonical block that must hold it once, at its index.
  \<open>Number\<close> of a quantity is a safe integer exactly up to \<open>MAX_SAFE_INTEGER\<close>.
\<close>

definition transactionAgrees ::
    "user_operation_reference \<Rightarrow> verified_receipt \<Rightarrow> transaction_receipt \<Rightarrow> transaction_evidence \<Rightarrow> bool" where
  "transactionAgrees reference receipt transactionReceipt transaction \<longleftrightarrow>
     \<not> (tx_hash transaction \<noteq> ve_transactionHash receipt \<or> tx_to transaction \<noteq> Some (ur_entryPoint reference) \<or>
        decimal (BigIntHex (tx_blockNumber transaction)) \<noteq> ve_blockNumber receipt \<or>
        tx_blockHash transaction \<noteq> ve_blockHash receipt \<or>
        tr_transactionIndex transactionReceipt \<noteq> tx_transactionIndex transaction)"

definition canonicalAgrees :: "verified_receipt \<Rightarrow> transaction_evidence \<Rightarrow> block_evidence \<Rightarrow> bool" where
  "canonicalAgrees receipt transaction canonical \<longleftrightarrow>
     (let transactionIndex = BigIntHex (tx_transactionIndex transaction); transactions = bl_transactions canonical in
      \<not> (decimal (BigIntHex (bl_number canonical)) \<noteq> ve_blockNumber receipt \<or> bl_hash canonical \<noteq> ve_blockHash receipt \<or>
         \<not> transactionIndex \<le> MAX_SAFE_INTEGER \<or>
         \<not> (nat transactionIndex < length transactions \<and> transactions ! nat transactionIndex = ve_transactionHash receipt) \<or>
         length (filter (\<lambda>h. h = ve_transactionHash receipt) transactions) \<noteq> 1))"

definition receiptNames :: "user_operation_reference \<Rightarrow> string option \<Rightarrow> user_operation_receipt \<Rightarrow> bool" where
  "receiptNames reference transactionHash receipt \<longleftrightarrow>
     \<not> ((case transactionHash of None \<Rightarrow> False | Some h \<Rightarrow> re_transactionHash receipt \<noteq> h) \<or>
        re_userOperationHash receipt \<noteq> ur_userOperationHash reference \<or> re_entryPoint receipt \<noteq> ur_entryPoint reference \<or>
        re_sender receipt \<noteq> ur_account reference \<or> decimal (BigIntHex (re_nonce receipt)) \<noteq> ur_nonce reference)"

definition inclusion_of_receipt :: "user_operation_receipt \<Rightarrow> jsnum \<Rightarrow> operation_inclusion" where
  "inclusion_of_receipt receipt observedAt = \<lparr>
     in_transactionHash = re_transactionHash receipt, in_blockNumber = decimal (BigIntHex (re_blockNumber receipt)),
     in_blockHash = re_blockHash receipt, in_outcome = (if re_success receipt then Success else Reverted),
     in_observedAt = time_val observedAt\<rparr>"

definition readVerifiedInclusion ::
    "user_operation_reference \<Rightarrow> jsnum \<Rightarrow> string option \<Rightarrow>
     (operation_inclusion \<times> verified_receipt \<times> block_evidence) option reading" where
  "readVerifiedInclusion reference observedAt transactionHash =
     (let chainId = ur_chainId reference in
      bindO (readValue (ReadUserOperationReceipt chainId (ur_userOperationHash reference)
               (map_option (\<lambda>h. (h, ur_entryPoint reference)) transactionHash))) (\<lambda>receiptValue.
      if receiptValue = JNull then Observe None
      else
        bindO (liftO (runC (parseUserOperationReceipt receiptValue))) (\<lambda>receipt.
        bindO (requireO (receiptNames reference transactionHash receipt) ReceiptInvalid) (\<lambda>_.
        bindO (readValue (ReadTransactionReceipt chainId (re_transactionHash receipt))) (\<lambda>v.
        bindO (liftO (runC (parseTransactionReceipt v))) (\<lambda>transactionReceipt.
        let inclusion = inclusion_of_receipt receipt observedAt in
        bindO (liftO (verifyParsedOperationReceiptEvidence reference inclusion receipt transactionReceipt)) (\<lambda>verifiedReceipt.
        bindO (readValue (ReadTransaction chainId (re_transactionHash receipt))) (\<lambda>v.
        bindO (liftO (runC (parseTransaction v))) (\<lambda>transaction.
        bindO (requireO (transactionAgrees reference verifiedReceipt transactionReceipt transaction) ReceiptInvalid) (\<lambda>_.
        bindO (readBlock (ReadCanonicalBlock chainId (ve_blockNumber verifiedReceipt)) CanonicalityUnproven) (\<lambda>canonical.
        bindO (requireO (canonicalAgrees verifiedReceipt transaction canonical) CanonicalityUnproven) (\<lambda>_.
        Observe (Some (inclusion, verifiedReceipt, canonical))))))))))))))"

definition finalityReads ::
    "user_operation_reference \<Rightarrow> operation_inclusion \<Rightarrow> jsnum \<Rightarrow> operation_finality option reading" where
  "finalityReads reference inclusion observedAt =
     (let chainId = ur_chainId reference; inclusionNumber = BigInt (in_blockNumber inclusion) in
      bindO (readBlock (ReadFinalizedBlock chainId) FinalityUnproven) (\<lambda>finalized.
      let finalizedNumberValue = BigIntHex (bl_number finalized); finalizedNumber = decimal finalizedNumberValue in
      bindO (requireO (\<not> (finalizedNumberValue = inclusionNumber + 1 \<and> bl_parentHash finalized \<noteq> in_blockHash inclusion))
               FinalityUnproven) (\<lambda>_.
      bindO (readBlock (ReadCanonicalBlock chainId (in_blockNumber inclusion)) FinalityUnproven) (\<lambda>reboundInclusion.
      bindO (requireO (\<not> (bl_hash reboundInclusion \<noteq> in_blockHash inclusion \<or>
                         bl_number reboundInclusion \<noteq> toHex inclusionNumber)) FinalityUnproven) (\<lambda>_.
      if finalizedNumberValue < inclusionNumber then Observe None
      else
        bindO (readBlock (ReadCanonicalBlock chainId finalizedNumber) FinalityUnproven) (\<lambda>reboundFinalized.
        bindO (requireO (\<not> (bl_hash reboundFinalized \<noteq> bl_hash finalized \<or> bl_number reboundFinalized \<noteq> bl_number finalized \<or>
                           (finalizedNumber = in_blockNumber inclusion \<and> bl_hash finalized \<noteq> in_blockHash inclusion)))
                 FinalityUnproven) (\<lambda>_.
        Observe (Some \<lparr>fi_blockNumber = finalizedNumber, fi_blockHash = bl_hash finalized,
          fi_observedAt = time_val observedAt\<rparr>))))))))"

definition readVerifiedFinality ::
    "user_operation_reference \<Rightarrow> operation_inclusion \<Rightarrow> jsnum \<Rightarrow> operation_finality option reading" where
  "readVerifiedFinality reference inclusion observedAt =
     catchO (finalityReads reference inclusion observedAt) (\<lambda>_. Fails (EvidenceFailure FinalityUnproven))"

definition readReplacementReference :: "user_operation_reference \<Rightarrow> user_operation_reference option reading" where
  "readReplacementReference reference =
     bindO (readValue (ReadReplacementCandidate reference)) (\<lambda>v.
     if v = JNull then Observe None
     else
       bindO (liftO (runC (exactRecord v [''userOperationHash''] receipt_invalid))) (\<lambda>candidate.
       bindO (liftO (parseHash (fld candidate ''userOperationHash'') ReceiptInvalid)) (\<lambda>hash.
       bindO (requireO (hash \<noteq> ur_userOperationHash reference) ReceiptInvalid) (\<lambda>_.
       Observe (Some (reference\<lparr>ur_userOperationHash := hash\<rparr>))))))"

definition assertChain :: "int \<Rightarrow> unit reading" where
  "assertChain chainId = bindO (readValue (ReadChainId chainId)) (\<lambda>v. requireO (v = jint chainId) ReceiptInvalid)"

section \<open>Input\<close>

abbreviation ob_err :: "operation_observer_code \<Rightarrow> err" where
  "ob_err \<equiv> OaathOperationObserverError"

definition MAX_TIMEOUT_MS :: int where
  "MAX_TIMEOUT_MS = 60000"

definition captureObserverCapabilities :: "jsval \<Rightarrow> err + unit" where
  "captureObserverCapabilities v =
     (let fail = ob_err Operation_observer_capability_invalid in
      bindE (runC (exactRecord v [''read'', ''close''] fail)) (\<lambda>record.
      guardE (fld record ''read'' = JFunction \<and> fld record ''close'' = JFunction) fail))"

definition timesReadable :: "fields \<Rightarrow> bool" where
  "timesReadable record \<longleftrightarrow>
     \<not> (\<not> isSafeInteger (fld record ''observedAt'') \<or> num_val (fld record ''observedAt'') < 0 \<or>
        \<not> isSafeInteger (fld record ''timeoutMs'') \<or> num_val (fld record ''timeoutMs'') < 1 \<or>
        num_val (fld record ''timeoutMs'') > MAX_TIMEOUT_MS)"

definition number_of :: "jsval \<Rightarrow> jsnum" where
  "number_of v = (case v of JNumber n \<Rightarrow> n | _ \<Rightarrow> JInt 0)"

definition captureObserveInput :: "ext \<Rightarrow> jsval \<Rightarrow> err + (operation \<times> jsnum \<times> int)" where
  "captureObserveInput E v =
     (let fail = ob_err Operation_observer_input_invalid in
      bindE (runC (exactRecord v [''operation'', ''observedAt'', ''timeoutMs''] fail)) (\<lambda>record.
      bindE (guardE (timesReadable record) fail) (\<lambda>_.
      case parseOperation E (fld record ''operation'') of
        Inl _ \<Rightarrow> Inl fail
      | Inr x \<Rightarrow>
          if num_val (fld record ''observedAt'') < oc_updatedAt (op_common x) then Inl fail
          else Inr (x, number_of (fld record ''observedAt''), num_val (fld record ''timeoutMs'')))))"

definition captureReferenceInput ::
    "ext \<Rightarrow> jsval \<Rightarrow> err + (user_operation_reference \<times> jsnum \<times> int \<times> string option)" where
  "captureReferenceInput E v =
     (let fail = ob_err Operation_observer_input_invalid in
      bindE (runC (bindC (captureRecord v fail) (\<lambda>captured.
              exactCapturedRecord captured ([''reference'', ''observedAt'', ''timeoutMs''] @
                (if has_field captured ''transactionHash'' then [''transactionHash''] else [])) fail))) (\<lambda>record.
      let hint = (if has_field record ''transactionHash'' then Some (fld record ''transactionHash'') else None) in
      bindE (guardE (timesReadable record \<and>
               (case hint of None \<Rightarrow> True | Some h \<Rightarrow> fixed_hex 64 h fail \<noteq> Inl fail)) fail) (\<lambda>_.
      case parseUserOperationReference E (fld record ''reference'') of
        Inl e \<Rightarrow> Inl (if e = o_err Operation_address_checksum_invalid
                     then ob_err Operation_observer_address_checksum_invalid else fail)
      | Inr reference \<Rightarrow>
          Inr (reference, number_of (fld record ''observedAt''), num_val (fld record ''timeoutMs''),
               case hint of Some (JString h) \<Rightarrow> Some h | _ \<Rightarrow> None))))"

section \<open>The observer of a reference\<close>

datatype reference_observation =
    ReferencePending pending_reason user_operation_reference
  | ReferenceUnreadable unread_reason user_operation_reference "verified_receipt option"
  | ReferenceIncluded user_operation_reference verified_receipt block_evidence
  | ReferenceDropped user_operation_reference user_operation_reference verified_receipt operation_finality
  | ReferenceFinalized user_operation_reference verified_receipt operation_finality

text \<open>Without a receipt: only a finalized replacement at the same nonce proves a drop.\<close>

definition referenceReplaced :: "user_operation_reference \<Rightarrow> jsnum \<Rightarrow> reference_observation reading" where
  "referenceReplaced reference observedAt =
     (let missing = bindO (assertChain (ur_chainId reference)) (\<lambda>_. Observe (ReferencePending Receipt_missing reference)) in
      bindO (readReplacementReference reference) (\<lambda>candidate.
      case candidate of
        None \<Rightarrow> missing
      | Some replacement \<Rightarrow>
          bindO (readVerifiedInclusion replacement observedAt None) (\<lambda>included.
          case included of
            None \<Rightarrow> missing
          | Some (inclusion, receipt, block) \<Rightarrow>
              bindO (readVerifiedFinality replacement inclusion observedAt) (\<lambda>finality.
              case finality of
                None \<Rightarrow> missing
              | Some f \<Rightarrow>
                  bindO (assertChain (ur_chainId reference)) (\<lambda>_.
                  Observe (ReferenceDropped reference replacement receipt f))))))"

definition referenceIncluded ::
    "user_operation_reference \<Rightarrow> jsnum \<Rightarrow> operation_inclusion \<Rightarrow> verified_receipt \<Rightarrow> block_evidence \<Rightarrow>
     reference_observation reading" where
  "referenceIncluded reference observedAt inclusion receipt block =
     bindO (catchO (bindO (readVerifiedFinality reference inclusion observedAt) (\<lambda>f. Observe (Inr f)))
              (\<lambda>_. bindO (assertChain (ur_chainId reference)) (\<lambda>_.
                   Observe (Inl (ReferenceUnreadable FinalityUnproven reference (Some receipt)))))) (\<lambda>r.
     case r of
       Inl result \<Rightarrow> Observe result
     | Inr finality \<Rightarrow>
         bindO (assertChain (ur_chainId reference)) (\<lambda>_.
         Observe (case finality of
                    None \<Rightarrow> ReferenceIncluded reference receipt block
                  | Some f \<Rightarrow> ReferenceFinalized reference receipt f)))"

definition observeReferenceReads ::
    "user_operation_reference \<Rightarrow> jsnum \<Rightarrow> string option \<Rightarrow> reference_observation reading" where
  "observeReferenceReads reference observedAt transactionHash =
     catchO
       (bindO (assertChain (ur_chainId reference)) (\<lambda>_.
        bindO (readVerifiedInclusion reference observedAt transactionHash) (\<lambda>verified.
        case verified of
          None \<Rightarrow> referenceReplaced reference observedAt
        | Some (inclusion, receipt, block) \<Rightarrow> referenceIncluded reference observedAt inclusion receipt block)))
       (\<lambda>error.
        Observe (case error of
                   TimeoutFailure \<Rightarrow> ReferencePending Timeout reference
                 | ProviderFailure \<Rightarrow> ReferenceUnreadable ProviderUnavailable reference None
                 | EvidenceFailure reason \<Rightarrow> ReferenceUnreadable reason reference None
                 | OtherError _ \<Rightarrow> ReferenceUnreadable ReceiptInvalid reference None))"

definition liftErr :: "err + 'a \<Rightarrow> 'a reading" where
  "liftErr r = (case r of Inl e \<Rightarrow> Fails (OtherError e) | Inr x \<Rightarrow> Observe x)"

definition observeReference :: "ext \<Rightarrow> jsval \<Rightarrow> reference_observation reading" where
  "observeReference E v =
     bindO (liftErr (captureReferenceInput E v)) (\<lambda>(reference, observedAt, timeoutMs, transactionHash).
     observeReferenceReads reference observedAt transactionHash)"

section \<open>The observer of an operation\<close>

definition reference_of :: "operation_identity \<Rightarrow> user_operation_reference" where
  "reference_of i = \<lparr>ur_chainId = oi_chainId i, ur_entryPoint = oi_entryPoint i, ur_account = oi_account i,
     ur_nonce = oi_nonce i, ur_userOperationHash = oi_userOperationHash i\<rparr>"

definition weakPending :: "ext \<Rightarrow> operation \<Rightarrow> jsnum \<Rightarrow> pending_reason \<Rightarrow> observation_result reading" where
  "weakPending E x observedAt reason =
     bindO (liftErr (applyObserved E x ''record_pending''
              [(''observedAt'', JNumber observedAt), (''reason'', JString (pending_reason_name reason))]))
       (\<lambda>y. Observe (ObsPending reason y))"

definition weakUnreadable :: "ext \<Rightarrow> operation \<Rightarrow> jsnum \<Rightarrow> unread_reason \<Rightarrow> observation_result reading" where
  "weakUnreadable E x observedAt reason =
     bindO (liftErr (applyObserved E x ''record_unreadable''
              [(''observedAt'', JNumber observedAt), (''reason'', JString (unread_reason_name reason))]))
       (\<lambda>y. Observe (ObsUnreadable reason y))"

text \<open>The objects the observer builds, with its \<open>observedAt\<close> as it was given.\<close>

definition observed_inclusion :: "ref \<Rightarrow> operation_inclusion \<Rightarrow> jsnum \<Rightarrow> jsval" where
  "observed_inclusion p i observedAt = mk_obj p
     [(''transactionHash'', JString (in_transactionHash i)), (''blockNumber'', JString (in_blockNumber i)),
      (''blockHash'', JString (in_blockHash i)), (''outcome'', JString (outcome_name (in_outcome i))),
      (''observedAt'', JNumber observedAt)]"

definition observed_finality :: "ref \<Rightarrow> operation_finality \<Rightarrow> jsnum \<Rightarrow> jsval" where
  "observed_finality p f observedAt = mk_obj p
     [(''blockNumber'', JString (fi_blockNumber f)), (''blockHash'', JString (fi_blockHash f)),
      (''observedAt'', JNumber observedAt)]"

definition observed_drop ::
    "ref \<Rightarrow> user_operation_reference \<Rightarrow> operation_inclusion \<Rightarrow> operation_finality \<Rightarrow> jsnum \<Rightarrow> jsval" where
  "observed_drop p reference inclusion finality observedAt = mk_obj p
     [(''kind'', JString ''finalized_nonce_replacement''),
      (''replacement'', mk_obj (at p ''replacement'')
        [(''identity'', reference_literal (at (at p ''replacement'') ''identity'') reference),
         (''inclusion'', observed_inclusion (at (at p ''replacement'') ''inclusion'') inclusion observedAt),
         (''finality'', observed_finality (at (at p ''replacement'') ''finality'') finality observedAt)])]"

definition observed_supersession :: "ref \<Rightarrow> string \<Rightarrow> string \<Rightarrow> string \<Rightarrow> jsnum \<Rightarrow> jsval" where
  "observed_supersession p observedNonce blockNumber blockHash observedAt = mk_obj p
     [(''kind'', JString ''entry_point_nonce_advanced''), (''observedNonce'', JString observedNonce),
      (''blockNumber'', JString blockNumber), (''blockHash'', JString blockHash), (''observedAt'', JNumber observedAt)]"

definition verifyInclusion ::
    "operation \<Rightarrow> jsnum \<Rightarrow> user_operation_reference \<Rightarrow> operation_inclusion option reading" where
  "verifyInclusion x observedAt reference =
     (let hint = (if ur_userOperationHash reference = oi_userOperationHash (oc_identity (op_common x))
                  then (case oc_submission (op_common x) of Some (HandleOps h) \<Rightarrow> Some h | _ \<Rightarrow> None)
                  else None) in
      bindO (readVerifiedInclusion reference observedAt hint) (\<lambda>verified. Observe (map_option fst verified)))"

definition sequenceAdvanced :: "int \<Rightarrow> int \<Rightarrow> bool" where
  "sequenceAdvanced observed own \<longleftrightarrow>
     \<not> (drop_bit 64 observed \<noteq> drop_bit 64 own \<or> (observed AND (push_bit 64 1 - 1)) \<le> (own AND (push_bit 64 1 - 1)))"

definition supersessionReads :: "ext \<Rightarrow> operation \<Rightarrow> jsnum \<Rightarrow> observation_result option reading" where
  "supersessionReads E x observedAt =
     (let identity = oc_identity (op_common x) in
      bindO (readBlock (ReadFinalizedBlock (oi_chainId identity)) FinalityUnproven) (\<lambda>finalized.
      let blockNumber = decimal (BigIntHex (bl_number finalized)) in
      bindO (readValue (ReadEntryPointNonce (oi_chainId identity) (oi_entryPoint identity) (oi_account identity)
               (oi_nonce identity) blockNumber)) (\<lambda>nonceValue.
      case nonceValue of
        JString s \<Rightarrow>
          bindO (liftO (parseQuantity nonceValue ReceiptInvalid)) (\<lambda>observed.
          let observedNonce = decimal observed in
          if \<not> sequenceAdvanced (BigInt observedNonce) (BigInt (oi_nonce identity)) then Observe None
          else
            bindO (readBlock (ReadCanonicalBlock (oi_chainId identity) blockNumber) FinalityUnproven) (\<lambda>rebound.
            if bl_hash rebound \<noteq> bl_hash finalized \<or> bl_number rebound \<noteq> bl_number finalized then Observe None
            else
              bindO (liftErr (applyObserved E x ''record_superseded''
                       [(''supersession'', observed_supersession [PName ''supersession''] observedNonce blockNumber
                          (bl_hash finalized) observedAt)])) (\<lambda>y.
              case op_state y of
                Superseded _ _ _ \<Rightarrow> Observe (Some (ObsSuperseded y))
              | _ \<Rightarrow> Observe None)))
      | _ \<Rightarrow> Observe None)))"

definition verifySupersession :: "ext \<Rightarrow> operation \<Rightarrow> jsnum \<Rightarrow> observation_result option reading" where
  "verifySupersession E x observedAt =
     (case op_state x of
        SubmissionAttempted _ \<Rightarrow> catchO (supersessionReads E x observedAt) (\<lambda>_. Observe None)
      | Submitted _ _ \<Rightarrow> catchO (supersessionReads E x observedAt) (\<lambda>_. Observe None)
      | _ \<Rightarrow> Observe None)"

text \<open>The record with its inclusion; \<open>Inl\<close> is an observation returned instead.\<close>

definition includeVerified ::
    "ext \<Rightarrow> operation \<Rightarrow> jsnum \<Rightarrow> bool \<Rightarrow> operation_inclusion \<Rightarrow> (observation_result + operation) reading" where
  "includeVerified E x observedAt replacement inclusion =
     (if replacement then Observe (Inr x)
      else case op_state x of
        Included _ _ prior \<Rightarrow>
          if \<not> sameOccurrence prior inclusion
          then bindO (weakUnreadable E x observedAt ReceiptInvalid) (\<lambda>r. Observe (Inl r))
          else Observe (Inr x)
      | _ \<Rightarrow>
          bindO (liftErr (applyObserved E x ''record_included''
                   [(''inclusion'', observed_inclusion [PName ''inclusion''] inclusion observedAt)]))
            (\<lambda>y. Observe (Inr y)))"

definition verifyFinality ::
    "ext \<Rightarrow> operation \<Rightarrow> jsnum \<Rightarrow> user_operation_reference \<Rightarrow> operation_inclusion \<Rightarrow>
     (observation_result + operation_finality) reading" where
  "verifyFinality E y observedAt reference inclusion =
     (let unproven = bindO (weakUnreadable E y observedAt FinalityUnproven) (\<lambda>r. Observe (Inl r)) in
      catchO
        (bindO (readVerifiedFinality reference inclusion observedAt) (\<lambda>finality.
         case finality of None \<Rightarrow> unproven | Some f \<Rightarrow> Observe (Inr f)))
        (\<lambda>_. unproven))"

definition settleDropped ::
    "ext \<Rightarrow> operation \<Rightarrow> jsnum \<Rightarrow> user_operation_reference \<Rightarrow> operation_inclusion \<Rightarrow> operation_finality \<Rightarrow>
     observation_result reading" where
  "settleDropped E x observedAt reference inclusion finality =
     bindO (liftErr (applyObserved E x ''record_dropped''
              [(''drop'', observed_drop [PName ''drop''] reference inclusion finality observedAt)])) (\<lambda>y.
     case op_state y of
       Dropped _ _ _ _ \<Rightarrow> Observe (ObsDropped y)
     | _ \<Rightarrow> Fails receipt_invalid)"

definition settleFinalized :: "ext \<Rightarrow> operation \<Rightarrow> jsnum \<Rightarrow> operation_finality \<Rightarrow> observation_result reading" where
  "settleFinalized E y observedAt finality =
     bindO (liftErr (applyObserved E y ''record_finalized''
              [(''finality'', observed_finality [PName ''finality''] finality observedAt)])) (\<lambda>z.
     case op_state z of
       Finalized _ _ _ _ \<Rightarrow> Observe (ObsFinalized z)
     | _ \<Rightarrow> Fails receipt_invalid)"

definition settleIncluded ::
    "ext \<Rightarrow> operation \<Rightarrow> jsnum \<Rightarrow> user_operation_reference \<Rightarrow> bool \<Rightarrow> operation_inclusion \<Rightarrow>
     observation_result reading" where
  "settleIncluded E x observedAt reference replacement inclusion =
     bindO (includeVerified E x observedAt replacement inclusion) (\<lambda>included.
     case included of
       Inl result \<Rightarrow> Observe result
     | Inr y \<Rightarrow>
         bindO (verifyFinality E y observedAt reference inclusion) (\<lambda>finality.
         case finality of
           Inl result \<Rightarrow> Observe result
         | Inr f \<Rightarrow>
             if replacement then settleDropped E x observedAt reference inclusion f
             else settleFinalized E y observedAt f))"

definition observationReads :: "ext \<Rightarrow> operation \<Rightarrow> jsnum \<Rightarrow> observation_result reading" where
  "observationReads E x observedAt =
     (let reference = reference_of (oc_identity (op_common x)) in
      bindO (assertChain (ur_chainId reference)) (\<lambda>_.
      bindO (verifyInclusion x observedAt reference) (\<lambda>inclusion.
      case inclusion of
        Some i \<Rightarrow> settleIncluded E x observedAt reference False i
      | None \<Rightarrow>
          bindO (readReplacementReference reference) (\<lambda>candidate.
          case candidate of
            None \<Rightarrow>
              bindO (verifySupersession E x observedAt) (\<lambda>superseded.
              case superseded of
                Some result \<Rightarrow> Observe result
              | None \<Rightarrow> weakPending E x observedAt Receipt_missing)
          | Some replacement \<Rightarrow>
              bindO (verifyInclusion x observedAt replacement) (\<lambda>inclusion.
              case inclusion of
                None \<Rightarrow> weakPending E x observedAt Receipt_missing
              | Some i \<Rightarrow> settleIncluded E x observedAt replacement True i)))))"

definition observeUnsettled :: "ext \<Rightarrow> operation \<Rightarrow> jsnum \<Rightarrow> observation_result reading" where
  "observeUnsettled E x observedAt =
     catchO (observationReads E x observedAt) (\<lambda>error.
       case error of
         TimeoutFailure \<Rightarrow> weakPending E x observedAt Timeout
       | ProviderFailure \<Rightarrow> weakUnreadable E x observedAt ProviderUnavailable
       | EvidenceFailure reason \<Rightarrow> weakUnreadable E x observedAt reason
       | OtherError _ \<Rightarrow> weakUnreadable E x observedAt ReceiptInvalid)"

definition terminalResult :: "operation \<Rightarrow> observation_result option" where
  "terminalResult x =
     (case op_state x of
        Finalized _ _ _ _ \<Rightarrow> Some (ObsFinalized x)
      | Superseded _ _ _ \<Rightarrow> Some (ObsSuperseded x)
      | Abandoned _ _ \<Rightarrow> Some (ObsAbandoned x)
      | Dropped _ _ _ _ \<Rightarrow> Some (ObsDropped x)
      | _ \<Rightarrow> None)"

definition observerObserve :: "ext \<Rightarrow> jsval \<Rightarrow> observation_result reading" where
  "observerObserve E v =
     bindO (liftErr (captureObserveInput E v)) (\<lambda>(x, observedAt, timeoutMs).
     case terminalResult x of
       Some result \<Rightarrow> Observe result
     | None \<Rightarrow>
         if op_state x = Prepared then Fails (OtherError (ob_err Operation_observer_input_invalid))
         else observeUnsettled E x observedAt)"

section \<open>Closing an observer\<close>

record observer_state =
  os_closed :: bool
  os_closing :: bool
  os_active :: nat
  os_waiting :: bool

definition createdObserver :: observer_state where
  "createdObserver = \<lparr>os_closed = False, os_closing = False, os_active = 0, os_waiting = False\<rparr>"

definition beginObservation :: "observer_state \<Rightarrow> err + observer_state" where
  "beginObservation s =
     (if os_closed s \<or> os_closing s then Inl (ob_err Operation_observer_closed) else Inr (s\<lparr>os_active := os_active s + 1\<rparr>))"

definition endObservation :: "observer_state \<Rightarrow> observer_state" where
  "endObservation s =
     (let n = os_active s - 1 in s\<lparr>os_active := n, os_waiting := (if n = 0 then False else os_waiting s)\<rparr>)"

definition requestObserverClose :: "observer_state \<Rightarrow> observer_state" where
  "requestObserverClose s =
     (if os_closed s \<or> os_closing s then s else s\<lparr>os_closing := True, os_waiting := os_active s > 0\<rparr>)"

definition finishObserverClose :: "observer_state \<Rightarrow> bool \<Rightarrow> observer_state \<times> (err + unit)" where
  "finishObserverClose s resolved =
     (if resolved then (s\<lparr>os_closed := True\<rparr>, Inr ())
      else (s\<lparr>os_closing := False\<rparr>, Inl (ob_err Operation_observer_close_failed)))"

end
