(* ===== verification/Observer_Properties.thy ===== *)
theory Observer_Properties
  imports Operation_Observer Runner_Safety
begin

text \<open>
  What the observers of \<open>Operation_Observer\<close> report: the execution window a verified receipt exposes, the
  evidence behind every settled observation, and that the runner accepts what its observer returns.
\<close>

section \<open>Quantities\<close>

lemma digit_below: "0 \<le> n \<Longrightarrow> n < 16 \<Longrightarrow> list_all P (map int [0..<16]) \<Longrightarrow> P n" for n :: int
  using bspec [of "set [0..<16]" "\<lambda>m. P (int m)" "nat n"] by (auto simp: list_all_iff)

lemma digit_char_val: "0 \<le> n \<Longrightarrow> n < 16 \<Longrightarrow> hex_digit_val (digit_char n) = n"
  by (rule digit_below) (assumption+, code_simp)

lemma digits_read: "list_all (\<lambda>n. n < 10 \<longrightarrow> digit_val (digit_char n) = n) (map int [0..<16])"
  by code_simp

lemma digit_char_dec: "0 \<le> n \<Longrightarrow> n < 10 \<Longrightarrow> digit_val (digit_char n) = n"
  using digit_below [of n "\<lambda>n. n < 10 \<longrightarrow> digit_val (digit_char n) = n"] digits_read by simp

lemma to_base_value:
  assumes "2 \<le> b" "\<And>n. 0 \<le> n \<Longrightarrow> n < b \<Longrightarrow> val (digit_char n) = n" "0 \<le> n"
  shows "foldl (\<lambda>acc c. b * acc + val c) 0 (to_base b n) = n"
  using assms
proof (induction b n rule: to_base.induct)
  case (1 b n)
  then show ?case by (cases "n < b") (auto simp: pos_imp_zdiv_nonneg_iff)
qed

declare to_base.simps [simp del]

lemma BigIntHex_toHex [simp]: "0 \<le> n \<Longrightarrow> BigIntHex (toHex n) = n"
  using to_base_value [of 16 hex_digit_val n] by (simp add: BigIntHex_def toHex_def digit_char_val)

lemma BigInt_decimal [simp]: "0 \<le> n \<Longrightarrow> BigInt (decimal n) = n"
  using to_base_value [of 10 digit_val n] by (simp add: BigInt_def decimal_def digit_char_dec)

lemma decimal_inj: "0 \<le> m \<Longrightarrow> 0 \<le> n \<Longrightarrow> decimal m = decimal n \<longleftrightarrow> m = n"
  using BigInt_decimal by metis

lemma hex_digit_nonneg: "hex_lower c \<Longrightarrow> 0 \<le> hex_digit_val c"
proof -
  have "list_all (\<lambda>c. 0 \<le> hex_digit_val c) ''0123456789abcdef''" by code_simp
  then show "hex_lower c \<Longrightarrow> 0 \<le> hex_digit_val c" unfolding hex_lower_def list_all_iff by blast
qed

lemma hex_digits_nonneg: "list_all hex_lower s \<Longrightarrow> 0 \<le> acc \<Longrightarrow> 0 \<le> foldl (\<lambda>a c. 16 * a + hex_digit_val c) acc s"
  by (induction s arbitrary: acc) (auto simp: hex_digit_nonneg)

lemma QUANTITY_nonneg: "QUANTITY s \<Longrightarrow> 0 \<le> BigIntHex s"
  by (auto simp: QUANTITY_def BigIntHex_def intro: hex_digits_nonneg)

lemma parseQuantity_Inr: "parseQuantity v r = Inr n \<longleftrightarrow> (\<exists>s. v = JString s \<and> QUANTITY s \<and> n = BigIntHex s)"
  by (auto simp: parseQuantity_def split: jsval.splits if_splits)

lemma quantityField_value: "quantityField v r = Inr s \<Longrightarrow> 0 \<le> BigIntHex s \<and> (\<exists>n. parseQuantity v r = Inr n \<and> BigIntHex s = n)"
  by (auto simp: quantityField_def bindE_Inr parseQuantity_Inr QUANTITY_nonneg)

section \<open>The execution window\<close>

lemma targetEvents_single:
  assumes "targetEvents reference logs = [(i, t)]"
  shows "i < length logs" "logs ! i = t" "isTargetEvent reference t" "\<And>j. j < length logs \<Longrightarrow> j \<noteq> i \<Longrightarrow> \<not> isTargetEvent reference (logs ! j)"
proof -
  have set: "(j, l) \<in> set (targetEvents reference logs) \<longleftrightarrow> j < length logs \<and> logs ! j = l \<and> isTargetEvent reference l" for j l
    by (auto simp: targetEvents_def in_set_enumerate_eq)
  from set [of i t] show "i < length logs" "logs ! i = t" "isTargetEvent reference t" by (auto simp: assms)
  show "\<not> isTargetEvent reference (logs ! j)" if "j < length logs" "j \<noteq> i" for j
    using set [of j "logs ! j"] that by (auto simp: assms)
qed

lemma findBoundary_nearest:
  assumes "findBoundary logs entryPoint i = Inr (Some b)"
  shows "b < i \<and> isEntryPointBoundary (logs ! b) entryPoint = Inr True \<and>
    (\<forall>j. b < j \<and> j < i \<longrightarrow> isEntryPointBoundary (logs ! j) entryPoint = Inr False)"
  using assms
proof (induction i)
  case (Suc i)
  from Suc.prems obtain c where c: "isEntryPointBoundary (logs ! i) entryPoint = Inr c"
    "(if c then Inr (Some i) else findBoundary logs entryPoint i) = Inr (Some b)"
    by (auto simp: bindE_Inr)
  show ?case
  proof (cases c)
    case True
    with c show ?thesis by auto
  next
    case False
    with c Suc.IH show ?thesis by (auto simp: less_Suc_eq)
  qed
qed simp

lemma logsAgree_sorted:
  assumes "logsAgree receipt p logs"
  shows "sorted_wrt (<) (map (BigIntHex \<circ> le_logIndex) logs) \<and>
    (case p of None \<Rightarrow> True | Some n \<Rightarrow> list_all (\<lambda>l. n < BigIntHex (le_logIndex l)) logs) \<and>
    list_all (\<lambda>l. \<not> le_removed l \<and> le_transactionHash l = tr_transactionHash receipt \<and> le_blockHash l = tr_blockHash receipt) logs"
  using assms
proof (induction logs arbitrary: p)
  case (Cons log logs)
  from Cons.prems have head: "\<not> le_removed log" "le_transactionHash log = tr_transactionHash receipt"
    "le_blockHash log = tr_blockHash receipt" "\<And>n. p = Some n \<Longrightarrow> n < BigIntHex (le_logIndex log)"
    and tail: "logsAgree receipt (Some (BigIntHex (le_logIndex log))) logs" by (auto simp: Let_def)
  from Cons.IH [OF tail] head show ?case by (cases p) (fastforce simp: list_all_iff)+
qed (simp split: option.split)

text \<open>
  The window of a verified receipt: from the nearest EntryPoint boundary up to the operation's own event,
  which is the only one of its hash, in a transaction whose logs are in order and belong to it.
\<close>

definition execution_window :: "user_operation_reference \<Rightarrow> transaction_receipt \<Rightarrow> verified_receipt \<Rightarrow> bool" where
  "execution_window reference receipt verified \<longleftrightarrow>
     (\<exists>before b mid t after. tr_logs receipt = before @ [b] @ mid @ [t] @ after \<and> ve_logs verified = mid @ [t] \<and>
        isEntryPointBoundary b (ur_entryPoint reference) = Inr True \<and>
        list_all (\<lambda>l. isEntryPointBoundary l (ur_entryPoint reference) = Inr False) mid \<and>
        isTargetEvent reference t \<and> \<not> list_ex (isTargetEvent reference) (before @ [b] @ mid @ after) \<and>
        topic t 2 = Some (''0x'' @ replicate 24 (CHR ''0'') @ drop 2 (ur_account reference)) \<and>
        decimal (data_word t 0) = ur_nonce reference \<and>
        ve_outcome verified = (if data_word t 1 = 1 then Success else Reverted))"

lemma split_window:
  assumes "b < i" "i < length logs"
  shows "logs = take b logs @ [logs ! b] @ take (i - (b + 1)) (drop (b + 1) logs) @ [logs ! i] @ drop (i + 1) logs"
    (is "_ = ?r") and "take (i + 1 - (b + 1)) (drop (b + 1) logs) = take (i - (b + 1)) (drop (b + 1) logs) @ [logs ! i]"
proof -
  have "drop (b + 1) logs ! (i - (b + 1)) = logs ! i" using assms by simp
  moreover have "i + 1 - (b + 1) = Suc (i - (b + 1))" using assms by simp
  ultimately show mid: "take (i + 1 - (b + 1)) (drop (b + 1) logs) = take (i - (b + 1)) (drop (b + 1) logs) @ [logs ! i]"
    using assms by (simp add: take_Suc_conv_app_nth)
  have "logs = take b logs @ logs ! b # drop (b + 1) logs" using assms by (simp add: id_take_nth_drop)
  also have "drop (b + 1) logs = take (i + 1 - (b + 1)) (drop (b + 1) logs) @ drop (i + 1) logs"
    using append_take_drop_id [of "i + 1 - (b + 1)" "drop (b + 1) logs"] assms by simp
  finally show "logs = ?r" unfolding mid by simp
qed

lemma verify_window:
  assumes "verifyParsedOperationReceiptEvidence reference inclusion receipt transactionReceipt = Inr verified"
  shows "execution_window reference transactionReceipt verified \<and>
    sorted_wrt (<) (map (BigIntHex \<circ> le_logIndex) (tr_logs transactionReceipt)) \<and>
    list_all (\<lambda>l. \<not> le_removed l \<and> le_transactionHash l = in_transactionHash inclusion \<and> le_blockHash l = in_blockHash inclusion)
      (tr_logs transactionReceipt) \<and>
    tr_status transactionReceipt = ''0x1''"
proof -
  let ?logs = "tr_logs transactionReceipt" and ?ep = "ur_entryPoint reference"
  from assms obtain i t event b where agrees: "receiptAgrees reference inclusion receipt transactionReceipt"
    "logsAgree transactionReceipt None ?logs" and target: "targetEvents reference ?logs = [(i, t)]"
    and event: "parseEvent t reference = Inr event" "re_success receipt = ev_success event"
    and b: "findBoundary ?logs ?ep i = Inr (Some b)"
    and verified: "ve_logs verified = take (i + 1 - (b + 1)) (drop (b + 1) ?logs)" "ve_outcome verified = in_outcome inclusion"
    by (auto simp: verifyParsedOperationReceiptEvidence_def bindE_Inr split: list.splits prod.splits option.splits)
  note t = targetEvents_single [OF target]
  note near = findBoundary_nearest [OF b]
  define mid where "mid = take (i - (b + 1)) (drop (b + 1) ?logs)"
  have logs: "?logs = take b ?logs @ [?logs ! b] @ mid @ [t] @ drop (i + 1) ?logs" and window: "ve_logs verified = mid @ [t]"
    using split_window [of b i ?logs] near t(1,2) verified(1) by (simp_all add: mid_def)
  have len: "length mid = i - (b + 1)" "length (take b ?logs) = b" using near t(1) by (simp_all add: mid_def)
  have "list_all (\<lambda>l. isEntryPointBoundary l ?ep = Inr False) mid"
    using near t(1) by (auto simp: list_all_length mid_def)
  moreover have "\<not> isTargetEvent reference l" if "l \<in> set (take b ?logs @ [?logs ! b] @ mid @ drop (i + 1) ?logs)" for l
  proof -
    from that consider j where "j < b" "l = ?logs ! j" | "l = ?logs ! b" | j where "j < i - (b + 1)" "l = ?logs ! (b + 1 + j)"
      | j where "j < length ?logs - (i + 1)" "l = ?logs ! (i + 1 + j)"
      using near t(1) by (auto simp: in_set_conv_nth mid_def)
    then show ?thesis using t(4) near t(1) by cases auto
  qed
  moreover have "topic t 2 = Some (''0x'' @ replicate 24 (CHR ''0'') @ drop 2 (ur_account reference))"
    "decimal (data_word t 0) = ur_nonce reference" "ev_success event = (data_word t 1 = 1)"
    using event(1) by (auto simp: parseEvent_def split: if_splits)
  moreover have "in_outcome inclusion = (if re_success receipt then Success else Reverted)"
    using agrees(1) by (auto simp: receiptAgrees_def)
  ultimately have "execution_window reference transactionReceipt verified"
    unfolding execution_window_def using logs window near t(3) event(2) verified(2)
    by (intro exI [of _ "take b ?logs"] exI [of _ "?logs ! b"] exI [of _ mid] exI [of _ t] exI [of _ "drop (i + 1) ?logs"])
      (simp add: list_ex_iff)
  then show ?thesis
    using logsAgree_sorted [OF agrees(2)] agrees(1) by (auto simp: receiptAgrees_def list_all_iff)
qed

section \<open>What an observation records\<close>

lemma captureRecord_names: "captureRecord (mk_obj p kvs) e c = Inr (fs, c') \<Longrightarrow> fs = names kvs"
  by (auto simp: mk_obj_def names_def collectFields_names [unfolded names_def] split: if_splits option.splits)

lemma exactRecord_names: "exactRecord (mk_obj p kvs) keys e c = Inr (fs, c') \<Longrightarrow> fs = names kvs"
  by (auto simp: exactRecord_def exactCapturedRecord_def elim!: bindC_InrE dest!: captureRecord_names split: if_splits)

lemma observed_transition:
  assumes "ext_ok E" "wf_operation x" "applyObserved E x ty rest = Inr y"
  obtains tr where "captureTransition E (transition_literal ty (oc_identity (op_common x)) rest) = Inr tr"
    "ot_identity tr = oc_identity (op_common x)" "applyTransition x tr = Inr y"
  using assms parseOperation_literal [OF assms(1,2)]
  by (auto simp: applyObserved_def applyVerifiedOperationObservation_def advanceParsedOperation_def bindE_Inr split: if_splits)

lemma o_safeInteger_time: "o_safeInteger (JNumber t) code 0 = Inr n \<longleftrightarrow> t = JInt n \<and> int_ok 0 n"
  by (cases t) (auto simp: o_safeInteger_def safe_integer_def int_ok_def MAX_SAFE_INTEGER_def)

lemma observed_inclusion_parsed:
  assumes "parseInclusion code (observed_inclusion p i t) c = Inr (j, c')" "in_observedAt i = time_val t"
  shows "j = i \<and> t = JInt (in_observedAt i)"
  using assms unfolding parseInclusion_def observed_inclusion_def
  by (cases "in_outcome i")
    (auto elim!: bindC_InrE dest!: exactRecord_names
      simp: js_simps o_hash_def o_uint256_def o_safeInteger_time time_val_def literal_of_Inr outcomes_def outcome_name_def)

lemma observed_finality_parsed:
  assumes "parseFinality code (observed_finality p f t) c = Inr (g, c')" "fi_observedAt f = time_val t"
  shows "g = f \<and> t = JInt (fi_observedAt f)"
  using assms unfolding parseFinality_def observed_finality_def
  by (auto elim!: bindC_InrE dest!: exactRecord_names simp: js_simps o_hash_def o_uint256_def o_safeInteger_time time_val_def)

lemma observed_supersession_parsed:
  assumes "parseSupersession identity code (observed_supersession p nonce number hash t) c = Inr (s, c')"
  shows "s = \<lparr>su_observedNonce = nonce, su_blockNumber = number, su_blockHash = hash, su_observedAt = time_val t\<rparr> \<and>
    t = JInt (time_val t)"
  using assms unfolding parseSupersession_def observed_supersession_def
  by (auto elim!: bindC_InrE dest!: exactRecord_names simp: js_simps o_hash_def o_uint256_def o_safeInteger_time time_val_def)

lemma reference_parsed:
  assumes "ext_ok E" "wf_reference r" "captureUserOperationReference E code (reference_literal p r) c = Inr (s, c')"
  shows "s = r"
  using assms unfolding captureUserOperationReference_def reference_literal_def
  by (auto elim!: bindC_InrE dest!: exactRecord_names simp: js_simps o_field_defs wf_reference_def)

lemma observed_drop_parsed:
  assumes "ext_ok E" "wf_reference r" "parseDrop identity E code (observed_drop p r i f t) c = Inr (d, c')"
    and "in_observedAt i = time_val t" "fi_observedAt f = time_val t"
  shows "d = \<lparr>de_identity = r, de_inclusion = i, de_finality = f\<rparr> \<and> t = JInt (time_val t)"
proof -
  from assms(3) have "\<exists>q q' q'' c1 c2 c3 c4 c5 c6 xr xi xf.
      captureUserOperationReference E code (reference_literal q r) c1 = Inr (xr, c2) \<and>
      parseInclusion code (observed_inclusion q' i t) c3 = Inr (xi, c4) \<and>
      parseFinality code (observed_finality q'' f t) c5 = Inr (xf, c6) \<and>
      d = \<lparr>de_identity = xr, de_inclusion = xi, de_finality = xf\<rparr>"
    unfolding parseDrop_def observed_drop_def captureReplacement_def
    apply (elim bindC_InrE)
    apply (drule exactRecord_names, simp add: js_simps)
    apply (drule exactRecord_names, simp add: js_simps)
    apply blast
    done
  with reference_parsed [OF assms(1,2)] observed_inclusion_parsed [OF _ assms(4)] observed_finality_parsed [OF _ assms(5)] assms(4)
  show ?thesis by metis
qed

text \<open>The transition captured from each object the observer builds.\<close>

lemmas captured_names = captureRecord_names exactRecord_names

lemma captured_weak:
  "captureTransition E (transition_literal ''record_pending'' own
     [(''observedAt'', JNumber t), (''reason'', JString (pending_reason_name r))]) = Inr tr \<Longrightarrow>
   \<exists>i. tr = Record_pending i (time_val t) r \<and> t = JInt (time_val t)"
  "captureTransition E (transition_literal ''record_unreadable'' own
     [(''observedAt'', JNumber t), (''reason'', JString (unread_reason_name q))]) = Inr tr \<Longrightarrow>
   \<exists>i. tr = Record_unread i (time_val t) q \<and> t = JInt (time_val t)"
  unfolding captureTransition_def runC_Inr parseTransition_def transition_literal_def
  by (auto elim!: bindC_InrE dest!: captured_names simp: js_simps o_safeInteger_time time_val_def literal_of_Inr
      captureRecordPending_def captureRecordUnread_def Let_def pending_reason_name_def unread_reason_name_def
      pending_reasons_def unread_reasons_def split: if_splits pending_reason.splits unread_reason.splits)

lemma captured_inclusion:
  assumes "captureTransition E (transition_literal ''record_included'' own [(''inclusion'', observed_inclusion p i t)]) = Inr tr"
    and "in_observedAt i = time_val t"
  shows "\<exists>j. tr = Record_included j i \<and> t = JInt (time_val t)"
  using assms unfolding captureTransition_def runC_Inr parseTransition_def transition_literal_def
  by (auto elim!: bindC_InrE dest!: captured_names observed_inclusion_parsed
      simp: js_simps captureRecordIncluded_def Let_def split: if_splits)

lemma captured_finality:
  assumes "captureTransition E (transition_literal ''record_finalized'' own [(''finality'', observed_finality p f t)]) = Inr tr"
    and "fi_observedAt f = time_val t"
  shows "\<exists>j. tr = Record_finalized j f \<and> t = JInt (time_val t)"
  using assms unfolding captureTransition_def runC_Inr parseTransition_def transition_literal_def
  by (auto elim!: bindC_InrE dest!: captured_names observed_finality_parsed
      simp: js_simps captureRecordFinalized_def Let_def split: if_splits)

lemma captured_drop:
  assumes "ext_ok E" "wf_reference r"
    and "captureTransition E (transition_literal ''record_dropped'' own [(''drop'', observed_drop p r i f t)]) = Inr tr"
    and "in_observedAt i = time_val t" "fi_observedAt f = time_val t"
  shows "\<exists>j. tr = Record_dropped j \<lparr>de_identity = r, de_inclusion = i, de_finality = f\<rparr> \<and> t = JInt (time_val t)"
  using assms unfolding captureTransition_def runC_Inr parseTransition_def transition_literal_def
  by (auto elim!: bindC_InrE dest!: captured_names observed_drop_parsed [OF assms(1,2)]
      simp: js_simps captureRecordDropped_def Let_def split: if_splits)

lemma captured_supersession:
  assumes "captureTransition E (transition_literal ''record_superseded'' own
      [(''supersession'', observed_supersession p nonce number hash t)]) = Inr tr"
  shows "\<exists>j. tr = Record_superseded j \<lparr>su_observedNonce = nonce, su_blockNumber = number, su_blockHash = hash,
    su_observedAt = time_val t\<rparr> \<and> t = JInt (time_val t)"
  using assms unfolding captureTransition_def runC_Inr parseTransition_def transition_literal_def
  by (auto elim!: bindC_InrE dest!: captured_names observed_supersession_parsed
      simp: js_simps captureRecordSuperseded_def Let_def split: if_splits)

section \<open>Traces of a reading\<close>

type_synonym read_trace = "(read_request \<times> provider_answer) list"

text \<open>The reading asks exactly the requests of the trace, gets these answers and ends with the result.\<close>

primrec yields :: "'r reading \<Rightarrow> read_trace \<Rightarrow> observe_failure + 'r \<Rightarrow> bool" where
  "yields (Observe x) tr r \<longleftrightarrow> tr = [] \<and> r = Inr x"
| "yields (Fails e) tr r \<longleftrightarrow> tr = [] \<and> r = Inl e"
| "yields (Read q f) tr r \<longleftrightarrow> (case tr of [] \<Rightarrow> False | (q', a) # tr' \<Rightarrow> q' = q \<and> yields (f a) tr' r)"

lemma yields_Read: "yields (Read q f) tr r \<longleftrightarrow> (\<exists>a tr'. tr = (q, a) # tr' \<and> yields (f a) tr' r)"
  by (auto split: list.splits)

declare yields.simps(3) [simp del]

lemma yields_bindD:
  "yields (bindO m g) tr r \<Longrightarrow>
     (\<exists>e. r = Inl e \<and> yields m tr (Inl e)) \<or> (\<exists>tr1 tr2 x. tr = tr1 @ tr2 \<and> yields m tr1 (Inr x) \<and> yields (g x) tr2 r)"
proof (induction m arbitrary: tr)
  case (Read q f)
  from Read.prems obtain a tr' where tr: "tr = (q, a) # tr'" and "yields (bindO (f a) g) tr' r" by (auto simp: yields_Read)
  from Read.IH [OF rangeI this(2)] show ?case
  proof (elim disjE exE conjE)
    fix tr1 tr2 x assume "tr' = tr1 @ tr2" "yields (f a) tr1 (Inr x)" "yields (g x) tr2 r"
    with tr have "tr = ((q, a) # tr1) @ tr2 \<and> yields (Read q f) ((q, a) # tr1) (Inr x) \<and> yields (g x) tr2 r" by (simp add: yields_Read)
    then show ?thesis by blast
  qed (simp add: tr yields_Read)
qed auto

lemma yields_catchD:
  "yields (catchO m h) tr r \<Longrightarrow>
     (\<exists>x. r = Inr x \<and> yields m tr (Inr x)) \<or> (\<exists>tr1 tr2 e. tr = tr1 @ tr2 \<and> yields m tr1 (Inl e) \<and> yields (h e) tr2 r)"
proof (induction m arbitrary: tr)
  case (Read q f)
  from Read.prems obtain a tr' where tr: "tr = (q, a) # tr'" and "yields (catchO (f a) h) tr' r" by (auto simp: yields_Read)
  from Read.IH [OF rangeI this(2)] show ?case
  proof (elim disjE exE conjE)
    fix tr1 tr2 e assume "tr' = tr1 @ tr2" "yields (f a) tr1 (Inl e)" "yields (h e) tr2 r"
    with tr have "tr = ((q, a) # tr1) @ tr2 \<and> yields (Read q f) ((q, a) # tr1) (Inl e) \<and> yields (h e) tr2 r" by (simp add: yields_Read)
    then show ?thesis by blast
  qed (simp add: tr yields_Read)
qed auto

lemma yields_bindE:
  assumes "yields (bindO m g) tr (Inr y)"
  obtains tr1 tr2 x where "tr = tr1 @ tr2" "yields m tr1 (Inr x)" "yields (g x) tr2 (Inr y)"
  using yields_bindD [OF assms] by auto

lemma yields_catchE:
  assumes "yields (catchO m h) tr (Inr y)"
  obtains "yields m tr (Inr y)" | tr1 tr2 e where "tr = tr1 @ tr2" "yields m tr1 (Inl e)" "yields (h e) tr2 (Inr y)"
  using yields_catchD [OF assms] by auto

lemma yields_simps [simp]:
  "yields (liftO s) tr (Inr y) \<longleftrightarrow> tr = [] \<and> s = Inr y"
  "yields (liftErr s') tr (Inr y) \<longleftrightarrow> tr = [] \<and> s' = Inr y"
  "yields (requireO b reason) tr (Inr u) \<longleftrightarrow> tr = [] \<and> b"
  "yields (readValue q) tr (Inr v) \<longleftrightarrow> tr = [(q, ReadValue v)]"
  "yields (readBlock q reason) tr (Inr blk) \<longleftrightarrow> (\<exists>v. tr = [(q, ReadValue v)] \<and> runC (parseBlock v reason) = Inr blk)"
  by (auto simp: liftO_def liftErr_def requireO_def readValue_def readBlock_def yields_Read split: sum.split)
    (auto split: provider_answer.splits sum.splits)

section \<open>Evidence in the reads of a call\<close>

text \<open>Four reads in a row: the operation's receipt, the receipt of its transaction, the transaction, the canonical block.\<close>

definition inclusion_evidence :: "read_trace \<Rightarrow> user_operation_reference \<Rightarrow> operation_inclusion \<Rightarrow> bool" where
  "inclusion_evidence tr ref i \<longleftrightarrow>
     (\<exists>hint v1 v2 v3 v4 receipt txr verified tx blk n.
        sublist [(ReadUserOperationReceipt (ur_chainId ref) (ur_userOperationHash ref) hint, ReadValue v1),
          (ReadTransactionReceipt (ur_chainId ref) (in_transactionHash i), ReadValue v2),
          (ReadTransaction (ur_chainId ref) (in_transactionHash i), ReadValue v3),
          (ReadCanonicalBlock (ur_chainId ref) (in_blockNumber i), ReadValue v4)] tr \<and>
        runC (parseUserOperationReceipt v1) = Inr receipt \<and> receiptNames ref None receipt \<and>
        runC (parseTransactionReceipt v2) = Inr txr \<and> tr_status txr = ''0x1'' \<and> execution_window ref txr verified \<and>
        ve_outcome verified = in_outcome i \<and>
        runC (parseTransaction v3) = Inr tx \<and> tx_hash tx = in_transactionHash i \<and> tx_to tx = Some (ur_entryPoint ref) \<and>
        runC (parseBlock v4 CanonicalityUnproven) = Inr blk \<and> bl_hash blk = in_blockHash i \<and>
        decimal (BigIntHex (bl_number blk)) = in_blockNumber i \<and>
        n < length (bl_transactions blk) \<and> bl_transactions blk ! n = in_transactionHash i)"

text \<open>Three reads in a row: the finalized head, the including block, and the head again by its number.\<close>

definition finality_evidence ::
    "read_trace \<Rightarrow> user_operation_reference \<Rightarrow> operation_inclusion \<Rightarrow> operation_finality \<Rightarrow> bool" where
  "finality_evidence tr ref i f \<longleftrightarrow>
     (\<exists>v1 v2 v3 head blk again.
        sublist [(ReadFinalizedBlock (ur_chainId ref), ReadValue v1),
          (ReadCanonicalBlock (ur_chainId ref) (in_blockNumber i), ReadValue v2),
          (ReadCanonicalBlock (ur_chainId ref) (fi_blockNumber f), ReadValue v3)] tr \<and>
        runC (parseBlock v1 FinalityUnproven) = Inr head \<and> bl_hash head = fi_blockHash f \<and>
        decimal (BigIntHex (bl_number head)) = fi_blockNumber f \<and>
        runC (parseBlock v2 FinalityUnproven) = Inr blk \<and> bl_hash blk = in_blockHash i \<and>
        runC (parseBlock v3 FinalityUnproven) = Inr again \<and> bl_hash again = bl_hash head \<and>
        BigInt (in_blockNumber i) \<le> BigInt (fi_blockNumber f))"

text \<open>Three reads in a row: the finalized head, the EntryPoint nonce at that height, and the head again by its number.\<close>

definition supersession_evidence :: "read_trace \<Rightarrow> operation_identity \<Rightarrow> operation_supersession \<Rightarrow> bool" where
  "supersession_evidence tr identity s \<longleftrightarrow>
     (\<exists>v1 n v3 head again.
        sublist [(ReadFinalizedBlock (oi_chainId identity), ReadValue v1),
          (ReadEntryPointNonce (oi_chainId identity) (oi_entryPoint identity) (oi_account identity) (oi_nonce identity)
             (su_blockNumber s), ReadValue (JString n)),
          (ReadCanonicalBlock (oi_chainId identity) (su_blockNumber s), ReadValue v3)] tr \<and>
        runC (parseBlock v1 FinalityUnproven) = Inr head \<and> bl_hash head = su_blockHash s \<and>
        decimal (BigIntHex (bl_number head)) = su_blockNumber s \<and>
        runC (parseBlock v3 FinalityUnproven) = Inr again \<and> bl_hash again = bl_hash head \<and>
        su_observedNonce s = decimal (BigIntHex n) \<and>
        drop_bit 64 (BigIntHex n) = drop_bit 64 (BigInt (oi_nonce identity)) \<and>
        BigInt (oi_nonce identity) < BigIntHex n)"

lemma evidence_mono:
  "inclusion_evidence tr ref i \<Longrightarrow> inclusion_evidence (tr1 @ tr @ tr2) ref i"
  "finality_evidence tr ref i f \<Longrightarrow> finality_evidence (tr1 @ tr @ tr2) ref i f"
  "supersession_evidence tr identity s \<Longrightarrow> supersession_evidence (tr1 @ tr @ tr2) identity s"
proof -
  have trans: "sublist xs tr \<Longrightarrow> sublist xs (tr1 @ tr @ tr2)" for xs :: read_trace
    using sublist_order.order.trans sublist_appendI by metis
  show "inclusion_evidence tr ref i \<Longrightarrow> inclusion_evidence (tr1 @ tr @ tr2) ref i"
    unfolding inclusion_evidence_def using trans by meson
  show "finality_evidence tr ref i f \<Longrightarrow> finality_evidence (tr1 @ tr @ tr2) ref i f"
    unfolding finality_evidence_def using trans by meson
  show "supersession_evidence tr identity s \<Longrightarrow> supersession_evidence (tr1 @ tr @ tr2) identity s"
    unfolding supersession_evidence_def using trans by meson
qed

lemma evidence_append:
  "inclusion_evidence tr ref i \<Longrightarrow> inclusion_evidence (tr1 @ tr) ref i" "inclusion_evidence tr ref i \<Longrightarrow> inclusion_evidence (tr @ tr2) ref i"
  "finality_evidence tr ref i f \<Longrightarrow> finality_evidence (tr1 @ tr) ref i f" "finality_evidence tr ref i f \<Longrightarrow> finality_evidence (tr @ tr2) ref i f"
  "supersession_evidence tr identity s \<Longrightarrow> supersession_evidence (tr1 @ tr) identity s"
  "supersession_evidence tr identity s \<Longrightarrow> supersession_evidence (tr @ tr2) identity s"
  using evidence_mono [where ?tr2.0 = "[]"] evidence_mono [where ?tr1.0 = "[]"] by auto

lemma verify_fields:
  assumes "verifyParsedOperationReceiptEvidence ref i receipt txr = Inr verified"
  shows "ve_transactionHash verified = in_transactionHash i" "ve_blockNumber verified = in_blockNumber i"
    "ve_blockHash verified = in_blockHash i" "ve_outcome verified = in_outcome i"
  using assms by (auto simp: verifyParsedOperationReceiptEvidence_def bindE_Inr split: list.splits prod.splits option.splits)

lemma included_evidence:
  assumes "yields (readVerifiedInclusion ref t hint) tr (Inr (Some (i, verified, blk)))"
  shows "inclusion_evidence tr ref i \<and> in_observedAt i = time_val t"
proof -
  from assms obtain v1 v2 v3 v4 receipt txr tx where
    tr: "tr = [(ReadUserOperationReceipt (ur_chainId ref) (ur_userOperationHash ref) (map_option (\<lambda>h. (h, ur_entryPoint ref)) hint), ReadValue v1),
        (ReadTransactionReceipt (ur_chainId ref) (re_transactionHash receipt), ReadValue v2),
        (ReadTransaction (ur_chainId ref) (re_transactionHash receipt), ReadValue v3),
        (ReadCanonicalBlock (ur_chainId ref) (ve_blockNumber verified), ReadValue v4)]"
    and parsed: "runC (parseUserOperationReceipt v1) = Inr receipt" "receiptNames ref hint receipt"
      "runC (parseTransactionReceipt v2) = Inr txr" "verifyParsedOperationReceiptEvidence ref i receipt txr = Inr verified"
      "runC (parseTransaction v3) = Inr tx" "transactionAgrees ref verified txr tx"
      "runC (parseBlock v4 CanonicalityUnproven) = Inr blk" "canonicalAgrees verified tx blk"
    and i: "i = inclusion_of_receipt receipt t"
    unfolding readVerifiedInclusion_def Let_def
    by (auto elim!: yields_bindE split: if_splits)
  note fields = verify_fields [OF parsed(4)]
  have "re_transactionHash receipt = in_transactionHash i" by (simp add: i inclusion_of_receipt_def)
  then have "sublist [(ReadUserOperationReceipt (ur_chainId ref) (ur_userOperationHash ref) (map_option (\<lambda>h. (h, ur_entryPoint ref)) hint), ReadValue v1),
        (ReadTransactionReceipt (ur_chainId ref) (in_transactionHash i), ReadValue v2),
        (ReadTransaction (ur_chainId ref) (in_transactionHash i), ReadValue v3),
        (ReadCanonicalBlock (ur_chainId ref) (in_blockNumber i), ReadValue v4)] tr"
    using tr fields by simp
  moreover have "receiptNames ref None receipt" using parsed(2) by (simp add: receiptNames_def)
  moreover have "tr_status txr = ''0x1''" "execution_window ref txr verified" using verify_window [OF parsed(4)] by auto
  moreover have "tx_hash tx = in_transactionHash i" "tx_to tx = Some (ur_entryPoint ref)"
    using parsed(6) fields by (auto simp: transactionAgrees_def)
  moreover have "bl_hash blk = in_blockHash i" "decimal (BigIntHex (bl_number blk)) = in_blockNumber i"
    "nat (BigIntHex (tx_transactionIndex tx)) < length (bl_transactions blk)"
    "bl_transactions blk ! nat (BigIntHex (tx_transactionIndex tx)) = in_transactionHash i"
    using parsed(8) fields by (auto simp: canonicalAgrees_def Let_def)
  ultimately have "inclusion_evidence tr ref i"
    unfolding inclusion_evidence_def using parsed(1,3,5,7) fields(4) by blast
  then show ?thesis by (simp add: i inclusion_of_receipt_def)
qed

lemma parseBlock_number: "runC (parseBlock v reason) = Inr b \<Longrightarrow> 0 \<le> BigIntHex (bl_number b)"
  by (auto simp: parseBlock_def runC_Inr elim!: bindC_InrE dest!: quantityField_value)

lemma finalized_evidence:
  assumes "yields (readVerifiedFinality ref i t) tr (Inr (Some f))"
  shows "finality_evidence tr ref i f \<and> fi_observedAt f = time_val t"
proof -
  from assms have "yields (finalityReads ref i t) tr (Inr (Some f))"
    unfolding readVerifiedFinality_def by (auto elim!: yields_catchE)
  then obtain v1 v2 v3 head blk again where
    "tr = [(ReadFinalizedBlock (ur_chainId ref), ReadValue v1), (ReadCanonicalBlock (ur_chainId ref) (in_blockNumber i), ReadValue v2),
      (ReadCanonicalBlock (ur_chainId ref) (decimal (BigIntHex (bl_number head))), ReadValue v3)]"
    and parsed: "runC (parseBlock v1 FinalityUnproven) = Inr head" "runC (parseBlock v2 FinalityUnproven) = Inr blk"
      "runC (parseBlock v3 FinalityUnproven) = Inr again"
    and checks: "bl_hash blk = in_blockHash i" "\<not> BigIntHex (bl_number head) < BigInt (in_blockNumber i)" "bl_hash again = bl_hash head"
    and f: "f = \<lparr>fi_blockNumber = decimal (BigIntHex (bl_number head)), fi_blockHash = bl_hash head, fi_observedAt = time_val t\<rparr>"
    unfolding finalityReads_def Let_def
    by (auto elim!: yields_bindE split: if_splits)
  with parseBlock_number [OF parsed(1)] show ?thesis
    unfolding finality_evidence_def by (force simp: not_less)
qed

lemma sequenceAdvanced_less:
  assumes "sequenceAdvanced m n"
  shows "drop_bit 64 m = drop_bit 64 n" "n < m"
proof -
  from assms show "drop_bit 64 m = drop_bit 64 n" by (simp add: sequenceAdvanced_def)
  then have "m div 2 ^ 64 = n div 2 ^ 64" by (simp add: drop_bit_eq_div)
  moreover have "n mod 2 ^ 64 < m mod 2 ^ 64"
    using assms UINT64_MASK_mod by (simp add: sequenceAdvanced_def UINT64_MASK_def)
  ultimately show "n < m"
    using div_mult_mod_eq [of n "2 ^ 64"] div_mult_mod_eq [of m "2 ^ 64"] by (metis add_strict_left_mono)
qed

section \<open>What an observer may return\<close>

definition included_step :: "ext \<Rightarrow> operation \<Rightarrow> jsnum \<Rightarrow> operation_inclusion \<Rightarrow> operation \<Rightarrow> bool" where
  "included_step E x t i y \<longleftrightarrow> in_observedAt i = time_val t \<and>
     (case op_state x of
        Included _ _ prior \<Rightarrow> sameOccurrence prior i \<and> y = x
      | _ \<Rightarrow> applyObserved E x ''record_included'' [(''inclusion'', observed_inclusion [PName ''inclusion''] i t)] = Inr y)"

abbreviation own_reference :: "operation \<Rightarrow> user_operation_reference" where
  "own_reference x \<equiv> reference_of (oc_identity (op_common x))"

abbreviation pending_fields :: "jsnum \<Rightarrow> pending_reason \<Rightarrow> (string \<times> jsval) list" where
  "pending_fields t r \<equiv> [(''observedAt'', JNumber t), (''reason'', JString (pending_reason_name r))]"

abbreviation unread_fields :: "jsnum \<Rightarrow> unread_reason \<Rightarrow> (string \<times> jsval) list" where
  "unread_fields t r \<equiv> [(''observedAt'', JNumber t), (''reason'', JString (unread_reason_name r))]"

inductive observed :: "ext \<Rightarrow> operation \<Rightarrow> jsnum \<Rightarrow> read_trace \<Rightarrow> observation_result \<Rightarrow> bool" for E x t tr where
  pending: "applyObserved E x ''record_pending'' (pending_fields t r) = Inr y \<Longrightarrow> observed E x t tr (ObsPending r y)"
| unread: "applyObserved E x ''record_unreadable'' (unread_fields t q) = Inr y \<Longrightarrow> observed E x t tr (ObsUnreadable q y)"
| included: "included_step E x t i y \<Longrightarrow> inclusion_evidence tr (own_reference x) i \<Longrightarrow>
    applyObserved E y ''record_unreadable'' (unread_fields t q) = Inr z \<Longrightarrow> observed E x t tr (ObsUnreadable q z)"
| finalized: "included_step E x t i y \<Longrightarrow> inclusion_evidence tr (own_reference x) i \<Longrightarrow>
    finality_evidence tr (own_reference x) i f \<Longrightarrow> fi_observedAt f = time_val t \<Longrightarrow>
    applyObserved E y ''record_finalized'' [(''finality'', observed_finality [PName ''finality''] f t)] = Inr z \<Longrightarrow>
    observed E x t tr (ObsFinalized z)"
| dropped: "ref = (own_reference x)\<lparr>ur_userOperationHash := h\<rparr> \<Longrightarrow> lower_hex 64 h \<Longrightarrow>
    h \<noteq> oi_userOperationHash (oc_identity (op_common x)) \<Longrightarrow> in_observedAt i = time_val t \<Longrightarrow> inclusion_evidence tr ref i \<Longrightarrow>
    finality_evidence tr ref i f \<Longrightarrow> fi_observedAt f = time_val t \<Longrightarrow>
    applyObserved E x ''record_dropped'' [(''drop'', observed_drop [PName ''drop''] ref i f t)] = Inr y \<Longrightarrow>
    observed E x t tr (ObsDropped y)"
| superseded: "supersession_evidence tr (oc_identity (op_common x))
      \<lparr>su_observedNonce = nonce, su_blockNumber = number, su_blockHash = hash, su_observedAt = time_val t\<rparr> \<Longrightarrow>
    applyObserved E x ''record_superseded''
      [(''supersession'', observed_supersession [PName ''supersession''] nonce number hash t)] = Inr y \<Longrightarrow>
    observed E x t tr (ObsSuperseded y)"

lemma weak_yields [simp]:
  "yields (weakPending E x t r) tr (Inr ob) \<longleftrightarrow>
     tr = [] \<and> (\<exists>y. ob = ObsPending r y \<and> applyObserved E x ''record_pending'' (pending_fields t r) = Inr y)"
  "yields (weakUnreadable E x t q) tr (Inr ob) \<longleftrightarrow>
     tr = [] \<and> (\<exists>y. ob = ObsUnreadable q y \<and> applyObserved E x ''record_unreadable'' (unread_fields t q) = Inr y)"
  by (cases "applyObserved E x ''record_pending'' (pending_fields t r)", auto simp: weakPending_def liftErr_def)
    (cases "applyObserved E x ''record_unreadable'' (unread_fields t q)", auto simp: weakUnreadable_def liftErr_def)+

lemma supersession_observed:
  assumes "yields (verifySupersession E x t) tr (Inr (Some ob))"
  shows "observed E x t tr ob"
proof -
  from assms have "yields (supersessionReads E x t) tr (Inr (Some ob))"
    unfolding verifySupersession_def by (auto elim!: yields_catchE split: operation_state.splits)
  then obtain v1 n v3 head again y where
    "tr = [(ReadFinalizedBlock (oi_chainId (oc_identity (op_common x))), ReadValue v1),
      (ReadEntryPointNonce (oi_chainId (oc_identity (op_common x))) (oi_entryPoint (oc_identity (op_common x)))
        (oi_account (oc_identity (op_common x))) (oi_nonce (oc_identity (op_common x))) (decimal (BigIntHex (bl_number head))), ReadValue (JString n)),
      (ReadCanonicalBlock (oi_chainId (oc_identity (op_common x))) (decimal (BigIntHex (bl_number head))), ReadValue v3)]"
    and parsed: "runC (parseBlock v1 FinalityUnproven) = Inr head" "QUANTITY n"
      "sequenceAdvanced (BigInt (decimal (BigIntHex n))) (BigInt (oi_nonce (oc_identity (op_common x))))"
      "runC (parseBlock v3 FinalityUnproven) = Inr again" "bl_hash again = bl_hash head"
    and y: "applyObserved E x ''record_superseded'' [(''supersession'', observed_supersession [PName ''supersession'']
        (decimal (BigIntHex n)) (decimal (BigIntHex (bl_number head))) (bl_hash head) t)] = Inr y" "ob = ObsSuperseded y"
    unfolding supersessionReads_def Let_def
    by (auto elim!: yields_bindE simp: parseQuantity_Inr split: if_splits jsval.splits operation_state.splits)
  note less = sequenceAdvanced_less [OF parsed(3)]
  have "supersession_evidence tr (oc_identity (op_common x)) \<lparr>su_observedNonce = decimal (BigIntHex n),
      su_blockNumber = decimal (BigIntHex (bl_number head)), su_blockHash = bl_hash head, su_observedAt = time_val t\<rparr>"
    unfolding supersession_evidence_def \<open>tr = _\<close>
    using parsed less QUANTITY_nonneg [OF parsed(2)] by force
  with y show ?thesis by (auto intro: observed.superseded)
qed

lemma replacement_yields:
  assumes "yields (readReplacementReference ref) tr (Inr (Some r))"
  shows "\<exists>h. r = ref\<lparr>ur_userOperationHash := h\<rparr> \<and> lower_hex 64 h \<and> h \<noteq> ur_userOperationHash ref"
  using assms unfolding readReplacementReference_def
  by (auto elim!: yields_bindE simp: parseHash_def split: if_splits) blast

lemma verifyInclusion_yields:
  assumes "yields (verifyInclusion x t ref) tr (Inr (Some i))"
  shows "inclusion_evidence tr ref i" "in_observedAt i = time_val t"
proof -
  from assms obtain hint w where "yields (readVerifiedInclusion ref t hint) tr (Inr w)" "Some i = map_option fst w"
    unfolding verifyInclusion_def Let_def by (auto elim!: yields_bindE)
  then obtain v b where "yields (readVerifiedInclusion ref t hint) tr (Inr (Some (i, v, b)))" by (cases w) auto
  then show "inclusion_evidence tr ref i" "in_observedAt i = time_val t" using included_evidence by blast+
qed

lemma includeVerified_yields:
  assumes "yields (includeVerified E x t False i) tr (Inr r)" "in_observedAt i = time_val t"
  shows "tr = []" "r = Inr y \<Longrightarrow> included_step E x t i y" "r = Inl ob \<Longrightarrow> observed E x t tr' ob"
  using assms unfolding includeVerified_def
  by (auto elim!: yields_bindE simp: included_step_def intro: observed.unread split: operation_state.splits if_splits)

lemma verifyFinality_yields:
  assumes "yields (verifyFinality E y t ref i) tr (Inr r)"
  shows "r = Inr f \<Longrightarrow> finality_evidence tr ref i f \<and> fi_observedAt f = time_val t"
    "r = Inl ob \<Longrightarrow> \<exists>z. ob = ObsUnreadable FinalityUnproven z \<and> applyObserved E y ''record_unreadable'' (unread_fields t FinalityUnproven) = Inr z"
proof -
  have *: "yields (bindO (readVerifiedFinality ref i t) (\<lambda>f. case f of None \<Rightarrow> bindO (weakUnreadable E y t FinalityUnproven) (\<lambda>r. Observe (Inl r))
        | Some f \<Rightarrow> Observe (Inr f))) tr (Inr r) \<or>
      (\<exists>tr2. yields (bindO (weakUnreadable E y t FinalityUnproven) (\<lambda>r. Observe (Inl r))) tr2 (Inr r))"
    using assms unfolding verifyFinality_def Let_def by (auto elim!: yields_catchE)
  from * show "r = Inr f \<Longrightarrow> finality_evidence tr ref i f \<and> fi_observedAt f = time_val t"
    using finalized_evidence by (fastforce elim!: yields_bindE split: option.splits)
  from * show "r = Inl ob \<Longrightarrow> \<exists>z. ob = ObsUnreadable FinalityUnproven z \<and>
      applyObserved E y ''record_unreadable'' (unread_fields t FinalityUnproven) = Inr z"
    by (auto elim!: yields_bindE split: option.splits)
qed

lemma settleIncluded_own:
  assumes "yields (settleIncluded E x t (own_reference x) False i) tr2 (Inr ob)" "in_observedAt i = time_val t"
    and "inclusion_evidence tr1 (own_reference x) i"
  shows "observed E x t (tr1 @ tr2) ob"
proof -
  from assms(1) obtain r tr3 tr4 where r: "yields (includeVerified E x t False i) tr3 (Inr r)" "tr2 = tr3 @ tr4"
    and rest: "yields (case r of Inl result \<Rightarrow> Observe result
      | Inr y \<Rightarrow> bindO (verifyFinality E y t (own_reference x) i) (\<lambda>f. case f of Inl result \<Rightarrow> Observe result
          | Inr f \<Rightarrow> settleFinalized E y t f)) tr4 (Inr ob)"
    unfolding settleIncluded_def by (auto elim!: yields_bindE)
  note step = includeVerified_yields [OF r(1) assms(2)]
  show ?thesis
  proof (cases r)
    case (Inl result)
    with rest step(3) show ?thesis by auto
  next
    case (Inr y)
    with rest obtain q tr5 tr6 where q: "yields (verifyFinality E y t (own_reference x) i) tr5 (Inr q)" "tr4 = tr5 @ tr6"
      and rest: "yields (case q of Inl result \<Rightarrow> Observe result | Inr f \<Rightarrow> settleFinalized E y t f) tr6 (Inr ob)"
      by (auto elim!: yields_bindE)
    have y: "included_step E x t i y" using step(2) Inr by blast
    have inc: "inclusion_evidence (tr1 @ tr2) (own_reference x) i" using assms(3) by (rule evidence_append)
    show ?thesis
    proof (cases q)
      case (Inl result)
      with rest verifyFinality_yields(2) [OF q(1)] y inc show ?thesis by (auto intro: observed.included)
    next
      case (Inr f)
      with verifyFinality_yields(1) [OF q(1)] have f: "finality_evidence tr5 (own_reference x) i f" "fi_observedAt f = time_val t" by auto
      have "finality_evidence (tr1 @ tr2) (own_reference x) i f"
        using f(1) unfolding r(2) q(2) by (intro evidence_append)
      with rest Inr f(2) y inc show ?thesis
        by (auto simp: settleFinalized_def elim!: yields_bindE split: operation_state.splits intro: observed.finalized)
    qed
  qed
qed

lemma settleIncluded_replaced:
  assumes "yields (settleIncluded E x t ref True i) tr2 (Inr ob)" "in_observedAt i = time_val t"
    and "inclusion_evidence tr1 ref i" "ref = (own_reference x)\<lparr>ur_userOperationHash := h\<rparr>" "lower_hex 64 h"
    and "h \<noteq> oi_userOperationHash (oc_identity (op_common x))"
  shows "observed E x t (tr1 @ tr2) ob"
proof -
  from assms(1) obtain q tr5 tr6 where q: "yields (verifyFinality E x t ref i) tr5 (Inr q)" "tr2 = tr5 @ tr6"
    and rest: "yields (case q of Inl result \<Rightarrow> Observe result | Inr f \<Rightarrow> settleDropped E x t ref i f) tr6 (Inr ob)"
    unfolding settleIncluded_def includeVerified_def by (auto elim!: yields_bindE)
  show ?thesis
  proof (cases q)
    case (Inl result)
    with rest verifyFinality_yields(2) [OF q(1)] show ?thesis by (auto intro: observed.unread)
  next
    case (Inr f)
    with verifyFinality_yields(1) [OF q(1)] have f: "finality_evidence tr5 ref i f" "fi_observedAt f = time_val t" by auto
    have "finality_evidence (tr1 @ tr2) ref i f" using f(1) unfolding q(2) by (intro evidence_append)
    moreover have "inclusion_evidence (tr1 @ tr2) ref i" using assms(3) by (rule evidence_append)
    ultimately show ?thesis using rest Inr f(2) assms(2,4,5,6)
      by (auto simp: settleDropped_def elim!: yields_bindE split: operation_state.splits intro: observed.dropped)
  qed
qed

lemma observed_mono: "observed E x t tr ob \<Longrightarrow> observed E x t (tr1 @ tr) ob" "observed E x t tr ob \<Longrightarrow> observed E x t (tr @ tr1) ob"
  by (induction rule: observed.induct; blast intro: observed.intros evidence_append)+

lemma observationReads_yields:
  assumes "yields (observationReads E x t) tr (Inr ob)"
  shows "observed E x t tr ob"
proof -
  let ?ref = "own_reference x"
  from assms obtain inc tr1 tr2 tr3 where tr: "tr = tr1 @ tr2 @ tr3" and inc: "yields (verifyInclusion x t ?ref) tr2 (Inr inc)"
    and rest: "yields (case inc of Some i \<Rightarrow> settleIncluded E x t ?ref False i
      | None \<Rightarrow> bindO (readReplacementReference ?ref) (\<lambda>candidate. case candidate of
          None \<Rightarrow> bindO (verifySupersession E x t) (\<lambda>s. case s of Some r \<Rightarrow> Observe r | None \<Rightarrow> weakPending E x t Receipt_missing)
        | Some r \<Rightarrow> bindO (verifyInclusion x t r) (\<lambda>i. case i of None \<Rightarrow> weakPending E x t Receipt_missing
            | Some i \<Rightarrow> settleIncluded E x t r True i))) tr3 (Inr ob)"
    unfolding observationReads_def Let_def by (fastforce elim!: yields_bindE)
  have "observed E x t (tr2 @ tr3) ob"
  proof (cases inc)
    case (Some i)
    with rest verifyInclusion_yields inc show ?thesis by (auto intro: settleIncluded_own)
  next
    case None
    with rest obtain c tr4 tr5 where tr3: "tr3 = tr4 @ tr5" and c: "yields (readReplacementReference ?ref) tr4 (Inr c)"
      and rest: "yields (case c of None \<Rightarrow> bindO (verifySupersession E x t) (\<lambda>s. case s of Some r \<Rightarrow> Observe r | None \<Rightarrow> weakPending E x t Receipt_missing)
        | Some r \<Rightarrow> bindO (verifyInclusion x t r) (\<lambda>i. case i of None \<Rightarrow> weakPending E x t Receipt_missing
            | Some i \<Rightarrow> settleIncluded E x t r True i)) tr5 (Inr ob)"
      by (auto elim!: yields_bindE)
    have "observed E x t tr5 ob"
    proof (cases c)
      case None
      with rest show ?thesis
        by (auto elim!: yields_bindE split: option.splits intro: supersession_observed observed.pending)
    next
      case (Some r)
      from replacement_yields c Some obtain h where r: "r = ?ref\<lparr>ur_userOperationHash := h\<rparr>" "lower_hex 64 h"
        "h \<noteq> ur_userOperationHash ?ref" by blast
      from rest Some obtain i tr6 tr7 where tr5: "tr5 = tr6 @ tr7" and i: "yields (verifyInclusion x t r) tr6 (Inr i)"
        and rest: "yields (case i of None \<Rightarrow> weakPending E x t Receipt_missing | Some i \<Rightarrow> settleIncluded E x t r True i) tr7 (Inr ob)"
        by (auto elim!: yields_bindE)
      show ?thesis
      proof (cases i)
        case None
        with rest show ?thesis by (auto intro: observed.pending)
      next
        case (Some j)
        with i rest r verifyInclusion_yields [of x t r tr6 j] show ?thesis
          unfolding tr5 by (intro settleIncluded_replaced) (auto simp: reference_of_def)
      qed
    qed
    then show ?thesis unfolding tr3 append_assoc [symmetric] by (rule observed_mono)
  qed
  then show ?thesis unfolding tr by (rule observed_mono)
qed

lemma observeUnsettled_yields:
  assumes "yields (observeUnsettled E x t) tr (Inr ob)"
  shows "observed E x t tr ob"
  using assms unfolding observeUnsettled_def
proof (cases rule: yields_catchE)
  case 1
  then show ?thesis by (rule observationReads_yields)
next
  case (2 tr1 tr2 e)
  then show ?thesis by (cases e) (auto intro: observed.pending observed.unread)
qed

section \<open>The record behind an observation\<close>

lemma time_val_JInt [simp]: "time_val (JInt n) = n"
  by (simp add: time_val_def)

lemma recorded_pending:
  assumes "ext_ok E" "wf_operation x" "applyObserved E x ''record_pending'' (pending_fields t r) = Inr y"
  shows "recordWeak x (Pending (time_val t) r) = Inr y \<and> t = JInt (time_val t)"
  using observed_transition [OF assms] captured_weak(1) by (metis applyTransition.simps(4))

lemma recorded_unread:
  assumes "ext_ok E" "wf_operation x" "applyObserved E x ''record_unreadable'' (unread_fields t q) = Inr y"
  shows "recordWeak x (UnreadableObservation (time_val t) q) = Inr y \<and> t = JInt (time_val t)"
  using observed_transition [OF assms] captured_weak(2) by (metis applyTransition.simps(5))

lemma recorded_inclusion:
  assumes "ext_ok E" "wf_operation x" "in_observedAt i = time_val t"
    "applyObserved E x ''record_included'' [(''inclusion'', observed_inclusion p i t)] = Inr y"
  shows "recordIncluded x i = Inr y \<and> t = JInt (time_val t)"
  using observed_transition [OF assms(1,2,4)] captured_inclusion [OF _ assms(3)] by (metis applyTransition.simps(6))

lemma recorded_finality:
  assumes "ext_ok E" "wf_operation x" "fi_observedAt f = time_val t"
    "applyObserved E x ''record_finalized'' [(''finality'', observed_finality p f t)] = Inr y"
  shows "recordFinalized x f = Inr y \<and> t = JInt (time_val t)"
  using observed_transition [OF assms(1,2,4)] captured_finality [OF _ assms(3)] by (metis applyTransition.simps(7))

lemma recorded_drop:
  assumes "ext_ok E" "wf_operation x" "wf_reference r" "in_observedAt i = time_val t" "fi_observedAt f = time_val t"
    "applyObserved E x ''record_dropped'' [(''drop'', observed_drop p r i f t)] = Inr y"
  shows "recordDropped x \<lparr>de_identity = r, de_inclusion = i, de_finality = f\<rparr> = Inr y \<and> t = JInt (time_val t)"
  using observed_transition [OF assms(1,2,6)] captured_drop [OF assms(1,3) _ assms(4,5)] by (metis applyTransition.simps(8))

lemma recorded_supersession:
  assumes "ext_ok E" "wf_operation x"
    "applyObserved E x ''record_superseded'' [(''supersession'', observed_supersession p nonce number hash t)] = Inr y"
  shows "recordSuperseded x \<lparr>su_observedNonce = nonce, su_blockNumber = number, su_blockHash = hash,
    su_observedAt = time_val t\<rparr> = Inr y \<and> t = JInt (time_val t)"
  using observed_transition [OF assms] captured_supersession by (metis applyTransition.simps(9))

lemma weak_state:
  assumes "recordWeak x w = Inr y"
  shows "op_state y = op_state x \<and> oc_identity (op_common y) = oc_identity (op_common x) \<and>
    (occupiesLane (op_state x) \<longrightarrow> oc_observation (op_common y) = Some w \<and> changed x y)"
  using assms by (auto simp: recordWeak_def changed_def advanceRecord_Inr bindE_Inr split: if_splits)

lemma included_state:
  assumes "recordIncluded x i = Inr y"
  shows "\<exists>a s. op_state y = Included a s i \<and> changed x y"
  using assms by (auto simp: recordIncluded_def changed_def advanceRecord_Inr Let_def elim!: bindE_InrE split: operation_state.splits)

lemma finalized_state:
  assumes "recordFinalized x f = Inr y"
  shows "\<exists>a s i. op_state x = Included a s i \<and> op_state y = Finalized a s i f \<and> changed x y"
  using assms by (auto simp: recordFinalized_def changed_def advanceRecord_Inr elim!: bindE_InrE split: operation_state.splits)

lemma dropped_state:
  assumes "recordDropped x d = Inr y"
  shows "\<exists>a s p. op_state y = Dropped a s p d \<and> changed x y"
  using assms by (auto simp: recordDropped_def changed_def advanceRecord_Inr Let_def elim!: bindE_InrE split: operation_state.splits)

lemma superseded_state:
  assumes "recordSuperseded x u = Inr y"
  shows "\<exists>a s. op_state y = Superseded a s u \<and> changed x y"
  using assms by (auto simp: recordSuperseded_def changed_def advanceRecord_Inr Let_def elim!: bindE_InrE split: operation_state.splits)

lemma included_step_state:
  assumes "ext_ok E" "wf_operation x" "included_step E x t i y"
  shows "wf_operation y" "\<exists>a s j. op_state y = Included a s j \<and> sameOccurrence j i"
    "oc_identity (op_common y) = oc_identity (op_common x)" "oc_revision (op_common x) \<le> oc_revision (op_common y)"
proof -
  consider a s j where "op_state x = Included a s j" "sameOccurrence j i" "y = x"
    | "applyObserved E x ''record_included'' [(''inclusion'', observed_inclusion [PName ''inclusion''] i t)] = Inr y"
    using assms(3) by (auto simp: included_step_def split: operation_state.splits)
  then have "wf_operation y \<and> (\<exists>a s j. op_state y = Included a s j \<and> sameOccurrence j i) \<and>
    oc_identity (op_common y) = oc_identity (op_common x) \<and> oc_revision (op_common x) \<le> oc_revision (op_common y)"
  proof cases
    case 2
    have i: "in_observedAt i = time_val t" using assms(3) by (simp add: included_step_def)
    from included_state [of x i y] recorded_inclusion [OF assms(1,2) i 2] observed_steps(2) [OF assms(1,2) 2]
    show ?thesis by (auto simp: changed_def sameOccurrence_def)
  qed (use assms(2) in auto)
  then show "wf_operation y" "\<exists>a s j. op_state y = Included a s j \<and> sameOccurrence j i"
    "oc_identity (op_common y) = oc_identity (op_common x)" "oc_revision (op_common x) \<le> oc_revision (op_common y)" by auto
qed

lemma evidence_occurrence:
  "sameOccurrence j i \<Longrightarrow> inclusion_evidence tr ref i = inclusion_evidence tr ref j"
  "sameOccurrence j i \<Longrightarrow> finality_evidence tr ref i f = finality_evidence tr ref j f"
  by (simp_all add: sameOccurrence_def inclusion_evidence_def finality_evidence_def)

lemma replaced_reference_wf:
  "wf_operation x \<Longrightarrow> lower_hex 64 h \<Longrightarrow> wf_reference ((own_reference x)\<lparr>ur_userOperationHash := h\<rparr>)"
  by (auto simp: wf_operation_def wf_common_def wf_op_identity_def wf_reference_def reference_of_def)

text \<open>What each result of an observation of an unsettled operation rests on.\<close>

definition observation_justified :: "read_trace \<Rightarrow> operation \<Rightarrow> observation_result \<Rightarrow> bool" where
  "observation_justified tr x ob \<longleftrightarrow>
     (case ob of
        ObsFinalized y \<Rightarrow>
          \<exists>a s i f. op_state y = Finalized a s i f \<and> inclusion_evidence tr (own_reference x) i \<and> finality_evidence tr (own_reference x) i f
      | ObsDropped y \<Rightarrow>
          \<exists>a s p d. op_state y = Dropped a s p d \<and> replacesIdentity (de_identity d) (oc_identity (op_common x)) \<and>
            inclusion_evidence tr (de_identity d) (de_inclusion d) \<and> finality_evidence tr (de_identity d) (de_inclusion d) (de_finality d)
      | ObsSuperseded y \<Rightarrow> \<exists>a s u. op_state y = Superseded a s u \<and> supersession_evidence tr (oc_identity (op_common x)) u
      | ObsPending r y \<Rightarrow> op_state y = op_state x
      | ObsUnreadable r y \<Rightarrow>
          op_state y = op_state x \<or> (\<exists>a s i. op_state y = Included a s i \<and> inclusion_evidence tr (own_reference x) i)
      | _ \<Rightarrow> False)"

lemma observed_justified:
  assumes "ext_ok E" "wf_operation x" "observed E x t tr ob"
  shows "observation_justified tr x ob \<and> oc_identity (op_common (obs_operation ob)) = oc_identity (op_common x)"
  using assms(3)
proof cases
  case (pending r y)
  with recorded_pending [OF assms(1,2)] weak_state show ?thesis by (fastforce simp: observation_justified_def)
next
  case (unread q y)
  with recorded_unread [OF assms(1,2)] weak_state show ?thesis by (fastforce simp: observation_justified_def)
next
  case (included i y q z)
  note y = included_step_state [OF assms(1,2) included(2)]
  from y(2) obtain a s j where j: "op_state y = Included a s j" "sameOccurrence j i" by blast
  from weak_state recorded_unread [OF assms(1) y(1) included(4)] have "op_state z = op_state y" "oc_identity (op_common z) = oc_identity (op_common y)"
    by blast+
  with j included(1,3) y(3) evidence_occurrence(1) [OF j(2)] show ?thesis by (auto simp: observation_justified_def)
next
  case (finalized i y f z)
  note y = included_step_state [OF assms(1,2) finalized(2)]
  from y(2) obtain a s j where j: "op_state y = Included a s j" "sameOccurrence j i" by blast
  from finalized_state recorded_finality [OF assms(1) y(1) finalized(5,6)] j(1)
  have "op_state z = Finalized a s j f" "oc_identity (op_common z) = oc_identity (op_common y)" by (fastforce simp: changed_def)+
  with finalized(1,3,4) y(3) evidence_occurrence [OF j(2)] show ?thesis by (auto simp: observation_justified_def)
next
  case (dropped ref h i f y)
  have "wf_reference ref" unfolding dropped(2) by (rule replaced_reference_wf [OF assms(2) dropped(3)])
  from dropped_state recorded_drop [OF assms(1,2) this dropped(5,8,9)]
  obtain a s p where "op_state y = Dropped a s p \<lparr>de_identity = ref, de_inclusion = i, de_finality = f\<rparr>" "changed x y" by blast
  moreover have "replacesIdentity ref (oc_identity (op_common x))"
    using dropped(2,4) by (simp add: replacesIdentity_def reference_of_def)
  ultimately show ?thesis using dropped(1,6,7) by (auto simp: observation_justified_def changed_def)
next
  case (superseded nonce number hash y)
  from superseded_state recorded_supersession [OF assms(1,2) superseded(3)] superseded(1,2)
  show ?thesis by (fastforce simp: observation_justified_def changed_def)
qed

section \<open>The runner accepts its observer\<close>

definition status_of :: "observation_result \<Rightarrow> string" where
  "status_of ob = (case ob of ObsPending _ _ \<Rightarrow> ''pending'' | ObsUnreadable _ _ \<Rightarrow> ''unreadable'' | ObsIncluded _ \<Rightarrow> ''included''
     | ObsFinalized _ \<Rightarrow> ''finalized'' | ObsDropped _ \<Rightarrow> ''dropped'' | ObsSuperseded _ \<Rightarrow> ''superseded'' | ObsAbandoned _ \<Rightarrow> ''abandoned'')"

definition reason_fields :: "observation_result \<Rightarrow> (string \<times> jsval) list" where
  "reason_fields ob = (case ob of
     ObsPending r _ \<Rightarrow> [(''reason'', JString (pending_reason_name r))]
   | ObsUnreadable r _ \<Rightarrow> [(''reason'', JString (unread_reason_name r))]
   | _ \<Rightarrow> [])"

text \<open>The object an observer resolves with.\<close>

definition observation_literal :: "observation_result \<Rightarrow> jsval" where
  "observation_literal ob = mk_obj [] ((''status'', JString (status_of ob)) # reason_fields ob @
     [(''operation'', operation_literal [PName ''operation''] (obs_operation ob))])"

text \<open>An observation whose status, reason and record agree.\<close>

definition consistent :: "observation_result \<Rightarrow> bool" where
  "consistent ob \<longleftrightarrow> (let y = obs_operation ob in
     case ob of
       ObsPending r _ \<Rightarrow> (\<exists>t. oc_observation (op_common y) = Some (Pending t r))
     | ObsUnreadable r _ \<Rightarrow> (\<exists>t. oc_observation (op_common y) = Some (UnreadableObservation t r))
     | ObsIncluded _ \<Rightarrow> (\<exists>a s i. op_state y = Included a s i) \<and> oc_observation (op_common y) = None
     | ObsFinalized _ \<Rightarrow> (\<exists>a s i f. op_state y = Finalized a s i f)
     | ObsDropped _ \<Rightarrow> (\<exists>a s p d. op_state y = Dropped a s p d)
     | ObsSuperseded _ \<Rightarrow> (\<exists>a s u. op_state y = Superseded a s u)
     | ObsAbandoned _ \<Rightarrow> (\<exists>u r. op_state y = Abandoned u r))"

lemma parseOperation_at: "ext_ok E \<Longrightarrow> wf_operation x \<Longrightarrow> parseOperation E (operation_literal p x) = Inr x"
  unfolding parseOperation_def using operation_codec.parse_literal by metis

lemma reason_name_inj: "pending_reason_name r = pending_reason_name r' \<longleftrightarrow> r = r'" "unread_reason_name q = unread_reason_name q' \<longleftrightarrow> q = q'"
  by (cases r; cases r'; simp add: pending_reason_name_def) (cases q; cases q'; simp add: unread_reason_name_def)

lemma capture_consistent:
  assumes "ext_ok E" "wf_operation (obs_operation ob)" "consistent ob"
  shows "captureObservationResult E (observation_literal ob) = Some ob"
proof -
  have p: "parseOperation E (operation_literal [PName ''operation''] (obs_operation ob)) = Inr (obs_operation ob)"
    by (rule parseOperation_at [OF assms(1,2)])
  show ?thesis
    using assms(3) p
    by (cases ob)
      (auto simp: captureObservationResult_def observation_literal_def status_of_def reason_fields_def runC_def bindC_def
        captureRecord_mk_obj js_simps returnC_def Let_def consistent_def classifyObservation_def reason_name_inj)
qed

lemma observed_literals:
  "t = JInt (in_observedAt i) \<Longrightarrow> observed_inclusion p i t = inclusion_literal p i"
  "t = JInt (fi_observedAt f) \<Longrightarrow> observed_finality p f t = finality_literal p f"
  "t = JInt (in_observedAt i) \<Longrightarrow> t = JInt (fi_observedAt f) \<Longrightarrow>
   observed_drop p r i f t = drop_literal p \<lparr>de_identity = r, de_inclusion = i, de_finality = f\<rparr>"
  "t = JInt n \<Longrightarrow> observed_supersession p nonce number hash t =
     supersession_literal p \<lparr>su_observedNonce = nonce, su_blockNumber = number, su_blockHash = hash, su_observedAt = n\<rparr>"
  by (simp_all add: observed_inclusion_def inclusion_literal_def observed_finality_def finality_literal_def observed_drop_def
      drop_literal_def replacement_literal_def observed_supersession_def supersession_literal_def)

lemma derive_changed:
  assumes "ext_ok E" "wf_operation x" "wf_operation z" "x \<noteq> z" "obs_operation ob = z" "ob \<noteq> ObsAbandoned z"
    and "includeFirst E x ob = Inr y" "applyObservation E y ob = Inr (Some z)"
  shows "deriveObservedOperation E x ob = Some z"
  using assms by (simp add: deriveObservedOperation_def deriveObserved_def sameOperation_wf parseOperation_literal)

lemma includeFirst_step:
  assumes "ext_ok E" "wf_operation x" "included_step E x t i y" "\<forall>z. ob \<noteq> ObsIncluded z"
    and "inclusion_of (op_state (obs_operation ob)) = inclusion_of (op_state y)"
  shows "includeFirst E x ob = Inr y"
proof (cases "\<exists>a s j. op_state x = Included a s j")
  case True
  with assms(3-5) show ?thesis
    by (cases ob) (auto simp: includeFirst_def included_step_def inclusion_of_def)
next
  case False
  then have y: "applyObserved E x ''record_included'' [(''inclusion'', observed_inclusion [PName ''inclusion''] i t)] = Inr y"
    and i: "in_observedAt i = time_val t" using assms(3) by (auto simp: included_step_def split: operation_state.splits)
  from recorded_inclusion [OF assms(1,2) i y] included_state [of x i y]
  obtain a s where "op_state y = Included a s i" "t = JInt (in_observedAt i)" using i by auto
  with y False assms(4,5) observed_literals(1) show ?thesis
    by (cases ob) (auto simp: includeFirst_def inclusion_of_def inclusion_field_def split: operation_state.splits)
qed

lemma includeFirst_same:
  assumes "op_state (obs_operation ob) = op_state x \<or> inclusion_of (op_state (obs_operation ob)) = None" "\<nexists>a s i f. op_state x = Finalized a s i f"
  shows "includeFirst E x ob = Inr x"
  using assms by (cases ob) (auto simp: includeFirst_def inclusion_of_def split: operation_state.splits)

lemma changed_neq: "changed x y \<Longrightarrow> x \<noteq> y"
  by (auto simp: changed_def)

lemma noted_weak:
  assumes "ext_ok E" "wf_operation y" "occupiesLane (op_state y)"
  shows "applyObserved E y ''record_pending'' (pending_fields t r) = Inr z \<Longrightarrow>
      applyObservation E y (ObsPending r z) = Inr (Some z) \<and> consistent (ObsPending r z) \<and> op_state z = op_state y \<and> changed y z"
    and "applyObserved E y ''record_unreadable'' (unread_fields t q) = Inr z \<Longrightarrow>
      applyObservation E y (ObsUnreadable q z) = Inr (Some z) \<and> consistent (ObsUnreadable q z) \<and> op_state z = op_state y \<and> changed y z"
proof -
  assume a: "applyObserved E y ''record_pending'' (pending_fields t r) = Inr z"
  from recorded_pending [OF assms(1,2) a] obtain n where n: "recordWeak y (Pending n r) = Inr z" "t = JInt n" by auto
  from weak_state [OF n(1)] assms(3) a n(2) show "applyObservation E y (ObsPending r z) = Inr (Some z) \<and>
      consistent (ObsPending r z) \<and> op_state z = op_state y \<and> changed y z"
    by (simp add: applyObservation_def applyWeak_def consistent_def)
next
  assume a: "applyObserved E y ''record_unreadable'' (unread_fields t q) = Inr z"
  from recorded_unread [OF assms(1,2) a] obtain n where n: "recordWeak y (UnreadableObservation n q) = Inr z" "t = JInt n" by auto
  from weak_state [OF n(1)] assms(3) a n(2) show "applyObservation E y (ObsUnreadable q z) = Inr (Some z) \<and>
      consistent (ObsUnreadable q z) \<and> op_state z = op_state y \<and> changed y z"
    by (simp add: applyObservation_def applyWeak_def consistent_def)
qed

lemma accepted:
  assumes "ext_ok E" "wf_operation x" "wf_operation (obs_operation ob)" "x \<noteq> obs_operation ob" "\<forall>z. ob \<noteq> ObsAbandoned z"
    and "consistent ob" "includeFirst E x ob = Inr y" "applyObservation E y ob = Inr (Some (obs_operation ob))"
  shows "captureObservationResult E (observation_literal ob) = Some ob \<and> deriveObservedOperation E x ob = Some (obs_operation ob)"
  using capture_consistent derive_changed assms by blast

lemma observed_accepted:
  assumes "ext_ok E" "wf_operation x" "occupiesLane (op_state x)" "observed E x t tr ob"
  shows "captureObservationResult E (observation_literal ob) = Some ob \<and> deriveObservedOperation E x ob = Some (obs_operation ob)"
  using assms(4)
proof cases
  case (pending r y)
  note y = noted_weak(1) [OF assms(1-3) pending(2)] observed_steps(2) [OF assms(1,2) pending(2)]
  have "includeFirst E x ob = Inr x" using y(1) assms(3) by (intro includeFirst_same) (auto simp: pending(1))
  with y changed_neq [of x y] show ?thesis unfolding pending(1) by (intro accepted [OF assms(1,2)]) auto
next
  case (unread q y)
  note y = noted_weak(2) [OF assms(1-3) unread(2)] observed_steps(2) [OF assms(1,2) unread(2)]
  have "includeFirst E x ob = Inr x" using y(1) assms(3) by (intro includeFirst_same) (auto simp: unread(1))
  with y changed_neq [of x y] show ?thesis unfolding unread(1) by (intro accepted [OF assms(1,2)]) auto
next
  case (included i y q z)
  note y = included_step_state [OF assms(1,2) included(2)]
  from y(2) have "occupiesLane (op_state y)" by auto
  note z = noted_weak(2) [OF assms(1) y(1) this included(4)] observed_steps(2) [OF assms(1) y(1) included(4)]
  have "includeFirst E x ob = Inr y" using z(1) by (intro includeFirst_step [OF assms(1,2) included(2)]) (auto simp: included(1))
  moreover have "x \<noteq> z" using z(1) y(4) by (auto simp: changed_def)
  ultimately show ?thesis using z unfolding included(1) by (intro accepted [OF assms(1,2)]) auto
next
  case (finalized i y f z)
  note y = included_step_state [OF assms(1,2) finalized(2)]
  note r = recorded_finality [OF assms(1) y(1) finalized(5,6)]
  from r finalized_state [of y f z] obtain a s j where z: "op_state y = Included a s j" "op_state z = Finalized a s j f" "changed y z" by blast
  have "includeFirst E x ob = Inr y"
    using z by (intro includeFirst_step [OF assms(1,2) finalized(2)]) (auto simp: finalized(1) inclusion_of_def)
  moreover have "x \<noteq> z" using z(3) y(4) by (auto simp: changed_def)
  moreover have "applyObservation E y ob = Inr (Some z)"
    using finalized(5,6) r z observed_literals(2) [of t f] by (simp add: finalized(1) applyObservation_def finality_field_def)
  ultimately show ?thesis using z observed_steps(2) [OF assms(1) y(1) finalized(6)]
    unfolding finalized(1) by (intro accepted [OF assms(1,2)]) (auto simp: consistent_def)
next
  case (dropped ref h i f y)
  have "wf_reference ref" unfolding dropped(2) by (rule replaced_reference_wf [OF assms(2) dropped(3)])
  note r = recorded_drop [OF assms(1,2) this dropped(5,8,9)]
  from r dropped_state obtain a s p where y: "op_state y = Dropped a s p \<lparr>de_identity = ref, de_inclusion = i, de_finality = f\<rparr>" "changed x y" by blast
  have "includeFirst E x ob = Inr x"
    using y(1) assms(3) by (intro includeFirst_same) (auto simp: dropped(1) inclusion_of_def)
  moreover have "observed_drop [PName ''drop''] ref i f t = drop_field y"
    unfolding drop_field_def y(1) operation_state.case using r dropped(5,8) by (intro observed_literals(3)) metis+
  then have "applyObservation E x ob = Inr (Some y)" using dropped(9) by (simp add: dropped(1) applyObservation_def)
  ultimately show ?thesis using y changed_neq [OF y(2)] observed_steps(2) [OF assms(1,2) dropped(9)]
    unfolding dropped(1) by (intro accepted [OF assms(1,2)]) (auto simp: consistent_def)
next
  case (superseded nonce number hash y)
  note r = recorded_supersession [OF assms(1,2) superseded(3)]
  from r superseded_state obtain a s where y: "op_state y = Superseded a s \<lparr>su_observedNonce = nonce, su_blockNumber = number,
    su_blockHash = hash, su_observedAt = time_val t\<rparr>" "changed x y" by blast
  have "includeFirst E x ob = Inr x"
    using y(1) assms(3) by (intro includeFirst_same) (auto simp: superseded(1) inclusion_of_def)
  moreover have "applyObservation E x ob = Inr (Some y)"
    using superseded(3) r y(1) observed_literals(4) [of t "time_val t"] by (simp add: superseded(1) applyObservation_def supersession_field_def)
  ultimately show ?thesis using y changed_neq [OF y(2)] observed_steps(2) [OF assms(1,2) superseded(3)]
    unfolding superseded(1) by (intro accepted [OF assms(1,2)]) (auto simp: consistent_def)
qed

lemma terminal_accepted:
  assumes "ext_ok E" "wf_operation x" "terminalResult x = Some ob"
  shows "captureObservationResult E (observation_literal ob) = Some ob \<and> deriveObservedOperation E x ob = Some (obs_operation ob)"
proof -
  from assms(3) have ob: "obs_operation ob = x" "consistent ob" "\<not> is_weak ob"
    by (auto simp: terminalResult_def consistent_def split: operation_state.splits)
  with assms(1,2) capture_consistent [of E ob] show ?thesis
    by (simp add: deriveObservedOperation_def deriveObserved_def sameOperation_wf)
qed

lemma observe_yields:
  assumes "ext_ok E" "yields (observerObserve E v) tr (Inr ob)"
  obtains x t ms where "captureObserveInput E v = Inr (x, t, ms)" "wf_operation x"
    and "terminalResult x = Some ob \<or> occupiesLane (op_state x) \<and> terminalResult x = None \<and> observed E x t tr ob"
proof -
  from assms(2) obtain x t ms where c: "captureObserveInput E v = Inr (x, t, ms)"
    and y: "yields (case terminalResult x of Some result \<Rightarrow> Observe result
      | None \<Rightarrow> if op_state x = Prepared then Fails (OtherError (ob_err Operation_observer_input_invalid))
                else observeUnsettled E x t) tr (Inr ob)"
    unfolding observerObserve_def
    by (cases "captureObserveInput E v") (auto simp: liftErr_def elim!: yields_bindE)
  from c have "wf_operation x"
    by (auto simp: captureObserveInput_def Let_def intro: parseOperation_wf [OF assms(1)] elim!: bindE_InrE split: sum.splits if_splits)
  moreover have "terminalResult x = Some ob \<or> occupiesLane (op_state x) \<and> terminalResult x = None \<and> observed E x t tr ob"
    using y by (auto simp: terminalResult_def intro: observeUnsettled_yields split: option.splits if_splits operation_state.splits)
  ultimately show ?thesis using that c by blast
qed

section \<open>The observer of a reference\<close>

definition receipt_of :: "operation_inclusion \<Rightarrow> verified_receipt \<Rightarrow> bool" where
  "receipt_of i v \<longleftrightarrow> ve_transactionHash v = in_transactionHash i \<and> ve_blockNumber v = in_blockNumber i \<and>
     ve_blockHash v = in_blockHash i \<and> ve_outcome v = in_outcome i"

text \<open>What each result of an observation of a reference rests on.\<close>

definition reference_justified :: "read_trace \<Rightarrow> user_operation_reference \<Rightarrow> reference_observation \<Rightarrow> bool" where
  "reference_justified tr ref r \<longleftrightarrow>
     (case r of
        ReferencePending _ ref' \<Rightarrow> ref' = ref
      | ReferenceUnreadable _ ref' receipt \<Rightarrow>
          ref' = ref \<and> (case receipt of None \<Rightarrow> True | Some v \<Rightarrow> \<exists>i. receipt_of i v \<and> inclusion_evidence tr ref i)
      | ReferenceIncluded ref' v _ \<Rightarrow> ref' = ref \<and> (\<exists>i. receipt_of i v \<and> inclusion_evidence tr ref i)
      | ReferenceDropped ref' other v f \<Rightarrow>
          ref' = ref \<and> ur_userOperationHash other \<noteq> ur_userOperationHash ref \<and>
          other = ref\<lparr>ur_userOperationHash := ur_userOperationHash other\<rparr> \<and>
          (\<exists>i. receipt_of i v \<and> inclusion_evidence tr other i \<and> finality_evidence tr other i f)
      | ReferenceFinalized ref' v f \<Rightarrow>
          ref' = ref \<and> (\<exists>i. receipt_of i v \<and> inclusion_evidence tr ref i \<and> finality_evidence tr ref i f))"

lemma verified_receipt_of: "verifyParsedOperationReceiptEvidence ref i receipt txr = Inr v \<Longrightarrow> receipt_of i v"
  using verify_fields by (simp add: receipt_of_def)

lemma included_receipt:
  assumes "yields (readVerifiedInclusion ref t hint) tr (Inr (Some (i, v, blk)))"
  shows "receipt_of i v" "inclusion_evidence tr ref i"
proof -
  from assms obtain receipt txr where "verifyParsedOperationReceiptEvidence ref i receipt txr = Inr v"
    unfolding readVerifiedInclusion_def Let_def by (auto elim!: yields_bindE split: if_splits)
  then show "receipt_of i v" by (rule verified_receipt_of)
  show "inclusion_evidence tr ref i" using included_evidence [OF assms] by simp
qed

lemma referenceIncluded_justified:
  assumes "yields (referenceIncluded ref t i v blk) tr2 (Inr ob)" "receipt_of i v" "inclusion_evidence tr1 ref i"
  shows "reference_justified (tr1 @ tr2) ref ob"
proof -
  have evidence: "inclusion_evidence (tr1 @ tr2) ref i" using assms(3) by (rule evidence_append)
  from assms(1) obtain r tr3 tr4 where tr2: "tr2 = tr3 @ tr4"
    and r: "yields (catchO (bindO (readVerifiedFinality ref i t) (\<lambda>f. Observe (Inr f))) (\<lambda>_. bindO (assertChain (ur_chainId ref))
      (\<lambda>_. Observe (Inl (ReferenceUnreadable FinalityUnproven ref (Some v)))))) tr3 (Inr r)"
    and rest: "yields (case r of Inl result \<Rightarrow> Observe result | Inr finality \<Rightarrow> bindO (assertChain (ur_chainId ref)) (\<lambda>_.
      Observe (case finality of None \<Rightarrow> ReferenceIncluded ref v blk | Some f \<Rightarrow> ReferenceFinalized ref v f))) tr4 (Inr ob)"
    unfolding referenceIncluded_def by (auto elim!: yields_bindE)
  show ?thesis
  proof (cases r)
    case (Inl result)
    with r have "result = ReferenceUnreadable FinalityUnproven ref (Some v)" by (auto elim!: yields_catchE yields_bindE)
    with rest Inl assms(2) evidence show ?thesis by (auto simp: reference_justified_def)
  next
    case (Inr finality)
    show ?thesis
    proof (cases finality)
      case None
      with rest Inr assms(2) evidence show ?thesis by (auto simp: reference_justified_def elim!: yields_bindE)
    next
      case (Some f)
      with r Inr have "yields (readVerifiedFinality ref i t) tr3 (Inr (Some f))" by (auto elim!: yields_catchE yields_bindE)
      then have "finality_evidence (tr1 @ tr2) ref i f" unfolding tr2 using finalized_evidence by (intro evidence_append) blast
      with rest Inr Some assms(2) evidence show ?thesis by (auto simp: reference_justified_def elim!: yields_bindE)
    qed
  qed
qed

lemma referenceReplaced_justified:
  assumes "yields (referenceReplaced ref t) tr (Inr ob)"
  shows "reference_justified tr ref ob"
proof -
  have missing: "reference_justified tr ref ob"
    if "yields (bindO (assertChain (ur_chainId ref)) (\<lambda>_. Observe (ReferencePending Receipt_missing ref))) tr' (Inr ob)" for tr'
    using that by (auto simp: reference_justified_def elim!: yields_bindE)
  from assms obtain c tr1 tr2 where tr: "tr = tr1 @ tr2" and c: "yields (readReplacementReference ref) tr1 (Inr c)"
    and rest: "yields (case c of None \<Rightarrow> bindO (assertChain (ur_chainId ref)) (\<lambda>_. Observe (ReferencePending Receipt_missing ref))
      | Some r \<Rightarrow> bindO (readVerifiedInclusion r t None) (\<lambda>included. case included of
          None \<Rightarrow> bindO (assertChain (ur_chainId ref)) (\<lambda>_. Observe (ReferencePending Receipt_missing ref))
        | Some (i, v, blk) \<Rightarrow> bindO (readVerifiedFinality r i t) (\<lambda>finality. case finality of
            None \<Rightarrow> bindO (assertChain (ur_chainId ref)) (\<lambda>_. Observe (ReferencePending Receipt_missing ref))
          | Some f \<Rightarrow> bindO (assertChain (ur_chainId ref)) (\<lambda>_. Observe (ReferenceDropped ref r v f))))) tr2 (Inr ob)"
    unfolding referenceReplaced_def Let_def by (auto elim!: yields_bindE)
  show ?thesis
  proof (cases c)
    case None
    with rest missing show ?thesis by simp
  next
    case (Some r)
    from replacement_yields c Some obtain h where h: "r = ref\<lparr>ur_userOperationHash := h\<rparr>" "h \<noteq> ur_userOperationHash ref" by blast
    from rest Some obtain w tr3 tr4 where tr2: "tr2 = tr3 @ tr4" and w: "yields (readVerifiedInclusion r t None) tr3 (Inr w)"
      and rest: "yields (case w of None \<Rightarrow> bindO (assertChain (ur_chainId ref)) (\<lambda>_. Observe (ReferencePending Receipt_missing ref))
        | Some (i, v, blk) \<Rightarrow> bindO (readVerifiedFinality r i t) (\<lambda>finality. case finality of
            None \<Rightarrow> bindO (assertChain (ur_chainId ref)) (\<lambda>_. Observe (ReferencePending Receipt_missing ref))
          | Some f \<Rightarrow> bindO (assertChain (ur_chainId ref)) (\<lambda>_. Observe (ReferenceDropped ref r v f)))) tr4 (Inr ob)"
      by (auto elim!: yields_bindE)
    show ?thesis
    proof (cases w)
      case None
      with rest missing show ?thesis by simp
    next
      case w': (Some q)
      obtain i v blk where q: "q = (i, v, blk)" by (cases q)
      with w w' have inc: "receipt_of i v" "inclusion_evidence tr3 r i" using included_receipt by auto
      from rest w' q obtain fin tr5 tr6 where tr4: "tr4 = tr5 @ tr6" and fin: "yields (readVerifiedFinality r i t) tr5 (Inr fin)"
        and rest: "yields (case fin of None \<Rightarrow> bindO (assertChain (ur_chainId ref)) (\<lambda>_. Observe (ReferencePending Receipt_missing ref))
          | Some f \<Rightarrow> bindO (assertChain (ur_chainId ref)) (\<lambda>_. Observe (ReferenceDropped ref r v f))) tr6 (Inr ob)"
        by (auto elim!: yields_bindE)
      show ?thesis
      proof (cases fin)
        case None
        with rest missing show ?thesis by simp
      next
        case (Some f)
        with fin finalized_evidence have "finality_evidence tr r i f" unfolding tr tr2 tr4 by (intro evidence_append) blast
        moreover have "inclusion_evidence tr r i" using inc(2) unfolding tr tr2 by (intro evidence_append)
        ultimately show ?thesis using rest Some inc(1) h by (auto simp: reference_justified_def elim!: yields_bindE)
      qed
    qed
  qed
qed

lemma reference_justified_append: "reference_justified tr ref ob \<Longrightarrow> reference_justified (tr1 @ tr) ref ob"
  by (cases ob) (fastforce simp: reference_justified_def intro: evidence_append split: option.splits)+

lemma observeReferenceReads_justified:
  assumes "yields (observeReferenceReads ref t hint) tr r"
  shows "\<exists>ob. r = Inr ob \<and> reference_justified tr ref ob"
  using yields_catchD [OF assms [unfolded observeReferenceReads_def]]
proof (elim disjE exE conjE)
  fix ob assume r: "r = Inr ob" and "yields (bindO (assertChain (ur_chainId ref)) (\<lambda>_. bindO (readVerifiedInclusion ref t hint)
    (\<lambda>verified. case verified of None \<Rightarrow> referenceReplaced ref t | Some (i, v, blk) \<Rightarrow> referenceIncluded ref t i v blk))) tr (Inr ob)"
  then obtain w tr1 tr2 tr3 where tr: "tr = tr1 @ tr2 @ tr3" and w: "yields (readVerifiedInclusion ref t hint) tr2 (Inr w)"
    and rest: "yields (case w of None \<Rightarrow> referenceReplaced ref t | Some (i, v, blk) \<Rightarrow> referenceIncluded ref t i v blk) tr3 (Inr ob)"
    by (fastforce elim!: yields_bindE)
  have "reference_justified (tr2 @ tr3) ref ob"
    using rest w by (auto intro: referenceIncluded_justified included_receipt reference_justified_append referenceReplaced_justified split: option.splits)
  with r show ?thesis unfolding tr by (blast intro: reference_justified_append)
next
  fix tr1 tr2 e
  assume "yields (Observe (case e of TimeoutFailure \<Rightarrow> ReferencePending Timeout ref
     | ProviderFailure \<Rightarrow> ReferenceUnreadable ProviderUnavailable ref None
     | EvidenceFailure reason \<Rightarrow> ReferenceUnreadable reason ref None
     | OtherError _ \<Rightarrow> ReferenceUnreadable ReceiptInvalid ref None)) tr2 r"
  then show ?thesis by (cases e) (auto simp: reference_justified_def)
qed

section \<open>A sample observation\<close>

text \<open>What a provider answers of the sample operation, executed in block 10 with block 12 final.\<close>

definition sample_tx :: string where
  "sample_tx = ''0x'' @ replicate 64 (CHR ''7'')"

definition sample_block_hash :: string where
  "sample_block_hash = ''0x'' @ replicate 64 (CHR ''c'')"

definition sample_word :: "string \<Rightarrow> string" where
  "sample_word s = replicate (64 - length s) (CHR ''0'') @ s"

definition sample_log :: "nat \<Rightarrow> string list \<Rightarrow> string \<Rightarrow> log_evidence" where
  "sample_log i topics data = \<lparr>le_address = ''0x'' @ replicate 40 (CHR ''e''), le_blockNumber = ''0xa'',
     le_blockHash = sample_block_hash, le_transactionHash = sample_tx, le_transactionIndex = ''0x0'', le_logIndex = toHex (int i),
     le_removed = False, le_topics = topics, le_data = data\<rparr>"

definition sample_topics :: "string list" where
  "sample_topics = [USER_OPERATION_EVENT, ''0x'' @ replicate 64 (CHR ''1''),
     ''0x'' @ sample_word (replicate 40 (CHR ''a'')), ''0x'' @ sample_word []]"

definition sample_data :: string where
  "sample_data = ''0x'' @ sample_word ''10000000000000005'' @ sample_word ''1'' @ sample_word ''64'' @ sample_word ''32''"

definition sample_receipt :: user_operation_receipt where
  "sample_receipt = \<lparr>re_userOperationHash = ''0x'' @ replicate 64 (CHR ''1''), re_entryPoint = ''0x'' @ replicate 40 (CHR ''e''),
     re_sender = ''0x'' @ replicate 40 (CHR ''a''), re_nonce = ''0x10000000000000005'', re_paymaster = ''0x'' @ replicate 40 (CHR ''0''),
     re_actualGasCost = ''0x64'', re_actualGasUsed = ''0x32'', re_success = True, re_transactionHash = sample_tx,
     re_blockNumber = ''0xa'', re_blockHash = sample_block_hash\<rparr>"

definition sample_transaction_receipt :: transaction_receipt where
  "sample_transaction_receipt = \<lparr>tr_transactionHash = sample_tx, tr_blockNumber = ''0xa'', tr_blockHash = sample_block_hash,
     tr_transactionIndex = ''0x0'', tr_status = ''0x1'', tr_gasUsed = ''0x99'',
     tr_logs = [sample_log 3 [BEFORE_EXECUTION] ''0x'', sample_log 4 [sample_tx] ''0x'', sample_log 5 sample_topics sample_data]\<rparr>"

definition log_value :: "ref \<Rightarrow> log_evidence \<Rightarrow> jsval" where
  "log_value p l = mk_obj p [(''address'', JString (le_address l)), (''blockNumber'', JString (le_blockNumber l)),
     (''blockHash'', JString (le_blockHash l)), (''transactionHash'', JString (le_transactionHash l)),
     (''transactionIndex'', JString (le_transactionIndex l)), (''logIndex'', JString (le_logIndex l)),
     (''removed'', JBool (le_removed l)), (''topics'', mk_arr (at p ''topics'') (map JString (le_topics l))),
     (''data'', JString (le_data l))]"

definition receipt_value :: "user_operation_receipt \<Rightarrow> jsval" where
  "receipt_value r = mk_obj [] [(''userOperationHash'', JString (re_userOperationHash r)), (''entryPoint'', JString (re_entryPoint r)),
     (''sender'', JString (re_sender r)), (''nonce'', JString (re_nonce r)), (''paymaster'', JString (re_paymaster r)),
     (''actualGasCost'', JString (re_actualGasCost r)), (''actualGasUsed'', JString (re_actualGasUsed r)),
     (''success'', JBool (re_success r)), (''transactionHash'', JString (re_transactionHash r)),
     (''blockNumber'', JString (re_blockNumber r)), (''blockHash'', JString (re_blockHash r))]"

definition transaction_receipt_value :: "transaction_receipt \<Rightarrow> jsval" where
  "transaction_receipt_value r = mk_obj [] [(''transactionHash'', JString (tr_transactionHash r)),
     (''blockNumber'', JString (tr_blockNumber r)), (''blockHash'', JString (tr_blockHash r)),
     (''transactionIndex'', JString (tr_transactionIndex r)), (''status'', JString (tr_status r)),
     (''gasUsed'', JString (tr_gasUsed r)),
     (''logs'', mk_arr [PName ''logs''] (map (\<lambda>i. log_value [PName ''logs'', PIndex i] (tr_logs r ! i)) [0..<length (tr_logs r)]))]"

definition sample_transaction :: jsval where
  "sample_transaction = mk_obj [] [(''hash'', JString sample_tx), (''to'', JString (''0x'' @ replicate 40 (CHR ''e''))),
     (''blockNumber'', JString ''0xa''), (''blockHash'', JString sample_block_hash), (''transactionIndex'', JString ''0x0'')]"

definition sample_block :: "string \<Rightarrow> string \<Rightarrow> jsval" where
  "sample_block number hash = mk_obj [] [(''number'', JString number), (''hash'', JString hash),
     (''parentHash'', JString (''0x'' @ replicate 64 (CHR ''d''))), (''transactions'', mk_arr [PName ''transactions''] [JString sample_tx])]"

definition sample_inclusion :: operation_inclusion where
  "sample_inclusion = \<lparr>in_transactionHash = sample_tx, in_blockNumber = ''10'', in_blockHash = sample_block_hash, in_outcome = Success,
     in_observedAt = 140\<rparr>"

definition sample_finality :: operation_finality where
  "sample_finality = \<lparr>fi_blockNumber = ''12'', fi_blockHash = ''0x'' @ replicate 64 (CHR ''f''), fi_observedAt = 140\<rparr>"

definition sample_included :: operation where
  "sample_included = \<lparr>op_common = op_sample_common 2 140 None, op_state = Included 110 None sample_inclusion\<rparr>"

definition sample_finalized :: operation where
  "sample_finalized =
     \<lparr>op_common = op_sample_common 3 140 None, op_state = Finalized 110 None sample_inclusion sample_finality\<rparr>"

definition sample_reads :: read_trace where
  "sample_reads = [(ReadChainId 1, ReadValue (jint 1)),
     (ReadUserOperationReceipt 1 (''0x'' @ replicate 64 (CHR ''1'')) None, ReadValue (receipt_value sample_receipt)),
     (ReadTransactionReceipt 1 sample_tx, ReadValue (transaction_receipt_value sample_transaction_receipt)),
     (ReadTransaction 1 sample_tx, ReadValue sample_transaction),
     (ReadCanonicalBlock 1 ''10'', ReadValue (sample_block ''0xa'' sample_block_hash)),
     (ReadFinalizedBlock 1, ReadValue (sample_block ''0xc'' (''0x'' @ replicate 64 (CHR ''f'')))),
     (ReadCanonicalBlock 1 ''10'', ReadValue (sample_block ''0xa'' sample_block_hash)),
     (ReadCanonicalBlock 1 ''12'', ReadValue (sample_block ''0xc'' (''0x'' @ replicate 64 (CHR ''f''))))]"

definition sample_observe_input :: jsval where
  "sample_observe_input = mk_obj [] [(''operation'', operation_literal [PName ''operation''] op_sample_attempted),
     (''observedAt'', jint 140), (''timeoutMs'', jint 1000)]"

definition sample_reference_input :: jsval where
  "sample_reference_input = mk_obj [] [(''reference'', reference_literal [PName ''reference''] (own_reference op_sample_attempted)),
     (''observedAt'', jint 140), (''timeoutMs'', jint 1000)]"

definition sample_verified_receipt :: verified_receipt where
  "sample_verified_receipt = \<lparr>ve_transactionHash = sample_tx, ve_blockNumber = ''10'', ve_blockHash = sample_block_hash,
     ve_gasUsed = ''153'', ve_outcome = Success, ve_logs = [sample_log 4 [sample_tx] ''0x'', sample_log 5 sample_topics sample_data]\<rparr>"

lemma sample_captured: "captureObserveInput sample_ext sample_observe_input = Inr (op_sample_attempted, JInt 140, 1000)"
  by code_simp

lemma sample_inclusion_read:
  "yields (verifyInclusion op_sample_attempted (JInt 140) (own_reference op_sample_attempted)) (take 4 (tl sample_reads))
     (Inr (Some sample_inclusion))"
  by code_simp

lemma sample_inclusion_recorded:
  "yields (includeVerified sample_ext op_sample_attempted (JInt 140) False sample_inclusion) [] (Inr (Inr sample_included))"
  by code_simp

lemma sample_finality_read:
  "yields (verifyFinality sample_ext sample_included (JInt 140) (own_reference op_sample_attempted) sample_inclusion) (drop 5 sample_reads)
     (Inr (Inr sample_finality))"
  by code_simp

lemma sample_finality_recorded:
  "yields (settleFinalized sample_ext sample_included (JInt 140) sample_finality) [] (Inr (ObsFinalized sample_finalized))"
  by code_simp

lemma yields_bindI: "yields m tr1 (Inr x) \<Longrightarrow> yields (g x) tr2 r \<Longrightarrow> tr = tr1 @ tr2 \<Longrightarrow> yields (bindO m g) tr r"
  by (induction m arbitrary: tr tr1) (auto simp: yields_Read)

lemma yields_catchI: "yields m tr (Inr x) \<Longrightarrow> yields (catchO m h) tr (Inr x)"
  by (induction m arbitrary: tr) (auto simp: yields_Read)

lemma sample_chain_read:
  "yields (assertChain (ur_chainId (own_reference op_sample_attempted))) (take 1 sample_reads) (Inr ())"
  by code_simp

lemma sample_observed: "yields (observerObserve sample_ext sample_observe_input) sample_reads (Inr (ObsFinalized sample_finalized))"
proof -
  have "yields (settleIncluded sample_ext op_sample_attempted (JInt 140) (own_reference op_sample_attempted) False sample_inclusion)
      (drop 5 sample_reads) (Inr (ObsFinalized sample_finalized))"
    unfolding settleIncluded_def
    by (rule yields_bindI [OF sample_inclusion_recorded], simp, rule yields_bindI [OF sample_finality_read])
      (simp_all add: sample_finality_recorded)
  then have "yields (observationReads sample_ext op_sample_attempted (JInt 140)) sample_reads (Inr (ObsFinalized sample_finalized))"
    unfolding observationReads_def Let_def
    by (intro yields_bindI [OF sample_chain_read] yields_bindI [OF sample_inclusion_read]) (simp_all add: sample_reads_def)
  then show ?thesis
    unfolding observerObserve_def sample_captured
    by (auto simp: liftErr_def observeUnsettled_def terminalResult_def op_sample_attempted_def intro: yields_catchI)
qed

lemma sample_verified:
  "verifyParsedOperationReceiptEvidence (own_reference op_sample_attempted) sample_inclusion sample_receipt sample_transaction_receipt =
     Inr sample_verified_receipt"
  by code_simp

lemma sample_reference_captured:
  "captureReferenceInput sample_ext sample_reference_input = Inr (own_reference op_sample_attempted, JInt 140, 1000, None)"
  by code_simp

lemma sample_reference_observed:
  "yields (observeReference sample_ext sample_reference_input) (sample_reads @ [(ReadChainId 1, ReadValue (jint 1))])
     (Inr (ReferenceFinalized (own_reference op_sample_attempted) sample_verified_receipt sample_finality))"
  unfolding observeReference_def sample_reference_captured by code_simp

section \<open>Properties\<close>

text \<open>C9: A verified receipt exposes exactly the execution of its own UserOperation: the logs after the nearest EntryPoint
  boundary up to the operation's own event, which is the only event of its hash in the transaction and carries its
  sender, nonce and outcome; every log of the transaction is live, belongs to it, and the log indices strictly increase.\<close>

theorem verified_receipt_window:
  assumes "verifyParsedOperationReceiptEvidence reference inclusion receipt transactionReceipt = Inr verified"
  shows "execution_window reference transactionReceipt verified \<and>
    sorted_wrt (<) (map (BigIntHex \<circ> le_logIndex) (tr_logs transactionReceipt)) \<and>
    list_all (\<lambda>l. \<not> le_removed l \<and> le_transactionHash l = in_transactionHash inclusion \<and> le_blockHash l = in_blockHash inclusion)
      (tr_logs transactionReceipt) \<and>
    tr_status transactionReceipt = ''0x1''"
  by (rule verify_window [OF assms])

theorem verified_receipt_window_witness:
  "execution_window (own_reference op_sample_attempted) sample_transaction_receipt
     sample_verified_receipt"
  using verified_receipt_window [OF sample_verified] by simp

text \<open>C5: An observation of an unsettled operation never settles it without the evidence: a finalized result rests on four
  consecutive reads that prove the operation's own inclusion in a canonical block and three that prove a finalized head above
  it, a dropped result on the same reads of another UserOperation with the same account and nonce, a superseded result on
  an EntryPoint nonce read at a finalized height; every other result leaves the lifecycle state as it was or records an
  inclusion so proved. The record keeps its identity.\<close>

theorem settled_observation_evidenced:
  assumes "ext_ok E" "captureObserveInput E v = Inr (x, t, ms)" "terminalResult x = None"
    and "yields (observerObserve E v) tr (Inr ob)"
  shows "observation_justified tr x ob \<and> oc_identity (op_common (obs_operation ob)) = oc_identity (op_common x)"
  using observe_yields [OF assms(1,4)] observed_justified [OF assms(1)] assms(2,3) by fastforce

theorem settled_observation_evidenced_witness:
  "observation_justified sample_reads op_sample_attempted (ObsFinalized sample_finalized)"
  using settled_observation_evidenced [OF sample_ext_ok sample_captured _ sample_observed]
  by (simp add: terminalResult_def op_sample_attempted_def)

text \<open>C8: The runner accepts every result of its observer: the object the observer resolves with is captured as that very
  result, and the runner, replaying the observed transitions on the record it passed, derives exactly the record the
  observer returned. So an observation is never refused as inconsistent, whatever the provider answered.\<close>

theorem runner_accepts_observer:
  assumes "ext_ok E" "captureObserveInput E v = Inr (x, t, ms)" "yields (observerObserve E v) tr (Inr ob)"
  shows "captureObservationResult E (observation_literal ob) = Some ob \<and> deriveObservedOperation E x ob = Some (obs_operation ob)"
  using observe_yields [OF assms(1,3)] observed_accepted [OF assms(1)] terminal_accepted [OF assms(1)] assms(2) by fastforce

theorem runner_accepts_observer_witness:
  "deriveObservedOperation sample_ext op_sample_attempted (ObsFinalized sample_finalized) = Some sample_finalized"
  using runner_accepts_observer [OF sample_ext_ok sample_captured sample_observed] by simp


text \<open>C40: An observation of a UserOperation reference always answers, whatever the provider does: its failures are answers too.
  What it answers names the reference it was asked of and is proved by the reads it made: a receipt is exposed only with the
  reads that prove the inclusion, finality only with those that prove it, and a drop names another UserOperation of the
  same account and nonce whose inclusion and finality were both proved. The package's README lists
  the answers pending, unreadable and finalized and says that replacements are never looked for; the code also answers
  included, and dropped after it has read the replacement.\<close>

theorem reference_observation_evidenced:
  assumes "captureReferenceInput E v = Inr (ref, t, ms, hint)" "yields (observeReference E v) tr r"
  shows "\<exists>ob. r = Inr ob \<and> reference_justified tr ref ob"
  using assms observeReferenceReads_justified by (simp add: observeReference_def liftErr_def)

theorem reference_observation_evidenced_witness:
  "reference_justified (sample_reads @ [(ReadChainId 1, ReadValue (jint 1))]) (own_reference op_sample_attempted)
     (ReferenceFinalized (own_reference op_sample_attempted) sample_verified_receipt sample_finality)"
  using reference_observation_evidenced [OF sample_reference_captured sample_reference_observed] by simp

end
