(* ===== verification/Typed_Data.thy ===== *)
theory Typed_Data
  imports Identity_Profile
begin

text \<open>
  Model of the first half of \<open>packages/protocol/src/signing-request.ts\<close>: EIP-712 typed data captured
  once into canonical values. The type declarations are checked and must be exactly those reachable
  from the primary type; a value is captured along its declared type, within a nesting limit and
  within a budget of values and bytes for the whole capture.

  The budget is a second state beside the alias context, threaded by \<open>bindB\<close>. The depth the code counts
  up to \<open>MAX_DEPTH\<close> is counted down, so that the recursion of \<open>captureValue\<close> is on it. A captured
  struct is the list of its fields in declaration order.
\<close>

section \<open>Limits and character classes\<close>

definition MAX_TYPES :: nat where "MAX_TYPES = 64"
definition MAX_FIELDS :: nat where "MAX_FIELDS = 64"
definition MAX_IDENTIFIER_LENGTH :: nat where "MAX_IDENTIFIER_LENGTH = 64"
definition MAX_DEPTH :: nat where "MAX_DEPTH = 16"
definition MAX_ARRAY_LENGTH :: int where "MAX_ARRAY_LENGTH = 256"
definition MAX_SCALAR_BYTES :: int where "MAX_SCALAR_BYTES = 16 * 1024"
definition MAX_TOTAL_BYTES :: int where "MAX_TOTAL_BYTES = 64 * 1024"
definition MAX_TOTAL_VALUES :: int where "MAX_TOTAL_VALUES = 4096"

definition word_start :: "char \<Rightarrow> bool" where
  "word_start c \<longleftrightarrow> c \<in> set ''ABCDEFGHIJKLMNOPQRSTUVWXYZabcdefghijklmnopqrstuvwxyz_''"

text \<open>\<open>/^[A-Za-z_][A-Za-z0-9_]*$/u\<close>\<close>

definition IDENTIFIER :: "string \<Rightarrow> bool" where
  "IDENTIFIER s \<longleftrightarrow> s \<noteq> [] \<and> word_start (hd s) \<and> list_all (\<lambda>c. word_start c \<or> dec_digit c) (tl s)"

text \<open>\<open>/^(?:0|[1-9][0-9]*)$/u\<close> and \<open>/^(?:0|-?[1-9][0-9]*)$/u\<close>\<close>

definition DECIMAL_UINT :: "string \<Rightarrow> bool" where
  "DECIMAL_UINT s \<longleftrightarrow> s = ''0'' \<or> (s \<noteq> [] \<and> hd s \<noteq> CHR ''0'' \<and> list_all dec_digit s)"

definition DECIMAL_INT :: "string \<Rightarrow> bool" where
  "DECIMAL_INT s \<longleftrightarrow> DECIMAL_UINT s \<or> (take 1 s = ''-'' \<and> DECIMAL_UINT (drop 1 s) \<and> drop 1 s \<noteq> ''0'')"

text \<open>\<open>BigInt(s)\<close> on a decimal string with a sign.\<close>

definition BigIntSigned :: "string \<Rightarrow> int" where
  "BigIntSigned s = (if take 1 s = ''-'' then - BigInt (drop 1 s) else BigInt s)"

definition RESERVED_RECORD_KEYS :: "string list" where
  "RESERVED_RECORD_KEYS = [''__proto__'', ''constructor'', ''prototype'']"

text \<open>\<open>textEncoder.encode(text).length\<close>: the UTF-8 length of the code units represented here.\<close>

definition utf8_length :: "string \<Rightarrow> int" where
  "utf8_length s = sum_list (map (\<lambda>c. if (of_char c :: nat) < 128 then 1 else 2) s)"

section \<open>Typed data\<close>

record eip712_field =
  ef_name :: string
  ef_type :: string

type_synonym eip712_types = "(string \<times> eip712_field list) list"

datatype eip712_value =
    EipString string
  | EipBool bool
  | EipArray "eip712_value list"
  | EipStruct "(string \<times> eip712_value) list"

record typed_data =
  td_types :: eip712_types
  td_primaryType :: string
  td_domain :: eip712_value
  td_message :: eip712_value

text \<open>Array suffixes from innermost to outermost; \<open>None\<close> is dynamic.\<close>

record parsed_type =
  pt_base :: string
  pt_dimensions :: "int option list"

record capture_budget =
  cb_values :: int
  cb_bytes :: int

section \<open>Captures within a budget\<close>

type_synonym 'a budgeted = "capture_budget \<Rightarrow> (err, 'a \<times> capture_budget) capture"

definition returnB :: "'a \<Rightarrow> 'a budgeted" where
  "returnB x b = returnC (x, b)"

definition failB :: "err \<Rightarrow> 'a budgeted" where
  "failB e b = failC e"

definition bindB :: "'a budgeted \<Rightarrow> ('a \<Rightarrow> 'b budgeted) \<Rightarrow> 'b budgeted" where
  "bindB m f b = bindC (m b) (\<lambda>(x, b'). f x b')"

definition liftB :: "(err, 'a) capture \<Rightarrow> 'a budgeted" where
  "liftB m b = bindC m (\<lambda>x. returnC (x, b))"

definition guardB :: "bool \<Rightarrow> err \<Rightarrow> unit budgeted" where
  "guardB p e = liftB (guardC p e)"

primrec mapB :: "('a \<Rightarrow> 'b budgeted) \<Rightarrow> 'a list \<Rightarrow> 'b list budgeted" where
  "mapB f [] = returnB []"
| "mapB f (x # xs) = bindB (f x) (\<lambda>y. bindB (mapB f xs) (\<lambda>ys. returnB (y # ys)))"

definition consumeBytes :: "string \<Rightarrow> err \<Rightarrow> int \<Rightarrow> unit budgeted" where
  "consumeBytes text fail maximum b =
     (let bytes = utf8_length text in
      if bytes > maximum \<or> cb_bytes b + bytes > MAX_TOTAL_BYTES then failC fail
      else returnC ((), b\<lparr>cb_bytes := cb_bytes b + bytes\<rparr>))"

definition consumeValue :: "err \<Rightarrow> unit budgeted" where
  "consumeValue fail b =
     (if cb_values b + 1 > MAX_TOTAL_VALUES then failC fail else returnC ((), b\<lparr>cb_values := cb_values b + 1\<rparr>))"

section \<open>Types\<close>

definition eip_identifier :: "jsval \<Rightarrow> err \<Rightarrow> err + string" where
  "eip_identifier v fail =
     (case v of
        JString s \<Rightarrow>
          if length s > MAX_IDENTIFIER_LENGTH \<or> \<not> IDENTIFIER s \<or> s \<in> set RESERVED_RECORD_KEYS then Inl fail else Inr s
      | _ \<Rightarrow> Inl fail)"

lemma dimension_rest: "rest \<noteq> [] \<Longrightarrow> length (tl (dropWhile P (tl rest))) < length rest"
  using length_dropWhile_le [of P "tl rest"] by (cases rest) auto

text \<open>The loop over the array suffixes of a type.\<close>

function parseDimensions :: "string \<Rightarrow> err \<Rightarrow> err + int option list" where
  "parseDimensions rest fail =
     (if rest = [] then Inr []
      else
        let digits = takeWhile dec_digit (tl rest); after = dropWhile dec_digit (tl rest) in
        if hd rest \<noteq> CHR ''['' \<or> take 1 after \<noteq> '']'' then Inl fail
        else if digits = [] then bindE (parseDimensions (tl after) fail) (\<lambda>ds. Inr (None # ds))
        else if \<not> DECIMAL_UINT digits \<or> digits = ''0'' then Inl fail
        else if BigInt digits > MAX_ARRAY_LENGTH then Inl fail
        else bindE (parseDimensions (tl after) fail) (\<lambda>ds. Inr (Some (BigInt digits) # ds)))"
  by pat_completeness auto

termination
  by (relation "measure (\<lambda>(rest, fail). length rest)") (auto intro: dimension_rest [simplified])

text \<open>\<open>Number(widthText)\<close> of the digits after a prefix, or \<open>None\<close> where they are not canonical.\<close>

definition width_after :: "string \<Rightarrow> string \<Rightarrow> int option" where
  "width_after pre base =
     (let widthText = drop (length pre) base in if DECIMAL_UINT widthText then Some (BigInt widthText) else None)"

definition startsWith :: "string \<Rightarrow> string \<Rightarrow> bool" where
  "startsWith pre s \<longleftrightarrow> take (length pre) s = pre"

text \<open>The widths a base type that looks like an integer or fixed byte type may have.\<close>

definition baseAdmitted :: "string \<Rightarrow> bool" where
  "baseAdmitted base =
     (if base = ''uint'' \<or> base = ''int'' then False
      else if startsWith ''uint'' base \<or> startsWith ''int'' base then
        (case width_after (if startsWith ''uint'' base then ''uint'' else ''int'') base of
           None \<Rightarrow> False
         | Some width \<Rightarrow> \<not> (width < 8 \<or> width > 256 \<or> width mod 8 \<noteq> 0))
      else if startsWith ''bytes'' base \<and> base \<noteq> ''bytes'' then
        (case width_after ''bytes'' base of None \<Rightarrow> False | Some width \<Rightarrow> \<not> (width < 1 \<or> width > 32))
      else True)"

definition parseType :: "jsval \<Rightarrow> err \<Rightarrow> err + parsed_type" where
  "parseType v fail =
     (case v of
        JString s \<Rightarrow>
          if length s > MAX_IDENTIFIER_LENGTH * 2 then Inl fail
          else
            let base = takeWhile (\<lambda>c. c \<noteq> CHR ''['') s; suffix = dropWhile (\<lambda>c. c \<noteq> CHR ''['') s in
            if \<not> IDENTIFIER base then Inl fail
            else
              bindE (parseDimensions suffix fail) (\<lambda>dimensions.
              if \<not> baseAdmitted base then Inl fail
              else Inr \<lparr>pt_base = base, pt_dimensions = dimensions\<rparr>)
      | _ \<Rightarrow> Inl fail)"

definition byte_widths :: "string list" where
  "byte_widths = [''1'', ''2'', ''3'', ''4'', ''5'', ''6'', ''7'', ''8'', ''9'', ''10'', ''11'', ''12'', ''13'', ''14'', ''15'',
     ''16'', ''17'', ''18'', ''19'', ''20'', ''21'', ''22'', ''23'', ''24'', ''25'', ''26'', ''27'', ''28'', ''29'', ''30'', ''31'', ''32'']"

definition integer_widths :: "string list" where
  "integer_widths = [''8'', ''16'', ''24'', ''32'', ''40'', ''48'', ''56'', ''64'', ''72'', ''80'', ''88'', ''96'', ''104'', ''112'',
     ''120'', ''128'', ''136'', ''144'', ''152'', ''160'', ''168'', ''176'', ''184'', ''192'', ''200'', ''208'', ''216'', ''224'',
     ''232'', ''240'', ''248'', ''256'']"

definition isBuiltin :: "string \<Rightarrow> bool" where
  "isBuiltin base \<longleftrightarrow>
     base = ''address'' \<or> base = ''bool'' \<or> base = ''string'' \<or> base = ''bytes'' \<or>
     (startsWith ''bytes'' base \<and> drop 5 base \<in> set byte_widths) \<or>
     (startsWith ''uint'' base \<and> drop 4 base \<in> set integer_widths) \<or>
     (startsWith ''int'' base \<and> drop 3 base \<in> set integer_widths)"

text \<open>The fields of one struct, with the names already seen in it.\<close>

fun captureFields :: "err \<Rightarrow> string list \<Rightarrow> jsval list \<Rightarrow> eip712_field list budgeted" where
  "captureFields fail fieldNames [] = returnB []"
| "captureFields fail fieldNames (entry # entries) =
     bindB (liftB (exactRecord entry [''name'', ''type''] fail)) (\<lambda>field.
     bindB (liftB (liftC (eip_identifier (fld field ''name'') fail))) (\<lambda>fieldName.
     bindB (guardB (fieldName \<notin> set fieldNames) fail) (\<lambda>_.
     bindB (liftB (liftC (parseType (fld field ''type'') fail))) (\<lambda>_.
     let type = (case fld field ''type'' of JString t \<Rightarrow> t | _ \<Rightarrow> []) in
     bindB (consumeBytes fieldName fail MAX_SCALAR_BYTES) (\<lambda>_.
     bindB (consumeBytes type fail MAX_SCALAR_BYTES) (\<lambda>_.
     bindB (captureFields fail (fieldNames @ [fieldName]) entries) (\<lambda>members.
     returnB (\<lparr>ef_name = fieldName, ef_type = type\<rparr> # members))))))))"

definition captureStruct :: "err \<Rightarrow> fields \<Rightarrow> string \<Rightarrow> (string \<times> eip712_field list) budgeted" where
  "captureStruct fail record name =
     bindB (liftB (liftC (eip_identifier (JString name) fail))) (\<lambda>_.
     bindB (consumeBytes name fail MAX_SCALAR_BYTES) (\<lambda>_.
     bindB (guardB (\<not> isBuiltin name) fail) (\<lambda>_.
     bindB (liftB (captureDenseArray (fld record name) fail)) (\<lambda>entries.
     bindB (guardB (\<not> length entries > MAX_FIELDS) fail) (\<lambda>_.
     bindB (captureFields fail [] entries) (\<lambda>members.
     returnB (name, members)))))))"

definition domainOrder :: "string list" where
  "domainOrder = [''name'', ''version'', ''chainId'', ''verifyingContract'', ''salt'']"

definition domainTypes :: "string \<Rightarrow> string option" where
  "domainTypes = map_of [(''name'', ''string''), (''version'', ''string''), (''chainId'', ''uint256''),
     (''verifyingContract'', ''address''), (''salt'', ''bytes32'')]"

text \<open>\<open>list.indexOf(x)\<close>\<close>

fun indexOf :: "'a list \<Rightarrow> 'a \<Rightarrow> int" where
  "indexOf [] x = -1"
| "indexOf (y # ys) x = (if y = x then 0 else let i = indexOf ys x in if i < 0 then i else i + 1)"

fun domainOrdered :: "int \<Rightarrow> eip712_field list \<Rightarrow> bool" where
  "domainOrdered previous [] = True"
| "domainOrdered previous (field # members) =
     (let index = indexOf domainOrder (ef_name field) in
      \<not> (index < 0 \<or> domainTypes (ef_name field) \<noteq> Some (ef_type field) \<or> index \<le> previous) \<and> domainOrdered index members)"

definition referencesDeclared :: "err \<Rightarrow> eip712_types \<Rightarrow> bool" where
  "referencesDeclared fail types \<longleftrightarrow>
     list_all (\<lambda>(name, members). list_all (\<lambda>field.
       case parseType (JString (ef_type field)) fail of
         Inl _ \<Rightarrow> False
       | Inr parsed \<Rightarrow> isBuiltin (pt_base parsed) \<or> map_of types (pt_base parsed) \<noteq> None) members) types"

text \<open>\<open>Object.keys(record).sort()\<close>; an array index among the keys is no identifier.\<close>

fun key_names :: "fields \<Rightarrow> string list option" where
  "key_names [] = Some []"
| "key_names ((PName k, v) # fs) = map_option ((#) k) (key_names fs)"
| "key_names _ = None"

definition captureTypes :: "err \<Rightarrow> jsval \<Rightarrow> eip712_types budgeted" where
  "captureTypes fail v =
     bindB (liftB (captureRecord v fail)) (\<lambda>record.
     case key_names record of
       None \<Rightarrow> failB fail
     | Some keys \<Rightarrow>
         let names = sort keys in
         bindB (guardB (\<not> (length names < 2 \<or> length names > MAX_TYPES \<or> ''EIP712Domain'' \<notin> set names)) fail) (\<lambda>_.
         bindB (mapB (captureStruct fail record) names) (\<lambda>result.
         let domainFields = (case map_of result ''EIP712Domain'' of None \<Rightarrow> [] | Some members \<Rightarrow> members) in
         bindB (guardB (\<not> length domainFields < 1 \<and> domainOrdered (- 1) domainFields) fail) (\<lambda>_.
         bindB (guardB (referencesDeclared fail result) fail) (\<lambda>_.
         returnB result)))))"

section \<open>Values\<close>

definition captureInteger :: "err \<Rightarrow> bool \<Rightarrow> int \<Rightarrow> jsval \<Rightarrow> string budgeted" where
  "captureInteger fail signed width v =
     (case v of
        JString s \<Rightarrow>
          if \<not> (if signed then DECIMAL_INT s else DECIMAL_UINT s) \<or> length s > 79 then failB fail
          else
            let integer = BigIntSigned s;
                minimum = (if signed then - (2 ^ nat (width - 1)) else 0);
                maximum = (if signed then 2 ^ nat (width - 1) - 1 else 2 ^ nat width - 1) in
            if integer < minimum \<or> integer > maximum then failB fail
            else bindB (consumeBytes s fail MAX_SCALAR_BYTES) (\<lambda>_. returnB s)
      | _ \<Rightarrow> failB fail)"

definition captureBytes :: "err \<Rightarrow> int option \<Rightarrow> jsval \<Rightarrow> string budgeted" where
  "captureBytes fail expected v =
     (case v of
        JString s \<Rightarrow>
          if \<not> lower_bytes s then failB fail
          else
            let byteLength = (int (length s) - 2) div 2 in
            if (case expected of None \<Rightarrow> False | Some n \<Rightarrow> byteLength \<noteq> n) \<or> byteLength > MAX_SCALAR_BYTES then failB fail
            else bindB (consumeBytes s fail (2 + MAX_SCALAR_BYTES * 2)) (\<lambda>_. returnB s)
      | _ \<Rightarrow> failB fail)"

definition captureScalar :: "ext \<Rightarrow> err \<Rightarrow> string \<Rightarrow> jsval \<Rightarrow> eip712_value budgeted" where
  "captureScalar E fail base v =
     bindB (consumeValue fail) (\<lambda>_.
     if base = ''bool'' then (case v of JBool b \<Rightarrow> returnB (EipBool b) | _ \<Rightarrow> failB fail)
     else if base = ''address'' then
       bindB (liftB (liftC (captureAddress E v (\<lambda>_. fail) True))) (\<lambda>captured.
       bindB (consumeBytes captured fail MAX_SCALAR_BYTES) (\<lambda>_. returnB (EipString captured)))
     else if base = ''string'' then
       (case v of
          JString s \<Rightarrow> bindB (consumeBytes s fail MAX_SCALAR_BYTES) (\<lambda>_. returnB (EipString s))
        | _ \<Rightarrow> failB fail)
     else if startsWith ''bytes'' base then
       bindB (captureBytes fail (if base = ''bytes'' then None else Some (BigInt (drop 5 base))) v) (\<lambda>s. returnB (EipString s))
     else if startsWith ''uint'' base \<or> startsWith ''int'' base then
       (let signed = startsWith ''int'' base in
        bindB (captureInteger fail signed (BigInt (drop (if signed then 3 else 4) base)) v) (\<lambda>s. returnB (EipString s)))
     else failB fail)"

text \<open>The first argument is the number of levels left, \<open>MAX_DEPTH + 1 - depth\<close>.\<close>

primrec captureValue :: "nat \<Rightarrow> ext \<Rightarrow> err \<Rightarrow> eip712_types \<Rightarrow> parsed_type \<Rightarrow> jsval \<Rightarrow> eip712_value budgeted" where
  "captureValue 0 E fail types parsed v = failB fail"
| "captureValue (Suc levels) E fail types parsed v =
     (if pt_dimensions parsed \<noteq> [] then
        bindB (consumeValue fail) (\<lambda>_.
        bindB (liftB (captureDenseArray v fail)) (\<lambda>entries.
        bindB (guardB (\<not> (int (length entries) > MAX_ARRAY_LENGTH \<or>
                 (case last (pt_dimensions parsed) of None \<Rightarrow> False | Some expected \<Rightarrow> int (length entries) \<noteq> expected))) fail) (\<lambda>_.
        let nested = parsed\<lparr>pt_dimensions := butlast (pt_dimensions parsed)\<rparr> in
        bindB (mapB (captureValue levels E fail types nested) entries) (\<lambda>values.
        returnB (EipArray values)))))
      else case map_of types (pt_base parsed) of
        None \<Rightarrow> captureScalar E fail (pt_base parsed) v
      | Some members \<Rightarrow>
          bindB (consumeValue fail) (\<lambda>_.
          bindB (liftB (exactRecord v (map ef_name members) fail)) (\<lambda>record.
          bindB (mapB (\<lambda>field.
                   bindB (liftB (liftC (parseType (JString (ef_type field)) fail))) (\<lambda>parsed.
                   bindB (captureValue levels E fail types parsed (fld record (ef_name field))) (\<lambda>x.
                   returnB (ef_name field, x)))) members) (\<lambda>result.
          returnB (EipStruct result)))))"

section \<open>Reachable types\<close>

text \<open>The struct types the fields of a type name, in declaration order.\<close>

primrec dependencies :: "err \<Rightarrow> eip712_field list \<Rightarrow> err + string list" where
  "dependencies fail [] = Inr []"
| "dependencies fail (field # members) =
     bindE (parseType (JString (ef_type field)) fail) (\<lambda>parsed.
     bindE (dependencies fail members) (\<lambda>ds.
     Inr (if isBuiltin (pt_base parsed) then ds else pt_base parsed # ds)))"

definition declared :: "eip712_types \<Rightarrow> string \<Rightarrow> eip712_field list" where
  "declared types name = (case map_of types name of None \<Rightarrow> [] | Some members \<Rightarrow> members)"

lemma undeclared_dependencies: "name \<notin> fst ` set types \<Longrightarrow> dependencies fail (declared types name) = Inr []"
  by (simp add: declared_def map_of_eq_None_iff [THEN iffD2])

text \<open>The worklist loop; the head of the list is the top of the stack \<open>pending\<close>.\<close>

function reachableTypes :: "err \<Rightarrow> eip712_types \<Rightarrow> string list \<Rightarrow> string list \<Rightarrow> err + string list" where
  "reachableTypes fail types [] reachable = Inr reachable"
| "reachableTypes fail types (name # pending) reachable =
     (if name \<in> set reachable then reachableTypes fail types pending reachable
      else
        case dependencies fail (declared types name) of
          Inl e \<Rightarrow> Inl e
        | Inr ds \<Rightarrow>
            reachableTypes fail types (rev (filter (\<lambda>d. d \<notin> set (name # reachable)) ds) @ pending) (name # reachable))"
  by pat_completeness auto

termination
proof (relation "measures [\<lambda>(fail, types, pending, reachable). card (fst ` set types - set reachable),
    \<lambda>(fail, types, pending, reachable). length pending]", goal_cases)
  case (3 fail types name pending reachable ds)
  show ?case
  proof (cases "name \<in> fst ` set types")
    case True
    with 3 have "fst ` set types - set (name # reachable) \<subset> fst ` set types - set reachable" by auto
    then have "card (fst ` set types - set (name # reachable)) < card (fst ` set types - set reachable)"
      by (intro psubset_card_mono) auto
    then show ?thesis by simp
  next
    case False
    with 3(2) have "ds = []" by (simp add: undeclared_dependencies)
    moreover from False have "fst ` set types - set (name # reachable) = fst ` set types - set reachable" by auto
    ultimately show ?thesis by simp
  qed
qed auto

section \<open>Typed data as a whole\<close>

definition struct_of :: "string \<Rightarrow> parsed_type" where
  "struct_of name = \<lparr>pt_base = name, pt_dimensions = []\<rparr>"

definition is_object :: "eip712_value \<Rightarrow> bool" where
  "is_object x = (case x of EipStruct _ \<Rightarrow> True | _ \<Rightarrow> False)"

definition emptyBudget :: capture_budget where
  "emptyBudget = \<lparr>cb_values = 0, cb_bytes = 0\<rparr>"

definition captureTypedDataB :: "ext \<Rightarrow> err \<Rightarrow> jsval \<Rightarrow> typed_data budgeted" where
  "captureTypedDataB E fail v =
     bindB (liftB (exactRecord v [''types'', ''primaryType'', ''domain'', ''message''] fail)) (\<lambda>record.
     bindB (captureTypes fail (fld record ''types'')) (\<lambda>types.
     bindB (liftB (liftC (eip_identifier (fld record ''primaryType'') fail))) (\<lambda>primaryType.
     bindB (guardB (\<not> (primaryType = ''EIP712Domain'' \<or> map_of types primaryType = None)) fail) (\<lambda>_.
     bindB (liftB (liftC (reachableTypes fail types [primaryType] [''EIP712Domain'']))) (\<lambda>reachable.
     bindB (guardB (length reachable = length types) fail) (\<lambda>_.
     bindB (captureValue (MAX_DEPTH + 1) E fail types (struct_of ''EIP712Domain'') (fld record ''domain'')) (\<lambda>domain.
     bindB (captureValue (MAX_DEPTH + 1) E fail types (struct_of primaryType) (fld record ''message'')) (\<lambda>message.
     bindB (guardB (is_object domain \<and> is_object message) fail) (\<lambda>_.
     returnB \<lparr>td_types = types, td_primaryType = primaryType, td_domain = domain, td_message = message\<rparr>)))))))))"

definition captureCanonicalEip712TypedData :: "ext \<Rightarrow> err \<Rightarrow> jsval \<Rightarrow> (err, typed_data) capture" where
  "captureCanonicalEip712TypedData E fail v =
     bindC (captureTypedDataB E fail v emptyBudget) (\<lambda>(typedData, budget). returnC typedData)"

abbreviation sr_err :: err where
  "sr_err \<equiv> OaathProtocolError Signing_request_invalid"

definition parseCanonicalEip712TypedData :: "ext \<Rightarrow> jsval \<Rightarrow> err + typed_data" where
  "parseCanonicalEip712TypedData E v =
     capturedByProtocol Signing_request_invalid (runC (captureCanonicalEip712TypedData E sr_err v))"

section \<open>What a successful capture implies\<close>

lemma bindB_InrE:
  assumes "bindB m f b c = Inr ((y, b''), c'')"
  obtains x b' c' where "m b c = Inr ((x, b'), c')" "f x b' c' = Inr ((y, b''), c'')"
  using assms by (auto simp: bindB_def elim!: bindC_InrE)

lemma returnB_Inr [simp]: "returnB x b c = Inr ((y, b'), c') \<longleftrightarrow> y = x \<and> b' = b \<and> c' = c"
  by (auto simp: returnB_def)

lemma failB_Inr [simp]: "failB e b c \<noteq> Inr z"
  by (simp add: failB_def)

lemma liftB_Inr [simp]: "liftB m b c = Inr ((y, b'), c') \<longleftrightarrow> m c = Inr (y, c') \<and> b' = b"
  by (auto simp: liftB_def bindC_def returnC_def split: sum.splits)

lemma guardB_Inr [simp]: "guardB p e b c = Inr ((u, b'), c') \<longleftrightarrow> p \<and> b' = b \<and> c' = c"
  by (auto simp: guardB_def)

lemma consumeBytes_Inr [simp]:
  "consumeBytes s fail m b c = Inr ((u, b'), c') \<longleftrightarrow>
     utf8_length s \<le> m \<and> cb_bytes b + utf8_length s \<le> MAX_TOTAL_BYTES \<and>
     b' = b\<lparr>cb_bytes := cb_bytes b + utf8_length s\<rparr> \<and> c' = c"
  by (auto simp: consumeBytes_def Let_def)

lemma consumeValue_Inr [simp]:
  "consumeValue fail b c = Inr ((u, b'), c') \<longleftrightarrow>
     cb_values b + 1 \<le> MAX_TOTAL_VALUES \<and> b' = b\<lparr>cb_values := cb_values b + 1\<rparr> \<and> c' = c"
  by (auto simp: consumeValue_def)

lemma mapB_InrE:
  assumes "mapB f xs b c = Inr ((ys, b'), c')"
  shows "list_all2 (\<lambda>x y. \<exists>b1 c1 b2 c2. f x b1 c1 = Inr ((y, b2), c2)) xs ys"
  using assms by (induction xs arbitrary: b c ys) (auto elim!: bindB_InrE, blast)

text \<open>What a budgeted map spends is the sum of what its elements spend.\<close>

lemma mapB_spends:
  assumes "mapB f xs b c = Inr ((ys, b'), c')"
    and "\<And>x y b1 c1 b2 c2. x \<in> set xs \<Longrightarrow> f x b1 c1 = Inr ((y, b2), c2) \<Longrightarrow>
      cb_values b2 = cb_values b1 + vals y \<and> cb_bytes b2 = cb_bytes b1 + size_of y"
  shows "cb_values b' = cb_values b + sum_list (map vals ys) \<and> cb_bytes b' = cb_bytes b + sum_list (map size_of ys)"
  using assms
proof (induction xs arbitrary: b c ys)
  case (Cons x xs)
  from Cons.prems(1) obtain y b1 c1 zs where y: "f x b c = Inr ((y, b1), c1)" and zs: "mapB f xs b1 c1 = Inr ((zs, b'), c')"
    and ys: "ys = y # zs" by (auto elim!: bindB_InrE)
  have "cb_values b' = cb_values b1 + sum_list (map vals zs) \<and> cb_bytes b' = cb_bytes b1 + sum_list (map size_of zs)"
    by (rule Cons.IH [OF zs]) (rule Cons.prems(2), simp_all)
  with Cons.prems(2) [OF _ y] ys show ?case by simp
qed simp

declare parseDimensions.simps [simp del]

lemma parseType_fail: "parseType (JString s) fail = Inr q \<Longrightarrow> parseType (JString s) fail' = Inr q"
proof -
  have dims: "parseDimensions r fail = Inr ds \<Longrightarrow> parseDimensions r fail' = Inr ds" for r ds
  proof (induction r fail arbitrary: ds rule: parseDimensions.induct)
    case (1 r fail)
    from 1(3) show ?case
      by (subst (asm) parseDimensions.simps, subst parseDimensions.simps)
        (use 1(1) [OF _ HOL.refl HOL.refl] 1(2) [OF _ HOL.refl HOL.refl] in \<open>auto simp: Let_def bindE_Inr split: if_splits\<close>)
  qed
  show "parseType (JString s) fail = Inr q \<Longrightarrow> parseType (JString s) fail' = Inr q"
    by (auto simp: parseType_def Let_def bindE_Inr dest: dims split: if_splits)
qed

definition type_of :: "string \<Rightarrow> parsed_type option" where
  "type_of s = (case parseType (JString s) sr_err of Inl _ \<Rightarrow> None | Inr q \<Rightarrow> Some q)"

lemma parseType_string: "parseType (JString s) fail = Inr q \<longleftrightarrow> type_of s = Some q"
  using parseType_fail [of s fail q sr_err] parseType_fail [of s sr_err q fail]
  by (auto simp: type_of_def split: sum.splits)

section \<open>Typed values\<close>

definition integer_ok :: "bool \<Rightarrow> int \<Rightarrow> string \<Rightarrow> bool" where
  "integer_ok signed width s \<longleftrightarrow>
     (if signed then DECIMAL_INT s \<and> - (2 ^ nat (width - 1)) \<le> BigIntSigned s \<and> BigIntSigned s < 2 ^ nat (width - 1)
      else DECIMAL_UINT s \<and> 0 \<le> BigInt s \<and> BigInt s < 2 ^ nat width)"

definition scalar_ok :: "string \<Rightarrow> eip712_value \<Rightarrow> bool" where
  "scalar_ok base x =
     (case x of
        EipBool _ \<Rightarrow> base = ''bool''
      | EipString s \<Rightarrow>
          if base = ''address'' then lower_hex 40 s
          else if base = ''string'' then True
          else if startsWith ''bytes'' base
          then lower_bytes s \<and> (base \<noteq> ''bytes'' \<longrightarrow> (int (length s) - 2) div 2 = BigInt (drop 5 base))
          else if startsWith ''uint'' base then integer_ok False (BigInt (drop 4 base)) s
          else startsWith ''int'' base \<and> integer_ok True (BigInt (drop 3 base)) s
      | _ \<Rightarrow> False)"

inductive has_type :: "eip712_types \<Rightarrow> parsed_type \<Rightarrow> eip712_value \<Rightarrow> bool" for types where
  array: "pt_dimensions p \<noteq> [] \<Longrightarrow> int (length vs) \<le> MAX_ARRAY_LENGTH \<Longrightarrow>
    (\<And>n. last (pt_dimensions p) = Some n \<Longrightarrow> int (length vs) = n) \<Longrightarrow>
    (\<And>v. v \<in> set vs \<Longrightarrow> has_type types (p\<lparr>pt_dimensions := butlast (pt_dimensions p)\<rparr>) v) \<Longrightarrow> has_type types p (EipArray vs)"
| struct: "pt_dimensions p = [] \<Longrightarrow> map_of types (pt_base p) = Some members \<Longrightarrow>
    list_all2 (\<lambda>f e. fst e = ef_name f \<and> (\<exists>q. type_of (ef_type f) = Some q \<and> has_type types q (snd e))) members es \<Longrightarrow>
    has_type types p (EipStruct es)"
| scalar: "pt_dimensions p = [] \<Longrightarrow> map_of types (pt_base p) = None \<Longrightarrow> scalar_ok (pt_base p) x \<Longrightarrow> has_type types p x"

text \<open>The size of a value: its nodes and the bytes of its scalars.\<close>

fun value_count :: "eip712_value \<Rightarrow> int" where
  "value_count (EipArray vs) = 1 + sum_list (map value_count vs)"
| "value_count (EipStruct es) = 1 + sum_list (map (\<lambda>e. value_count (snd e)) es)"
| "value_count _ = 1"

fun value_bytes :: "eip712_value \<Rightarrow> int" where
  "value_bytes (EipArray vs) = sum_list (map value_bytes vs)"
| "value_bytes (EipStruct es) = sum_list (map (\<lambda>e. value_bytes (snd e)) es)"
| "value_bytes (EipString s) = utf8_length s"
| "value_bytes (EipBool b) = 0"

lemma startsWith_uint: "startsWith ''uint'' s \<Longrightarrow> \<not> startsWith ''int'' s"
  by (cases s) (auto simp: startsWith_def)

lemma DECIMAL_UINT_unsigned: "DECIMAL_UINT s \<Longrightarrow> BigIntSigned s = BigInt s \<and> 0 \<le> BigInt s"
  using foldl_digits_nonneg [of s 0]
  by (cases s) (auto simp: DECIMAL_UINT_def BigIntSigned_def BigInt_def dec_digit_def digit_val_def)

lemma captureInteger_typed:
  assumes "captureInteger fail signed width v b c = Inr ((s, b'), c')"
  shows "integer_ok signed width s \<and> b' = b\<lparr>cb_bytes := cb_bytes b + utf8_length s\<rparr>"
  using assms DECIMAL_UINT_unsigned [of s]
  by (cases signed; cases v; auto simp: captureInteger_def integer_ok_def Let_def elim!: bindB_InrE split: if_splits)+

lemma captureBytes_typed:
  assumes "captureBytes fail expected v b c = Inr ((s, b'), c')"
  shows "lower_bytes s \<and> (\<forall>n. expected = Some n \<longrightarrow> (int (length s) - 2) div 2 = n) \<and> b' = b\<lparr>cb_bytes := cb_bytes b + utf8_length s\<rparr>"
  using assms by (cases v; auto simp: captureBytes_def Let_def elim!: bindB_InrE split: if_splits option.splits)+

lemma captureScalar_typed:
  assumes "ext_ok E" "captureScalar E fail base v b c = Inr ((x, b'), c')"
  shows "scalar_ok base x \<and> cb_values b' = cb_values b + value_count x \<and> cb_bytes b' = cb_bytes b + value_bytes x"
proof -
  from assms(2) obtain b1 c1 where b1: "b1 = b\<lparr>cb_values := cb_values b + 1\<rparr>" and rest: "
     (if base = ''bool'' then (case v of JBool b \<Rightarrow> returnB (EipBool b) | _ \<Rightarrow> failB fail)
     else if base = ''address'' then
       bindB (liftB (liftC (captureAddress E v (\<lambda>_. fail) True))) (\<lambda>captured.
       bindB (consumeBytes captured fail MAX_SCALAR_BYTES) (\<lambda>_. returnB (EipString captured)))
     else if base = ''string'' then
       (case v of JString s \<Rightarrow> bindB (consumeBytes s fail MAX_SCALAR_BYTES) (\<lambda>_. returnB (EipString s)) | _ \<Rightarrow> failB fail)
     else if startsWith ''bytes'' base then
       bindB (captureBytes fail (if base = ''bytes'' then None else Some (BigInt (drop 5 base))) v) (\<lambda>s. returnB (EipString s))
     else if startsWith ''uint'' base \<or> startsWith ''int'' base then
       bindB (captureInteger fail (startsWith ''int'' base) (BigInt (drop (if startsWith ''int'' base then 3 else 4) base)) v)
         (\<lambda>s. returnB (EipString s))
     else failB fail) b1 c1 = Inr ((x, b'), c')"
    unfolding captureScalar_def Let_def by (elim bindB_InrE) (simp add: Let_def)
  show ?thesis
    using rest assms(1) startsWith_uint [of base] unfolding b1
    by (auto simp: scalar_ok_def dest: captureAddress_zero dest!: captureInteger_typed captureBytes_typed
        elim!: bindB_InrE split: if_split_asm jsval.splits)
qed

text \<open>Nesting within a number of levels.\<close>

fun within_depth :: "nat \<Rightarrow> eip712_value \<Rightarrow> bool" where
  "within_depth 0 x = False"
| "within_depth (Suc n) (EipArray vs) = list_all (within_depth n) vs"
| "within_depth (Suc n) (EipStruct es) = list_all (\<lambda>e. within_depth n (snd e)) es"
| "within_depth (Suc n) _ = True"

lemma within_depth_scalar: "scalar_ok base x \<Longrightarrow> within_depth (Suc n) x"
  by (cases x) (auto simp: scalar_ok_def)

definition value_ok :: "eip712_types \<Rightarrow> nat \<Rightarrow> parsed_type \<Rightarrow> eip712_value \<Rightarrow> capture_budget \<Rightarrow> capture_budget \<Rightarrow> bool" where
  "value_ok types n p x b b' \<longleftrightarrow> has_type types p x \<and> within_depth n x \<and>
     cb_values b' = cb_values b + value_count x \<and> cb_bytes b' = cb_bytes b + value_bytes x"

lemma captureArray_ok:
  assumes IH: "\<And>p v b c x b' c'. captureValue n E fail types p v b c = Inr ((x, b'), c') \<Longrightarrow> value_ok types n p x b b'"
    and dims: "pt_dimensions p \<noteq> []" and cap: "captureValue (Suc n) E fail types p v b c = Inr ((x, b'), c')"
  shows "value_ok types (Suc n) p x b b'"
proof -
  let ?q = "p\<lparr>pt_dimensions := butlast (pt_dimensions p)\<rparr>"
  from cap dims obtain entries vs b1 c1 where b1: "b1 = b\<lparr>cb_values := cb_values b + 1\<rparr>" and x: "x = EipArray vs"
    and len: "int (length entries) \<le> MAX_ARRAY_LENGTH"
      "case last (pt_dimensions p) of None \<Rightarrow> True | Some k \<Rightarrow> int (length entries) = k"
    and vs: "mapB (captureValue n E fail types ?q) entries b1 c1 = Inr ((vs, b'), c')"
    by (force simp: Let_def elim!: bindB_InrE split: option.splits)
  from mapB_InrE [OF vs] have all: "list_all2 (\<lambda>e y. has_type types ?q y \<and> within_depth n y) entries vs"
    by (rule list_all2_mono) (auto dest!: IH simp: value_ok_def)
  then have "length vs = length entries" and each: "has_type types ?q y \<and> within_depth n y" if "y \<in> set vs" for y
    using that by (auto simp: list_all2_conv_all_nth in_set_conv_nth)
  moreover have "cb_values b' = cb_values b1 + sum_list (map value_count vs) \<and> cb_bytes b' = cb_bytes b1 + sum_list (map value_bytes vs)"
    by (rule mapB_spends [OF vs]) (auto dest!: IH simp: value_ok_def)
  moreover have "has_type types p (EipArray vs)"
    using all len each by (intro has_type.array dims) (auto dest: list_all2_lengthD split: option.splits)
  ultimately show ?thesis by (auto simp: value_ok_def x b1 list_all_iff)
qed

lemma captureStruct_ok:
  assumes IH: "\<And>p v b c x b' c'. captureValue n E fail types p v b c = Inr ((x, b'), c') \<Longrightarrow> value_ok types n p x b b'"
    and dims: "pt_dimensions p = []" and base: "map_of types (pt_base p) = Some members"
    and cap: "captureValue (Suc n) E fail types p v b c = Inr ((x, b'), c')"
  shows "value_ok types (Suc n) p x b b'"
proof -
  define step where "step rec = (\<lambda>field :: eip712_field. bindB (liftB (liftC (parseType (JString (ef_type field)) fail))) (\<lambda>parsed.
     bindB (captureValue n E fail types parsed (fld rec (ef_name field))) (\<lambda>x. returnB (ef_name field, x))))" for rec
  from cap dims base obtain rec es b1 c1 where b1: "b1 = b\<lparr>cb_values := cb_values b + 1\<rparr>" and x: "x = EipStruct es"
    and es: "mapB (step rec) members b1 c1 = Inr ((es, b'), c')"
    unfolding step_def by (auto elim!: bindB_InrE)
  have step: "\<exists>q. fst e = ef_name f \<and> type_of (ef_type f) = Some q \<and> value_ok types n q (snd e) b1 b2"
    if "step rec f b1 c1 = Inr ((e, b2), c2)" for f e b1 c1 b2 c2
    using that unfolding step_def by (auto simp: parseType_string dest!: IH elim!: bindB_InrE)
  from mapB_InrE [OF es] have all: "list_all2 (\<lambda>f e. within_depth n (snd e) \<and> fst e = ef_name f \<and>
      (\<exists>q. type_of (ef_type f) = Some q \<and> has_type types q (snd e))) members es"
    by (rule list_all2_mono) (auto dest!: step simp: value_ok_def)
  have "cb_values b' = cb_values b1 + sum_list (map (\<lambda>e. value_count (snd e)) es) \<and>
      cb_bytes b' = cb_bytes b1 + sum_list (map (\<lambda>e. value_bytes (snd e)) es)"
    by (rule mapB_spends [OF es]) (auto dest!: step simp: value_ok_def)
  moreover have "within_depth n (snd e)" if "e \<in> set es" for e
    using all that by (auto simp: list_all2_conv_all_nth in_set_conv_nth)
  moreover have "has_type types p (EipStruct es)"
    by (rule has_type.struct [OF dims base]) (rule list_all2_mono [OF all], auto)
  ultimately show ?thesis by (auto simp: value_ok_def x b1 list_all_iff)
qed

lemma captureValue_ok:
  assumes "ext_ok E" "captureValue n E fail types p v b c = Inr ((x, b'), c')"
  shows "value_ok types n p x b b'"
  using assms(2)
proof (induction n arbitrary: p v b c x b' c')
  case (Suc n)
  consider "pt_dimensions p \<noteq> []" | members where "pt_dimensions p = []" "map_of types (pt_base p) = Some members"
    | "pt_dimensions p = []" "map_of types (pt_base p) = None" by (cases "map_of types (pt_base p)") auto
  then show ?case
  proof cases
    case 1
    show ?thesis by (rule captureArray_ok [OF Suc.IH 1 Suc.prems])
  next
    case 2
    show ?thesis by (rule captureStruct_ok [OF Suc.IH 2 Suc.prems])
  next
    case 3
    with Suc.prems have "captureScalar E fail (pt_base p) v b c = Inr ((x, b'), c')" by simp
    from captureScalar_typed [OF assms(1) this] 3 show ?thesis
      by (simp add: value_ok_def has_type.scalar within_depth_scalar [of "pt_base p"])
  qed
qed simp

section \<open>The budget\<close>

definition within_budget :: "capture_budget \<Rightarrow> bool" where
  "within_budget b \<longleftrightarrow> cb_values b \<le> MAX_TOTAL_VALUES \<and> cb_bytes b \<le> MAX_TOTAL_BYTES"

definition keeps_budget :: "'a budgeted \<Rightarrow> bool" where
  "keeps_budget m \<longleftrightarrow> (\<forall>b c x b' c'. within_budget b \<longrightarrow> m b c = Inr ((x, b'), c') \<longrightarrow> within_budget b')"

named_theorems budget_intros \<open>captures that stay within the budget\<close>

lemma keeps_simple [budget_intros]:
  "keeps_budget (returnB x)" "keeps_budget (failB e)" "keeps_budget (liftB m)" "keeps_budget (guardB p e)"
  "keeps_budget (consumeBytes s e k)" "keeps_budget (consumeValue e)"
  by (auto simp: keeps_budget_def within_budget_def)

lemma keeps_bind [budget_intros]: "keeps_budget m \<Longrightarrow> (\<And>x. keeps_budget (f x)) \<Longrightarrow> keeps_budget (bindB m f)"
  unfolding keeps_budget_def by (blast elim: bindB_InrE)

lemma keeps_map [budget_intros]: "(\<And>x. keeps_budget (f x)) \<Longrightarrow> keeps_budget (mapB f xs)"
  by (induction xs) (auto intro!: budget_intros)

lemma keeps_if [budget_intros]: "(p \<Longrightarrow> keeps_budget m) \<Longrightarrow> (\<not> p \<Longrightarrow> keeps_budget m') \<Longrightarrow> keeps_budget (if p then m else m')"
  by simp

lemma keeps_cases [budget_intros]:
  "keeps_budget m \<Longrightarrow> (\<And>y. keeps_budget (f y)) \<Longrightarrow> keeps_budget (case z of None \<Rightarrow> m | Some y \<Rightarrow> f y)"
  "(\<And>s. keeps_budget (g s)) \<Longrightarrow> keeps_budget (case v of JString s \<Rightarrow> g s | _ \<Rightarrow> failB e)"
  "(\<And>p. keeps_budget (h p)) \<Longrightarrow> keeps_budget (case v of JBool p \<Rightarrow> h p | _ \<Rightarrow> failB e)"
  by (cases z; simp) (cases v; simp add: keeps_simple)+

lemma keeps_scalar [budget_intros]: "keeps_budget (captureScalar E fail base v)"
  unfolding captureScalar_def captureInteger_def captureBytes_def Let_def by (intro budget_intros)

lemma keeps_value [budget_intros]: "keeps_budget (captureValue n E fail types p v)"
proof (induction n arbitrary: p v)
  case (Suc n)
  show ?case unfolding captureValue.simps Let_def by (intro budget_intros Suc.IH)
qed (simp add: keeps_simple)

lemma keeps_fields [budget_intros]: "keeps_budget (captureFields fail seen entries)"
proof (induction entries arbitrary: seen)
  case (Cons e es)
  show ?case unfolding captureFields.simps Let_def by (intro budget_intros Cons.IH)
qed (simp add: keeps_simple)

lemma keeps_types [budget_intros]: "keeps_budget (captureTypes fail v)"
  unfolding captureTypes_def captureStruct_def Let_def by (intro budget_intros)

lemma keeps_typed_data: "keeps_budget (captureTypedDataB E fail v)"
  unfolding captureTypedDataB_def by (intro budget_intros)

section \<open>Well-formed type declarations\<close>

definition name_ok :: "string \<Rightarrow> bool" where
  "name_ok s \<longleftrightarrow> length s \<le> MAX_IDENTIFIER_LENGTH \<and> IDENTIFIER s \<and> s \<notin> set RESERVED_RECORD_KEYS"

definition field_ok :: "eip712_field \<Rightarrow> bool" where
  "field_ok f \<longleftrightarrow> name_ok (ef_name f) \<and> type_of (ef_type f) \<noteq> None"

definition struct_ok :: "string \<times> eip712_field list \<Rightarrow> bool" where
  "struct_ok d \<longleftrightarrow> name_ok (fst d) \<and> \<not> isBuiltin (fst d) \<and> length (snd d) \<le> MAX_FIELDS \<and>
     distinct (map ef_name (snd d)) \<and> list_all field_ok (snd d)"

definition wf_types :: "eip712_types \<Rightarrow> bool" where
  "wf_types types \<longleftrightarrow> length types \<le> MAX_TYPES \<and> sorted (map fst types) \<and> list_all struct_ok types \<and>
     (\<exists>fs. map_of types ''EIP712Domain'' = Some fs \<and> fs \<noteq> [] \<and> domainOrdered (- 1) fs) \<and> referencesDeclared sr_err types"

definition types_bytes :: "eip712_types \<Rightarrow> int" where
  "types_bytes types = sum_list (map (\<lambda>d. utf8_length (fst d) +
     sum_list (map (\<lambda>f. utf8_length (ef_name f) + utf8_length (ef_type f)) (snd d))) types)"

lemma eip_identifier_Inr [simp]: "eip_identifier v fail = Inr s \<longleftrightarrow> v = JString s \<and> name_ok s"
  by (auto simp: eip_identifier_def name_ok_def split: jsval.splits)

lemma parseType_JString: "parseType v fail = Inr q \<Longrightarrow> \<exists>s. v = JString s \<and> type_of s = Some q"
  by (cases v) (auto simp: parseType_string, auto simp: parseType_def)

lemma captureFields_ok:
  assumes "captureFields fail seen entries b c = Inr ((fs, b'), c')"
  shows "length fs = length entries \<and> list_all field_ok fs \<and> distinct (map ef_name fs) \<and> set (map ef_name fs) \<inter> set seen = {} \<and>
    b' = b\<lparr>cb_bytes := cb_bytes b + sum_list (map (\<lambda>f. utf8_length (ef_name f) + utf8_length (ef_type f)) fs)\<rparr>"
  using assms
proof (induction entries arbitrary: seen b c fs)
  case (Cons e es)
  from Cons.prems obtain name ty gs c1 q where fs: "fs = \<lparr>ef_name = name, ef_type = ty\<rparr> # gs" and name: "name_ok name" "name \<notin> set seen"
    and ty: "type_of ty = Some q" and gs: "captureFields fail (seen @ [name]) es
      (b\<lparr>cb_bytes := cb_bytes b + utf8_length name + utf8_length ty\<rparr>) c1 = Inr ((gs, b'), c')"
    by (fastforce simp: Let_def dest!: parseType_JString elim!: bindB_InrE)
  from Cons.IH [OF gs] fs name ty show ?case by (auto simp: field_ok_def algebra_simps)
qed simp

lemma captureStruct_declared:
  assumes "captureStruct fail rec name b c = Inr ((d, b'), c')"
  shows "fst d = name \<and> struct_ok d \<and> cb_values b' = cb_values b + 0 \<and> cb_bytes b' = cb_bytes b + (utf8_length (fst d) +
    sum_list (map (\<lambda>f. utf8_length (ef_name f) + utf8_length (ef_type f)) (snd d)))"
  using assms unfolding captureStruct_def
  by (auto simp: struct_ok_def dest!: captureFields_ok elim!: bindB_InrE)

lemma parseType_case:
  "(case parseType (JString s) fail of Inl _ \<Rightarrow> False | Inr q \<Rightarrow> P q) \<longleftrightarrow> (\<exists>q. type_of s = Some q \<and> P q)"
  unfolding parseType_string [of s fail, symmetric] by (auto split: sum.splits)

lemma referencesDeclared_iff:
  "referencesDeclared fail types \<longleftrightarrow> (\<forall>d \<in> set types. \<forall>f \<in> set (snd d). \<exists>q. type_of (ef_type f) = Some q \<and>
     (isBuiltin (pt_base q) \<or> map_of types (pt_base q) \<noteq> None))"
  unfolding referencesDeclared_def parseType_case by (auto simp: list_all_iff)

lemma captureTypes_ok:
  assumes "captureTypes fail v b c = Inr ((types, b'), c')"
  shows "wf_types types \<and> cb_values b' = cb_values b \<and> cb_bytes b' = cb_bytes b + types_bytes types"
proof -
  from assms obtain rec ns b1 c1 where len: "length ns \<le> MAX_TYPES" and types: "mapB (captureStruct fail rec) (sort ns) b c1 = Inr ((types, b'), c')"
    and dom: "case map_of types ''EIP712Domain'' of None \<Rightarrow> False | Some fs \<Rightarrow> fs \<noteq> [] \<and> domainOrdered (- 1) fs" and refs: "referencesDeclared fail types"
    unfolding captureTypes_def Let_def
    by (fastforce simp: not_less elim!: bindB_InrE split: option.splits)
  from mapB_InrE [OF types] have all: "list_all2 (\<lambda>n d. fst d = n \<and> struct_ok d) (sort ns) types"
    by (rule list_all2_mono) (auto dest!: captureStruct_declared)
  have "map fst types = sort ns"
    using all by (auto simp: list_all2_conv_all_nth intro!: nth_equalityI)
  moreover have "list_all struct_ok types" using all by (auto simp: list_all2_conv_all_nth list_all_length)
  moreover have "cb_values b' = cb_values b + sum_list (map (\<lambda>d. 0) types) \<and> cb_bytes b' = cb_bytes b + types_bytes types"
    unfolding types_bytes_def by (rule mapB_spends [OF types]) (auto dest!: captureStruct_declared)
  ultimately show ?thesis
    using len dom refs referencesDeclared_iff [of fail types] referencesDeclared_iff [of sr_err types] list_all2_lengthD [OF all]
    by (auto simp: wf_types_def split: option.splits)
qed

section \<open>Reachable types\<close>

definition refers :: "eip712_types \<Rightarrow> string \<Rightarrow> string \<Rightarrow> bool" where
  "refers types a d \<longleftrightarrow> (\<exists>f \<in> set (declared types a). \<exists>q. type_of (ef_type f) = Some q \<and> pt_base q = d \<and> \<not> isBuiltin d)"

lemma dependencies_Inr:
  "dependencies fail fs = Inr ds \<Longrightarrow>
     set ds = {d. \<exists>f \<in> set fs. \<exists>q. type_of (ef_type f) = Some q \<and> pt_base q = d \<and> \<not> isBuiltin d}"
  by (induction fs arbitrary: ds) (auto simp: bindE_Inr parseType_string split: if_splits, blast)

lemma dependencies_refers: "dependencies fail (declared types a) = Inr ds \<Longrightarrow> set ds = {d. refers types a d}"
  by (auto dest!: dependencies_Inr simp: refers_def)

text \<open>The loop collects the given names and everything a collected name refers to, and nothing else.\<close>

lemma reachableTypes_closed:
  assumes "reachableTypes fail types pending reachable = Inr r" "distinct reachable"
  shows "distinct r \<and> set reachable \<union> set pending \<subseteq> set r \<and>
    set r \<subseteq> set reachable \<union> {d. \<exists>a \<in> set pending. (refers types)\<^sup>*\<^sup>* a d} \<and>
    (\<forall>a d. a \<in> set r - set reachable \<longrightarrow> refers types a d \<longrightarrow> d \<in> set r)"
  using assms
proof (induction fail types pending reachable arbitrary: r rule: reachableTypes.induct)
  case (2 fail types name pending reachable)
  show ?case
  proof (cases "name \<in> set reachable")
    case True
    with "2.prems"(1) have "reachableTypes fail types pending reachable = Inr r" by simp
    with "2.IH"(1) [OF True] "2.prems"(2) True show ?thesis by fastforce
  next
    case False
    with "2.prems"(1) obtain ds where ds: "dependencies fail (declared types name) = Inr ds"
      and rec: "reachableTypes fail types (rev (filter (\<lambda>d. d \<notin> set (name # reachable)) ds) @ pending) (name # reachable) = Inr r"
      by (auto split: sum.splits)
    have "distinct (name # reachable)" using False "2.prems"(2) by simp
    note ih = "2.IH"(2) [OF False ds rec this]
    note refs = dependencies_refers [OF ds]
    show ?thesis
    proof (intro conjI allI impI)
      show "distinct r" "set reachable \<union> set (name # pending) \<subseteq> set r" using ih by auto
      show "set r \<subseteq> set reachable \<union> {d. \<exists>a \<in> set (name # pending). (refers types)\<^sup>*\<^sup>* a d}"
      proof
        fix d assume "d \<in> set r"
        with ih consider "d = name" | "d \<in> set reachable" | a where "a \<in> set pending" "(refers types)\<^sup>*\<^sup>* a d"
          | a where "a \<in> set ds" "(refers types)\<^sup>*\<^sup>* a d" by auto
        then show "d \<in> set reachable \<union> {d. \<exists>a \<in> set (name # pending). (refers types)\<^sup>*\<^sup>* a d}"
          using refs by cases (auto intro: converse_rtranclp_into_rtranclp)
      qed
      show "d \<in> set r" if "a \<in> set r - set reachable" "refers types a d" for a d
      proof (cases "a = name")
        case True
        with that(2) refs have "d \<in> set ds" by simp
        moreover have "set (filter (\<lambda>d. d \<notin> set (name # reachable)) ds) \<union> set (name # reachable) \<subseteq> set r" using ih by simp
        ultimately show ?thesis by auto
      next
        case False
        then have "a \<in> set r - set (name # reachable)" using that(1) by simp
        with that(2) ih show ?thesis by blast
      qed
    qed
  qed
qed auto

declare captureValue.simps [simp del] reachableTypes.simps [simp del]

lemma domainOrdered_types: "domainOrdered k fs \<Longrightarrow> f \<in> set fs \<Longrightarrow> domainTypes (ef_name f) = Some (ef_type f)"
  by (induction fs arbitrary: k) (auto simp: Let_def)

lemma domain_builtin: "domainTypes n = Some s \<Longrightarrow> type_of s = Some q \<Longrightarrow> isBuiltin (pt_base q)"
proof -
  have "list_all (\<lambda>s. case type_of s of None \<Rightarrow> False | Some q \<Rightarrow> isBuiltin (pt_base q)) [''string'', ''uint256'', ''address'', ''bytes32'']"
    by code_simp
  moreover assume "domainTypes n = Some s" "type_of s = Some q"
  then have "s \<in> set [''string'', ''uint256'', ''address'', ''bytes32'']" by (auto simp: domainTypes_def split: if_splits)
  ultimately show "isBuiltin (pt_base q)" using \<open>type_of s = Some q\<close> by (auto simp: list_all_iff)
qed

lemma domain_refers: "wf_types types \<Longrightarrow> \<not> refers types ''EIP712Domain'' d"
  by (auto simp: wf_types_def refers_def declared_def dest!: domainOrdered_types domain_builtin)

lemma refers_declared:
  assumes "wf_types types" "refers types a d"
  shows "d \<in> set (map fst types)"
proof -
  from assms(2) obtain f q where f: "f \<in> set (declared types a)" "type_of (ef_type f) = Some q" "pt_base q = d" "\<not> isBuiltin d"
    by (auto simp: refers_def)
  then obtain fs where "map_of types a = Some fs" "f \<in> set fs" by (cases "map_of types a") (auto simp: declared_def)
  then have "(a, fs) \<in> set types" by (simp add: map_of_SomeD)
  with assms(1) f \<open>f \<in> set fs\<close> have "map_of types d \<noteq> None"
    by (fastforce simp: wf_types_def referencesDeclared_iff)
  then show ?thesis by (auto simp: map_of_eq_None_iff)
qed

lemma reachable_declared:
  assumes "wf_types types" "reachableTypes fail types [primary] [''EIP712Domain''] = Inr r" "length r = length types"
    and "map_of types primary \<noteq> None"
  shows "distinct (map fst types)" "set (map fst types) = insert ''EIP712Domain'' {d. (refers types)\<^sup>*\<^sup>* primary d}"
proof -
  have "distinct [''EIP712Domain'']" by simp
  note inv = reachableTypes_closed [OF assms(2) this]
  have closed: "distinct r" "''EIP712Domain'' \<in> set r" "primary \<in> set r" using inv by auto
  have sound: "set r \<subseteq> insert ''EIP712Domain'' {d. (refers types)\<^sup>*\<^sup>* primary d}" using inv by auto
  have "\<forall>a d. a \<in> set r - set [''EIP712Domain''] \<longrightarrow> refers types a d \<longrightarrow> d \<in> set r" using inv by (elim conjE)
  then have next_in: "d \<in> set r" if "a \<in> set r" "a \<noteq> ''EIP712Domain''" "refers types a d" for a d using that by simp
  have r: "d \<in> set r" if "(refers types)\<^sup>*\<^sup>* primary d" for d
    using that
  proof (induction rule: rtranclp_induct)
    case (step a d)
    then have "a \<noteq> ''EIP712Domain''" using domain_refers [OF assms(1)] by blast
    with step show ?case by (blast intro: next_in)
  qed (rule closed(3))
  have names: "d \<in> set (map fst types)" if "(refers types)\<^sup>*\<^sup>* primary d" for d
    using that assms(4) refers_declared [OF assms(1)] by (induction rule: rtranclp_induct) (auto simp: map_of_eq_None_iff)
  have dom: "''EIP712Domain'' \<in> set (map fst types)"
    using assms(1) by (auto simp: wf_types_def dest!: map_of_SomeD intro: rev_image_eqI)
  have r_eq: "set r = insert ''EIP712Domain'' {d. (refers types)\<^sup>*\<^sup>* primary d}" using sound closed(2) r by blast
  with names dom have sub: "set r \<subseteq> set (map fst types)" by auto
  moreover have "card (set r) = length (map fst types)" using closed(1) assms(3) by (simp add: distinct_card)
  moreover have "card (set (map fst types)) \<le> length (map fst types)" by (rule card_length)
  ultimately have eq: "set r = set (map fst types)" by (intro card_seteq) simp_all
  with \<open>card (set r) = length (map fst types)\<close> show "distinct (map fst types)" by (intro card_distinct) simp
  show "set (map fst types) = insert ''EIP712Domain'' {d. (refers types)\<^sup>*\<^sup>* primary d}" using eq r_eq by simp
qed

section \<open>Captured typed data\<close>

definition wf_typed_data :: "typed_data \<Rightarrow> bool" where
  "wf_typed_data td \<longleftrightarrow> wf_types (td_types td) \<and>
     has_type (td_types td) (struct_of ''EIP712Domain'') (td_domain td) \<and> has_type (td_types td) (struct_of (td_primaryType td)) (td_message td)"

definition bounded_typed_data :: "typed_data \<Rightarrow> bool" where
  "bounded_typed_data td \<longleftrightarrow>
     within_depth (MAX_DEPTH + 1) (td_domain td) \<and> within_depth (MAX_DEPTH + 1) (td_message td) \<and>
     value_count (td_domain td) + value_count (td_message td) \<le> MAX_TOTAL_VALUES \<and>
     types_bytes (td_types td) + value_bytes (td_domain td) + value_bytes (td_message td) \<le> MAX_TOTAL_BYTES"

definition closed_typed_data :: "typed_data \<Rightarrow> bool" where
  "closed_typed_data td \<longleftrightarrow> td_primaryType td \<noteq> ''EIP712Domain'' \<and> distinct (map fst (td_types td)) \<and>
     set (map fst (td_types td)) = insert ''EIP712Domain'' {d. (refers (td_types td))\<^sup>*\<^sup>* (td_primaryType td) d}"

lemma captureTypedData_ok:
  assumes "ext_ok E" "captureTypedDataB E fail v emptyBudget c = Inr ((td, b'), c')"
  shows "wf_typed_data td \<and> bounded_typed_data td \<and> closed_typed_data td"
proof -
  have "within_budget emptyBudget" by (simp add: within_budget_def emptyBudget_def MAX_TOTAL_BYTES_def MAX_TOTAL_VALUES_def)
  with keeps_typed_data [of E fail v] assms(2) have budget: "within_budget b'" unfolding keeps_budget_def by blast
  show ?thesis
    using assms(2) unfolding captureTypedDataB_def
  proof (elim bindB_InrE, goal_cases)
    case (1 rec b1 c1 types b2 c2 primary b3 c3 u b4 c4 r b5 c5 u' b6 c6 dom b7 c7 msg b8 c8 u'' b9 c9)
    have td: "td = \<lparr>td_types = types, td_primaryType = primary, td_domain = dom, td_message = msg\<rparr>" using 1(10) by simp
    have states: "b1 = emptyBudget" "b6 = b2" "b8 = b'" using 1(1,3-6,9,10) by auto
    note t = captureTypes_ok [OF 1(2)]
    note d = captureValue_ok [OF assms(1) 1(7)] and m = captureValue_ok [OF assms(1) 1(8)]
    have primary: "primary \<noteq> ''EIP712Domain''" "map_of types primary \<noteq> None" using 1(4) by auto
    have r: "reachableTypes fail types [primary] [''EIP712Domain''] = Inr r" "length r = length types" using 1(5,6) by auto
    have "closed_typed_data td"
      unfolding closed_typed_data_def td typed_data.simps using t primary reachable_declared [OF _ r primary(2)] by blast
    moreover have "wf_typed_data td" using t d m by (simp add: td wf_typed_data_def value_ok_def)
    moreover have "bounded_typed_data td"
      using t d m budget states by (simp add: td bounded_typed_data_def value_ok_def within_budget_def emptyBudget_def)
    ultimately show ?case by simp
  qed
qed

end
