(* ===== verification/Typed_Data_Codec.thy ===== *)
theory Typed_Data_Codec
  imports Typed_Data
begin

text \<open>
  Captured typed data offered again is captured as itself: the literal of every captured value, struct
  and type declaration spends exactly the budget the original spent, and is read back unchanged.
\<close>

section \<open>Literals\<close>

function value_literal :: "ref \<Rightarrow> eip712_value \<Rightarrow> jsval" where
  "value_literal p (EipString s) = JString s"
| "value_literal p (EipBool b) = JBool b"
| "value_literal p (EipArray vs) = mk_arr p (map (\<lambda>(i, v). value_literal (nth_at p i) v) (zip [0..<length vs] vs))"
| "value_literal p (EipStruct es) = mk_obj p (map (\<lambda>(k, v). (k, value_literal (at p k) v)) es)"
  by pat_completeness auto

termination
proof (relation "measure (\<lambda>(p, x). size x)", goal_cases)
  case (2 p vs z i v)
  then have "v \<in> set vs" by (auto dest: set_zip_rightD)
  then show ?case by (auto dest: size_list_estimation' [of v vs _ size, OF _ order_refl])
next
  case (3 p es z k v)
  then have "(k, v) \<in> set es" by simp
  from size_list_estimation' [OF this, of "size v" "\<lambda>e. size_prod (\<lambda>_. 0) size e"] show ?case by auto
qed simp

definition field_literal :: "ref \<Rightarrow> eip712_field \<Rightarrow> jsval" where
  "field_literal p f = mk_obj p [(''name'', JString (ef_name f)), (''type'', JString (ef_type f))]"

definition types_literal :: "ref \<Rightarrow> eip712_types \<Rightarrow> jsval" where
  "types_literal p types = mk_obj p (map (\<lambda>(n, fs). (n, show_list field_literal (at p n) fs)) types)"

definition typed_data_literal :: "ref \<Rightarrow> typed_data \<Rightarrow> jsval" where
  "typed_data_literal p td = mk_obj p
     [(''types'', types_literal (at p ''types'') (td_types td)), (''primaryType'', JString (td_primaryType td)),
      (''domain'', value_literal (at p ''domain'') (td_domain td)), (''message'', value_literal (at p ''message'') (td_message td))]"

section \<open>Reading within a budget\<close>

text \<open>\<open>reads (m b) c p (x, b')\<close>: the capture succeeds with \<open>x\<close>, leaves the budget \<open>b'\<close> and marks only objects of \<open>p\<close>.\<close>

lemma readsB_bind:
  assumes "m b d = Inr ((x, b1), d)" "reads (f x b1) d p y"
  shows "reads (bindB m f b) d p y"
  using assms by (simp add: bindB_def reads_bind_pure)

lemma readsB_return [simp]: "reads (returnB x b) d p (y, b') \<longleftrightarrow> x = y \<and> b = b'"
  by (simp add: returnB_def reads_return_iff)

lemma readsB_child:
  assumes "within p S d" "k \<notin> S" "\<And>d. fresh (p @ [k]) d \<Longrightarrow> reads (m b) d (p @ [k]) (x, b1)"
    and "\<And>d. within p (insert k S) d \<Longrightarrow> reads (f x b1) d p y"
  shows "reads (bindB m f b) d p y"
  unfolding bindB_def by (rule reads_bind_child [OF assms(1,2,3)]) (simp_all add: assms(4))

lemma readsB_array:
  assumes "mapB f xs b c = Inr ((ys, b'), c')"
    and "\<And>x y b1 c1 b2 c2 q d. f x b1 c1 = Inr ((y, b2), c2) \<Longrightarrow> fresh q d \<Longrightarrow> reads (g (lit q y) b1) d q (y, b2)"
    and "within p S d" "\<And>i. i < length ys \<Longrightarrow> PIndex (k + i) \<notin> S"
  shows "reads (mapB g (map (\<lambda>(i, y). lit (nth_at p i) y) (zip [k..<k + length ys] ys)) b) d p (ys, b')"
  using assms
proof (induction xs arbitrary: b c ys k S d)
  case (Cons x xs)
  from Cons.prems(1) obtain y b1 c1 zs where y: "f x b c = Inr ((y, b1), c1)" and zs: "mapB f xs b1 c1 = Inr ((zs, b'), c')"
    and ys: "ys = y # zs" by (auto elim!: bindB_InrE)
  have "k < k + length ys" by (simp add: ys)
  then have list: "map (\<lambda>(i, y). lit (nth_at p i) y) (zip [k..<k + length ys] ys) =
      lit (nth_at p k) y # map (\<lambda>(i, y). lit (nth_at p i) y) (zip [Suc k..<Suc k + length zs] zs)"
    by (simp add: ys upt_conv_Cons del: upt_Suc)
  show ?case unfolding list mapB.simps
  proof (rule readsB_child [OF Cons.prems(3)])
    show "PIndex k \<notin> S" using Cons.prems(4) [of 0] by (simp add: ys)
    show "reads (g (lit (nth_at p k) y) b) d (nth_at p k) (y, b1)" if "fresh (nth_at p k) d" for d
      using Cons.prems(2) [OF y that] .
    fix d assume w: "within p (insert (PIndex k) S) d"
    have "reads (mapB g (map (\<lambda>(i, y). lit (nth_at p i) y) (zip [Suc k..<Suc k + length zs] zs)) b1) d p (zs, b')"
    proof (rule Cons.IH [OF zs Cons.prems(2) w])
      show "PIndex (Suc k + i) \<notin> insert (PIndex k) S" if "i < length zs" for i
        using Cons.prems(4) [of "Suc i"] that by (simp add: ys)
    qed
    then show "reads (bindB (mapB g (map (\<lambda>(i, y). lit (nth_at p i) y) (zip [Suc k..<Suc k + length zs] zs)))
        (\<lambda>ys. returnB (y # ys)) b1) d p (ys, b')"
      by (auto simp: reads_def bindB_def bindC_def returnB_def returnC_def ys)
  qed
qed simp

section \<open>Values read again\<close>

lemma bindB_Inr:
  "bindB m f b c = Inr ((y, b''), c'') \<longleftrightarrow> (\<exists>x b' c'. m b c = Inr ((x, b'), c') \<and> f x b' c' = Inr ((y, b''), c''))"
  by (auto simp: bindB_def bindC_def split: sum.splits prod.splits)

lemma captureInteger_again:
  "captureInteger fail signed width v b c = Inr ((s, b'), c') \<Longrightarrow> captureInteger fail' signed width (JString s) b d = Inr ((s, b'), d)"
  by (cases v) (auto simp: captureInteger_def Let_def bindB_Inr split: if_splits)

lemma captureBytes_again:
  "captureBytes fail expected v b c = Inr ((s, b'), c') \<Longrightarrow> captureBytes fail' expected (JString s) b d = Inr ((s, b'), d)"
  by (cases v) (auto simp: captureBytes_def Let_def bindB_Inr split: if_splits)

lemma captureScalar_again:
  assumes "ext_ok E" "captureScalar E fail base v b c = Inr ((x, b'), c')"
  shows "captureScalar E fail' base (value_literal p x) b d = Inr ((x, b'), d)"
proof -
  have addr: "captureAddress E v g True = Inr a \<Longrightarrow> captureAddress E (JString a) g' True = Inr a" for a g g'
    using captureAddress_again captureAddress_zero assms(1) by blast
  consider "base = ''bool''" | "base = ''address''" | "base = ''string''"
    | "base \<noteq> ''bool''" "base \<noteq> ''address''" "base \<noteq> ''string''" "startsWith ''bytes'' base"
    | "base \<noteq> ''bool''" "base \<noteq> ''address''" "base \<noteq> ''string''" "\<not> startsWith ''bytes'' base" by blast
  then show ?thesis
  proof cases
    case 1
    with assms(2) show ?thesis by (cases v) (auto simp: captureScalar_def bindB_Inr)
  next
    case 2
    with assms(2) addr show ?thesis by (auto simp: captureScalar_def bindB_Inr)
  next
    case 3
    with assms(2) show ?thesis by (cases v) (auto simp: captureScalar_def bindB_Inr)
  next
    case 4
    with assms(2) show ?thesis by (auto simp: captureScalar_def bindB_Inr intro: captureBytes_again split del: if_split)
  next
    case 5
    with assms(2) show ?thesis
      by (cases "startsWith ''uint'' base \<or> startsWith ''int'' base")
        (auto simp: captureScalar_def Let_def bindB_Inr intro: captureInteger_again simp del: disj_not1 split del: if_split)
  qed
qed

text \<open>Elements read at the paths of their own distinct keys.\<close>

lemma readsB_keyed:
  assumes "mapB f xs b c = Inr ((ys, b'), c')" "distinct (map key xs)"
    and "\<And>x y b1 c1 b2 c2 d. x \<in> set xs \<Longrightarrow> y \<in> set ys \<Longrightarrow> f x b1 c1 = Inr ((y, b2), c2) \<Longrightarrow> fresh (p @ [key x]) d \<Longrightarrow>
      reads (g x b1) d (p @ [key x]) (y, b2)"
    and "within p S d" "\<And>x. x \<in> set xs \<Longrightarrow> key x \<notin> S"
  shows "reads (mapB g xs b) d p (ys, b')"
  using assms
proof (induction xs arbitrary: b c ys S d)
  case (Cons x xs)
  from Cons.prems(1) obtain y b1 c1 zs where y: "f x b c = Inr ((y, b1), c1)" and zs: "mapB f xs b1 c1 = Inr ((zs, b'), c')"
    and ys: "ys = y # zs" by (auto elim!: bindB_InrE)
  have "key x \<notin> S" using Cons.prems(5) by simp
  from Cons.prems(4) this show ?case unfolding mapB.simps
  proof (rule readsB_child)
    show "reads (g x b) d (p @ [key x]) (y, b1)" if "fresh (p @ [key x]) d" for d
      by (rule Cons.prems(3) [OF _ _ y that]) (simp_all add: ys)
    fix d assume w: "within p (insert (key x) S) d"
    have "reads (mapB g xs b1) d p (zs, b')"
    proof (rule Cons.IH [OF zs _ _ w])
      show "key x' \<notin> insert (key x) S" if "x' \<in> set xs" for x'
        using that Cons.prems(2,5) by (auto, metis image_eqI)
      show "reads (g x' b1) d (p @ [key x']) (y', b2)"
        if "x' \<in> set xs" "y' \<in> set zs" "f x' b1 c1 = Inr ((y', b2), c2)" "fresh (p @ [key x']) d" for x' y' b1 c1 b2 c2 d
        by (rule Cons.prems(3) [OF _ _ that(3,4)]) (simp_all add: ys that)
    qed (use Cons.prems(2) in simp)
    then show "reads (bindB (mapB g xs) (\<lambda>ys. returnB (y # ys)) b1) d p (ys, b')"
      by (auto simp: reads_def bindB_def bindC_def returnB_def returnC_def ys)
  qed
qed simp

definition fields_distinct :: "eip712_types \<Rightarrow> bool" where
  "fields_distinct types \<longleftrightarrow> (\<forall>n fs. map_of types n = Some fs \<longrightarrow> distinct (map ef_name fs))"

lemma captureDenseArray_lit:
  "fresh p d \<Longrightarrow> int (length vs) \<le> MAX_ARRAY_LENGTH \<Longrightarrow>
   captureDenseArray (mk_arr p (map g (zip [0..<length vs] vs))) e d = Inr (map g (zip [0..<length vs] vs), insert p d)"
  by (rule captureDenseArray_mk_arr) (auto simp: MAX_ARRAY_LENGTH_def MAX_SAFE_INTEGER_def)

lemma map_of_keyed: "map_of (map (\<lambda>(k, v). (k, g k v)) es) k = map_option (g k) (map_of es k)"
  by (induction es) auto

lemma captureValue_again:
  assumes "ext_ok E" "fields_distinct types" "captureValue n E fail types q v b c = Inr ((x, b'), c')" "fresh p d"
  shows "reads (captureValue n E fail' types q (value_literal p x) b) d p (x, b')"
  using assms(3,4)
proof (induction n arbitrary: q v b c x b' c' p d)
  case (Suc n)
  note cap = Suc.prems(1) [unfolded captureValue.simps]
  consider "pt_dimensions q \<noteq> []" | members where "pt_dimensions q = []" "map_of types (pt_base q) = Some members"
    | "pt_dimensions q = []" "map_of types (pt_base q) = None" by (cases "map_of types (pt_base q)") auto
  then show ?case
  proof cases
    case 1
    let ?q = "q\<lparr>pt_dimensions := butlast (pt_dimensions q)\<rparr>"
    let ?b = "b\<lparr>cb_values := cb_values b + 1\<rparr>"
    from cap 1 obtain entries vs c1 where x: "x = EipArray vs" and val: "cb_values b + 1 \<le> MAX_TOTAL_VALUES"
      and len: "\<not> (int (length entries) > MAX_ARRAY_LENGTH \<or>
                 (case last (pt_dimensions q) of None \<Rightarrow> False | Some expected \<Rightarrow> int (length entries) \<noteq> expected))"
      and vs: "mapB (captureValue n E fail types ?q) entries ?b c1 = Inr ((vs, b'), c')"
      by (auto simp: Let_def simp del: de_Morgan_disj elim!: bindB_InrE)
    have eq: "length vs = length entries" using list_all2_lengthD [OF mapB_InrE [OF vs]] by simp
    let ?vs = "map (\<lambda>(i, v). value_literal (nth_at p i) v) (zip [0..<length vs] vs)"
    have "reads (mapB (captureValue n E fail' types ?q) ?vs ?b) (insert p d) p (vs, b')"
      using readsB_array [OF vs, of "captureValue n E fail' types ?q" value_literal p "{}" "insert p d" 0] Suc.IH within_insert [OF Suc.prems(2)]
      by simp
    moreover have "captureDenseArray (value_literal p x) fail' d = Inr (?vs, insert p d)"
      unfolding x value_literal.simps by (rule captureDenseArray_lit [OF Suc.prems(2)]) (use len eq in simp)
    moreover have l: "length ?vs = length entries" using eq by simp
    have "\<not> (int (length ?vs) > MAX_ARRAY_LENGTH \<or>
        (case last (pt_dimensions q) of None \<Rightarrow> False | Some expected \<Rightarrow> int (length ?vs) \<noteq> expected))" unfolding l by (rule len)
    ultimately show ?thesis
      using 1 val unfolding captureValue.simps
      by (auto simp: Let_def reads_def bindB_def bindC_def consumeValue_def liftB_def guardB_def guardC_def returnB_def returnC_def
          below_def x simp del: value_literal.simps)
  next
    case (2 members)
    let ?b = "b\<lparr>cb_values := cb_values b + 1\<rparr>"
    from cap 2 obtain rec es c1 where x: "x = EipStruct es" and val: "cb_values b + 1 \<le> MAX_TOTAL_VALUES"
      and es: "mapB (\<lambda>field. bindB (liftB (liftC (parseType (JString (ef_type field)) fail))) (\<lambda>parsed.
          bindB (captureValue n E fail types parsed (fld rec (ef_name field))) (\<lambda>x. returnB (ef_name field, x)))) members ?b c1 = Inr ((es, b'), c')"
      by (auto elim!: bindB_InrE)
    let ?rec = "names (map (\<lambda>(k, v). (k, value_literal (at p k) v)) es)"
    have all: "list_all2 (\<lambda>m e. fst e = ef_name m) members es"
      using mapB_InrE [OF es] by (rule list_all2_mono) (auto elim!: bindB_InrE)
    then have keys: "map fst es = map ef_name members" by (auto simp: list_all2_conv_all_nth intro: nth_equalityI)
    have dist: "distinct (map ef_name members)" using assms(2) 2 by (simp add: fields_distinct_def)
    have fld: "fld ?rec (fst e) = value_literal (at p (fst e)) (snd e)" if "e \<in> set es" for e
    proof -
      have "map_of es (fst e) = Some (snd e)" using dist that by (simp add: keys [symmetric])
      then show ?thesis by (simp add: js_simps map_of_keyed)
    qed
    have "reads (mapB (\<lambda>field. bindB (liftB (liftC (parseType (JString (ef_type field)) fail'))) (\<lambda>parsed.
          bindB (captureValue n E fail' types parsed (fld ?rec (ef_name field))) (\<lambda>x. returnB (ef_name field, x)))) members ?b) (insert p d) p (es, b')"
    proof (rule readsB_keyed [where key = "\<lambda>m. PName (ef_name m)", OF es _ _ within_insert [OF Suc.prems(2)]], goal_cases)
      case (2 m e b1 c1 b2 c2 d)
      from 2(3) obtain q x where e: "e = (ef_name m, x)" and q: "type_of (ef_type m) = Some q"
        and x: "captureValue n E fail types q (fld rec (ef_name m)) b1 c1 = Inr ((x, b2), c2)"
        by (auto simp: parseType_string elim!: bindB_InrE)
      from Suc.IH [OF x 2(4)] fld [OF 2(2)] parseType_string [THEN iffD2, OF q] show ?case
        by (auto simp: e reads_def bindB_def bindC_def liftB_def liftC_def returnC_def returnB_def)
    qed (use dist in \<open>auto simp: distinct_map inj_on_def\<close>)
    moreover have "exactRecord (value_literal p x) (map ef_name members) fail' d = Inr (?rec, insert p d)"
      unfolding x value_literal.simps by (rule exactRecord_mk_obj [OF Suc.prems(2)]) (simp add: keys [symmetric] case_prod_beta')
    ultimately show ?thesis
      using 2 val unfolding captureValue.simps
      by (auto simp: reads_def bindB_def bindC_def consumeValue_def liftB_def returnB_def returnC_def below_def x simp del: value_literal.simps)
  next
    case 3
    with cap captureScalar_again [OF assms(1), of fail "pt_base q" v b c x b' c' fail' p d] show ?thesis
      by (simp add: captureValue.simps reads_def)
  qed
qed (simp add: captureValue.simps)

section \<open>Type declarations read again\<close>

lemma captureFields_step:
  assumes "fresh q d" "name_ok (ef_name f)" "ef_name f \<notin> set seen" "type_of (ef_type f) \<noteq> None"
    and "captureFields fail' (seen @ [ef_name f]) es (b\<lparr>cb_bytes := cb_bytes b + utf8_length (ef_name f) + utf8_length (ef_type f)\<rparr>) (insert q d)
      = Inr ((fs, b'), d')"
    and "utf8_length (ef_name f) \<le> MAX_SCALAR_BYTES" "utf8_length (ef_type f) \<le> MAX_SCALAR_BYTES"
    and "cb_bytes b + utf8_length (ef_name f) \<le> MAX_TOTAL_BYTES" "cb_bytes b + utf8_length (ef_name f) + utf8_length (ef_type f) \<le> MAX_TOTAL_BYTES"
  shows "captureFields fail' seen (field_literal q f # es) b d = Inr ((f # fs, b'), d')"
proof -
  obtain t where t: "parseType (JString (ef_type f)) fail' = Inr t" using assms(4) parseType_string by blast
  have "exactRecord (field_literal q f) [''name'', ''type''] fail' d =
      Inr (names [(''name'', JString (ef_name f)), (''type'', JString (ef_type f))], insert q d)"
    unfolding field_literal_def by (rule exactRecord_mk_obj [OF assms(1)]) simp
  then show ?thesis using assms t by (auto simp: bindB_Inr js_simps Let_def intro!: exI)
qed

text \<open>Running a capture forward.\<close>

lemma bindB_step: "m b c = Inr ((x, b1), c1) \<Longrightarrow> bindB m f b c = f x b1 c1"
  by (simp add: bindB_def bindC_def)

lemma bindB_lift: "m c = Inr (x, c1) \<Longrightarrow> bindB (liftB m) f b c = f x b c1"
  by (rule bindB_step) simp

lemma bindB_guard: "q \<Longrightarrow> bindB (guardB q e) f b c = f () b c"
  by (rule bindB_step) simp

lemma captureFields_again:
  assumes "captureFields fail seen entries b c = Inr ((fs, b'), c')" "within p S d" "\<And>i. i < length fs \<Longrightarrow> PIndex (k + i) \<notin> S"
  shows "reads (captureFields fail' seen (map (\<lambda>i. field_literal (nth_at p (k + i)) (fs ! i)) [0..<length fs]) b) d p (fs, b')"
  using assms
proof (induction entries arbitrary: seen b c fs k S d)
  case (Cons e es)
  from Cons.prems(1) obtain f gs c1 where fs: "fs = f # gs" and f: "name_ok (ef_name f)" "ef_name f \<notin> set seen" "type_of (ef_type f) \<noteq> None"
    and len: "utf8_length (ef_name f) \<le> MAX_SCALAR_BYTES" "utf8_length (ef_type f) \<le> MAX_SCALAR_BYTES"
      "cb_bytes b + utf8_length (ef_name f) \<le> MAX_TOTAL_BYTES" "cb_bytes b + utf8_length (ef_name f) + utf8_length (ef_type f) \<le> MAX_TOTAL_BYTES"
    and gs: "captureFields fail (seen @ [ef_name f]) es
      (b\<lparr>cb_bytes := cb_bytes b + utf8_length (ef_name f) + utf8_length (ef_type f)\<rparr>) c1 = Inr ((gs, b'), c')"
    by (fastforce simp: Let_def dest!: parseType_JString elim!: bindB_InrE)
  have list: "map (\<lambda>i. field_literal (nth_at p (k + i)) (fs ! i)) [0..<length fs] =
      field_literal (nth_at p k) f # map (\<lambda>i. field_literal (nth_at p (Suc k + i)) (gs ! i)) [0..<length gs]"
    by (simp add: fs map_upt_Suc del: upt_Suc)
  have fresh: "fresh (nth_at p k) d" using within_fresh [OF Cons.prems(2), of "PIndex k"] Cons.prems(3) [of 0] by (simp add: fs)
  have "within p (insert (PIndex k) S) (insert (nth_at p k) d)"
    by (rule within_child [OF Cons.prems(2)]) (auto simp: below_def)
  from Cons.IH [OF gs this, of "Suc k"] Cons.prems(3) obtain d' where
    rest: "captureFields fail' (seen @ [ef_name f]) (map (\<lambda>i. field_literal (nth_at p (Suc k + i)) (gs ! i)) [0..<length gs])
      (b\<lparr>cb_bytes := cb_bytes b + utf8_length (ef_name f) + utf8_length (ef_type f)\<rparr>) (insert (nth_at p k) d) = Inr ((gs, b'), d')"
    and d': "d' \<subseteq> insert (nth_at p k) d \<union> below p" by (fastforce simp: reads_def fs)
  from captureFields_step [OF fresh f rest len] d' show ?case
    unfolding list reads_def by (auto simp: fs below_def)
qed simp

lemma captureStruct_again:
  assumes "captureStruct fail rec name b c = Inr (((n, fs), b'), c')" "fld rec' name = show_list field_literal p fs" "fresh p d"
  shows "reads (captureStruct fail' rec' name b) d p ((n, fs), b')"
proof -
  let ?b = "b\<lparr>cb_bytes := cb_bytes b + utf8_length name\<rparr>"
  from assms(1) obtain entries c1 where name: "n = name" "name_ok name" "\<not> isBuiltin name" "utf8_length name \<le> MAX_SCALAR_BYTES"
      "cb_bytes b + utf8_length name \<le> MAX_TOTAL_BYTES"
    and fs: "captureFields fail [] entries ?b c1 = Inr ((fs, b'), c')" "length entries \<le> MAX_FIELDS"
    unfolding captureStruct_def by (auto simp: not_less elim!: bindB_InrE)
  let ?es = "map (\<lambda>i. field_literal (nth_at p i) (fs ! i)) [0..<length fs]"
  have len: "length fs = length entries" using captureFields_ok [OF fs(1)] by simp
  have arr: "captureDenseArray (fld rec' name) fail' d = Inr (?es, insert p d)"
    unfolding assms(2) show_list_def
    by (rule captureDenseArray_mk_arr [OF assms(3)]) (use len fs(2) in \<open>simp add: MAX_FIELDS_def MAX_SAFE_INTEGER_def\<close>)
  from captureFields_again [OF fs(1) within_insert [OF assms(3)], of 0 fail'] obtain d' where
    "captureFields fail' [] ?es ?b (insert p d) = Inr ((fs, b'), d')" "d' \<subseteq> insert p d \<union> below p" by (auto simp: reads_def)
  with name arr len fs(2) show ?thesis
    unfolding captureStruct_def reads_def by (auto simp: bindB_Inr below_def intro!: exI)
qed

lemma key_names_names [simp]: "key_names (names kvs) = Some (map fst kvs)"
  by (induction kvs) (auto simp: names_def)

lemma captureTypes_again:
  assumes "captureTypes fail v b c = Inr ((types, b'), c')" "distinct (map fst types)" "fresh p d"
  shows "reads (captureTypes fail' (types_literal p types) b) d p (types, b')"
proof -
  define rec' where "rec' = names (map (\<lambda>(n, fs). (n, show_list field_literal (at p n) fs)) types)"
  from assms(1) obtain rec ns c1 where len: "2 \<le> length ns" "length ns \<le> MAX_TYPES" "''EIP712Domain'' \<in> set ns"
    and types: "mapB (captureStruct fail rec) (sort ns) b c1 = Inr ((types, b'), c')"
    and dom: "\<not> length (case map_of types ''EIP712Domain'' of None \<Rightarrow> [] | Some fs \<Rightarrow> fs) < 1"
      "domainOrdered (- 1) (case map_of types ''EIP712Domain'' of None \<Rightarrow> [] | Some fs \<Rightarrow> fs)"
    and refs: "referencesDeclared fail types"
    unfolding captureTypes_def Let_def
    by (fastforce simp: not_less simp del: option.case elim!: bindB_InrE split: option.splits [where option = "key_names _"])
  have all: "list_all2 (\<lambda>n d. fst d = n) (sort ns) types"
    using mapB_InrE [OF types] by (rule list_all2_mono) (auto dest!: captureStruct_declared)
  then have keys: "map fst types = sort ns" by (auto simp: list_all2_conv_all_nth intro: nth_equalityI)
  have lens: "length types = length ns" using arg_cong [OF keys, of length] by simp
  have srt: "sort (map fst types) = sort ns" by (simp add: keys sort_key_id_if_sorted)
  have fld: "fld rec' (fst e) = show_list field_literal (at p (fst e)) (snd e)" if "e \<in> set types" for e
  proof -
    have "map_of types (fst e) = Some (snd e)" using that assms(2) by simp
    then show ?thesis by (simp add: rec'_def js_simps map_of_keyed)
  qed
  have "reads (mapB (captureStruct fail' rec') (sort ns) b) (insert p d) p (types, b')"
  proof (rule readsB_keyed [where key = PName, OF types _ _ within_insert [OF assms(3)]], goal_cases)
    case 1
    show ?case using assms(2) keys by (metis distinct_map inj_on_def pkey.inject(1))
  next
    case (2 n e b1 c1 b2 c2 d)
    obtain fs where e: "e = (n, fs)" using captureStruct_declared [OF 2(3)] by (cases e) auto
    show ?case unfolding e by (rule captureStruct_again [OF 2(3) [unfolded e]]) (use fld [OF 2(2)] 2(4) e in simp_all)
  qed simp
  then obtain d' where structs: "mapB (captureStruct fail' rec') (sort (map fst types)) b (insert p d) = Inr ((types, b'), d')"
    and d': "d' \<subseteq> insert p d \<union> below p" unfolding srt reads_def by blast
  have rec: "captureRecord (types_literal p types) fail' d = Inr (rec', insert p d)"
    unfolding types_literal_def rec'_def by (rule captureRecord_mk_obj [OF assms(3)])
  have key: "key_names rec' = Some (map fst types)" by (simp add: rec'_def case_prod_beta' comp_def)
  have refs': "referencesDeclared fail' types" using refs by (simp add: referencesDeclared_iff)
  have names: "\<not> (length (sort (map fst types)) < 2 \<or> length (sort (map fst types)) > MAX_TYPES \<or> ''EIP712Domain'' \<notin> set (sort (map fst types)))"
    unfolding srt using len by simp
  have "captureTypes fail' (types_literal p types) b d = Inr ((types, b'), d')"
    unfolding captureTypes_def bindB_lift [where m = "captureRecord (types_literal p types) fail'", OF rec] key option.case Let_def bindB_guard [OF names] 
      bindB_step [where m = "mapB (captureStruct fail' rec') (sort (map fst types))", OF structs]
      bindB_guard [OF conjI [OF dom]] bindB_guard [OF refs'] by simp
  then show ?thesis using d' by (auto simp: reads_def below_def)
qed

section \<open>Typed data read again\<close>

lemma typed_data_fields_distinct: "wf_types types \<Longrightarrow> fields_distinct types"
  by (auto simp: wf_types_def fields_distinct_def list_all_iff struct_ok_def dest!: map_of_SomeD)

lemma reachableTypes_fail: "reachableTypes fail types ps rs = Inr r \<Longrightarrow> reachableTypes fail' types ps rs = Inr r"
proof (induction fail types ps rs rule: reachableTypes.induct)
  case (2 fail types name pending reachable)
  have deps: "dependencies fail fs = Inr ds \<Longrightarrow> dependencies fail' fs = Inr ds" for fs ds
    by (induction fs arbitrary: ds) (auto simp: bindE_Inr parseType_string)
  from 2 show ?case by (auto simp: reachableTypes.simps dest!: deps split: if_splits sum.splits)
qed (simp add: reachableTypes.simps)

lemma readsB_same:
  assumes "m d = Inr (x, insert p d)" "reads (f x b) (insert p d) p y"
  shows "reads (bindB (liftB m) f b) d p y"
  using assms by (auto simp: reads_def below_def bindB_lift [where m = m])

lemma readsB_pure: "r = Inr x \<Longrightarrow> reads (f x b) d p y \<Longrightarrow> reads (bindB (liftB (liftC r)) f b) d p y"
  by (rule readsB_bind) (simp add: liftB_def liftC_def bindC_def returnC_def)

lemma readsB_guard: "q \<Longrightarrow> reads (f () b) d p y \<Longrightarrow> reads (bindB (guardB q e) f b) d p y"
  by (rule readsB_bind) (simp add: guardB_def liftB_def guardC_def bindC_def returnC_def)

text \<open>The typed data a capture can return.\<close>

definition captured_typed_data :: "ext \<Rightarrow> typed_data \<Rightarrow> bool" where
  "captured_typed_data E td \<longleftrightarrow> (\<exists>fail v c c'. captureCanonicalEip712TypedData E fail v c = Inr (td, c'))"

lemma captureTypedDataB_again:
  assumes "ext_ok E" "captureTypedDataB E fail v emptyBudget c = Inr ((td, b'), c')" "fresh p d"
  shows "reads (captureTypedDataB E fail' (typed_data_literal p td) emptyBudget) d p (td, b')"
  using assms(2) unfolding captureTypedDataB_def [of _ fail]
proof (elim bindB_InrE, goal_cases)
  case (1 rec b1 c1 types b2 c2 primary b3 c3 u b4 c4 r b5 c5 u' b6 c6 dom b7 c7 msg b8 c8 u'' b9 c9)
  let ?kvs = "[(''types'', types_literal (at p ''types'') types), (''primaryType'', JString primary),
      (''domain'', value_literal (at p ''domain'') dom), (''message'', value_literal (at p ''message'') msg)]"
  have td: "td = \<lparr>td_types = types, td_primaryType = primary, td_domain = dom, td_message = msg\<rparr>" using 1(10) by simp
  have states: "b1 = emptyBudget" "b6 = b2" "b8 = b'" using 1(1,3-6,9,10) by auto
  have ok: "wf_types types" "distinct (map fst types)"
    using captureTypedData_ok [OF assms(1,2)] by (auto simp: td wf_typed_data_def closed_typed_data_def)
  have rec: "exactRecord (typed_data_literal p td) [''types'', ''primaryType'', ''domain'', ''message''] fail' d =
      Inr (names ?kvs, insert p d)"
    unfolding typed_data_literal_def td typed_data.simps by (rule exactRecord_mk_obj [OF assms(3)]) simp
  have primary: "name_ok primary" "primary \<noteq> ''EIP712Domain''" "map_of types primary \<noteq> None" using 1(3,4) by auto
  have reach: "reachableTypes fail' types [primary] [''EIP712Domain''] = Inr r" "length r = length types"
    using 1(5,6) reachableTypes_fail [of fail types "[primary]" "[''EIP712Domain'']" r fail'] by simp_all
  note distinct = typed_data_fields_distinct [OF ok(1)]
  have flds: "fld (names ?kvs) ''types'' = types_literal (at p ''types'') types" "fld (names ?kvs) ''primaryType'' = JString primary"
    "fld (names ?kvs) ''domain'' = value_literal (at p ''domain'') dom" "fld (names ?kvs) ''message'' = value_literal (at p ''message'') msg"
    by (simp_all add: js_simps)
  show ?case
    unfolding captureTypedDataB_def
  proof (rule readsB_same, rule rec, unfold flds, rule readsB_child [OF within_insert [OF assms(3)], of "PName ''types''"])
    show "reads (captureTypes fail' (types_literal (at p ''types'') types) emptyBudget) d (at p ''types'') (types, b2)"
      if "fresh (at p ''types'') d" for d
      using captureTypes_again [OF 1(2) [unfolded states] ok(2) that] .
    fix d assume w: "within p {PName ''types''} d"
    show "reads (bindB (liftB (liftC (eip_identifier (JString primary) fail'))) (\<lambda>primaryType.
     bindB (guardB (\<not> (primaryType = ''EIP712Domain'' \<or> map_of types primaryType = None)) fail') (\<lambda>_.
     bindB (liftB (liftC (reachableTypes fail' types [primaryType] [''EIP712Domain'']))) (\<lambda>reachable.
     bindB (guardB (length reachable = length types) fail') (\<lambda>_.
     bindB (captureValue (MAX_DEPTH + 1) E fail' types (struct_of ''EIP712Domain'') (value_literal (at p ''domain'') dom)) (\<lambda>domain.
     bindB (captureValue (MAX_DEPTH + 1) E fail' types (struct_of primaryType) (value_literal (at p ''message'') msg)) (\<lambda>message.
     bindB (guardB (is_object domain \<and> is_object message) fail') (\<lambda>_.
     returnB \<lparr>td_types = types, td_primaryType = primaryType, td_domain = domain, td_message = message\<rparr>))))))) b2) d p (td, b')"
    proof (rule readsB_pure [of _ primary], simp add: primary, rule readsB_guard, simp add: primary, rule readsB_pure [OF reach(1)],
        rule readsB_guard, simp add: reach, rule readsB_child [where k = "PName ''domain''" and x = dom and ?b1.0 = b7, OF w], simp, goal_cases)
      case (1 d)
      show ?case by (rule captureValue_again [OF assms(1) distinct \<open>captureValue _ _ _ _ _ _ b6 c6 = _\<close> [unfolded states] 1])
    next
      case (2 d)
      show ?case
      proof (rule readsB_child [where k = "PName ''message''" and x = msg and ?b1.0 = b8, OF 2], simp, goal_cases)
        case (1 d)
        show ?case by (rule captureValue_again [OF assms(1) distinct \<open>captureValue _ _ _ _ _ _ b7 c7 = _\<close> 1])
      next
        case (2 d)
        show ?case using \<open>guardB (is_object dom \<and> _) _ b8 c8 = _\<close> by (intro readsB_guard) (simp_all add: td states)
      qed
    qed
  qed simp
qed

lemma captureTypedData_complete:
  assumes "ext_ok E" "captured_typed_data E td" "fresh p d"
  shows "reads (captureCanonicalEip712TypedData E fail' (typed_data_literal p td)) d p td"
proof -
  from assms(2) obtain fail v b' c c' where "captureTypedDataB E fail v emptyBudget c = Inr ((td, b'), c')"
    by (auto simp: captured_typed_data_def captureCanonicalEip712TypedData_def elim!: bindC_InrE)
  from captureTypedDataB_again [OF assms(1) this assms(3), of fail'] show ?thesis
    by (auto simp: reads_def captureCanonicalEip712TypedData_def bindC_def returnC_def)
qed

lemma captured_typed_dataI: "captureCanonicalEip712TypedData E fail v c = Inr (td, c') \<Longrightarrow> captured_typed_data E td"
  by (auto simp: captured_typed_data_def)

lemma typed_data_literal_not_null [simp]: "typed_data_literal p td \<noteq> JNull"
  by (simp add: typed_data_literal_def)

interpretation typed_data_codec: codec captureCanonicalEip712TypedData typed_data_literal captured_typed_data ext_ok
  by unfold_locales (auto intro: captureTypedData_complete captured_typed_dataI)

lemma captured_typed_data_ok:
  assumes "ext_ok E" "captured_typed_data E td"
  shows "wf_typed_data td \<and> bounded_typed_data td \<and> closed_typed_data td"
  using assms(2) captureTypedData_ok [OF assms(1)]
  by (auto simp: captured_typed_data_def captureCanonicalEip712TypedData_def elim!: bindC_InrE)

end
