(* ===== verification/Signing_Request.thy ===== *)
theory Signing_Request
  imports Typed_Data_Codec
begin

text \<open>
  Model of the second half of \<open>packages/protocol/src/signing-request.ts\<close>: the owner signing request, either
  structured EIP-712 data with its signer and replay facts, or a raw digest that can only be rejected, and its
  canonical encoding. \<open>hashTypedData\<close> of the \<open>cetane\<close> package is the parameter \<open>T\<close>, \<open>None\<close> where it throws.
\<close>

section \<open>Requests\<close>

definition OAATH_OWNER_SIGNING_REQUEST_VERSION :: string where
  "OAATH_OWNER_SIGNING_REQUEST_VERSION = ''oaath.owner-signing-request/v1''"

definition OAATH_OWNER_SIGNING_REQUEST_HASH_DOMAIN :: string where
  "OAATH_OWNER_SIGNING_REQUEST_HASH_DOMAIN = ''@oaath/protocol:owner-signing-request''"

datatype signing_purpose = Permit | Permit2 | Application | Kernel_enable

record replay_facts =
  rf_nonce :: "string option"
  rf_deadline :: "string option"

record eip712_request =
  sq_purpose :: signing_purpose
  sq_account :: string
  sq_ownerCredential :: owner_credential
  sq_typedData :: typed_data
  sq_expectedDigest :: string
  sq_replay :: replay_facts

datatype owner_signing_request = Eip712Request eip712_request | RawDigestRequest string string

definition purpose_table :: "(string \<times> signing_purpose) list" where
  "purpose_table = [(''permit'', Permit), (''permit2'', Permit2), (''application'', Application), (''kernel-enable'', Kernel_enable)]"

definition purpose_name :: "signing_purpose \<Rightarrow> string" where
  "purpose_name q = (case q of Permit \<Rightarrow> ''permit'' | Permit2 \<Rightarrow> ''permit2'' | Application \<Rightarrow> ''application'' | Kernel_enable \<Rightarrow> ''kernel-enable'')"

section \<open>Capture\<close>

definition reason_ok :: "string \<Rightarrow> bool" where
  "reason_ok s \<longleftrightarrow> \<not> (length s < 1 \<or> length s > 256) \<and>
     list_all (\<lambda>c. \<not> ((of_char c :: nat) < 32 \<or> (of_char c :: nat) = 127)) s"

definition boundedReason :: "jsval \<Rightarrow> err \<Rightarrow> err + string" where
  "boundedReason v fail = (case v of JString s \<Rightarrow> if reason_ok s then Inr s else Inl fail | _ \<Rightarrow> Inl fail)"

definition decimalUint :: "jsval \<Rightarrow> err \<Rightarrow> err + string" where
  "decimalUint v fail =
     (case v of
        JString s \<Rightarrow> if \<not> DECIMAL_UINT s \<or> length s > 78 \<or> BigInt s > MAX_UINT256 then Inl fail else Inr s
      | _ \<Rightarrow> Inl fail)"

definition captureReplay :: "err \<Rightarrow> jsval \<Rightarrow> (err, replay_facts) capture" where
  "captureReplay fail v =
     bindC (exactRecord v [''nonce'', ''deadline''] fail) (\<lambda>record.
     bindC (liftC (nullable_scalar decimalUint (fld record ''nonce'') fail)) (\<lambda>nonce.
     bindC (liftC (nullable_scalar decimalUint (fld record ''deadline'') fail)) (\<lambda>deadline.
     returnC \<lparr>rf_nonce = nonce, rf_deadline = deadline\<rparr>)))"

definition captureSigner :: "ext \<Rightarrow> err \<Rightarrow> jsval \<Rightarrow> (err, string \<times> owner_credential) capture" where
  "captureSigner E fail v =
     bindC (exactRecord v [''account'', ''ownerCredential''] fail) (\<lambda>signer.
     bindC (liftC (captureAddress E (fld signer ''account'') (\<lambda>_. fail) False)) (\<lambda>account.
     bindC (captureOwnerCredentialProfile E fail (fld signer ''ownerCredential'')) (\<lambda>ownerCredential.
     returnC (account, ownerCredential))))"

definition captureEip712Request :: "ext \<Rightarrow> err \<Rightarrow> fields \<Rightarrow> (err, owner_signing_request) capture" where
  "captureEip712Request E fail record =
     bindC (guardC (fld record ''version'' = JString OAATH_OWNER_SIGNING_REQUEST_VERSION \<and> fld record ''kind'' = JString ''eip712'') fail) (\<lambda>_.
     bindC (liftC (literal_of purpose_table (fld record ''purpose'') fail)) (\<lambda>purpose.
     bindC (captureSigner E fail (fld record ''signer'')) (\<lambda>(account, ownerCredential).
     bindC (captureCanonicalEip712TypedData E fail (fld record ''typedData'')) (\<lambda>typedData.
     bindC (liftC (fixed_hex 64 (fld record ''expectedDigest'') fail)) (\<lambda>expectedDigest.
     bindC (captureReplay fail (fld record ''replay'')) (\<lambda>replay.
     returnC (Eip712Request \<lparr>sq_purpose = purpose, sq_account = account, sq_ownerCredential = ownerCredential,
       sq_typedData = typedData, sq_expectedDigest = expectedDigest, sq_replay = replay\<rparr>)))))))"

definition captureRawDigest :: "err \<Rightarrow> fields \<Rightarrow> (err, owner_signing_request) capture" where
  "captureRawDigest fail record =
     bindC (guardC (fld record ''version'' = JString OAATH_OWNER_SIGNING_REQUEST_VERSION \<and>
                    fld record ''decision'' = JString ''reject-only'') fail) (\<lambda>_.
     bindC (liftC (fixed_hex 64 (fld record ''digest'') fail)) (\<lambda>digest.
     bindC (liftC (boundedReason (fld record ''reason'') fail)) (\<lambda>reason.
     returnC (RawDigestRequest digest reason))))"

definition captureOwnerSigningRequest :: "ext \<Rightarrow> err \<Rightarrow> jsval \<Rightarrow> (err, owner_signing_request) capture" where
  "captureOwnerSigningRequest E fail v =
     bindC (captureRecord v fail) (\<lambda>captured.
     if fld captured ''kind'' = JString ''raw-digest'' then
       bindC (exactCapturedRecord captured [''version'', ''kind'', ''digest'', ''reason'', ''decision''] fail) (captureRawDigest fail)
     else
       bindC (exactCapturedRecord captured
                [''version'', ''kind'', ''purpose'', ''signer'', ''typedData'', ''expectedDigest'', ''replay''] fail) (captureEip712Request E fail))"

definition parseOwnerSigningRequest :: "ext \<Rightarrow> jsval \<Rightarrow> err + owner_signing_request" where
  "parseOwnerSigningRequest E v = capturedByProtocol Signing_request_invalid (runC (captureOwnerSigningRequest E sr_err v))"

section \<open>Hashing and encoding\<close>

type_synonym typed_data_hash = "typed_data \<Rightarrow> string option"

definition hashCapturedTypedData :: "typed_data_hash \<Rightarrow> typed_data \<Rightarrow> err + string" where
  "hashCapturedTypedData T td = (case T td of None \<Rightarrow> Inl HostTypeError | Some h \<Rightarrow> Inr h)"

definition hashCanonicalEip712TypedData :: "ext \<Rightarrow> typed_data_hash \<Rightarrow> jsval \<Rightarrow> err + string" where
  "hashCanonicalEip712TypedData E T v =
     capturedByProtocol Signing_request_invalid (bindE (parseCanonicalEip712TypedData E v) (hashCapturedTypedData T))"

definition uint_or_zero :: "string option \<Rightarrow> abi" where
  "uint_or_zero x = AbiUint 256 (BigInt (case x of None \<Rightarrow> ''0'' | Some s \<Rightarrow> s))"

definition encodeCapturedOwnerSigningRequest :: "ext \<Rightarrow> typed_data_hash \<Rightarrow> owner_signing_request \<Rightarrow> err + string" where
  "encodeCapturedOwnerSigningRequest E T request =
     (case request of
        RawDigestRequest digest reason \<Rightarrow>
          Inr (encodeAbiParameters E
            [AbiString OAATH_OWNER_SIGNING_REQUEST_HASH_DOMAIN, AbiString OAATH_OWNER_SIGNING_REQUEST_VERSION,
             AbiString ''raw-digest'', AbiFixedBytes 32 digest, AbiString reason, AbiString ''reject-only''])
      | Eip712Request r \<Rightarrow>
          bindE (hashOwnerCredentialProfile E (owner_literal [] (sq_ownerCredential r))) (\<lambda>owner.
          bindE (hashCapturedTypedData T (sq_typedData r)) (\<lambda>typedData.
          Inr (encodeAbiParameters E
            [AbiString OAATH_OWNER_SIGNING_REQUEST_HASH_DOMAIN, AbiString OAATH_OWNER_SIGNING_REQUEST_VERSION,
             AbiString ''eip712'', AbiString (purpose_name (sq_purpose r)), AbiAddress (sq_account r), AbiFixedBytes 32 owner,
             AbiFixedBytes 32 typedData, AbiFixedBytes 32 (sq_expectedDigest r),
             AbiBool (rf_nonce (sq_replay r) \<noteq> None), uint_or_zero (rf_nonce (sq_replay r)),
             AbiBool (rf_deadline (sq_replay r) \<noteq> None), uint_or_zero (rf_deadline (sq_replay r))]))))"

definition encodeOwnerSigningRequest :: "ext \<Rightarrow> typed_data_hash \<Rightarrow> jsval \<Rightarrow> err + string" where
  "encodeOwnerSigningRequest E T v =
     capturedByProtocol Signing_request_invalid (bindE (parseOwnerSigningRequest E v) (encodeCapturedOwnerSigningRequest E T))"

definition hashOwnerSigningRequest :: "ext \<Rightarrow> typed_data_hash \<Rightarrow> jsval \<Rightarrow> err + string" where
  "hashOwnerSigningRequest E T v = bindE (encodeOwnerSigningRequest E T v) (\<lambda>s. Inr (keccak256 E s))"

section \<open>Requests and their literals\<close>

definition wf_signing_request :: "ext \<Rightarrow> owner_signing_request \<Rightarrow> bool" where
  "wf_signing_request E request =
     (case request of
        RawDigestRequest digest reason \<Rightarrow> lower_hex 64 digest \<and> reason_ok reason
      | Eip712Request r \<Rightarrow> address_ok (sq_account r) \<and> wf_owner E (sq_ownerCredential r) \<and> captured_typed_data E (sq_typedData r) \<and>
          lower_hex 64 (sq_expectedDigest r) \<and> pred_option uint256_string (rf_nonce (sq_replay r)) \<and>
          pred_option uint256_string (rf_deadline (sq_replay r)))"

definition replay_literal :: "ref \<Rightarrow> replay_facts \<Rightarrow> jsval" where
  "replay_literal p r = mk_obj p [(''nonce'', nullable JString (rf_nonce r)), (''deadline'', nullable JString (rf_deadline r))]"

definition signing_signer_literal :: "ref \<Rightarrow> string \<times> owner_credential \<Rightarrow> jsval" where
  "signing_signer_literal p s = mk_obj p
     [(''account'', JString (fst s)), (''ownerCredential'', owner_literal (at p ''ownerCredential'') (snd s))]"

definition signing_request_literal :: "ref \<Rightarrow> owner_signing_request \<Rightarrow> jsval" where
  "signing_request_literal p request =
     (case request of
        RawDigestRequest digest reason \<Rightarrow> mk_obj p
          [(''version'', JString OAATH_OWNER_SIGNING_REQUEST_VERSION), (''kind'', JString ''raw-digest''), (''digest'', JString digest),
           (''reason'', JString reason), (''decision'', JString ''reject-only'')]
      | Eip712Request r \<Rightarrow> mk_obj p
          [(''version'', JString OAATH_OWNER_SIGNING_REQUEST_VERSION), (''kind'', JString ''eip712''),
           (''purpose'', JString (purpose_name (sq_purpose r))),
           (''signer'', signing_signer_literal (at p ''signer'') (sq_account r, sq_ownerCredential r)),
           (''typedData'', typed_data_literal (at p ''typedData'') (sq_typedData r)),
           (''expectedDigest'', JString (sq_expectedDigest r)),
           (''replay'', replay_literal (at p ''replay'') (sq_replay r))])"

lemma decimalUint_Inr [simp]: "decimalUint v fail = Inr s \<longleftrightarrow> v = JString s \<and> uint256_string s"
  by (cases v) (auto simp: decimalUint_def uint256_string_def DECIMAL_UINT_def decimal_uint_def)

lemma decimalUint_string [js_simps]: "uint256_string s \<Longrightarrow> decimalUint (JString s) fail = Inr s"
  by simp

lemma boundedReason_Inr [simp]: "boundedReason v fail = Inr s \<longleftrightarrow> v = JString s \<and> reason_ok s"
  by (cases v) (auto simp: boundedReason_def)

lemma boundedReason_string [js_simps]: "reason_ok s \<Longrightarrow> boundedReason (JString s) fail = Inr s"
  by simp

lemma purpose_table_name [simp]: "map_of purpose_table (purpose_name q) = Some q"
  by (cases q) (simp_all add: purpose_table_def purpose_name_def)

lemma captureReplay_sound:
  "captureReplay fail v c = Inr (r, c') \<Longrightarrow> pred_option uint256_string (rf_nonce r) \<and> pred_option uint256_string (rf_deadline r)"
  unfolding captureReplay_def by (auto simp: nullable_scalar_Inr elim!: bindC_InrE)

lemma nullable_uint_string: "pred_option uint256_string x \<Longrightarrow> nullable_scalar decimalUint (nullable JString x) fail = Inr x"
  by (cases x) (simp_all add: nullable_scalar_def nullable_def js_simps)

lemma captureReplay_complete:
  "pred_option uint256_string (rf_nonce r) \<Longrightarrow> pred_option uint256_string (rf_deadline r) \<Longrightarrow> fresh p c \<Longrightarrow>
   reads (captureReplay fail (replay_literal p r)) c p r"
  unfolding captureReplay_def replay_literal_def
  by (intro reads_exact) (simp_all add: js_simps nullable_uint_string)

lemma captureSigner_sound:
  "ext_ok E \<Longrightarrow> captureSigner E fail v c = Inr (s, c') \<Longrightarrow> address_ok (fst s) \<and> wf_owner E (snd s)"
  unfolding captureSigner_def captureOwnerCredentialProfile_def
  by (auto dest: captureAddress_sound captureOwnerCredential_sound elim!: bindC_InrE)

lemma captureSigner_complete:
  assumes "ext_ok E" "address_ok (fst s)" "wf_owner E (snd s)" "fresh p c"
  shows "reads (captureSigner E fail (signing_signer_literal p s)) c p s"
  unfolding captureSigner_def captureOwnerCredentialProfile_def signing_signer_literal_def
proof (rule reads_exact [OF assms(4)], simp, simp add: js_simps assms(1,2), goal_cases)
  case (1 c)
  show ?case by (rule owner_codec.bind_field [OF 1 _ assms(1,3)]) (simp_all add: reads_return_iff)
qed

lemma captureOwnerSigningRequest_sound:
  assumes "ext_ok E" "captureOwnerSigningRequest E fail v c = Inr (x, c')"
  shows "wf_signing_request E x"
proof -
  from assms(2) consider rec c1 where "captureRawDigest fail rec c1 = Inr (x, c')"
    | rec c1 where "captureEip712Request E fail rec c1 = Inr (x, c')"
    unfolding captureOwnerSigningRequest_def by (auto elim!: bindC_InrE split: if_splits)
  then show ?thesis
  proof cases
    case 1
    then show ?thesis by (auto simp: captureRawDigest_def wf_signing_request_def elim!: bindC_InrE)
  next
    case 2
    then show ?thesis
      unfolding captureEip712Request_def
      by (auto simp: wf_signing_request_def dest!: captureSigner_sound [OF assms(1)] captured_typed_dataI captureReplay_sound
          elim!: bindC_InrE)
  qed
qed

lemma captureOwnerSigningRequest_complete:
  assumes "ext_ok E" "wf_signing_request E x" "fresh p c"
  shows "reads (captureOwnerSigningRequest E fail (signing_request_literal p x)) c p x"
proof (cases x)
  case (RawDigestRequest digest reason)
  with assms(2) show ?thesis
    unfolding captureOwnerSigningRequest_def RawDigestRequest signing_request_literal_def owner_signing_request.case
    by (intro reads_captured [OF assms(3)])
      (simp add: js_simps captureRawDigest_def wf_signing_request_def)
next
  case (Eip712Request r)
  note wf = assms(2) [unfolded Eip712Request wf_signing_request_def owner_signing_request.case]
  show ?thesis
    unfolding captureOwnerSigningRequest_def Eip712Request signing_request_literal_def owner_signing_request.case
  proof (rule reads_captured [OF assms(3)], simp add: js_simps captureEip712Request_def, goal_cases)
    case (1 c)
    show ?case
    proof (rule reads_bind_child [where k = "PName ''signer''" and x = "(sq_account r, sq_ownerCredential r)", OF 1], simp, goal_cases)
      case (1 c)
      then show ?case using wf by (intro captureSigner_complete assms(1)) simp_all
    next
      case (2 c)
      show ?case
      proof (simp, rule typed_data_codec.bind_field [OF 2 _ assms(1)], simp, use wf in simp, simp add: js_simps wf,
          rule reads_bind_child [where k = "PName ''replay''" and x = "sq_replay r"], assumption, simp, goal_cases)
        case (1 c d)
        then show ?case using wf by (intro captureReplay_complete) simp_all
      next
        case (2 c d)
        show ?case by (simp add: reads_return_iff)
      qed
    qed
  qed
qed

lemma signing_request_literal_not_null [simp]: "signing_request_literal p x \<noteq> JNull"
  by (cases x) (simp_all add: signing_request_literal_def)

interpretation signing_request_codec: codec captureOwnerSigningRequest signing_request_literal wf_signing_request ext_ok
  by unfold_locales (auto intro: captureOwnerSigningRequest_sound captureOwnerSigningRequest_complete)

section \<open>Properties\<close>

text \<open>A sample: a mail to a list of two persons.\<close>

definition sample_types :: eip712_types where
  "sample_types =
     [(''EIP712Domain'', [\<lparr>ef_name = ''name'', ef_type = ''string''\<rparr>, \<lparr>ef_name = ''chainId'', ef_type = ''uint256''\<rparr>]),
      (''Mail'', [\<lparr>ef_name = ''to'', ef_type = ''Person[2]''\<rparr>, \<lparr>ef_name = ''priority'', ef_type = ''int8''\<rparr>]),
      (''Person'', [\<lparr>ef_name = ''wallet'', ef_type = ''address''\<rparr>, \<lparr>ef_name = ''tags'', ef_type = ''bytes2[]''\<rparr>])]"

definition sample_person :: "char \<Rightarrow> eip712_value" where
  "sample_person x = EipStruct [(''wallet'', EipString (hex_of 40 x)), (''tags'', EipArray [EipString ''0xbeef''])]"

definition sample_typed_data :: typed_data where
  "sample_typed_data = \<lparr>td_types = sample_types, td_primaryType = ''Mail'',
     td_domain = EipStruct [(''name'', EipString ''Post''), (''chainId'', EipString ''1'')],
     td_message = EipStruct [(''to'', EipArray [sample_person (CHR ''1''), sample_person (CHR ''2'')]), (''priority'', EipString ''-128'')]\<rparr>"

lemma sample_typed_data_parsed:
  "parseCanonicalEip712TypedData sample_ext (typed_data_literal [] sample_typed_data) = Inr sample_typed_data"
  by code_simp

lemma parsed_typed_data: "parseCanonicalEip712TypedData E v = Inr td \<Longrightarrow> captured_typed_data E td"
  by (auto simp: parseCanonicalEip712TypedData_def runC_Inr intro: captured_typed_dataI)

lemma parsed_signing_request: "ext_ok E \<Longrightarrow> parseOwnerSigningRequest E v = Inr x \<Longrightarrow> wf_signing_request E x"
  by (auto simp: parseOwnerSigningRequest_def runC_Inr intro: captureOwnerSigningRequest_sound)

definition sample_signing_request :: owner_signing_request where
  "sample_signing_request = Eip712Request \<lparr>sq_purpose = Permit2, sq_account = hex_of 40 (CHR ''a''), sq_ownerCredential = sample_owner,
     sq_typedData = sample_typed_data, sq_expectedDigest = hex_of 64 (CHR ''d''),
     sq_replay = \<lparr>rf_nonce = Some ''7'', rf_deadline = None\<rparr>\<rparr>"

lemma sample_signing_request_parsed:
  "parseOwnerSigningRequest sample_ext (signing_request_literal [] sample_signing_request) = Inr sample_signing_request"
proof -
  have "wf_signing_request sample_ext sample_signing_request"
    unfolding wf_signing_request_def sample_signing_request_def owner_signing_request.case eip712_request.simps replay_facts.simps
  proof (intro conjI)
    show "captured_typed_data sample_ext sample_typed_data" by (rule parsed_typed_data [OF sample_typed_data_parsed])
    show "wf_owner sample_ext sample_owner" using sample_key_ok by (simp add: sample_owner_def, code_simp)
    show "pred_option uint256_string (Some ''7'')" "pred_option uint256_string None" by (simp, code_simp, simp)
  qed code_simp+
  then show ?thesis by (simp add: parseOwnerSigningRequest_def signing_request_codec.parse_literal [OF sample_ext_ok])
qed

text \<open>C28: Captured typed data is well typed. Its declarations are bounded, in canonical order, with distinct fields and only
  known types, and the domain uses the standard fields in order; the domain and the message of a signing request are values of
  their declared structs, field by field and element by element, every integer inside the range of its width, every fixed
  array and byte string of its exact length.\<close>

theorem typed_data_well_typed:
  assumes "ext_ok E" "parseOwnerSigningRequest E v = Inr (Eip712Request r)"
  shows "wf_typed_data (sq_typedData r)"
  using parsed_signing_request [OF assms] captured_typed_data_ok [OF assms(1)] by (auto simp: wf_signing_request_def)

theorem typed_data_well_typed_witness:
  "has_type sample_types (struct_of ''Mail'') (td_message sample_typed_data)"
  using typed_data_well_typed [OF sample_ext_ok sample_signing_request_parsed [unfolded sample_signing_request_def]]
  by (simp add: wf_typed_data_def) (simp add: sample_typed_data_def)

text \<open>C29: Captured typed data is bounded, whatever is offered: at most 4096 values and 64 KiB of names, types and scalars in
  the declarations, the domain and the message together, nested at most seventeen levels deep.\<close>

theorem typed_data_bounded:
  assumes "ext_ok E" "parseCanonicalEip712TypedData E v = Inr td"
  shows "value_count (td_domain td) + value_count (td_message td) \<le> 4096 \<and>
    types_bytes (td_types td) + value_bytes (td_domain td) + value_bytes (td_message td) \<le> 65536 \<and>
    within_depth 17 (td_domain td) \<and> within_depth 17 (td_message td)"
  using captured_typed_data_ok [OF assms(1) parsed_typed_data [OF assms(2)]]
  by (simp add: bounded_typed_data_def MAX_TOTAL_VALUES_def MAX_TOTAL_BYTES_def MAX_DEPTH_def)

theorem typed_data_bounded_witness:
  "value_count (td_domain sample_typed_data) + value_count (td_message sample_typed_data) \<le> 4096"
  using typed_data_bounded [OF sample_ext_ok sample_typed_data_parsed] by simp

text \<open>C30: The declared structs of captured typed data are exactly the domain and those the primary type reaches
  through the fields of structs: the worklist loop computes the reflexive transitive closure of the references, and no
  unreferenced or repeated struct passes.\<close>

theorem typed_data_reachable:
  assumes "ext_ok E" "parseCanonicalEip712TypedData E v = Inr td"
  shows "distinct (map fst (td_types td)) \<and>
    set (map fst (td_types td)) = insert ''EIP712Domain'' {d. (refers (td_types td))\<^sup>*\<^sup>* (td_primaryType td) d}"
  using captured_typed_data_ok [OF assms(1) parsed_typed_data [OF assms(2)]] by (simp add: closed_typed_data_def)

theorem typed_data_reachable_witness:
  "{''EIP712Domain'', ''Mail'', ''Person''} = insert ''EIP712Domain'' {d. (refers sample_types)\<^sup>*\<^sup>* ''Mail'' d}"
  using typed_data_reachable [OF sample_ext_ok sample_typed_data_parsed] by (simp add: sample_typed_data_def) (simp add: sample_types_def)

text \<open>C31: A captured signing request, offered again, is captured as itself: nothing the owner reviews is lost or rewritten
  between one capture and the next, and the second capture spends exactly the budget of the first.\<close>

theorem signing_request_round_trip:
  assumes "ext_ok E" "parseOwnerSigningRequest E v = Inr r"
  shows "parseOwnerSigningRequest E (signing_request_literal [] r) = Inr r"
  using parsed_signing_request [OF assms] by (simp add: parseOwnerSigningRequest_def signing_request_codec.parse_literal [OF assms(1)])

theorem signing_request_round_trip_witness:
  "parseOwnerSigningRequest sample_ext (signing_request_literal [] sample_signing_request) = Inr sample_signing_request"
  by (rule signing_request_round_trip [OF sample_ext_ok sample_signing_request_parsed])

text \<open>A struct whose name begins like an integer or byte type can be declared, but no field can refer to it.\<close>

lemma prefixed_struct_unreferable:
  "eip_identifier (JString ''interval'') fail = Inr ''interval'' \<and> \<not> isBuiltin ''interval'' \<and> parseType (JString ''interval'') fail = Inl fail"
  by code_simp

end
