(* ===== verification/Spec2Isabelle.thy ===== *)
theory Spec2Isabelle
  imports Permission_Properties Operation_Lifecycle Routing Store_Properties Runner_Properties Observer_Properties Signing_Request
begin

text \<open>
  Verification development for the TypeScript packages \<open>@oaath/protocol\<close>
  (\<open>packages/protocol/src\<close>) and \<open>@oaath/sdk\<close> (\<open>packages/sdk/src\<close>).

  \<^bold>\<open>The program.\<close> OAATH lets an application ask the owner of a smart account for a bounded
  authority, a \<^emph>\<open>Grant\<close>, and then execute calls under it with a session key. An application's
  permission request carries a Grant policy; the owner's decision approves a policy that attenuates
  it; the Grant record follows the authority through approval, materialization on each chain, expiry
  and proved revocation; the coverage check decides whether calls fall under the approved policy; the
  router picks the signer and the submission route; an \<^emph>\<open>Operation\<close> record follows one ERC-4337
  UserOperation from preparation through submission and chain observation to a proved end; the stores
  keep both records behind compare-and-swap; the runner takes an Operation from preparation through
  publication and a single send to observation; the observer reads the chain and settles an Operation
  only on verified evidence. Every record that enters is an untrusted JavaScript value
  and is captured field by field by an exact-record parser.

  \<^bold>\<open>Theories, in import order.\<close>
  \<^item> \<open>Prelude\<close>: fact collections, character classes and regular expressions, decimal strings, numeric
    bounds, strictly sorted lists.
  \<^item> \<open>Exact_Record\<close> (\<open>internal/exact-record.ts\<close>): JavaScript values with identity, prototype and
    property descriptors; the capture functions with their alias context; the locales \<open>literal_codec\<close>, a
    parser reads the literal of a record back as that record, and \<open>codec\<close>, it also returns no other records.
  \<^item> \<open>Validators\<close> (\<open>errors.ts\<close>, \<open>address.ts\<close>, \<open>ids.ts\<close>): the error vocabulary, scalar validators,
    and \<open>ext\<close>, the record of the functions taken from other packages.
  \<^item> \<open>Grant_Policy\<close>, \<open>Abi\<close>, \<open>Policy_Coverage\<close> (\<open>grant-policy.ts\<close>): policy parsing, the ABI words a
    matcher reads, attenuation, coverage of calls. Shown: attenuation never widens coverage, the coverage
    decision agrees with a declarative specification, denials name the first failing call, round trips.
  \<^item> \<open>Identity_Profile\<close> (\<open>identity-profile.ts\<close>): owner and operator credentials and Kernel account
    profiles, as codecs.
  \<^item> \<open>Grant_Record\<close>, \<open>Grant_Codec\<close>, \<open>Grant_Machine\<close>, \<open>Grant_Invariant\<close>, \<open>Grant_Lifecycle\<close> (\<open>grant.ts\<close>):
    the Grant record, its parser, the transitions of \<open>advanceGrant\<close>, the invariant \<open>wf_grant\<close>, and the
    properties of reachable Grants: re-parsing (with the exception of an over-long origin), forward histories, final states, revision counting, and
    that a revoked Grant carries evidence for every target.
  \<^item> \<open>Permission_Protocol\<close>, \<open>Permission_Properties\<close> (\<open>permission-protocol.ts\<close>,
    \<open>workspace-account-context.ts\<close>): requests, decisions and \<open>applyPermissionDecision\<close>, shown equal to
    a specification on captured values; approval stays within the request and takes effect once.
  \<^item> \<open>Operation_Record\<close>, \<open>Operation_Codec\<close>, \<open>Operation_Machine\<close>, \<open>Operation_Lifecycle\<close>
    (\<open>operation.ts\<close>): the eight states and nine transitions; the machine refines an abstract lifecycle
    graph, submission is attempted at most once, settled operations carry their proof.
  \<^item> \<open>Routing\<close> (\<open>sdk/src/routing\<close>: \<open>types.ts\<close>, \<open>capabilities.ts\<close>, \<open>decide.ts\<close>, \<open>auto.ts\<close>): route facts
    and the signer and route decision, tied to the raw entries of the input.
  \<^item> \<open>Store\<close> (\<open>sdk/src/store.ts\<close>), \<open>Store_Concurrency\<close>, \<open>Memory_Store\<close>
    (\<open>persistence/memory/stores.ts\<close>), \<open>Store_Properties\<close>: the stores with every asynchronous method cut
    at its awaits, the interleaving of calls in flight, the locales \<open>atomic_backend\<close>, \<open>journal\<close> and
    \<open>live_journal\<close> as the contract of a backend, and their interpretations on the in-memory backends. Shown for every
    schedule: a lane is an append-only log of validated records, a revision has one winner, no
    operation is lost, a failed call leaves no trace, an uncontended call commits.
  \<^item> \<open>Prepared_User_Operation\<close> (\<open>sdk/src/prepared-user-operation.ts\<close>): the unsigned UserOperation and the
    record bound to its signing hash, as codecs; a record with another hash is refused.
  \<^item> \<open>Operation_Runner\<close> (\<open>sdk/src/operation-runner.ts\<close>): every method of a runner as the tree of the calls
    it makes, branching on their answers, and the close protocol. \<open>Runner_Safety\<close>: a weakest
    precondition over these trees and what each method does with the right to send; a closed runner has
    released everything. \<open>Runner_System\<close>, \<open>Runner_Properties\<close>: any number of methods on any number of
    runners over one store and in-memory journal, in any interleaving and with crashes. Shown: no
    operation is sent twice, and a send is recorded durably before it happens.
  \<^item> \<open>Operation_Observer\<close>, \<open>Observer_Properties\<close> (\<open>sdk/src/operation-observer.ts\<close>): the parsers of receipts,
    transactions and blocks, the execution window of a UserOperation, and both observers as trees of the
    reads they make of a provider that may answer anything, fail or not answer in time. Shown over the
    trace of those reads: a settled result is proved by the reads it names, a verified receipt exposes
    only the operation's own execution, an observation of a reference always answers, and the runner
    accepts every result of its observer and derives the same record from it.
  \<^item> \<open>Typed_Data\<close>, \<open>Typed_Data_Codec\<close>, \<open>Signing_Request\<close> (\<open>signing-request.ts\<close>): EIP-712 type declarations,
    the capture of domain and message values under a budget of values and bytes, the reachable structs,
    and the two kinds of owner signing request with their canonical encoding. Shown: captured typed data
    is well typed and bounded, it declares exactly the structs its primary type reaches, and a captured
    request is captured again as itself.

  \<^bold>\<open>How the model reads the code.\<close>
  \<^item> A parser is a function from an untrusted \<open>jsval\<close> to a sum: \<open>Inl\<close> is the error thrown (its class and
    code; the message text is not modelled), \<open>Inr\<close> the captured record. Each \<open>if (...) fail\<close> is a
    \<open>guardC\<close> or a branch, in source order.
  \<^item> A record's \<open>version\<close> field is checked by the parser against the constant and not carried in the HOL
    record. \<open>*_literal\<close> builds the object the program itself would build for a record; the identities of
    its objects are access paths, so that no two alias.
  \<^item> JavaScript safe integers are \<open>int\<close> with the bounds checked where the code checks them; decimal
    strings stay strings and are read by \<open>BigInt\<close>; negative zero and non-integers are values of their own.
  \<^item> Code of other packages (address checksum, Keccak, ABI encoder, P-256 points, the URL parser) is the
    argument \<open>E :: ext\<close>, the signing hash of a UserOperation the argument \<open>H\<close>, the EIP-712 hash the
    argument \<open>T\<close>; \<open>ext_ok E\<close> is the documented behaviour the properties use, and \<open>sample_ext\<close> an
    instance that has it. Of the URL parser it says that the origin of an HTTP URL is the URL of that same origin,
    and nothing of its length: the origin validator bounds its input at 2048 characters and returns the parser's
    serialisation, so a captured origin can be longer, and every statement about re-parsing says so.
  \<^item> All definitions are total functions or inductive relations; there is no fuel. The recursion of \<open>captureValue\<close> counts
    down from the nesting limit of the source, and running out is the source's own error. The loops of the runner
    have the bounds of the source (two publications, three acknowledgements, three observations).
  \<^item> What a capability, a timer or a crashed process does is an answer, or the absence of one, chosen by
    the schedule; nothing is assumed of it.

  \<^bold>\<open>Not modelled.\<close> The provider-scoped journals and the owner-operation, owner-transaction and Grant-reference contracts, further
  records in the style of the modelled ones; the check of the calldata behind an inclusion
  (\<open>operation-execution.ts\<close>), which is the decoder of another package; the IndexedDB backends, whose medium is a
  browser API; the wallet provider, client orchestration, Kernel calldata construction, bundler
  transport and sponsorship, which are network and encoder glue around the modelled decisions; the
  automation packages, command line, portal, examples, relay and contracts, which are other programs.
  Inside the modelled files: message texts, the validation-gas diagnostic an error may carry, and the
  check that a store adapter offers functions.
\<close>

end
